(* ===== verification/Blb_Prelude.thy ===== *)
theory Blb_Prelude
  imports Main "HOL-Library.Word" "HOL-Library.Monad_Syntax" "HOL-Library.Multiset"
begin

text \<open>
  Shared vocabulary of the development: how Go values and Go control flow are represented,
  and the generic lemmas that the component theories lean on.

  \<^item> A Go \<^verbatim>\<open>string\<close> and a Go \<^verbatim>\<open>[]byte\<close> are both byte sequences; both are \<^typ>\<open>char list\<close>
    here, so the conversions \<^verbatim>\<open>[]byte(s)\<close> and \<^verbatim>\<open>string(b)\<close> are the identity. The nil slice and
    the empty slice are both the empty list, which is also what \<^verbatim>\<open>encoding/gob\<close> and
    \<^verbatim>\<open>encoding/json\<close> make of them.
  \<^item> \<^verbatim>\<open>uint64\<close> is \<^typ>\<open>64 word\<close> (arithmetic wraps), \<^verbatim>\<open>*big.Int\<close> is \<^typ>\<open>int\<close>, and the result of
    \<^verbatim>\<open>len\<close> is a \<^typ>\<open>nat\<close>.
  \<^item> A \<^verbatim>\<open>time.Time\<close> is the number of nanoseconds since the zero time, so \<^verbatim>\<open>IsZero\<close> is \<open>t = 0\<close>.
  \<^item> A panic (\<^verbatim>\<open>log.Panic\<close>, an out-of-range index, a write to a nil map, a division by zero)
    stops the process; an operation that can panic returns an option and \<^const>\<open>None\<close> is the panic.
    Errors that the code returns as values are values of the result.
\<close>

type_synonym u64 = "64 word"
type_synonym u8 = "8 word"
type_synonym bytes = "char list"
type_synonym address = "char list"
type_synonym time = int

named_theorems codec_simps "laws of the encoders and decoders"
named_theorems pool_simps "equations of the transaction pool"
named_theorems chain_simps "frame equations of the blockchain operations"
named_theorems pbft_frame "frame equations of the PBFT handlers"

section \<open>Loops that may panic\<close>

text \<open>\<open>foldlM f s xs\<close> is \<^verbatim>\<open>for _, x := range xs\<close> with loop state \<open>s\<close>; a panic in the body stops it.\<close>

primrec foldlM :: "('s \<Rightarrow> 'a \<Rightarrow> 's option) \<Rightarrow> 's \<Rightarrow> 'a list \<Rightarrow> 's option" where
  "foldlM f s [] = Some s"
| "foldlM f s (x # xs) = do { s' \<leftarrow> f s x; foldlM f s' xs }"

lemma foldlM_append: "foldlM f s (xs @ ys) = do { s' \<leftarrow> foldlM f s xs; foldlM f s' ys }"
  by (induction xs arbitrary: s) (auto split: bind_splits)

lemma foldlM_invariant:
  assumes "foldlM f s xs = Some s'" and "P s"
    and "\<And>s x s'. x \<in> set xs \<Longrightarrow> P s \<Longrightarrow> f s x = Some s' \<Longrightarrow> P s'"
  shows "P s'"
  using assms
proof (induction xs arbitrary: s)
  case Nil
  then show ?case by simp
next
  case (Cons x xs)
  from Cons.prems(1) obtain t where t: "f s x = Some t" "foldlM f t xs = Some s'"
    by (auto simp: bind_eq_Some_conv)
  with Cons.prems(2,3) have "P t" by (metis list.set_intros(1))
  with Cons.IH t(2) Cons.prems(3) show ?case by (meson list.set_intros(2))
qed

lemma foldlM_total:
  assumes "P s"
    and "\<And>s x. x \<in> set xs \<Longrightarrow> P s \<Longrightarrow> \<exists>s'. f s x = Some s' \<and> P s'"
  shows "\<exists>s'. foldlM f s xs = Some s' \<and> P s'"
  using assms
proof (induction xs arbitrary: s)
  case Nil
  then show ?case by simp
next
  case (Cons x xs)
  from Cons.prems obtain t where t: "f s x = Some t" "P t" by force
  with Cons.IH[of t] Cons.prems(2) show ?case by auto
qed

lemma foldlM_cong:
  "(\<And>s x. x \<in> set xs \<Longrightarrow> f s x = g s x) \<Longrightarrow> foldlM f s xs = foldlM g s xs"
  by (induction xs arbitrary: s) (auto intro!: Option.bind_cong)

lemma foldlM_Some: "foldlM (\<lambda>s x. Some (g s x)) s xs = Some (foldl g s xs)"
  by (induction xs arbitrary: s) auto

lemma those_map: "(\<And>x. x \<in> set xs \<Longrightarrow> f x = Some (g x)) \<Longrightarrow> those (map f xs) = Some (map g xs)"
  by (induction xs) auto

text \<open>A simulation between two loops, used to relate a loop of the code to its specification.\<close>

lemma foldlM_simulation:
  assumes "foldlM f s xs = Some s'" and "R s t"
    and "\<And>s x s' t. x \<in> set xs \<Longrightarrow> R s t \<Longrightarrow> f s x = Some s' \<Longrightarrow> R s' (g t x)"
  shows "R s' (foldl g t xs)"
  using assms
proof (induction xs arbitrary: s t)
  case Nil
  then show ?case by simp
next
  case (Cons x xs)
  from Cons.prems(1) obtain u where u: "f s x = Some u" "foldlM f u xs = Some s'"
    by (auto simp: bind_eq_Some_conv)
  with Cons.prems(2,3) have "R u (g t x)" by simp
  with Cons.IH[OF u(2)] Cons.prems(3) show ?case by simp
qed

section \<open>Lists\<close>

lemma mset_filter_partition: "mset (filter P xs) + mset (filter (\<lambda>x. \<not> P x) xs) = mset xs"
  by (induction xs) auto

lemma filter_map_swap: "filter P (map f xs) = map f (filter (P \<circ> f) xs)"
  by (simp add: filter_map)

lemma sum_list_upd_nth:
  fixes xs :: "'a::ab_group_add list"
  shows "i < length xs \<Longrightarrow> sum_list (xs[i := v]) = sum_list xs - xs ! i + v"
  by (induction xs arbitrary: i) (auto split: nat.splits simp: algebra_simps)

section \<open>Unsigned counters\<close>

text \<open>The Go loop \<^verbatim>\<open>for sid := uint64(0); sid < n; sid++\<close> visits these values in this order.\<close>

definition u64_range :: "u64 \<Rightarrow> u64 list" where
  "u64_range n = map of_nat [0..<unat n]"

lemma set_u64_range [simp]: "set (u64_range n) = {i. i < n}"
proof -
  have "i \<in> (of_nat :: nat \<Rightarrow> u64) ` {0..<unat n}" if "i < n" for i
    using that by (intro image_eqI[of _ _ "unat i"]) (auto simp: word_less_nat_alt)
  moreover have "(of_nat k :: u64) < n" if "k < unat n" for k
  proof -
    from that have "k < 2 ^ LENGTH(64)" using unsigned_less[of n] by (metis order.strict_trans)
    with that show ?thesis by (simp add: word_less_nat_alt unat_of_nat take_bit_nat_eq_self)
  qed
  ultimately show ?thesis by (auto simp: u64_range_def)
qed

lemma distinct_u64_range [simp]: "distinct (u64_range n)"
proof -
  have "inj_on (of_nat :: nat \<Rightarrow> u64) {0..<unat n}"
  proof (rule inj_onI)
    fix a b :: nat
    assume ab: "a \<in> {0..<unat n}" "b \<in> {0..<unat n}" "(of_nat a :: u64) = of_nat b"
    then have "a < 2 ^ LENGTH(64)" "b < 2 ^ LENGTH(64)"
      using unsigned_less[of n] by (auto intro: order.strict_trans)
    with ab(3) show "a = b" by (simp add: word_of_nat_eq_iff take_bit_nat_eq_self)
  qed
  then show ?thesis by (simp add: u64_range_def distinct_map)
qed

lemma length_u64_range [simp]: "length (u64_range n) = unat n"
  by (simp add: u64_range_def)

text \<open>Go's \<^verbatim>\<open>int32(x)\<close> keeps the low 32 bits as a signed value.\<close>

definition to_int32 :: "int \<Rightarrow> int" where
  "to_int32 x = (x + 2 ^ 31) mod 2 ^ 32 - 2 ^ 31"

lemma to_int32_id: "- (2 ^ 31) \<le> x \<Longrightarrow> x < 2 ^ 31 \<Longrightarrow> to_int32 x = x"
  by (simp add: to_int32_def)

text \<open>Go's \<^verbatim>\<open>%\<close> truncates towards zero; the result has the sign of the dividend.\<close>

definition go_rem :: "int \<Rightarrow> int \<Rightarrow> int option" where
  "go_rem a b = (if b = 0 then None else Some (sgn a * (\<bar>a\<bar> mod \<bar>b\<bar>)))"

lemma go_rem_nonneg: "0 \<le> a \<Longrightarrow> 0 < b \<Longrightarrow> go_rem a b = Some (a mod b)"
  by (cases "a = 0") (auto simp: go_rem_def)

text \<open>Go's integer division truncates towards zero.\<close>

definition go_quot :: "int \<Rightarrow> int \<Rightarrow> int option" where
  "go_quot a b = (if b = 0 then None else Some (sgn a * sgn b * (\<bar>a\<bar> div \<bar>b\<bar>)))"

lemma go_quot_nonneg: "0 \<le> a \<Longrightarrow> 0 < b \<Longrightarrow> go_quot a b = Some (a div b)"
  by (cases "a = 0") (auto simp: go_quot_def)

section \<open>Formatting\<close>

text \<open>\<^verbatim>\<open>%d\<close> of a non-negative number.\<close>

fun dec_digits :: "nat \<Rightarrow> bytes" where
  "dec_digits n = (if n < 10 then [char_of (48 + n)] else dec_digits (n div 10) @ [char_of (48 + n mod 10)])"

declare dec_digits.simps [simp del]

text \<open>\<^verbatim>\<open>strconv.Itoa\<close> and \<^verbatim>\<open>strconv.FormatInt\<close> in base ten, and the verb \<^verbatim>\<open>%d\<close>\<close>

definition Itoa :: "int \<Rightarrow> bytes" where
  "Itoa n = (if n < 0 then CHR ''-'' # dec_digits (nat (- n)) else dec_digits (nat n))"

end
