(* ===== verification/Params_Config.thy ===== *)
theory Params_Config
  imports Blb_Prelude
begin

text \<open>
  The configuration of \<^verbatim>\<open>params/\<close>: the global variables that \<^verbatim>\<open>ReadConfigFile\<close> sets (the fields
  of \<open>Params\<close>; \<^verbatim>\<open>ShardNum\<close> and \<^verbatim>\<open>NodesInShard\<close> are set by \<^verbatim>\<open>main.go\<close>), the opt-in overhead
  experiment and the per-chain configuration.
\<close>

record OverheadConfig =
  oh_Enabled :: bool
  oh_Lightweight :: bool
  oh_Migration :: bool
  oh_MigrationAfterSeconds :: int
  oh_MigrationAccounts :: int
  oh_TimeoutSeconds :: int
  oh_StreamSkipNode :: int

record Params =
  pm_NodesInShard :: int
  pm_ShardNum :: int
  pm_ConsensusMethod :: int
  pm_PbftViewChangeTimeOut :: int
  pm_Block_Interval :: int
  pm_MaxBlockSize_global :: int
  pm_BlocksizeInBytes :: int
  pm_UseBlocksizeInBytes :: int
  pm_InjectSpeed :: int
  pm_TotalDataSize :: int
  pm_TxBatchSize :: int
  pm_BrokerNum :: int
  pm_RelayWithMerkleProof :: int
  pm_ExpDataRootDir :: bytes
  pm_DataWrite_path :: bytes
  pm_LogWrite_path :: bytes
  pm_DatabaseWrite_path :: bytes
  pm_DatasetFile :: bytes
  pm_ReconfigTimeGap :: int
  pm_Delay :: int
  pm_JitterRange :: int
  pm_Bandwidth :: int
  pm_Overhead :: OverheadConfig

text \<open>The JSON document, as \<^verbatim>\<open>json.Unmarshal\<close> fills it in.\<close>

record globalConfig =
  gc_Overhead :: OverheadConfig
  gc_ConsensusMethod :: int
  gc_PbftViewChangeTimeOut :: int
  gc_ExpDataRootDir :: bytes
  gc_BlockInterval :: int
  gc_BlocksizeInBytes :: int
  gc_MaxBlockSizeGlobal :: int
  gc_UseBlocksizeInBytes :: int
  gc_InjectSpeed :: int
  gc_TotalDataSize :: int
  gc_TxBatchSize :: int
  gc_BrokerNum :: int
  gc_RelayWithMerkleProof :: int
  gc_DatasetFile :: bytes
  gc_ReconfigTimeGap :: int
  gc_Delay :: int
  gc_JitterRange :: int
  gc_Bandwidth :: int

text \<open>\<^const>\<open>None\<close> is \<^verbatim>\<open>log.Fatal\<close>; \<open>config\<close> is \<^const>\<open>None\<close> when the file cannot be read or parsed.\<close>

definition ReadConfigFile :: "globalConfig option \<Rightarrow> Params \<Rightarrow> Params option" where
  "ReadConfigFile config_file p =
     do { config \<leftarrow> config_file;
          let oh = gc_Overhead config;
          if oh_Enabled oh \<and>
             (oh_TimeoutSeconds oh \<le> 0 \<or> gc_Bandwidth config = 0 \<or> gc_InjectSpeed config \<le> 0 \<or>
              gc_TxBatchSize config \<le> 0 \<or> gc_TotalDataSize config \<le> 0 \<or>
              (oh_Migration oh \<and> (oh_MigrationAfterSeconds oh \<le> 0 \<or> oh_MigrationAccounts oh \<le> 0)))
          then None
          else Some (p\<lparr>pm_Overhead := oh,
             pm_ConsensusMethod := gc_ConsensusMethod config,
             pm_PbftViewChangeTimeOut := gc_PbftViewChangeTimeOut config,
             pm_ExpDataRootDir := gc_ExpDataRootDir config,
             pm_DataWrite_path := gc_ExpDataRootDir config @ ''/result/'',
             pm_LogWrite_path := gc_ExpDataRootDir config @ ''/log'',
             pm_DatabaseWrite_path := gc_ExpDataRootDir config @ ''/database/'',
             pm_Block_Interval := gc_BlockInterval config,
             pm_MaxBlockSize_global := gc_MaxBlockSizeGlobal config,
             pm_BlocksizeInBytes := gc_BlocksizeInBytes config,
             pm_UseBlocksizeInBytes := gc_UseBlocksizeInBytes config,
             pm_InjectSpeed := gc_InjectSpeed config,
             pm_TotalDataSize := gc_TotalDataSize config,
             pm_TxBatchSize := gc_TxBatchSize config,
             pm_BrokerNum := gc_BrokerNum config,
             pm_RelayWithMerkleProof := gc_RelayWithMerkleProof config,
             pm_DatasetFile := gc_DatasetFile config,
             pm_ReconfigTimeGap := gc_ReconfigTimeGap config,
             pm_Delay := gc_Delay config,
             pm_JitterRange := gc_JitterRange config,
             pm_Bandwidth := gc_Bandwidth config\<rparr>) }"

record ChainConfig =
  cc_ChainID :: u64
  cc_NodeID :: u64
  cc_ShardID :: u64
  cc_Nodes_perShard :: u64
  cc_ShardNums :: u64
  cc_BlockSize :: u64
  cc_BlockInterval :: u64
  cc_InjectSpeed :: u64
  cc_MaxRelayBlockSize :: u64

definition SupervisorShard :: u64 where "SupervisorShard = 2147483647"

definition Init_Balance :: int where "Init_Balance = 10 ^ 44"

lemma Init_Balance_pos: "0 < Init_Balance"
  by (simp add: Init_Balance_def)

text \<open>An accepted configuration that enables the overhead experiment has usable rates.\<close>

lemma ReadConfigFile_overhead:
  assumes "ReadConfigFile c p = Some p'" and "oh_Enabled (pm_Overhead p')"
  shows "0 < oh_TimeoutSeconds (pm_Overhead p')" "pm_Bandwidth p' \<noteq> 0" "0 < pm_InjectSpeed p'"
    "0 < pm_TxBatchSize p'" "0 < pm_TotalDataSize p'"
    "oh_Migration (pm_Overhead p') \<Longrightarrow>
       0 < oh_MigrationAfterSeconds (pm_Overhead p') \<and> 0 < oh_MigrationAccounts (pm_Overhead p')"
  using assms by (cases c; fastforce simp: ReadConfigFile_def Let_def not_le split: if_splits)+

end
