(* ===== verification/Core_Data.thy ===== *)
theory Core_Data
  imports Params_Config
begin

text \<open>
  The data of \<^verbatim>\<open>core/account.go\<close>, \<^verbatim>\<open>core/transaction.go\<close> and \<^verbatim>\<open>core/block.go\<close>, and the helpers
  of \<^verbatim>\<open>utils/utils_partition.go\<close>.

  The record \<open>core_env\<close> collects the code these files call and that is not in the repository:
  the serialiser \<^verbatim>\<open>encoding/gob\<close>, the hash \<^verbatim>\<open>crypto/sha256\<close> and the bit set of the package
  \<^verbatim>\<open>bits-and-blooms/bitset\<close> (its type is the type variable \<open>'bs\<close>). Every definition that uses
  one of them takes the environment as an argument; \<open>core_laws\<close> names the documented behaviour
  that proofs may assume. The environment also carries the global parameters.
\<close>

section \<open>Accounts\<close>

record AccountState =
  as_AcAddress :: address
  as_Nonce :: u64
  as_Balance :: int
  as_StorageRoot :: bytes
  as_CodeHash :: bytes

text \<open>\<^verbatim>\<open>Deduct\<close> answers whether the balance covered the amount, and the account afterwards.\<close>

definition Deduct :: "AccountState \<Rightarrow> int \<Rightarrow> bool \<times> AccountState" where
  "Deduct as val =
     (if as_Balance as < val then (False, as)
      else (True, as\<lparr>as_Balance := as_Balance as - val\<rparr>))"

definition Deposit :: "AccountState \<Rightarrow> int \<Rightarrow> AccountState" where
  "Deposit s val = s\<lparr>as_Balance := as_Balance s + val\<rparr>"

lemma Deduct_balance:
  "fst (Deduct a v) \<Longrightarrow> as_Balance (snd (Deduct a v)) = as_Balance a - v"
  "\<not> fst (Deduct a v) \<Longrightarrow> snd (Deduct a v) = a"
  "fst (Deduct a v) \<longleftrightarrow> v \<le> as_Balance a"
  by (auto simp: Deduct_def)

lemma Deposit_balance [simp]: "as_Balance (Deposit a v) = as_Balance a + v"
  by (simp add: Deposit_def)

lemma Deposit_Deduct: "fst (Deduct a v) \<Longrightarrow> Deposit (snd (Deduct a v)) v = a"
  by (auto simp: Deduct_def Deposit_def split: if_splits)

section \<open>Transactions and blocks\<close>

record Transaction =
  tx_Sender :: address
  tx_Recipient :: address
  tx_Nonce :: u64
  tx_Signature :: bytes
  tx_Value :: int
  tx_TxHash :: bytes
  tx_Time :: time
  tx_Relayed :: bool
  tx_HasBroker :: bool
  tx_SenderIsBroker :: bool
  tx_OriginalSender :: address
  tx_FinalRecipient :: address
  tx_RawTxHash :: bytes

record 'bs BlockHeader =
  bh_ParentBlockHash :: bytes
  bh_StateRoot :: bytes
  bh_TxRoot :: bytes
  bh_Bloom :: 'bs
  bh_Number :: u64
  bh_Time :: time
  bh_Miner :: int

record 'bs Block =
  bk_Header :: "'bs BlockHeader"
  bk_Body :: "Transaction list"
  bk_Hash :: bytes

record 'bs core_env =
  prm :: Params
  sha256_Sum256 :: "bytes \<Rightarrow> bytes"
  gob_AS :: "AccountState \<Rightarrow> bytes"
  ungob_AS :: "bytes \<Rightarrow> AccountState option"
  gob_Tx :: "Transaction \<Rightarrow> bytes"
  ungob_Tx :: "bytes \<Rightarrow> Transaction option"
  gob_BH :: "'bs BlockHeader \<Rightarrow> bytes"
  ungob_BH :: "bytes \<Rightarrow> 'bs BlockHeader option"
  gob_B :: "'bs Block \<Rightarrow> bytes"
  ungob_B :: "bytes \<Rightarrow> 'bs Block option"
  bs_New :: "nat \<Rightarrow> 'bs"
  bs_Set :: "nat \<Rightarrow> 'bs \<Rightarrow> 'bs"
  bs_Test :: "'bs \<Rightarrow> nat \<Rightarrow> bool"

text \<open>
  What the code relies on: gob decodes what it encoded and never encodes a struct as the empty
  string; SHA-256 digests have 32 bytes; a bit set holds exactly the bits that were set.
\<close>

definition core_laws :: "('bs, 'e) core_env_scheme \<Rightarrow> bool" where
  "core_laws E \<longleftrightarrow>
     (\<forall>a. ungob_AS E (gob_AS E a) = Some a) \<and> (\<forall>a. gob_AS E a \<noteq> []) \<and>
     (\<forall>t. ungob_Tx E (gob_Tx E t) = Some t) \<and>
     (\<forall>h. ungob_BH E (gob_BH E h) = Some h) \<and>
     (\<forall>b. ungob_B E (gob_B E b) = Some b) \<and> (\<forall>b. gob_B E b \<noteq> []) \<and>
     (\<forall>m. length (sha256_Sum256 E m) = 32) \<and>
     (\<forall>n i. \<not> bs_Test E (bs_New E n) i) \<and>
     (\<forall>s i j. bs_Test E (bs_Set E i s) j = (j = i \<or> bs_Test E s j))"

lemma core_lawsD [codec_simps]:
  assumes "core_laws E"
  shows "ungob_AS E (gob_AS E a) = Some a" "gob_AS E a \<noteq> []"
    "ungob_Tx E (gob_Tx E t) = Some t" "ungob_BH E (gob_BH E h) = Some h"
    "ungob_B E (gob_B E b) = Some b" "gob_B E b \<noteq> []"
    "length (sha256_Sum256 E m) = 32"
    "\<not> bs_Test E (bs_New E n) i" "bs_Test E (bs_Set E i s) j = (j = i \<or> bs_Test E s j)"
  using assms by (simp_all add: core_laws_def)

text \<open>The decoders panic on malformed input; the encoders of these structs do not fail.\<close>

definition AS_Encode :: "('bs, 'e) core_env_scheme \<Rightarrow> AccountState \<Rightarrow> bytes" where
  "AS_Encode E as = gob_AS E as"

definition DecodeAS :: "('bs, 'e) core_env_scheme \<Rightarrow> bytes \<Rightarrow> AccountState option" where
  "DecodeAS E b = ungob_AS E b"

definition AS_Hash :: "('bs, 'e) core_env_scheme \<Rightarrow> AccountState \<Rightarrow> bytes" where
  "AS_Hash E as = sha256_Sum256 E (AS_Encode E as)"

definition Tx_Encode :: "('bs, 'e) core_env_scheme \<Rightarrow> Transaction \<Rightarrow> bytes" where
  "Tx_Encode E tx = gob_Tx E tx"

definition DecodeTx :: "('bs, 'e) core_env_scheme \<Rightarrow> bytes \<Rightarrow> Transaction option" where
  "DecodeTx E b = ungob_Tx E b"

definition BH_Encode :: "('bs, 'e) core_env_scheme \<Rightarrow> 'bs BlockHeader \<Rightarrow> bytes" where
  "BH_Encode E bh = gob_BH E bh"

definition DecodeBH :: "('bs, 'e) core_env_scheme \<Rightarrow> bytes \<Rightarrow> 'bs BlockHeader option" where
  "DecodeBH E b = ungob_BH E b"

definition BH_Hash :: "('bs, 'e) core_env_scheme \<Rightarrow> 'bs BlockHeader \<Rightarrow> bytes" where
  "BH_Hash E bh = sha256_Sum256 E (BH_Encode E bh)"

definition B_Encode :: "('bs, 'e) core_env_scheme \<Rightarrow> 'bs Block \<Rightarrow> bytes" where
  "B_Encode E b = gob_B E b"

definition DecodeB :: "('bs, 'e) core_env_scheme \<Rightarrow> bytes \<Rightarrow> 'bs Block option" where
  "DecodeB E b = ungob_B E b"

lemma decode_encode [codec_simps]:
  assumes "core_laws E"
  shows "DecodeAS E (AS_Encode E a) = Some a" "DecodeTx E (Tx_Encode E t) = Some t"
    "DecodeBH E (BH_Encode E h) = Some h" "DecodeB E (B_Encode E b) = Some b"
    "AS_Encode E a \<noteq> []" "B_Encode E b \<noteq> []"
  using core_lawsD[OF assms]
  by (simp_all add: DecodeAS_def AS_Encode_def DecodeTx_def Tx_Encode_def DecodeBH_def
      BH_Encode_def DecodeB_def B_Encode_def)

definition NewBlock :: "'bs BlockHeader \<Rightarrow> Transaction list \<Rightarrow> 'bs Block" where
  "NewBlock bh bb = \<lparr>bk_Header = bh, bk_Body = bb, bk_Hash = []\<rparr>"

text \<open>The transaction is hashed before its hash field is filled in.\<close>

definition NewTransaction ::
    "('bs, 'e) core_env_scheme \<Rightarrow> address \<Rightarrow> address \<Rightarrow> int \<Rightarrow> u64 \<Rightarrow> time \<Rightarrow> Transaction" where
  "NewTransaction E sender recipient val nonce proposeTime =
     (let tx = \<lparr>tx_Sender = sender, tx_Recipient = recipient, tx_Nonce = nonce,
                tx_Signature = [], tx_Value = val, tx_TxHash = [], tx_Time = proposeTime,
                tx_Relayed = False, tx_HasBroker = False, tx_SenderIsBroker = False,
                tx_OriginalSender = [], tx_FinalRecipient = [], tx_RawTxHash = []\<rparr>
      in tx\<lparr>tx_TxHash := sha256_Sum256 E (Tx_Encode E tx)\<rparr>)"

lemma NewTransaction_fields [simp]:
  "tx_Sender (NewTransaction E s r v n t) = s"
  "tx_Recipient (NewTransaction E s r v n t) = r"
  "tx_Value (NewTransaction E s r v n t) = v"
  "tx_Nonce (NewTransaction E s r v n t) = n"
  "tx_Time (NewTransaction E s r v n t) = t"
  "\<not> tx_Relayed (NewTransaction E s r v n t)"
  "\<not> tx_HasBroker (NewTransaction E s r v n t)"
  "tx_RawTxHash (NewTransaction E s r v n t) = []"
  by (simp_all add: NewTransaction_def Let_def)

section \<open>Addresses and shards\<close>

text \<open>\<^verbatim>\<open>strconv.ParseUint(s, 16, 64)\<close>: the digits are those of base 16, the empty string is an
  error, and the value must fit 64 bits.\<close>

definition hex_digit :: "char \<Rightarrow> nat option" where
  "hex_digit c =
     (let n = of_char c in
      if 48 \<le> n \<and> n \<le> 57 then Some (n - 48)
      else if 97 \<le> n \<and> n \<le> 102 then Some (n - 87)
      else if 65 \<le> n \<and> n \<le> 70 then Some (n - 55)
      else None)"

definition parse_hex :: "bytes \<Rightarrow> nat option" where
  "parse_hex s =
     (if s = [] then None
      else do { n \<leftarrow> foldlM (\<lambda>acc c. do { d \<leftarrow> hex_digit c; Some (16 * acc + d) }) 0 s;
                if n < 2 ^ 64 then Some n else None })"

text \<open>
  \<open>Addr2Shard\<close> takes the shard number \<^verbatim>\<open>params.ShardNum\<close> as an argument. The conversion
  \<^verbatim>\<open>int(num)\<close> is exact since eight hexadecimal digits are below \<open>2 ^ 32\<close>.
\<close>

definition Addr2Shard :: "int \<Rightarrow> address \<Rightarrow> int option" where
  "Addr2Shard ShardNum addr =
     (let last8_addr = (if length addr > 8 then drop (length addr - 8) addr else addr)
      in do { num \<leftarrow> parse_hex last8_addr; go_rem (int num) ShardNum })"

definition hex_address :: "address \<Rightarrow> bool" where
  "hex_address addr \<longleftrightarrow> addr \<noteq> [] \<and> (\<forall>c \<in> set addr. hex_digit c \<noteq> None)"

lemma hex_digit_less: "hex_digit c = Some d \<Longrightarrow> d < 16"
  by (auto simp: hex_digit_def Let_def split: if_splits)

lemma parse_hex_loop:
  assumes "\<forall>c \<in> set s. hex_digit c \<noteq> None"
  shows "\<exists>n. foldlM (\<lambda>acc c. do { d \<leftarrow> hex_digit c; Some (16 * acc + d) }) a s = Some n
             \<and> n < (a + 1) * 16 ^ length s"
  using assms
proof (induction s arbitrary: a)
  case Nil
  then show ?case by simp
next
  case (Cons c s)
  then obtain d where d: "hex_digit c = Some d" by auto
  have "d < 16" by (rule hex_digit_less[OF d])
  from Cons obtain n where
    n: "foldlM (\<lambda>acc c. do { d \<leftarrow> hex_digit c; Some (16 * acc + d) }) (16 * a + d) s = Some n"
       "n < (16 * a + d + 1) * 16 ^ length s" by auto
  have "(16 * a + d + 1) * 16 ^ length s \<le> (16 * (a + 1)) * 16 ^ length s"
    using \<open>d < 16\<close> by (intro mult_right_mono) auto
  then have "n < 16 * (a + 1) * 16 ^ length s" by (rule less_le_trans[OF n(2)])
  then have "n < (a + 1) * 16 ^ length (c # s)" by (simp only: list.size power_Suc add_Suc_right mult_ac add_0_right)
  with n(1) d show ?case by simp
qed

lemma Addr2Shard_total:
  assumes "hex_address addr" and "0 < n"
  obtains k where "Addr2Shard n addr = Some k" "0 \<le> k" "k < n"
proof -
  define l where "l = (if length addr > 8 then drop (length addr - 8) addr else addr)"
  have l: "l \<noteq> []" "length l \<le> 8" "\<forall>c \<in> set l. hex_digit c \<noteq> None"
    using assms(1) by (auto simp: l_def hex_address_def dest: in_set_dropD)
  obtain m where m: "foldlM (\<lambda>acc c. do { d \<leftarrow> hex_digit c; Some (16 * acc + d) }) 0 l = Some m"
    "m < 16 ^ length l" using parse_hex_loop[OF l(3), of 0] by auto
  have "(16::nat) ^ length l \<le> 16 ^ 8" using l(2) by (intro power_increasing) auto
  with m(2) have "m < 2 ^ 64" by simp
  with m l(1) have "parse_hex l = Some m" by (simp add: parse_hex_def)
  then have "Addr2Shard n addr = Some (int m mod n)"
    using assms(2) by (simp add: Addr2Shard_def l_def[symmetric] go_rem_nonneg)
  with assms(2) show thesis by (intro that[of "int m mod n"]) auto
qed

text \<open>\<^verbatim>\<open>big.Int.SetBytes\<close> reads a big-endian unsigned number.\<close>

definition big_endian :: "bytes \<Rightarrow> nat" where
  "big_endian bs = foldl (\<lambda>acc c. 256 * acc + of_char c) 0 bs"

definition ModBytes :: "bytes \<Rightarrow> nat \<Rightarrow> nat option" where
  "ModBytes data m = (if m = 0 then None else Some (big_endian data mod m))"

lemma ModBytes_2048 [simp]: "ModBytes data 2048 = Some (big_endian data mod 2048)"
  by (simp add: ModBytes_def)

end
