(* ===== verification/Tx_Pool.thy ===== *)
theory Tx_Pool
  imports Core_Data
begin

text \<open>
  The transaction pool of \<^verbatim>\<open>core/txpool.go\<close>. Each operation runs under the pool's mutex, so an
  operation is one state transition. \<^verbatim>\<open>RelayPool\<close> is a Go map that \<^verbatim>\<open>ClearRelayPool\<close> sets to
  nil: \<^const>\<open>None\<close> is the nil map, which reads as empty and panics when written. The clock is an
  argument: \<open>now i\<close> is what \<^verbatim>\<open>time.Now()\<close> returns in iteration \<open>i\<close> of the loop.
\<close>

record TxPool =
  tp_TxQueue :: "Transaction list"
  tp_RelayPool :: "(u64 \<rightharpoonup> Transaction list) option"

definition NewTxPool :: TxPool where
  "NewTxPool = \<lparr>tp_TxQueue = [], tp_RelayPool = Some Map.empty\<rparr>"

text \<open>The pool stamps a transaction that carries no time yet.\<close>

definition stamp_time :: "time \<Rightarrow> Transaction \<Rightarrow> Transaction" where
  "stamp_time t tx = (if tx_Time tx = 0 then tx\<lparr>tx_Time := t\<rparr> else tx)"

definition AddTx2Pool :: "time \<Rightarrow> Transaction \<Rightarrow> TxPool \<Rightarrow> TxPool" where
  "AddTx2Pool now tx pool = pool\<lparr>tp_TxQueue := tp_TxQueue pool @ [stamp_time now tx]\<rparr>"

definition AddTxs2Pool :: "(nat \<Rightarrow> time) \<Rightarrow> Transaction list \<Rightarrow> TxPool \<Rightarrow> TxPool" where
  "AddTxs2Pool now txs pool =
     foldl (\<lambda>pool (i, tx). pool\<lparr>tp_TxQueue := tp_TxQueue pool @ [stamp_time (now i) tx]\<rparr>)
       pool (enumerate 0 txs)"

definition AddTxs2Pool_Head :: "Transaction list \<Rightarrow> TxPool \<Rightarrow> TxPool" where
  "AddTxs2Pool_Head txs pool = pool\<lparr>tp_TxQueue := txs @ tp_TxQueue pool\<rparr>"

definition PackTxs :: "u64 \<Rightarrow> TxPool \<Rightarrow> Transaction list \<times> TxPool" where
  "PackTxs max_txs pool =
     (let q = tp_TxQueue pool;
          txNum = (if length q < unat max_txs then length q else unat max_txs)
      in (take txNum q, pool\<lparr>tp_TxQueue := drop txNum q\<rparr>))"

text \<open>\<^verbatim>\<open>unsafe.Sizeof(*tx)\<close> is the size of the struct itself on a 64-bit target, a constant.\<close>

definition sizeof_Transaction :: int where
  "sizeof_Transaction = 184"

text \<open>The index at which the running size first exceeds the limit, or the queue's length.\<close>

fun packBytesNum :: "int \<Rightarrow> int \<Rightarrow> nat \<Rightarrow> Transaction list \<Rightarrow> nat" where
  "packBytesNum max_bytes currentSize tx_idx [] = tx_idx"
| "packBytesNum max_bytes currentSize tx_idx (tx # txs) =
     (let currentSize' = currentSize + sizeof_Transaction in
      if currentSize' > max_bytes then tx_idx
      else packBytesNum max_bytes currentSize' (Suc tx_idx) txs)"

definition PackTxsWithBytes :: "int \<Rightarrow> TxPool \<Rightarrow> Transaction list \<times> TxPool" where
  "PackTxsWithBytes max_bytes pool =
     (let q = tp_TxQueue pool; txNum = packBytesNum max_bytes 0 0 q
      in (take txNum q, pool\<lparr>tp_TxQueue := drop txNum q\<rparr>))"

definition AddRelayTx :: "Transaction \<Rightarrow> u64 \<Rightarrow> TxPool \<Rightarrow> TxPool option" where
  "AddRelayTx tx shardID pool =
     (case tp_RelayPool pool of
        None \<Rightarrow> None
      | Some m \<Rightarrow>
          let m' = (case m shardID of None \<Rightarrow> m(shardID \<mapsto> []) | Some _ \<Rightarrow> m)
          in Some (pool\<lparr>tp_RelayPool := Some (m'(shardID \<mapsto> the (m' shardID) @ [tx]))\<rparr>))"

text \<open>Reading a Go map at an absent key, or a nil map, gives the zero value, here a nil slice.\<close>

definition relay_of :: "TxPool \<Rightarrow> u64 \<Rightarrow> Transaction list" where
  "relay_of pool shardID =
     (case tp_RelayPool pool of None \<Rightarrow> []
      | Some m \<Rightarrow> (case m shardID of None \<Rightarrow> [] | Some l \<Rightarrow> l))"

definition GetTxQueueLen :: "TxPool \<Rightarrow> nat" where
  "GetTxQueueLen pool = length (tp_TxQueue pool)"

definition ClearRelayPool :: "TxPool \<Rightarrow> TxPool" where
  "ClearRelayPool pool = pool\<lparr>tp_RelayPool := None\<rparr>"

definition PackRelayTxs ::
    "u64 \<Rightarrow> u64 \<Rightarrow> u64 \<Rightarrow> TxPool \<Rightarrow> (Transaction list \<times> bool) \<times> TxPool" where
  "PackRelayTxs shardID minRelaySize maxRelaySize pool =
     (case tp_RelayPool pool of
        None \<Rightarrow> (([], False), pool)
      | Some m \<Rightarrow> (case m shardID of
          None \<Rightarrow> (([], False), pool)
        | Some l \<Rightarrow>
            if int (length l) < sint minRelaySize then (([], False), pool)
            else
              let txNum = (if length l < unat maxRelaySize then length l else unat maxRelaySize)
              in ((take txNum l, True),
                  pool\<lparr>tp_RelayPool := Some (m(shardID \<mapsto> drop txNum l))\<rparr>)))"

text \<open>
  \<^verbatim>\<open>TransferTxs\<close> ranges over a Go map, whose order is not fixed: \<open>ks\<close> is the order in which
  the keys are visited.
\<close>

definition TransferTxs :: "u64 list \<Rightarrow> address \<Rightarrow> TxPool \<Rightarrow> Transaction list \<times> TxPool" where
  "TransferTxs ks addr pool =
     (let fromQueue = filter (\<lambda>tx. tx_Sender tx = addr) (tp_TxQueue pool);
          newTxQueue = filter (\<lambda>tx. tx_Sender tx \<noteq> addr) (tp_TxQueue pool);
          (txTransfered, newRelayPool) =
            foldl (\<lambda>(out, m) k.
                (out @ filter (\<lambda>tx. tx_Sender tx = addr) (relay_of pool k),
                 let rest = filter (\<lambda>tx. tx_Sender tx \<noteq> addr) (relay_of pool k)
                 in if rest = [] then m else m(k \<mapsto> rest)))
              (fromQueue, Map.empty) ks
      in (txTransfered, \<lparr>tp_TxQueue = newTxQueue, tp_RelayPool = Some newRelayPool\<rparr>))"

section \<open>What the operations do to the queue\<close>

abbreviation stamped :: "(nat \<Rightarrow> time) \<Rightarrow> Transaction list \<Rightarrow> Transaction list" where
  "stamped now txs \<equiv> map (\<lambda>(i, tx). stamp_time (now i) tx) (enumerate 0 txs)"

lemma stamp_time_fields [simp]:
  "tx_Sender (stamp_time t tx) = tx_Sender tx" "tx_Recipient (stamp_time t tx) = tx_Recipient tx"
  "tx_Value (stamp_time t tx) = tx_Value tx" "tx_TxHash (stamp_time t tx) = tx_TxHash tx"
  "tx_Relayed (stamp_time t tx) = tx_Relayed tx" "tx_HasBroker (stamp_time t tx) = tx_HasBroker tx"
  by (simp_all add: stamp_time_def)

lemma AddTxs2Pool_loop:
  "foldl (\<lambda>pool (i, tx). pool\<lparr>tp_TxQueue := tp_TxQueue pool @ [stamp_time (now i) tx]\<rparr>) pool es
   = pool\<lparr>tp_TxQueue := tp_TxQueue pool @ map (\<lambda>(i, tx). stamp_time (now i) tx) es\<rparr>"
  by (induction es arbitrary: pool) auto

lemma AddTxs2Pool_eq [pool_simps]:
  "AddTxs2Pool now txs pool = pool\<lparr>tp_TxQueue := tp_TxQueue pool @ stamped now txs\<rparr>"
  by (simp add: AddTxs2Pool_def AddTxs2Pool_loop)

lemma AddTx2Pool_as_list: "AddTx2Pool t tx pool = AddTxs2Pool (\<lambda>_. t) [tx] pool"
  by (simp add: AddTx2Pool_def AddTxs2Pool_eq)

lemma PackTxs_eq [pool_simps]:
  "PackTxs n pool = (take (unat n) (tp_TxQueue pool),
                     pool\<lparr>tp_TxQueue := drop (unat n) (tp_TxQueue pool)\<rparr>)"
  by (simp add: PackTxs_def Let_def)

lemma packBytesNum_bounds:
  "tx_idx \<le> packBytesNum m c tx_idx q \<and> packBytesNum m c tx_idx q \<le> tx_idx + length q"
  by (induction m c tx_idx q rule: packBytesNum.induct) (auto simp: Let_def)

lemma packBytesNum_size:
  "c \<le> m \<Longrightarrow> c + int (packBytesNum m c tx_idx q - tx_idx) * sizeof_Transaction \<le> m"
proof (induction m c tx_idx q rule: packBytesNum.induct)
  case (1 m c i)
  then show ?case by simp
next
  case (2 m c i tx q)
  show ?case
  proof (cases "c + sizeof_Transaction > m")
    case True
    with 2(2) show ?thesis by simp
  next
    case False
    with 2 have "c + sizeof_Transaction +
      int (packBytesNum m (c + sizeof_Transaction) (Suc i) q - Suc i) * sizeof_Transaction \<le> m"
      by simp
    moreover have "Suc i \<le> packBytesNum m (c + sizeof_Transaction) (Suc i) q"
      using packBytesNum_bounds by blast
    ultimately show ?thesis using False by (simp add: of_nat_diff algebra_simps)
  qed
qed

text \<open>Either everything was packed or one more transaction would not fit.\<close>

lemma packBytesNum_maximal:
  "packBytesNum m c i q < i + length q \<Longrightarrow>
   m < c + (int (packBytesNum m c i q - i) + 1) * sizeof_Transaction"
proof (induction m c i q rule: packBytesNum.induct)
  case (1 m c i)
  then show ?case by simp
next
  case (2 m c i tx q)
  show ?case
  proof (cases "c + sizeof_Transaction > m")
    case True
    then show ?thesis by simp
  next
    case False
    with 2 have "m < c + sizeof_Transaction +
      (int (packBytesNum m (c + sizeof_Transaction) (Suc i) q - Suc i) + 1) * sizeof_Transaction"
      by simp
    moreover have "Suc i \<le> packBytesNum m (c + sizeof_Transaction) (Suc i) q"
      using packBytesNum_bounds by blast
    ultimately show ?thesis using False by (simp add: of_nat_diff algebra_simps)
  qed
qed

lemma relay_of_AddRelayTx [pool_simps]:
  "AddRelayTx tx s pool = Some pool' \<Longrightarrow>
   relay_of pool' k = (if k = s then relay_of pool k @ [tx] else relay_of pool k)"
  by (auto simp: AddRelayTx_def relay_of_def Let_def split: option.splits)

lemma AddRelayTx_queue [pool_simps]:
  "AddRelayTx tx s pool = Some pool' \<Longrightarrow> tp_TxQueue pool' = tp_TxQueue pool"
  by (auto simp: AddRelayTx_def Let_def split: option.splits)

lemma AddRelayTx_None_iff: "AddRelayTx tx s pool = None \<longleftrightarrow> tp_RelayPool pool = None"
  by (auto simp: AddRelayTx_def Let_def split: option.splits)

lemma AddRelayTx_keeps_map: "AddRelayTx tx s pool = Some pool' \<Longrightarrow> tp_RelayPool pool' \<noteq> None"
  by (auto simp: AddRelayTx_def Let_def split: option.splits)

section \<open>The pool as a first-in first-out queue\<close>

text \<open>
  The interface through which block producers use a pool: every operation \<open>op\<close> hands out some
  transactions and appends the entries \<open>entry op\<close>, and what it hands out followed by what it
  keeps is what was there followed by what was appended. Whole runs then neither lose, nor
  duplicate, nor reorder anything.
\<close>

primrec run_ops :: "('op \<Rightarrow> 'p \<Rightarrow> 'b list \<times> 'p) \<Rightarrow> 'op list \<Rightarrow> 'p \<Rightarrow> 'b list \<times> 'p" where
  "run_ops step [] p = ([], p)"
| "run_ops step (op # ops) p =
     (let (out, p') = step op p; (outs, p'') = run_ops step ops p' in (out @ outs, p''))"

locale fifo_pool =
  fixes queue :: "'p \<Rightarrow> 'b list"
    and step :: "'op \<Rightarrow> 'p \<Rightarrow> 'b list \<times> 'p"
    and entry :: "'op \<Rightarrow> 'b list"
  assumes step_conserves: "fst (step op p) @ queue (snd (step op p)) = queue p @ entry op"
begin

lemma run_conserves:
  "fst (run_ops step ops p) @ queue (snd (run_ops step ops p))
   = queue p @ concat (map entry ops)"
proof (induction ops arbitrary: p)
  case Nil
  then show ?case by simp
next
  case (Cons op ops)
  obtain out p' where s: "step op p = (out, p')" by fastforce
  obtain outs p'' where r: "run_ops step ops p' = (outs, p'')" by fastforce
  have "out @ queue p' = queue p @ entry op" using step_conserves[of op p] s by simp
  moreover have "outs @ queue p'' = queue p' @ concat (map entry ops)"
    using Cons.IH[of p'] r by simp
  ultimately have "(out @ outs) @ queue p'' = queue p @ entry op @ concat (map entry ops)"
    by (metis append.assoc)
  with s r show ?case by simp
qed

lemma run_length:
  "length (fst (run_ops step ops p)) + length (queue (snd (run_ops step ops p)))
   = length (queue p) + length (concat (map entry ops))"
  using arg_cong[OF run_conserves[of ops p], of length] by simp

end

text \<open>The operations of the pool that the block producer and the message handlers call.\<close>

datatype pool_op = AddTxs "Transaction list" | PackNum u64 | PackBytes int

primrec pool_step :: "(nat \<Rightarrow> time) \<Rightarrow> pool_op \<Rightarrow> TxPool \<Rightarrow> Transaction list \<times> TxPool" where
  "pool_step now (AddTxs txs) pool = ([], AddTxs2Pool now txs pool)"
| "pool_step now (PackNum n) pool = PackTxs n pool"
| "pool_step now (PackBytes m) pool = PackTxsWithBytes m pool"

primrec pool_entry :: "(nat \<Rightarrow> time) \<Rightarrow> pool_op \<Rightarrow> Transaction list" where
  "pool_entry now (AddTxs txs) = stamped now txs"
| "pool_entry now (PackNum n) = []"
| "pool_entry now (PackBytes m) = []"

lemma PackTxs_split: "fst (PackTxs n pool) @ tp_TxQueue (snd (PackTxs n pool)) = tp_TxQueue pool"
  by (simp add: PackTxs_eq)

lemma PackTxsWithBytes_split:
  "fst (PackTxsWithBytes m pool) @ tp_TxQueue (snd (PackTxsWithBytes m pool)) = tp_TxQueue pool"
  by (simp add: PackTxsWithBytes_def Let_def)

interpretation txq: fifo_pool tp_TxQueue "pool_step now" "pool_entry now" for now
proof
  fix op p
  show "fst (pool_step now op p) @ tp_TxQueue (snd (pool_step now op p))
        = tp_TxQueue p @ pool_entry now op"
    by (cases op) (simp_all add: AddTxs2Pool_eq PackTxs_split PackTxsWithBytes_split)
qed

section \<open>Properties of the pool\<close>


text \<open>
  \<^verbatim>\<open>PackTxsWithBytes\<close> packs a longest prefix of the queue that fits: the packed structs take at
  most \<open>max_bytes\<close> bytes, and unless the queue is exhausted one more would exceed the limit.
\<close>

theorem PackTxsWithBytes_greedy:
  assumes "0 \<le> max_bytes" and "PackTxsWithBytes max_bytes pool = (packed, pool')"
  shows "packed @ tp_TxQueue pool' = tp_TxQueue pool
    \<and> int (length packed) * sizeof_Transaction \<le> max_bytes
    \<and> (tp_TxQueue pool' = [] \<or> max_bytes < (int (length packed) + 1) * sizeof_Transaction)"
proof -
  let ?q = "tp_TxQueue pool" and ?n = "packBytesNum max_bytes 0 0 (tp_TxQueue pool)"
  have n: "?n \<le> length ?q" using packBytesNum_bounds[of 0 max_bytes 0 ?q] by simp
  from assms(2) have p: "packed = take ?n ?q" "tp_TxQueue pool' = drop ?n ?q"
    by (auto simp: PackTxsWithBytes_def Let_def)
  from p n have len: "length packed = ?n" by simp
  have "int (length packed) * sizeof_Transaction \<le> max_bytes"
    using packBytesNum_size[OF assms(1), of 0 ?q] len by simp
  moreover have "tp_TxQueue pool' = [] \<or> max_bytes < (int (length packed) + 1) * sizeof_Transaction"
    using packBytesNum_maximal[of max_bytes 0 0 ?q] p len by (cases "?n < length ?q") auto
  ultimately show ?thesis using p by simp
qed

definition sample_tx :: "address \<Rightarrow> address \<Rightarrow> int \<Rightarrow> Transaction" where
  "sample_tx s r v = \<lparr>tx_Sender = s, tx_Recipient = r, tx_Nonce = 0, tx_Signature = [],
     tx_Value = v, tx_TxHash = s @ r, tx_Time = 1, tx_Relayed = False, tx_HasBroker = False,
     tx_SenderIsBroker = False, tx_OriginalSender = [], tx_FinalRecipient = [], tx_RawTxHash = []\<rparr>"

theorem PackTxsWithBytes_greedy_witness:
  "PackTxsWithBytes 400 \<lparr>tp_TxQueue = replicate 3 (sample_tx ''a'' ''b'' 1), tp_RelayPool = None\<rparr>
     = (replicate 2 (sample_tx ''a'' ''b'' 1),
        \<lparr>tp_TxQueue = [sample_tx ''a'' ''b'' 1], tp_RelayPool = None\<rparr>)
   \<and> (int (length (replicate 2 (sample_tx ''a'' ''b'' 1))) * sizeof_Transaction \<le> 400)"
proof -
  have e: "PackTxsWithBytes 400 \<lparr>tp_TxQueue = replicate 3 (sample_tx ''a'' ''b'' 1), tp_RelayPool = None\<rparr>
     = (replicate 2 (sample_tx ''a'' ''b'' 1),
        \<lparr>tp_TxQueue = [sample_tx ''a'' ''b'' 1], tp_RelayPool = None\<rparr>)"
    by (simp add: PackTxsWithBytes_def numeral_3_eq_3 numeral_2_eq_2 sizeof_Transaction_def)
  from PackTxsWithBytes_greedy[OF _ e] e show ?thesis by simp
qed

end
