(* ===== verification/Wire_Message.thy ===== *)
theory Wire_Message
  imports Tx_Pool
begin

text \<open>
  The messages of \<^verbatim>\<open>message/\<close>, the node of \<^verbatim>\<open>shard/nodes.go\<close> and the envelope that puts a
  message type in a 30-byte prefix (\<^verbatim>\<open>MergeMessage\<close>, \<^verbatim>\<open>SplitMessage\<close>). Message bodies are
  JSON on the wire; the handlers are modelled on the decoded values. A Go map that the code
  ranges over is an association list in the order of iteration.
\<close>

section \<open>Message bodies\<close>

record Node =
  nd_NodeID :: u64
  nd_ShardID :: u64
  nd_IPaddr :: bytes

record Request =
  rq_RequestType :: bytes
  rq_Content :: bytes
  rq_ReqTime :: time

record PrePrepare =
  pp_RequestMsg :: Request
  pp_Digest :: bytes
  pp_SeqID :: u64

record Prepare =
  pr_Digest :: bytes
  pr_SeqID :: u64
  pr_SenderNode :: Node

record Commit =
  cm_Digest :: bytes
  cm_SeqID :: u64
  cm_SenderNode :: Node

record RequestOldMessage =
  ro_SeqStartHeight :: u64
  ro_SeqEndHeight :: u64
  ro_ServerNode :: Node
  ro_SenderNode :: Node

record SendOldMessage =
  so_SeqStartHeight :: u64
  so_SeqEndHeight :: u64
  so_OldRequest :: "Request list"
  so_SenderNode :: Node

record InjectTxs =
  ij_Txs :: "Transaction list"
  ij_ToShardID :: u64

record BlockInfoMsg =
  bi_BlockBodyLength :: nat
  bi_InnerShardTxs :: "Transaction list"
  bi_Epoch :: int
  bi_ProposeTime :: time
  bi_CommitTime :: time
  bi_SenderShardID :: u64
  bi_Relay1Txs :: "Transaction list"
  bi_Relay2Txs :: "Transaction list"
  bi_Broker1Txs :: "Transaction list"
  bi_Broker2Txs :: "Transaction list"

record SeqIDinfo =
  si_SenderShardID :: u64
  si_SenderSeq :: u64

record Relay =
  rl_Txs :: "Transaction list"
  rl_SenderShardID :: u64
  rl_SenderSeq :: u64

type_synonym modified_map = "(address \<times> u64) list"

record AccountTransferMsg =
  at_ModifiedMap :: modified_map
  at_Addrs :: "address list"
  at_AccountState :: "AccountState list"
  at_ATid :: u64

record PartitionReady =
  rd_FromShard :: u64
  rd_NowSeqID :: u64

record AccountStateAndTx =
  ax_Addrs :: "address list"
  ax_AccountState :: "AccountState list"
  ax_Txs :: "Transaction list"
  ax_FromShard :: u64

record ViewChangeMsg =
  vc_CurView :: int
  vc_NextView :: int
  vc_SeqID :: int
  vc_FromNode :: u64

record NewViewMsg =
  nv_CurView :: int
  nv_NextView :: int
  nv_NewSeqID :: int
  nv_FromNode :: u64

section \<open>Message types\<close>

definition BlockRequest :: bytes where "BlockRequest = ''Block''"
definition PartitionReq :: bytes where "PartitionReq = ''PartitionReq''"

definition message_types :: "bytes list" where
  "message_types =
     [''preprepare'', ''prepare'', ''commit'', ''requestOldrequest'', ''sendOldrequest'', ''stop'',
      ''relay'', ''CRelay&Proof'', ''inject'', ''BlockInfo'', ''SequenceID'',
      ''AccountState&txs'', ''PartitionModifiedMap'', ''ready for partition'',
      ''brokerRawTx'', ''brokerConfirm1'', ''brokerConfirm2'', ''brokerType1'', ''brokerType2'',
      ''InjectTx_Broker'', ''BrokerTxMap'', ''BrokerAS_transfer'', ''innerShardTx_be_crossShard'',
      ''ViewChangePropose'', ''NewChange'',
      ''OHStream'', ''OHBodies'', ''OHMissing'', ''OHCompact'', ''OHMigrationDone'', ''ExCliqueBlock'']"

lemma RequestTypes_distinct [simp]: "BlockRequest \<noteq> PartitionReq" "PartitionReq \<noteq> BlockRequest"
  by (simp_all add: BlockRequest_def PartitionReq_def)

section \<open>The envelope\<close>

definition prefixMSGtypeLen :: nat where "prefixMSGtypeLen = 30"

text \<open>The byte loop of \<^verbatim>\<open>MergeMessage\<close> writes \<^verbatim>\<open>b[i] = v\<close>, which panics past the 30 bytes.\<close>

definition MergeMessage :: "bytes \<Rightarrow> bytes \<Rightarrow> bytes option" where
  "MergeMessage msgType content =
     do { b \<leftarrow> foldlM (\<lambda>b (i, v). if i < length b then Some (b[i := v]) else None)
                 (replicate prefixMSGtypeLen (CHR 0x00)) (enumerate 0 msgType);
          Some (b @ content) }"

text \<open>Slicing a message shorter than the prefix panics.\<close>

definition SplitMessage :: "bytes \<Rightarrow> (bytes \<times> bytes) option" where
  "SplitMessage msg =
     (if length msg < prefixMSGtypeLen then None
      else Some (filter (\<lambda>v. v \<noteq> CHR 0x00) (take prefixMSGtypeLen msg), drop prefixMSGtypeLen msg))"

lemma merge_loop:
  "length done + length t \<le> length b \<Longrightarrow> take (length done) b = done \<Longrightarrow>
   foldlM (\<lambda>b (i, v). if i < length b then Some (b[i := v]) else None) b (enumerate (length done) t)
   = Some (done @ t @ drop (length done + length t) b)"
proof (induction t arbitrary: "done" b)
  case Nil
  then show ?case by (metis append_Nil append_take_drop_id enumerate_simps(1) foldlM.simps(1)
      list.size(3) add_0_right)
next
  case (Cons v t)
  let ?b = "b[length done := v]"
  have "take (Suc (length done)) ?b = done @ [v]"
    using Cons.prems by (simp add: take_Suc_conv_app_nth)
  then have "foldlM (\<lambda>b (i, v). if i < length b then Some (b[i := v]) else None) ?b
      (enumerate (length (done @ [v])) t) = Some ((done @ [v]) @ t @ drop (length (done @ [v]) + length t) ?b)"
    using Cons.prems by (intro Cons.IH) auto
  with Cons.prems show ?case by simp
qed

lemma merge_loop_overflow:
  "length b < k + length t \<Longrightarrow> k \<le> length b \<Longrightarrow>
   foldlM (\<lambda>b (i, v). if i < length b then Some (b[i := v]) else None) b (enumerate k t) = None"
  by (induction t arbitrary: k b) auto

lemma MergeMessage_eq:
  "MergeMessage t c =
     (if length t \<le> prefixMSGtypeLen
      then Some (t @ replicate (prefixMSGtypeLen - length t) (CHR 0x00) @ c) else None)"
  using merge_loop[of "[]" t "replicate prefixMSGtypeLen (CHR 0x00)"]
    merge_loop_overflow[of "replicate prefixMSGtypeLen (CHR 0x00)" 0 t]
  by (simp add: MergeMessage_def)

lemma message_types_fit: "t \<in> set message_types \<Longrightarrow> length t \<le> prefixMSGtypeLen \<and> CHR 0x00 \<notin> set t"
  unfolding message_types_def prefixMSGtypeLen_def by (simp, elim disjE) simp_all

lemma filter_nonzero_id: "CHR 0x00 \<notin> set t \<Longrightarrow> filter (\<lambda>v. v \<noteq> CHR 0x00) t = t"
  by (induction t) auto

text \<open>
  The envelope round trip: merging any message type the system uses with any content and
  splitting the result gives back the type and the content, so no message is misrouted.
\<close>

theorem SplitMessage_MergeMessage:
  assumes "t \<in> set message_types"
  shows "\<exists>m. MergeMessage t c = Some m \<and> SplitMessage m = Some (t, c)"
proof -
  from message_types_fit[OF assms] have t: "length t \<le> prefixMSGtypeLen" "CHR 0x00 \<notin> set t" by auto
  then show ?thesis
    by (auto simp: MergeMessage_eq SplitMessage_def filter_nonzero_id)
qed

theorem SplitMessage_MergeMessage_witness:
  "''innerShardTx_be_crossShard'' \<in> set message_types \<and>
   (\<exists>m. MergeMessage ''innerShardTx_be_crossShard'' ''payload'' = Some m
        \<and> SplitMessage m = Some (''innerShardTx_be_crossShard'', ''payload''))"
proof -
  have "''innerShardTx_be_crossShard'' \<in> set message_types" by (simp add: message_types_def)
  with SplitMessage_MergeMessage[OF this] show ?thesis by blast
qed

end
