(* ===== verification/Block_Storage.thy ===== *)
theory Block_Storage
  imports Wire_Message
begin

text \<open>
  The block store of \<^verbatim>\<open>storage/storage.go\<close>, a key-value database in three buckets. The database
  itself is the package \<^verbatim>\<open>boltdb/bolt\<close>, of type \<open>'bo\<close>: the environment gives its operations on
  one bucket and \<open>store_laws\<close> their documented behaviour. A failing write panics; a missing entry
  is an error value, the left summand.
\<close>

record ('bs, 'bo) store_env = "'bs core_env" +
  bolt_CreateBucket :: "'bo \<Rightarrow> bytes \<Rightarrow> 'bo option"
  bolt_HasBucket :: "'bo \<Rightarrow> bytes \<Rightarrow> bool"
  bolt_Put :: "'bo \<Rightarrow> bytes \<Rightarrow> bytes \<Rightarrow> bytes \<Rightarrow> 'bo option"
  bolt_Get :: "'bo \<Rightarrow> bytes \<Rightarrow> bytes \<Rightarrow> bytes option"

record 'bo Storage =
  st_dbFilePath :: bytes
  st_blockBucket :: bytes
  st_blockHeaderBucket :: bytes
  st_newestBlockHashBucket :: bytes
  st_DataBase :: 'bo

text \<open>\<^verbatim>\<open>opened\<close> is what \<^verbatim>\<open>bolt.Open\<close> gives for the path; the directory exists by then.\<close>

definition NewStorage ::
    "('bs, 'bo, 'e) store_env_scheme \<Rightarrow> bytes \<Rightarrow> 'bo option \<Rightarrow> 'bo Storage option" where
  "NewStorage E dbFp opened =
     do { db \<leftarrow> opened;
          db \<leftarrow> bolt_CreateBucket E db ''block'';
          db \<leftarrow> bolt_CreateBucket E db ''blockHeader'';
          db \<leftarrow> bolt_CreateBucket E db ''newestBlockHash'';
          Some \<lparr>st_dbFilePath = dbFp, st_blockBucket = ''block'',
                st_blockHeaderBucket = ''blockHeader'',
                st_newestBlockHashBucket = ''newestBlockHash'', st_DataBase = db\<rparr> }"

definition UpdateNewestBlock ::
    "('bs, 'bo, 'e) store_env_scheme \<Rightarrow> bytes \<Rightarrow> 'bo Storage \<Rightarrow> 'bo Storage option" where
  "UpdateNewestBlock E newestbhash s =
     do { db \<leftarrow> bolt_Put E (st_DataBase s) (st_newestBlockHashBucket s) ''OnlyNewestBlock'' newestbhash;
          Some (s\<lparr>st_DataBase := db\<rparr>) }"

definition AddBlockHeader ::
    "('bs, 'bo, 'e) store_env_scheme \<Rightarrow> bytes \<Rightarrow> 'bs BlockHeader \<Rightarrow> 'bo Storage \<Rightarrow> 'bo Storage option" where
  "AddBlockHeader E blockhash bh s =
     do { db \<leftarrow> bolt_Put E (st_DataBase s) (st_blockHeaderBucket s) blockhash (BH_Encode E bh);
          Some (s\<lparr>st_DataBase := db\<rparr>) }"

definition Storage_AddBlock ::
    "('bs, 'bo, 'e) store_env_scheme \<Rightarrow> 'bs Block \<Rightarrow> 'bo Storage \<Rightarrow> 'bo Storage option" where
  "Storage_AddBlock E b s =
     do { db \<leftarrow> bolt_Put E (st_DataBase s) (st_blockBucket s) (bk_Hash b) (B_Encode E b);
          s \<leftarrow> AddBlockHeader E (bk_Hash b) (bk_Header b) (s\<lparr>st_DataBase := db\<rparr>);
          UpdateNewestBlock E (bk_Hash b) s }"

definition GetBlockHeader ::
    "('bs, 'bo, 'e) store_env_scheme \<Rightarrow> bytes \<Rightarrow> 'bo Storage \<Rightarrow> (bytes + 'bs BlockHeader) option" where
  "GetBlockHeader E bhash s =
     (case bolt_Get E (st_DataBase s) (st_blockHeaderBucket s) bhash of
        None \<Rightarrow> Some (Inl ''the block is not existed'')
      | Some enc \<Rightarrow> map_option Inr (DecodeBH E enc))"

definition GetBlock ::
    "('bs, 'bo, 'e) store_env_scheme \<Rightarrow> bytes \<Rightarrow> 'bo Storage \<Rightarrow> (bytes + 'bs Block) option" where
  "GetBlock E bhash s =
     (case bolt_Get E (st_DataBase s) (st_blockBucket s) bhash of
        None \<Rightarrow> Some (Inl ''the block is not existed'')
      | Some enc \<Rightarrow> map_option Inr (DecodeB E enc))"

definition GetNewestBlockHash ::
    "('bs, 'bo, 'e) store_env_scheme \<Rightarrow> 'bo Storage \<Rightarrow> bytes + bytes" where
  "GetNewestBlockHash E s =
     (case bolt_Get E (st_DataBase s) (st_newestBlockHashBucket s) ''OnlyNewestBlock'' of
        None \<Rightarrow> Inl ''cannot find the newest block hash''
      | Some h \<Rightarrow> Inr h)"

section \<open>Behaviour of the database\<close>

text \<open>
  A write succeeds on an existing bucket and a non-empty key and changes only that entry of that
  bucket; creating a bucket that may exist keeps all entries.
\<close>

definition store_laws :: "('bs, 'bo, 'e) store_env_scheme \<Rightarrow> bool" where
  "store_laws E \<longleftrightarrow>
     (\<forall>db b. \<exists>db'. bolt_CreateBucket E db b = Some db') \<and>
     (\<forall>db b db'. bolt_CreateBucket E db b = Some db' \<longrightarrow>
        (\<forall>b'. bolt_HasBucket E db' b' = (b' = b \<or> bolt_HasBucket E db b')) \<and>
        bolt_Get E db' = bolt_Get E db) \<and>
     (\<forall>db b k v. bolt_HasBucket E db b \<and> k \<noteq> [] \<longrightarrow> bolt_Put E db b k v \<noteq> None) \<and>
     (\<forall>db b k v db'. bolt_Put E db b k v = Some db' \<longrightarrow>
        bolt_HasBucket E db' = bolt_HasBucket E db \<and>
        (\<forall>b' k'. bolt_Get E db' b' k' = (if b' = b \<and> k' = k then Some v else bolt_Get E db b' k')))"

lemma bolt_Put_total:
  "store_laws E \<Longrightarrow> bolt_HasBucket E db b \<Longrightarrow> k \<noteq> [] \<Longrightarrow> \<exists>db'. bolt_Put E db b k v = Some db'"
  unfolding store_laws_def by blast

lemma bolt_Put_Get:
  "store_laws E \<Longrightarrow> bolt_Put E db b k v = Some db' \<Longrightarrow>
   bolt_Get E db' b' k' = (if b' = b \<and> k' = k then Some v else bolt_Get E db b' k')"
  unfolding store_laws_def by blast

lemma bolt_Put_HasBucket:
  "store_laws E \<Longrightarrow> bolt_Put E db b k v = Some db' \<Longrightarrow> bolt_HasBucket E db' = bolt_HasBucket E db"
  unfolding store_laws_def by blast

text \<open>The three buckets are distinct and exist: what \<^verbatim>\<open>NewStorage\<close> sets up.\<close>

definition storage_wf :: "('bs, 'bo, 'e) store_env_scheme \<Rightarrow> 'bo Storage \<Rightarrow> bool" where
  "storage_wf E s \<longleftrightarrow>
     st_blockBucket s = ''block'' \<and> st_blockHeaderBucket s = ''blockHeader'' \<and>
     st_newestBlockHashBucket s = ''newestBlockHash'' \<and>
     bolt_HasBucket E (st_DataBase s) ''block'' \<and> bolt_HasBucket E (st_DataBase s) ''blockHeader'' \<and>
     bolt_HasBucket E (st_DataBase s) ''newestBlockHash''"

lemma NewStorage_wf:
  assumes "store_laws E" and "NewStorage E fp opened = Some s"
  shows "storage_wf E s"
proof -
  have create: "bolt_CreateBucket E db b = Some db' \<Longrightarrow>
      bolt_HasBucket E db' b' = (b' = b \<or> bolt_HasBucket E db b')" for db b db' b'
    using assms(1) unfolding store_laws_def by blast
  from assms(2) show ?thesis
    by (auto simp: NewStorage_def storage_wf_def bind_eq_Some_conv create)
qed

lemma NewStorage_reopen:
  assumes "store_laws E"
  shows "\<exists>s. NewStorage E fp (Some db) = Some s \<and> bolt_Get E (st_DataBase s) = bolt_Get E db
           \<and> st_blockBucket s = ''block'' \<and> st_newestBlockHashBucket s = ''newestBlockHash''"
proof -
  have create: "\<exists>db'. bolt_CreateBucket E db b = Some db' \<and> bolt_Get E db' = bolt_Get E db" for db b
    using assms unfolding store_laws_def by metis
  obtain d1 d2 d3 where
    "bolt_CreateBucket E db ''block'' = Some d1" "bolt_CreateBucket E d1 ''blockHeader'' = Some d2"
    "bolt_CreateBucket E d2 ''newestBlockHash'' = Some d3" "bolt_Get E d3 = bolt_Get E db"
    using create by metis
  then show ?thesis by (simp add: NewStorage_def)
qed

lemma Storage_AddBlock_total:
  assumes "store_laws E" "storage_wf E s" "bk_Hash b \<noteq> []"
  shows "\<exists>s'. Storage_AddBlock E b s = Some s'"
proof -
  obtain db1 where 1: "bolt_Put E (st_DataBase s) (st_blockBucket s) (bk_Hash b) (B_Encode E b) = Some db1"
    using bolt_Put_total[OF assms(1)] assms(2,3) by (metis storage_wf_def)
  obtain db2 where 2: "bolt_Put E db1 (st_blockHeaderBucket s) (bk_Hash b) (BH_Encode E (bk_Header b)) = Some db2"
    using bolt_Put_total[OF assms(1)] bolt_Put_HasBucket[OF assms(1) 1] assms(2,3)
    by (metis storage_wf_def)
  obtain db3 where "bolt_Put E db2 (st_newestBlockHashBucket s) ''OnlyNewestBlock'' (bk_Hash b) = Some db3"
    using bolt_Put_total[OF assms(1), of db2 "st_newestBlockHashBucket s" "''OnlyNewestBlock''" "bk_Hash b"]
      bolt_Put_HasBucket[OF assms(1) 1] bolt_Put_HasBucket[OF assms(1) 2] assms(2)
    by (auto simp: storage_wf_def)
  with 1 2 show ?thesis by (simp add: Storage_AddBlock_def AddBlockHeader_def UpdateNewestBlock_def)
qed

lemma Storage_AddBlock_wf:
  assumes "store_laws E" "storage_wf E s" "Storage_AddBlock E b s = Some s'"
  shows "storage_wf E s'"
  using assms(2,3)
  by (auto simp: Storage_AddBlock_def AddBlockHeader_def UpdateNewestBlock_def storage_wf_def
      bind_eq_Some_conv bolt_Put_HasBucket[OF assms(1)])

lemma GetBlock_AddBlock:
  assumes "core_laws E" "store_laws E" "storage_wf E s" "Storage_AddBlock E b s = Some s'"
  shows "GetBlock E h s' = (if h = bk_Hash b then Some (Inr b) else GetBlock E h s)"
  using assms(3,4)
  by (auto simp: Storage_AddBlock_def AddBlockHeader_def UpdateNewestBlock_def bind_eq_Some_conv
      GetBlock_def bolt_Put_Get[OF assms(2)] storage_wf_def decode_encode[OF assms(1)])

lemma GetBlockHeader_AddBlock:
  assumes "core_laws E" "store_laws E" "storage_wf E s" "Storage_AddBlock E b s = Some s'"
  shows "GetBlockHeader E h s' = (if h = bk_Hash b then Some (Inr (bk_Header b)) else GetBlockHeader E h s)"
  using assms(3,4)
  by (auto simp: Storage_AddBlock_def AddBlockHeader_def UpdateNewestBlock_def bind_eq_Some_conv
      GetBlockHeader_def bolt_Put_Get[OF assms(2)] storage_wf_def decode_encode[OF assms(1)])

lemma GetNewest_AddBlock:
  assumes "store_laws E" "Storage_AddBlock E b s = Some s'"
  shows "GetNewestBlockHash E s' = Inr (bk_Hash b)"
  using assms(2)
  by (auto simp: Storage_AddBlock_def AddBlockHeader_def UpdateNewestBlock_def bind_eq_Some_conv
      GetNewestBlockHash_def bolt_Put_Get[OF assms(1)])

lemmas storage_simps = GetBlock_AddBlock GetBlockHeader_AddBlock GetNewest_AddBlock

end
