(* ===== verification/Block_Chain.thy ===== *)
theory Block_Chain
  imports Block_Storage
begin

text \<open>
  The blockchain object of \<^verbatim>\<open>chain/blockchain.go\<close>. The account states live in a Merkle Patricia
  trie of \<^verbatim>\<open>go-ethereum\<close>: \<open>'tr\<close> is a trie in memory, \<open>'td\<close> the trie database and \<open>'ns\<close> a set of
  dirty nodes. The environment gives the trie operations the code calls; \<open>trie_laws\<close> states their
  documented behaviour. \<open>None\<close> is a panic throughout.
\<close>

record ('bs, 'bo, 'tr, 'td, 'ns) chain_env = "('bs, 'bo) store_env" +
  tr_NewEmpty :: 'tr
  tr_New :: "'td \<Rightarrow> bytes \<Rightarrow> 'tr option"
  tr_Get :: "'tr \<Rightarrow> bytes \<Rightarrow> bytes option"
  tr_Update :: "'tr \<Rightarrow> bytes \<Rightarrow> bytes \<Rightarrow> 'tr"
  tr_Hash :: "'tr \<Rightarrow> bytes"
  tr_Commit :: "'tr \<Rightarrow> bytes \<times> 'ns option"
  td_Update :: "'td \<Rightarrow> 'ns \<Rightarrow> 'td option"
  td_Commit :: "'td \<Rightarrow> bytes \<Rightarrow> 'td option"
  tr_Prove :: "'tr \<Rightarrow> bytes \<Rightarrow> (bytes \<times> bytes) list option"
  tr_VerifyProof :: "bytes \<Rightarrow> bytes \<Rightarrow> (bytes \<times> bytes) list \<Rightarrow> bytes option"

record ('bs, 'bo, 'td) BlockChain =
  bc_triedb :: 'td
  bc_ChainConfig :: ChainConfig
  bc_CurrentBlock :: "'bs Block"
  bc_Storage :: "'bo Storage"
  bc_Txpool :: TxPool
  bc_PartitionMap :: "address \<rightharpoonup> u64"

abbreviation bc_ShardID :: "('bs, 'bo, 'td, 'x) BlockChain_scheme \<Rightarrow> u64" where
  "bc_ShardID bc \<equiv> cc_ShardID (bc_ChainConfig bc)"

text \<open>\<^verbatim>\<open>common.BytesToHash\<close>: the last 32 bytes, padded on the left with zero bytes.\<close>

definition BytesToHash :: "bytes \<Rightarrow> bytes" where
  "BytesToHash b = (if length b > 32 then drop (length b - 32) b
                    else replicate (32 - length b) (CHR 0x00) @ b)"

lemma BytesToHash_id: "length b = 32 \<Longrightarrow> BytesToHash b = b"
  by (simp add: BytesToHash_def)

definition GetTxTree :: "('bs, 'bo, 'tr, 'td, 'ns, 'e) chain_env_scheme \<Rightarrow> Transaction list \<Rightarrow> 'tr" where
  "GetTxTree E txs = foldl (\<lambda>t tx. tr_Update E t (tx_TxHash tx) [CHR 0x00]) (tr_NewEmpty E) txs"

definition GetTxTreeRoot ::
    "('bs, 'bo, 'tr, 'td, 'ns, 'e) chain_env_scheme \<Rightarrow> Transaction list \<Rightarrow> bytes" where
  "GetTxTreeRoot E txs = tr_Hash E (GetTxTree E txs)"

definition GetBloomFilter ::
    "('bs, 'e) core_env_scheme \<Rightarrow> Transaction list \<Rightarrow> 'bs option" where
  "GetBloomFilter E txs =
     foldlM (\<lambda>bs tx. do { i \<leftarrow> ModBytes (tx_TxHash tx) 2048; Some (bs_Set E i bs) })
       (bs_New E 2048) txs"

definition Update_PartitionMap ::
    "address \<Rightarrow> u64 \<Rightarrow> ('bs, 'bo, 'td, 'x) BlockChain_scheme \<Rightarrow> ('bs, 'bo, 'td, 'x) BlockChain_scheme" where
  "Update_PartitionMap key val bc = bc\<lparr>bc_PartitionMap := (bc_PartitionMap bc)(key \<mapsto> val)\<rparr>"

definition Get_PartitionMap ::
    "('bs, 'e) core_env_scheme \<Rightarrow> ('bs, 'bo, 'td, 'x) BlockChain_scheme \<Rightarrow> address \<Rightarrow> u64 option" where
  "Get_PartitionMap E bc key =
     (case bc_PartitionMap bc key of
        None \<Rightarrow> map_option of_int (Addr2Shard (pm_ShardNum (prm E)) key)
      | Some val \<Rightarrow> Some val)"

definition SendTx2Pool ::
    "(nat \<Rightarrow> time) \<Rightarrow> Transaction list \<Rightarrow> ('bs, 'bo, 'td, 'x) BlockChain_scheme \<Rightarrow>
     ('bs, 'bo, 'td, 'x) BlockChain_scheme" where
  "SendTx2Pool now txs bc = bc\<lparr>bc_Txpool := AddTxs2Pool now txs (bc_Txpool bc)\<rparr>"

section \<open>Executing transactions\<close>

text \<open>An account that the trie does not hold is created with the initial balance.\<close>

definition fresh_account :: "u64 \<Rightarrow> AccountState" where
  "fresh_account nonce = \<lparr>as_AcAddress = [], as_Nonce = nonce, as_Balance = Init_Balance,
                          as_StorageRoot = [], as_CodeHash = []\<rparr>"

definition load_account ::
    "('bs, 'bo, 'tr, 'td, 'ns, 'e) chain_env_scheme \<Rightarrow> 'tr \<Rightarrow> address \<Rightarrow> u64 \<Rightarrow> AccountState option" where
  "load_account E st addr nonce =
     (case tr_Get E st addr of
        None \<Rightarrow> Some (fresh_account nonce)
      | Some enc \<Rightarrow> DecodeAS E enc)"

text \<open>The first half of the loop body; \<open>Inl\<close> is the \<^verbatim>\<open>continue\<close> on an uncovered amount.\<close>

definition debit_sender ::
    "('bs, 'bo, 'tr, 'td, 'ns, 'e) chain_env_scheme \<Rightarrow> ('bs, 'bo, 'td, 'x) BlockChain_scheme \<Rightarrow>
     u64 \<Rightarrow> Transaction \<Rightarrow> 'tr \<times> nat \<Rightarrow> (unit + 'tr \<times> nat) option" where
  "debit_sender E bc i tx = (\<lambda>(st, cnt).
     if tx_Relayed tx then Some (Inr (st, cnt))
     else do {
       sid \<leftarrow> Get_PartitionMap E bc (tx_Sender tx);
       if sid = bc_ShardID bc \<or> tx_HasBroker tx then do {
         s_state \<leftarrow> load_account E st (tx_Sender tx) i;
         if as_Balance s_state < tx_Value tx then Some (Inl ())
         else let s_state' = snd (Deduct s_state (tx_Value tx))
              in Some (Inr (tr_Update E st (tx_Sender tx) (AS_Encode E s_state'), Suc cnt)) }
       else Some (Inr (st, cnt)) })"

definition credit_recipient ::
    "('bs, 'bo, 'tr, 'td, 'ns, 'e) chain_env_scheme \<Rightarrow> ('bs, 'bo, 'td, 'x) BlockChain_scheme \<Rightarrow>
     u64 \<Rightarrow> Transaction \<Rightarrow> 'tr \<times> nat \<Rightarrow> ('tr \<times> nat) option" where
  "credit_recipient E bc i tx = (\<lambda>(st, cnt).
     do {
       rid \<leftarrow> Get_PartitionMap E bc (tx_Recipient tx);
       if rid = bc_ShardID bc \<or> tx_HasBroker tx then do {
         r_state \<leftarrow> load_account E st (tx_Recipient tx) i;
         let r_state' = Deposit r_state (tx_Value tx);
         Some (tr_Update E st (tx_Recipient tx) (AS_Encode E r_state'), Suc cnt) }
       else Some (st, cnt) })"

definition exec_tx ::
    "('bs, 'bo, 'tr, 'td, 'ns, 'e) chain_env_scheme \<Rightarrow> ('bs, 'bo, 'td, 'x) BlockChain_scheme \<Rightarrow>
     'tr \<times> nat \<Rightarrow> nat \<times> Transaction \<Rightarrow> ('tr \<times> nat) option" where
  "exec_tx E bc acc = (\<lambda>(i, tx).
     do { r \<leftarrow> debit_sender E bc (of_nat i) tx acc;
          case r of Inl _ \<Rightarrow> Some acc | Inr acc' \<Rightarrow> credit_recipient E bc (of_nat i) tx acc' })"

text \<open>Committing a trie writes its dirty nodes to the trie database, when there are any.\<close>

definition commit_trie ::
    "('bs, 'bo, 'tr, 'td, 'ns, 'e) chain_env_scheme \<Rightarrow> 'td \<Rightarrow> 'tr \<Rightarrow> (bytes \<times> bool \<times> 'td) option" where
  "commit_trie E td st =
     (let (rt, ns) = tr_Commit E st in
      case ns of
        None \<Rightarrow> Some (rt, False, td)
      | Some nodes \<Rightarrow> do { td \<leftarrow> td_Update E td nodes; td \<leftarrow> td_Commit E td rt; Some (rt, True, td) })"

definition GetUpdateStatusTrie ::
    "('bs, 'bo, 'tr, 'td, 'ns, 'e) chain_env_scheme \<Rightarrow> ('bs, 'bo, 'td, 'x) BlockChain_scheme \<Rightarrow>
     Transaction list \<Rightarrow> (bytes \<times> ('bs, 'bo, 'td, 'x) BlockChain_scheme) option" where
  "GetUpdateStatusTrie E bc txs =
     (let root = BytesToHash (bh_StateRoot (bk_Header (bc_CurrentBlock bc))) in
      if txs = [] then Some (root, bc)
      else do {
        st \<leftarrow> tr_New E (bc_triedb bc) root;
        (st, cnt) \<leftarrow> foldlM (exec_tx E bc) (st, 0) (enumerate 0 txs);
        if cnt = 0 then Some (root, bc)
        else do {
          (rt, _, td) \<leftarrow> commit_trie E (bc_triedb bc) st;
          Some (rt, bc\<lparr>bc_triedb := td\<rparr>) } })"

section \<open>Producing and adding blocks\<close>

definition GenerateBlock ::
    "('bs, 'bo, 'tr, 'td, 'ns, 'e) chain_env_scheme \<Rightarrow> time \<Rightarrow> int \<Rightarrow> ('bs, 'bo, 'td, 'x) BlockChain_scheme \<Rightarrow>
     ('bs Block \<times> ('bs, 'bo, 'td, 'x) BlockChain_scheme) option" where
  "GenerateBlock E now miner bc =
     (let (txs, pool) = (if pm_UseBlocksizeInBytes (prm E) = 1
                         then PackTxsWithBytes (pm_BlocksizeInBytes (prm E)) (bc_Txpool bc)
                         else PackTxs (cc_BlockSize (bc_ChainConfig bc)) (bc_Txpool bc));
          bc = bc\<lparr>bc_Txpool := pool\<rparr>;
          cur = bc_CurrentBlock bc
      in do {
        (rt, bc) \<leftarrow> GetUpdateStatusTrie E bc txs;
        bloom \<leftarrow> GetBloomFilter E txs;
        let bh = \<lparr>bh_ParentBlockHash = bk_Hash cur, bh_StateRoot = rt, bh_TxRoot = GetTxTreeRoot E txs,
                  bh_Bloom = bloom, bh_Number = bh_Number (bk_Header cur) + 1, bh_Time = now,
                  bh_Miner = miner\<rparr>;
        Some ((NewBlock bh txs)\<lparr>bk_Hash := BH_Hash E bh\<rparr>, bc) })"

definition NewGenisisBlock ::
    "('bs, 'bo, 'tr, 'td, 'ns, 'e) chain_env_scheme \<Rightarrow> 'bs Block option" where
  "NewGenisisBlock E =
     do { bloom \<leftarrow> GetBloomFilter E [];
          let bh = \<lparr>bh_ParentBlockHash = [], bh_StateRoot = tr_Hash E (tr_NewEmpty E),
                    bh_TxRoot = GetTxTreeRoot E [], bh_Bloom = bloom, bh_Number = 0, bh_Time = 0,
                    bh_Miner = 0\<rparr>;
          Some ((NewBlock bh [])\<lparr>bk_Hash := BH_Hash E bh\<rparr>) }"

text \<open>The current block is read back from the store under the newest hash.\<close>

definition AddGenisisBlock ::
    "('bs, 'bo, 'tr, 'td, 'ns, 'e) chain_env_scheme \<Rightarrow> 'bs Block \<Rightarrow> 'bo Storage \<Rightarrow> ('bs Block \<times> 'bo Storage) option" where
  "AddGenisisBlock E gb s =
     do { s \<leftarrow> Storage_AddBlock E gb s;
          case GetNewestBlockHash E s of
            Inl _ \<Rightarrow> None
          | Inr newestHash \<Rightarrow> do {
              r \<leftarrow> GetBlock E newestHash s;
              case r of Inl _ \<Rightarrow> None | Inr curb \<Rightarrow> Some (curb, s) } }"

definition AddBlock ::
    "('bs, 'bo, 'tr, 'td, 'ns, 'e) chain_env_scheme \<Rightarrow> 'bs Block \<Rightarrow> ('bs, 'bo, 'td, 'x) BlockChain_scheme \<Rightarrow>
     ('bs, 'bo, 'td, 'x) BlockChain_scheme option" where
  "AddBlock E b bc =
     (if bh_Number (bk_Header b) \<noteq> bh_Number (bk_Header (bc_CurrentBlock bc)) + 1 then Some bc
      else if bh_ParentBlockHash (bk_Header b) \<noteq> bk_Hash (bc_CurrentBlock bc) then Some bc
      else do {
        bc \<leftarrow> (case tr_New E (bc_triedb bc) (BytesToHash (bh_StateRoot (bk_Header b))) of
                 None \<Rightarrow> map_option snd (GetUpdateStatusTrie E bc (bk_Body b))
               | Some _ \<Rightarrow> Some bc);
        let bc = bc\<lparr>bc_CurrentBlock := b\<rparr>;
        s \<leftarrow> Storage_AddBlock E b (bc_Storage bc);
        Some (bc\<lparr>bc_Storage := s\<rparr>) })"

text \<open>\<open>td0\<close> is the trie database on the LevelDB handle, \<open>opened\<close> the block database.\<close>

definition NewBlockChain ::
    "('bs, 'bo, 'tr, 'td, 'ns, 'e) chain_env_scheme \<Rightarrow> ChainConfig \<Rightarrow> bytes \<Rightarrow> 'td \<Rightarrow> 'bo option \<Rightarrow>
     ('bs, 'bo, 'td) BlockChain option" where
  "NewBlockChain E cc chainDBfp td0 opened =
     do { s \<leftarrow> NewStorage E chainDBfp opened;
          let mk = (\<lambda>s curb. \<lparr>bc_triedb = td0, bc_ChainConfig = cc, bc_CurrentBlock = curb,
                              bc_Storage = s, bc_Txpool = NewTxPool, bc_PartitionMap = Map.empty\<rparr>);
          case GetNewestBlockHash E s of
            Inl err \<Rightarrow>
              if err = ''cannot find the newest block hash'' then do {
                gb \<leftarrow> NewGenisisBlock E;
                (curb, s) \<leftarrow> AddGenisisBlock E gb s;
                Some (mk s curb) }
              else None
          | Inr curHash \<Rightarrow> do {
              r \<leftarrow> GetBlock E curHash s;
              case r of
                Inl _ \<Rightarrow> None
              | Inr curb \<Rightarrow> do {
                  _ \<leftarrow> tr_New E td0 (BytesToHash (bh_StateRoot (bk_Header curb)));
                  Some (mk s curb) } } }"

definition IsValidBlock ::
    "('bs, 'bo, 'tr, 'td, 'ns, 'e) chain_env_scheme \<Rightarrow> 'bs Block \<Rightarrow> ('bs, 'bo, 'td, 'x) BlockChain_scheme \<Rightarrow>
     bytes option" where
  "IsValidBlock E b bc =
     (if bh_ParentBlockHash (bk_Header b) \<noteq> bk_Hash (bc_CurrentBlock bc)
      then Some ''the parentblock hash is not equal to the current block hash''
      else if GetTxTreeRoot E (bk_Body b) \<noteq> bh_TxRoot (bk_Header b)
      then Some ''the transaction root is wrong''
      else None)"

section \<open>Moving accounts between shards\<close>

text \<open>\<^verbatim>\<open>as[i]\<close> panics when there are fewer states than addresses.\<close>

definition add_account ::
    "('bs, 'bo, 'tr, 'td, 'ns, 'e) chain_env_scheme \<Rightarrow> ('bs, 'bo, 'td, 'x) BlockChain_scheme \<Rightarrow>
     AccountState list \<Rightarrow> 'tr \<Rightarrow> nat \<times> address \<Rightarrow> 'tr option" where
  "add_account E bc as st = (\<lambda>(i, addr).
     do { sid \<leftarrow> Get_PartitionMap E bc addr;
          if sid = bc_ShardID bc then
            if i < length as then
              let new_state = (fresh_account (as_Nonce (as ! i)))\<lparr>as_Balance := as_Balance (as ! i)\<rparr>
              in Some (tr_Update E st addr (AS_Encode E new_state))
            else None
          else Some st })"

definition AddAccounts ::
    "('bs, 'bo, 'tr, 'td, 'ns, 'e) chain_env_scheme \<Rightarrow> address list \<Rightarrow> AccountState list \<Rightarrow>
     ('bs, 'bo, 'td, 'x) BlockChain_scheme \<Rightarrow> ('bs, 'bo, 'td, 'x) BlockChain_scheme option" where
  "AddAccounts E ac as bc =
     (let cur = bc_CurrentBlock bc; root = bh_StateRoot (bk_Header cur) in
      do {
        (rt, td) \<leftarrow>
          (if ac = [] then Some (root, bc_triedb bc)
           else do {
             st \<leftarrow> tr_New E (bc_triedb bc) (BytesToHash root);
             st \<leftarrow> foldlM (add_account E bc as) st (enumerate 0 ac);
             (rrt, written, td) \<leftarrow> commit_trie E (bc_triedb bc) st;
             Some (if written then rrt else root, td) });
        bloom \<leftarrow> GetBloomFilter E [];
        let bh = \<lparr>bh_ParentBlockHash = bk_Hash cur, bh_StateRoot = rt, bh_TxRoot = GetTxTreeRoot E [],
                  bh_Bloom = bloom, bh_Number = bh_Number (bk_Header cur) + 1, bh_Time = 0,
                  bh_Miner = 0\<rparr>;
        let b = (NewBlock bh [])\<lparr>bk_Hash := BH_Hash E bh\<rparr>;
        s \<leftarrow> Storage_AddBlock E b (bc_Storage bc);
        Some (bc\<lparr>bc_triedb := td, bc_CurrentBlock := b, bc_Storage := s\<rparr>) })"

definition FetchAccounts ::
    "('bs, 'bo, 'tr, 'td, 'ns, 'e) chain_env_scheme \<Rightarrow> address list \<Rightarrow> ('bs, 'bo, 'td, 'x) BlockChain_scheme \<Rightarrow>
     AccountState list option" where
  "FetchAccounts E addrs bc =
     do { st \<leftarrow> tr_New E (bc_triedb bc) (BytesToHash (bh_StateRoot (bk_Header (bc_CurrentBlock bc))));
          foldlM (\<lambda>res addr. do { a \<leftarrow> load_account E st addr 0; Some (res @ [a]) }) [] addrs }"

end
