(* ===== verification/Chain_Ledger.thy ===== *)
theory Chain_Ledger
  imports Block_Chain
begin

text \<open>
  Execution of a block's transactions (\<^verbatim>\<open>GetUpdateStatusTrie\<close>) against an abstract ledger. The
  ledger maps every address to a balance; \<open>ledger_tx\<close> says what one transaction does to it. The
  trie-based code refines it, never panics on well-formed input, and conserves money inside a
  shard and across the two shards of a relayed transaction.
\<close>

section \<open>Behaviour of the trie package\<close>

definition trie_updates ::
    "('bs, 'bo, 'tr, 'td, 'ns, 'e) chain_env_scheme \<Rightarrow> 'tr \<Rightarrow> (bytes \<times> bytes) list \<Rightarrow> 'tr" where
  "trie_updates E t kvs = foldl (\<lambda>t (k, v). tr_Update E t k v) t kvs"

lemma trie_updates_Nil [simp]: "trie_updates E t [] = t"
  by (simp add: trie_updates_def)

lemma trie_updates_snoc: "trie_updates E t (kvs @ [(k, v)]) = tr_Update E (trie_updates E t kvs) k v"
  by (simp add: trie_updates_def)

lemma trie_updates_append: "trie_updates E t (xs @ ys) = trie_updates E (trie_updates E t xs) ys"
  by (simp add: trie_updates_def)

text \<open>A trie opened in a database and then modified in memory.\<close>

definition trie_over :: "('bs, 'bo, 'tr, 'td, 'ns, 'e) chain_env_scheme \<Rightarrow> 'td \<Rightarrow> 'tr \<Rightarrow> bool" where
  "trie_over E td t \<longleftrightarrow> (\<exists>r t0 kvs. tr_New E td r = Some t0 \<and> t = trie_updates E t0 kvs)"

text \<open>\<open>td'\<close> holds the trie \<open>t\<close> under its root and still holds what \<open>td\<close> held under other roots.\<close>

definition persists ::
    "('bs, 'bo, 'tr, 'td, 'ns, 'e) chain_env_scheme \<Rightarrow> 'td \<Rightarrow> 'td \<Rightarrow> 'tr \<Rightarrow> bool" where
  "persists E td td' t \<longleftrightarrow>
     (\<exists>t'. tr_New E td' (tr_Hash E t) = Some t' \<and> tr_Get E t' = tr_Get E t) \<and>
     (\<forall>r t0. r \<noteq> tr_Hash E t \<longrightarrow> tr_New E td r = Some t0 \<longrightarrow>
        (\<exists>t1. tr_New E td' r = Some t1 \<and> tr_Get E t1 = tr_Get E t0))"

text \<open>
  The documented behaviour: a trie is a key-value map whose empty values mean absence; its
  32-byte root is a function of the contents; the zero hash and the empty root open the empty
  trie, and any other root opens a trie with that root; a commit answers the root and, when there
  is something to write, nodes that make the trie readable under that root; there is nothing to
  write when the trie is empty or was not changed. Nothing is assumed about collisions of roots.
\<close>

definition trie_map_laws :: "('bs, 'bo, 'tr, 'td, 'ns, 'e) chain_env_scheme \<Rightarrow> bool" where
  "trie_map_laws E \<longleftrightarrow>
     (\<forall>k. tr_Get E (tr_NewEmpty E) k = None) \<and>
     (\<forall>t k v k'. tr_Get E (tr_Update E t k v) k' =
        (if k' = k then (if v = [] then None else Some v) else tr_Get E t k')) \<and>
     (\<forall>t. length (tr_Hash E t) = 32) \<and>
     (\<forall>t t'. tr_Get E t = tr_Get E t' \<longrightarrow> tr_Hash E t = tr_Hash E t')"

definition trie_open_laws :: "('bs, 'bo, 'tr, 'td, 'ns, 'e) chain_env_scheme \<Rightarrow> bool" where
  "trie_open_laws E \<longleftrightarrow>
     (\<forall>td. tr_New E td (tr_Hash E (tr_NewEmpty E)) = Some (tr_NewEmpty E)) \<and>
     (\<forall>td. tr_New E td (BytesToHash []) = Some (tr_NewEmpty E)) \<and>
     (\<forall>td r t. tr_New E td r = Some t \<and> r \<noteq> BytesToHash [] \<longrightarrow> tr_Hash E t = r)"

definition trie_commit_laws :: "('bs, 'bo, 'tr, 'td, 'ns, 'e) chain_env_scheme \<Rightarrow> bool" where
  "trie_commit_laws E \<longleftrightarrow>
     (\<forall>t. fst (tr_Commit E t) = tr_Hash E t) \<and>
     (\<forall>td r t kvs. tr_New E td r = Some t \<and> snd (tr_Commit E (trie_updates E t kvs)) = None \<longrightarrow>
        tr_Hash E (trie_updates E t kvs) = tr_Hash E t \<or> (\<forall>k. tr_Get E (trie_updates E t kvs) k = None)) \<and>
     (\<forall>td t ns. trie_over E td t \<and> snd (tr_Commit E t) = Some ns \<longrightarrow>
        (\<exists>td1 td2. td_Update E td ns = Some td1 \<and> td_Commit E td1 (tr_Hash E t) = Some td2 \<and>
                   persists E td td2 t)) \<and>
     (\<forall>td t. trie_over E td t \<and> snd (tr_Commit E t) = None \<longrightarrow> persists E td td t)"

definition trie_laws :: "('bs, 'bo, 'tr, 'td, 'ns, 'e) chain_env_scheme \<Rightarrow> bool" where
  "trie_laws E \<longleftrightarrow> trie_map_laws E \<and> trie_open_laws E \<and> trie_commit_laws E"

lemmas trie_laws_defs = trie_laws_def trie_map_laws_def trie_open_laws_def trie_commit_laws_def

lemma trie_lawsD:
  assumes "trie_laws E"
  shows "tr_Get E (tr_NewEmpty E) k = None"
    "tr_Get E (tr_Update E t k v) k' = (if k' = k then (if v = [] then None else Some v) else tr_Get E t k')"
    "length (tr_Hash E t) = 32"
    "tr_Get E t1 = tr_Get E t2 \<Longrightarrow> tr_Hash E t1 = tr_Hash E t2"
    "tr_New E td (tr_Hash E (tr_NewEmpty E)) = Some (tr_NewEmpty E)"
    "tr_New E td (BytesToHash []) = Some (tr_NewEmpty E)"
    "fst (tr_Commit E t) = tr_Hash E t"
    "tr_New E td r = Some t \<Longrightarrow> r \<noteq> BytesToHash [] \<Longrightarrow> tr_Hash E t = r"
proof -
  have m: "trie_map_laws E" and o: "trie_open_laws E" and c: "trie_commit_laws E"
    using assms by (simp_all add: trie_laws_def)
  from m show "tr_Get E (tr_NewEmpty E) k = None"
    "tr_Get E (tr_Update E t k v) k' = (if k' = k then (if v = [] then None else Some v) else tr_Get E t k')"
    "length (tr_Hash E t) = 32" "tr_Get E t1 = tr_Get E t2 \<Longrightarrow> tr_Hash E t1 = tr_Hash E t2"
    unfolding trie_map_laws_def by blast+
  from o show "tr_New E td (tr_Hash E (tr_NewEmpty E)) = Some (tr_NewEmpty E)"
    "tr_New E td (BytesToHash []) = Some (tr_NewEmpty E)"
    "tr_New E td r = Some t \<Longrightarrow> r \<noteq> BytesToHash [] \<Longrightarrow> tr_Hash E t = r"
    unfolding trie_open_laws_def by blast+
  from c show "fst (tr_Commit E t) = tr_Hash E t" unfolding trie_commit_laws_def by blast
qed

text \<open>
  A commit makes the trie readable under its root; when nothing is written and the trie holds
  something, the trie opened under the old root already had its contents.
\<close>

lemma commit_trie_ok:
  assumes "trie_laws E" "trie_over E td t"
  shows "\<exists>w td'. commit_trie E td t = Some (tr_Hash E t, w, td') \<and> persists E td td' t
           \<and> (\<not> w \<longrightarrow> td' = td \<and> snd (tr_Commit E t) = None)"
proof -
  have c: "trie_commit_laws E" using assms(1) by (simp add: trie_laws_def)
  show ?thesis
  proof (cases "snd (tr_Commit E t)")
    case None
    then have "persists E td td t" using assms(2) c unfolding trie_commit_laws_def by blast
    with None show ?thesis using trie_lawsD(7)[OF assms(1), of t]
      by (auto simp: commit_trie_def split_beta)
  next
    case (Some ns)
    then obtain td1 td2 where "td_Update E td ns = Some td1" "td_Commit E td1 (tr_Hash E t) = Some td2"
      "persists E td td2 t" using assms(2) c unfolding trie_commit_laws_def by blast
    with Some show ?thesis using trie_lawsD(7)[OF assms(1), of t]
      by (auto simp: commit_trie_def split_beta)
  qed
qed

lemma commit_unchanged:
  assumes "trie_laws E" "tr_New E td r = Some t" "u = trie_updates E t kvs" "snd (tr_Commit E u) = None"
    and "\<exists>k. tr_Get E u k \<noteq> None"
  shows "tr_Get E u = tr_Get E t"
proof -
  have c: "trie_commit_laws E" using assms(1) by (simp add: trie_laws_def)
  have "tr_Hash E u = tr_Hash E t"
    using c assms(2-5) unfolding trie_commit_laws_def by metis
  then have h: "tr_New E td (tr_Hash E u) = Some t"
    using trie_lawsD(8)[OF assms(1,2)] trie_lawsD(5,6)[OF assms(1)] assms(2)
    by (cases "r = BytesToHash []") auto
  have "trie_over E td u" using assms(2,3) by (auto simp: trie_over_def)
  then have "persists E td td u" using c assms(4) unfolding trie_commit_laws_def by blast
  then show ?thesis using h by (auto simp: persists_def)
qed

section \<open>The abstract ledger\<close>

text \<open>The balance an account has in a trie; an account it does not hold has the initial balance.\<close>

definition balance_at ::
    "('bs, 'bo, 'tr, 'td, 'ns, 'e) chain_env_scheme \<Rightarrow> 'tr \<Rightarrow> address \<Rightarrow> int" where
  "balance_at E t a =
     (case tr_Get E t a of None \<Rightarrow> Init_Balance
      | Some enc \<Rightarrow> (case DecodeAS E enc of None \<Rightarrow> 0 | Some s \<Rightarrow> as_Balance s))"

definition ledger_at ::
    "('bs, 'bo, 'tr, 'td, 'ns, 'e) chain_env_scheme \<Rightarrow> 'td \<Rightarrow> bytes \<Rightarrow> (address \<Rightarrow> int) option" where
  "ledger_at E td root = map_option (balance_at E) (tr_New E td root)"

text \<open>Every stored account decodes.\<close>

definition accounts_ok :: "('bs, 'bo, 'tr, 'td, 'ns, 'e) chain_env_scheme \<Rightarrow> 'tr \<Rightarrow> bool" where
  "accounts_ok E t \<longleftrightarrow> (\<forall>a enc. tr_Get E t a = Some enc \<longrightarrow> DecodeAS E enc \<noteq> None)"

definition owns ::
    "('bs, 'e) core_env_scheme \<Rightarrow> ('bs, 'bo, 'td, 'x) BlockChain_scheme \<Rightarrow> address \<Rightarrow> bool" where
  "owns E bc a \<longleftrightarrow> Get_PartitionMap E bc a = Some (bc_ShardID bc)"

text \<open>
  What one transaction does to the balances of a shard that owns the addresses \<open>ow\<close>. The shard
  debits the sender of a transaction that was not relayed to it, and skips the transaction when
  the balance does not cover the amount; it credits a recipient of its own. A broker's
  transaction is debited and credited wherever it is executed.
\<close>

definition debits :: "(address \<Rightarrow> bool) \<Rightarrow> Transaction \<Rightarrow> bool" where
  "debits ow tx \<longleftrightarrow> \<not> tx_Relayed tx \<and> (ow (tx_Sender tx) \<or> tx_HasBroker tx)"

definition credits :: "(address \<Rightarrow> bool) \<Rightarrow> Transaction \<Rightarrow> bool" where
  "credits ow tx \<longleftrightarrow> ow (tx_Recipient tx) \<or> tx_HasBroker tx"

definition ledger_tx ::
    "(address \<Rightarrow> bool) \<Rightarrow> (address \<Rightarrow> int) \<Rightarrow> Transaction \<Rightarrow> (address \<Rightarrow> int)" where
  "ledger_tx ow bal tx =
     (if debits ow tx \<and> bal (tx_Sender tx) < tx_Value tx then bal
      else let bal1 = (if debits ow tx then bal(tx_Sender tx := bal (tx_Sender tx) - tx_Value tx) else bal)
           in if credits ow tx then bal1(tx_Recipient tx := bal1 (tx_Recipient tx) + tx_Value tx) else bal1)"

definition ledger_txs ::
    "(address \<Rightarrow> bool) \<Rightarrow> (address \<Rightarrow> int) \<Rightarrow> Transaction list \<Rightarrow> (address \<Rightarrow> int)" where
  "ledger_txs ow bal txs = foldl (ledger_tx ow) bal txs"

text \<open>Both ends of every transaction have a shard, so that \<^verbatim>\<open>Get_PartitionMap\<close> does not panic.\<close>

definition routable ::
    "('bs, 'e) core_env_scheme \<Rightarrow> ('bs, 'bo, 'td, 'x) BlockChain_scheme \<Rightarrow> Transaction \<Rightarrow> bool" where
  "routable E bc tx \<longleftrightarrow> Get_PartitionMap E bc (tx_Sender tx) \<noteq> None
                     \<and> Get_PartitionMap E bc (tx_Recipient tx) \<noteq> None"

lemma Get_PartitionMap_hex:
  "hex_address a \<Longrightarrow> 0 < pm_ShardNum (prm E) \<Longrightarrow> Get_PartitionMap E bc a \<noteq> None"
  by (auto simp: Get_PartitionMap_def split: option.split elim: Addr2Shard_total)

section \<open>One transaction refines one ledger step\<close>

lemma load_account_balance:
  assumes "accounts_ok E t"
  obtains s where "load_account E t a n = Some s" "as_Balance s = balance_at E t a"
  using assms
  by (cases "tr_Get E t a")
     (auto simp: load_account_def balance_at_def accounts_ok_def fresh_account_def)

lemma update_account:
  assumes "core_laws E" "trie_laws E" "accounts_ok E t"
  shows "accounts_ok E (tr_Update E t a (AS_Encode E s))"
    "balance_at E (tr_Update E t a (AS_Encode E s)) = (balance_at E t)(a := as_Balance s)"
  using assms(3)
  by (auto simp: accounts_ok_def balance_at_def trie_lawsD(2)[OF assms(2)] decode_encode[OF assms(1)]
      split: if_splits)

text \<open>The loop invariant: the trie grew by updates from the opened one, and means the ledger.\<close>

definition exec_inv ::
    "('bs, 'bo, 'tr, 'td, 'ns, 'e) chain_env_scheme \<Rightarrow> 'tr \<Rightarrow> 'tr \<times> nat \<Rightarrow> (address \<Rightarrow> int) \<Rightarrow> bool" where
  "exec_inv E t0 acc bal \<longleftrightarrow>
     accounts_ok E (fst acc) \<and> balance_at E (fst acc) = bal \<and>
     (\<exists>kvs. fst acc = trie_updates E t0 kvs) \<and> (snd acc = 0 \<longrightarrow> fst acc = t0)"

lemma exec_inv_update:
  assumes "core_laws E" "trie_laws E" "exec_inv E t0 (t, n) bal"
  shows "exec_inv E t0 (tr_Update E t a (AS_Encode E s), Suc n) (bal(a := as_Balance s))"
proof -
  from assms(3) obtain kvs where kvs: "t = trie_updates E t0 kvs" by (auto simp: exec_inv_def)
  then have "tr_Update E t a (AS_Encode E s) = trie_updates E t0 (kvs @ [(a, AS_Encode E s)])"
    by (simp add: trie_updates_snoc)
  with assms(3) update_account[OF assms(1,2), of t a s] show ?thesis
    by (auto simp: exec_inv_def)
qed

lemma debit_sender_refines:
  assumes "core_laws E" "trie_laws E" "exec_inv E t0 acc bal" "routable E bc tx"
  shows "if debits (owns E bc) tx \<and> bal (tx_Sender tx) < tx_Value tx
         then debit_sender E bc i tx acc = Some (Inl ())
         else \<exists>acc'. debit_sender E bc i tx acc = Some (Inr acc') \<and>
                exec_inv E t0 acc' (if debits (owns E bc) tx
                  then bal(tx_Sender tx := bal (tx_Sender tx) - tx_Value tx) else bal)"
proof -
  obtain t n where acc: "acc = (t, n)" by fastforce
  with assms(3) have ok: "accounts_ok E t" and bal: "balance_at E t = bal" by (auto simp: exec_inv_def)
  from assms(4) obtain sid where sid: "Get_PartitionMap E bc (tx_Sender tx) = Some sid"
    by (auto simp: routable_def)
  obtain s where s: "load_account E t (tx_Sender tx) i = Some s" "as_Balance s = bal (tx_Sender tx)"
    using load_account_balance[OF ok] bal by metis
  have d: "debits (owns E bc) tx \<longleftrightarrow> \<not> tx_Relayed tx \<and> (sid = bc_ShardID bc \<or> tx_HasBroker tx)"
    by (auto simp: debits_def owns_def sid)
  show ?thesis
    using exec_inv_update[OF assms(1,2) assms(3)[unfolded acc], of "tx_Sender tx" "snd (Deduct s (tx_Value tx))"]
      assms(3) sid s d
    by (auto simp: debit_sender_def acc Deduct_def Let_def)
qed

lemma credit_recipient_refines:
  assumes "core_laws E" "trie_laws E" "exec_inv E t0 acc bal" "routable E bc tx"
  shows "\<exists>acc'. credit_recipient E bc i tx acc = Some acc' \<and>
           exec_inv E t0 acc' (if credits (owns E bc) tx
             then bal(tx_Recipient tx := bal (tx_Recipient tx) + tx_Value tx) else bal)"
proof -
  obtain t n where acc: "acc = (t, n)" by fastforce
  with assms(3) have ok: "accounts_ok E t" and bal: "balance_at E t = bal" by (auto simp: exec_inv_def)
  from assms(4) obtain rid where rid: "Get_PartitionMap E bc (tx_Recipient tx) = Some rid"
    by (auto simp: routable_def)
  obtain s where s: "load_account E t (tx_Recipient tx) i = Some s" "as_Balance s = bal (tx_Recipient tx)"
    using load_account_balance[OF ok] bal by metis
  show ?thesis
    using exec_inv_update[OF assms(1,2) assms(3)[unfolded acc], of "tx_Recipient tx" "Deposit s (tx_Value tx)"]
      assms(3) rid s
    by (auto simp: credit_recipient_def acc credits_def owns_def)
qed

lemma exec_tx_refines:
  assumes "core_laws E" "trie_laws E" "exec_inv E t0 acc bal" "routable E bc (snd itx)"
  shows "\<exists>acc'. exec_tx E bc acc itx = Some acc' \<and> exec_inv E t0 acc' (ledger_tx (owns E bc) bal (snd itx))"
proof (cases "debits (owns E bc) (snd itx) \<and> bal (tx_Sender (snd itx)) < tx_Value (snd itx)")
  case True
  with debit_sender_refines[OF assms, of "of_nat (fst itx)"] assms(3) show ?thesis
    by (auto simp: exec_tx_def split_beta ledger_tx_def)
next
  case False
  with debit_sender_refines[OF assms, of "of_nat (fst itx)"] obtain acc1 where
    1: "debit_sender E bc (of_nat (fst itx)) (snd itx) acc = Some (Inr acc1)"
       "exec_inv E t0 acc1 (if debits (owns E bc) (snd itx)
          then bal(tx_Sender (snd itx) := bal (tx_Sender (snd itx)) - tx_Value (snd itx)) else bal)"
    by auto
  from credit_recipient_refines[OF assms(1,2) 1(2) assms(4), of "of_nat (fst itx)"] 1(1) False
  show ?thesis by (auto simp: exec_tx_def split_beta ledger_tx_def Let_def)
qed

lemma exec_txs_refines:
  assumes "core_laws E" "trie_laws E" "exec_inv E t0 acc bal" "\<forall>tx \<in> set txs. routable E bc tx"
  shows "\<exists>acc'. foldlM (exec_tx E bc) acc (enumerate n txs) = Some acc'
           \<and> exec_inv E t0 acc' (ledger_txs (owns E bc) bal txs)"
  using assms(3,4)
proof (induction txs arbitrary: acc bal n)
  case Nil
  then show ?case by (simp add: ledger_txs_def)
next
  case (Cons tx txs)
  from exec_tx_refines[OF assms(1,2) Cons.prems(1), of bc "(n, tx)"] Cons.prems(2) obtain acc1 where
    1: "exec_tx E bc acc (n, tx) = Some acc1" "exec_inv E t0 acc1 (ledger_tx (owns E bc) bal tx)" by auto
  from Cons.IH[OF 1(2), of "Suc n"] Cons.prems(2) obtain acc2 where
    "foldlM (exec_tx E bc) acc1 (enumerate (Suc n) txs) = Some acc2"
    "exec_inv E t0 acc2 (ledger_txs (owns E bc) (ledger_tx (owns E bc) bal tx) txs)" by auto
  with 1 show ?case by (auto simp: ledger_txs_def)
qed

section \<open>A block refines the ledger\<close>

text \<open>The state root of the current block can be opened and its accounts decode.\<close>

definition state_root :: "('bs, 'bo, 'td, 'x) BlockChain_scheme \<Rightarrow> bytes" where
  "state_root bc = BytesToHash (bh_StateRoot (bk_Header (bc_CurrentBlock bc)))"

definition state_ok ::
    "('bs, 'bo, 'tr, 'td, 'ns, 'e) chain_env_scheme \<Rightarrow> ('bs, 'bo, 'td, 'x) BlockChain_scheme \<Rightarrow> bool" where
  "state_ok E bc \<longleftrightarrow> (\<exists>t. tr_New E (bc_triedb bc) (state_root bc) = Some t \<and> accounts_ok E t)"

lemma exec_inv_start: "accounts_ok E t \<Longrightarrow> exec_inv E t (t, 0) (balance_at E t)"
  unfolding exec_inv_def by (auto intro: exI[of _ "[]"])

lemma accounts_ok_cong: "tr_Get E t = tr_Get E t' \<Longrightarrow> accounts_ok E t = accounts_ok E t'"
  by (simp add: accounts_ok_def)

lemma balance_at_cong: "tr_Get E t = tr_Get E t' \<Longrightarrow> balance_at E t = balance_at E t'"
  by (simp add: balance_at_def fun_eq_iff)

lemma GetUpdateStatusTrie_refines:
  assumes "core_laws E" "trie_laws E" "\<forall>tx \<in> set txs. routable E bc tx"
    and t: "tr_New E (bc_triedb bc) (state_root bc) = Some t" "accounts_ok E t"
  shows "\<exists>rt td t'. GetUpdateStatusTrie E bc txs = Some (rt, bc\<lparr>bc_triedb := td\<rparr>)
           \<and> tr_New E td rt = Some t' \<and> accounts_ok E t' \<and> rt = BytesToHash rt
           \<and> balance_at E t' = ledger_txs (owns E bc) (balance_at E t) txs"
proof (cases "txs = []")
  case True
  have "BytesToHash (BytesToHash r) = BytesToHash r" for r
    by (rule BytesToHash_id) (auto simp: BytesToHash_def)
  with True t show ?thesis
    by (auto simp: GetUpdateStatusTrie_def ledger_txs_def state_root_def
        intro!: exI[of _ "bc_triedb bc"] exI[of _ "BytesToHash (bh_StateRoot (bk_Header (bc_CurrentBlock bc)))"])
next
  case False
  from exec_txs_refines[OF assms(1,2) exec_inv_start[OF t(2)] assms(3), of 0] obtain u n where
    u: "foldlM (exec_tx E bc) (t, 0) (enumerate 0 txs) = Some (u, n)"
       "exec_inv E t (u, n) (ledger_txs (owns E bc) (balance_at E t) txs)" by auto
  show ?thesis
  proof (cases "n = 0")
    case True
    with u have "ledger_txs (owns E bc) (balance_at E t) txs = balance_at E t" by (auto simp: exec_inv_def)
    moreover have "BytesToHash (state_root bc) = state_root bc"
      by (rule BytesToHash_id) (auto simp: BytesToHash_def state_root_def)
    ultimately show ?thesis using True u(1) t False
      by (auto simp: GetUpdateStatusTrie_def Let_def state_root_def[symmetric]
          intro!: exI[of _ "bc_triedb bc"])
  next
    case n: False
    have over: "trie_over E (bc_triedb bc) u" using u(2) t(1) by (auto simp: exec_inv_def trie_over_def)
    from commit_trie_ok[OF assms(2) over] obtain w td where
      c: "commit_trie E (bc_triedb bc) u = Some (tr_Hash E u, w, td)" "persists E (bc_triedb bc) td u" by auto
    then obtain t' where t': "tr_New E td (tr_Hash E u) = Some t'" "tr_Get E t' = tr_Get E u"
      by (auto simp: persists_def)
    have "GetUpdateStatusTrie E bc txs = Some (tr_Hash E u, bc\<lparr>bc_triedb := td\<rparr>)"
      using u(1) t(1) n False c(1) by (simp add: GetUpdateStatusTrie_def Let_def state_root_def[symmetric])
    with t' u(2) show ?thesis
      using accounts_ok_cong[OF t'(2)] balance_at_cong[OF t'(2)]
      by (auto simp: exec_inv_def BytesToHash_id trie_lawsD(3)[OF assms(2)])
  qed
qed

section \<open>Money\<close>

definition total :: "address set \<Rightarrow> (address \<Rightarrow> int) \<Rightarrow> int" where
  "total A bal = (\<Sum>a\<in>A. bal a)"

lemma total_upd: "finite A \<Longrightarrow> a \<in> A \<Longrightarrow> total A (bal(a := v)) = total A bal - bal a + v"
proof -
  assume A: "finite A" "a \<in> A"
  have "total A (bal(a := v)) = v + (\<Sum>x\<in>A - {a}. (bal(a := v)) x)"
    using A by (simp add: total_def sum.remove)
  also have "(\<Sum>x\<in>A - {a}. (bal(a := v)) x) = (\<Sum>x\<in>A - {a}. bal x)" by (rule sum.cong) auto
  finally show ?thesis using A by (simp add: total_def sum.remove)
qed

lemma total_upd_out: "a \<notin> A \<Longrightarrow> total A (bal(a := v)) = total A bal"
  unfolding total_def by (rule sum.cong) auto

text \<open>The amount that enters and the amount that leaves a shard's books with one transaction.\<close>

definition executed :: "(address \<Rightarrow> bool) \<Rightarrow> (address \<Rightarrow> int) \<Rightarrow> Transaction \<Rightarrow> bool" where
  "executed ow bal tx \<longleftrightarrow> \<not> (debits ow tx \<and> bal (tx_Sender tx) < tx_Value tx)"

definition inflow :: "(address \<Rightarrow> bool) \<Rightarrow> (address \<Rightarrow> int) \<Rightarrow> Transaction \<Rightarrow> int" where
  "inflow ow bal tx = (if executed ow bal tx \<and> credits ow tx \<and> \<not> debits ow tx then tx_Value tx else 0)"

definition outflow :: "(address \<Rightarrow> bool) \<Rightarrow> (address \<Rightarrow> int) \<Rightarrow> Transaction \<Rightarrow> int" where
  "outflow ow bal tx = (if executed ow bal tx \<and> debits ow tx \<and> \<not> credits ow tx then tx_Value tx else 0)"

lemma total_ledger_tx:
  assumes "finite A" "tx_Sender tx \<in> A" "tx_Recipient tx \<in> A"
  shows "total A (ledger_tx ow bal tx) = total A bal + inflow ow bal tx - outflow ow bal tx"
  using assms by (auto simp: ledger_tx_def inflow_def outflow_def executed_def Let_def total_upd)

text \<open>Both flows accumulated over a block.\<close>

primrec flows :: "(address \<Rightarrow> bool) \<Rightarrow> (address \<Rightarrow> int) \<Rightarrow> Transaction list \<Rightarrow> int \<times> int" where
  "flows ow bal [] = (0, 0)"
| "flows ow bal (tx # txs) =
     (let (i, out) = flows ow (ledger_tx ow bal tx) txs
      in (inflow ow bal tx + i, outflow ow bal tx + out))"

lemma total_ledger_txs:
  assumes "finite A" "\<forall>tx \<in> set txs. tx_Sender tx \<in> A \<and> tx_Recipient tx \<in> A"
  shows "total A (ledger_txs ow bal txs) = total A bal + fst (flows ow bal txs) - snd (flows ow bal txs)"
  using assms(2)
proof (induction txs arbitrary: bal)
  case Nil
  then show ?case by (simp add: ledger_txs_def)
next
  case (Cons tx txs)
  from Cons.IH[of "ledger_tx ow bal tx"] Cons.prems
  show ?case using total_ledger_tx[OF assms(1), of tx ow bal]
    by (simp add: ledger_txs_def Let_def split_beta)
qed

lemma ledger_tx_nonneg:
  "0 \<le> tx_Value tx \<Longrightarrow> \<forall>a. 0 \<le> bal a \<Longrightarrow> \<forall>a. 0 \<le> ledger_tx ow bal tx a"
  by (auto simp: ledger_tx_def Let_def)

lemma ledger_txs_nonneg:
  "\<forall>tx \<in> set txs. 0 \<le> tx_Value tx \<Longrightarrow> \<forall>a. 0 \<le> bal a \<Longrightarrow> \<forall>a. 0 \<le> ledger_txs ow bal txs a"
proof (induction txs arbitrary: bal)
  case Nil
  then show ?case by (simp add: ledger_txs_def)
next
  case (Cons tx txs)
  then have "\<forall>a. 0 \<le> ledger_tx ow bal tx a" using ledger_tx_nonneg[of tx bal ow] by simp
  with Cons show ?case by (simp add: ledger_txs_def)
qed

lemma flows_local:
  "\<forall>tx \<in> set txs. debits ow tx \<and> credits ow tx \<Longrightarrow> flows ow bal txs = (0, 0)"
  by (induction txs arbitrary: bal) (auto simp: inflow_def outflow_def)

end
