(* ===== verification/Model_Env.thy ===== *)
theory Model_Env
  imports Chain_Ledger
begin

text \<open>
  A concrete, executable environment: encoders that really encode, a bit set that is a list of
  bits, a database that is a list of entries and a trie that is an association list stored
  whole under its root. It satisfies every law the development assumes of third-party code, so
  the theorems that assume these laws are about something; the witnesses run on it.
\<close>

section \<open>Codecs\<close>

type_synonym 'a codec = "('a \<Rightarrow> bytes) \<times> (bytes \<Rightarrow> ('a \<times> bytes) option)"

definition good_codec :: "'a codec \<Rightarrow> bool" where
  "good_codec c \<longleftrightarrow> (\<forall>a rest. snd c (fst c a @ rest) = Some (a, rest))"

fun enc_nat :: "nat \<Rightarrow> bytes" where
  "enc_nat n = (if n = 0 then [CHR 0x00]
                else (if even n then CHR 0x01 else CHR 0x02) # enc_nat (n div 2))"

declare enc_nat.simps [simp del]

fun dec_nat :: "bytes \<Rightarrow> (nat \<times> bytes) option" where
  "dec_nat [] = None"
| "dec_nat (c # cs) =
     (if c = CHR 0x00 then Some (0, cs)
      else do { (n, rest) \<leftarrow> dec_nat cs; Some (if c = CHR 0x01 then 2 * n else Suc (2 * n), rest) })"

lemma dec_enc_nat: "dec_nat (enc_nat n @ rest) = Some (n, rest)"
proof (induction n rule: enc_nat.induct)
  case (1 n)
  then show ?case by (subst enc_nat.simps) auto
qed

definition nat_codec :: "nat codec" where "nat_codec = (enc_nat, dec_nat)"

definition iso_codec :: "('b \<Rightarrow> 'a) \<Rightarrow> ('a \<Rightarrow> 'b) \<Rightarrow> 'a codec \<Rightarrow> 'b codec" where
  "iso_codec f g c = (\<lambda>b. fst c (f b), \<lambda>bs. do { (a, rest) \<leftarrow> snd c bs; Some (g a, rest) })"

definition pair_codec :: "'a codec \<Rightarrow> 'b codec \<Rightarrow> ('a \<times> 'b) codec" where
  "pair_codec c d = (\<lambda>(a, b). fst c a @ fst d b,
     \<lambda>bs. do { (a, r) \<leftarrow> snd c bs; (b, r) \<leftarrow> snd d r; Some ((a, b), r) })"

primrec dec_many :: "(bytes \<Rightarrow> ('a \<times> bytes) option) \<Rightarrow> nat \<Rightarrow> bytes \<Rightarrow> ('a list \<times> bytes) option" where
  "dec_many d 0 bs = Some ([], bs)"
| "dec_many d (Suc n) bs = do { (a, r) \<leftarrow> d bs; (as, r) \<leftarrow> dec_many d n r; Some (a # as, r) }"

definition list_codec :: "'a codec \<Rightarrow> 'a list codec" where
  "list_codec c = (\<lambda>as. enc_nat (length as) @ concat (map (fst c) as),
                   \<lambda>bs. do { (n, r) \<leftarrow> dec_nat bs; dec_many (snd c) n r })"

lemma good_nat: "good_codec nat_codec"
  by (simp add: good_codec_def nat_codec_def dec_enc_nat)

lemma good_iso: "good_codec c \<Longrightarrow> (\<And>b. g (f b) = b) \<Longrightarrow> good_codec (iso_codec f g c)"
  by (simp add: good_codec_def iso_codec_def)

lemma good_pair: "good_codec c \<Longrightarrow> good_codec d \<Longrightarrow> good_codec (pair_codec c d)"
  by (simp add: good_codec_def pair_codec_def)

lemma dec_many_enc:
  "good_codec c \<Longrightarrow> dec_many (snd c) (length as) (concat (map (fst c) as) @ rest) = Some (as, rest)"
  by (induction as) (auto simp: good_codec_def)

lemma good_list: "good_codec c \<Longrightarrow> good_codec (list_codec c)"
  unfolding good_codec_def list_codec_def by (simp add: dec_enc_nat dec_many_enc good_codec_def)

definition bool_codec :: "bool codec" where
  "bool_codec = iso_codec (\<lambda>b. if b then 1 else 0) (\<lambda>n. n = 1) nat_codec"

definition char_codec :: "char codec" where
  "char_codec = iso_codec of_char char_of nat_codec"

definition bytes_codec :: "bytes codec" where "bytes_codec = list_codec char_codec"

definition u64_codec :: "u64 codec" where "u64_codec = iso_codec unat of_nat nat_codec"

definition int_codec :: "int codec" where
  "int_codec = iso_codec (\<lambda>i. (i < 0, nat \<bar>i\<bar>)) (\<lambda>(s, n). if s then - int n else int n)
                 (pair_codec bool_codec nat_codec)"

named_theorems good_codecs "codecs that decode what they encode"

declare good_nat [good_codecs] good_pair [good_codecs] good_list [good_codecs]

lemma good_basic [good_codecs]:
  "good_codec bool_codec" "good_codec char_codec" "good_codec bytes_codec"
  "good_codec u64_codec" "good_codec int_codec"
proof -
  show b: "good_codec bool_codec"
    unfolding bool_codec_def by (rule good_iso[OF good_nat]) auto
  show c: "good_codec char_codec"
    unfolding char_codec_def by (rule good_iso[OF good_nat]) simp
  show "good_codec bytes_codec" unfolding bytes_codec_def by (rule good_list[OF c])
  show "good_codec u64_codec" unfolding u64_codec_def by (rule good_iso[OF good_nat]) simp
  show "good_codec int_codec"
    unfolding int_codec_def by (rule good_iso[OF good_pair[OF b good_nat]]) auto
qed

section \<open>Codecs of the stored structures\<close>

definition AS_codec :: "AccountState codec" where
  "AS_codec = iso_codec
     (\<lambda>a. (as_AcAddress a, as_Nonce a, as_Balance a, as_StorageRoot a, as_CodeHash a))
     (\<lambda>(ad, n, b, sr, ch). \<lparr>as_AcAddress = ad, as_Nonce = n, as_Balance = b, as_StorageRoot = sr,
                            as_CodeHash = ch\<rparr>)
     (pair_codec bytes_codec (pair_codec u64_codec (pair_codec int_codec
        (pair_codec bytes_codec bytes_codec))))"

definition Tx_codec :: "Transaction codec" where
  "Tx_codec = iso_codec
     (\<lambda>t. (tx_Sender t, tx_Recipient t, tx_Nonce t, tx_Signature t, tx_Value t, tx_TxHash t, tx_Time t,
           tx_Relayed t, tx_HasBroker t, tx_SenderIsBroker t, tx_OriginalSender t, tx_FinalRecipient t,
           tx_RawTxHash t))
     (\<lambda>(s, r, n, sg, v, h, tm, re, hb, sb, os, fr, rh).
        \<lparr>tx_Sender = s, tx_Recipient = r, tx_Nonce = n, tx_Signature = sg, tx_Value = v, tx_TxHash = h,
         tx_Time = tm, tx_Relayed = re, tx_HasBroker = hb, tx_SenderIsBroker = sb,
         tx_OriginalSender = os, tx_FinalRecipient = fr, tx_RawTxHash = rh\<rparr>)
     (pair_codec bytes_codec (pair_codec bytes_codec (pair_codec u64_codec (pair_codec bytes_codec
       (pair_codec int_codec (pair_codec bytes_codec (pair_codec int_codec (pair_codec bool_codec
         (pair_codec bool_codec (pair_codec bool_codec (pair_codec bytes_codec
           (pair_codec bytes_codec bytes_codec))))))))))))"

definition BH_codec :: "nat list BlockHeader codec" where
  "BH_codec = iso_codec
     (\<lambda>h. (bh_ParentBlockHash h, bh_StateRoot h, bh_TxRoot h, bh_Bloom h, bh_Number h, bh_Time h, bh_Miner h))
     (\<lambda>(p, s, t, bl, n, tm, mi). \<lparr>bh_ParentBlockHash = p, bh_StateRoot = s, bh_TxRoot = t, bh_Bloom = bl,
         bh_Number = n, bh_Time = tm, bh_Miner = mi\<rparr>)
     (pair_codec bytes_codec (pair_codec bytes_codec (pair_codec bytes_codec
       (pair_codec (list_codec nat_codec) (pair_codec u64_codec (pair_codec int_codec int_codec))))))"

definition B_codec :: "nat list Block codec" where
  "B_codec = iso_codec (\<lambda>b. (bk_Header b, bk_Body b, bk_Hash b))
     (\<lambda>(h, b, ha). \<lparr>bk_Header = h, bk_Body = b, bk_Hash = ha\<rparr>)
     (pair_codec BH_codec (pair_codec (list_codec Tx_codec) bytes_codec))"

lemma good_structs [good_codecs]:
  "good_codec AS_codec" "good_codec Tx_codec" "good_codec BH_codec" "good_codec B_codec"
proof -
  show "good_codec AS_codec"
    unfolding AS_codec_def by (rule good_iso) (auto intro!: good_codecs)
  show t: "good_codec Tx_codec"
    unfolding Tx_codec_def by (rule good_iso) (auto intro!: good_codecs)
  show h: "good_codec BH_codec"
    unfolding BH_codec_def by (rule good_iso) (auto intro!: good_codecs)
  show "good_codec B_codec"
    unfolding B_codec_def by (rule good_iso) (auto intro!: good_codecs t h)
qed

definition run_codec :: "'a codec \<Rightarrow> bytes \<Rightarrow> 'a option" where
  "run_codec c bs = map_option fst (snd c bs)"

text \<open>A leading byte keeps every encoding non-empty.\<close>

definition tag_enc :: "'a codec \<Rightarrow> 'a \<Rightarrow> bytes" where
  "tag_enc c a = CHR 0x07 # fst c a"

definition tag_dec :: "'a codec \<Rightarrow> bytes \<Rightarrow> 'a option" where
  "tag_dec c bs = (case bs of [] \<Rightarrow> None | _ # r \<Rightarrow> run_codec c r)"

lemma tag_dec_enc: "good_codec c \<Longrightarrow> tag_dec c (tag_enc c a) = Some a"
  unfolding good_codec_def tag_dec_def tag_enc_def run_codec_def
  by (simp, metis append_Nil2 fst_conv option.simps(9))

section \<open>The environment\<close>

type_synonym alist_trie = "(bytes \<times> bytes) list"

definition demo_params :: Params where
  "demo_params = \<lparr>pm_NodesInShard = 4, pm_ShardNum = 2, pm_ConsensusMethod = 3,
     pm_PbftViewChangeTimeOut = 3000, pm_Block_Interval = 5000, pm_MaxBlockSize_global = 2000,
     pm_BlocksizeInBytes = 20000, pm_UseBlocksizeInBytes = 0, pm_InjectSpeed = 2000,
     pm_TotalDataSize = 160000, pm_TxBatchSize = 16000, pm_BrokerNum = 10,
     pm_RelayWithMerkleProof = 0, pm_ExpDataRootDir = ''expTest'', pm_DataWrite_path = ''expTest/result/'',
     pm_LogWrite_path = ''expTest/log'', pm_DatabaseWrite_path = ''expTest/database/'',
     pm_DatasetFile = ''selectedTxs_300K.csv'', pm_ReconfigTimeGap = 50, pm_Delay = -1,
     pm_JitterRange = -1, pm_Bandwidth = -1,
     pm_Overhead = \<lparr>oh_Enabled = False, oh_Lightweight = False, oh_Migration = False,
       oh_MigrationAfterSeconds = 0, oh_MigrationAccounts = 0, oh_TimeoutSeconds = 0,
       oh_StreamSkipNode = 0\<rparr>\<rparr>"

definition alist_put :: "bytes \<Rightarrow> bytes \<Rightarrow> alist_trie \<Rightarrow> alist_trie" where
  "alist_put k v t = (let r = filter (\<lambda>p. fst p \<noteq> k) t in if v = [] then r else (k, v) # r)"

definition demo_root :: "alist_trie \<Rightarrow> bytes" where
  "demo_root t = replicate 32 (if t = [] then CHR 0x01 else CHR 0x02)"

definition demo_env :: "(nat list, (bytes list \<times> ((bytes \<times> bytes) \<times> bytes) list), alist_trie,
    (bytes \<times> alist_trie) list, bytes \<times> alist_trie) chain_env" where
  "demo_env = \<lparr>prm = demo_params,
     sha256_Sum256 = (\<lambda>b. replicate 32 (CHR 0x03)),
     gob_AS = tag_enc AS_codec, ungob_AS = tag_dec AS_codec,
     gob_Tx = tag_enc Tx_codec, ungob_Tx = tag_dec Tx_codec,
     gob_BH = tag_enc BH_codec, ungob_BH = tag_dec BH_codec,
     gob_B = tag_enc B_codec, ungob_B = tag_dec B_codec,
     bs_New = (\<lambda>n. []), bs_Set = (\<lambda>i s. i # s), bs_Test = (\<lambda>s i. i \<in> set s),
     bolt_CreateBucket = (\<lambda>(bk, es) b. Some (b # bk, es)),
     bolt_HasBucket = (\<lambda>(bk, es) b. b \<in> set bk),
     bolt_Put = (\<lambda>(bk, es) b k v. if b \<in> set bk \<and> k \<noteq> [] then Some (bk, ((b, k), v) # es) else None),
     bolt_Get = (\<lambda>(bk, es) b k. map_of es (b, k)),
     tr_NewEmpty = [],
     tr_New = (\<lambda>td r. if r = demo_root [] \<or> r = BytesToHash [] then Some []
                         else do { t \<leftarrow> map_of td r; if demo_root t = r then Some t else None }),
     tr_Get = map_of,
     tr_Update = (\<lambda>t k v. alist_put k v t),
     tr_Hash = demo_root,
     tr_Commit = (\<lambda>t. (demo_root t, if t = [] then None else Some (demo_root t, t))),
     td_Update = (\<lambda>td n. Some (n # td)),
     td_Commit = (\<lambda>td r. Some td),
     tr_Prove = (\<lambda>t k. Some t),
     tr_VerifyProof = (\<lambda>r k p. if r = demo_root p then map_of p k else None)\<rparr>"

lemma demo_core_laws: "core_laws demo_env"
  by (simp add: core_laws_def demo_env_def tag_dec_enc good_structs) (simp add: tag_enc_def)

lemma demo_store_laws: "store_laws demo_env"
  by (auto simp: store_laws_def demo_env_def fun_eq_iff)

lemma map_of_alist_put:
  "map_of (alist_put k v t) k' = (if k' = k then (if v = [] then None else Some v) else map_of t k')"
proof -
  have "map_of (filter (\<lambda>p. fst p \<noteq> k) t) k' = (if k' = k then None else map_of t k')" by (induction t) auto
  then show ?thesis by (auto simp: alist_put_def Let_def)
qed

lemma demo_root_eq: "demo_root t = demo_root t' \<longleftrightarrow> (t = [] \<longleftrightarrow> t' = [])"
  by (auto simp: demo_root_def)

lemma demo_zero: "BytesToHash [] \<noteq> demo_root t"
  by (auto simp: BytesToHash_def demo_root_def)

lemma demo_trie_ops [simp]:
  "tr_New demo_env td r = (if r = demo_root [] \<or> r = BytesToHash [] then Some []
     else do { t \<leftarrow> map_of td r; if demo_root t = r then Some t else None })"
  "tr_NewEmpty demo_env = []" "tr_Get demo_env = map_of" "tr_Hash demo_env = demo_root"
  "tr_Update demo_env t k v = alist_put k v t"
  "tr_Commit demo_env t = (demo_root t, if t = [] then None else Some (demo_root t, t))"
  "td_Update demo_env td n = Some (n # td)" "td_Commit demo_env td r = Some td"
  by (simp_all add: demo_env_def)

lemma demo_persists:
  "persists demo_env td ((demo_root t, t) # td) t" "persists demo_env td td []"
  using demo_zero[of t] demo_zero[of t, symmetric] by (auto simp: persists_def demo_root_eq split: bind_splits if_splits)

lemma demo_trie_laws: "trie_laws demo_env"
proof -
  have empty: "map_of t = map_of t' \<Longrightarrow> demo_root t = demo_root t'" for t t' :: alist_trie
    by (metis demo_root_eq map_of_eq_empty_iff)
  have len: "length (demo_root t) = 32" for t by (simp add: demo_root_def)
  show ?thesis unfolding trie_laws_defs
    using demo_persists
    by (intro conjI allI impI; (elim conjE)?) (auto simp: map_of_alist_put len bind_eq_Some_conv intro: empty split: if_splits)
qed

lemmas demo_laws = demo_core_laws demo_store_laws demo_trie_laws

end
