(* ===== verification/Chain_Props.thy ===== *)
theory Chain_Props
  imports Model_Env
begin

text \<open>
  The blockchain object over a whole history of blocks: the stored chain, agreement between the
  proposer of a block and the replicas that add it, reopening a chain from disk and moving
  accounts. The properties of \<^verbatim>\<open>chain/blockchain.go\<close> are stated here.
\<close>

section \<open>The stored chain\<close>

text \<open>\<open>bs\<close> is the history, newest block first: every block is stored under its hash, and names
  the hash and extends the height of the one before it.\<close>

fun stored_chain ::
    "('bs, 'bo, 'e) store_env_scheme \<Rightarrow> 'bo Storage \<Rightarrow> 'bs Block list \<Rightarrow> bool" where
  "stored_chain E s [] \<longleftrightarrow> False"
| "stored_chain E s [b] \<longleftrightarrow> GetBlock E (bk_Hash b) s = Some (Inr b) \<and> bh_Number (bk_Header b) = 0"
| "stored_chain E s (b # p # bs) \<longleftrightarrow>
     GetBlock E (bk_Hash b) s = Some (Inr b) \<and>
     bh_ParentBlockHash (bk_Header b) = bk_Hash p \<and>
     bh_Number (bk_Header b) = bh_Number (bk_Header p) + 1 \<and>
     stored_chain E s (p # bs)"

definition chain_inv ::
    "('bs, 'bo, 'e) store_env_scheme \<Rightarrow> 'bs Block list \<Rightarrow> ('bs, 'bo, 'td, 'x) BlockChain_scheme \<Rightarrow> bool" where
  "chain_inv E bs bc \<longleftrightarrow>
     storage_wf E (bc_Storage bc) \<and> stored_chain E (bc_Storage bc) bs \<and>
     bc_CurrentBlock bc = hd bs \<and>
     GetNewestBlockHash E (bc_Storage bc) = Inr (bk_Hash (bc_CurrentBlock bc))"

lemma stored_chain_frame:
  assumes "\<And>b. b \<in> set bs \<Longrightarrow> GetBlock E (bk_Hash b) s' = GetBlock E (bk_Hash b) s"
  shows "stored_chain E s' bs = stored_chain E s bs"
  using assms by (induction E s bs rule: stored_chain.induct) auto

lemma stored_chain_hd: "stored_chain E s bs \<Longrightarrow> GetBlock E (bk_Hash (hd bs)) s = Some (Inr (hd bs))"
  by (induction E s bs rule: stored_chain.induct) auto

text \<open>Storing a block that links to the newest one extends the stored chain.\<close>

lemma chain_inv_store:
  assumes "core_laws E" "store_laws E" "chain_inv E bs bc"
    and link: "bh_ParentBlockHash (bk_Header b) = bk_Hash (bc_CurrentBlock bc)"
      "bh_Number (bk_Header b) = bh_Number (bk_Header (bc_CurrentBlock bc)) + 1"
    and fresh: "bk_Hash b \<notin> bk_Hash ` set bs"
    and s: "Storage_AddBlock E b (bc_Storage bc) = Some s"
    and bc': "bc_Storage bc' = s" "bc_CurrentBlock bc' = b"
  shows "chain_inv E (b # bs) bc'"
proof -
  from assms(3) have wf: "storage_wf E (bc_Storage bc)" and st: "stored_chain E (bc_Storage bc) bs"
    and cur: "bc_CurrentBlock bc = hd bs" by (auto simp: chain_inv_def)
  note get = GetBlock_AddBlock[OF assms(1,2) wf s]
  have "GetBlock E (bk_Hash x) s = GetBlock E (bk_Hash x) (bc_Storage bc)" if "x \<in> set bs" for x
    using get fresh that by (metis image_eqI)
  then have "stored_chain E s bs"
    using stored_chain_frame[of bs E s "bc_Storage bc"] st by simp
  with link cur get have "stored_chain E s (b # bs)" using st by (cases bs) auto
  with bc' show ?thesis
    using Storage_AddBlock_wf[OF assms(2) wf s] GetNewest_AddBlock[OF assms(2) s] by (simp add: chain_inv_def)
qed

lemma AddBlock_linked:
  assumes "bh_Number (bk_Header b) = bh_Number (bk_Header (bc_CurrentBlock bc)) + 1"
    "bh_ParentBlockHash (bk_Header b) = bk_Hash (bc_CurrentBlock bc)"
  shows "AddBlock E b bc =
     do { bc \<leftarrow> (case tr_New E (bc_triedb bc) (BytesToHash (bh_StateRoot (bk_Header b))) of
                   None \<Rightarrow> map_option snd (GetUpdateStatusTrie E bc (bk_Body b))
                 | Some _ \<Rightarrow> Some bc);
          s \<leftarrow> Storage_AddBlock E b (bc_Storage bc);
          Some (bc\<lparr>bc_CurrentBlock := b, bc_Storage := s\<rparr>) }"
  using assms by (auto simp: AddBlock_def Let_def split: bind_splits option.splits)

lemma GetUpdateStatusTrie_frame:
  assumes "GetUpdateStatusTrie E bc txs = Some (rt, bc')"
  shows "\<exists>td. bc' = bc\<lparr>bc_triedb := td\<rparr>"
proof -
  have "\<exists>td. bc = bc\<lparr>bc_triedb := td\<rparr>" by (rule exI[of _ "bc_triedb bc"]) simp
  with assms show ?thesis
    by (auto simp: GetUpdateStatusTrie_def Let_def bind_eq_Some_conv split: if_splits)
qed

lemma AddBlock_frame:
  assumes "AddBlock E b bc = Some bc'"
  shows "bc' = bc \<or> bc_CurrentBlock bc' = b \<and> Storage_AddBlock E b (bc_Storage bc) = Some (bc_Storage bc')
           \<and> bh_Number (bk_Header b) = bh_Number (bk_Header (bc_CurrentBlock bc)) + 1
           \<and> bh_ParentBlockHash (bk_Header b) = bk_Hash (bc_CurrentBlock bc)"
proof (cases "bh_Number (bk_Header b) = bh_Number (bk_Header (bc_CurrentBlock bc)) + 1
              \<and> bh_ParentBlockHash (bk_Header b) = bk_Hash (bc_CurrentBlock bc)")
  case False
  with assms show ?thesis by (auto simp: AddBlock_def split: if_splits)
next
  case True
  with assms show ?thesis
    by (auto simp: AddBlock_linked bind_eq_Some_conv split: option.splits dest!: GetUpdateStatusTrie_frame)
qed

section \<open>Execution depends on the contents of the trie only\<close>

definition same_routes ::
    "('bs, 'e) core_env_scheme \<Rightarrow> ('bs, 'bo, 'td, 'x) BlockChain_scheme \<Rightarrow> ('bs, 'bo, 'td, 'y) BlockChain_scheme \<Rightarrow> bool" where
  "same_routes E bc bc' \<longleftrightarrow> bc_PartitionMap bc = bc_PartitionMap bc' \<and> bc_ShardID bc = bc_ShardID bc'"

definition same_trie :: "('bs, 'bo, 'tr, 'td, 'ns, 'e) chain_env_scheme \<Rightarrow> 'tr \<times> nat \<Rightarrow> 'tr \<times> nat \<Rightarrow> bool" where
  "same_trie E acc acc' \<longleftrightarrow> tr_Get E (fst acc) = tr_Get E (fst acc') \<and> snd acc = snd acc'"

lemma same_routes_Get: "same_routes E bc bc' \<Longrightarrow> Get_PartitionMap E bc a = Get_PartitionMap E bc' a"
  by (simp add: same_routes_def Get_PartitionMap_def)

lemma load_account_cong: "tr_Get E t = tr_Get E t' \<Longrightarrow> load_account E t a n = load_account E t' a n"
  by (simp add: load_account_def)

lemma same_trie_update:
  assumes "trie_laws E" "tr_Get E t = tr_Get E t'"
  shows "tr_Get E (tr_Update E t k v) = tr_Get E (tr_Update E t' k v)"
  using assms(2) by (simp add: fun_eq_iff trie_lawsD(2)[OF assms(1)])

lemma exec_tx_same:
  assumes "trie_laws E" "same_routes E bc bc'" "same_trie E acc acc'"
  shows "rel_option (same_trie E) (exec_tx E bc acc itx) (exec_tx E bc' acc' itx)"
proof -
  obtain t n t' where acc: "acc = (t, n)" "acc' = (t', n)" "tr_Get E t = tr_Get E t'"
    using assms(3) by (cases acc; cases acc') (auto simp: same_trie_def)
  note cong = same_routes_Get[OF assms(2)] load_account_cong same_trie_update[OF assms(1)]
  have sh: "bc_ShardID bc = bc_ShardID bc'" using assms(2) by (simp add: same_routes_def)
  have credit: "rel_option (same_trie E) (credit_recipient E bc i tx (u, m)) (credit_recipient E bc' i tx (u', m))"
    if "tr_Get E u = tr_Get E u'" for i tx u u' m
    using that cong(2)[OF that, of "tx_Recipient tx" i] cong(3)[OF that]
    by (auto simp: credit_recipient_def cong(1) sh same_trie_def bind_eq_Some_conv
        split: bind_splits)
  obtain i tx where itx: "itx = (i, tx)" by fastforce
  show ?thesis
    using acc(3) cong(2)[OF acc(3), of "tx_Sender tx" "of_nat i"] credit[OF acc(3)]
      credit[OF cong(3)[OF acc(3)]]
    by (auto simp: exec_tx_def itx acc(1,2) debit_sender_def cong(1) sh Let_def same_trie_def
        split: bind_splits)
qed

lemma exec_txs_same:
  assumes "trie_laws E" "same_routes E bc bc'" "same_trie E acc acc'"
  shows "rel_option (same_trie E) (foldlM (exec_tx E bc) acc itxs) (foldlM (exec_tx E bc') acc' itxs)"
  using assms(3)
proof (induction itxs arbitrary: acc acc')
  case Nil
  then show ?case by simp
next
  case (Cons itx itxs)
  from exec_tx_same[OF assms(1,2) Cons.prems, of itx] show ?case
    by (cases "exec_tx E bc acc itx"; cases "exec_tx E bc' acc' itx") (auto intro: Cons.IH)
qed

text \<open>Two replicas in the same state that execute the same transactions compute the same root
  and store the same contents under it.\<close>

lemma GetUpdateStatusTrie_same:
  assumes laws: "core_laws E" "trie_laws E" and same: "same_routes E bc bc'" "state_root bc = state_root bc'"
    and r: "\<forall>tx \<in> set txs. routable E bc tx"
    and t: "tr_New E (bc_triedb bc) (state_root bc) = Some t" "accounts_ok E t"
    and t': "tr_New E (bc_triedb bc') (state_root bc') = Some t'" "tr_Get E t = tr_Get E t'"
  shows "\<exists>rt td td' u u'. GetUpdateStatusTrie E bc txs = Some (rt, bc\<lparr>bc_triedb := td\<rparr>)
           \<and> GetUpdateStatusTrie E bc' txs = Some (rt, bc'\<lparr>bc_triedb := td'\<rparr>)
           \<and> tr_New E td rt = Some u \<and> tr_New E td' rt = Some u' \<and> tr_Get E u = tr_Get E u'"
proof (cases "txs = []")
  case True
  with t(1) t' same(2) show ?thesis
    by (intro exI[of _ "state_root bc"] exI[of _ "bc_triedb bc"] exI[of _ "bc_triedb bc'"]
        exI[of _ t] exI[of _ t']) (simp add: GetUpdateStatusTrie_def state_root_def)
next
  case False
  from t'(2) t(2) have ok': "accounts_ok E t'" using accounts_ok_cong[OF t'(2)] by simp
  have r': "\<forall>tx \<in> set txs. routable E bc' tx" using r same_routes_Get[OF same(1)] by (simp add: routable_def)
  obtain u n where u: "foldlM (exec_tx E bc) (t, 0) (enumerate 0 txs) = Some (u, n)"
      "exec_inv E t (u, n) (ledger_txs (owns E bc) (balance_at E t) txs)"
    using exec_txs_refines[OF laws exec_inv_start[OF t(2)] r, of 0] by auto
  obtain u' n' where u': "foldlM (exec_tx E bc') (t', 0) (enumerate 0 txs) = Some (u', n')"
      "exec_inv E t' (u', n') (ledger_txs (owns E bc') (balance_at E t') txs)"
    using exec_txs_refines[OF laws exec_inv_start[OF ok'] r', of 0] by auto
  have "same_trie E (u, n) (u', n')"
    using exec_txs_same[OF laws(2) same(1), of "(t, 0)" "(t', 0)" "enumerate 0 txs"] t'(2) u(1) u'(1)
    by (simp add: same_trie_def)
  then have eq: "tr_Get E u = tr_Get E u'" "n' = n" by (simp_all add: same_trie_def)
  show ?thesis
  proof (cases "n = 0")
    case True
    with u u' t(1) t' eq same(2) False show ?thesis
      by (intro exI[of _ "state_root bc"] exI[of _ "bc_triedb bc"] exI[of _ "bc_triedb bc'"]
          exI[of _ t] exI[of _ t']) (simp add: GetUpdateStatusTrie_def Let_def state_root_def[symmetric])
  next
    case n: False
    have over: "trie_over E (bc_triedb bc) u" "trie_over E (bc_triedb bc') u'"
      using u(2) u'(2) t(1) t'(1) by (auto simp: exec_inv_def trie_over_def)
    obtain w td where c: "commit_trie E (bc_triedb bc) u = Some (tr_Hash E u, w, td)"
        "persists E (bc_triedb bc) td u" using commit_trie_ok[OF laws(2) over(1)] by auto
    obtain w' td' where c': "commit_trie E (bc_triedb bc') u' = Some (tr_Hash E u', w', td')"
        "persists E (bc_triedb bc') td' u'" using commit_trie_ok[OF laws(2) over(2)] by auto
    have h: "tr_Hash E u' = tr_Hash E u" using trie_lawsD(4)[OF laws(2) eq(1)] by simp
    have "GetUpdateStatusTrie E bc txs = Some (tr_Hash E u, bc\<lparr>bc_triedb := td\<rparr>)"
      "GetUpdateStatusTrie E bc' txs = Some (tr_Hash E u, bc'\<lparr>bc_triedb := td'\<rparr>)"
      using u(1) u'(1) t(1) t'(1) n eq(2) False c(1) c'(1) h
      by (simp_all add: GetUpdateStatusTrie_def Let_def state_root_def[symmetric])
    with c(2) c'(2) eq(1) h show ?thesis by (fastforce simp: persists_def)
  qed
qed

lemma GetUpdateStatusTrie_root:
  assumes "trie_laws E" "GetUpdateStatusTrie E bc txs = Some (rt, bc')"
  shows "length rt = 32"
  using assms(2) trie_lawsD(3,7)[OF assms(1)]
  by (auto simp: GetUpdateStatusTrie_def Let_def BytesToHash_def bind_eq_Some_conv commit_trie_def split_beta
      split: if_splits option.splits)

section \<open>Proposing and adding a block\<close>

lemma GetBloomFilter_total: "\<exists>bs. GetBloomFilter E txs = Some bs"
proof -
  have "GetBloomFilter E txs = Some (foldl (\<lambda>bs tx. bs_Set E (big_endian (tx_TxHash tx) mod 2048) bs) (bs_New E 2048) txs)"
    unfolding GetBloomFilter_def by (simp add: foldlM_Some)
  then show ?thesis by blast
qed

text \<open>The transactions a proposer packs next.\<close>

definition next_txs ::
    "('bs, 'e) core_env_scheme \<Rightarrow> ('bs, 'bo, 'td, 'x) BlockChain_scheme \<Rightarrow> Transaction list" where
  "next_txs E bc = fst (if pm_UseBlocksizeInBytes (prm E) = 1
     then PackTxsWithBytes (pm_BlocksizeInBytes (prm E)) (bc_Txpool bc)
     else PackTxs (cc_BlockSize (bc_ChainConfig bc)) (bc_Txpool bc))"

lemma GenerateBlock_same:
  assumes laws: "core_laws E" "trie_laws E" and same: "same_routes E bc bc'" "bc_CurrentBlock bc = bc_CurrentBlock bc'"
    and r: "\<forall>tx \<in> set (next_txs E bc). routable E bc tx"
    and t: "tr_New E (bc_triedb bc) (state_root bc) = Some t" "accounts_ok E t"
    and t': "tr_New E (bc_triedb bc') (state_root bc) = Some t'" "tr_Get E t = tr_Get E t'"
  shows "\<exists>b bc1 td' u u'. GenerateBlock E now miner bc = Some (b, bc1)
     \<and> bk_Body b = next_txs E bc \<and> bk_Hash b = BH_Hash E (bk_Header b)
     \<and> bh_ParentBlockHash (bk_Header b) = bk_Hash (bc_CurrentBlock bc)
     \<and> bh_Number (bk_Header b) = bh_Number (bk_Header (bc_CurrentBlock bc)) + 1
     \<and> bh_TxRoot (bk_Header b) = GetTxTreeRoot E (bk_Body b)
     \<and> bc_CurrentBlock bc1 = bc_CurrentBlock bc \<and> bc_Storage bc1 = bc_Storage bc
     \<and> next_txs E bc @ tp_TxQueue (bc_Txpool bc1) = tp_TxQueue (bc_Txpool bc)
     \<and> GetUpdateStatusTrie E bc' (bk_Body b) = Some (bh_StateRoot (bk_Header b), bc'\<lparr>bc_triedb := td'\<rparr>)
     \<and> tr_New E (bc_triedb bc1) (bh_StateRoot (bk_Header b)) = Some u
     \<and> tr_New E td' (bh_StateRoot (bk_Header b)) = Some u' \<and> tr_Get E u = tr_Get E u'"
proof -
  define pk where "pk = (if pm_UseBlocksizeInBytes (prm E) = 1
     then PackTxsWithBytes (pm_BlocksizeInBytes (prm E)) (bc_Txpool bc)
     else PackTxs (cc_BlockSize (bc_ChainConfig bc)) (bc_Txpool bc))"
  have split: "fst pk @ tp_TxQueue (snd pk) = tp_TxQueue (bc_Txpool bc)"
    by (simp add: pk_def PackTxs_split PackTxsWithBytes_split)
  have txs: "next_txs E bc = fst pk" by (simp add: next_txs_def pk_def)
  let ?bc = "bc\<lparr>bc_Txpool := snd pk\<rparr>"
  have "same_routes E ?bc bc'" "state_root ?bc = state_root bc'" "\<forall>tx \<in> set (fst pk). routable E ?bc tx"
    "tr_New E (bc_triedb ?bc) (state_root ?bc) = Some t" "tr_New E (bc_triedb bc') (state_root bc') = Some t'"
    using same r t t' by (simp_all add: same_routes_def state_root_def routable_def txs Get_PartitionMap_def)
  from GetUpdateStatusTrie_same[OF laws this(1,2,3,4) t(2) this(5) t'(2)]
  obtain rt td td' u u' where g: "GetUpdateStatusTrie E ?bc (fst pk) = Some (rt, ?bc\<lparr>bc_triedb := td\<rparr>)"
    "GetUpdateStatusTrie E bc' (fst pk) = Some (rt, bc'\<lparr>bc_triedb := td'\<rparr>)"
    "tr_New E td rt = Some u" "tr_New E td' rt = Some u'" "tr_Get E u = tr_Get E u'" by blast
  obtain bloom where bl: "GetBloomFilter E (fst pk) = Some bloom" using GetBloomFilter_total[of E "fst pk"] by auto
  define bh where "bh = \<lparr>bh_ParentBlockHash = bk_Hash (bc_CurrentBlock bc), bh_StateRoot = rt,
     bh_TxRoot = GetTxTreeRoot E (fst pk), bh_Bloom = bloom,
     bh_Number = bh_Number (bk_Header (bc_CurrentBlock bc)) + 1, bh_Time = now, bh_Miner = miner\<rparr>"
  have "GenerateBlock E now miner bc
      = Some ((NewBlock bh (fst pk))\<lparr>bk_Hash := BH_Hash E bh\<rparr>, ?bc\<lparr>bc_triedb := td\<rparr>)"
    using g(1) bl by (simp add: GenerateBlock_def pk_def[symmetric] split_beta Let_def bh_def)
  with g split show ?thesis by (auto simp: bh_def NewBlock_def txs)
qed

section \<open>A concrete chain for the witnesses\<close>

definition demo_cc :: "u64 \<Rightarrow> ChainConfig" where
  "demo_cc sid = \<lparr>cc_ChainID = sid, cc_NodeID = 0, cc_ShardID = sid, cc_Nodes_perShard = 4, cc_ShardNums = 2,
                  cc_BlockSize = 2, cc_BlockInterval = 5000, cc_InjectSpeed = 2000, cc_MaxRelayBlockSize = 2\<rparr>"

definition demo_genesis :: "nat list Block" where
  "demo_genesis = (let h = \<lparr>bh_ParentBlockHash = [], bh_StateRoot = demo_root [], bh_TxRoot = demo_root [],
       bh_Bloom = [], bh_Number = 0, bh_Time = 0, bh_Miner = 0\<rparr>
     in \<lparr>bk_Header = h, bk_Body = [], bk_Hash = replicate 32 (CHR 0x04)\<rparr>)"

definition demo_chain :: "u64 \<Rightarrow> Transaction list \<Rightarrow> (nat list, bytes list \<times> ((bytes \<times> bytes) \<times> bytes) list,
    (bytes \<times> alist_trie) list) BlockChain" where
  "demo_chain sid txs = \<lparr>bc_triedb = [], bc_ChainConfig = demo_cc sid, bc_CurrentBlock = demo_genesis,
     bc_Storage = \<lparr>st_dbFilePath = ''chainDB'', st_blockBucket = ''block'',
        st_blockHeaderBucket = ''blockHeader'', st_newestBlockHashBucket = ''newestBlockHash'',
        st_DataBase = ([''newestBlockHash'', ''blockHeader'', ''block''],
          [((''newestBlockHash'', ''OnlyNewestBlock''), bk_Hash demo_genesis),
           ((''blockHeader'', bk_Hash demo_genesis), BH_Encode demo_env (bk_Header demo_genesis)),
           ((''block'', bk_Hash demo_genesis), B_Encode demo_env demo_genesis)])\<rparr>,
     bc_Txpool = \<lparr>tp_TxQueue = txs, tp_RelayPool = Some Map.empty\<rparr>,
     bc_PartitionMap = [''a0'' \<mapsto> 0, ''b1'' \<mapsto> 1, ''c0'' \<mapsto> 0]\<rparr>"

text \<open>A transfer of 30 from \<open>a0\<close> (shard 0) to \<open>b1\<close> (shard 1), and one inside shard 0.\<close>

definition demo_tx :: "address \<Rightarrow> Transaction" where
  "demo_tx r = sample_tx ''a0'' r 30"

lemma demo_chain_state:
  "tr_New demo_env (bc_triedb (demo_chain sid txs)) (state_root (demo_chain sid txs)) = Some []"
  "accounts_ok demo_env []" "state_ok demo_env (demo_chain sid txs)"
  by (simp_all add: demo_chain_def state_root_def demo_genesis_def Let_def BytesToHash_def demo_root_def
      accounts_ok_def state_ok_def)

lemma demo_routable:
  "r = ''b1'' \<or> r = ''c0'' \<Longrightarrow> routable demo_env (demo_chain sid txs) (demo_tx r)"
  by (auto simp: routable_def Get_PartitionMap_def demo_chain_def demo_tx_def sample_tx_def)

section \<open>Properties of execution\<close>

text \<open>
  C1. Executing a block refines the abstract ledger: on a chain whose state can be read, and for
  transactions whose addresses have shards, \<^verbatim>\<open>GetUpdateStatusTrie\<close> does not panic, and the trie
  stored under the root it returns holds exactly the balances that the transactions give, one
  after the other, starting from the balances under the current state root.
\<close>

theorem GetUpdateStatusTrie_ledger:
  assumes "core_laws E" "trie_laws E" "state_ok E bc" "\<forall>tx \<in> set txs. routable E bc tx"
  shows "\<exists>bal rt bc'. ledger_at E (bc_triedb bc) (state_root bc) = Some bal
           \<and> GetUpdateStatusTrie E bc txs = Some (rt, bc')
           \<and> ledger_at E (bc_triedb bc') rt = Some (ledger_txs (owns E bc) bal txs)"
proof -
  from assms(3) obtain t where t: "tr_New E (bc_triedb bc) (state_root bc) = Some t" "accounts_ok E t"
    by (auto simp: state_ok_def)
  from GetUpdateStatusTrie_refines[OF assms(1,2,4) t] t(1) show ?thesis by (fastforce simp: ledger_at_def)
qed

theorem GetUpdateStatusTrie_ledger_witness:
  "\<exists>bal rt bc'. ledger_at demo_env (bc_triedb (demo_chain 0 [])) (state_root (demo_chain 0 [])) = Some bal
     \<and> GetUpdateStatusTrie demo_env (demo_chain 0 []) [demo_tx ''b1'', demo_tx ''c0''] = Some (rt, bc')
     \<and> ledger_at demo_env (bc_triedb bc') rt
         = Some (ledger_txs (owns demo_env (demo_chain 0 [])) bal [demo_tx ''b1'', demo_tx ''c0''])"
  by (rule GetUpdateStatusTrie_ledger[OF demo_core_laws demo_trie_laws demo_chain_state(3)])
     (simp add: demo_routable)

text \<open>
  C2. Money is accounted for: over any finite set of addresses that contains both ends of every
  transaction, a block changes the total balance of the shard by exactly what relayed transactions
  bring in minus what cross-shard transactions take out. In particular a block of transactions
  inside the shard conserves the total.
\<close>

theorem block_money:
  assumes "core_laws E" "trie_laws E" "state_ok E bc" "\<forall>tx \<in> set txs. routable E bc tx"
    and "finite A" "\<forall>tx \<in> set txs. tx_Sender tx \<in> A \<and> tx_Recipient tx \<in> A"
  shows "\<exists>bal rt bc' bal'. ledger_at E (bc_triedb bc) (state_root bc) = Some bal
           \<and> GetUpdateStatusTrie E bc txs = Some (rt, bc') \<and> ledger_at E (bc_triedb bc') rt = Some bal'
           \<and> total A bal' = total A bal + fst (flows (owns E bc) bal txs) - snd (flows (owns E bc) bal txs)
           \<and> ((\<forall>tx \<in> set txs. debits (owns E bc) tx \<and> credits (owns E bc) tx) \<longrightarrow> total A bal' = total A bal)"
proof -
  from assms(3) obtain t where t: "tr_New E (bc_triedb bc) (state_root bc) = Some t" "accounts_ok E t"
    by (auto simp: state_ok_def)
  from GetUpdateStatusTrie_refines[OF assms(1,2,4) t] t(1)
    total_ledger_txs[OF assms(5,6), of "owns E bc" "balance_at E t"] flows_local[of txs "owns E bc" "balance_at E t"]
  show ?thesis by (fastforce simp: ledger_at_def)
qed

theorem block_money_witness:
  "\<exists>bal rt bc' bal'. ledger_at demo_env (bc_triedb (demo_chain 0 [])) (state_root (demo_chain 0 [])) = Some bal
     \<and> GetUpdateStatusTrie demo_env (demo_chain 0 []) [demo_tx ''c0''] = Some (rt, bc')
     \<and> ledger_at demo_env (bc_triedb bc') rt = Some bal'
     \<and> total {''a0'', ''c0''} bal' = total {''a0'', ''c0''} bal"
proof -
  have "\<forall>tx \<in> set [demo_tx ''c0'']. debits (owns demo_env (demo_chain 0 [])) tx \<and> credits (owns demo_env (demo_chain 0 [])) tx"
    by (simp add: debits_def credits_def owns_def demo_tx_def sample_tx_def Get_PartitionMap_def demo_chain_def demo_cc_def)
  then show ?thesis
    using block_money[OF demo_core_laws demo_trie_laws demo_chain_state(3)[of 0 "[]"],
        of "[demo_tx ''c0'']" "{''a0'', ''c0''}"]
    by (simp add: demo_routable) (fastforce simp: demo_tx_def sample_tx_def)
qed

text \<open>
  No balance becomes negative: if all balances under the current root are non-negative and no
  transaction moves a negative amount, all balances under the new root are non-negative.
\<close>

theorem balances_nonneg:
  assumes "core_laws E" "trie_laws E" "state_ok E bc" "\<forall>tx \<in> set txs. routable E bc tx"
    and "\<forall>tx \<in> set txs. 0 \<le> tx_Value tx"
    and "ledger_at E (bc_triedb bc) (state_root bc) = Some bal" "\<forall>a. 0 \<le> bal a"
  shows "\<exists>rt bc' bal'. GetUpdateStatusTrie E bc txs = Some (rt, bc')
           \<and> ledger_at E (bc_triedb bc') rt = Some bal' \<and> (\<forall>a. 0 \<le> bal' a)"
proof -
  from assms(3) obtain t where t: "tr_New E (bc_triedb bc) (state_root bc) = Some t" "accounts_ok E t"
    by (auto simp: state_ok_def)
  with assms(6) have bal: "balance_at E t = bal" by (simp add: ledger_at_def)
  from GetUpdateStatusTrie_refines[OF assms(1,2,4) t] ledger_txs_nonneg[OF assms(5,7), of "owns E bc"]
  show ?thesis by (fastforce simp: ledger_at_def bal)
qed

theorem balances_nonneg_witness:
  "\<exists>rt bc' bal'. GetUpdateStatusTrie demo_env (demo_chain 0 []) [demo_tx ''b1''] = Some (rt, bc')
     \<and> ledger_at demo_env (bc_triedb bc') rt = Some bal' \<and> (\<forall>a. 0 \<le> bal' a)"
proof (rule balances_nonneg[OF demo_core_laws demo_trie_laws demo_chain_state(3)])
  show "ledger_at demo_env (bc_triedb (demo_chain 0 [])) (state_root (demo_chain 0 [])) = Some (balance_at demo_env [])"
    by (simp only: ledger_at_def demo_chain_state(1) option.map)
  show "\<forall>a. 0 \<le> balance_at demo_env [] a" by (simp add: balance_at_def Init_Balance_def)
qed (simp_all add: demo_routable, simp add: demo_tx_def sample_tx_def)

text \<open>
  C9. A relayed transaction, executed by the sender's shard and then, marked as relayed, by the
  recipient's shard, conserves the money of the two shards together when the sender can pay.
  When the sender cannot, the first shard skips it but the second, which only sees the relayed
  copy, still credits the recipient: the two shards together hold the amount more than before.
\<close>

theorem relay_pair_total:
  assumes "core_laws E" "trie_laws E" "state_ok E bc1" "state_ok E bc2"
    and "routable E bc1 tx" "routable E bc2 tx" "\<not> tx_Relayed tx" "\<not> tx_HasBroker tx"
    and "owns E bc1 (tx_Sender tx)" "\<not> owns E bc1 (tx_Recipient tx)" "owns E bc2 (tx_Recipient tx)"
    and "ledger_at E (bc_triedb bc1) (state_root bc1) = Some bal1"
    and "ledger_at E (bc_triedb bc2) (state_root bc2) = Some bal2"
    and "finite A1" "tx_Sender tx \<in> A1" "finite A2" "tx_Recipient tx \<in> A2"
  shows "\<exists>rt1 bc1' bal1' rt2 bc2' bal2'.
     GetUpdateStatusTrie E bc1 [tx] = Some (rt1, bc1') \<and> ledger_at E (bc_triedb bc1') rt1 = Some bal1'
   \<and> GetUpdateStatusTrie E bc2 [tx\<lparr>tx_Relayed := True\<rparr>] = Some (rt2, bc2')
   \<and> ledger_at E (bc_triedb bc2') rt2 = Some bal2'
   \<and> total A1 bal1' + total A2 bal2' = total A1 bal1 + total A2 bal2
       + (if bal1 (tx_Sender tx) < tx_Value tx then tx_Value tx else 0)"
proof -
  let ?tx = "tx\<lparr>tx_Relayed := True\<rparr>"
  from assms(3,12) obtain t1 where t1: "tr_New E (bc_triedb bc1) (state_root bc1) = Some t1" "accounts_ok E t1"
    "balance_at E t1 = bal1" by (auto simp: state_ok_def ledger_at_def)
  from assms(4,13) obtain t2 where t2: "tr_New E (bc_triedb bc2) (state_root bc2) = Some t2" "accounts_ok E t2"
    "balance_at E t2 = bal2" by (auto simp: state_ok_def ledger_at_def)
  have r: "\<forall>x \<in> set [tx]. routable E bc1 x" "\<forall>x \<in> set [?tx]. routable E bc2 x"
    using assms(5,6) by (simp_all add: routable_def)
  have l1: "ledger_txs (owns E bc1) bal1 [tx] = (if bal1 (tx_Sender tx) < tx_Value tx then bal1
      else bal1(tx_Sender tx := bal1 (tx_Sender tx) - tx_Value tx))"
    using assms(7-10) by (simp add: ledger_txs_def ledger_tx_def debits_def credits_def)
  have l2: "ledger_txs (owns E bc2) bal2 [?tx] = bal2(tx_Recipient tx := bal2 (tx_Recipient tx) + tx_Value tx)"
    using assms(11) by (simp add: ledger_txs_def ledger_tx_def debits_def credits_def)
  from GetUpdateStatusTrie_refines[OF assms(1,2) r(1) t1(1,2)] GetUpdateStatusTrie_refines[OF assms(1,2) r(2) t2(1,2)]
  obtain rt1 td1 u1 rt2 td2 u2 where
    "GetUpdateStatusTrie E bc1 [tx] = Some (rt1, bc1\<lparr>bc_triedb := td1\<rparr>)"
    "ledger_at E td1 rt1 = Some (ledger_txs (owns E bc1) bal1 [tx])"
    "GetUpdateStatusTrie E bc2 [?tx] = Some (rt2, bc2\<lparr>bc_triedb := td2\<rparr>)"
    "ledger_at E td2 rt2 = Some (ledger_txs (owns E bc2) bal2 [?tx])"
    using t1(3) t2(3) by (auto simp: ledger_at_def)
  with l1 l2 assms(14-17) show ?thesis by (auto simp: total_upd)
qed

theorem relay_pair_total_witness:
  "\<exists>rt1 bc1' bal1' rt2 bc2' bal2'.
     GetUpdateStatusTrie demo_env (demo_chain 0 []) [demo_tx ''b1''] = Some (rt1, bc1')
   \<and> ledger_at demo_env (bc_triedb bc1') rt1 = Some bal1'
   \<and> GetUpdateStatusTrie demo_env (demo_chain 1 []) [(demo_tx ''b1'')\<lparr>tx_Relayed := True\<rparr>] = Some (rt2, bc2')
   \<and> ledger_at demo_env (bc_triedb bc2') rt2 = Some bal2'
   \<and> total {''a0''} bal1' + total {''b1''} bal2' = 2 * Init_Balance"
proof -
  have l: "ledger_at demo_env (bc_triedb (demo_chain s [])) (state_root (demo_chain s [])) = Some (\<lambda>a. Init_Balance)" for s
    by (simp only: ledger_at_def demo_chain_state(1) option.map) (simp add: balance_at_def fun_eq_iff)
  show ?thesis
    using relay_pair_total[OF demo_core_laws demo_trie_laws demo_chain_state(3)[of 0 "[]"] demo_chain_state(3)[of 1 "[]"]
        demo_routable[of "''b1''"] demo_routable[of "''b1''"] _ _ _ _ _ l l, of "{''a0''}" "{''b1''}"]
    by (simp add: demo_tx_def sample_tx_def owns_def Get_PartitionMap_def demo_chain_def demo_cc_def total_def
        Init_Balance_def)
qed

section \<open>Properties of the chain\<close>

text \<open>
  C8. \<^verbatim>\<open>AddBlock\<close> keeps the stored chain well formed. A block whose height or parent hash does not
  fit leaves the chain exactly as it was; otherwise the call returns, the block becomes the
  current and newest one, and the whole history can be read back from the store, each block
  linked by hash and height to the one before it.
\<close>

theorem AddBlock_extends_chain:
  assumes "core_laws E" "store_laws E" "trie_laws E" "chain_inv E bs bc" "state_ok E bc"
    and "\<forall>tx \<in> set (bk_Body b). routable E bc tx" "bk_Hash b \<noteq> []" "bk_Hash b \<notin> bk_Hash ` set bs"
  shows "\<exists>bc'. AddBlock E b bc = Some bc' \<and>
     (if bh_Number (bk_Header b) = bh_Number (bk_Header (bc_CurrentBlock bc)) + 1
         \<and> bh_ParentBlockHash (bk_Header b) = bk_Hash (bc_CurrentBlock bc)
      then chain_inv E (b # bs) bc' \<and> bc_CurrentBlock bc' = b
      else bc' = bc)"
proof (cases "bh_Number (bk_Header b) = bh_Number (bk_Header (bc_CurrentBlock bc)) + 1
         \<and> bh_ParentBlockHash (bk_Header b) = bk_Hash (bc_CurrentBlock bc)")
  case False
  then show ?thesis by (auto simp: AddBlock_def)
next
  case True
  from assms(5) obtain t where t: "tr_New E (bc_triedb bc) (state_root bc) = Some t" "accounts_ok E t"
    by (auto simp: state_ok_def)
  from assms(4) have wf: "storage_wf E (bc_Storage bc)" by (simp add: chain_inv_def)
  obtain s where s: "Storage_AddBlock E b (bc_Storage bc) = Some s"
    using Storage_AddBlock_total[OF assms(2) wf assms(7)] by blast
  from GetUpdateStatusTrie_refines[OF assms(1,3,6) t] s True obtain bc' where
    a: "AddBlock E b bc = Some bc'" "bc_Storage bc' = s" "bc_CurrentBlock bc' = b"
    by (cases "tr_New E (bc_triedb bc) (BytesToHash (bh_StateRoot (bk_Header b)))") (auto simp: AddBlock_linked)
  from chain_inv_store[OF assms(1,2,4) _ _ assms(8) s a(2,3)] True a show ?thesis by auto
qed

lemma demo_genesis_hash: "bk_Hash demo_genesis = replicate 32 (CHR 0x04)"
  by (simp add: demo_genesis_def Let_def)

lemma demo_chain_inv: "chain_inv demo_env [demo_genesis] (demo_chain sid txs)"
proof -
  have get: "bolt_Get demo_env (bk, es) b k = map_of es (b, k)" "bolt_HasBucket demo_env (bk, es) b = (b \<in> set bk)"
    for bk es b k by (simp_all add: demo_env_def)
  have "GetBlock demo_env (bk_Hash demo_genesis) (bc_Storage (demo_chain sid txs)) = Some (Inr demo_genesis)"
    by (simp add: GetBlock_def demo_chain_def get decode_encode[OF demo_core_laws])
  moreover have "bh_Number (bk_Header demo_genesis) = 0" by (simp add: demo_genesis_def Let_def)
  ultimately show ?thesis
    by (simp add: chain_inv_def storage_wf_def GetNewestBlockHash_def) (simp add: demo_chain_def get)
qed

definition demo_block :: "nat list Block" where
  "demo_block = \<lparr>bk_Header = \<lparr>bh_ParentBlockHash = replicate 32 (CHR 0x04), bh_StateRoot = replicate 32 (CHR 0x02),
       bh_TxRoot = replicate 32 (CHR 0x02), bh_Bloom = [], bh_Number = 1, bh_Time = 9, bh_Miner = 0\<rparr>,
     bk_Body = [demo_tx ''c0''], bk_Hash = ''h1''\<rparr>"

lemma demo_chain_current [simp]:
  "bc_CurrentBlock (demo_chain sid txs) = demo_genesis" "bh_Number (bk_Header demo_genesis) = 0"
  by (simp_all add: demo_chain_def demo_genesis_def Let_def)

lemma demo_hash_neq: "''h1'' \<noteq> replicate 32 (CHR 0x04)"
  by (simp add: numeral_eq_Suc)

theorem AddBlock_extends_chain_witness:
  "\<exists>bc'. AddBlock demo_env demo_block (demo_chain 0 []) = Some bc' \<and>
     chain_inv demo_env [demo_block, demo_genesis] bc' \<and> bc_CurrentBlock bc' = demo_block"
proof -
  have h: "\<forall>tx \<in> set (bk_Body demo_block). routable demo_env (demo_chain 0 []) tx" "bk_Hash demo_block \<noteq> []"
    "bk_Hash demo_block \<notin> bk_Hash ` set [demo_genesis]"
    by (auto simp: demo_block_def demo_genesis_hash demo_hash_neq intro: demo_routable)
  from AddBlock_extends_chain[OF demo_laws demo_chain_inv demo_chain_state(3) h] show ?thesis
    by (simp add: demo_genesis_hash demo_block_def)
qed

text \<open>
  C3. Replicas agree. A proposer and a follower that are at the same block, with the same routing
  and the same account contents, stay together: the proposer's \<^verbatim>\<open>GenerateBlock\<close> returns a block
  that the follower's \<^verbatim>\<open>IsValidBlock\<close> accepts and its \<^verbatim>\<open>AddBlock\<close> adds, and both can then read
  the same balances under the state root in the block's header. The proposer's pool has lost
  exactly the packed transactions. It is assumed that a root never opens different contents in
  the two databases.
\<close>

theorem replicas_agree:
  assumes "core_laws E" "store_laws E" "trie_laws E"
    and "same_routes E bc1 bc2" "bc_CurrentBlock bc1 = bc_CurrentBlock bc2"
    and "\<forall>tx \<in> set (next_txs E bc1). routable E bc1 tx" "state_ok E bc1" "storage_wf E (bc_Storage bc2)"
    and "\<exists>t'. tr_New E (bc_triedb bc2) (state_root bc2) = Some t'"
    and "\<And>td1 r t1 t2. td1 = bc_triedb bc1 \<or> (\<exists>b bc1'. GenerateBlock E now miner bc1 = Some (b, bc1') \<and> td1 = bc_triedb bc1')
           \<Longrightarrow> tr_New E td1 r = Some t1 \<Longrightarrow> tr_New E (bc_triedb bc2) r = Some t2 \<Longrightarrow> tr_Get E t1 = tr_Get E t2"
  shows "\<exists>b bc1' bc2' bal. GenerateBlock E now miner bc1 = Some (b, bc1')
     \<and> bk_Body b @ tp_TxQueue (bc_Txpool bc1') = tp_TxQueue (bc_Txpool bc1)
     \<and> IsValidBlock E b bc2 = None \<and> AddBlock E b bc2 = Some bc2' \<and> bc_CurrentBlock bc2' = b
     \<and> ledger_at E (bc_triedb bc1') (bh_StateRoot (bk_Header b)) = Some bal
     \<and> ledger_at E (bc_triedb bc2') (bh_StateRoot (bk_Header b)) = Some bal"
proof -
  have sr: "state_root bc1 = state_root bc2" using assms(5) by (simp add: state_root_def)
  from assms(7,9) sr obtain t t' where t: "tr_New E (bc_triedb bc1) (state_root bc1) = Some t" "accounts_ok E t"
    "tr_New E (bc_triedb bc2) (state_root bc1) = Some t'" by (auto simp: state_ok_def)
  then have tt: "tr_Get E t = tr_Get E t'" by (intro assms(10)) auto
  from GenerateBlock_same[OF assms(1,3,4,5,6) t tt, of now miner] obtain b bc1' td' u u' where
    g: "GenerateBlock E now miner bc1 = Some (b, bc1')" "bk_Body b = next_txs E bc1"
      "bk_Hash b = BH_Hash E (bk_Header b)"
      "bh_ParentBlockHash (bk_Header b) = bk_Hash (bc_CurrentBlock bc1)"
      "bh_Number (bk_Header b) = bh_Number (bk_Header (bc_CurrentBlock bc1)) + 1"
      "bh_TxRoot (bk_Header b) = GetTxTreeRoot E (bk_Body b)"
      "next_txs E bc1 @ tp_TxQueue (bc_Txpool bc1') = tp_TxQueue (bc_Txpool bc1)"
    and x: "GetUpdateStatusTrie E bc2 (bk_Body b) = Some (bh_StateRoot (bk_Header b), bc2\<lparr>bc_triedb := td'\<rparr>)"
      "tr_New E (bc_triedb bc1') (bh_StateRoot (bk_Header b)) = Some u"
      "tr_New E td' (bh_StateRoot (bk_Header b)) = Some u'" "tr_Get E u = tr_Get E u'" by blast
  have rt: "BytesToHash (bh_StateRoot (bk_Header b)) = bh_StateRoot (bk_Header b)"
    using GetUpdateStatusTrie_root[OF assms(3) x(1)] by (rule BytesToHash_id)
  have "bk_Hash b \<noteq> []" using core_lawsD(7)[OF assms(1), of "BH_Encode E (bk_Header b)"] g(3)
    by (auto simp: BH_Hash_def)
  from Storage_AddBlock_total[OF assms(2,8) this] obtain s where
    s: "Storage_AddBlock E b (bc_Storage bc2) = Some s" by blast
  have valid: "IsValidBlock E b bc2 = None" using g(4,6) assms(5) by (simp add: IsValidBlock_def)
  have led: "ledger_at E (bc_triedb bc1') (bh_StateRoot (bk_Header b)) = Some (balance_at E u)"
    using x(2) by (simp add: ledger_at_def)
  show ?thesis
  proof (cases "tr_New E (bc_triedb bc2) (bh_StateRoot (bk_Header b))")
    case None
    then have "AddBlock E b bc2 = Some (bc2\<lparr>bc_triedb := td', bc_CurrentBlock := b, bc_Storage := s\<rparr>)"
      using g(4,5) assms(5) s x(1) rt by (simp add: AddBlock_linked)
    with g valid led x(3) balance_at_cong[OF x(4)] show ?thesis by (simp add: ledger_at_def)
  next
    case (Some t2)
    then have "AddBlock E b bc2 = Some (bc2\<lparr>bc_CurrentBlock := b, bc_Storage := s\<rparr>)"
      using g(4,5) assms(5) s rt by (simp add: AddBlock_linked)
    moreover have "tr_Get E u = tr_Get E t2" using assms(10)[OF _ x(2) Some] g(1) by blast
    ultimately show ?thesis using g valid led Some balance_at_cong[of E u t2] by (simp add: ledger_at_def)
  qed
qed

theorem replicas_agree_witness:
  "\<exists>b bc1' bc2' bal. GenerateBlock demo_env 9 0 (demo_chain 0 [demo_tx ''b1'', demo_tx ''c0'']) = Some (b, bc1')
     \<and> bk_Body b @ tp_TxQueue (bc_Txpool bc1') = tp_TxQueue (bc_Txpool (demo_chain 0 [demo_tx ''b1'', demo_tx ''c0'']))
     \<and> IsValidBlock demo_env b (demo_chain 0 []) = None \<and> AddBlock demo_env b (demo_chain 0 []) = Some bc2'
     \<and> bc_CurrentBlock bc2' = b
     \<and> ledger_at demo_env (bc_triedb bc1') (bh_StateRoot (bk_Header b)) = Some bal
     \<and> ledger_at demo_env (bc_triedb bc2') (bh_StateRoot (bk_Header b)) = Some bal"
proof (rule replicas_agree[OF demo_laws])
  let ?bc = "demo_chain 0 [demo_tx ''b1'', demo_tx ''c0'']"
  show "same_routes demo_env ?bc (demo_chain 0 [])" by (simp add: same_routes_def demo_chain_def)
  show "\<forall>tx \<in> set (next_txs demo_env ?bc). routable demo_env ?bc tx"
    using PackTxs_split[of 2 "bc_Txpool ?bc"]
    by (auto simp: next_txs_def demo_env_def demo_params_def demo_chain_def PackTxs_eq demo_cc_def routable_def
        Get_PartitionMap_def demo_tx_def sample_tx_def dest!: in_set_takeD)
  show "state_ok demo_env ?bc" by (rule demo_chain_state(3))
  show "storage_wf demo_env (bc_Storage (demo_chain 0 []))" using demo_chain_inv[of 0 "[]"] by (simp add: chain_inv_def)
  show "\<exists>t'. tr_New demo_env (bc_triedb (demo_chain 0 [])) (state_root (demo_chain 0 [])) = Some t'"
    using demo_chain_state(1) by blast
  show "tr_Get demo_env t1 = tr_Get demo_env t2"
    if "tr_New demo_env td1 r = Some t1" "tr_New demo_env (bc_triedb (demo_chain 0 [])) r = Some t2" for td1 r t1 t2
    using that by (auto simp: demo_chain_def split: if_splits)
qed simp

lemma reopened_chain:
  assumes "core_laws E" "store_laws E" "chain_inv E bs bc" "state_ok E bc"
  shows "\<exists>s. NewBlockChain E cc fp (bc_triedb bc) (Some (st_DataBase (bc_Storage bc)))
      = Some \<lparr>bc_triedb = bc_triedb bc, bc_ChainConfig = cc, bc_CurrentBlock = bc_CurrentBlock bc, bc_Storage = s,
             bc_Txpool = NewTxPool, bc_PartitionMap = Map.empty\<rparr>
    \<and> storage_wf E s \<and> stored_chain E s bs \<and> GetNewestBlockHash E s = GetNewestBlockHash E (bc_Storage bc)"
proof -
  have wf: "storage_wf E (bc_Storage bc)" and sc: "stored_chain E (bc_Storage bc) bs"
    and cur: "bc_CurrentBlock bc = hd bs" "GetNewestBlockHash E (bc_Storage bc) = Inr (bk_Hash (bc_CurrentBlock bc))"
    using assms(3) by (auto simp: chain_inv_def)
  obtain s where s: "NewStorage E fp (Some (st_DataBase (bc_Storage bc))) = Some s"
      "bolt_Get E (st_DataBase s) = bolt_Get E (st_DataBase (bc_Storage bc))"
      "st_blockBucket s = ''block''" "st_newestBlockHashBucket s = ''newestBlockHash''"
    using NewStorage_reopen[OF assms(2)] by metis
  have swf: "storage_wf E s" by (rule NewStorage_wf[OF assms(2) s(1)])
  have gb: "GetBlock E h s = GetBlock E h (bc_Storage bc)" "GetNewestBlockHash E s = GetNewestBlockHash E (bc_Storage bc)"
    for h using s(2-4) wf by (simp_all add: GetBlock_def GetNewestBlockHash_def storage_wf_def)
  have cb: "GetBlock E (bk_Hash (bc_CurrentBlock bc)) s = Some (Inr (bc_CurrentBlock bc))"
    using stored_chain_hd[OF sc] cur(1) by (simp add: gb)
  from assms(4) obtain t where t: "tr_New E (bc_triedb bc) (state_root bc) = Some t" by (auto simp: state_ok_def)
  have "stored_chain E s bs" using stored_chain_frame[of bs E s "bc_Storage bc"] gb(1) sc by simp
  then show ?thesis using s(1) gb(2) cb cur t swf by (auto simp: NewBlockChain_def state_root_def Let_def)
qed



section \<open>Moving accounts\<close>

text \<open>The balances after a shard took over the accounts \<open>ac\<close> with states \<open>as\<close>; the last entry of an
  address counts, and accounts of other shards are ignored.\<close>

definition take_over ::
    "(address \<Rightarrow> bool) \<Rightarrow> (address \<times> AccountState) list \<Rightarrow> (address \<Rightarrow> int) \<Rightarrow> (address \<Rightarrow> int)" where
  "take_over ow acs bal = foldl (\<lambda>bal (a, s). if ow a then bal(a := as_Balance s) else bal) bal acs"

lemma take_over_out: "a \<notin> fst ` set acs \<Longrightarrow> take_over ow acs bal a = bal a"
  by (induction acs arbitrary: bal) (force simp: take_over_def)+

lemma take_over_in:
  "distinct (map fst acs) \<Longrightarrow> (a, s) \<in> set acs \<Longrightarrow> ow a \<Longrightarrow> take_over ow acs bal a = as_Balance s"
proof (induction acs arbitrary: bal)
  case Nil
  then show ?case by simp
next
  case (Cons p acs)
  obtain b u where p: "p = (b, u)" by fastforce
  show ?case
  proof (cases "(a, s) = p")
    case True
    with Cons.prems p have "a \<notin> fst ` set acs" by auto
    from take_over_out[OF this] True p Cons.prems(3) show ?thesis by (simp add: take_over_def)
  next
    case False
    with Cons p show ?thesis by (auto simp: take_over_def)
  qed
qed

lemma add_accounts_loop:
  assumes laws: "core_laws E" "trie_laws E"
    and r: "\<forall>a \<in> set ac. Get_PartitionMap E bc a \<noteq> None"
    and ok: "accounts_ok E t" "balance_at E t = bal" "t = trie_updates E t0 kvs" and len: "n + length ac \<le> length as"
  shows "\<exists>u kvs'. foldlM (add_account E bc as) t (enumerate n ac) = Some u \<and> accounts_ok E u
           \<and> balance_at E u = take_over (owns E bc) (zip ac (drop n as)) bal
           \<and> u = trie_updates E t0 (kvs @ kvs') \<and> ((\<exists>a \<in> set ac. owns E bc a) \<or> tr_Get E t \<noteq> Map.empty \<longrightarrow> tr_Get E u \<noteq> Map.empty)"
  using r ok len
proof (induction ac arbitrary: t bal kvs n)
  case Nil
  then show ?case by (auto simp: take_over_def intro!: exI[of _ "[]"])
next
  case (Cons a ac)
  from Cons.prems(1) obtain sid where sid: "Get_PartitionMap E bc a = Some sid" by auto
  have zip: "zip (a # ac) (drop n as) = (a, as ! n) # zip ac (drop (Suc n) as)"
    using Cons.prems(5) by (simp flip: Cons_nth_drop_Suc)
  show ?case
  proof (cases "owns E bc a")
    case False
    with sid have step: "add_account E bc as t (n, a) = Some t" by (simp add: add_account_def owns_def)
    from Cons.IH[of t bal kvs "Suc n"] Cons.prems step False zip show ?thesis
      by (auto simp: take_over_def)
  next
    case True
    define s where "s = (fresh_account (as_Nonce (as ! n)))\<lparr>as_Balance := as_Balance (as ! n)\<rparr>"
    define t1 where "t1 = tr_Update E t a (AS_Encode E s)"
    have step: "add_account E bc as t (n, a) = Some t1"
      using True sid Cons.prems(5) by (simp add: add_account_def owns_def t1_def s_def)
    have t1: "accounts_ok E t1" "balance_at E t1 = bal(a := as_Balance (as ! n))"
      "t1 = trie_updates E t0 (kvs @ [(a, AS_Encode E s)])"
      using update_account[OF laws Cons.prems(2), of a s] Cons.prems(3,4)
      by (simp_all add: t1_def s_def trie_updates_snoc)
    have ne: "tr_Get E t1 \<noteq> Map.empty"
      by (auto simp: t1_def fun_eq_iff trie_lawsD(2)[OF laws(2)] decode_encode[OF laws(1)] intro!: exI[of _ a])
    have "\<forall>a \<in> set ac. Get_PartitionMap E bc a \<noteq> None" "Suc n + length ac \<le> length as"
      using Cons.prems(1,5) by auto
    from Cons.IH[OF this(1) t1 this(2)] ne obtain u kvs' where
      "foldlM (add_account E bc as) t1 (enumerate (Suc n) ac) = Some u" "accounts_ok E u"
      "balance_at E u = take_over (owns E bc) (zip ac (drop (Suc n) as)) (bal(a := as_Balance (as ! n)))"
      "u = trie_updates E t0 ((kvs @ [(a, AS_Encode E s)]) @ kvs')" "tr_Get E u \<noteq> Map.empty" by blast
    with step True zip show ?thesis by (auto simp: take_over_def)
  qed
qed

lemma AddAccounts_refines:
  assumes laws: "core_laws E" "store_laws E" "trie_laws E" and wf: "storage_wf E (bc_Storage bc)"
    and t: "tr_New E (bc_triedb bc) (state_root bc) = Some t" "accounts_ok E t"
    and r: "\<forall>a \<in> set ac. owns E bc a" and len: "length ac \<le> length as"
  shows "\<exists>b td s u. AddAccounts E ac as bc = Some (bc\<lparr>bc_triedb := td, bc_CurrentBlock := b, bc_Storage := s\<rparr>)
     \<and> bh_ParentBlockHash (bk_Header b) = bk_Hash (bc_CurrentBlock bc)
     \<and> bh_Number (bk_Header b) = bh_Number (bk_Header (bc_CurrentBlock bc)) + 1
     \<and> bk_Hash b = BH_Hash E (bk_Header b) \<and> Storage_AddBlock E b (bc_Storage bc) = Some s
     \<and> tr_New E td (BytesToHash (bh_StateRoot (bk_Header b))) = Some u \<and> accounts_ok E u
     \<and> balance_at E u = take_over (owns E bc) (zip ac as) (balance_at E t)"
proof -
  define root where "root = bh_StateRoot (bk_Header (bc_CurrentBlock bc))"
  have "\<exists>rt td u. (if ac = [] then Some (root, bc_triedb bc)
           else do {
             st \<leftarrow> tr_New E (bc_triedb bc) (BytesToHash root);
             st \<leftarrow> foldlM (add_account E bc as) st (enumerate 0 ac);
             (rrt, written, td) \<leftarrow> commit_trie E (bc_triedb bc) st;
             Some (if written then rrt else root, td) }) = Some (rt, td)
     \<and> tr_New E td (BytesToHash rt) = Some u \<and> accounts_ok E u
     \<and> balance_at E u = take_over (owns E bc) (zip ac as) (balance_at E t)"
  proof (cases "ac = []")
    case True
    with t show ?thesis by (auto simp: take_over_def root_def state_root_def)
  next
    case False
    have "\<forall>a \<in> set ac. Get_PartitionMap E bc a \<noteq> None" using r by (auto simp: owns_def)
    from add_accounts_loop[OF laws(1,3) this t(2) refl, of t "[]" 0 as] len obtain u kvs where
      u: "foldlM (add_account E bc as) t (enumerate 0 ac) = Some u" "accounts_ok E u"
         "balance_at E u = take_over (owns E bc) (zip ac as) (balance_at E t)" "u = trie_updates E t kvs"
         "tr_Get E u \<noteq> Map.empty"
      using False r by (auto simp: neq_Nil_conv)
    have "trie_over E (bc_triedb bc) u" using t(1) u(4) by (auto simp: trie_over_def)
    from commit_trie_ok[OF laws(3) this] obtain w td where
      c: "commit_trie E (bc_triedb bc) u = Some (tr_Hash E u, w, td)" "persists E (bc_triedb bc) td u"
         "\<not> w \<Longrightarrow> td = bc_triedb bc \<and> snd (tr_Commit E u) = None" by auto
    have h: "BytesToHash (tr_Hash E u) = tr_Hash E u" by (simp add: BytesToHash_id trie_lawsD(3)[OF laws(3)])
    obtain v where v: "tr_New E td (BytesToHash (if w then tr_Hash E u else root)) = Some v" "tr_Get E v = tr_Get E u"
    proof (cases w)
      case True
      with c(2) h that show thesis by (auto simp: persists_def)
    next
      case False
      from commit_unchanged[OF laws(3) t(1) u(4)] c(3)[OF False] u(5) have "tr_Get E u = tr_Get E t"
        by (auto simp: fun_eq_iff)
      with False c(3) t(1) that show thesis by (simp add: root_def state_root_def)
    qed
    with u(1,2,3) c(1) t(1) False accounts_ok_cong[OF v(2)] balance_at_cong[OF v(2)] show ?thesis
      by (simp add: root_def state_root_def)
  qed
  then obtain rt td u where x: "(if ac = [] then Some (root, bc_triedb bc)
           else do {
             st \<leftarrow> tr_New E (bc_triedb bc) (BytesToHash root);
             st \<leftarrow> foldlM (add_account E bc as) st (enumerate 0 ac);
             (rrt, written, td) \<leftarrow> commit_trie E (bc_triedb bc) st;
             Some (if written then rrt else root, td) }) = Some (rt, td)"
     "tr_New E td (BytesToHash rt) = Some u" "accounts_ok E u"
     "balance_at E u = take_over (owns E bc) (zip ac as) (balance_at E t)" by blast
  define bh where "bh = \<lparr>bh_ParentBlockHash = bk_Hash (bc_CurrentBlock bc), bh_StateRoot = rt,
      bh_TxRoot = GetTxTreeRoot E [], bh_Bloom = bs_New E 2048,
      bh_Number = bh_Number (bk_Header (bc_CurrentBlock bc)) + 1, bh_Time = 0, bh_Miner = 0\<rparr>"
  define b where "b = (NewBlock bh [])\<lparr>bk_Hash := BH_Hash E bh\<rparr>"
  have "bk_Hash b \<noteq> []" using core_lawsD(7)[OF laws(1), of "BH_Encode E bh"] by (auto simp: b_def BH_Hash_def)
  from Storage_AddBlock_total[OF laws(2) wf this] obtain s where s: "Storage_AddBlock E b (bc_Storage bc) = Some s" by blast
  have "AddAccounts E ac as bc = Some (bc\<lparr>bc_triedb := td, bc_CurrentBlock := b, bc_Storage := s\<rparr>)"
    using x(1) s unfolding AddAccounts_def Let_def root_def[symmetric]
    by (simp add: GetBloomFilter_def b_def bh_def)
  with s x(2-4) show ?thesis
    by (intro exI[of _ b] exI[of _ td] exI[of _ s] exI[of _ u]) (simp add: b_def bh_def NewBlock_def)
qed

lemma FetchAccounts_balances:
  assumes "tr_New E (bc_triedb bc) (state_root bc) = Some t" "accounts_ok E t"
  shows "\<exists>as. FetchAccounts E ac bc = Some as \<and> map as_Balance as = map (balance_at E t) ac"
proof -
  have "\<exists>as. foldlM (\<lambda>res addr. do { a \<leftarrow> load_account E t addr 0; Some (res @ [a]) }) res ac = Some (res @ as)
           \<and> map as_Balance as = map (balance_at E t) ac" for res
  proof (induction ac arbitrary: res)
    case Nil
    then show ?case by simp
  next
    case (Cons a ac)
    obtain s where s: "load_account E t a 0 = Some s" "as_Balance s = balance_at E t a"
      using load_account_balance[OF assms(2)] by blast
    from Cons.IH[of "res @ [s]"] s show ?case by auto
  qed
  from this[of "[]"] assms(1) show ?thesis by (auto simp: FetchAccounts_def state_root_def)
qed

text \<open>
  Moving accounts loses no money: when the states that \<^verbatim>\<open>FetchAccounts\<close> reads on one shard are
  given to \<^verbatim>\<open>AddAccounts\<close> on the shard that now owns the addresses, that shard appends a block
  under whose state root every moved account has the balance it had on the first shard and
  every other account the balance it had before, and its history stays well stored.
\<close>

theorem accounts_move:
  assumes "core_laws E" "store_laws E" "trie_laws E" "chain_inv E bs bc2"
    and "ledger_at E (bc_triedb bc1) (state_root bc1) = Some bal1" "state_ok E bc1"
    and "ledger_at E (bc_triedb bc2) (state_root bc2) = Some bal2" "state_ok E bc2"
    and "distinct ac" "\<forall>a \<in> set ac. owns E bc2 a"
    and "\<forall>as bc'. AddAccounts E ac as bc2 = Some bc' \<longrightarrow> bk_Hash (bc_CurrentBlock bc') \<notin> bk_Hash ` set bs"
  shows "\<exists>as b bc2' bal2'. FetchAccounts E ac bc1 = Some as \<and> AddAccounts E ac as bc2 = Some bc2'
           \<and> chain_inv E (b # bs) bc2' \<and> ledger_at E (bc_triedb bc2') (state_root bc2') = Some bal2'
           \<and> (\<forall>a. bal2' a = (if a \<in> set ac then bal1 a else bal2 a))"
proof -
  from assms(5,6) obtain t1 where t1: "tr_New E (bc_triedb bc1) (state_root bc1) = Some t1" "accounts_ok E t1"
    "balance_at E t1 = bal1" by (auto simp: state_ok_def ledger_at_def)
  from assms(7,8) obtain t2 where t2: "tr_New E (bc_triedb bc2) (state_root bc2) = Some t2" "accounts_ok E t2"
    "balance_at E t2 = bal2" by (auto simp: state_ok_def ledger_at_def)
  obtain as where as: "FetchAccounts E ac bc1 = Some as" "map as_Balance as = map bal1 ac"
    using FetchAccounts_balances[OF t1(1,2), of ac] t1(3) by auto
  then have len: "length as = length ac" by (metis length_map)
  have wf: "storage_wf E (bc_Storage bc2)" using assms(4) by (simp add: chain_inv_def)
  from AddAccounts_refines[OF assms(1-3) wf t2(1,2) assms(10), of as] len obtain b td s u where
    x: "AddAccounts E ac as bc2 = Some (bc2\<lparr>bc_triedb := td, bc_CurrentBlock := b, bc_Storage := s\<rparr>)"
     "bh_ParentBlockHash (bk_Header b) = bk_Hash (bc_CurrentBlock bc2)"
     "bh_Number (bk_Header b) = bh_Number (bk_Header (bc_CurrentBlock bc2)) + 1"
     "Storage_AddBlock E b (bc_Storage bc2) = Some s"
     "tr_New E td (BytesToHash (bh_StateRoot (bk_Header b))) = Some u"
     "balance_at E u = take_over (owns E bc2) (zip ac as) bal2" using t2(3) by auto
  have "bk_Hash b \<notin> bk_Hash ` set bs" using assms(11) x(1) by fastforce
  then have inv: "chain_inv E (b # bs) (bc2\<lparr>bc_triedb := td, bc_CurrentBlock := b, bc_Storage := s\<rparr>)"
    by (rule chain_inv_store[OF assms(1,2,4) x(2,3) _ x(4)]) simp_all
  have "take_over (owns E bc2) (zip ac as) bal2 a = (if a \<in> set ac then bal1 a else bal2 a)" for a
  proof (cases "a \<in> set ac")
    case True
    then obtain i where i: "i < length ac" "ac ! i = a" by (auto simp: in_set_conv_nth)
    have "(a, as ! i) \<in> set (zip ac as)" using i len by (auto simp: in_set_zip)
    from take_over_in[OF _ this] assms(9,10) True len have
      "take_over (owns E bc2) (zip ac as) bal2 a = as_Balance (as ! i)" by (simp add: map_fst_zip)
    also have "as_Balance (as ! i) = bal1 a" using as(2) i len by (metis nth_map)
    finally show ?thesis using True by simp
  next
    case False
    then show ?thesis by (auto intro!: take_over_out dest: set_zip_leftD)
  qed
  with as(1) x(1,5,6) inv show ?thesis by (auto simp: ledger_at_def state_root_def)
qed

theorem accounts_move_witness:
  "\<exists>as b bc2' bal2'. FetchAccounts demo_env [''b1''] (demo_chain 0 []) = Some as
     \<and> AddAccounts demo_env [''b1''] as (demo_chain 1 []) = Some bc2'
     \<and> chain_inv demo_env [b, demo_genesis] bc2'
     \<and> ledger_at demo_env (bc_triedb bc2') (state_root bc2') = Some bal2'
     \<and> (\<forall>a. bal2' a = (if a \<in> set [''b1''] then Init_Balance else Init_Balance))"
proof (rule accounts_move[OF demo_laws demo_chain_inv])
  have l: "ledger_at demo_env (bc_triedb (demo_chain s [])) (state_root (demo_chain s [])) = Some (\<lambda>a. Init_Balance)" for s
    by (simp only: ledger_at_def demo_chain_state(1) option.map) (simp add: balance_at_def fun_eq_iff)
  from l show "ledger_at demo_env (bc_triedb (demo_chain 0 [])) (state_root (demo_chain 0 [])) = Some (\<lambda>a. Init_Balance)" .
  from l show "ledger_at demo_env (bc_triedb (demo_chain 1 [])) (state_root (demo_chain 1 [])) = Some (\<lambda>a. Init_Balance)" .
  show "\<forall>as bc'. AddAccounts demo_env [''b1''] as (demo_chain 1 []) = Some bc' \<longrightarrow>
      bk_Hash (bc_CurrentBlock bc') \<notin> bk_Hash ` set [demo_genesis]"
  proof (intro allI impI)
    fix as bc' assume "AddAccounts demo_env [''b1''] as (demo_chain 1 []) = Some bc'"
    then have "\<exists>bh. bk_Hash (bc_CurrentBlock bc') = BH_Hash demo_env bh"
      unfolding AddAccounts_def by (auto simp: bind_eq_Some_conv Let_def)
    then have "bk_Hash (bc_CurrentBlock bc') = replicate 32 (CHR 0x03)" by (auto simp: BH_Hash_def demo_env_def)
    then show "bk_Hash (bc_CurrentBlock bc') \<notin> bk_Hash ` set [demo_genesis]" by (simp add: demo_genesis_hash)
  qed
  show "\<forall>a \<in> set [''b1'']. owns demo_env (demo_chain 1 []) a"
    by (simp add: owns_def Get_PartitionMap_def demo_chain_def demo_cc_def)
qed (simp_all add: demo_chain_state(3))

end
