(* ===== verification/Merkle_Proof.thy ===== *)
theory Merkle_Proof
  imports Chain_Props
begin

text \<open>
  The transaction proofs of \<^verbatim>\<open>chain/merkleproof.go\<close>: a Merkle proof of membership in the
  transaction trie of a block, guarded by the Bloom filter of the header. The trie package
  proves and verifies; \<open>proof_laws\<close> is its documented behaviour.
\<close>

record TxProofResult =
  px_Found :: bool
  px_BlockHash :: bytes
  px_TxHash :: bytes
  px_TxRoot :: bytes
  px_BlockHeight :: u64
  px_KeyList :: "bytes list"
  px_ValueList :: "bytes list"
  px_Error :: bytes

text \<open>The result literals of the code: the fields it does not name are zero values.\<close>

definition not_found :: "bytes \<Rightarrow> bytes \<Rightarrow> TxProofResult" where
  "not_found txHash err = \<lparr>px_Found = False, px_BlockHash = [], px_TxHash = txHash, px_TxRoot = [],
     px_BlockHeight = 0, px_KeyList = [], px_ValueList = [], px_Error = err\<rparr>"

definition proof_of :: "bytes \<Rightarrow> 'bs Block \<Rightarrow> (bytes \<times> bytes) list \<Rightarrow> TxProofResult" where
  "proof_of txHash block kvs = \<lparr>px_Found = True, px_BlockHash = bk_Hash block, px_TxHash = txHash,
     px_TxRoot = bh_TxRoot (bk_Header block), px_BlockHeight = bh_Number (bk_Header block),
     px_KeyList = map fst kvs, px_ValueList = map snd kvs, px_Error = []\<rparr>"

definition TxProofGenerateOnTheBlock ::
    "('bs, 'bo, 'tr, 'td, 'ns, 'e) chain_env_scheme \<Rightarrow> bytes \<Rightarrow> 'bs Block \<Rightarrow> TxProofResult option" where
  "TxProofGenerateOnTheBlock E txHash block =
     do { bitMapIdxofTx \<leftarrow> ModBytes txHash 2048;
          if \<not> bs_Test E (bh_Bloom (bk_Header block)) bitMapIdxofTx
          then Some (not_found txHash ''cannot find this tx'')
          else
            let (txExist, transactionTree) =
                  foldl (\<lambda>(ex, t) tx. (ex \<or> txHash = tx_TxHash tx, tr_Update E t (tx_TxHash tx) [CHR 0x00]))
                    (False, tr_NewEmpty E) (bk_Body block)
            in if \<not> txExist
               then Some (not_found txHash (''this tx cannot be found in this block (height=''
                      @ dec_digits (unat (bh_Number (bk_Header block))) @ '')''))
               else if tr_Hash E transactionTree \<noteq> bh_TxRoot (bk_Header block)
               then Some (not_found txHash (''tx root mismatch in height ''
                      @ dec_digits (unat (bh_Number (bk_Header block)))))
               else (case tr_Prove E transactionTree txHash of
                       Some kvs \<Rightarrow> Some (proof_of txHash block kvs)
                     | None \<Rightarrow> Some (not_found txHash ''cannot find this tx'')) }"

text \<open>The loop of \<open>TxProofGenerate\<close> walks the parent hashes while the height is positive.\<close>

primrec proof_search ::
    "('bs, 'bo, 'tr, 'td, 'ns, 'e) chain_env_scheme \<Rightarrow> bytes \<Rightarrow> 'bo Storage \<Rightarrow> nat \<Rightarrow> bytes \<Rightarrow> TxProofResult option" where
  "proof_search E txHash s 0 nowblockHash = Some (not_found txHash ''cannot find this tx'')"
| "proof_search E txHash s (Suc nowheight) nowblockHash =
     do { r \<leftarrow> GetBlock E nowblockHash s;
          case r of
            Inl err1 \<Rightarrow> Some (not_found txHash err1)
          | Inr block \<Rightarrow> do {
              ret \<leftarrow> TxProofGenerateOnTheBlock E txHash block;
              if px_Found ret then Some ret
              else proof_search E txHash s nowheight (bh_ParentBlockHash (bk_Header block)) } }"

definition TxProofGenerate ::
    "('bs, 'bo, 'tr, 'td, 'ns, 'e) chain_env_scheme \<Rightarrow> bytes \<Rightarrow> ('bs, 'bo, 'td, 'x) BlockChain_scheme \<Rightarrow>
     TxProofResult option" where
  "TxProofGenerate E txHash bc =
     proof_search E txHash (bc_Storage bc) (unat (bh_Number (bk_Header (bc_CurrentBlock bc))))
       (bk_Hash (bc_CurrentBlock bc))"

definition TxProofBatchGenerateOnBlock ::
    "('bs, 'bo, 'tr, 'td, 'ns, 'e) chain_env_scheme \<Rightarrow> bytes list \<Rightarrow> 'bs Block \<Rightarrow> TxProofResult list option" where
  "TxProofBatchGenerateOnBlock E txHashes block =
     (let transactionTree = GetTxTree E (bk_Body block) in
      if tr_Hash E transactionTree \<noteq> bh_TxRoot (bk_Header block)
      then Some (map (\<lambda>h. not_found h (''tx root mismatch in height ''
                      @ dec_digits (unat (bh_Number (bk_Header block))))) txHashes)
      else foldlM (\<lambda>txProofs txHash. do {
             bitMapIdxofTx \<leftarrow> ModBytes txHash 2048;
             Some (txProofs @
               [if \<not> bs_Test E (bh_Bloom (bk_Header block)) bitMapIdxofTx
                then not_found txHash ''cannot find this tx''
                else case tr_Prove E transactionTree txHash of
                       Some kvs \<Rightarrow> proof_of txHash block kvs
                     | None \<Rightarrow> not_found txHash ''cannot find this tx'']) }) [] txHashes)"

text \<open>
  The recovered database is the list of entries put into it. Indexing a value list that is
  shorter than the key list panics. The answer carries the error, if any.
\<close>

definition TxProofVerify ::
    "('bs, 'bo, 'tr, 'td, 'ns, 'e) chain_env_scheme \<Rightarrow> bytes \<Rightarrow> TxProofResult \<Rightarrow> (bool \<times> bytes option) option" where
  "TxProofVerify E txHash prf =
     (if \<not> px_Found prf then Some (False, Some ''the result shows not found'')
      else if length (px_ValueList prf) < length (px_KeyList prf) then None
      else let recoveredProof = zip (px_KeyList prf) (px_ValueList prf) in
        case tr_VerifyProof E (BytesToHash (px_TxRoot prf)) (px_TxHash prf) recoveredProof of
          None \<Rightarrow> Some (False, Some ''wrong proof'')
        | Some ret \<Rightarrow> Some (True, None))"

section \<open>Proofs that the code makes\<close>

text \<open>A trie built in memory can be proved at every key, and a proof gives the value at the key.\<close>

definition proof_laws :: "('bs, 'bo, 'tr, 'td, 'ns, 'e) chain_env_scheme \<Rightarrow> bool" where
  "proof_laws E \<longleftrightarrow>
     (\<forall>kvs k. tr_Prove E (trie_updates E (tr_NewEmpty E) kvs) k \<noteq> None) \<and>
     (\<forall>t k ps. tr_Prove E t k = Some ps \<longrightarrow> tr_VerifyProof E (tr_Hash E t) k ps = tr_Get E t k)"

text \<open>The two summaries a header carries of its body, as \<^verbatim>\<open>GenerateBlock\<close> fills them in.\<close>

definition body_sealed ::
    "('bs, 'bo, 'tr, 'td, 'ns, 'e) chain_env_scheme \<Rightarrow> 'bs Block \<Rightarrow> bool" where
  "body_sealed E b \<longleftrightarrow> bh_TxRoot (bk_Header b) = GetTxTreeRoot E (bk_Body b)
                    \<and> GetBloomFilter E (bk_Body b) = Some (bh_Bloom (bk_Header b))"

lemma GetTxTree_updates:
  "GetTxTree E txs = trie_updates E (tr_NewEmpty E) (map (\<lambda>tx. (tx_TxHash tx, [CHR 0x00])) txs)"
proof -
  have "foldl (\<lambda>t tx. tr_Update E t (tx_TxHash tx) [CHR 0x00]) t0 txs
      = trie_updates E t0 (map (\<lambda>tx. (tx_TxHash tx, [CHR 0x00])) txs)" for t0
    by (induction txs arbitrary: t0) (simp_all add: trie_updates_def)
  then show ?thesis by (simp add: GetTxTree_def)
qed

lemma GetTxTree_Get:
  assumes "trie_laws E"
  shows "tr_Get E (GetTxTree E txs) h = (if h \<in> tx_TxHash ` set txs then Some [CHR 0x00] else None)"
proof -
  have "tr_Get E (foldl (\<lambda>t tx. tr_Update E t (tx_TxHash tx) [CHR 0x00]) t0 txs) h
      = (if h \<in> tx_TxHash ` set txs then Some [CHR 0x00] else tr_Get E t0 h)" for t0
    by (induction txs arbitrary: t0) (auto simp: trie_lawsD(2)[OF assms])
  then show ?thesis by (simp add: GetTxTree_def trie_lawsD(1)[OF assms])
qed

text \<open>The Bloom filter has no false negatives.\<close>

lemma GetBloomFilter_Test:
  assumes "core_laws E" "GetBloomFilter E txs = Some bl"
  shows "bs_Test E bl i \<longleftrightarrow> i \<in> (\<lambda>tx. big_endian (tx_TxHash tx) mod 2048) ` set txs"
proof -
  have "bs_Test E (foldl (\<lambda>bs tx. bs_Set E (big_endian (tx_TxHash tx) mod 2048) bs) b0 txs) i
      \<longleftrightarrow> i \<in> (\<lambda>tx. big_endian (tx_TxHash tx) mod 2048) ` set txs \<or> bs_Test E b0 i" for b0
    by (induction txs arbitrary: b0) (auto simp: core_lawsD(9)[OF assms(1)])
  with assms show ?thesis
    by (auto simp: GetBloomFilter_def foldlM_Some core_lawsD(8)[OF assms(1)])
qed

lemma on_block_loop:
  "foldl (\<lambda>(ex, t) tx. (ex \<or> txHash = tx_TxHash tx, tr_Update E t (tx_TxHash tx) [CHR 0x00])) (ex0, t0) txs
   = (ex0 \<or> txHash \<in> tx_TxHash ` set txs, foldl (\<lambda>t tx. tr_Update E t (tx_TxHash tx) [CHR 0x00]) t0 txs)"
  by (induction txs arbitrary: ex0 t0) auto

lemma TxProofGenerateOnTheBlock_eq:
  "TxProofGenerateOnTheBlock E h b =
     Some (if \<not> bs_Test E (bh_Bloom (bk_Header b)) (big_endian h mod 2048) then not_found h ''cannot find this tx''
      else if h \<notin> tx_TxHash ` set (bk_Body b)
      then not_found h (''this tx cannot be found in this block (height='' @ dec_digits (unat (bh_Number (bk_Header b))) @ '')'')
      else if GetTxTreeRoot E (bk_Body b) \<noteq> bh_TxRoot (bk_Header b)
      then not_found h (''tx root mismatch in height '' @ dec_digits (unat (bh_Number (bk_Header b))))
      else case tr_Prove E (GetTxTree E (bk_Body b)) h of
             Some kvs \<Rightarrow> proof_of h b kvs | None \<Rightarrow> not_found h ''cannot find this tx'')"
  unfolding TxProofGenerateOnTheBlock_def
  by (simp add: on_block_loop GetTxTreeRoot_def GetTxTree_def split: option.splits)

lemma on_block_finds:
  assumes "core_laws E" "proof_laws E" "body_sealed E b" "h \<in> tx_TxHash ` set (bk_Body b)"
  shows "\<exists>kvs. TxProofGenerateOnTheBlock E h b = Some (proof_of h b kvs)
           \<and> tr_Prove E (GetTxTree E (bk_Body b)) h = Some kvs"
proof -
  have "bs_Test E (bh_Bloom (bk_Header b)) (big_endian h mod 2048)"
    using assms(3,4) GetBloomFilter_Test[OF assms(1), of "bk_Body b" "bh_Bloom (bk_Header b)"]
    by (auto simp: body_sealed_def)
  moreover obtain kvs where "tr_Prove E (GetTxTree E (bk_Body b)) h = Some kvs"
    using assms(2) unfolding proof_laws_def GetTxTree_updates by blast
  ultimately show ?thesis using assms(3,4) by (auto simp: TxProofGenerateOnTheBlock_eq body_sealed_def)
qed

lemma proof_of_verifies:
  assumes "trie_laws E" "proof_laws E" "body_sealed E b" "h \<in> tx_TxHash ` set (bk_Body b)"
    and "tr_Prove E (GetTxTree E (bk_Body b)) h = Some kvs"
  shows "TxProofVerify E x (proof_of h b kvs) = Some (True, None)"
proof -
  have "tr_VerifyProof E (tr_Hash E (GetTxTree E (bk_Body b))) h kvs = Some [CHR 0x00]"
    using assms(2,4,5) GetTxTree_Get[OF assms(1)] unfolding proof_laws_def by metis
  moreover have "zip (map fst kvs) (map snd kvs) = kvs" by (rule zip_map_fst_snd)
  moreover have "BytesToHash (bh_TxRoot (bk_Header b)) = tr_Hash E (GetTxTree E (bk_Body b))"
    using assms(3) trie_lawsD(3)[OF assms(1)] by (simp add: body_sealed_def GetTxTreeRoot_def BytesToHash_id)
  ultimately show ?thesis by (simp add: TxProofVerify_def proof_of_def)
qed

text \<open>Whatever proof the code makes on a sealed block verifies.\<close>

lemma found_verifies:
  assumes "core_laws E" "trie_laws E" "proof_laws E" "body_sealed E b"
    and "TxProofGenerateOnTheBlock E h b = Some ret" "px_Found ret"
  shows "TxProofVerify E x ret = Some (True, None) \<and> px_TxHash ret = h"
proof -
  have h: "h \<in> tx_TxHash ` set (bk_Body b)"
    using assms(5,6) by (auto simp: TxProofGenerateOnTheBlock_eq not_found_def split: if_splits)
  from on_block_finds[OF assms(1,3,4) h] assms(5) obtain kvs where
    "ret = proof_of h b kvs" "tr_Prove E (GetTxTree E (bk_Body b)) h = Some kvs" by auto
  with proof_of_verifies[OF assms(2-4) h] show ?thesis by (simp add: proof_of_def)
qed

section \<open>Searching the chain\<close>

lemma stored_chain_number:
  "stored_chain E s bs \<Longrightarrow> bh_Number (bk_Header (hd bs)) = of_nat (length bs - 1)"
  by (induction E s bs rule: stored_chain.induct) auto

lemma proof_search_finds:
  assumes laws: "core_laws E" "trie_laws E" "proof_laws E"
    and "stored_chain E s bs" "\<forall>b \<in> set (butlast bs). body_sealed E b"
    and "h \<in> tx_TxHash ` (\<Union>b \<in> set (butlast bs). set (bk_Body b))"
  shows "\<exists>ret. proof_search E h s (length bs - 1) (bk_Hash (hd bs)) = Some ret
           \<and> px_Found ret \<and> TxProofVerify E x ret = Some (True, None) \<and> px_TxHash ret = h"
  using assms(4-6)
proof (induction bs rule: induct_list012)
  case (3 b p bs)
  from 3(3) have get: "GetBlock E (bk_Hash b) s = Some (Inr b)" "bh_ParentBlockHash (bk_Header b) = bk_Hash p"
    "stored_chain E s (p # bs)" by auto
  obtain ret where ret: "TxProofGenerateOnTheBlock E h b = Some ret"
    by (simp add: TxProofGenerateOnTheBlock_eq)
  have sealed: "body_sealed E b" using 3(4) by simp
  show ?case
  proof (cases "px_Found ret")
    case True
    with found_verifies[OF laws sealed ret] ret get show ?thesis by auto
  next
    case False
    have "h \<notin> tx_TxHash ` set (bk_Body b)"
      using on_block_finds[OF laws(1,3) sealed, of h] ret False by (auto simp: proof_of_def)
    then have "h \<in> tx_TxHash ` (\<Union>b \<in> set (butlast (p # bs)). set (bk_Body b))"
      using 3(5) by (simp del: butlast.simps add: butlast.simps(2)[of b]) blast
    moreover have "\<forall>b \<in> set (butlast (p # bs)). body_sealed E b" using 3(4) by simp
    ultimately have ih: "\<exists>ret. proof_search E h s (length (p # bs) - 1) (bk_Hash (hd (p # bs))) = Some ret
           \<and> px_Found ret \<and> TxProofVerify E x ret = Some (True, None) \<and> px_TxHash ret = h"
      by (intro 3(2)[OF get(3)])
    from ih ret False get(1,2) show ?thesis by auto
  qed
qed auto

lemma those_map_Some: "those (map (\<lambda>x. Some (f x)) xs) = Some (map f xs)"
  by (induction xs) auto

section \<open>Properties of the proofs\<close>

text \<open>
  C36. Every transaction on the chain can be proved: if the stored history consists of blocks whose
  headers seal their bodies (the genesis block apart), \<^verbatim>\<open>TxProofGenerate\<close> finds any transaction of
  the history and the proof it returns passes \<^verbatim>\<open>TxProofVerify\<close>.
\<close>

theorem TxProofGenerate_complete:
  assumes "core_laws E" "trie_laws E" "proof_laws E" "chain_inv E bs bc" "length bs \<le> 2 ^ 64"
    and "\<forall>b \<in> set (butlast bs). body_sealed E b"
    and "tx \<in> (\<Union>b \<in> set (butlast bs). set (bk_Body b))"
  shows "\<exists>ret. TxProofGenerate E (tx_TxHash tx) bc = Some ret \<and> px_Found ret \<and> px_TxHash ret = tx_TxHash tx
           \<and> TxProofVerify E (tx_TxHash tx) ret = Some (True, None)"
proof -
  have sc: "stored_chain E (bc_Storage bc) bs" and cur: "bc_CurrentBlock bc = hd bs"
    using assms(4) by (auto simp: chain_inv_def)
  have "bs \<noteq> []" using sc by auto
  then have "length bs - 1 < 2 ^ LENGTH(64)" using assms(5) by (cases bs) auto
  then have n: "unat (bh_Number (bk_Header (hd bs))) = length bs - 1"
    using stored_chain_number[OF sc] by (simp add: unat_of_nat take_bit_nat_eq_self)
  from assms(7) have "tx_TxHash tx \<in> tx_TxHash ` (\<Union>b \<in> set (butlast bs). set (bk_Body b))" by blast
  from proof_search_finds[OF assms(1-3) sc assms(6) this] show ?thesis
    by (auto simp: TxProofGenerate_def cur n)
qed

definition demo_sealed :: "nat list Block" where
  "demo_sealed = demo_block\<lparr>bk_Header := (bk_Header demo_block)
     \<lparr>bh_Bloom := [big_endian (tx_TxHash (demo_tx ''c0'')) mod 2048]\<rparr>\<rparr>"

lemma demo_proof_laws: "proof_laws demo_env"
  by (auto simp: proof_laws_def demo_env_def)

lemma demo_sealed: "body_sealed demo_env demo_sealed" "bk_Body demo_sealed = [demo_tx ''c0'']"
proof -
  have "bs_Set demo_env i s = i # s" "bs_New demo_env n = []" for i s n by (simp_all add: demo_env_def)
  then show "body_sealed demo_env demo_sealed"
    by (simp add: body_sealed_def demo_sealed_def demo_block_def GetBloomFilter_def GetTxTreeRoot_def GetTxTree_def
        alist_put_def demo_root_def)
qed (simp add: demo_sealed_def demo_block_def)

lemma demo_sealed_chain: "\<exists>bc. chain_inv demo_env [demo_sealed, demo_genesis] (bc :: (nat list,
    bytes list \<times> ((bytes \<times> bytes) \<times> bytes) list, (bytes \<times> alist_trie) list) BlockChain)"
proof -
  have "storage_wf demo_env (bc_Storage (demo_chain 0 []))" using demo_chain_inv[of 0 "[]"] by (simp add: chain_inv_def)
  from Storage_AddBlock_total[OF demo_store_laws this, of demo_sealed] obtain s where
    s: "Storage_AddBlock demo_env demo_sealed (bc_Storage (demo_chain 0 [])) = Some s"
    by (auto simp: demo_sealed_def demo_block_def)
  have "chain_inv demo_env [demo_sealed, demo_genesis] ((demo_chain 0 [])\<lparr>bc_Storage := s, bc_CurrentBlock := demo_sealed\<rparr>)"
    by (rule chain_inv_store[OF demo_core_laws demo_store_laws demo_chain_inv[of 0 "[]"] _ _ _ s])
       (simp_all add: demo_sealed_def demo_block_def demo_genesis_hash demo_hash_neq)
  then show ?thesis by blast
qed

theorem TxProofGenerate_complete_witness:
  "\<exists>bc :: (nat list, bytes list \<times> ((bytes \<times> bytes) \<times> bytes) list, (bytes \<times> alist_trie) list) BlockChain.
     \<exists>ret. TxProofGenerate demo_env (tx_TxHash (demo_tx ''c0'')) bc = Some ret \<and> px_Found ret
       \<and> px_TxHash ret = tx_TxHash (demo_tx ''c0'')
       \<and> TxProofVerify demo_env (tx_TxHash (demo_tx ''c0'')) ret = Some (True, None)"
proof -
  obtain bc :: "(nat list, bytes list \<times> ((bytes \<times> bytes) \<times> bytes) list, (bytes \<times> alist_trie) list) BlockChain"
    where bc: "chain_inv demo_env [demo_sealed, demo_genesis] bc" using demo_sealed_chain by blast
  have "\<exists>ret. TxProofGenerate demo_env (tx_TxHash (demo_tx ''c0'')) bc = Some ret \<and> px_Found ret
       \<and> px_TxHash ret = tx_TxHash (demo_tx ''c0'')
       \<and> TxProofVerify demo_env (tx_TxHash (demo_tx ''c0'')) ret = Some (True, None)"
    by (rule TxProofGenerate_complete[OF demo_core_laws demo_trie_laws demo_proof_laws bc])
       (simp_all add: demo_sealed)
  then show ?thesis by blast
qed


text \<open>A verifier that accepts only proofs from one trie.\<close>

definition strict_env :: "alist_trie \<Rightarrow> (nat list, (bytes list \<times> ((bytes \<times> bytes) \<times> bytes) list), alist_trie,
    (bytes \<times> alist_trie) list, bytes \<times> alist_trie) chain_env" where
  "strict_env t0 = demo_env\<lparr>tr_VerifyProof := (\<lambda>r k p. if p = t0 \<and> r = demo_root p then map_of p k else None)\<rparr>"

lemma trie_laws_VerifyProof: "trie_laws (E\<lparr>tr_VerifyProof := f\<rparr>) \<longleftrightarrow> trie_laws E"
  by (simp add: trie_laws_defs trie_over_def persists_def trie_updates_def)


text \<open>
  On a block whose header seals its body, \<^verbatim>\<open>TxProofBatchGenerateOnBlock\<close> makes for the hashes
  of transactions of the block exactly the proofs that \<^verbatim>\<open>TxProofGenerateOnTheBlock\<close> makes one by
  one.
\<close>

theorem TxProofBatch_equiv:
  assumes "core_laws E" "proof_laws E" "body_sealed E b" "set hs \<subseteq> tx_TxHash ` set (bk_Body b)"
  shows "TxProofBatchGenerateOnBlock E hs b = those (map (\<lambda>h. TxProofGenerateOnTheBlock E h b) hs)"
proof -
  define one where "one = (\<lambda>h. if \<not> bs_Test E (bh_Bloom (bk_Header b)) (big_endian h mod 2048)
      then not_found h ''cannot find this tx''
      else case tr_Prove E (GetTxTree E (bk_Body b)) h of
             Some kvs \<Rightarrow> proof_of h b kvs | None \<Rightarrow> not_found h ''cannot find this tx'')"
  have root: "tr_Hash E (GetTxTree E (bk_Body b)) = bh_TxRoot (bk_Header b)"
    using assms(3) by (simp add: body_sealed_def GetTxTreeRoot_def)
  have loop: "foldl (\<lambda>ps h. ps @ [one h]) ps hs = ps @ map one hs" for ps by (induction hs arbitrary: ps) auto
  have "TxProofBatchGenerateOnBlock E hs b = Some (foldl (\<lambda>ps h. ps @ [one h]) [] hs)"
    unfolding TxProofBatchGenerateOnBlock_def Let_def one_def foldlM_Some[symmetric] by (simp add: root)
  also have "\<dots> = those (map (\<lambda>h. Some (one h)) hs)" unfolding loop append_Nil those_map_Some ..
  also have "map (\<lambda>h. Some (one h)) hs = map (\<lambda>h. TxProofGenerateOnTheBlock E h b) hs"
    using assms(4) root by (auto simp: TxProofGenerateOnTheBlock_eq one_def GetTxTreeRoot_def)
  finally show ?thesis .
qed

theorem TxProofBatch_equiv_witness:
  "TxProofBatchGenerateOnBlock demo_env [tx_TxHash (demo_tx ''c0'')] demo_sealed
   = those (map (\<lambda>h. TxProofGenerateOnTheBlock demo_env h demo_sealed) [tx_TxHash (demo_tx ''c0'')])"
  by (rule TxProofBatch_equiv[OF demo_core_laws demo_proof_laws demo_sealed(1)]) (simp add: demo_sealed(2))

end
