(* ===== verification/Pbft_Node.thy ===== *)
theory Pbft_Node
  imports Merkle_Proof "HOL-Library.AList"
begin

text \<open>
  The state of a consensus node (\<^verbatim>\<open>pbft_all/pbft.go\<close>, \<^verbatim>\<open>dataSupport/\<close>) and the helpers of
  \<^verbatim>\<open>pbft_all/toolFuncs.go\<close>. A message is a value of \<open>net_msg\<close>, one constructor per message type
  with its decoded content: JSON is the transport. What a handler sends is part of its result:
  \<open>Dial\<close> is \<^verbatim>\<open>networks.TcpDial\<close> to an address, \<open>Bcast\<close> is \<^verbatim>\<open>networks.Broadcast\<close> to the other
  nodes of the shard, \<open>CsvLine\<close> a line of the measurement file, \<open>MarkDigest\<close> a call of
  \<^verbatim>\<open>networks.MarkMigrationDigest\<close> and \<open>RoundEnd\<close> the log line that ends a round, with the digest
  and the sequence number of the round. A Go map that the code ranges over is an association list, whose
  order is an iteration order.
\<close>

section \<open>Messages and outputs\<close>

record RelayWithProof =
  rp_Txs :: "Transaction list"
  rp_TxProofs :: "TxProofResult list"
  rp_SenderShardID :: u64
  rp_SenderSeq :: u64

record compactProposal =
  cp_Proposal :: PrePrepare
  cp_Header :: bytes
  cp_Hash :: bytes
  cp_Keys :: "bytes list"
  cp_Leader :: bytes

record missingBodies =
  mb_Keys :: "bytes list"
  mb_Reply :: bytes

datatype net_msg =
    CPrePrepare PrePrepare
  | CPrepare Prepare
  | CCommit Commit
  | CRequestOldrequest RequestOldMessage
  | CSendOldrequest SendOldMessage
  | CStop
  | CRelay Relay
  | CRelayWithProof RelayWithProof
  | CInject InjectTxs
  | CBlockInfo BlockInfoMsg
  | CSeqIDinfo SeqIDinfo
  | AccountState_and_TX AccountStateAndTx
  | CPartitionMsg modified_map
  | CPartitionReady PartitionReady
  | CAccountTransferMsg_broker AccountStateAndTx
  | CInner2CrossTx "Transaction list"
  | ViewChangePropose ViewChangeMsg
  | NewChange NewViewMsg
  | OHStream "bytes list"
  | OHBodies "bytes list"
  | OHMissing missingBodies
  | OHCompact compactProposal
  | OHMigrationDone u64 u64 u64
  | OtherMsg bytes

datatype net_out =
    Dial bytes net_msg
  | Bcast net_msg
  | CsvLine "int list"
  | MarkDigest bytes
  | RoundEnd bytes u64

section \<open>State\<close>

record Data_supportCLPA =
  dm_ModifiedMap :: "modified_map list"
  dm_AccountTransferRound :: u64
  dm_ReceivedNewAccountState :: "(address \<times> AccountState) list"
  dm_ReceivedNewTx :: "Transaction list"
  dm_AccountStateTx :: "(u64 \<times> AccountStateAndTx) list"
  dm_PartitionOn :: bool
  dm_PartitionReady :: "(u64 \<times> bool) list"
  dm_ReadySeq :: "u64 \<rightharpoonup> u64"
  dm_CollectOver :: bool

definition NewCLPADataSupport :: Data_supportCLPA where
  "NewCLPADataSupport = \<lparr>dm_ModifiedMap = [], dm_AccountTransferRound = 0, dm_ReceivedNewAccountState = [],
     dm_ReceivedNewTx = [], dm_AccountStateTx = [], dm_PartitionOn = False, dm_PartitionReady = [],
     dm_ReadySeq = Map.empty, dm_CollectOver = False\<rparr>"

text \<open>The stream channel holds the batches that the sender goroutine has not taken yet.\<close>

record overheadState =
  ov_bodies :: "bytes \<rightharpoonup> bytes"
  ov_stream :: "bytes list list"

text \<open>
  Votes are kept as the list of the nodes that sent them. The two flag maps read as \<^const>\<open>False\<close>
  where nothing was written. \<open>pn_sequenceLock\<close> and \<open>pn_askForLock\<close> say whether the mutexes are held.
\<close>

record ('bs, 'bo, 'td) PbftConsensusNode =
  pn_overhead :: "overheadState option"
  pn_RunningNode :: Node
  pn_ShardID :: u64
  pn_NodeID :: u64
  pn_CurChain :: "('bs, 'bo, 'td) BlockChain"
  pn_pbftChainConfig :: ChainConfig
  pn_ip_nodeTable :: "u64 \<Rightarrow> u64 \<Rightarrow> bytes"
  pn_node_nums :: u64
  pn_malicious_nums :: u64
  pn_view :: int
  pn_lastCommitTime :: int
  pn_viewChangeMap :: "int \<times> int \<rightharpoonup> u64 list"
  pn_newViewMap :: "int \<times> int \<rightharpoonup> u64 list"
  pn_sequenceID :: u64
  pn_stopSignal :: bool
  pn_requestPool :: "bytes \<rightharpoonup> Request"
  pn_cntPrepareConfirm :: "bytes \<rightharpoonup> Node list"
  pn_cntCommitConfirm :: "bytes \<rightharpoonup> Node list"
  pn_isCommitBordcast :: "bytes \<Rightarrow> bool"
  pn_isReply :: "bytes \<Rightarrow> bool"
  pn_height2Digest :: "u64 \<rightharpoonup> bytes"
  pn_pbftStage :: int
  pn_sequenceLock :: bool
  pn_askForLock :: bool
  pn_seqIDMap :: "(u64 \<times> u64) list"
  pn_cdm :: Data_supportCLPA

type_synonym ('bs, 'bo, 'td) node = "('bs, 'bo, 'td) PbftConsensusNode"

text \<open>What the node calls and the repository does not contain.\<close>

record ('bs, 'bo, 'tr, 'td, 'ns) node_env = "('bs, 'bo, 'tr, 'td, 'ns) chain_env" +
  json_Request :: "Request \<Rightarrow> bytes"
  gob_AT :: "AccountTransferMsg \<Rightarrow> bytes"
  ungob_AT :: "bytes \<Rightarrow> AccountTransferMsg option"

text \<open>\<^verbatim>\<open>UnixMilli\<close>: milliseconds since 1970, which is this many milliseconds after the zero time.\<close>

definition UnixMilli :: "time \<Rightarrow> int" where
  "UnixMilli t = t div 1000000 - 62135596800000"

text \<open>\<^verbatim>\<open>Time.Sub\<close> saturates at the range of a 64-bit duration in nanoseconds.\<close>

definition time_Sub :: "time \<Rightarrow> time \<Rightarrow> int" where
  "time_Sub a b = max (- (2 ^ 63)) (min (2 ^ 63 - 1) (a - b))"

definition leader_id :: "('bs, 'bo, 'td) node \<Rightarrow> u64" where
  "leader_id p = of_int (pn_view p)"

abbreviation is_leader :: "('bs, 'bo, 'td) node \<Rightarrow> bool" where
  "is_leader p \<equiv> pn_NodeID p = leader_id p"

abbreviation supervisor_ip :: "('bs, 'bo, 'td) node \<Rightarrow> bytes" where
  "supervisor_ip p \<equiv> pn_ip_nodeTable p SupervisorShard 0"

text \<open>
  \<^verbatim>\<open>NewPbftNode\<close>: \<open>bc\<close> is the chain that \<^verbatim>\<open>chain.NewBlockChain\<close> returned. The overhead state is made
  when the experiment is enabled.
\<close>

definition initOverhead :: "('bs, 'e) core_env_scheme \<Rightarrow> overheadState option" where
  "initOverhead E = (if oh_Enabled (pm_Overhead (prm E))
                     then Some \<lparr>ov_bodies = Map.empty, ov_stream = []\<rparr> else None)"

definition NewPbftNode ::
    "('bs, 'e) core_env_scheme \<Rightarrow> (u64 \<Rightarrow> u64 \<Rightarrow> bytes) \<Rightarrow> time \<Rightarrow> u64 \<Rightarrow> u64 \<Rightarrow> ChainConfig \<Rightarrow>
     ('bs, 'bo, 'td) BlockChain \<Rightarrow> ('bs, 'bo, 'td) node" where
  "NewPbftNode E ips now shardID nodeID pcc bc =
     \<lparr>pn_overhead = initOverhead E,
      pn_RunningNode = \<lparr>nd_NodeID = nodeID, nd_ShardID = shardID, nd_IPaddr = ips shardID nodeID\<rparr>,
      pn_ShardID = shardID, pn_NodeID = nodeID, pn_CurChain = bc, pn_pbftChainConfig = pcc,
      pn_ip_nodeTable = ips, pn_node_nums = cc_Nodes_perShard pcc,
      pn_malicious_nums = (cc_Nodes_perShard pcc - 1) div 3,
      pn_view = 0, pn_lastCommitTime = UnixMilli (now + 5000000000),
      pn_viewChangeMap = Map.empty, pn_newViewMap = Map.empty,
      pn_sequenceID = bh_Number (bk_Header (bc_CurrentBlock bc)) + 1, pn_stopSignal = False,
      pn_requestPool = Map.empty, pn_cntPrepareConfirm = Map.empty, pn_cntCommitConfirm = Map.empty,
      pn_isCommitBordcast = (\<lambda>_. False), pn_isReply = (\<lambda>_. False), pn_height2Digest = Map.empty,
      pn_pbftStage = 1, pn_sequenceLock = False, pn_askForLock = False, pn_seqIDMap = [],
      pn_cdm = NewCLPADataSupport\<rparr>"

section \<open>Helpers\<close>

text \<open>One vote per node and shard.\<close>

definition add_vote :: "bytes \<Rightarrow> Node \<Rightarrow> (bytes \<rightharpoonup> Node list) \<Rightarrow> (bytes \<rightharpoonup> Node list)" where
  "add_vote key val m =
     (let m = (case m key of None \<Rightarrow> m(key \<mapsto> []) | Some _ \<Rightarrow> m) in
      if \<exists>existing \<in> set (the (m key)). nd_NodeID existing = nd_NodeID val \<and> nd_ShardID existing = nd_ShardID val
      then m else m(key \<mapsto> the (m key) @ [val]))"

definition set2DMap :: "bool \<Rightarrow> bytes \<Rightarrow> Node \<Rightarrow> ('bs, 'bo, 'td) node \<Rightarrow> ('bs, 'bo, 'td) node" where
  "set2DMap isPrePareConfirm key val p =
     (if isPrePareConfirm
      then p\<lparr>pn_cntPrepareConfirm := add_vote key val (pn_cntPrepareConfirm p)\<rparr>
      else p\<lparr>pn_cntCommitConfirm := add_vote key val (pn_cntCommitConfirm p)\<rparr>)"

definition votes :: "(bytes \<rightharpoonup> Node list) \<Rightarrow> bytes \<Rightarrow> Node list" where
  "votes m key = (case m key of None \<Rightarrow> [] | Some l \<Rightarrow> l)"

definition getDigest :: "('bs, 'bo, 'tr, 'td, 'ns, 'e) node_env_scheme \<Rightarrow> Request \<Rightarrow> bytes" where
  "getDigest E r = sha256_Sum256 E (json_Request E r)"

definition computeTCL :: "Transaction list \<Rightarrow> time \<Rightarrow> int" where
  "computeTCL txs commitTS =
     foldl (\<lambda>ret tx. ret + (let d = time_Sub commitTS (tx_Time tx) in sgn d * (\<bar>d\<bar> div 1000000))) 0 txs"

definition Encode_AT ::
    "('bs, 'bo, 'tr, 'td, 'ns, 'e) node_env_scheme \<Rightarrow> AccountTransferMsg \<Rightarrow> bytes" where
  "Encode_AT E atm = gob_AT E atm"

definition DecodeAccountTransferMsg ::
    "('bs, 'bo, 'tr, 'td, 'ns, 'e) node_env_scheme \<Rightarrow> bytes \<Rightarrow> AccountTransferMsg option" where
  "DecodeAccountTransferMsg E content = ungob_AT E content"

text \<open>\<^verbatim>\<open>for sid := uint64(0); sid < ShardNums; sid++ { if sid == p.ShardID { continue } ... }\<close>\<close>

definition other_shards :: "('bs, 'bo, 'td) node \<Rightarrow> u64 list" where
  "other_shards p = filter (\<lambda>sid. sid \<noteq> pn_ShardID p) (u64_range (cc_ShardNums (pn_pbftChainConfig p)))"

definition map_pool :: "(TxPool \<Rightarrow> TxPool) \<Rightarrow> ('bs, 'bo, 'td) node \<Rightarrow> ('bs, 'bo, 'td) node" where
  "map_pool f p = p\<lparr>pn_CurChain := (pn_CurChain p)\<lparr>bc_Txpool := f (bc_Txpool (pn_CurChain p))\<rparr>\<rparr>"

definition RelayMsgSend ::
    "('bs, 'e) core_env_scheme \<Rightarrow> ('bs, 'bo, 'td) node \<Rightarrow> (net_out list \<times> ('bs, 'bo, 'td) node) option" where
  "RelayMsgSend E p =
     (if pm_RelayWithMerkleProof (prm E) \<noteq> 0 then None
      else Some (map (\<lambda>sid. Dial (pn_ip_nodeTable p sid 0)
                       (CRelay \<lparr>rl_Txs = relay_of (bc_Txpool (pn_CurChain p)) sid,
                                rl_SenderShardID = pn_ShardID p, rl_SenderSeq = pn_sequenceID p\<rparr>))
                   (other_shards p),
                 map_pool ClearRelayPool p))"

definition RelayWithProofSend ::
    "('bs, 'bo, 'tr, 'td, 'ns, 'e) chain_env_scheme \<Rightarrow> 'bs Block \<Rightarrow> ('bs, 'bo, 'td) node \<Rightarrow>
     (net_out list \<times> ('bs, 'bo, 'td) node) option" where
  "RelayWithProofSend E block p =
     (if pm_RelayWithMerkleProof (prm E) \<noteq> 1 then None
      else do {
        outs \<leftarrow> foldlM (\<lambda>outs sid. do {
            let txs = relay_of (bc_Txpool (pn_CurChain p)) sid;
            txProofs \<leftarrow> TxProofBatchGenerateOnBlock E (map tx_TxHash txs) block;
            Some (outs @ [Dial (pn_ip_nodeTable p sid 0)
              (CRelayWithProof \<lparr>rp_Txs = txs, rp_TxProofs = txProofs,
                 rp_SenderShardID = pn_ShardID p, rp_SenderSeq = pn_sequenceID p\<rparr>)]) }) [] (other_shards p);
        Some (outs, map_pool ClearRelayPool p) })"

text \<open>
  The two-pointer loop of \<open>DeleteElementsInList\<close> compacts the survivors to the front of the list;
  \<^verbatim>\<open>list[:-removedCnt]\<close> then panics on a negative bound and is empty for the bound zero.
\<close>

definition delete_loop ::
    "(bytes \<Rightarrow> bool) \<Rightarrow> Transaction list \<times> nat \<times> nat \<Rightarrow> nat \<Rightarrow> Transaction list \<times> nat \<times> nat" where
  "delete_loop del = (\<lambda>(list, left, removedCnt) right.
     if del (tx_TxHash (list ! right)) then (list, left, Suc removedCnt)
     else (list[left := list ! right], Suc left, removedCnt))"

definition DeleteElementsInList :: "Transaction list \<Rightarrow> Transaction list \<Rightarrow> Transaction list option" where
  "DeleteElementsInList list elements =
     (let elementHashMap = (\<lambda>h. h \<in> set (map tx_TxHash elements));
          (list', left, removedCnt) = foldl (delete_loop elementHashMap) (list, 0, 0) [0..<length list]
      in if removedCnt = 0 then Some (take 0 list') else None)"

section \<open>Votes\<close>

text \<open>
  A table of votes: the interface between the message handlers, which count, and the protocol's
  argument, which needs that the voters counted are different. Adding a vote keeps the voters of
  every key distinct, only ever adds the new voter, and leaves the other keys alone.
\<close>

locale vote_table =
  fixes voters :: "'t \<Rightarrow> 'k \<Rightarrow> 'v list"
    and ident :: "'v \<Rightarrow> 'i"
    and add :: "'k \<Rightarrow> 'v \<Rightarrow> 't \<Rightarrow> 't"
  assumes add_new: "ident v \<notin> ident ` set (voters t k) \<Longrightarrow> voters (add k v t) k = voters t k @ [v]"
    and add_old: "ident v \<in> ident ` set (voters t k) \<Longrightarrow> voters (add k v t) k = voters t k"
    and add_other: "k' \<noteq> k \<Longrightarrow> voters (add k v t) k' = voters t k'"
begin

definition table_ok :: "'t \<Rightarrow> bool" where
  "table_ok t \<longleftrightarrow> (\<forall>k. distinct (map ident (voters t k)))"

lemma add_ok: "table_ok t \<Longrightarrow> table_ok (add k v t)"
  unfolding table_ok_def
proof
  fix k'
  assume t: "\<forall>k. distinct (map ident (voters t k))"
  show "distinct (map ident (voters (add k v t) k'))"
  proof (cases "k' = k")
    case True
    with t show ?thesis
      by (cases "ident v \<in> ident ` set (voters t k)") (auto simp: add_new add_old)
  next
    case False
    with t show ?thesis by (simp add: add_other)
  qed
qed

lemma add_grows: "\<exists>vs. voters (add k v t) k' = voters t k' @ vs"
  by (cases "k' = k"; cases "ident v \<in> ident ` set (voters t k)") (auto simp: add_new add_old add_other)

lemma add_count_mono: "length (voters t k') \<le> length (voters (add k v t) k')"
  using add_grows[of k v t k'] by auto

lemma add_voter: "ident v \<in> ident ` set (voters (add k v t) k)"
  by (cases "ident v \<in> ident ` set (voters t k)") (auto simp: add_new add_old)

lemma adds_ok: "table_ok t \<Longrightarrow> table_ok (foldl (\<lambda>t (k, v). add k v t) t kvs)"
  by (induction kvs arbitrary: t) (auto simp: add_ok)

text \<open>The count is the number of different voters, so a vote repeated changes nothing.\<close>

lemma count_distinct: "table_ok t \<Longrightarrow> length (voters t k) = card (ident ` set (voters t k))"
  unfolding table_ok_def by (metis distinct_card length_map set_map)

lemma add_twice: "ident w = ident v \<Longrightarrow> voters (add k w (add k v t)) k = voters (add k v t) k"
  using add_voter[of v k t] by (metis add_old)

end

abbreviation node_key :: "Node \<Rightarrow> u64 \<times> u64" where
  "node_key n \<equiv> (nd_NodeID n, nd_ShardID n)"

lemma votes_add_vote:
  "votes (add_vote key val m) k =
     (if k = key \<and> node_key val \<notin> node_key ` set (votes m key) then votes m key @ [val] else votes m k)"
  by (auto simp: votes_def add_vote_def Let_def image_iff split: option.splits) metis

interpretation pv: vote_table votes node_key add_vote
  by unfold_locales (simp_all add: votes_add_vote)

section \<open>Removing elements never works\<close>

lemma delete_prefix:
  "k \<le> length l \<Longrightarrow> foldl (delete_loop del) (l, 0, 0) [0..<k] = (l', i, c) \<Longrightarrow>
   if \<exists>tx \<in> set (take k l). del (tx_TxHash tx) then c > 0 else (l', i, c) = (l, k, 0)"
proof (induction k arbitrary: l' i c)
  case 0
  then show ?case by simp
next
  case (Suc k)
  obtain l1 i1 c1 where f: "foldl (delete_loop del) (l, 0, 0) [0..<k] = (l1, i1, c1)"
    by (metis prod_cases3)
  note ih = Suc.IH[OF _ f]
  have t: "take (Suc k) l = take k l @ [l ! k]" using Suc.prems(1) by (simp add: take_Suc_conv_app_nth)
  have step: "delete_loop del (l1, i1, c1) k = (l', i, c)" using Suc.prems(2) f by simp
  then have mono: "c \<ge> c1" by (auto simp: delete_loop_def split: if_splits)
  show ?case
  proof (cases "\<exists>tx \<in> set (take k l). del (tx_TxHash tx)")
    case True
    with ih mono Suc.prems(1) show ?thesis by (auto simp: t)
  next
    case False
    with ih Suc.prems(1) have "l1 = l" "i1 = k" "c1 = 0" by auto
    with step False show ?thesis by (auto simp: t delete_loop_def split: if_splits)
  qed
qed

text \<open>
  \<^verbatim>\<open>DeleteElementsInList\<close> never returns the list without the given elements: it panics as soon
  as something has to be removed, and returns the empty list when nothing has.
\<close>

lemma DeleteElementsInList_result:
  "DeleteElementsInList list elements =
     (if tx_TxHash ` set list \<inter> tx_TxHash ` set elements = {} then Some [] else None)"
proof -
  let ?del = "\<lambda>h. h \<in> set (map tx_TxHash elements)"
  obtain l' i c where f: "foldl (delete_loop ?del) (list, 0, 0) [0..<length list] = (l', i, c)"
    by (metis prod_cases3)
  from delete_prefix[OF _ f] have "if \<exists>tx \<in> set list. ?del (tx_TxHash tx) then c > 0 else c = 0" by auto
  then show ?thesis unfolding DeleteElementsInList_def Let_def f by (auto split: if_splits)
qed

end
