(* ===== verification/Pbft_Modules.thy ===== *)
theory Pbft_Modules
  imports Pbft_Node
begin

text \<open>
  The exchangeable parts of a consensus node: what is proposed, checked and executed
  (\<^verbatim>\<open>ExtraOpInConsensus\<close>, the \<^verbatim>\<open>pbftInside\<close> files and the two account-transfer files) and how
  messages of other shards are handled (\<^verbatim>\<open>OpInterShards\<close>, the \<^verbatim>\<open>pbftOutside\<close> files). There are
  five variants: plain relay, CLPA, contribution, broker and CLPA with brokers. \<open>now\<close> is the clock
  at the call, which does not advance inside it, and \<^const>\<open>None\<close> is a panic.
\<close>

section \<open>Proposing a block\<close>

text \<open>
  \<^verbatim>\<open>HandleinPropose\<close> of the re-partitioning variants waits twice, for the other shards to be ready
  and for their accounts to arrive. It is a small program with a program counter: a call runs
  from one waiting point to the next and either yields there or has the request.
\<close>

datatype propose_pc = ProposeBegin | WaitReady | WaitCollect

datatype ('n) propose_result = Yield propose_pc "net_out list" 'n | Proposed Request "net_out list" 'n

definition propose_block ::
    "('bs, 'bo, 'tr, 'td, 'ns, 'e) node_env_scheme \<Rightarrow> time \<Rightarrow> ('bs, 'bo, 'td) node \<Rightarrow>
     ('bs, 'bo, 'td) node propose_result option" where
  "propose_block E now p =
     do { (block, bc) \<leftarrow> GenerateBlock E now (to_int32 (uint (pn_NodeID p))) (pn_CurChain p);
          Some (Proposed \<lparr>rq_RequestType = BlockRequest, rq_Content = B_Encode E block, rq_ReqTime = now\<rparr> []
                  (p\<lparr>pn_CurChain := bc\<rparr>)) }"

definition RawRelay_HandleinPropose where
  "RawRelay_HandleinPropose E now (pc :: propose_pc) p = propose_block E now p"

definition Broker_HandleinPropose where
  "Broker_HandleinPropose E now (pc :: propose_pc) p = propose_block E now p"

section \<open>Checking a proposal\<close>

definition check_block ::
    "('bs, 'bo, 'tr, 'td, 'ns, 'e) node_env_scheme \<Rightarrow> PrePrepare \<Rightarrow> ('bs, 'bo, 'td) node \<Rightarrow>
     (bool \<times> ('bs, 'bo, 'td) node) option" where
  "check_block E ppmsg p =
     do { block \<leftarrow> DecodeB E (rq_Content (pp_RequestMsg ppmsg));
          if IsValidBlock E block (pn_CurChain p) \<noteq> None then Some (False, p)
          else Some (True, p\<lparr>pn_requestPool := (pn_requestPool p)(pp_Digest ppmsg \<mapsto> pp_RequestMsg ppmsg)\<rparr>) }"

definition RawRelay_HandleinPrePrepare where
  "RawRelay_HandleinPrePrepare E ppmsg p = check_block E ppmsg p"

definition Broker_HandleinPrePrepare where
  "Broker_HandleinPrePrepare E ppmsg p = check_block E ppmsg p"

text \<open>The re-partitioning variants accept every partition request.\<close>

definition check_block_or_partition ::
    "('bs, 'bo, 'tr, 'td, 'ns, 'e) node_env_scheme \<Rightarrow> PrePrepare \<Rightarrow> ('bs, 'bo, 'td) node \<Rightarrow>
     (bool \<times> ('bs, 'bo, 'td) node) option" where
  "check_block_or_partition E ppmsg p =
     (if rq_RequestType (pp_RequestMsg ppmsg) = PartitionReq
      then Some (True, p\<lparr>pn_requestPool := (pn_requestPool p)(pp_Digest ppmsg \<mapsto> pp_RequestMsg ppmsg)\<rparr>)
      else check_block E ppmsg p)"

definition CLPA_HandleinPrePrepare where
  "CLPA_HandleinPrePrepare E ppmsg p = check_block_or_partition E ppmsg p"

definition Contrib_HandleinPrePrepare where
  "Contrib_HandleinPrePrepare E ppmsg p = check_block_or_partition E ppmsg p"

definition CLPABroker_HandleinPrePrepare where
  "CLPABroker_HandleinPrePrepare E ppmsg p = check_block_or_partition E ppmsg p"

section \<open>Executing a committed block: relay variants\<close>

text \<open>
  The leader sorts the transactions of the block. A transaction that should not be here is
  skipped; one whose recipient is elsewhere is marked as relayed, in place, and put in the relay
  pool. The loop state is the body as far as it has been rewritten, the pool and the three lists.
\<close>

record relay_acc =
  ra_body :: "Transaction list"
  ra_pool :: TxPool
  ra_inner :: "Transaction list"
  ra_relay1 :: "Transaction list"
  ra_relay2 :: "Transaction list"

definition classify_relay_tx ::
    "('bs, 'e) core_env_scheme \<Rightarrow> u64 \<Rightarrow> ('bs, 'bo, 'td) BlockChain \<Rightarrow> relay_acc \<Rightarrow> Transaction \<Rightarrow> relay_acc option" where
  "classify_relay_tx E ShardID bc a tx =
     do { ssid \<leftarrow> Get_PartitionMap E bc (tx_Sender tx);
          rsid \<leftarrow> Get_PartitionMap E bc (tx_Recipient tx);
          if \<not> tx_Relayed tx \<and> ssid \<noteq> ShardID then Some (a\<lparr>ra_body := ra_body a @ [tx]\<rparr>)
          else if tx_Relayed tx \<and> rsid \<noteq> ShardID then Some (a\<lparr>ra_body := ra_body a @ [tx]\<rparr>)
          else if rsid \<noteq> ShardID then do {
            let tx = tx\<lparr>tx_Relayed := True\<rparr>;
            pool \<leftarrow> AddRelayTx tx rsid (ra_pool a);
            Some (a\<lparr>ra_body := ra_body a @ [tx], ra_pool := pool, ra_relay1 := ra_relay1 a @ [tx]\<rparr>) }
          else if tx_Relayed tx
          then Some (a\<lparr>ra_body := ra_body a @ [tx], ra_relay2 := ra_relay2 a @ [tx]\<rparr>)
          else Some (a\<lparr>ra_body := ra_body a @ [tx], ra_inner := ra_inner a @ [tx]\<rparr>) }"

definition classify_relay ::
    "('bs, 'e) core_env_scheme \<Rightarrow> u64 \<Rightarrow> ('bs, 'bo, 'td) BlockChain \<Rightarrow> Transaction list \<Rightarrow> relay_acc option" where
  "classify_relay E ShardID bc body =
     foldlM (classify_relay_tx E ShardID bc)
       \<lparr>ra_body = [], ra_pool = (bc_Txpool bc)\<lparr>tp_RelayPool := Some Map.empty\<rparr>,
        ra_inner = [], ra_relay1 = [], ra_relay2 = []\<rparr> body"

text \<open>\<^verbatim>\<open>AddBlock\<close> keeps a pointer to the block it accepts, so marks show in the current block too.\<close>

definition AddBlock_accepts :: "'bs Block \<Rightarrow> ('bs, 'bo, 'td) BlockChain \<Rightarrow> bool" where
  "AddBlock_accepts b bc \<longleftrightarrow>
     bh_Number (bk_Header b) = bh_Number (bk_Header (bc_CurrentBlock bc)) + 1 \<and>
     bh_ParentBlockHash (bk_Header b) = bk_Hash (bc_CurrentBlock bc)"

definition metric_line ::
    "'bs Block \<Rightarrow> int \<Rightarrow> ('bs, 'bo, 'td) node \<Rightarrow> time \<Rightarrow> time \<Rightarrow> Transaction list \<Rightarrow> Transaction list \<Rightarrow>
     Transaction list \<Rightarrow> net_out" where
  "metric_line block epoch p proposeTime commitTime body one two =
     CsvLine [sint (bh_Number (bk_Header block)), epoch, int (GetTxQueueLen (bc_Txpool (pn_CurChain p))),
       int (length body), int (length one), int (length two), UnixMilli proposeTime, UnixMilli commitTime,
       computeTCL body commitTime, computeTCL one commitTime, computeTCL two commitTime]"

definition relay_send ::
    "('bs, 'bo, 'tr, 'td, 'ns, 'e) chain_env_scheme \<Rightarrow> 'bs Block \<Rightarrow> ('bs, 'bo, 'td) node \<Rightarrow>
     (net_out list \<times> ('bs, 'bo, 'td) node) option" where
  "relay_send E block p = (if pm_RelayWithMerkleProof (prm E) = 1 then RelayWithProofSend E block p
                           else RelayMsgSend E p)"

text \<open>What the leader does after a block was added; \<open>kept\<close> says whether \<^verbatim>\<open>AddBlock\<close> accepted it.\<close>

definition relay_as_leader ::
    "('bs, 'bo, 'tr, 'td, 'ns, 'e) chain_env_scheme \<Rightarrow> time \<Rightarrow> int \<Rightarrow> Request \<Rightarrow> 'bs Block \<Rightarrow> bool \<Rightarrow>
     ('bs, 'bo, 'td) node \<Rightarrow> (net_out list \<times> ('bs, 'bo, 'td) node) option" where
  "relay_as_leader E now epoch r block kept p =
     do { a \<leftarrow> classify_relay E (pn_ShardID p) (pn_CurChain p) (bk_Body block);
          let block = block\<lparr>bk_Body := ra_body a\<rparr>;
          let bc = (pn_CurChain p)\<lparr>bc_Txpool := ra_pool a\<rparr>;
          let p = p\<lparr>pn_CurChain := (if kept then bc\<lparr>bc_CurrentBlock := block\<rparr> else bc)\<rparr>;
          (outs, p) \<leftarrow> relay_send E block p;
          let bim = \<lparr>bi_BlockBodyLength = length (bk_Body block), bi_InnerShardTxs = ra_inner a,
                     bi_Epoch = epoch, bi_ProposeTime = rq_ReqTime r, bi_CommitTime = now,
                     bi_SenderShardID = pn_ShardID p, bi_Relay1Txs = ra_relay1 a,
                     bi_Relay2Txs = ra_relay2 a, bi_Broker1Txs = [], bi_Broker2Txs = []\<rparr>;
          Some (outs @ [Dial (supervisor_ip p) (CBlockInfo bim),
                  metric_line block epoch p (rq_ReqTime r) now (bk_Body block) (ra_relay1 a) (ra_relay2 a)], p) }"

text \<open>The part of \<^verbatim>\<open>HandleinCommit\<close> that the three relay variants share.\<close>

definition commit_block_relay ::
    "('bs, 'bo, 'tr, 'td, 'ns, 'e) node_env_scheme \<Rightarrow> time \<Rightarrow> int \<Rightarrow> Request \<Rightarrow> ('bs, 'bo, 'td) node \<Rightarrow>
     (bool \<times> net_out list \<times> ('bs, 'bo, 'td) node) option" where
  "commit_block_relay E now epoch r p =
     do { block \<leftarrow> DecodeB E (rq_Content r);
          bc \<leftarrow> AddBlock E block (pn_CurChain p);
          let kept = AddBlock_accepts block (pn_CurChain p);
          let p = p\<lparr>pn_CurChain := bc\<rparr>;
          if is_leader p
          then map_option (Pair True) (relay_as_leader E now epoch r block kept p)
          else Some (True, [], p) }"

definition RawRelay_HandleinCommit ::
    "('bs, 'bo, 'tr, 'td, 'ns, 'e) node_env_scheme \<Rightarrow> time \<Rightarrow> Commit \<Rightarrow> ('bs, 'bo, 'td) node \<Rightarrow>
     (bool \<times> net_out list \<times> ('bs, 'bo, 'td) node) option" where
  "RawRelay_HandleinCommit E now cmsg p =
     (case pn_requestPool p (cm_Digest cmsg) of
        None \<Rightarrow> Some (False, [], p)
      | Some r \<Rightarrow> commit_block_relay E now 0 r p)"

section \<open>Moving accounts between shards\<close>

text \<open>\<^verbatim>\<open>migrationDone\<close> reports to the supervisor when the experiment is enabled; \<^verbatim>\<open>SupervisorAddr\<close> is its address in the IP table.\<close>

definition migrationDone ::
    "('bs, 'e) core_env_scheme \<Rightarrow> u64 \<Rightarrow> nat \<Rightarrow> ('bs, 'bo, 'td) node \<Rightarrow> net_out list" where
  "migrationDone E epoch cnt p =
     (if \<not> oh_Enabled (pm_Overhead (prm E)) then []
      else [Dial (supervisor_ip p) (OHMigrationDone (pn_ShardID p) (pn_NodeID p) epoch)])"

text \<open>What the three versions of \<^verbatim>\<open>accountTransfer_do\<close> do to the node.\<close>

definition account_transfer ::
    "('bs, 'bo, 'tr, 'td, 'ns, 'e) node_env_scheme \<Rightarrow> AccountTransferMsg \<Rightarrow> ('bs, 'bo, 'td) node \<Rightarrow>
     ('bs, 'bo, 'td) node option" where
  "account_transfer E atm p =
     do { let bc = foldl (\<lambda>bc (key, val). Update_PartitionMap key val bc) (pn_CurChain p) (at_ModifiedMap atm);
          bc \<leftarrow> AddAccounts E (at_Addrs atm) (at_AccountState atm) bc;
          let d = pn_cdm p;
          let mm = (if of_nat (length (dm_ModifiedMap d)) \<noteq> at_ATid atm
                    then dm_ModifiedMap d @ [at_ModifiedMap atm] else dm_ModifiedMap d);
          Some (p\<lparr>pn_CurChain := bc,
            pn_cdm := d\<lparr>dm_ModifiedMap := mm, dm_AccountTransferRound := at_ATid atm, dm_AccountStateTx := [],
              dm_ReceivedNewAccountState := [], dm_ReceivedNewTx := [], dm_PartitionOn := False,
              dm_CollectOver := False, dm_PartitionReady := []\<rparr>\<rparr>) }"

definition CLPA_accountTransfer_do ::
    "('bs, 'bo, 'tr, 'td, 'ns, 'e) node_env_scheme \<Rightarrow> AccountTransferMsg \<Rightarrow> ('bs, 'bo, 'td) node \<Rightarrow>
     (net_out list \<times> ('bs, 'bo, 'td) node) option" where
  "CLPA_accountTransfer_do E atm p =
     do { p \<leftarrow> account_transfer E atm p;
          Some (migrationDone E (at_ATid atm) (length (at_Addrs atm)) p, p) }"

definition Contrib_accountTransfer_do ::
    "('bs, 'bo, 'tr, 'td, 'ns, 'e) node_env_scheme \<Rightarrow> AccountTransferMsg \<Rightarrow> ('bs, 'bo, 'td) node \<Rightarrow>
     (net_out list \<times> ('bs, 'bo, 'td) node) option" where
  "Contrib_accountTransfer_do E atm p = do { p \<leftarrow> account_transfer E atm p; Some ([], p) }"

definition CLPABroker_accountTransfer_do ::
    "('bs, 'bo, 'tr, 'td, 'ns, 'e) node_env_scheme \<Rightarrow> AccountTransferMsg \<Rightarrow> ('bs, 'bo, 'td) node \<Rightarrow>
     (net_out list \<times> ('bs, 'bo, 'td) node) option" where
  "CLPABroker_accountTransfer_do E atm p = do { p \<leftarrow> account_transfer E atm p; Some ([], p) }"

text \<open>\<open>int(ShardNums)\<close> and \<open>int(FromShard)\<close> are the signed readings of the words.\<close>

definition sendPartitionReady :: "('bs, 'bo, 'td) node \<Rightarrow> net_out list \<times> ('bs, 'bo, 'td) node" where
  "sendPartitionReady p =
     (let pr = \<lparr>rd_FromShard = pn_ShardID p, rd_NowSeqID = pn_sequenceID p\<rparr>
      in (map (\<lambda>sid. Dial (pn_ip_nodeTable p (of_int sid) 0) (CPartitionReady pr))
            (filter (\<lambda>sid. sid \<noteq> sint (rd_FromShard pr)) [0..sint (cc_ShardNums (pn_pbftChainConfig p)) - 1]),
          p\<lparr>pn_cdm := (pn_cdm p)\<lparr>dm_PartitionReady :=
             AList.update (pn_ShardID p) True (dm_PartitionReady (pn_cdm p))\<rparr>\<rparr>))"

definition getPartitionReady :: "('bs, 'bo, 'td) node \<Rightarrow> bool" where
  "getPartitionReady p =
     (let d = pn_cdm p;
          flag = list_all (\<lambda>(sid, val). case dm_ReadySeq d sid of None \<Rightarrow> False | Some rval \<Rightarrow> rval - 1 = val)
                   (pn_seqIDMap p)
      in int (length (dm_PartitionReady d)) = sint (cc_ShardNums (pn_pbftChainConfig p)) \<and> flag)"

definition getCollectOver :: "('bs, 'bo, 'td) node \<Rightarrow> bool" where
  "getCollectOver p = dm_CollectOver (pn_cdm p)"

text \<open>The accounts that leave this shard with the newest re-partition. Indexing an empty list panics.\<close>

definition accounts_to_fetch ::
    "('bs, 'e) core_env_scheme \<Rightarrow> ('bs, 'bo, 'td) node \<Rightarrow> modified_map \<Rightarrow> address list option" where
  "accounts_to_fetch E p mm =
     foldlM (\<lambda>acc (key, val).
        if val \<noteq> pn_ShardID p then do {
          sid \<leftarrow> Get_PartitionMap E (pn_CurChain p) key;
          Some (if sid = pn_ShardID p then acc @ [key] else acc) }
        else Some acc) [] mm"

definition last_map :: "('bs, 'bo, 'td) node \<Rightarrow> modified_map option" where
  "last_map p = (if dm_ModifiedMap (pn_cdm p) = [] then None else Some (last (dm_ModifiedMap (pn_cdm p))))"

text \<open>Reading a Go map at an absent key gives zero.\<close>

definition map_get0 :: "modified_map \<Rightarrow> address \<Rightarrow> u64" where
  "map_get0 mm a = (case map_of mm a of None \<Rightarrow> 0 | Some s \<Rightarrow> s)"

text \<open>
  The two-pointer loop of \<^verbatim>\<open>sendAccounts_and_Txs\<close> over the queue: what goes with the moved accounts
  is collected, the rest is compacted to the front.
\<close>

definition tx_moves :: "address list \<Rightarrow> Transaction \<Rightarrow> bool" where
  "tx_moves addrs ptx \<longleftrightarrow> (tx_Sender ptx \<in> set addrs \<and> \<not> tx_Relayed ptx)
                        \<or> (tx_Recipient ptx \<in> set addrs \<and> tx_Relayed ptx)"

definition split_step ::
    "(Transaction \<Rightarrow> bool) \<Rightarrow> Transaction list \<times> nat \<times> Transaction list \<Rightarrow> nat \<Rightarrow> Transaction list \<times> nat \<times> Transaction list" where
  "split_step mv = (\<lambda>(q, firstPtr, txSend) secondPtr.
     let ptx = q ! secondPtr in
     if mv ptx then (q, firstPtr, txSend @ [ptx]) else (q[firstPtr := ptx], Suc firstPtr, txSend))"

definition split_queue :: "(Transaction \<Rightarrow> bool) \<Rightarrow> Transaction list \<Rightarrow> Transaction list \<times> Transaction list" where
  "split_queue mv q =
     (let (q', firstPtr, txSend) = foldl (split_step mv) (q, 0, []) [0..<length q] in (txSend, take firstPtr q'))"

definition send_accounts_shard ::
    "modified_map \<Rightarrow> (address \<times> AccountState) list \<Rightarrow> net_out list \<times> ('bs, 'bo, 'td) node \<Rightarrow> u64 \<Rightarrow>
     net_out list \<times> ('bs, 'bo, 'td) node" where
  "send_accounts_shard mm fetched = (\<lambda>(outs, p) i.
     let send = filter (\<lambda>(addr, as). map_get0 mm addr = i) fetched;
         (txSend, rest) = split_queue (tx_moves (map fst send)) (tp_TxQueue (bc_Txpool (pn_CurChain p)));
         ast = \<lparr>ax_Addrs = map fst send, ax_AccountState = map snd send, ax_Txs = txSend,
                ax_FromShard = pn_ShardID p\<rparr>
     in (outs @ [Dial (pn_ip_nodeTable p i 0) (AccountState_and_TX ast)],
         map_pool (\<lambda>pool. pool\<lparr>tp_TxQueue := rest\<rparr>) p))"

definition sendAccounts_and_Txs ::
    "('bs, 'bo, 'tr, 'td, 'ns, 'e) node_env_scheme \<Rightarrow> ('bs, 'bo, 'td) node \<Rightarrow>
     (net_out list \<times> ('bs, 'bo, 'td) node) option" where
  "sendAccounts_and_Txs E p =
     do { mm \<leftarrow> last_map p;
          accountToFetch \<leftarrow> accounts_to_fetch E p mm;
          asFetched \<leftarrow> FetchAccounts E accountToFetch (pn_CurChain p);
          Some (foldl (send_accounts_shard mm (zip accountToFetch asFetched)) ([], p) (other_shards p)) }"

text \<open>All data of the other shards are added to the sets; \<^verbatim>\<open>at.AccountState[i]\<close> may panic.\<close>

definition collect_one :: "Data_supportCLPA \<Rightarrow> u64 \<times> AccountStateAndTx \<Rightarrow> Data_supportCLPA option" where
  "collect_one d = (\<lambda>(_, at).
     do { as \<leftarrow> foldlM (\<lambda>m (i, addr). if i < length (ax_AccountState at)
                              then Some (AList.update addr (ax_AccountState at ! i) m) else None)
                  (dm_ReceivedNewAccountState d) (enumerate 0 (ax_Addrs at));
          Some (d\<lparr>dm_ReceivedNewAccountState := as, dm_ReceivedNewTx := dm_ReceivedNewTx d @ ax_Txs at\<rparr>) })"

definition collect_all :: "Data_supportCLPA \<Rightarrow> Data_supportCLPA option" where
  "collect_all d = foldlM collect_one d (dm_AccountStateTx d)"

text \<open>\<^verbatim>\<open>ModifiedMap[AccountTransferRound]\<close>, which may be out of range.\<close>

definition round_map :: "Data_supportCLPA \<Rightarrow> modified_map option" where
  "round_map d = (if unat (dm_AccountTransferRound d) < length (dm_ModifiedMap d)
                  then Some (dm_ModifiedMap d ! unat (dm_AccountTransferRound d)) else None)"

definition partition_request ::
    "('bs, 'bo, 'tr, 'td, 'ns, 'e) node_env_scheme \<Rightarrow> time \<Rightarrow> modified_map \<Rightarrow> Data_supportCLPA \<Rightarrow> Request" where
  "partition_request E now mm d =
     \<lparr>rq_RequestType = PartitionReq,
      rq_Content = Encode_AT E \<lparr>at_ModifiedMap = mm, at_Addrs = map fst (dm_ReceivedNewAccountState d),
        at_AccountState = map snd (dm_ReceivedNewAccountState d), at_ATid = of_nat (length (dm_ModifiedMap d))\<rparr>,
      rq_ReqTime = now\<rparr>"

text \<open>The shard that the new map gives to the end of a received transaction that lives here.\<close>

definition tx_belongs :: "modified_map \<Rightarrow> u64 \<Rightarrow> Transaction \<Rightarrow> bool" where
  "tx_belongs mm sid tx = (if tx_Relayed tx then map_get0 mm (tx_Recipient tx) = sid
                           else map_get0 mm (tx_Sender tx) = sid)"

definition CLPA_proposePartition ::
    "('bs, 'bo, 'tr, 'td, 'ns, 'e) node_env_scheme \<Rightarrow> time \<Rightarrow> ('bs, 'bo, 'td) node \<Rightarrow>
     ('bs, 'bo, 'td) node propose_result option" where
  "CLPA_proposePartition E now p =
     do { d \<leftarrow> collect_all (pn_cdm p);
          foldlM (\<lambda>_ tx. do { mm \<leftarrow> round_map d; if tx_belongs mm (pn_ShardID p) tx then Some () else None })
            () (dm_ReceivedNewTx d);
          let p = map_pool (AddTxs2Pool (\<lambda>_. now) (dm_ReceivedNewTx d)) (p\<lparr>pn_cdm := d\<rparr>);
          mm \<leftarrow> round_map d;
          Some (Proposed (partition_request E now mm d) [] p) }"

text \<open>This variant drops a received transaction that does not belong here instead of panicking.\<close>

definition Contrib_proposePartition ::
    "('bs, 'bo, 'tr, 'td, 'ns, 'e) node_env_scheme \<Rightarrow> time \<Rightarrow> ('bs, 'bo, 'td) node \<Rightarrow>
     ('bs, 'bo, 'td) node propose_result option" where
  "Contrib_proposePartition E now p =
     do { d \<leftarrow> collect_all (pn_cdm p);
          filtered \<leftarrow> foldlM (\<lambda>acc tx. do { mm \<leftarrow> round_map d;
              Some (if tx_belongs mm (pn_ShardID p) tx then acc @ [tx] else acc) }) [] (dm_ReceivedNewTx d);
          let p = map_pool (AddTxs2Pool (\<lambda>_. now) filtered) (p\<lparr>pn_cdm := d\<rparr>);
          mm \<leftarrow> round_map d;
          Some (Proposed (partition_request E now mm d) [] p) }"

definition CLPABroker_proposePartition ::
    "('bs, 'bo, 'tr, 'td, 'ns, 'e) node_env_scheme \<Rightarrow> time \<Rightarrow> ('bs, 'bo, 'td) node \<Rightarrow>
     ('bs, 'bo, 'td) node propose_result option" where
  "CLPABroker_proposePartition E now p =
     do { d \<leftarrow> collect_all (pn_cdm p);
          let p = map_pool (AddTxs2Pool (\<lambda>_. now) (dm_ReceivedNewTx d)) (p\<lparr>pn_cdm := d\<rparr>);
          mm \<leftarrow> round_map d;
          Some (Proposed (partition_request E now mm d) [] p) }"

text \<open>The waiting program that the three variants share.\<close>

definition propose_or_partition ::
    "('bs, 'bo, 'tr, 'td, 'ns, 'e) node_env_scheme \<Rightarrow> time \<Rightarrow>
     (('bs, 'bo, 'td) node \<Rightarrow> (net_out list \<times> ('bs, 'bo, 'td) node) option) \<Rightarrow>
     (('bs, 'bo, 'td) node \<Rightarrow> ('bs, 'bo, 'td) node propose_result option) \<Rightarrow>
     propose_pc \<Rightarrow> ('bs, 'bo, 'td) node \<Rightarrow> ('bs, 'bo, 'td) node propose_result option" where
  "propose_or_partition E now send_accounts propose_part pc p =
     (case pc of
        ProposeBegin \<Rightarrow>
          if dm_PartitionOn (pn_cdm p) then let (outs, p) = sendPartitionReady p in Some (Yield WaitReady outs p)
          else propose_block E now p
      | WaitReady \<Rightarrow>
          if \<not> getPartitionReady p then Some (Yield WaitReady [] p)
          else do { (outs, p) \<leftarrow> send_accounts p; Some (Yield WaitCollect outs p) }
      | WaitCollect \<Rightarrow>
          if \<not> getCollectOver p then Some (Yield WaitCollect [] p) else propose_part p)"

definition CLPA_HandleinPropose where
  "CLPA_HandleinPropose E now pc p =
     propose_or_partition E now (sendAccounts_and_Txs E) (CLPA_proposePartition E now) pc p"

definition Contrib_HandleinPropose where
  "Contrib_HandleinPropose E now pc p =
     propose_or_partition E now (sendAccounts_and_Txs E) (Contrib_proposePartition E now) pc p"

section \<open>Executing a committed request: variants that re-partition\<close>

text \<open>\<^verbatim>\<open>int(AccountTransferRound)\<close> is the signed reading of the round.\<close>

definition epoch_of :: "('bs, 'bo, 'td) node \<Rightarrow> int" where
  "epoch_of p = sint (dm_AccountTransferRound (pn_cdm p))"

definition CLPA_HandleinCommit ::
    "('bs, 'bo, 'tr, 'td, 'ns, 'e) node_env_scheme \<Rightarrow> time \<Rightarrow> Commit \<Rightarrow> ('bs, 'bo, 'td) node \<Rightarrow>
     (bool \<times> net_out list \<times> ('bs, 'bo, 'td) node) option" where
  "CLPA_HandleinCommit E now cmsg p =
     (case pn_requestPool p (cm_Digest cmsg) of
        None \<Rightarrow> Some (False, [], p)
      | Some r \<Rightarrow>
          if rq_RequestType r = PartitionReq then do {
            atm \<leftarrow> DecodeAccountTransferMsg E (rq_Content r);
            (outs, p) \<leftarrow> CLPA_accountTransfer_do E atm p;
            Some (True, outs, p) }
          else commit_block_relay E now (epoch_of p) r p)"

definition Contrib_HandleinCommit ::
    "('bs, 'bo, 'tr, 'td, 'ns, 'e) node_env_scheme \<Rightarrow> time \<Rightarrow> Commit \<Rightarrow> ('bs, 'bo, 'td) node \<Rightarrow>
     (bool \<times> net_out list \<times> ('bs, 'bo, 'td) node) option" where
  "Contrib_HandleinCommit E now cmsg p =
     (case pn_requestPool p (cm_Digest cmsg) of
        None \<Rightarrow> Some (False, [], p)
      | Some r \<Rightarrow>
          if rq_RequestType r = PartitionReq then do {
            atm \<leftarrow> DecodeAccountTransferMsg E (rq_Content r);
            (outs, p) \<leftarrow> Contrib_accountTransfer_do E atm p;
            Some (True, outs, p) }
          else commit_block_relay E now (epoch_of p) r p)"

section \<open>Executing a committed block: broker variants\<close>

definition seq_infos :: "('bs, 'bo, 'td) node \<Rightarrow> net_out list" where
  "seq_infos p = map (\<lambda>sid. Dial (pn_ip_nodeTable p sid 0)
     (CSeqIDinfo \<lparr>si_SenderShardID = pn_ShardID p, si_SenderSeq = pn_sequenceID p\<rparr>)) (other_shards p)"

definition broker_report ::
    "time \<Rightarrow> int \<Rightarrow> Request \<Rightarrow> 'bs Block \<Rightarrow> Transaction list \<times> Transaction list \<times> Transaction list \<Rightarrow>
     ('bs, 'bo, 'td) node \<Rightarrow> net_out list" where
  "broker_report now epoch r block = (\<lambda>(innerShardTxs, broker1Txs, broker2Txs) p.
     seq_infos p @
     [Dial (supervisor_ip p) (CBlockInfo \<lparr>bi_BlockBodyLength = length (bk_Body block),
        bi_InnerShardTxs = innerShardTxs, bi_Epoch = epoch, bi_ProposeTime = rq_ReqTime r,
        bi_CommitTime = now, bi_SenderShardID = pn_ShardID p, bi_Relay1Txs = [], bi_Relay2Txs = [],
        bi_Broker1Txs = broker1Txs, bi_Broker2Txs = broker2Txs\<rparr>),
      metric_line block epoch p (rq_ReqTime r) now (bk_Body block) broker1Txs broker2Txs])"

definition classify_broker_tx ::
    "Transaction list \<times> Transaction list \<times> Transaction list \<Rightarrow> Transaction \<Rightarrow>
     Transaction list \<times> Transaction list \<times> Transaction list" where
  "classify_broker_tx = (\<lambda>(inner, b1, b2) tx.
     let isInnerShardTx = (tx_RawTxHash tx = []);
         isBroker1Tx = (\<not> isInnerShardTx \<and> tx_Sender tx = tx_OriginalSender tx);
         isBroker2Tx = (\<not> isInnerShardTx \<and> tx_Recipient tx = tx_FinalRecipient tx)
     in if isBroker2Tx then (inner, b1, b2 @ [tx])
        else if isBroker1Tx then (inner, b1 @ [tx], b2)
        else (inner @ [tx], b1, b2))"

definition Broker_HandleinCommit ::
    "('bs, 'bo, 'tr, 'td, 'ns, 'e) node_env_scheme \<Rightarrow> time \<Rightarrow> Commit \<Rightarrow> ('bs, 'bo, 'td) node \<Rightarrow>
     (bool \<times> net_out list \<times> ('bs, 'bo, 'td) node) option" where
  "Broker_HandleinCommit E now cmsg p =
     do { r \<leftarrow> pn_requestPool p (cm_Digest cmsg);
          block \<leftarrow> DecodeB E (rq_Content r);
          bc \<leftarrow> AddBlock E block (pn_CurChain p);
          let p = p\<lparr>pn_CurChain := bc\<rparr>;
          Some (True, if is_leader p
                      then broker_report now 0 r block (foldl classify_broker_tx ([], [], []) (bk_Body block)) p
                      else [], p) }"

text \<open>This variant panics on a transaction that does not belong in the block.\<close>

definition clpabroker_tx_ok :: "u64 \<Rightarrow> u64 \<Rightarrow> u64 \<Rightarrow> Transaction \<Rightarrow> bool" where
  "clpabroker_tx_ok ShardID ssid rsid tx =
     (let isBroker1Tx = (tx_Sender tx = tx_OriginalSender tx);
          isBroker2Tx = (tx_Recipient tx = tx_FinalRecipient tx);
          senderIsInshard = (ssid = ShardID); recipientIsInshard = (rsid = ShardID)
      in \<not> (isBroker1Tx \<and> \<not> senderIsInshard) \<and> \<not> (isBroker2Tx \<and> \<not> recipientIsInshard) \<and>
         (tx_RawTxHash tx = [] \<longrightarrow>
            (if tx_HasBroker tx
             then \<not> (tx_SenderIsBroker tx \<and> \<not> recipientIsInshard) \<and> \<not> (\<not> tx_SenderIsBroker tx \<and> \<not> senderIsInshard)
             else senderIsInshard \<and> recipientIsInshard)))"

definition classify_clpabroker_tx ::
    "('bs, 'e) core_env_scheme \<Rightarrow> u64 \<Rightarrow> ('bs, 'bo, 'td) BlockChain \<Rightarrow>
     Transaction list \<times> Transaction list \<times> Transaction list \<Rightarrow> Transaction \<Rightarrow>
     (Transaction list \<times> Transaction list \<times> Transaction list) option" where
  "classify_clpabroker_tx E ShardID bc = (\<lambda>(inner, b1, b2) tx.
     do { ssid \<leftarrow> Get_PartitionMap E bc (tx_Sender tx);
          rsid \<leftarrow> Get_PartitionMap E bc (tx_Recipient tx);
          if \<not> clpabroker_tx_ok ShardID ssid rsid tx then None
          else if tx_Recipient tx = tx_FinalRecipient tx then Some (inner, b1, b2 @ [tx])
          else if tx_Sender tx = tx_OriginalSender tx then Some (inner, b1 @ [tx], b2)
          else Some (inner @ [tx], b1, b2) })"

definition CLPABroker_HandleinCommit ::
    "('bs, 'bo, 'tr, 'td, 'ns, 'e) node_env_scheme \<Rightarrow> time \<Rightarrow> Commit \<Rightarrow> ('bs, 'bo, 'td) node \<Rightarrow>
     (bool \<times> net_out list \<times> ('bs, 'bo, 'td) node) option" where
  "CLPABroker_HandleinCommit E now cmsg p =
     do { r \<leftarrow> pn_requestPool p (cm_Digest cmsg);
          if rq_RequestType r = PartitionReq then do {
            atm \<leftarrow> DecodeAccountTransferMsg E (rq_Content r);
            (outs, p) \<leftarrow> CLPABroker_accountTransfer_do E atm p;
            Some (True, outs, p) }
          else do {
            block \<leftarrow> DecodeB E (rq_Content r);
            bc \<leftarrow> AddBlock E block (pn_CurChain p);
            let p = p\<lparr>pn_CurChain := bc\<rparr>;
            if is_leader p then do {
              cls \<leftarrow> foldlM (classify_clpabroker_tx E (pn_ShardID p) bc) ([], [], []) (bk_Body block);
              Some (True, broker_report now (epoch_of p) r block cls p, p) }
            else Some (True, [], p) } }"

section \<open>Moving accounts: the broker variant\<close>

text \<open>
  Whether a queued transaction is sent with the moved accounts, and whether it leaves the queue.
  A plain inner-shard transaction that touches a moved account leaves the queue for the
  supervisor, which makes it a cross-shard transaction.
\<close>

definition broker_moves :: "address list \<Rightarrow> Transaction \<Rightarrow> bool \<times> bool \<times> bool" where
  "broker_moves addrs ptx =
     (let ok1 = tx_Sender ptx \<in> set addrs; ok2 = tx_Recipient ptx \<in> set addrs in
      if tx_RawTxHash ptx = [] then
        if tx_HasBroker ptx then
          if tx_SenderIsBroker ptx then (ok2, ok2, False) else (ok1, ok1, False)
        else if ok1 \<or> ok2 then (False, True, True)
        else (False, False, False)
      else if tx_FinalRecipient ptx = tx_Recipient ptx then (ok2, ok2, False)
      else if tx_OriginalSender ptx = tx_Sender ptx then (ok1, ok1, False)
      else (False, False, False))"

definition broker_split_step ::
    "address list \<Rightarrow> Transaction list \<times> nat \<times> Transaction list \<times> Transaction list \<Rightarrow> nat \<Rightarrow>
     Transaction list \<times> nat \<times> Transaction list \<times> Transaction list" where
  "broker_split_step addrs = (\<lambda>(q, firstPtr, txSend, txsBeCross) secondPtr.
     let ptx = q ! secondPtr;
         (beSend, beRemoved, beCross) = broker_moves addrs ptx;
         txsBeCross = (if beCross then txsBeCross @ [ptx] else txsBeCross);
         txSend = (if beSend then txSend @ [ptx] else txSend)
     in if \<not> beRemoved then (q[firstPtr := q ! secondPtr], Suc firstPtr, txSend, txsBeCross)
        else (q, firstPtr, txSend, txsBeCross))"

definition broker_send_shard ::
    "modified_map \<Rightarrow> (address \<times> AccountState) list \<Rightarrow> net_out list \<times> Transaction list \<times> ('bs, 'bo, 'td) node \<Rightarrow> u64 \<Rightarrow>
     net_out list \<times> Transaction list \<times> ('bs, 'bo, 'td) node" where
  "broker_send_shard mm fetched = (\<lambda>(outs, txsBeCross, p) i.
     let send = filter (\<lambda>(addr, as). map_get0 mm addr = i) fetched;
         q = tp_TxQueue (bc_Txpool (pn_CurChain p));
         (q', firstPtr, txSend, txsBeCross) =
           foldl (broker_split_step (map fst send)) (q, 0, [], txsBeCross) [0..<length q];
         ast = \<lparr>ax_Addrs = map fst send, ax_AccountState = map snd send, ax_Txs = txSend,
                ax_FromShard = pn_ShardID p\<rparr>
     in (outs @ [Dial (pn_ip_nodeTable p i 0) (CAccountTransferMsg_broker ast)], txsBeCross,
         map_pool (\<lambda>pool. pool\<lparr>tp_TxQueue := take firstPtr q'\<rparr>) p))"

definition CLPABroker_sendAccounts_and_Txs ::
    "('bs, 'bo, 'tr, 'td, 'ns, 'e) node_env_scheme \<Rightarrow> ('bs, 'bo, 'td) node \<Rightarrow>
     (net_out list \<times> ('bs, 'bo, 'td) node) option" where
  "CLPABroker_sendAccounts_and_Txs E p =
     do { mm \<leftarrow> last_map p;
          accountToFetch \<leftarrow> accounts_to_fetch E p mm;
          asFetched \<leftarrow> FetchAccounts E accountToFetch (pn_CurChain p);
          let (outs, txsBeCross, p) =
            foldl (broker_send_shard mm (zip accountToFetch asFetched)) ([], [], p) (other_shards p);
          Some (outs @ [Dial (supervisor_ip p) (CInner2CrossTx txsBeCross)], p) }"

definition CLPABroker_HandleinPropose where
  "CLPABroker_HandleinPropose E now pc p =
     propose_or_partition E now (CLPABroker_sendAccounts_and_Txs E) (CLPABroker_proposePartition E now) pc p"

section \<open>Catching up\<close>

text \<open>
  The loop over the heights of a \<^verbatim>\<open>SendOldMessage\<close>. Indexing past the received requests panics;
  so does the height that wraps around after the largest one.
\<close>

definition old_requests_loop ::
    "(Request \<Rightarrow> 's \<Rightarrow> 's option) \<Rightarrow> SendOldMessage \<Rightarrow> 's \<Rightarrow> 's option" where
  "old_requests_loop body som s =
     (if so_SeqStartHeight som \<le> so_SeqEndHeight som then do {
        s \<leftarrow> foldlM (\<lambda>s i. if i < length (so_OldRequest som) then body (so_OldRequest som ! i) s else None)
               s [0..<unat (so_SeqEndHeight som - so_SeqStartHeight som) + 1];
        if so_SeqEndHeight som = - 1 then None else Some s }
      else Some s)"

definition add_old_block ::
    "('bs, 'bo, 'tr, 'td, 'ns, 'e) node_env_scheme \<Rightarrow> Request \<Rightarrow> ('bs, 'bo, 'td) node \<Rightarrow> ('bs, 'bo, 'td) node option" where
  "add_old_block E r p =
     do { b \<leftarrow> DecodeB E (rq_Content r); bc \<leftarrow> AddBlock E b (pn_CurChain p); Some (p\<lparr>pn_CurChain := bc\<rparr>) }"

definition old_request_blocks ::
    "('bs, 'bo, 'tr, 'td, 'ns, 'e) node_env_scheme \<Rightarrow> Request \<Rightarrow> net_out list \<times> ('bs, 'bo, 'td) node \<Rightarrow>
     (net_out list \<times> ('bs, 'bo, 'td) node) option" where
  "old_request_blocks E r = (\<lambda>(outs, p).
     if rq_RequestType r = BlockRequest then map_option (Pair outs) (add_old_block E r p) else Some (outs, p))"

definition old_request_both ::
    "(AccountTransferMsg \<Rightarrow> ('bs, 'bo, 'td) node \<Rightarrow> (net_out list \<times> ('bs, 'bo, 'td) node) option) \<Rightarrow>
     ('bs, 'bo, 'tr, 'td, 'ns, 'e) node_env_scheme \<Rightarrow> Request \<Rightarrow> net_out list \<times> ('bs, 'bo, 'td) node \<Rightarrow>
     (net_out list \<times> ('bs, 'bo, 'td) node) option" where
  "old_request_both transfer E r = (\<lambda>(outs, p).
     if rq_RequestType r = BlockRequest then map_option (Pair outs) (add_old_block E r p)
     else do { atm \<leftarrow> DecodeAccountTransferMsg E (rq_Content r);
               (outs', p) \<leftarrow> transfer atm p; Some (outs @ outs', p) })"

definition sequential_requests ::
    "(Request \<Rightarrow> net_out list \<times> ('bs, 'bo, 'td) node \<Rightarrow> (net_out list \<times> ('bs, 'bo, 'td) node) option) \<Rightarrow>
     int \<Rightarrow> SendOldMessage \<Rightarrow> ('bs, 'bo, 'td) node \<Rightarrow> (bool \<times> net_out list \<times> ('bs, 'bo, 'td) node) option" where
  "sequential_requests body expected som p =
     (if expected \<noteq> int (length (so_OldRequest som)) then Some (True, [], p)
      else do {
        (outs, p) \<leftarrow> old_requests_loop body som ([], p);
        Some (True, outs, p\<lparr>pn_sequenceID := so_SeqEndHeight som + 1\<rparr>) })"

definition RawRelay_HandleforSequentialRequest where
  "RawRelay_HandleforSequentialRequest E som p =
     sequential_requests (old_request_blocks E)
       (sint (so_SeqEndHeight som - so_SeqStartHeight som + 1)) som p"

definition CLPA_HandleforSequentialRequest where
  "CLPA_HandleforSequentialRequest E som p =
     sequential_requests (old_request_both (CLPA_accountTransfer_do E) E)
       (sint (so_SeqEndHeight som - so_SeqStartHeight som + 1)) som p"

definition Contrib_HandleforSequentialRequest where
  "Contrib_HandleforSequentialRequest E som p =
     sequential_requests (old_request_both (Contrib_accountTransfer_do E) E)
       (sint (so_SeqEndHeight som - so_SeqStartHeight som + 1)) som p"

text \<open>The broker variant subtracts the other way round.\<close>

definition Broker_HandleforSequentialRequest where
  "Broker_HandleforSequentialRequest E som p =
     sequential_requests (old_request_blocks E)
       (sint (so_SeqStartHeight som - so_SeqEndHeight som)) som p"

definition CLPABroker_HandleforSequentialRequest where
  "CLPABroker_HandleforSequentialRequest E som p =
     sequential_requests (old_request_both (CLPABroker_accountTransfer_do E) E)
       (sint (so_SeqEndHeight som - so_SeqStartHeight som + 1)) som p"

end
