(* ===== verification/Model_Node.thy ===== *)
theory Model_Node
  imports Pbft_Modules
begin

text \<open>
  The concrete environment of \<open>Model_Env\<close> extended to the calls of a consensus node, and a
  concrete node, for the witnesses.
\<close>

definition Request_codec :: "Request codec" where
  "Request_codec = iso_codec (\<lambda>r. (rq_RequestType r, rq_Content r, rq_ReqTime r))
     (\<lambda>(a, b, c). \<lparr>rq_RequestType = a, rq_Content = b, rq_ReqTime = c\<rparr>)
     (pair_codec bytes_codec (pair_codec bytes_codec int_codec))"

definition AT_codec :: "AccountTransferMsg codec" where
  "AT_codec = iso_codec (\<lambda>a. (at_ModifiedMap a, at_Addrs a, at_AccountState a, at_ATid a))
     (\<lambda>(a, b, c, d). \<lparr>at_ModifiedMap = a, at_Addrs = b, at_AccountState = c, at_ATid = d\<rparr>)
     (pair_codec (list_codec (pair_codec bytes_codec u64_codec))
       (pair_codec (list_codec bytes_codec) (pair_codec (list_codec AS_codec) u64_codec)))"

lemma good_node_structs [good_codecs]: "good_codec Request_codec" "good_codec AT_codec"
proof -
  show "good_codec Request_codec"
    unfolding Request_codec_def by (rule good_iso) (auto intro!: good_codecs)
  show "good_codec AT_codec"
    unfolding AT_codec_def by (rule good_iso) (auto intro!: good_codecs)
qed

definition demo_nenv :: "(nat list, (bytes list \<times> ((bytes \<times> bytes) \<times> bytes) list), alist_trie,
    (bytes \<times> alist_trie) list, bytes \<times> alist_trie) node_env" where
  "demo_nenv = chain_env.extend demo_env
     (node_env.fields (tag_enc Request_codec) (tag_enc AT_codec) (tag_dec AT_codec))"

text \<open>The laws speak about the fields of the smaller environments only.\<close>

lemma laws_extend:
  "core_laws (chain_env.extend E X) \<longleftrightarrow> core_laws E"
  "store_laws (chain_env.extend E X) \<longleftrightarrow> store_laws E"
  by (simp_all add: core_laws_def store_laws_def chain_env.defs)

lemma laws_prm: "core_laws (E\<lparr>prm := P\<rparr>) \<longleftrightarrow> core_laws E"
  by (simp add: core_laws_def)

lemma demo_nenv_core: "core_laws demo_nenv"
  unfolding demo_nenv_def laws_extend by (rule demo_core_laws)

definition demo_ips :: "u64 \<Rightarrow> u64 \<Rightarrow> bytes" where
  "demo_ips s n = ''s'' @ dec_digits (unat s) @ ''n'' @ dec_digits (unat n)"

text \<open>Node \<open>i\<close> of shard 0 on the chain of the chain witnesses.\<close>

definition demo_node :: "u64 \<Rightarrow> (nat list, bytes list \<times> ((bytes \<times> bytes) \<times> bytes) list,
    (bytes \<times> alist_trie) list) node" where
  "demo_node i = NewPbftNode demo_nenv demo_ips 0 0 i (demo_cc 0) (demo_chain 0 [demo_tx ''c0''])"

end
