(* ===== verification/Pbft_Overhead.thy ===== *)
theory Pbft_Overhead
  imports Model_Node
begin

text \<open>
  The lightweight proposals of \<^verbatim>\<open>pbft_all/overhead.go\<close>: transaction bodies are streamed to the
  replicas ahead of time and kept under their hash; a proposal then carries only the header and
  the hashes, and a replica rebuilds the block, asking the leader for the bodies it lacks. A nil
  \<^verbatim>\<open>overhead\<close> pointer panics when used. \<open>Waits\<close> means that the goroutine blocks and tries again.
\<close>

datatype 'a wait = Ready 'a | Waits

definition hex_chars :: bytes where "hex_chars = ''0123456789abcdef''"

definition hex_EncodeToString :: "bytes \<Rightarrow> bytes" where
  "hex_EncodeToString b =
     concat (map (\<lambda>c. let n = of_char c in [hex_chars ! (n div 16), hex_chars ! (n mod 16)]) b)"

definition bodyKey :: "('bs, 'e) core_env_scheme \<Rightarrow> bytes \<Rightarrow> bytes" where
  "bodyKey E b = hex_EncodeToString (sha256_Sum256 E b)"

definition cacheBodies ::
    "('bs, 'e) core_env_scheme \<Rightarrow> bytes list \<Rightarrow> ('bs, 'bo, 'td) node \<Rightarrow> ('bs, 'bo, 'td) node option" where
  "cacheBodies E bodies p =
     do { ov \<leftarrow> pn_overhead p;
          Some (p\<lparr>pn_overhead := Some (ov\<lparr>ov_bodies := foldl (\<lambda>m b. m(bodyKey E b \<mapsto> b)) (ov_bodies ov) bodies\<rparr>)\<rparr>) }"

text \<open>The stream channel has room for 128 batches; a full channel makes the sender wait.\<close>

definition streamTransactions ::
    "('bs, 'e) core_env_scheme \<Rightarrow> Transaction list \<Rightarrow> ('bs, 'bo, 'td) node \<Rightarrow> ('bs, 'bo, 'td) node wait option" where
  "streamTransactions E txs p =
     (if \<not> oh_Enabled (pm_Overhead (prm E)) \<or> \<not> oh_Lightweight (pm_Overhead (prm E)) \<or> txs = []
      then Some (Ready p)
      else do {
        let bodies = map (Tx_Encode E) txs;
        p \<leftarrow> cacheBodies E bodies p;
        ov \<leftarrow> pn_overhead p;
        if length (ov_stream ov) \<ge> 128 then Some Waits
        else Some (Ready (p\<lparr>pn_overhead := Some (ov\<lparr>ov_stream := ov_stream ov @ [bodies]\<rparr>)\<rparr>)) })"

text \<open>One turn of the goroutine that \<^verbatim>\<open>initOverhead\<close> starts: it takes a batch and sends it on.\<close>

definition stream_worker ::
    "('bs, 'e) core_env_scheme \<Rightarrow> ('bs, 'bo, 'td) node \<Rightarrow> (net_out list \<times> ('bs, 'bo, 'td) node) wait option" where
  "stream_worker E p =
     do { ov \<leftarrow> pn_overhead p;
          case ov_stream ov of
            [] \<Rightarrow> Some Waits
          | bodies # rest \<Rightarrow>
              Some (Ready (map (\<lambda>n. Dial (pn_ip_nodeTable p (pn_ShardID p) n) (OHStream bodies))
                  (filter (\<lambda>n. \<not> (n = pn_NodeID p \<or> sint n = oh_StreamSkipNode (pm_Overhead (prm E))))
                     (u64_range (pn_node_nums p))),
                p\<lparr>pn_overhead := Some (ov\<lparr>ov_stream := rest\<rparr>)\<rparr>)) }"

definition mark_partition ::
    "('bs, 'e) core_env_scheme \<Rightarrow> PrePrepare \<Rightarrow> net_out list" where
  "mark_partition E pp =
     (if oh_Enabled (pm_Overhead (prm E)) \<and> rq_RequestType (pp_RequestMsg pp) = PartitionReq
      then [MarkDigest (pp_Digest pp)] else [])"

definition encodeProposal ::
    "('bs, 'bo, 'tr, 'td, 'ns, 'e) node_env_scheme \<Rightarrow> PrePrepare \<Rightarrow> ('bs, 'bo, 'td) node \<Rightarrow>
     (net_out list \<times> net_msg \<times> ('bs, 'bo, 'td) node) option" where
  "encodeProposal E pp p =
     (if oh_Enabled (pm_Overhead (prm E)) \<and> oh_Lightweight (pm_Overhead (prm E))
         \<and> rq_RequestType (pp_RequestMsg pp) = BlockRequest
      then do {
        block \<leftarrow> DecodeB E (rq_Content (pp_RequestMsg pp));
        let bodies = map (Tx_Encode E) (bk_Body block);
        p' \<leftarrow> cacheBodies E bodies p;
        Some (mark_partition E pp,
          OHCompact \<lparr>cp_Proposal = pp\<lparr>pp_RequestMsg := (pp_RequestMsg pp)\<lparr>rq_Content := []\<rparr>\<rparr>,
                     cp_Header = BH_Encode E (bk_Header block), cp_Hash = bk_Hash block,
                     cp_Keys = map (bodyKey E) bodies, cp_Leader = nd_IPaddr (pn_RunningNode p)\<rparr>, p') }
      else Some (mark_partition E pp, CPrePrepare pp, p))"

text \<open>The answer to a request for missing bodies; a body the leader does not have panics.\<close>

definition answerMissing ::
    "missingBodies \<Rightarrow> ('bs, 'bo, 'td) node \<Rightarrow> net_out list option" where
  "answerMissing req p =
     do { ov \<leftarrow> pn_overhead p;
          bodies \<leftarrow> those (map (ov_bodies ov) (mb_Keys req));
          Some [Dial (mb_Reply req) (OHBodies bodies)] }"

text \<open>
  \<^verbatim>\<open>handleCompactProposal\<close>: first the missing bodies are asked for, then the body is put together
  key by key, waiting for each until the deadline (\<open>late\<close>: it has passed), and the digest is
  compared. The rebuilt message goes to \<^verbatim>\<open>handlePrePrepare\<close>.
\<close>

definition compact_ask ::
    "compactProposal \<Rightarrow> ('bs, 'bo, 'td) node \<Rightarrow> net_out list option" where
  "compact_ask cp p =
     do { ov \<leftarrow> pn_overhead p;
          let missing = filter (\<lambda>k. ov_bodies ov k = None) (cp_Keys cp);
          Some (if length missing > 0
                then [Dial (cp_Leader cp) (OHMissing \<lparr>mb_Keys = missing, mb_Reply = nd_IPaddr (pn_RunningNode p)\<rparr>)]
                else []) }"

definition compact_rebuild ::
    "('bs, 'bo, 'tr, 'td, 'ns, 'e) node_env_scheme \<Rightarrow> bool \<Rightarrow> compactProposal \<Rightarrow> ('bs, 'bo, 'td) node \<Rightarrow>
     PrePrepare wait option" where
  "compact_rebuild E late cp p =
     do { ov \<leftarrow> pn_overhead p;
          case those (map (ov_bodies ov) (cp_Keys cp)) of
            None \<Rightarrow> if late then None else Some Waits
          | Some encoded \<Rightarrow> do {
              body \<leftarrow> those (map (DecodeTx E) encoded);
              bh \<leftarrow> DecodeBH E (cp_Header cp);
              let block = (NewBlock bh body)\<lparr>bk_Hash := cp_Hash cp\<rparr>;
              let r = (pp_RequestMsg (cp_Proposal cp))\<lparr>rq_Content := B_Encode E block\<rparr>;
              if getDigest E r \<noteq> pp_Digest (cp_Proposal cp) then None
              else Some (Ready ((cp_Proposal cp)\<lparr>pp_RequestMsg := r\<rparr>)) } }"

section \<open>A compact proposal carries the whole proposal\<close>

lemma cache_lookup:
  assumes "inj_on (bodyKey E) (set bodies)" "b \<in> set bodies"
  shows "foldl (\<lambda>m b. m(bodyKey E b \<mapsto> b)) m0 bodies (bodyKey E b) = Some b"
  using assms
proof (induction bodies arbitrary: m0 rule: rev_induct)
  case Nil
  then show ?case by simp
next
  case (snoc x xs)
  show ?case
  proof (cases "bodyKey E b = bodyKey E x")
    case True
    with snoc.prems have "b = x" unfolding inj_on_def by auto
    then show ?thesis by simp
  next
    case False
    with snoc show ?thesis by (auto simp: inj_on_def)
  qed
qed

lemma those_map_eq_Some: "those (map f xs) = Some ys \<longleftrightarrow> map f xs = map Some ys"
proof (induction xs arbitrary: ys)
  case Nil
  then show ?case by auto
next
  case (Cons x xs)
  then show ?case by (cases ys; cases "f x") (auto split: option.splits)
qed

lemma compact_rebuild_ok:
  assumes "core_laws E" "pn_overhead p = Some ov" "DecodeB E (rq_Content (pp_RequestMsg pp)) = Some block"
    and "rq_Content (pp_RequestMsg pp) = B_Encode E block" "pp_Digest pp = getDigest E (pp_RequestMsg pp)"
    and cp: "cp = \<lparr>cp_Proposal = pp\<lparr>pp_RequestMsg := (pp_RequestMsg pp)\<lparr>rq_Content := []\<rparr>\<rparr>,
                     cp_Header = BH_Encode E (bk_Header block), cp_Hash = bk_Hash block,
                     cp_Keys = map (bodyKey E) (map (Tx_Encode E) (bk_Body block)), cp_Leader = ip\<rparr>"
    and have_bodies: "\<forall>b \<in> set (map (Tx_Encode E) (bk_Body block)). ov_bodies ov (bodyKey E b) = Some b"
  shows "compact_rebuild E late cp p = Some (Ready pp)"
proof -
  have "those (map (ov_bodies ov) (cp_Keys cp)) = Some (map (Tx_Encode E) (bk_Body block))"
    unfolding those_map_eq_Some using have_bodies by (simp add: cp)
  moreover have "those (map (DecodeTx E) (map (Tx_Encode E) (bk_Body block))) = Some (bk_Body block)"
    unfolding those_map_eq_Some by (simp add: decode_encode[OF assms(1)])
  moreover have "(NewBlock (bk_Header block) (bk_Body block))\<lparr>bk_Hash := bk_Hash block\<rparr> = block"
    by (simp add: NewBlock_def)
  moreover have "(pp_RequestMsg pp)\<lparr>rq_Content := B_Encode E block\<rparr> = pp_RequestMsg pp"
    using assms(4) by (metis Request.surjective Request.update_convs(2) Request.select_convs(2))
  ultimately show ?thesis
    using assms(2,5) decode_encode(3)[OF assms(1)]
    by (simp add: compact_rebuild_def cp Let_def)
qed

lemma cache_other:
  "k \<notin> bodyKey E ` set bodies \<Longrightarrow> foldl (\<lambda>m b. m(bodyKey E b \<mapsto> b)) m0 bodies k = m0 k"
  by (induction bodies arbitrary: m0) auto


definition demo_light :: "(nat list, (bytes list \<times> ((bytes \<times> bytes) \<times> bytes) list), alist_trie,
    (bytes \<times> alist_trie) list, bytes \<times> alist_trie) node_env" where
  "demo_light = demo_nenv\<lparr>prm := demo_params\<lparr>pm_Overhead := \<lparr>oh_Enabled = True, oh_Lightweight = True,
     oh_Migration = False, oh_MigrationAfterSeconds = 0, oh_MigrationAccounts = 0, oh_TimeoutSeconds = 10,
     oh_StreamSkipNode = 2\<rparr>\<rparr>\<rparr>"

lemma demo_light_core: "core_laws demo_light"
  unfolding demo_light_def laws_prm by (rule demo_nenv_core)

definition demo_request :: Request where
  "demo_request = \<lparr>rq_RequestType = BlockRequest, rq_Content = B_Encode demo_light demo_block, rq_ReqTime = 9\<rparr>"

definition demo_pp :: PrePrepare where
  "demo_pp = \<lparr>pp_RequestMsg = demo_request, pp_Digest = getDigest demo_light demo_request, pp_SeqID = 1\<rparr>"


end
