(* ===== verification/Pbft_Outside.thy ===== *)
theory Pbft_Outside
  imports Pbft_Overhead
begin

text \<open>
  The handlers of messages from other shards and from the supervisor
  (\<^verbatim>\<open>OpInterShards.HandleMessageOutsidePBFT\<close>, the \<^verbatim>\<open>pbftOutside\<close> files), one group per variant.
\<close>

definition add_to_pool ::
    "time \<Rightarrow> Transaction list \<Rightarrow> ('bs, 'bo, 'td) node \<Rightarrow> ('bs, 'bo, 'td) node" where
  "add_to_pool now txs p = map_pool (AddTxs2Pool (\<lambda>_. now) txs) p"

definition set_seq :: "u64 \<Rightarrow> u64 \<Rightarrow> ('bs, 'bo, 'td) node \<Rightarrow> ('bs, 'bo, 'td) node" where
  "set_seq shard seq p = p\<lparr>pn_seqIDMap := AList.update shard seq (pn_seqIDMap p)\<rparr>"

text \<open>The proof loop stops at the first proof that fails; a missing proof panics.\<close>

fun proofs_ok ::
    "('bs, 'bo, 'tr, 'td, 'ns, 'e) chain_env_scheme \<Rightarrow> Transaction list \<Rightarrow> TxProofResult list \<Rightarrow> bool option" where
  "proofs_ok E [] prfs = Some True"
| "proofs_ok E (tx # txs) [] = None"
| "proofs_ok E (tx # txs) (prf # prfs) =
     do { (ok, _) \<leftarrow> TxProofVerify E (tx_TxHash tx) prf; if \<not> ok then Some False else proofs_ok E txs prfs }"

section \<open>Plain relay\<close>

definition RawRelay_handleRelay :: "time \<Rightarrow> Relay \<Rightarrow> ('bs, 'bo, 'td) node \<Rightarrow> ('bs, 'bo, 'td) node" where
  "RawRelay_handleRelay now relay p =
     set_seq (rl_SenderShardID relay) (rl_SenderSeq relay) (add_to_pool now (rl_Txs relay) p)"

definition RawRelay_handleRelayWithProof ::
    "('bs, 'bo, 'tr, 'td, 'ns, 'e) chain_env_scheme \<Rightarrow> time \<Rightarrow> RelayWithProof \<Rightarrow> ('bs, 'bo, 'td) node \<Rightarrow>
     ('bs, 'bo, 'td) node option" where
  "RawRelay_handleRelayWithProof E now rwp p =
     do { isAllCorrect \<leftarrow> proofs_ok E (rp_Txs rwp) (rp_TxProofs rwp);
          let p = (if isAllCorrect then add_to_pool now (rp_Txs rwp) p else p);
          Some (set_seq (rp_SenderShardID rwp) (rp_SenderSeq rwp) p) }"

definition RawRelay_handleInjectTx :: "time \<Rightarrow> InjectTxs \<Rightarrow> ('bs, 'bo, 'td) node \<Rightarrow> ('bs, 'bo, 'td) node" where
  "RawRelay_handleInjectTx now it p = add_to_pool now (ij_Txs it) p"

definition RawRelay_HandleMessageOutsidePBFT ::
    "('bs, 'bo, 'tr, 'td, 'ns, 'e) chain_env_scheme \<Rightarrow> time \<Rightarrow> net_msg \<Rightarrow> ('bs, 'bo, 'td) node \<Rightarrow>
     (bool \<times> ('bs, 'bo, 'td) node) wait option" where
  "RawRelay_HandleMessageOutsidePBFT E now msg p =
     (case msg of
        CRelay relay \<Rightarrow> Some (Ready (True, RawRelay_handleRelay now relay p))
      | CRelayWithProof rwp \<Rightarrow> do { p \<leftarrow> RawRelay_handleRelayWithProof E now rwp p; Some (Ready (True, p)) }
      | CInject it \<Rightarrow> Some (Ready (True, RawRelay_handleInjectTx now it p))
      | _ \<Rightarrow> Some (Ready (True, p)))"

section \<open>CLPA\<close>

text \<open>Received transactions are streamed to the replicas before they enter the pool.\<close>

definition stream_then ::
    "('bs, 'e) core_env_scheme \<Rightarrow> Transaction list \<Rightarrow> (('bs, 'bo, 'td) node \<Rightarrow> ('bs, 'bo, 'td) node) \<Rightarrow>
     ('bs, 'bo, 'td) node \<Rightarrow> ('bs, 'bo, 'td) node wait option" where
  "stream_then E txs f p =
     do { w \<leftarrow> streamTransactions E txs p; case w of Waits \<Rightarrow> Some Waits | Ready p \<Rightarrow> Some (Ready (f p)) }"

definition CLPA_handleRelay where
  "CLPA_handleRelay E now relay p =
     stream_then E (rl_Txs relay)
       (\<lambda>p. set_seq (rl_SenderShardID relay) (rl_SenderSeq relay) (add_to_pool now (rl_Txs relay) p)) p"

definition CLPA_handleRelayWithProof ::
    "('bs, 'bo, 'tr, 'td, 'ns, 'e) chain_env_scheme \<Rightarrow> time \<Rightarrow> RelayWithProof \<Rightarrow> ('bs, 'bo, 'td) node \<Rightarrow>
     ('bs, 'bo, 'td) node option" where
  "CLPA_handleRelayWithProof E now rwp p =
     do { isAllCorrect \<leftarrow> proofs_ok E (rp_Txs rwp) (rp_TxProofs rwp);
          let p = (if isAllCorrect then add_to_pool now (rp_Txs rwp) p else p);
          Some (set_seq (rp_SenderShardID rwp) (rp_SenderSeq rwp) p) }"

definition CLPA_handleInjectTx where
  "CLPA_handleInjectTx E now it p = stream_then E (ij_Txs it) (add_to_pool now (ij_Txs it)) p"

definition handlePartitionMsg :: "modified_map \<Rightarrow> ('bs, 'bo, 'td) node \<Rightarrow> ('bs, 'bo, 'td) node" where
  "handlePartitionMsg pm p =
     p\<lparr>pn_cdm := (pn_cdm p)\<lparr>dm_ModifiedMap := dm_ModifiedMap (pn_cdm p) @ [pm], dm_PartitionOn := True\<rparr>\<rparr>"

definition handlePartitionReady :: "PartitionReady \<Rightarrow> ('bs, 'bo, 'td) node \<Rightarrow> ('bs, 'bo, 'td) node" where
  "handlePartitionReady pr p =
     p\<lparr>pn_cdm := (pn_cdm p)\<lparr>
        dm_PartitionReady := AList.update (rd_FromShard pr) True (dm_PartitionReady (pn_cdm p)),
        dm_ReadySeq := (dm_ReadySeq (pn_cdm p))(rd_FromShard pr \<mapsto> rd_NowSeqID pr)\<rparr>\<rparr>"

text \<open>\<^verbatim>\<open>int(ShardNums)-1\<close> is computed on signed integers.\<close>

definition handleAccountStateAndTxMsg :: "AccountStateAndTx \<Rightarrow> ('bs, 'bo, 'td) node \<Rightarrow> ('bs, 'bo, 'td) node" where
  "handleAccountStateAndTxMsg at p =
     (let ast = AList.update (ax_FromShard at) at (dm_AccountStateTx (pn_cdm p));
          d = (pn_cdm p)\<lparr>dm_AccountStateTx := ast\<rparr>
      in p\<lparr>pn_cdm := (if int (length ast) = sint (cc_ShardNums (pn_pbftChainConfig p)) - 1
                      then d\<lparr>dm_CollectOver := True\<rparr> else d)\<rparr>)"

definition CLPA_HandleMessageOutsidePBFT ::
    "('bs, 'bo, 'tr, 'td, 'ns, 'e) chain_env_scheme \<Rightarrow> time \<Rightarrow> net_msg \<Rightarrow> ('bs, 'bo, 'td) node \<Rightarrow>
     (bool \<times> ('bs, 'bo, 'td) node) wait option" where
  "CLPA_HandleMessageOutsidePBFT E now msg p =
     (let answer = map_option (\<lambda>w. case w of Waits \<Rightarrow> Waits | Ready p \<Rightarrow> Ready (True, p)) in
      case msg of
        CRelay relay \<Rightarrow> answer (CLPA_handleRelay E now relay p)
      | CRelayWithProof rwp \<Rightarrow> do { p \<leftarrow> CLPA_handleRelayWithProof E now rwp p; Some (Ready (True, p)) }
      | CInject it \<Rightarrow> answer (CLPA_handleInjectTx E now it p)
      | CPartitionMsg pm \<Rightarrow> Some (Ready (True, handlePartitionMsg pm p))
      | AccountState_and_TX at \<Rightarrow> Some (Ready (True, handleAccountStateAndTxMsg at p))
      | CPartitionReady pr \<Rightarrow> Some (Ready (True, handlePartitionReady pr p))
      | _ \<Rightarrow> Some (Ready (True, p)))"

section \<open>Contribution\<close>

text \<open>
  A relay message is decoded as an injection: its transactions arrive but the sender's sequence
  number is not recorded. A relay message with proofs is not handled.
\<close>

definition Contrib_HandleMessageOutsidePBFT ::
    "time \<Rightarrow> net_msg \<Rightarrow> ('bs, 'bo, 'td) node \<Rightarrow> (bool \<times> ('bs, 'bo, 'td) node) wait option" where
  "Contrib_HandleMessageOutsidePBFT now msg p =
     (case msg of
        CPartitionMsg pm \<Rightarrow> Some (Ready (True, handlePartitionMsg pm p))
      | CPartitionReady pr \<Rightarrow> Some (Ready (True, handlePartitionReady pr p))
      | AccountState_and_TX at \<Rightarrow> Some (Ready (True, handleAccountStateAndTxMsg at p))
      | CRelay relay \<Rightarrow> Some (Ready (True, add_to_pool now (rl_Txs relay) p))
      | CInject it \<Rightarrow> Some (Ready (True, add_to_pool now (ij_Txs it) p))
      | _ \<Rightarrow> Some (Ready (False, p)))"

section \<open>Brokers\<close>

definition handleSeqIDinfos :: "SeqIDinfo \<Rightarrow> ('bs, 'bo, 'td) node \<Rightarrow> ('bs, 'bo, 'td) node" where
  "handleSeqIDinfos sii p = set_seq (si_SenderShardID sii) (si_SenderSeq sii) p"

definition Broker_handleInjectTx :: "time \<Rightarrow> InjectTxs \<Rightarrow> ('bs, 'bo, 'td) node \<Rightarrow> ('bs, 'bo, 'td) node" where
  "Broker_handleInjectTx now it p = add_to_pool now (ij_Txs it) p"

definition Broker_HandleMessageOutsidePBFT ::
    "time \<Rightarrow> net_msg \<Rightarrow> ('bs, 'bo, 'td) node \<Rightarrow> (bool \<times> ('bs, 'bo, 'td) node) wait option" where
  "Broker_HandleMessageOutsidePBFT now msg p =
     (case msg of
        CSeqIDinfo sii \<Rightarrow> Some (Ready (True, handleSeqIDinfos sii p))
      | CInject it \<Rightarrow> Some (Ready (True, Broker_handleInjectTx now it p))
      | _ \<Rightarrow> Some (Ready (True, p)))"

definition CLPABroker_HandleMessageOutsidePBFT ::
    "time \<Rightarrow> net_msg \<Rightarrow> ('bs, 'bo, 'td) node \<Rightarrow> (bool \<times> ('bs, 'bo, 'td) node) wait option" where
  "CLPABroker_HandleMessageOutsidePBFT now msg p =
     (case msg of
        CSeqIDinfo sii \<Rightarrow> Some (Ready (True, handleSeqIDinfos sii p))
      | CInject it \<Rightarrow> Some (Ready (True, add_to_pool now (ij_Txs it) p))
      | CPartitionMsg pm \<Rightarrow> Some (Ready (True, handlePartitionMsg pm p))
      | CAccountTransferMsg_broker at \<Rightarrow> Some (Ready (True, handleAccountStateAndTxMsg at p))
      | CPartitionReady pr \<Rightarrow> Some (Ready (True, handlePartitionReady pr p))
      | _ \<Rightarrow> Some (Ready (True, p)))"

section \<open>Collecting the accounts of the other shards\<close>

text \<open>A run of deliveries of account messages.\<close>

definition deliver_accounts :: "AccountStateAndTx list \<Rightarrow> ('bs, 'bo, 'td) node \<Rightarrow> ('bs, 'bo, 'td) node" where
  "deliver_accounts ats p = foldl (\<lambda>p at. handleAccountStateAndTxMsg at p) p ats"

lemma deliver_account_fields:
  "dm_AccountStateTx (pn_cdm (handleAccountStateAndTxMsg at p)) = AList.update (ax_FromShard at) at (dm_AccountStateTx (pn_cdm p))"
  "pn_pbftChainConfig (handleAccountStateAndTxMsg at p) = pn_pbftChainConfig p"
  "dm_CollectOver (pn_cdm (handleAccountStateAndTxMsg at p)) \<longleftrightarrow> dm_CollectOver (pn_cdm p)
     \<or> int (length (AList.update (ax_FromShard at) at (dm_AccountStateTx (pn_cdm p))))
         = sint (cc_ShardNums (pn_pbftChainConfig p)) - 1"
  by (auto simp: handleAccountStateAndTxMsg_def Let_def)

lemma length_alist: "distinct (map fst al) \<Longrightarrow> length al = card (fst ` set al)"
  by (metis distinct_card length_map set_map)

lemma deliver_state:
  "distinct (map fst (dm_AccountStateTx (pn_cdm p))) \<Longrightarrow>
   pn_pbftChainConfig (deliver_accounts ats p) = pn_pbftChainConfig p \<and>
   distinct (map fst (dm_AccountStateTx (pn_cdm (deliver_accounts ats p)))) \<and>
   fst ` set (dm_AccountStateTx (pn_cdm (deliver_accounts ats p)))
     = fst ` set (dm_AccountStateTx (pn_cdm p)) \<union> ax_FromShard ` set ats"
proof (induction ats arbitrary: p)
  case Nil
  then show ?case by (simp add: deliver_accounts_def)
next
  case (Cons at ats)
  let ?p = "handleAccountStateAndTxMsg at p"
  have d: "distinct (map fst (dm_AccountStateTx (pn_cdm ?p)))"
    using Cons.prems by (simp add: deliver_account_fields(1) distinct_update)
  have k: "fst ` set (dm_AccountStateTx (pn_cdm ?p)) = insert (ax_FromShard at) (fst ` set (dm_AccountStateTx (pn_cdm p)))"
    by (simp add: deliver_account_fields(1) dom_update)
  have "deliver_accounts (at # ats) p = deliver_accounts ats ?p" by (simp add: deliver_accounts_def)
  with Cons.IH[OF d] k show ?case by (auto simp: deliver_account_fields(2))
qed

lemma sint_nonneg_unat: "0 \<le> sint w \<Longrightarrow> sint w = int (unat w)" for w :: u64
proof -
  assume "0 \<le> sint w"
  moreover have "sint w < 2 ^ LENGTH(64)" using sint_lt[of w] by simp
  ultimately have "uint w = sint w" unfolding uint_sint[of w] by (rule take_bit_int_eq_self)
  then show ?thesis by simp
qed

lemma deliver_CollectOver:
  assumes "distinct (map fst (dm_AccountStateTx (pn_cdm p)))"
    "length (dm_AccountStateTx (pn_cdm p)) \<le> n" "sint (cc_ShardNums (pn_pbftChainConfig p)) = int n + 1"
    "dm_CollectOver (pn_cdm p) \<longleftrightarrow> length (dm_AccountStateTx (pn_cdm p)) = n"
    "card (fst ` set (dm_AccountStateTx (pn_cdm p)) \<union> ax_FromShard ` set ats) \<le> n"
  shows "dm_CollectOver (pn_cdm (deliver_accounts ats p))
     \<longleftrightarrow> card (fst ` set (dm_AccountStateTx (pn_cdm p)) \<union> ax_FromShard ` set ats) = n"
  using assms
proof (induction ats arbitrary: p)
  case Nil
  then show ?case by (simp add: deliver_accounts_def length_alist)
next
  case (Cons at ats)
  let ?p = "handleAccountStateAndTxMsg at p" and ?K = "fst ` set (dm_AccountStateTx (pn_cdm p))"
  have st: "deliver_accounts (at # ats) p = deliver_accounts ats ?p" by (simp add: deliver_accounts_def)
  have d: "distinct (map fst (dm_AccountStateTx (pn_cdm ?p)))"
    using Cons.prems(1) by (simp add: deliver_account_fields(1) distinct_update)
  have k: "fst ` set (dm_AccountStateTx (pn_cdm ?p)) = insert (ax_FromShard at) ?K"
    by (simp add: deliver_account_fields(1) dom_update)
  have len: "length (dm_AccountStateTx (pn_cdm ?p)) = card (insert (ax_FromShard at) ?K)"
    using length_alist[OF d] k by simp
  have un: "insert (ax_FromShard at) ?K \<union> ax_FromShard ` set ats = ?K \<union> ax_FromShard ` set (at # ats)" by auto
  have "card (insert (ax_FromShard at) ?K) \<le> card (?K \<union> ax_FromShard ` set (at # ats))"
    by (rule card_mono) auto
  with Cons.prems(5) have le: "length (dm_AccountStateTx (pn_cdm ?p)) \<le> n" using len by simp
  have l0: "length (dm_AccountStateTx (pn_cdm p)) = card ?K" using length_alist[OF Cons.prems(1)] .
  have "card ?K \<le> card (insert (ax_FromShard at) ?K)" by (rule card_mono) auto
  then have co: "dm_CollectOver (pn_cdm ?p) \<longleftrightarrow> length (dm_AccountStateTx (pn_cdm ?p)) = n"
    using Cons.prems(3,4) le l0 len deliver_account_fields(1)[of at p]
    by (auto simp: deliver_account_fields(3))
  have s: "sint (cc_ShardNums (pn_pbftChainConfig ?p)) = int n + 1" using Cons.prems(3) by (simp add: deliver_account_fields(2))
  show ?case using Cons.IH[OF d le s co] Cons.prems(5) by (simp add: st k un del: Un_insert_left)
qed

text \<open>
  A shard that waits for the accounts of a re-partition goes on exactly when it has heard from
  every other shard: starting with nothing received, after any sequence of account messages
  from other shards, in any order and with any repetitions, the flag \<^verbatim>\<open>CollectOver\<close> is set if and
  only if each of the other shards occurs among the senders.
\<close>

theorem CollectOver_iff_all_delivered:
  assumes "dm_AccountStateTx (pn_cdm p) = []" "\<not> dm_CollectOver (pn_cdm p)"
    and "2 \<le> sint (cc_ShardNums (pn_pbftChainConfig p))" "pn_ShardID p < cc_ShardNums (pn_pbftChainConfig p)"
    and "ax_FromShard ` set ats \<subseteq> set (other_shards p)"
  shows "dm_CollectOver (pn_cdm (deliver_accounts ats p)) \<longleftrightarrow> ax_FromShard ` set ats = set (other_shards p)"
proof -
  let ?N = "cc_ShardNums (pn_pbftChainConfig p)"
  have u: "sint ?N = int (unat ?N)" using assms(3) by (intro sint_nonneg_unat) simp
  then have N: "sint ?N = int (unat ?N - 1) + 1" "unat ?N - 1 \<noteq> 0" using assms(3) by linarith+
  have others: "card (set (other_shards p)) = unat ?N - 1"
  proof -
    have "set (other_shards p) = set (u64_range ?N) - {pn_ShardID p}" by (auto simp: other_shards_def)
    moreover have "card (set (u64_range ?N)) = unat ?N" using distinct_card[of "u64_range ?N"] by simp
    ultimately show ?thesis using assms(4) by (simp add: card_Diff_singleton)
  qed
  have le: "card (ax_FromShard ` set ats) \<le> unat ?N - 1"
    using card_mono[OF _ assms(5)] others by simp
  have "dm_CollectOver (pn_cdm (deliver_accounts ats p)) \<longleftrightarrow> card (ax_FromShard ` set ats) = unat ?N - 1"
    using deliver_CollectOver[of p "unat ?N - 1" ats] assms(1,2) N le by (simp del: of_nat_unat)
  also have "\<dots> \<longleftrightarrow> ax_FromShard ` set ats = set (other_shards p)"
    using card_subset_eq[OF _ assms(5)] others by auto
  finally show ?thesis .
qed

definition demo_accounts :: "u64 \<Rightarrow> AccountStateAndTx" where
  "demo_accounts from = \<lparr>ax_Addrs = [''b1''], ax_AccountState = [fresh_account 0], ax_Txs = [], ax_FromShard = from\<rparr>"

theorem CollectOver_iff_all_delivered_witness:
  "dm_CollectOver (pn_cdm (deliver_accounts [demo_accounts 1, demo_accounts 1] (demo_node 0)))
   \<longleftrightarrow> ax_FromShard ` set [demo_accounts 1, demo_accounts 1] = set (other_shards (demo_node 0))"
proof (rule CollectOver_iff_all_delivered)
  have "set (other_shards (demo_node 0)) = {i. i < (2::u64) \<and> i \<noteq> 0}"
    by (auto simp: other_shards_def demo_node_def NewPbftNode_def demo_cc_def)
  moreover have "(1::u64) < 2" by simp
  ultimately show "ax_FromShard ` set [demo_accounts 1, demo_accounts 1] \<subseteq> set (other_shards (demo_node 0))"
    by (auto simp: demo_accounts_def)
qed (simp_all add: demo_node_def NewPbftNode_def NewCLPADataSupport_def demo_cc_def)

end
