(* ===== verification/Pbft_Handlers.thy ===== *)
theory Pbft_Handlers
  imports Pbft_Outside
begin

text \<open>
  The consensus itself: \<^verbatim>\<open>pbft_all/messageHandle.go\<close>, \<^verbatim>\<open>pbft_all/view_change.go\<close> and the dispatch of
  \<^verbatim>\<open>pbft_all/pbft.go\<close>. The message handlers run under \<^verbatim>\<open>pbftLock\<close>, so a handler is one transition
  once it stops waiting on the condition variable: \<open>Waiting\<close> says that it would wait in this
  state. \<open>curView\<close> is the view a handler loaded before it took the lock.
\<close>

datatype 'n outcome =
    Done "net_out list" 'n
  | Waiting
  | Blocked 'n

section \<open>The exchangeable operations\<close>

record ('bs, 'bo, 'td) ExtraOpInConsensus =
  HandleinPropose :: "propose_pc \<Rightarrow> ('bs, 'bo, 'td) node \<Rightarrow> ('bs, 'bo, 'td) node propose_result option"
  HandleinPrePrepare :: "PrePrepare \<Rightarrow> ('bs, 'bo, 'td) node \<Rightarrow> (bool \<times> ('bs, 'bo, 'td) node) option"
  HandleinPrepare :: "Prepare \<Rightarrow> ('bs, 'bo, 'td) node \<Rightarrow> (bool \<times> ('bs, 'bo, 'td) node) option"
  HandleinCommit :: "Commit \<Rightarrow> ('bs, 'bo, 'td) node \<Rightarrow> (bool \<times> net_out list \<times> ('bs, 'bo, 'td) node) option"
  HandleReqestforOldSeq :: "RequestOldMessage \<Rightarrow> ('bs, 'bo, 'td) node \<Rightarrow> (bool \<times> ('bs, 'bo, 'td) node) option"
  HandleforSequentialRequest ::
    "SendOldMessage \<Rightarrow> ('bs, 'bo, 'td) node \<Rightarrow> (bool \<times> net_out list \<times> ('bs, 'bo, 'td) node) option"

text \<open>In every variant two of the six operations do nothing.\<close>

definition no_op :: "'m \<Rightarrow> 'n \<Rightarrow> (bool \<times> 'n) option" where
  "no_op m p = Some (True, p)"

definition RawRelay_ihm where
  "RawRelay_ihm E now = \<lparr>HandleinPropose = RawRelay_HandleinPropose E now,
     HandleinPrePrepare = RawRelay_HandleinPrePrepare E, HandleinPrepare = no_op,
     HandleinCommit = RawRelay_HandleinCommit E now, HandleReqestforOldSeq = no_op,
     HandleforSequentialRequest = RawRelay_HandleforSequentialRequest E\<rparr>"

definition CLPA_ihm where
  "CLPA_ihm E now = \<lparr>HandleinPropose = CLPA_HandleinPropose E now,
     HandleinPrePrepare = CLPA_HandleinPrePrepare E, HandleinPrepare = no_op,
     HandleinCommit = CLPA_HandleinCommit E now, HandleReqestforOldSeq = no_op,
     HandleforSequentialRequest = CLPA_HandleforSequentialRequest E\<rparr>"

definition Contrib_ihm where
  "Contrib_ihm E now = \<lparr>HandleinPropose = Contrib_HandleinPropose E now,
     HandleinPrePrepare = Contrib_HandleinPrePrepare E, HandleinPrepare = no_op,
     HandleinCommit = Contrib_HandleinCommit E now, HandleReqestforOldSeq = no_op,
     HandleforSequentialRequest = Contrib_HandleforSequentialRequest E\<rparr>"

definition Broker_ihm where
  "Broker_ihm E now = \<lparr>HandleinPropose = Broker_HandleinPropose E now,
     HandleinPrePrepare = Broker_HandleinPrePrepare E, HandleinPrepare = no_op,
     HandleinCommit = Broker_HandleinCommit E now, HandleReqestforOldSeq = no_op,
     HandleforSequentialRequest = Broker_HandleforSequentialRequest E\<rparr>"

definition CLPABroker_ihm where
  "CLPABroker_ihm E now = \<lparr>HandleinPropose = CLPABroker_HandleinPropose E now,
     HandleinPrePrepare = CLPABroker_HandleinPrePrepare E, HandleinPrepare = no_op,
     HandleinCommit = CLPABroker_HandleinCommit E now, HandleReqestforOldSeq = no_op,
     HandleforSequentialRequest = CLPABroker_HandleforSequentialRequest E\<rparr>"

text \<open>The choice that \<^verbatim>\<open>NewPbftNode\<close> makes by the name of the method.\<close>

definition select_ihm ::
    "('bs, 'bo, 'tr, 'td, 'ns, 'e) node_env_scheme \<Rightarrow> bytes \<Rightarrow> time \<Rightarrow> ('bs, 'bo, 'td) ExtraOpInConsensus" where
  "select_ihm E messageHandleType now =
     (if messageHandleType = ''CLPA_Broker'' then CLPABroker_ihm E now
      else if messageHandleType = ''CLPA'' then CLPA_ihm E now
      else if messageHandleType = ''Broker'' then Broker_ihm E now
      else if messageHandleType = ''Contrib'' then Contrib_ihm E now
      else RawRelay_ihm E now)"

definition select_ohm ::
    "('bs, 'bo, 'tr, 'td, 'ns, 'e) node_env_scheme \<Rightarrow> bytes \<Rightarrow> time \<Rightarrow> net_msg \<Rightarrow> ('bs, 'bo, 'td) node \<Rightarrow>
     (bool \<times> ('bs, 'bo, 'td) node) wait option" where
  "select_ohm E messageHandleType now =
     (if messageHandleType = ''CLPA_Broker'' then CLPABroker_HandleMessageOutsidePBFT now
      else if messageHandleType = ''CLPA'' then CLPA_HandleMessageOutsidePBFT E now
      else if messageHandleType = ''Broker'' then Broker_HandleMessageOutsidePBFT now
      else if messageHandleType = ''Contrib'' then Contrib_HandleMessageOutsidePBFT now
      else RawRelay_HandleMessageOutsidePBFT E now)"

section \<open>Proposing\<close>

text \<open>
  The goroutine that \<^verbatim>\<open>Propose\<close> starts for a round. It runs to the next waiting point of
  \<^verbatim>\<open>HandleinPropose\<close>: \<open>Inl\<close> is the program counter to go on from, \<open>Inr\<close> the end of the round. A
  node that is not the leader returns at once; a held \<^verbatim>\<open>sequenceLock\<close> makes it wait.
\<close>

definition Propose ::
    "('bs, 'bo, 'tr, 'td, 'ns, 'e) node_env_scheme \<Rightarrow> ('bs, 'bo, 'td) ExtraOpInConsensus \<Rightarrow> propose_pc \<Rightarrow>
     ('bs, 'bo, 'td) node \<Rightarrow> ((propose_pc + unit) \<times> net_out list \<times> ('bs, 'bo, 'td) node) wait option" where
  "Propose E ihm pc p =
     (if pc = ProposeBegin \<and> \<not> is_leader p then Some (Ready (Inr (), [], p))
      else if pc = ProposeBegin \<and> pn_sequenceLock p then Some Waits
      else do {
        res \<leftarrow> HandleinPropose ihm pc (if pc = ProposeBegin then p\<lparr>pn_sequenceLock := True\<rparr> else p);
        case res of
          Yield pc' outs p \<Rightarrow> Some (Ready (Inl pc', outs, p))
        | Proposed r outs p \<Rightarrow> do {
            let digest = getDigest E r;
            let ppmsg = \<lparr>pp_RequestMsg = r, pp_Digest = digest, pp_SeqID = pn_sequenceID p\<rparr>;
            let p = p\<lparr>pn_requestPool := (pn_requestPool p)(digest \<mapsto> r),
                      pn_height2Digest := (pn_height2Digest p)(pn_sequenceID p \<mapsto> digest)\<rparr>;
            (marks, msg, p) \<leftarrow> encodeProposal E ppmsg p;
            Some (Ready (Inr (), outs @ marks @ [Bcast msg, Dial (nd_IPaddr (pn_RunningNode p)) (CPrePrepare ppmsg)],
                    p\<lparr>pn_pbftStage := (if pn_pbftStage p = 1 then 2 else pn_pbftStage p)\<rparr>)) } })"

section \<open>The three phases\<close>

definition stage_up :: "('bs, 'bo, 'td) node \<Rightarrow> ('bs, 'bo, 'td) node" where
  "stage_up p = p\<lparr>pn_pbftStage := to_int32 (pn_pbftStage p + 1)\<rparr>"

definition handlePrePrepare ::
    "('bs, 'bo, 'tr, 'td, 'ns, 'e) node_env_scheme \<Rightarrow> ('bs, 'bo, 'td) ExtraOpInConsensus \<Rightarrow> int \<Rightarrow> PrePrepare \<Rightarrow>
     ('bs, 'bo, 'td) node \<Rightarrow> ('bs, 'bo, 'td) node outcome option" where
  "handlePrePrepare E ihm curView ppmsg p =
     (let marks = mark_partition E ppmsg; digest = getDigest E (pp_RequestMsg ppmsg) in
      if pn_pbftStage p < 1 \<and> pp_SeqID ppmsg \<ge> pn_sequenceID p \<and> pn_view p = curView then Some Waiting
      else if pp_SeqID ppmsg < pn_sequenceID p \<or> pn_view p \<noteq> curView then Some (Done marks p)
      else if digest \<noteq> pp_Digest ppmsg then Some (Done marks p)
      else if pn_sequenceID p < pp_SeqID ppmsg then
        Some (Done marks (p\<lparr>pn_requestPool := (pn_requestPool p)(digest \<mapsto> pp_RequestMsg ppmsg),
                            pn_height2Digest := (pn_height2Digest p)(pp_SeqID ppmsg \<mapsto> digest)\<rparr>))
      else do {
        (flag, p) \<leftarrow> HandleinPrePrepare ihm ppmsg p;
        let p = p\<lparr>pn_requestPool := (pn_requestPool p)(digest \<mapsto> pp_RequestMsg ppmsg),
                  pn_height2Digest := (pn_height2Digest p)(pp_SeqID ppmsg \<mapsto> digest)\<rparr>;
        let pre = CPrepare \<lparr>pr_Digest = pp_Digest ppmsg, pr_SeqID = pp_SeqID ppmsg, pr_SenderNode = pn_RunningNode p\<rparr>;
        if flag then Some (Done (marks @ [Bcast pre, Dial (nd_IPaddr (pn_RunningNode p)) pre]) (stage_up p))
        else Some (Done marks p) })"

definition handlePrepare ::
    "('bs, 'bo, 'td) ExtraOpInConsensus \<Rightarrow> int \<Rightarrow> Prepare \<Rightarrow> ('bs, 'bo, 'td) node \<Rightarrow>
     ('bs, 'bo, 'td) node outcome option" where
  "handlePrepare ihm curView pmsg p =
     (if pn_pbftStage p < 2 \<and> pr_SeqID pmsg \<ge> pn_sequenceID p \<and> pn_view p = curView then Some Waiting
      else if pr_SeqID pmsg < pn_sequenceID p \<or> pn_view p \<noteq> curView then Some (Done [] p)
      else if pn_requestPool p (pr_Digest pmsg) = None then Some (Done [] p)
      else if pn_sequenceID p < pr_SeqID pmsg then Some (Done [] p)
      else do {
        (_, p) \<leftarrow> HandleinPrepare ihm pmsg p;
        let p = set2DMap True (pr_Digest pmsg) (pr_SenderNode pmsg) p;
        let cnt = length (votes (pn_cntPrepareConfirm p) (pr_Digest pmsg));
        if of_nat cnt \<ge> 2 * pn_malicious_nums p + 1 \<and> \<not> pn_isCommitBordcast p (pr_Digest pmsg) then
          let c = CCommit \<lparr>cm_Digest = pr_Digest pmsg, cm_SeqID = pr_SeqID pmsg, cm_SenderNode = pn_RunningNode p\<rparr>
          in Some (Done [Bcast c, Dial (nd_IPaddr (pn_RunningNode p)) c]
               (stage_up (p\<lparr>pn_isCommitBordcast := (pn_isCommitBordcast p)(pr_Digest pmsg := True)\<rparr>)))
        else Some (Done [] p) })"

text \<open>The end of a round. Unlocking a mutex that is not locked is a fatal error.\<close>

definition end_round :: "time \<Rightarrow> net_out list \<Rightarrow> ('bs, 'bo, 'td) node \<Rightarrow> ('bs, 'bo, 'td) node outcome option" where
  "end_round now outs p =
     (let p = p\<lparr>pn_pbftStage := 1, pn_lastCommitTime := UnixMilli now\<rparr> in
      if is_leader p then (if pn_sequenceLock p then Some (Done outs (p\<lparr>pn_sequenceLock := False\<rparr>)) else None)
      else Some (Done outs p))"

text \<open>
  A node that was left behind asks the leader for the missing requests. It first takes
  \<^verbatim>\<open>askForLock\<close>, which stays locked until the answer has been handled; \<open>Blocked\<close> is a handler that
  waits for it, holding \<^verbatim>\<open>pbftLock\<close>, and goes on with \<open>ask_old_requests\<close>.
\<close>

definition ask_old_requests ::
    "time \<Rightarrow> Commit \<Rightarrow> ('bs, 'bo, 'td) node \<Rightarrow> ('bs, 'bo, 'td) node outcome option" where
  "ask_old_requests now cmsg p =
     (if pn_askForLock p then Some (Blocked p)
      else let sn = \<lparr>nd_NodeID = leader_id p, nd_ShardID = pn_ShardID p,
                     nd_IPaddr = pn_ip_nodeTable p (pn_ShardID p) (leader_id p)\<rparr>;
               orequest = \<lparr>ro_SeqStartHeight = pn_sequenceID p + 1, ro_SeqEndHeight = cm_SeqID cmsg,
                           ro_ServerNode = sn, ro_SenderNode = pn_RunningNode p\<rparr>
           in end_round now [Dial (nd_IPaddr sn) (CRequestOldrequest orequest)] (p\<lparr>pn_askForLock := True\<rparr>))"

definition handleCommit ::
    "('bs, 'bo, 'td) ExtraOpInConsensus \<Rightarrow> time \<Rightarrow> int \<Rightarrow> Commit \<Rightarrow> ('bs, 'bo, 'td) node \<Rightarrow>
     ('bs, 'bo, 'td) node outcome option" where
  "handleCommit ihm now curView cmsg p =
     (if pn_pbftStage p < 3 \<and> cm_SeqID cmsg \<ge> pn_sequenceID p \<and> pn_view p = curView then Some Waiting
      else if cm_SeqID cmsg < pn_sequenceID p \<or> pn_view p \<noteq> curView then Some (Done [] p)
      else
        let p = set2DMap False (cm_Digest cmsg) (cm_SenderNode cmsg) p;
            cnt = length (votes (pn_cntCommitConfirm p) (cm_Digest cmsg))
        in if of_nat cnt \<ge> 2 * pn_malicious_nums p + 1 \<and> \<not> pn_isReply p (cm_Digest cmsg) then
             if pn_requestPool p (cm_Digest cmsg) = None then
               ask_old_requests now cmsg (p\<lparr>pn_isReply := (pn_isReply p)(cm_Digest cmsg := True)\<rparr>)
             else do {
               (_, outs, p) \<leftarrow> HandleinCommit ihm cmsg p;
               let p = p\<lparr>pn_isReply := (pn_isReply p)(cm_Digest cmsg := True)\<rparr>;
               end_round now (outs @ [RoundEnd (cm_Digest cmsg) (pn_sequenceID p)])
                 (p\<lparr>pn_sequenceID := pn_sequenceID p + 1\<rparr>) }
           else Some (Done [] p))"

section \<open>Catching up\<close>

text \<open>
  The loop over the requested heights stops at the first height without a request. When the last
  height is the largest number the loop condition is always true: the loop then ends only at a
  missing height.
\<close>

primrec collect_old ::
    "('bs, 'bo, 'td) node \<Rightarrow> u64 \<Rightarrow> nat \<Rightarrow> u64 \<Rightarrow> Request list option" where
  "collect_old p stop 0 height = (if stop = - 1 then None else Some [])"
| "collect_old p stop (Suc n) height =
     (case Option.bind (pn_height2Digest p height) (pn_requestPool p) of
        None \<Rightarrow> Some []
      | Some r \<Rightarrow> map_option ((#) r) (collect_old p stop n (height + 1)))"

definition old_heights :: "u64 \<Rightarrow> u64 \<Rightarrow> nat" where
  "old_heights start stop = (if stop = - 1 then 2 ^ 64 else if start \<le> stop then unat (stop - start) + 1 else 0)"

definition handleRequestOldSeq ::
    "('bs, 'bo, 'td) ExtraOpInConsensus \<Rightarrow> RequestOldMessage \<Rightarrow> ('bs, 'bo, 'td) node \<Rightarrow>
     (net_out list \<times> ('bs, 'bo, 'td) node) option" where
  "handleRequestOldSeq ihm rom p =
     (if leader_id p \<noteq> pn_NodeID p then Some ([], p)
      else do {
        oldR \<leftarrow> collect_old p (ro_SeqEndHeight rom) (old_heights (ro_SeqStartHeight rom) (ro_SeqEndHeight rom))
                 (ro_SeqStartHeight rom);
        (_, p) \<leftarrow> HandleReqestforOldSeq ihm rom p;
        Some ([Dial (nd_IPaddr (ro_SenderNode rom))
                (CSendOldrequest \<lparr>so_SeqStartHeight = ro_SeqStartHeight rom, so_SeqEndHeight = ro_SeqEndHeight rom,
                                  so_OldRequest = oldR, so_SenderNode = pn_RunningNode p\<rparr>)], p) })"

definition record_old ::
    "('bs, 'bo, 'tr, 'td, 'ns, 'e) node_env_scheme \<Rightarrow> u64 \<Rightarrow> ('bs, 'bo, 'td) node \<Rightarrow> nat \<times> Request \<Rightarrow> ('bs, 'bo, 'td) node" where
  "record_old E beginSeq p = (\<lambda>(idx, r).
     p\<lparr>pn_requestPool := (pn_requestPool p)(getDigest E r \<mapsto> r),
       pn_height2Digest := (pn_height2Digest p)(of_nat idx + beginSeq \<mapsto> getDigest E r),
       pn_isReply := (pn_isReply p)(getDigest E r := True)\<rparr>)"

definition handleSendOldSeq ::
    "('bs, 'bo, 'tr, 'td, 'ns, 'e) node_env_scheme \<Rightarrow> ('bs, 'bo, 'td) ExtraOpInConsensus \<Rightarrow> SendOldMessage \<Rightarrow>
     ('bs, 'bo, 'td) node \<Rightarrow> (net_out list \<times> ('bs, 'bo, 'td) node) option" where
  "handleSendOldSeq E ihm som p =
     do { (_, outs, p) \<leftarrow> HandleforSequentialRequest ihm som p;
          let p = foldl (record_old E (so_SeqStartHeight som)) p (enumerate 0 (so_OldRequest som));
          let p = p\<lparr>pn_sequenceID := so_SeqEndHeight som + 1\<rparr>;
          (outs', p) \<leftarrow>
            (case Option.bind (pn_height2Digest p (pn_sequenceID p)) (pn_requestPool p) of
               None \<Rightarrow> Some ([], p)
             | Some r \<Rightarrow> do {
                 let ppmsg = \<lparr>pp_RequestMsg = r, pp_Digest = getDigest E r, pp_SeqID = pn_sequenceID p\<rparr>;
                 (flag, p) \<leftarrow> HandleinPrePrepare ihm ppmsg p;
                 Some (if flag then [Bcast (CPrepare \<lparr>pr_Digest = pp_Digest ppmsg, pr_SeqID = pp_SeqID ppmsg,
                                                     pr_SenderNode = pn_RunningNode p\<rparr>)] else [], p) });
          if pn_askForLock p then Some (outs @ outs', p\<lparr>pn_askForLock := False\<rparr>) else None }"

section \<open>View change\<close>

text \<open>The Go maps \<^verbatim>\<open>map[ViewChangeData]map[uint64]bool\<close>: the nodes heard for a view and sequence.\<close>

definition vc_voters :: "(int \<times> int \<rightharpoonup> u64 list) \<Rightarrow> int \<times> int \<Rightarrow> u64 list" where
  "vc_voters m k = (case m k of None \<Rightarrow> [] | Some l \<Rightarrow> l)"

definition vc_add :: "int \<times> int \<Rightarrow> u64 \<Rightarrow> (int \<times> int \<rightharpoonup> u64 list) \<Rightarrow> (int \<times> int \<rightharpoonup> u64 list)" where
  "vc_add k v m = m(k \<mapsto> (if v \<in> set (vc_voters m k) then vc_voters m k else vc_voters m k @ [v]))"

definition next_view :: "('bs, 'bo, 'td) node \<Rightarrow> int option" where
  "next_view p = go_rem (to_int32 (pn_view p + 1)) (sint (pn_node_nums p))"

definition vc_quorum :: "('bs, 'bo, 'td) node \<Rightarrow> int" where
  "vc_quorum p = 2 * sint (pn_malicious_nums p) + 1"

definition viewChangePropose ::
    "('bs, 'bo, 'td) node \<Rightarrow> (net_out list \<times> ('bs, 'bo, 'td) node) option" where
  "viewChangePropose p =
     do { let p = p\<lparr>pn_pbftStage := 5\<rparr>;
          nv \<leftarrow> next_view p;
          let msg = ViewChangePropose \<lparr>vc_CurView = pn_view p, vc_NextView = nv, vc_SeqID = sint (pn_sequenceID p),
                                       vc_FromNode = pn_NodeID p\<rparr>;
          Some ([Bcast msg, Dial (nd_IPaddr (pn_RunningNode p)) msg], p) }"

definition handleViewChangeMsg ::
    "ViewChangeMsg \<Rightarrow> ('bs, 'bo, 'td) node \<Rightarrow> (net_out list \<times> ('bs, 'bo, 'td) node) option" where
  "handleViewChangeMsg vcmsg p =
     (let vcData = (vc_NextView vcmsg, vc_SeqID vcmsg);
          p = p\<lparr>pn_viewChangeMap := vc_add vcData (vc_FromNode vcmsg) (pn_viewChangeMap p)\<rparr>
      in if int (length (vc_voters (pn_viewChangeMap p) vcData)) = vc_quorum p then do {
           nv \<leftarrow> next_view p;
           let msg = NewChange \<lparr>nv_CurView = pn_view p, nv_NextView = nv, nv_NewSeqID = sint (pn_sequenceID p),
                                nv_FromNode = pn_NodeID p\<rparr>;
           Some ([Bcast msg, Dial (nd_IPaddr (pn_RunningNode p)) msg], p) }
         else Some ([], p))"

definition handleNewViewMsg :: "time \<Rightarrow> NewViewMsg \<Rightarrow> ('bs, 'bo, 'td) node \<Rightarrow> ('bs, 'bo, 'td) node" where
  "handleNewViewMsg now nvmsg p =
     (let vcData = (nv_NextView nvmsg, nv_NewSeqID nvmsg);
          p = p\<lparr>pn_newViewMap := vc_add vcData (nv_FromNode nvmsg) (pn_newViewMap p)\<rparr>
      in if int (length (vc_voters (pn_newViewMap p) vcData)) = vc_quorum p
         then p\<lparr>pn_view := to_int32 (fst vcData), pn_sequenceID := of_int (nv_NewSeqID nvmsg), pn_pbftStage := 1,
                pn_lastCommitTime := UnixMilli now\<rparr>
         else p)"

text \<open>The timer of \<^verbatim>\<open>Propose\<close> that starts a view change.\<close>

definition viewChangeTimer ::
    "('bs, 'e) core_env_scheme \<Rightarrow> time \<Rightarrow> ('bs, 'bo, 'td) node \<Rightarrow> (net_out list \<times> ('bs, 'bo, 'td) node) option" where
  "viewChangeTimer E now p =
     (if UnixMilli now - pn_lastCommitTime p > pm_PbftViewChangeTimeOut (prm E)
      then viewChangePropose (p\<lparr>pn_lastCommitTime := UnixMilli now\<rparr>) else Some ([], p))"

section \<open>Dispatch\<close>

text \<open>
  \<^verbatim>\<open>handleMessage\<close> handles some messages itself and starts a goroutine for others; \<open>task\<close> is what a
  goroutine still has to do.
\<close>

datatype task =
    TPrePrepare PrePrepare
  | TPrepare Prepare
  | TCommit Commit
  | TOutside net_msg
  | TMissing missingBodies
  | TCompact compactProposal
  | TRebuild compactProposal

definition handleOverhead ::
    "('bs, 'e) core_env_scheme \<Rightarrow> net_msg \<Rightarrow> ('bs, 'bo, 'td) node \<Rightarrow> (bool \<times> task list \<times> ('bs, 'bo, 'td) node) option" where
  "handleOverhead E msg p =
     (if \<not> oh_Enabled (pm_Overhead (prm E)) then Some (False, [], p)
      else case msg of
        OHStream bodies \<Rightarrow> do { p \<leftarrow> cacheBodies E bodies p; Some (True, [], p) }
      | OHBodies bodies \<Rightarrow> do { p \<leftarrow> cacheBodies E bodies p; Some (True, [], p) }
      | OHMissing req \<Rightarrow> Some (True, [TMissing req], p)
      | OHCompact cp \<Rightarrow> Some (True, [TCompact cp], p)
      | _ \<Rightarrow> Some (False, [], p))"

definition WaitToStop :: "('bs, 'bo, 'td) node \<Rightarrow> ('bs, 'bo, 'td) node" where
  "WaitToStop p = p\<lparr>pn_stopSignal := True\<rparr>"

definition handleMessage ::
    "('bs, 'bo, 'tr, 'td, 'ns, 'e) node_env_scheme \<Rightarrow> ('bs, 'bo, 'td) ExtraOpInConsensus \<Rightarrow> time \<Rightarrow> net_msg \<Rightarrow>
     ('bs, 'bo, 'td) node \<Rightarrow> (task list \<times> net_out list \<times> ('bs, 'bo, 'td) node) option" where
  "handleMessage E ihm now msg p =
     do { (handled, ts, p) \<leftarrow> handleOverhead E msg p;
          if handled then Some (ts, [], p)
          else case msg of
            CPrePrepare m \<Rightarrow> Some ([TPrePrepare m], [], p)
          | CPrepare m \<Rightarrow> Some ([TPrepare m], [], p)
          | CCommit m \<Rightarrow> Some ([TCommit m], [], p)
          | ViewChangePropose m \<Rightarrow> do { (outs, p) \<leftarrow> handleViewChangeMsg m p; Some ([], outs, p) }
          | NewChange m \<Rightarrow> Some ([], [], handleNewViewMsg now m p)
          | CRequestOldrequest m \<Rightarrow> do { (outs, p) \<leftarrow> handleRequestOldSeq ihm m p; Some ([], outs, p) }
          | CSendOldrequest m \<Rightarrow> do { (outs, p) \<leftarrow> handleSendOldSeq E ihm m p; Some ([], outs, p) }
          | CStop \<Rightarrow> Some ([], [], WaitToStop p)
          | _ \<Rightarrow> Some ([TOutside msg], [], p) }"

text \<open>One turn of a goroutine, and the goroutines that follow it. \<open>ohm\<close> handles outside messages.\<close>

definition run_task ::
    "('bs, 'bo, 'tr, 'td, 'ns, 'e) node_env_scheme \<Rightarrow> ('bs, 'bo, 'td) ExtraOpInConsensus \<Rightarrow>
     (net_msg \<Rightarrow> ('bs, 'bo, 'td) node \<Rightarrow> (bool \<times> ('bs, 'bo, 'td) node) wait option) \<Rightarrow> time \<Rightarrow> bool \<Rightarrow> int \<Rightarrow>
     task \<Rightarrow> ('bs, 'bo, 'td) node \<Rightarrow> (task list \<times> ('bs, 'bo, 'td) node outcome) option" where
  "run_task E ihm ohm now late curView t p =
     (case t of
        TPrePrepare m \<Rightarrow> map_option (Pair []) (handlePrePrepare E ihm curView m p)
      | TPrepare m \<Rightarrow> map_option (Pair []) (handlePrepare ihm curView m p)
      | TCommit m \<Rightarrow> map_option (Pair []) (handleCommit ihm now curView m p)
      | TOutside m \<Rightarrow> map_option (\<lambda>w. ([], case w of Waits \<Rightarrow> Waiting | Ready (_, p) \<Rightarrow> Done [] p)) (ohm m p)
      | TMissing req \<Rightarrow> map_option (\<lambda>outs. ([], Done outs p)) (answerMissing req p)
      | TCompact cp \<Rightarrow> map_option (\<lambda>outs. ([TRebuild cp], Done outs p)) (compact_ask cp p)
      | TRebuild cp \<Rightarrow> map_option (\<lambda>w. case w of Waits \<Rightarrow> ([], Waiting) | Ready pp \<Rightarrow> ([TPrePrepare pp], Done [] p))
                        (compact_rebuild E late cp p))"

end
