(* ===== verification/Pbft_Frames.thy ===== *)
theory Pbft_Frames
  imports Pbft_Handlers
begin

text \<open>
  What the exchangeable parts of a node may touch. The consensus relies on them through the
  locale \<open>node_modules\<close>: executing, proposing and handling outside messages change the chain, the
  data of the re-partition, the overhead cache and the sequence numbers of other shards, and
  nothing of the consensus state. Every variant of the code satisfies it.
\<close>

definition frame :: "('bs, 'bo, 'td) node \<Rightarrow> ('bs, 'bo, 'td) node \<Rightarrow> bool" where
  "frame p p' \<longleftrightarrow> (\<exists>ov ch sq dm. p' = p\<lparr>pn_overhead := ov, pn_CurChain := ch, pn_seqIDMap := sq, pn_cdm := dm\<rparr>)"

lemma frame_refl [intro]: "frame p p"
  unfolding frame_def
  by (rule exI[of _ "pn_overhead p"], rule exI[of _ "pn_CurChain p"], rule exI[of _ "pn_seqIDMap p"],
      rule exI[of _ "pn_cdm p"]) simp

lemma frame_trans [trans]: "frame p q \<Longrightarrow> frame q r \<Longrightarrow> frame p r"
  unfolding frame_def by force

lemma frame_chain [intro]: "frame p (p\<lparr>pn_CurChain := ch\<rparr>)"
  unfolding frame_def
  by (rule exI[of _ "pn_overhead p"], rule exI[of _ ch], rule exI[of _ "pn_seqIDMap p"], rule exI[of _ "pn_cdm p"]) simp

lemma frame_cdm [intro]: "frame p (p\<lparr>pn_cdm := dm\<rparr>)"
  unfolding frame_def
  by (rule exI[of _ "pn_overhead p"], rule exI[of _ "pn_CurChain p"], rule exI[of _ "pn_seqIDMap p"], rule exI[of _ dm]) simp

lemma frame_overhead [intro]: "frame p (p\<lparr>pn_overhead := ov\<rparr>)"
  unfolding frame_def
  by (rule exI[of _ ov], rule exI[of _ "pn_CurChain p"], rule exI[of _ "pn_seqIDMap p"], rule exI[of _ "pn_cdm p"]) simp

lemma frame_seqs [intro]: "frame p (p\<lparr>pn_seqIDMap := sq\<rparr>)"
  unfolding frame_def
  by (rule exI[of _ "pn_overhead p"], rule exI[of _ "pn_CurChain p"], rule exI[of _ sq], rule exI[of _ "pn_cdm p"]) simp

lemma frame_pool [intro]: "frame p (map_pool f p)"
  unfolding map_pool_def by (rule frame_chain)

lemma frame_chain_cdm [intro]: "frame p (p\<lparr>pn_CurChain := ch, pn_cdm := dm\<rparr>)"
  by (rule frame_trans[OF frame_chain frame_cdm])

text \<open>The outputs of the consensus proper: broadcasts to the shard and ends of rounds.\<close>

fun core_event :: "net_out \<Rightarrow> bool" where
  "core_event (Bcast m) = True"
| "core_event (RoundEnd d s) = True"
| "core_event x = False"

abbreviation events :: "net_out list \<Rightarrow> net_out list" where
  "events \<equiv> filter core_event"

lemma events_map_Dial [simp]: "events (map (\<lambda>x. Dial (f x) (g x)) xs) = []"
  by (induction xs) auto

lemma events_mark [simp]: "events (mark_partition E pp) = []"
  by (simp add: mark_partition_def)

section \<open>Frames of the operations\<close>

lemma propose_block_frame:
  "propose_block E now p = Some res \<Longrightarrow> \<exists>r p'. res = Proposed r [] p' \<and> frame p p'"
  by (auto simp: propose_block_def bind_eq_Some_conv)

lemma check_block_result:
  "check_block E m p = Some (flag, p') \<Longrightarrow>
   p' = (if flag then p\<lparr>pn_requestPool := (pn_requestPool p)(pp_Digest m \<mapsto> pp_RequestMsg m)\<rparr> else p)"
  by (auto simp: check_block_def bind_eq_Some_conv split: if_splits)

lemma check_block_or_partition_result:
  "check_block_or_partition E m p = Some (flag, p') \<Longrightarrow>
   p' = (if flag then p\<lparr>pn_requestPool := (pn_requestPool p)(pp_Digest m \<mapsto> pp_RequestMsg m)\<rparr> else p)"
  by (auto simp: check_block_or_partition_def split: if_splits dest: check_block_result)

lemma RelayMsgSend_frame:
  "RelayMsgSend E p = Some (outs, p') \<Longrightarrow> frame p p' \<and> events outs = []"
  by (auto simp: RelayMsgSend_def split: if_splits)

lemma RelayWithProofSend_frame:
  assumes "RelayWithProofSend E block p = Some (outs, p')"
  shows "frame p p' \<and> events outs = []"
proof -
  from assms have loop: "foldlM (\<lambda>outs sid. do {
            let txs = relay_of (bc_Txpool (pn_CurChain p)) sid;
            txProofs \<leftarrow> TxProofBatchGenerateOnBlock E (map tx_TxHash txs) block;
            Some (outs @ [Dial (pn_ip_nodeTable p sid 0)
              (CRelayWithProof \<lparr>rp_Txs = txs, rp_TxProofs = txProofs,
                 rp_SenderShardID = pn_ShardID p, rp_SenderSeq = pn_sequenceID p\<rparr>)]) }) [] (other_shards p) = Some outs"
    and p': "p' = map_pool ClearRelayPool p"
    by (auto simp: RelayWithProofSend_def bind_eq_Some_conv split: if_splits)
  have "events outs = []"
    by (rule foldlM_invariant[OF loop, of "\<lambda>outs. events outs = []"]) (auto simp: bind_eq_Some_conv Let_def)
  with p' show ?thesis by auto
qed

lemma relay_send_frame: "relay_send E block p = Some (outs, p') \<Longrightarrow> frame p p' \<and> events outs = []"
  by (auto simp: relay_send_def split: if_splits dest: RelayMsgSend_frame RelayWithProofSend_frame)

lemma relay_as_leader_frame:
  "relay_as_leader E now epoch r block kept p = Some (outs, p') \<Longrightarrow> frame p p' \<and> events outs = []"
  unfolding relay_as_leader_def Let_def metric_line_def
  by (auto simp: bind_eq_Some_conv dest!: relay_send_frame intro: frame_trans[OF frame_chain])

lemma commit_block_relay_frame:
  "commit_block_relay E now epoch r p = Some (b, outs, p') \<Longrightarrow> frame p p' \<and> events outs = []"
  unfolding commit_block_relay_def Let_def
  by (auto simp: bind_eq_Some_conv split: if_splits dest!: relay_as_leader_frame intro: frame_trans[OF frame_chain])

lemma account_transfer_frame: "account_transfer E atm p = Some p' \<Longrightarrow> frame p p'"
  by (auto simp: account_transfer_def bind_eq_Some_conv Let_def)

lemma accountTransfer_do_frame:
  "CLPA_accountTransfer_do E atm p = Some (outs, p') \<Longrightarrow> frame p p' \<and> events outs = []"
  "Contrib_accountTransfer_do E atm p = Some (outs, p') \<Longrightarrow> frame p p' \<and> events outs = []"
  "CLPABroker_accountTransfer_do E atm p = Some (outs, p') \<Longrightarrow> frame p p' \<and> events outs = []"
  by (auto simp: CLPA_accountTransfer_do_def Contrib_accountTransfer_do_def CLPABroker_accountTransfer_do_def
      migrationDone_def bind_eq_Some_conv dest: account_transfer_frame)

lemma broker_report_events [simp]: "events (broker_report now ep r block cls p) = []"
  by (cases cls) (simp add: broker_report_def seq_infos_def metric_line_def)

lemma HandleinCommit_frame:
  "RawRelay_HandleinCommit E now c p = Some (b, outs, p') \<Longrightarrow> frame p p' \<and> events outs = []"
  "CLPA_HandleinCommit E now c p = Some (b, outs, p') \<Longrightarrow> frame p p' \<and> events outs = []"
  "Contrib_HandleinCommit E now c p = Some (b, outs, p') \<Longrightarrow> frame p p' \<and> events outs = []"
  "Broker_HandleinCommit E now c p = Some (b, outs, p') \<Longrightarrow> frame p p' \<and> events outs = []"
  "CLPABroker_HandleinCommit E now c p = Some (b, outs, p') \<Longrightarrow> frame p p' \<and> events outs = []"
      apply (auto simp: RawRelay_HandleinCommit_def split: option.splits dest: commit_block_relay_frame)[1]
     apply (auto simp: CLPA_HandleinCommit_def bind_eq_Some_conv split: option.splits if_splits
      dest: commit_block_relay_frame accountTransfer_do_frame)[1]
    apply (auto simp: Contrib_HandleinCommit_def bind_eq_Some_conv split: option.splits if_splits
      dest: commit_block_relay_frame accountTransfer_do_frame)[1]
   apply (auto simp: Broker_HandleinCommit_def bind_eq_Some_conv Let_def)[1]
  apply (auto simp: CLPABroker_HandleinCommit_def bind_eq_Some_conv Let_def split: if_splits
      dest: accountTransfer_do_frame)[1]
  done

lemma send_accounts_loop:
  "foldl (send_accounts_shard mm f) (outs0, p0) is = (outs, p) \<Longrightarrow>
   frame q p0 \<Longrightarrow> events outs0 = [] \<Longrightarrow> frame q p \<and> events outs = []"
proof (induction "is" arbitrary: outs0 p0)
  case Nil
  then show ?case by simp
next
  case (Cons i "is")
  obtain outs1 p1 where s: "send_accounts_shard mm f (outs0, p0) i = (outs1, p1)" by fastforce
  have "frame p0 p1 \<and> events outs1 = events outs0"
    using s by (auto simp: send_accounts_shard_def Let_def split_beta)
  with Cons s show ?case by (auto intro: frame_trans)
qed

lemma broker_send_loop:
  "foldl (broker_send_shard mm f) (outs0, x0, p0) is = (outs, x, p) \<Longrightarrow>
   frame q p0 \<Longrightarrow> events outs0 = [] \<Longrightarrow> frame q p \<and> events outs = []"
proof (induction "is" arbitrary: outs0 x0 p0)
  case Nil
  then show ?case by simp
next
  case (Cons i "is")
  obtain outs1 x1 p1 where s: "broker_send_shard mm f (outs0, x0, p0) i = (outs1, x1, p1)" by (metis prod_cases3)
  have "frame p0 p1" "events outs1 = events outs0"
    using s by (auto simp: broker_send_shard_def Let_def split_beta)
  with Cons.prems s show ?case by (intro Cons.IH[of outs1 x1 p1]) (auto intro: frame_trans[of q p0 p1])
qed

lemma prod_collapse3: "x = (fst x, fst (snd x), snd (snd x))"
  by simp

lemma sendAccounts_frame:
  "sendAccounts_and_Txs E p = Some (outs, p') \<Longrightarrow> frame p p' \<and> events outs = []"
  "CLPABroker_sendAccounts_and_Txs E p = Some (outs, p') \<Longrightarrow> frame p p' \<and> events outs = []"
   apply (auto simp: sendAccounts_and_Txs_def bind_eq_Some_conv dest!: send_accounts_loop[OF _ frame_refl filter.simps(1)[of core_event]])[1]
  apply (simp add: CLPABroker_sendAccounts_and_Txs_def bind_eq_Some_conv Let_def split_beta)
  apply (elim exE conjE)
  subgoal for mm accs sts
    using broker_send_loop[of mm "zip accs sts" "[]" "[]" p "other_shards p", OF prod_collapse3 frame_refl filter.simps(1)[of core_event]]
    by auto
  done

fun result_of :: "'n propose_result \<Rightarrow> net_out list \<times> 'n" where
  "result_of (Yield pc outs p) = (outs, p)"
| "result_of (Proposed r outs p) = (outs, p)"

definition quiet :: "('bs, 'bo, 'td) node \<Rightarrow> ('bs, 'bo, 'td) node propose_result \<Rightarrow> bool" where
  "quiet p res \<longleftrightarrow> frame p (snd (result_of res)) \<and> events (fst (result_of res)) = []"

lemma frame_cdm_pool [intro]: "frame p (map_pool f (p\<lparr>pn_cdm := d\<rparr>))"
  by (rule frame_trans[OF frame_cdm frame_pool])

lemma proposePartition_quiet:
  "CLPA_proposePartition E now p = Some res \<Longrightarrow> quiet p res"
  "Contrib_proposePartition E now p = Some res \<Longrightarrow> quiet p res"
  "CLPABroker_proposePartition E now p = Some res \<Longrightarrow> quiet p res"
  by (auto simp: CLPA_proposePartition_def Contrib_proposePartition_def CLPABroker_proposePartition_def
      bind_eq_Some_conv Let_def quiet_def)

lemma propose_or_partition_quiet:
  assumes "propose_or_partition E now send part pc p = Some res"
    and "\<And>outs p'. send p = Some (outs, p') \<Longrightarrow> frame p p' \<and> events outs = []"
    and "\<And>res. part p = Some res \<Longrightarrow> quiet p res"
  shows "quiet p res"
  using assms
  by (cases pc)
     (auto simp: propose_or_partition_def sendPartitionReady_def Let_def quiet_def bind_eq_Some_conv
       split: if_splits dest!: propose_block_frame)

lemma HandleinPropose_quiet:
  "RawRelay_HandleinPropose E now pc p = Some res \<Longrightarrow> quiet p res"
  "Broker_HandleinPropose E now pc p = Some res \<Longrightarrow> quiet p res"
  "CLPA_HandleinPropose E now pc p = Some res \<Longrightarrow> quiet p res"
  "Contrib_HandleinPropose E now pc p = Some res \<Longrightarrow> quiet p res"
  "CLPABroker_HandleinPropose E now pc p = Some res \<Longrightarrow> quiet p res"
  by (auto simp: RawRelay_HandleinPropose_def Broker_HandleinPropose_def CLPA_HandleinPropose_def
      Contrib_HandleinPropose_def CLPABroker_HandleinPropose_def quiet_def dest!: propose_block_frame
      elim!: propose_or_partition_quiet[unfolded quiet_def]
      dest: sendAccounts_frame proposePartition_quiet[unfolded quiet_def])

section \<open>Frames of catching up and of outside messages\<close>

lemma old_requests_loop_inv:
  assumes "old_requests_loop body som s = Some s'" "P s"
    and "\<And>r s s'. P s \<Longrightarrow> body r s = Some s' \<Longrightarrow> P s'"
  shows "P s'"
proof (cases "so_SeqStartHeight som \<le> so_SeqEndHeight som")
  case False
  with assms(1,2) show ?thesis by (simp add: old_requests_loop_def)
next
  case True
  with assms(1) have "foldlM (\<lambda>s i. if i < length (so_OldRequest som) then body (so_OldRequest som ! i) s else None)
      s [0..<unat (so_SeqEndHeight som - so_SeqStartHeight som) + 1] = Some s'"
    by (auto simp: old_requests_loop_def bind_eq_Some_conv simp del: upt_Suc split: if_splits)
  then show ?thesis by (rule foldlM_invariant) (auto intro: assms(2,3) split: if_splits)
qed

lemma sequential_frame:
  assumes "sequential_requests body n som p = Some (b, outs, p')"
    and "\<And>r outs q outs' q'. body r (outs, q) = Some (outs', q') \<Longrightarrow> frame q q' \<and> events outs' = events outs"
  shows "(\<exists>q s. frame p q \<and> p' = q\<lparr>pn_sequenceID := s\<rparr>) \<and> events outs = []"
proof (cases "n = int (length (so_OldRequest som))")
  case False
  with assms(1) have "p' = p\<lparr>pn_sequenceID := pn_sequenceID p\<rparr>" "outs = []" by (auto simp: sequential_requests_def)
  then show ?thesis using frame_refl[of p] by (auto intro!: exI[of _ p] exI[of _ "pn_sequenceID p"])
next
  case True
  with assms(1) obtain q where q: "old_requests_loop body som ([], p) = Some (outs, q)"
    "p' = q\<lparr>pn_sequenceID := so_SeqEndHeight som + 1\<rparr>"
    by (auto simp: sequential_requests_def bind_eq_Some_conv)
  have "case (outs, q) of (outs, q) \<Rightarrow> frame p q \<and> events outs = []"
  proof (rule old_requests_loop_inv[OF q(1)])
    show "case ([], p) of (outs, q) \<Rightarrow> frame p q \<and> events outs = []" by auto
  next
    fix r s s'
    assume P: "case s of (outs, q) \<Rightarrow> frame p q \<and> events outs = []" and b: "body r s = Some s'"
    obtain o1 q1 where s: "s = (o1, q1)" by fastforce
    obtain o2 q2 where s': "s' = (o2, q2)" by fastforce
    from assms(2)[of r o1 q1 o2 q2] P b show "case s' of (outs, q) \<Rightarrow> frame p q \<and> events outs = []"
      by (auto simp: s s' intro: frame_trans[of p q1 q2])
  qed
  with q(2) show ?thesis by auto
qed

lemma old_request_frame:
  "old_request_blocks E r (outs, q) = Some (outs', q') \<Longrightarrow> frame q q' \<and> events outs' = events outs"
  "old_request_both tr E r (outs, q) = Some (outs', q') \<Longrightarrow>
   (\<And>atm outs p'. tr atm q = Some (outs, p') \<Longrightarrow> frame q p' \<and> events outs = []) \<Longrightarrow>
   frame q q' \<and> events outs' = events outs"
  by (auto simp: old_request_blocks_def old_request_both_def add_old_block_def bind_eq_Some_conv split: if_splits)

lemma HandleforSequentialRequest_frame:
  "RawRelay_HandleforSequentialRequest E som p = Some (b, outs, p') \<Longrightarrow> (\<exists>q s. frame p q \<and> p' = q\<lparr>pn_sequenceID := s\<rparr>) \<and> events outs = []"
  "CLPA_HandleforSequentialRequest E som p = Some (b, outs, p') \<Longrightarrow> (\<exists>q s. frame p q \<and> p' = q\<lparr>pn_sequenceID := s\<rparr>) \<and> events outs = []"
  "Contrib_HandleforSequentialRequest E som p = Some (b, outs, p') \<Longrightarrow> (\<exists>q s. frame p q \<and> p' = q\<lparr>pn_sequenceID := s\<rparr>) \<and> events outs = []"
  "Broker_HandleforSequentialRequest E som p = Some (b, outs, p') \<Longrightarrow> (\<exists>q s. frame p q \<and> p' = q\<lparr>pn_sequenceID := s\<rparr>) \<and> events outs = []"
  "CLPABroker_HandleforSequentialRequest E som p = Some (b, outs, p') \<Longrightarrow> (\<exists>q s. frame p q \<and> p' = q\<lparr>pn_sequenceID := s\<rparr>) \<and> events outs = []"
  unfolding RawRelay_HandleforSequentialRequest_def CLPA_HandleforSequentialRequest_def
    Contrib_HandleforSequentialRequest_def Broker_HandleforSequentialRequest_def
    CLPABroker_HandleforSequentialRequest_def
  by (erule sequential_frame, erule old_request_frame; fastforce dest: accountTransfer_do_frame)+

lemma cacheBodies_frame: "cacheBodies E bodies p = Some p' \<Longrightarrow> frame p p'"
  by (auto simp: cacheBodies_def bind_eq_Some_conv)

lemma stream_frame: "streamTransactions E txs p = Some (Ready p') \<Longrightarrow> frame p p'"
  by (auto simp: streamTransactions_def bind_eq_Some_conv Let_def split: if_splits
      dest!: cacheBodies_frame intro: frame_trans)

lemma pool_seq_frame [intro]:
  "frame p (add_to_pool now txs p)" "frame p (set_seq a b p)" "frame p (set_seq a b (add_to_pool now txs p))"
  by (auto simp: add_to_pool_def set_seq_def intro: frame_trans[OF frame_pool])

lemma stream_then_frame:
  "stream_then E txs f p = Some (Ready p') \<Longrightarrow> (\<And>q. frame q (f q)) \<Longrightarrow> frame p p'"
  apply (cases "streamTransactions E txs p", simp add: stream_then_def)
  subgoal for w by (cases w) (auto simp: stream_then_def dest!: stream_frame intro: frame_trans)
  done

lemma partition_msgs_frame [intro]:
  "frame p (handlePartitionMsg pm p)" "frame p (handlePartitionReady pr p)" "frame p (handleAccountStateAndTxMsg at p)"
  by (auto simp: handlePartitionMsg_def handlePartitionReady_def handleAccountStateAndTxMsg_def Let_def)

lemma withProof_frame:
  "RawRelay_handleRelayWithProof E now m p = Some p' \<Longrightarrow> frame p p'"
  "CLPA_handleRelayWithProof E now m p = Some p' \<Longrightarrow> frame p p'"
  by (auto simp: RawRelay_handleRelayWithProof_def CLPA_handleRelayWithProof_def bind_eq_Some_conv Let_def)

lemma answer_frame:
  "map_option (\<lambda>w. case w of Waits \<Rightarrow> Waits | Ready p \<Rightarrow> Ready (True, p)) r = Some (Ready (b, p')) \<Longrightarrow> r = Some (Ready p')"
  by (cases r) (auto split: wait.split_asm)

lemma CLPA_handle_frame:
  "CLPA_handleRelay E now rl p = Some (Ready p') \<Longrightarrow> frame p p'"
  "CLPA_handleInjectTx E now it p = Some (Ready p') \<Longrightarrow> frame p p'"
  by (auto simp: CLPA_handleRelay_def CLPA_handleInjectTx_def elim!: stream_then_frame)

lemma plain_handle_frame [intro]:
  "frame p (RawRelay_handleRelay now rl p)" "frame p (RawRelay_handleInjectTx now it p)"
  "frame p (handleSeqIDinfos sii p)" "frame p (Broker_handleInjectTx now it p)"
  by (auto simp: RawRelay_handleRelay_def RawRelay_handleInjectTx_def handleSeqIDinfos_def Broker_handleInjectTx_def)

lemma RawRelay_outside_frame:
  "RawRelay_HandleMessageOutsidePBFT E now msg p = Some (Ready (b, p')) \<Longrightarrow> frame p p'"
  by (cases msg) (auto simp: RawRelay_HandleMessageOutsidePBFT_def bind_eq_Some_conv dest: withProof_frame)

lemma CLPA_outside_frame:
  "CLPA_HandleMessageOutsidePBFT E now msg p = Some (Ready (b, p')) \<Longrightarrow> frame p p'"
  by (cases msg) (auto simp: CLPA_HandleMessageOutsidePBFT_def bind_eq_Some_conv Let_def
      simp del: map_option_eq_Some dest!: answer_frame dest: withProof_frame CLPA_handle_frame)

lemma other_outside_frame:
  "Contrib_HandleMessageOutsidePBFT now msg p = Some (Ready (b, p')) \<Longrightarrow> frame p p'"
  "Broker_HandleMessageOutsidePBFT now msg p = Some (Ready (b, p')) \<Longrightarrow> frame p p'"
  "CLPABroker_HandleMessageOutsidePBFT now msg p = Some (Ready (b, p')) \<Longrightarrow> frame p p'"
    apply (cases msg; auto simp: Contrib_HandleMessageOutsidePBFT_def)
   apply (cases msg; auto simp: Broker_HandleMessageOutsidePBFT_def)
  apply (cases msg; auto simp: CLPABroker_HandleMessageOutsidePBFT_def)
  done

lemmas HandleMessageOutside_frame = RawRelay_outside_frame CLPA_outside_frame other_outside_frame

section \<open>The interface to the exchangeable parts\<close>

text \<open>
  What the consensus relies on: the operations of \<^verbatim>\<open>ExtraOpInConsensus\<close> and the handler of outside
  messages keep to the frame and end no round; a pre-prepare handler at most puts the request into the
  pool; catching up may also move the sequence number.
\<close>

locale node_modules =
  fixes ihm :: "time \<Rightarrow> ('bs, 'bo, 'td) ExtraOpInConsensus"
    and ohm :: "time \<Rightarrow> net_msg \<Rightarrow> ('bs, 'bo, 'td) node \<Rightarrow> (bool \<times> ('bs, 'bo, 'td) node) wait option"
  assumes propose_quiet: "HandleinPropose (ihm now) pc p = Some res \<Longrightarrow> quiet p res"
    and preprepare_result: "HandleinPrePrepare (ihm now) m p = Some (flag, p') \<Longrightarrow>
      p' = (if flag then p\<lparr>pn_requestPool := (pn_requestPool p)(pp_Digest m \<mapsto> pp_RequestMsg m)\<rparr> else p)"
    and prepare_id: "HandleinPrepare (ihm now) pm p = Some (b, p') \<Longrightarrow> p' = p"
    and commit_frame: "HandleinCommit (ihm now) c p = Some (b, outs, p') \<Longrightarrow> frame p p' \<and> events outs = []"
    and old_id: "HandleReqestforOldSeq (ihm now) rom p = Some (b, p') \<Longrightarrow> p' = p"
    and sequential_moves: "HandleforSequentialRequest (ihm now) som p = Some (b, outs, p') \<Longrightarrow>
      (\<exists>q s. frame p q \<and> p' = q\<lparr>pn_sequenceID := s\<rparr>) \<and> events outs = []"
    and outside_frame: "ohm now msg p = Some (Ready (b, p')) \<Longrightarrow> frame p p'"

lemma no_op_id: "no_op m p = Some (b, p') \<Longrightarrow> p' = p"
  by (simp add: no_op_def)

lemmas PrePrepare_defs = RawRelay_HandleinPrePrepare_def CLPA_HandleinPrePrepare_def Contrib_HandleinPrePrepare_def
  Broker_HandleinPrePrepare_def CLPABroker_HandleinPrePrepare_def

interpretation raw: node_modules "RawRelay_ihm E" "RawRelay_HandleMessageOutsidePBFT E"
  by unfold_locales
     (auto simp only: RawRelay_ihm_def ExtraOpInConsensus.select_convs PrePrepare_defs
       dest: HandleinPropose_quiet check_block_result no_op_id HandleinCommit_frame HandleforSequentialRequest_frame
         HandleMessageOutside_frame)

interpretation clpa: node_modules "CLPA_ihm E" "CLPA_HandleMessageOutsidePBFT E"
  by unfold_locales
     (auto simp only: CLPA_ihm_def ExtraOpInConsensus.select_convs PrePrepare_defs
       dest: HandleinPropose_quiet check_block_or_partition_result no_op_id HandleinCommit_frame HandleforSequentialRequest_frame
         HandleMessageOutside_frame)

interpretation contrib: node_modules "Contrib_ihm E" Contrib_HandleMessageOutsidePBFT
  by unfold_locales
     (auto simp only: Contrib_ihm_def ExtraOpInConsensus.select_convs PrePrepare_defs
       dest: HandleinPropose_quiet check_block_or_partition_result no_op_id HandleinCommit_frame HandleforSequentialRequest_frame
         HandleMessageOutside_frame)

interpretation broker: node_modules "Broker_ihm E" Broker_HandleMessageOutsidePBFT
  by unfold_locales
     (auto simp only: Broker_ihm_def ExtraOpInConsensus.select_convs PrePrepare_defs
       dest: HandleinPropose_quiet check_block_result no_op_id HandleinCommit_frame HandleforSequentialRequest_frame
         HandleMessageOutside_frame)

interpretation clpabroker: node_modules "CLPABroker_ihm E" CLPABroker_HandleMessageOutsidePBFT
  by unfold_locales
     (auto simp only: CLPABroker_ihm_def ExtraOpInConsensus.select_convs PrePrepare_defs
       dest: HandleinPropose_quiet check_block_or_partition_result no_op_id HandleinCommit_frame HandleforSequentialRequest_frame
         HandleMessageOutside_frame)

text \<open>Hence every node that \<^verbatim>\<open>NewPbftNode\<close> can make is covered.\<close>

lemma select_modules: "node_modules (select_ihm E ty) (select_ohm E ty)"
proof -
  note ms = raw.node_modules_axioms[of E] clpa.node_modules_axioms[of E] contrib.node_modules_axioms[of E]
    broker.node_modules_axioms[of E] clpabroker.node_modules_axioms[of E]
  have "select_ihm E ty = CLPABroker_ihm E \<and> select_ohm E ty = CLPABroker_HandleMessageOutsidePBFT
      \<or> select_ihm E ty = CLPA_ihm E \<and> select_ohm E ty = CLPA_HandleMessageOutsidePBFT E
      \<or> select_ihm E ty = Broker_ihm E \<and> select_ohm E ty = Broker_HandleMessageOutsidePBFT
      \<or> select_ihm E ty = Contrib_ihm E \<and> select_ohm E ty = Contrib_HandleMessageOutsidePBFT
      \<or> select_ihm E ty = RawRelay_ihm E \<and> select_ohm E ty = RawRelay_HandleMessageOutsidePBFT E"
    by (auto simp: fun_eq_iff select_ihm_def select_ohm_def)
  with ms show ?thesis by metis
qed

interpretation sel: node_modules "select_ihm E ty" "select_ohm E ty"
  by (rule select_modules)

end
