(* ===== verification/Pbft_System.thy ===== *)
theory Pbft_System
  imports Pbft_Frames
begin

text \<open>
  A running consensus node as a state machine: the messages that arrive, the goroutines that
  \<^verbatim>\<open>handleMessage\<close> and \<^verbatim>\<open>Propose\<close> start, and the atomic pieces of work they do. Message handlers
  hold \<^verbatim>\<open>tcpPoolLock\<close> (\<open>recv\<close>) or \<^verbatim>\<open>pbftLock\<close> (\<open>run\<close>); each is one step, whose order is
  arbitrary. A handler that waits on the condition variable has no step until it can go on; one that
  holds \<^verbatim>\<open>pbftLock\<close> while it waits for \<^verbatim>\<open>askForLock\<close> keeps the others out. A panic ends the
  process, so it has no step either. The wall clock is arbitrary at every step.
\<close>

record ('bs, 'bo, 'td) sys =
  sy_node :: "('bs, 'bo, 'td) node"
  sy_recv :: "net_msg list"
  sy_new :: "task list"
  sy_run :: "(task \<times> int) list"
  sy_blocked :: "Commit option"
  sy_props :: "propose_pc list"
  sy_trace :: "net_out list"

definition sys_init :: "('bs, 'bo, 'td) node \<Rightarrow> ('bs, 'bo, 'td) sys" where
  "sys_init p = \<lparr>sy_node = p, sy_recv = [], sy_new = [], sy_run = [], sy_blocked = None, sy_props = [], sy_trace = []\<rparr>"

fun needs_lock :: "task \<Rightarrow> bool" where
  "needs_lock (TPrePrepare m) = True"
| "needs_lock (TPrepare m) = True"
| "needs_lock (TCommit m) = True"
| "needs_lock t = False"

inductive pbft_step ::
    "('bs, 'bo, 'tr, 'td, 'ns, 'e) node_env_scheme \<Rightarrow> (time \<Rightarrow> ('bs, 'bo, 'td) ExtraOpInConsensus) \<Rightarrow>
     (time \<Rightarrow> net_msg \<Rightarrow> ('bs, 'bo, 'td) node \<Rightarrow> (bool \<times> ('bs, 'bo, 'td) node) wait option) \<Rightarrow>
     ('bs, 'bo, 'td) sys \<Rightarrow> ('bs, 'bo, 'td) sys \<Rightarrow> bool"
  for E ihm ohm where
  recv: "\<not> pn_stopSignal (sy_node s) \<Longrightarrow> handleMessage E (ihm now) now msg (sy_node s) = Some (ts, outs, p) \<Longrightarrow>
    pbft_step E ihm ohm s (s\<lparr>sy_node := p, sy_recv := sy_recv s @ [msg], sy_new := sy_new s @ ts,
                             sy_trace := sy_trace s @ outs\<rparr>)"
| load: "t \<in> set (sy_new s) \<Longrightarrow>
    pbft_step E ihm ohm s (s\<lparr>sy_new := remove1 t (sy_new s), sy_run := sy_run s @ [(t, pn_view (sy_node s))]\<rparr>)"
| run: "(t, v) \<in> set (sy_run s) \<Longrightarrow> needs_lock t \<longrightarrow> sy_blocked s = None \<Longrightarrow>
    run_task E (ihm now) (ohm now) now late v t (sy_node s) = Some (ts, Done outs p) \<Longrightarrow>
    pbft_step E ihm ohm s (s\<lparr>sy_node := p, sy_run := remove1 (t, v) (sy_run s), sy_new := sy_new s @ ts,
                             sy_trace := sy_trace s @ outs\<rparr>)"
| block: "(TCommit c, v) \<in> set (sy_run s) \<Longrightarrow> sy_blocked s = None \<Longrightarrow>
    run_task E (ihm now) (ohm now) now late v (TCommit c) (sy_node s) = Some (ts, Blocked p) \<Longrightarrow>
    pbft_step E ihm ohm s (s\<lparr>sy_node := p, sy_run := remove1 (TCommit c, v) (sy_run s), sy_blocked := Some c\<rparr>)"
| resume: "sy_blocked s = Some c \<Longrightarrow> ask_old_requests now c (sy_node s) = Some (Done outs p) \<Longrightarrow>
    pbft_step E ihm ohm s (s\<lparr>sy_node := p, sy_blocked := None, sy_trace := sy_trace s @ outs\<rparr>)"
| signal: "pn_pbftStage (sy_node s) = 1 \<Longrightarrow> \<not> pn_stopSignal (sy_node s) \<Longrightarrow>
    pbft_step E ihm ohm s (s\<lparr>sy_props := sy_props s @ [ProposeBegin]\<rparr>)"
| propose: "pc \<in> set (sy_props s) \<Longrightarrow> Propose E (ihm now) pc (sy_node s) = Some (Ready (next, outs, p)) \<Longrightarrow>
    pbft_step E ihm ohm s (s\<lparr>sy_node := p, sy_trace := sy_trace s @ outs,
        sy_props := remove1 pc (sy_props s) @ (case next of Inl pc' \<Rightarrow> [pc'] | Inr _ \<Rightarrow> [])\<rparr>)"
| timer: "viewChangeTimer E now (sy_node s) = Some (outs, p) \<Longrightarrow>
    pbft_step E ihm ohm s (s\<lparr>sy_node := p, sy_trace := sy_trace s @ outs\<rparr>)"
| stream: "stream_worker E (sy_node s) = Some (Ready (outs, p)) \<Longrightarrow>
    pbft_step E ihm ohm s (s\<lparr>sy_node := p, sy_trace := sy_trace s @ outs\<rparr>)"

text \<open>The reachable states of a node of the given variant.\<close>

definition pbft_reachable ::
    "('bs, 'bo, 'tr, 'td, 'ns, 'e) node_env_scheme \<Rightarrow> bytes \<Rightarrow> ('bs, 'bo, 'td) node \<Rightarrow> ('bs, 'bo, 'td) sys \<Rightarrow> bool" where
  "pbft_reachable E ty p s \<longleftrightarrow> (pbft_step E (select_ihm E ty) (select_ohm E ty))\<^sup>*\<^sup>* (sys_init p) s"

section \<open>What the tasks stand for\<close>

text \<open>Every piece of pending work for a vote comes from a message that was received.\<close>

fun task_from :: "net_msg set \<Rightarrow> task \<Rightarrow> bool" where
  "task_from M (TPrepare m) \<longleftrightarrow> CPrepare m \<in> M"
| "task_from M (TCommit m) \<longleftrightarrow> CCommit m \<in> M"
| "task_from M t \<longleftrightarrow> True"

definition tasks_ok :: "('bs, 'bo, 'td) sys \<Rightarrow> bool" where
  "tasks_ok s \<longleftrightarrow> (\<forall>t \<in> set (sy_new s) \<union> fst ` set (sy_run s). task_from (set (sy_recv s)) t)"

lemma task_from_mono: "task_from M t \<Longrightarrow> M \<subseteq> M' \<Longrightarrow> task_from M' t"
  by (cases t) auto

lemma handleOverhead_result:
  "handleOverhead E msg p = Some (handled, ts, p') \<Longrightarrow> frame p p' \<and> (\<forall>t \<in> set ts. task_from M t)"
  by (cases msg) (auto simp: handleOverhead_def bind_eq_Some_conv dest: cacheBodies_frame split: if_splits)

lemma handleMessage_tasks:
  assumes "handleMessage E i now msg p = Some (ts, outs, p')" "msg \<in> M"
  shows "\<forall>t \<in> set ts. task_from M t"
proof -
  from assms(1) obtain handled ts0 p0 where h: "handleOverhead E msg p = Some (handled, ts0, p0)"
    by (auto simp: handleMessage_def bind_eq_Some_conv)
  show ?thesis
  proof (cases handled)
    case True
    with assms(1) h have "ts = ts0" by (simp add: handleMessage_def)
    with handleOverhead_result[OF h, of M] show ?thesis by simp
  next
    case False
    with assms h show ?thesis
      by (cases msg) (auto simp: handleMessage_def bind_eq_Some_conv)
  qed
qed

lemma map_wait_Some:
  "map_option f x = Some y \<longleftrightarrow> (x = Some Waits \<and> f Waits = y) \<or> (\<exists>a. x = Some (Ready a) \<and> f (Ready a) = y)"
  by (cases x) (auto intro: wait.exhaust)

lemma run_task_tasks: "run_task E i o' now late v t p = Some (ts, r) \<Longrightarrow> \<forall>t \<in> set ts. task_from M t"
  by (cases t; (simp add: run_task_def map_wait_Some del: map_option_eq_Some)?; auto simp: run_task_def)

lemma tasks_ok_sub:
  assumes "tasks_ok s" "set (sy_recv s) \<subseteq> set (sy_recv s')" "\<forall>t \<in> set ts. task_from (set (sy_recv s')) t"
    and "set (sy_new s') \<subseteq> set (sy_new s) \<union> set ts"
    and "fst ` set (sy_run s') \<subseteq> fst ` set (sy_run s) \<union> set (sy_new s)"
  shows "tasks_ok s'"
  unfolding tasks_ok_def
proof
  fix t
  assume "t \<in> set (sy_new s') \<union> fst ` set (sy_run s')"
  with assms(4,5) have "t \<in> set ts \<or> t \<in> set (sy_new s) \<union> fst ` set (sy_run s)" by blast
  with assms(1-3) show "task_from (set (sy_recv s')) t"
    unfolding tasks_ok_def by (blast intro: task_from_mono)
qed

lemma fst_remove1: "fst ` set (remove1 x xs) \<subseteq> fst ` set xs"
  using set_remove1_subset by fast

lemma step_tasks_ok:
  assumes "pbft_step E ihm ohm s s'" "tasks_ok s"
  shows "tasks_ok s'"
  using assms(1)
proof (cases rule: pbft_step.cases)
  case (recv now msg ts outs p)
  have "\<forall>t \<in> set ts. task_from (set (sy_recv s @ [msg])) t"
    by (rule handleMessage_tasks[OF recv(3)]) simp
  with recv(1) show ?thesis by (intro tasks_ok_sub[OF assms(2), of _ ts]) auto
next
  case (run t v now late ts outs p)
  from run_task_tasks[OF run(4), of "set (sy_recv s)"] run(1) show ?thesis
    by (intro tasks_ok_sub[OF assms(2), of _ ts]) (simp_all add: fst_remove1 le_supI1)
next
  case (load t)
  then show ?thesis
    by (intro tasks_ok_sub[OF assms(2), of _ "[]"]) (simp_all add: set_remove1_subset)
next
  case (block c v now late ts p)
  then show ?thesis
    by (intro tasks_ok_sub[OF assms(2), of _ "[]"]) (simp_all add: fst_remove1 le_supI1)
qed (use assms(2) in \<open>simp_all add: tasks_ok_def\<close>)

end
