(* ===== verification/Pbft_Safety.thy ===== *)
theory Pbft_Safety
  imports Pbft_System
begin

text \<open>
  Safety of the consensus of one node: a request is executed only after commit messages from 2f+1
  different nodes, at most once, and under consecutive sequence numbers while nobody interferes; a
  commit is broadcast only after prepare messages from 2f+1 different nodes; the view changes only
  on new-view messages from 2f+1 different nodes. Proved as invariants of the step relation for
  every variant of the exchangeable parts.
\<close>

section \<open>Votes of a view change\<close>

lemma vc_voters_add:
  "vc_voters (vc_add k v m) k' =
     (if k' = k \<and> v \<notin> set (vc_voters m k) then vc_voters m k @ [v] else vc_voters m k')"
  by (auto simp: vc_voters_def vc_add_def)

interpretation nv: vote_table vc_voters id vc_add
  by unfold_locales (simp_all add: vc_voters_add)

section \<open>The invariant of the node\<close>

definition rounds :: "net_out list \<Rightarrow> (bytes \<times> u64) list" where
  "rounds outs = List.map_filter (\<lambda>x. case x of RoundEnd d s \<Rightarrow> Some (d, s) | _ \<Rightarrow> None) outs"

lemma rounds_simps [simp]:
  "rounds [] = []" "rounds (xs @ ys) = rounds xs @ rounds ys"
  "rounds (Dial a m # xs) = rounds xs" "rounds (Bcast m # xs) = rounds xs"
  "rounds (CsvLine l # xs) = rounds xs" "rounds (MarkDigest d # xs) = rounds xs"
  "rounds (RoundEnd d s # xs) = (d, s) # rounds xs"
  by (simp_all add: rounds_def map_filter_def)

lemma events_silent: "events outs = [] \<Longrightarrow> rounds outs = [] \<and> (\<forall>m. Bcast m \<notin> set outs)"
proof (induction outs)
  case (Cons x outs)
  then show ?case by (cases x) auto
qed simp

lemma mark_silent [simp]: "rounds (mark_partition E pp) = []" "Bcast m \<notin> set (mark_partition E pp)"
  using events_silent[OF events_mark[of E pp]] by auto

text \<open>Who sent what, as a set of senders.\<close>

definition preparers :: "net_msg set \<Rightarrow> bytes \<Rightarrow> (u64 \<times> u64) set" where
  "preparers M d = {node_key (pr_SenderNode m) |m. CPrepare m \<in> M \<and> pr_Digest m = d}"

definition committers :: "net_msg set \<Rightarrow> bytes \<Rightarrow> (u64 \<times> u64) set" where
  "committers M d = {node_key (cm_SenderNode m) |m. CCommit m \<in> M \<and> cm_Digest m = d}"

definition new_viewers :: "net_msg set \<Rightarrow> int \<times> int \<Rightarrow> u64 set" where
  "new_viewers M k = {nv_FromNode m |m. NewChange m \<in> M \<and> (nv_NextView m, nv_NewSeqID m) = k}"

definition quorum :: "('bs, 'bo, 'td) node \<Rightarrow> nat" where
  "quorum p = unat (2 * pn_malicious_nums p + 1)"

definition prepare_ok :: "net_msg set \<Rightarrow> net_out list \<Rightarrow> ('bs, 'bo, 'td) node \<Rightarrow> bool" where
  "prepare_ok M tr p \<longleftrightarrow> pv.table_ok (pn_cntPrepareConfirm p)
     \<and> (\<forall>d. node_key ` set (votes (pn_cntPrepareConfirm p) d) \<subseteq> preparers M d)
     \<and> (\<forall>d. pn_isCommitBordcast p d \<longrightarrow> quorum p \<le> length (votes (pn_cntPrepareConfirm p) d))
     \<and> (\<forall>c. Bcast (CCommit c) \<in> set tr \<longrightarrow> pn_isCommitBordcast p (cm_Digest c))"

definition commit_ok :: "net_msg set \<Rightarrow> net_out list \<Rightarrow> ('bs, 'bo, 'td) node \<Rightarrow> bool" where
  "commit_ok M tr p \<longleftrightarrow> pv.table_ok (pn_cntCommitConfirm p)
     \<and> (\<forall>d. node_key ` set (votes (pn_cntCommitConfirm p) d) \<subseteq> committers M d)
     \<and> (\<forall>d. d \<in> fst ` set (rounds tr) \<longrightarrow> pn_isReply p d \<and> quorum p \<le> length (votes (pn_cntCommitConfirm p) d))
     \<and> distinct (map fst (rounds tr))"

definition view_ok :: "net_msg set \<Rightarrow> ('bs, 'bo, 'td) node \<Rightarrow> bool" where
  "view_ok M p \<longleftrightarrow> nv.table_ok (pn_newViewMap p)
     \<and> (\<forall>k. set (vc_voters (pn_newViewMap p) k) \<subseteq> new_viewers M k)
     \<and> (pn_view p \<noteq> 0 \<longrightarrow> (\<exists>k. pn_view p = to_int32 (fst k) \<and> vc_quorum p \<le> int (length (vc_voters (pn_newViewMap p) k))))"

definition node_ok :: "u64 \<Rightarrow> net_msg set \<Rightarrow> net_out list \<Rightarrow> ('bs, 'bo, 'td) node \<Rightarrow> bool" where
  "node_ok f M tr p \<longleftrightarrow> prepare_ok M tr p \<and> commit_ok M tr p \<and> view_ok M p \<and> f = pn_malicious_nums p"

lemmas node_ok_defs = node_ok_def prepare_ok_def commit_ok_def view_ok_def quorum_def vc_quorum_def

lemma senders_mono:
  "M \<subseteq> M' \<Longrightarrow> preparers M d \<subseteq> preparers M' d" "M \<subseteq> M' \<Longrightarrow> committers M d \<subseteq> committers M' d"
  "M \<subseteq> M' \<Longrightarrow> new_viewers M k \<subseteq> new_viewers M' k"
  by (auto simp: preparers_def committers_def new_viewers_def)

lemma node_ok_mono:
  assumes "node_ok f M tr p" "M \<subseteq> M'"
  shows "node_ok f M' tr p"
proof -
  have "prepare_ok M' tr p" using assms senders_mono(1)[OF assms(2)] unfolding node_ok_def prepare_ok_def by fast
  moreover have "commit_ok M' tr p" using assms senders_mono(2)[OF assms(2)] unfolding node_ok_def commit_ok_def by fast
  moreover have "view_ok M' p" using assms senders_mono(3)[OF assms(2)] unfolding node_ok_def view_ok_def by fast
  ultimately show ?thesis using assms(1) by (simp add: node_ok_def)
qed

lemma node_ok_frame [simp]: "frame p p' \<Longrightarrow> node_ok f M tr p' \<longleftrightarrow> node_ok f M tr p"
  by (clarsimp simp: frame_def node_ok_defs)

text \<open>The fields the invariant does not look at.\<close>

lemma node_ok_updates [simp]:
  "node_ok f M tr (p\<lparr>pn_requestPool := rp\<rparr>) \<longleftrightarrow> node_ok f M tr p"
  "node_ok f M tr (p\<lparr>pn_height2Digest := hm\<rparr>) \<longleftrightarrow> node_ok f M tr p"
  "node_ok f M tr (p\<lparr>pn_pbftStage := st\<rparr>) \<longleftrightarrow> node_ok f M tr p"
  "node_ok f M tr (p\<lparr>pn_lastCommitTime := tm\<rparr>) \<longleftrightarrow> node_ok f M tr p"
  "node_ok f M tr (p\<lparr>pn_sequenceLock := b\<rparr>) \<longleftrightarrow> node_ok f M tr p"
  "node_ok f M tr (p\<lparr>pn_askForLock := b\<rparr>) \<longleftrightarrow> node_ok f M tr p"
  "node_ok f M tr (p\<lparr>pn_sequenceID := sq\<rparr>) \<longleftrightarrow> node_ok f M tr p"
  "node_ok f M tr (p\<lparr>pn_stopSignal := b\<rparr>) \<longleftrightarrow> node_ok f M tr p"
  "node_ok f M tr (p\<lparr>pn_viewChangeMap := vm\<rparr>) \<longleftrightarrow> node_ok f M tr p"
  by (simp_all add: node_ok_defs)

lemma node_ok_isReply: "node_ok f M tr p \<Longrightarrow> node_ok f M tr (p\<lparr>pn_isReply := (pn_isReply p)(d := True)\<rparr>)"
  by (auto simp: node_ok_defs)

lemma node_ok_quiet:
  "node_ok f M tr p \<Longrightarrow> rounds outs = [] \<Longrightarrow> (\<forall>c. Bcast (CCommit c) \<notin> set outs) \<Longrightarrow> node_ok f M (tr @ outs) p"
  by (auto simp: node_ok_defs)

lemma node_ok_events: "node_ok f M tr p \<Longrightarrow> events outs = [] \<Longrightarrow> node_ok f M (tr @ outs) p"
  using events_silent[of outs] by (auto intro: node_ok_quiet)

lemma node_ok_vote_prepare:
  assumes "node_ok f M tr p" "CPrepare m \<in> M"
  shows "node_ok f M tr (set2DMap True (pr_Digest m) (pr_SenderNode m) p)"
proof -
  let ?t = "pn_cntPrepareConfirm p" and ?d = "pr_Digest m" and ?n = "pr_SenderNode m"
  from assms(1) have "pv.table_ok (add_vote ?d ?n ?t)" by (auto simp: node_ok_defs intro: pv.add_ok)
  moreover have "node_key ` set (votes (add_vote ?d ?n ?t) d) \<subseteq> preparers M d" for d
    using assms by (auto simp: node_ok_defs votes_add_vote preparers_def)
  moreover have "length (votes ?t d) \<le> length (votes (add_vote ?d ?n ?t) d)" for d
    by (rule pv.add_count_mono)
  ultimately have "prepare_ok M tr (set2DMap True ?d ?n p)"
    using assms(1) by (simp add: node_ok_def prepare_ok_def set2DMap_def quorum_def) (meson le_trans)
  then show ?thesis using assms(1) by (simp add: node_ok_defs set2DMap_def)
qed

lemma node_ok_vote_commit:
  assumes "node_ok f M tr p" "CCommit m \<in> M"
  shows "node_ok f M tr (set2DMap False (cm_Digest m) (cm_SenderNode m) p)"
proof -
  let ?t = "pn_cntCommitConfirm p" and ?d = "cm_Digest m" and ?n = "cm_SenderNode m"
  from assms(1) have "pv.table_ok (add_vote ?d ?n ?t)" by (auto simp: node_ok_defs intro: pv.add_ok)
  moreover have "node_key ` set (votes (add_vote ?d ?n ?t) d) \<subseteq> committers M d" for d
    using assms by (auto simp: node_ok_defs votes_add_vote committers_def)
  moreover have "length (votes ?t d) \<le> length (votes (add_vote ?d ?n ?t) d)" for d
    by (rule pv.add_count_mono)
  ultimately have "commit_ok M tr (set2DMap False ?d ?n p)"
    using assms(1) by (simp add: node_ok_def commit_ok_def set2DMap_def quorum_def) (meson le_trans)
  then show ?thesis using assms(1) by (simp add: node_ok_defs set2DMap_def)
qed

text \<open>The comparison \<^verbatim>\<open>uint64(cnt) >= 2*f+1\<close> bounds the count from below.\<close>

lemma count_reaches: "(of_nat n :: u64) \<ge> q \<Longrightarrow> unat q \<le> n"
  by (metis word_le_nat_alt le_unat_uoi linorder_le_cases of_nat_unat unat_of_nat take_bit_nat_less_eq_self order_trans)

lemma node_ok_broadcast:
  assumes "node_ok f M tr p" "quorum p \<le> length (votes (pn_cntPrepareConfirm p) (cm_Digest c))"
  shows "node_ok f M (tr @ [Bcast (CCommit c), Dial a m])
           (p\<lparr>pn_isCommitBordcast := (pn_isCommitBordcast p)(cm_Digest c := True)\<rparr>)"
proof -
  let ?p = "p\<lparr>pn_isCommitBordcast := (pn_isCommitBordcast p)(cm_Digest c := True)\<rparr>"
  have "prepare_ok M (tr @ [Bcast (CCommit c), Dial a m]) ?p"
    using assms by (auto simp: node_ok_def prepare_ok_def quorum_def)
  with assms(1) show ?thesis by (simp add: node_ok_defs)
qed

lemma node_ok_round:
  assumes "node_ok f M tr p" "\<not> pn_isReply p d" "quorum p \<le> length (votes (pn_cntCommitConfirm p) d)" "events outs = []"
  shows "node_ok f M (tr @ outs @ [RoundEnd d s]) (p\<lparr>pn_isReply := (pn_isReply p)(d := True)\<rparr>)"
proof -
  let ?p = "p\<lparr>pn_isReply := (pn_isReply p)(d := True)\<rparr>"
  note q = events_silent[OF assms(4)]
  have "d \<notin> fst ` set (rounds tr)" using assms(1,2) by (auto simp: node_ok_def commit_ok_def)
  with assms q have "commit_ok M (tr @ outs @ [RoundEnd d s]) ?p"
    by (auto simp: node_ok_def commit_ok_def quorum_def)
  with assms(1) q show ?thesis by (simp add: node_ok_defs)
qed

lemma end_round_ok:
  "end_round now outs p = Some (Done outs' p') \<Longrightarrow> node_ok f M tr p \<Longrightarrow> outs' = outs \<and> node_ok f M tr p'"
  by (auto simp: end_round_def Let_def split: if_splits)

lemma ask_old_ok:
  assumes "ask_old_requests now c p = Some r" "node_ok f M tr p"
  shows "case r of Done outs p' \<Rightarrow> node_ok f M (tr @ outs) p' | Blocked p' \<Rightarrow> node_ok f M tr p' | Waiting \<Rightarrow> True"
  using assms
  by (auto simp: ask_old_requests_def Let_def end_round_def split: if_splits intro!: node_ok_quiet)

lemma record_old_ok: "node_ok f M tr p \<Longrightarrow> node_ok f M tr (foldl (record_old E b) p xs)"
proof (induction xs arbitrary: p)
  case (Cons x xs)
  obtain i r where x: "x = (i, r)" by fastforce
  have "node_ok f M tr (record_old E b p x)"
    using Cons.prems node_ok_isReply[of f M tr "p\<lparr>pn_requestPool := (pn_requestPool p)(getDigest E r \<mapsto> r),
        pn_height2Digest := (pn_height2Digest p)(of_nat i + b \<mapsto> getDigest E r)\<rparr>" "getDigest E r"]
    by (simp add: record_old_def x)
  with Cons.IH show ?case by simp
qed simp

section \<open>The outcomes of the handlers\<close>

lemma if_eqE: "(if c then a else b) = r \<Longrightarrow> (c \<Longrightarrow> a = r \<Longrightarrow> thesis) \<Longrightarrow> (\<not> c \<Longrightarrow> b = r \<Longrightarrow> thesis) \<Longrightarrow> thesis"
  by (cases c) auto

lemma handlePrePrepare_cases:
  assumes "handlePrePrepare E i v m p = Some r"
  obtains (wait) "r = Waiting"
  | (refuse) "r = Done (mark_partition E m) p"
  | (early) "pn_sequenceID p < pp_SeqID m" "r = Done (mark_partition E m)
        (p\<lparr>pn_requestPool := (pn_requestPool p)(pp_Digest m \<mapsto> pp_RequestMsg m),
           pn_height2Digest := (pn_height2Digest p)(pp_SeqID m \<mapsto> pp_Digest m)\<rparr>)"
  | (asked) flag p1 p2 where "HandleinPrePrepare i m p = Some (flag, p1)" "pp_SeqID m = pn_sequenceID p" "pn_view p = v"
      "p2 = p1\<lparr>pn_requestPool := (pn_requestPool p1)(pp_Digest m \<mapsto> pp_RequestMsg m),
               pn_height2Digest := (pn_height2Digest p1)(pp_SeqID m \<mapsto> pp_Digest m)\<rparr>"
      "r = (if flag then Done (mark_partition E m @
              [Bcast (CPrepare \<lparr>pr_Digest = pp_Digest m, pr_SeqID = pp_SeqID m, pr_SenderNode = pn_RunningNode p2\<rparr>),
               Dial (nd_IPaddr (pn_RunningNode p2))
                 (CPrepare \<lparr>pr_Digest = pp_Digest m, pr_SeqID = pp_SeqID m, pr_SenderNode = pn_RunningNode p2\<rparr>)])
              (stage_up p2) else Done (mark_partition E m) p2)"
proof -
  show thesis
    using assms unfolding handlePrePrepare_def Let_def
    apply -
    apply (erule if_eqE)
     apply (rule wait, simp)
    apply (erule if_eqE)
     apply (rule refuse, simp)
    apply (erule if_eqE)
     apply (rule refuse, simp)
    apply (erule if_eqE)
     apply (rule early, simp, simp)
    apply (clarsimp simp: bind_eq_Some_conv)
    subgoal for flag p1 by (rule asked[of flag p1]) (auto split: if_splits)
    done
qed

lemma handlePrepare_cases:
  assumes "handlePrepare i v m p = Some r"
  obtains (wait) "r = Waiting"
  | (refuse) "r = Done [] p"
  | (vote) b p1 q where "HandleinPrepare i m p = Some (b, p1)" "pr_SeqID m = pn_sequenceID p" "pn_view p = v"
      "q = set2DMap True (pr_Digest m) (pr_SenderNode m) p1" "r = Done [] q"
  | (commit) b p1 q c where "HandleinPrepare i m p = Some (b, p1)" "pr_SeqID m = pn_sequenceID p" "pn_view p = v"
      "q = set2DMap True (pr_Digest m) (pr_SenderNode m) p1"
      "of_nat (length (votes (pn_cntPrepareConfirm q) (cm_Digest c))) \<ge> 2 * pn_malicious_nums q + 1"
      "c = \<lparr>cm_Digest = pr_Digest m, cm_SeqID = pr_SeqID m, cm_SenderNode = pn_RunningNode q\<rparr>"
      "r = Done [Bcast (CCommit c), Dial (nd_IPaddr (pn_RunningNode q)) (CCommit c)]
             (stage_up (q\<lparr>pn_isCommitBordcast := (pn_isCommitBordcast q)(cm_Digest c := True)\<rparr>))"
proof -
  show thesis
    using assms unfolding handlePrepare_def Let_def
    apply -
    apply (erule if_eqE)
     apply (rule wait, simp)
    apply (erule if_eqE)
     apply (rule refuse, simp)
    apply (erule if_eqE)
     apply (rule refuse, simp)
    apply (erule if_eqE)
     apply (rule refuse, simp)
    apply (clarsimp simp: bind_eq_Some_conv)
    apply (erule if_eqE)
     apply (rule commit; (assumption | rule refl)?; simp)
    apply (rule vote; (assumption | rule refl)?; simp)
    done
qed

lemma handleCommit_cases:
  assumes "handleCommit i now v m p = Some r"
  obtains (wait) "r = Waiting"
  | (refuse) "r = Done [] p"
  | (vote) q where "q = set2DMap False (cm_Digest m) (cm_SenderNode m) p" "r = Done [] q"
  | (ask) q where "q = set2DMap False (cm_Digest m) (cm_SenderNode m) p"
      "ask_old_requests now m (q\<lparr>pn_isReply := (pn_isReply q)(cm_Digest m := True)\<rparr>) = Some r"
  | (exec) q b outs p1 where "q = set2DMap False (cm_Digest m) (cm_SenderNode m) p"
      "of_nat (length (votes (pn_cntCommitConfirm q) (cm_Digest m))) \<ge> 2 * pn_malicious_nums q + 1"
      "\<not> pn_isReply q (cm_Digest m)" "pn_requestPool q (cm_Digest m) \<noteq> None"
      "HandleinCommit i m q = Some (b, outs, p1)"
      "end_round now (outs @ [RoundEnd (cm_Digest m) (pn_sequenceID p1)])
         (p1\<lparr>pn_isReply := (pn_isReply p1)(cm_Digest m := True), pn_sequenceID := pn_sequenceID p1 + 1\<rparr>) = Some r"
proof -
  show thesis
    using assms unfolding handleCommit_def Let_def
    apply -
    apply (erule if_eqE)
     apply (rule wait, simp)
    apply (erule if_eqE)
     apply (rule refuse, simp)
    apply (erule if_eqE)
     apply (erule if_eqE)
      apply (rule ask[OF refl], assumption)
     apply (clarsimp simp: bind_eq_Some_conv)
     apply (rule exec[OF refl]; simp)
    apply (rule vote[OF refl], simp)
    done
qed

lemma Propose_cases:
  assumes "Propose E i pc p = Some (Ready (n, outs, p'))"
  obtains (idle) "outs = []" "p' = p"
  | (yield) p0 pc' where "p0 = (if pc = ProposeBegin then p\<lparr>pn_sequenceLock := True\<rparr> else p)"
      "HandleinPropose i pc p0 = Some (Yield pc' outs p')"
  | (proposed) p0 r outs1 p1 pp q marks msg p3 where
      "p0 = (if pc = ProposeBegin then p\<lparr>pn_sequenceLock := True\<rparr> else p)"
      "HandleinPropose i pc p0 = Some (Proposed r outs1 p1)"
      "pp = \<lparr>pp_RequestMsg = r, pp_Digest = getDigest E r, pp_SeqID = pn_sequenceID p1\<rparr>"
      "q = p1\<lparr>pn_requestPool := (pn_requestPool p1)(getDigest E r \<mapsto> r),
              pn_height2Digest := (pn_height2Digest p1)(pn_sequenceID p1 \<mapsto> getDigest E r)\<rparr>"
      "encodeProposal E pp q = Some (marks, msg, p3)"
      "outs = outs1 @ marks @ [Bcast msg, Dial (nd_IPaddr (pn_RunningNode p3)) (CPrePrepare pp)]"
      "p' = p3\<lparr>pn_pbftStage := (if pn_pbftStage p3 = 1 then 2 else pn_pbftStage p3)\<rparr>"
proof -
  show thesis
    using assms unfolding Propose_def Let_def
    apply -
    apply (erule if_eqE)
     apply (rule idle; simp)
    apply (erule if_eqE)
     apply simp
    apply (drule bind_eq_Some_conv[THEN iffD1], elim exE conjE)
    subgoal for res
      apply (cases res)
       apply (rule yield[OF refl], simp)
      apply (simp only: propose_result.case)
      apply (drule bind_eq_Some_conv[THEN iffD1], elim exE conjE)
      subgoal for r outs1 p1 y
        by (cases y) (rule proposed[OF refl _ refl refl], assumption+, auto)
      done
    done
qed

context node_modules
begin

lemma handlePrePrepare_ok:
  assumes "handlePrePrepare E (ihm now) v m p = Some (Done outs p')" "node_ok f M tr p"
  shows "node_ok f M (tr @ outs) p'"
  using assms(1)
proof (cases rule: handlePrePrepare_cases)
  case (asked flag p1 p2)
  have p1: "node_ok f M tr p1" using preprepare_result[OF asked(1)] assms(2) by (cases flag) auto
  then have "node_ok f M tr p2" by (simp add: asked(4))
  with asked(5) show ?thesis by (cases flag) (auto simp: stage_up_def intro!: node_ok_quiet)
qed (use assms(2) in \<open>auto intro!: node_ok_quiet\<close>)

lemma handlePrepare_ok:
  assumes "handlePrepare (ihm now) v m p = Some (Done outs p')" "node_ok f M tr p" "CPrepare m \<in> M"
  shows "node_ok f M (tr @ outs) p'"
  using assms(1)
proof (cases rule: handlePrepare_cases)
  case (vote b p1 q)
  with prepare_id[OF vote(1)] node_ok_vote_prepare[OF assms(2,3)] show ?thesis by simp
next
  case (commit b p1 q c)
  with prepare_id[OF commit(1)] have "node_ok f M tr q" using node_ok_vote_prepare[OF assms(2,3)] by simp
  moreover have "quorum q \<le> length (votes (pn_cntPrepareConfirm q) (cm_Digest c))"
    unfolding quorum_def by (rule count_reaches[OF commit(5)])
  ultimately show ?thesis using node_ok_broadcast commit(7) by (simp add: stage_up_def)
qed (use assms(2) in auto)

lemma handleCommit_ok:
  assumes "handleCommit (ihm now) now v m p = Some r" "node_ok f M tr p" "CCommit m \<in> M"
  shows "case r of Done outs p' \<Rightarrow> node_ok f M (tr @ outs) p' | Blocked p' \<Rightarrow> node_ok f M tr p' | Waiting \<Rightarrow> True"
  using assms(1)
proof (cases rule: handleCommit_cases)
  case (vote q)
  then show ?thesis using node_ok_vote_commit[OF assms(2,3)] by simp
next
  case (ask q)
  show ?thesis by (rule ask_old_ok[OF ask(2)], rule node_ok_isReply) (simp add: ask(1) node_ok_vote_commit[OF assms(2,3)])
next
  case (exec q b outs p1)
  have q: "node_ok f M tr q" using node_ok_vote_commit[OF assms(2,3)] exec(1) by simp
  from commit_frame[OF exec(5)] have f: "frame q p1" "events outs = []" by auto
  then have "\<not> pn_isReply p1 (cm_Digest m)" "quorum p1 \<le> length (votes (pn_cntCommitConfirm p1) (cm_Digest m))"
    using exec(3) count_reaches[OF exec(2)] by (auto simp: frame_def quorum_def)
  from node_ok_round[OF _ this f(2), of f M tr "pn_sequenceID p1"] q f(1) exec(6) show ?thesis
    by (auto simp: end_round_def Let_def split: if_splits)
qed (use assms(2) in auto)

lemma handleRequestOldSeq_ok:
  assumes "handleRequestOldSeq (ihm now) m p = Some (outs, p')" "node_ok f M tr p"
  shows "node_ok f M (tr @ outs) p'"
  using assms
  by (auto simp: handleRequestOldSeq_def bind_eq_Some_conv split: if_splits dest!: old_id intro!: node_ok_quiet)

lemma handleSendOldSeq_ok:
  assumes "handleSendOldSeq E (ihm now) m p = Some (outs, p')" "node_ok f M tr p"
  shows "node_ok f M (tr @ outs) p'"
proof -
  from assms(1) obtain b outs1 p1 where h: "HandleforSequentialRequest (ihm now) m p = Some (b, outs1, p1)"
    by (auto simp: handleSendOldSeq_def bind_eq_Some_conv)
  define p2 where "p2 = (foldl (record_old E (so_SeqStartHeight m)) p1 (enumerate 0 (so_OldRequest m)))
    \<lparr>pn_sequenceID := so_SeqEndHeight m + 1\<rparr>"
  have "node_ok f M tr p1" using sequential_moves[OF h] assms(2) by auto
  then have p2: "node_ok f M tr p2" unfolding p2_def by (simp add: record_old_ok)
  have outs1: "events outs1 = []" using sequential_moves[OF h] by simp
  show ?thesis
  proof (cases "Option.bind (pn_height2Digest p2 (pn_sequenceID p2)) (pn_requestPool p2)")
    case None
    with assms(1) h have "p' = p2\<lparr>pn_askForLock := False\<rparr>" "outs = outs1"
      by (auto simp: handleSendOldSeq_def p2_def Let_def split: if_splits)
    with p2 outs1 show ?thesis by (simp add: node_ok_events)
  next
    case (Some r)
    let ?pp = "\<lparr>pp_RequestMsg = r, pp_Digest = getDigest E r, pp_SeqID = pn_sequenceID p2\<rparr>"
    from assms(1) h Some obtain flag p3 where p3: "HandleinPrePrepare (ihm now) ?pp p2 = Some (flag, p3)"
      "p' = p3\<lparr>pn_askForLock := False\<rparr>"
      "outs = outs1 @ (if flag then [Bcast (CPrepare \<lparr>pr_Digest = getDigest E r, pr_SeqID = pn_sequenceID p2,
          pr_SenderNode = pn_RunningNode p3\<rparr>)] else [])"
      by (auto simp: handleSendOldSeq_def p2_def Let_def bind_eq_Some_conv split: if_splits)
    from preprepare_result[OF p3(1)] p2 have "node_ok f M tr p3" by (cases flag) auto
    with events_silent[OF outs1] show ?thesis unfolding p3(2,3) by (cases flag) (auto intro!: node_ok_quiet)
  qed
qed

lemma Propose_ok:
  assumes "Propose E (ihm now) pc p = Some (Ready (n, outs, p'))" "node_ok f M tr p"
  shows "node_ok f M (tr @ outs) p'"
  using assms(1)
proof (cases rule: Propose_cases)
  case (yield p0 pc')
  from assms(2) yield(1) have "node_ok f M tr p0" by simp
  with propose_quiet[OF yield(2)] show ?thesis by (auto simp: quiet_def intro!: node_ok_events)
next
  case (proposed p0 r outs1 p1 pp q marks msg p3)
  from assms(2) proposed(1) have "node_ok f M tr p0" by simp
  moreover have f: "frame p0 p1" "events outs1 = []" using propose_quiet[OF proposed(2)] by (simp_all add: quiet_def)
  ultimately have "node_ok f M tr q" using proposed(4) by simp
  moreover have "frame q p3" "marks = mark_partition E pp" "\<forall>c. msg \<noteq> CCommit c"
    using proposed(5) by (auto simp: encodeProposal_def bind_eq_Some_conv split: if_splits dest: cacheBodies_frame)
  ultimately show ?thesis using proposed(6,7) events_silent[OF f(2)] by (auto intro!: node_ok_quiet)
qed (use assms(2) in auto)

end

lemma handleViewChangeMsg_ok:
  "handleViewChangeMsg m p = Some (outs, p') \<Longrightarrow> node_ok f M tr p \<Longrightarrow> node_ok f M (tr @ outs) p'"
  by (auto simp: handleViewChangeMsg_def bind_eq_Some_conv Let_def split: if_splits intro!: node_ok_quiet)

lemma viewChangeTimer_ok:
  "viewChangeTimer E now p = Some (outs, p') \<Longrightarrow> node_ok f M tr p \<Longrightarrow> node_ok f M (tr @ outs) p'"
  by (auto simp: viewChangeTimer_def viewChangePropose_def bind_eq_Some_conv Let_def split: if_splits intro!: node_ok_quiet)

lemma stream_worker_ok:
  assumes "stream_worker E p = Some (Ready (outs, p'))" "node_ok f M tr p"
  shows "node_ok f M (tr @ outs) p'"
proof -
  from assms(1) obtain ov where ov: "pn_overhead p = Some ov" by (auto simp: stream_worker_def bind_eq_Some_conv)
  with assms(1) obtain b bs where "ov_stream ov = b # bs" by (cases "ov_stream ov") (auto simp: stream_worker_def)
  with assms(1) ov have "frame p p'" "events outs = []" by (auto simp: stream_worker_def)
  with assms(2) show ?thesis by (auto intro!: node_ok_events)
qed

lemma handleNewViewMsg_ok:
  assumes "node_ok f M tr p" "NewChange m \<in> M"
  shows "node_ok f M tr (handleNewViewMsg now m p)"
proof -
  let ?k = "(nv_NextView m, nv_NewSeqID m)" and ?t = "pn_newViewMap p"
  let ?t' = "vc_add ?k (nv_FromNode m) ?t"
  have ok: "view_ok M p" using assms(1) by (simp add: node_ok_def)
  then have t': "nv.table_ok ?t'" by (auto simp: view_ok_def intro: nv.add_ok)
  have from': "set (vc_voters ?t' k) \<subseteq> new_viewers M k" for k
  proof -
    have "set (vc_voters ?t k) \<subseteq> new_viewers M k" using ok unfolding view_ok_def by blast
    moreover have "nv_FromNode m \<in> new_viewers M ?k" using assms(2) by (auto simp: new_viewers_def)
    ultimately show ?thesis by (auto simp: vc_voters_add)
  qed
  have mono: "length (vc_voters ?t k) \<le> length (vc_voters ?t' k)" for k by (rule nv.add_count_mono)
  have "view_ok M (handleNewViewMsg now m p)"
  proof (cases "int (length (vc_voters ?t' ?k)) = vc_quorum p")
    case True
    with t' from' show ?thesis
      unfolding view_ok_def by (intro conjI impI allI exI[of _ ?k]) (simp_all add: handleNewViewMsg_def vc_quorum_def Let_def)
  next
    case False
    have "\<exists>k. pn_view p = to_int32 (fst k) \<and> vc_quorum p \<le> int (length (vc_voters ?t' k))" if "pn_view p \<noteq> 0"
      using ok that mono by (fastforce simp: view_ok_def intro: order_trans)
    with False t' from' show ?thesis by (simp add: handleNewViewMsg_def view_ok_def vc_quorum_def Let_def)
  qed
  with assms(1) show ?thesis by (simp add: node_ok_def prepare_ok_def commit_ok_def quorum_def handleNewViewMsg_def Let_def)
qed

section \<open>The invariant of the machine\<close>

definition sys_ok :: "u64 \<Rightarrow> ('bs, 'bo, 'td) sys \<Rightarrow> bool" where
  "sys_ok f s \<longleftrightarrow> tasks_ok s \<and> node_ok f (set (sy_recv s)) (sy_trace s) (sy_node s)"

context node_modules
begin

lemma handleMessage_ok:
  assumes "handleMessage E (ihm now) now msg p = Some (ts, outs, p')" "node_ok f M tr p" "msg \<in> M"
  shows "node_ok f M (tr @ outs) p'"
proof -
  from assms(1) obtain handled ts0 p0 where h: "handleOverhead E msg p = Some (handled, ts0, p0)"
    by (auto simp: handleMessage_def bind_eq_Some_conv)
  have p0: "node_ok f M tr p0" using handleOverhead_result[OF h, THEN conjunct1] assms(2) by simp
  show ?thesis
  proof (cases handled)
    case True
    with assms(1) h p0 show ?thesis by (simp add: handleMessage_def)
  next
    case False
    with assms(1,3) h p0 show ?thesis
      by (cases msg)
         (auto simp: handleMessage_def bind_eq_Some_conv WaitToStop_def
           intro: handleViewChangeMsg_ok handleNewViewMsg_ok handleRequestOldSeq_ok handleSendOldSeq_ok)
  qed
qed

lemma run_task_ok:
  assumes "run_task E (ihm now) (ohm now) now late v t p = Some (ts, r)" "node_ok f M tr p" "task_from M t"
  shows "case r of Done outs p' \<Rightarrow> node_ok f M (tr @ outs) p' | Blocked p' \<Rightarrow> node_ok f M tr p' | Waiting \<Rightarrow> True"
proof (cases t)
  case (TPrePrepare m)
  with assms(1) have "handlePrePrepare E (ihm now) v m p = Some r" by (auto simp: run_task_def)
  then show ?thesis
    using handlePrePrepare_ok[OF _ assms(2)]
    by (cases r) (auto elim: handlePrePrepare_cases split: if_splits)
next
  case (TPrepare m)
  with assms(1) have "handlePrepare (ihm now) v m p = Some r" by (auto simp: run_task_def)
  with TPrepare assms(3) show ?thesis
    using handlePrepare_ok[OF _ assms(2)]
    by (cases r) (auto elim: handlePrepare_cases)
next
  case (TCommit m)
  with assms(1) have "handleCommit (ihm now) now v m p = Some r" by (auto simp: run_task_def)
  with TCommit assms(2,3) show ?thesis by (intro handleCommit_ok) auto
next
  case (TOutside m)
  with assms(1,2) show ?thesis
    by (auto simp: run_task_def map_wait_Some simp del: map_option_eq_Some dest!: outside_frame)
next
  case (TMissing req)
  with assms(1) obtain outs where r: "answerMissing req p = Some outs" "r = Done outs p" by (auto simp: run_task_def)
  then have "events outs = []" by (auto simp: answerMissing_def bind_eq_Some_conv)
  with r(2) assms(2) show ?thesis by (simp add: node_ok_events)
next
  case (TCompact cp)
  with assms(1) obtain outs where r: "compact_ask cp p = Some outs" "r = Done outs p" by (auto simp: run_task_def)
  then have "events outs = []" by (auto simp: compact_ask_def bind_eq_Some_conv Let_def split: if_splits)
  with r(2) assms(2) show ?thesis by (simp add: node_ok_events)
next
  case (TRebuild cp)
  with assms(1,2) show ?thesis
    by (auto simp: run_task_def map_wait_Some simp del: map_option_eq_Some)
qed

lemma step_ok:
  assumes "pbft_step E ihm ohm s s'" "sys_ok f s"
  shows "sys_ok f s'"
proof -
  have t: "tasks_ok s'" using assms step_tasks_ok by (auto simp: sys_ok_def)
  have n: "node_ok f (set (sy_recv s)) (sy_trace s) (sy_node s)" using assms(2) by (simp add: sys_ok_def)
  have run_from: "task_from (set (sy_recv s)) t" if "(t, v) \<in> set (sy_run s)" for t v
    using assms(2) that by (force simp: sys_ok_def tasks_ok_def)
  from assms(1) have "node_ok f (set (sy_recv s')) (sy_trace s') (sy_node s')"
  proof (cases rule: pbft_step.cases)
    case (recv now msg ts outs p)
    have "node_ok f (set (sy_recv s @ [msg])) (sy_trace s) (sy_node s)" by (rule node_ok_mono[OF n]) auto
    from handleMessage_ok[OF recv(3) this] recv(1) show ?thesis by simp
  next
    case (run t v now late ts outs p)
    from run_task_ok[OF run(4) n run_from[OF run(2)]] run(1) show ?thesis by simp
  next
    case (block c v now late ts p)
    from run_task_ok[OF block(4) n run_from[OF block(2)]] block(1) show ?thesis by simp
  next
    case (resume c now outs p)
    from ask_old_ok[OF resume(3) n] resume(1) show ?thesis by simp
  next
    case (propose pc now nxt outs p)
    from Propose_ok[OF propose(3) n] propose(1) show ?thesis by simp
  next
    case (timer now outs p)
    from viewChangeTimer_ok[OF timer(2) n] timer(1) show ?thesis by simp
  next
    case (stream outs p)
    from stream_worker_ok[OF stream(2) n] stream(1) show ?thesis by simp
  qed (use n in simp_all)
  with t show ?thesis by (simp add: sys_ok_def)
qed

lemma reachable_ok: "(pbft_step E ihm ohm)\<^sup>*\<^sup>* s s' \<Longrightarrow> sys_ok f s \<Longrightarrow> sys_ok f s'"
  by (induction rule: rtranclp_induct) (auto intro: step_ok)

end

end
