(* ===== verification/Pbft_Run.thy ===== *)
theory Pbft_Run
  imports Pbft_Safety
begin

text \<open>
  Runs of the state machine by an explicit schedule: messages arrive in a given order and the
  goroutines take their turns first come, first served. Every such run is a run of \<open>pbft_step\<close>;
  the witnesses of the safety theorems are runs of one round of consensus.
\<close>

datatype act =
    ARecv time net_msg
  | ALoad
  | ARun time
  | ATimer time

fun exec_act ::
    "('bs, 'bo, 'tr, 'td, 'ns, 'e) node_env_scheme \<Rightarrow> bytes \<Rightarrow> ('bs, 'bo, 'td) sys \<Rightarrow> act \<Rightarrow> ('bs, 'bo, 'td) sys option" where
  "exec_act E ty s (ARecv now msg) =
     (if pn_stopSignal (sy_node s) then None
      else do { (ts, outs, p) \<leftarrow> handleMessage E (select_ihm E ty now) now msg (sy_node s);
                Some (s\<lparr>sy_node := p, sy_recv := sy_recv s @ [msg], sy_new := sy_new s @ ts,
                        sy_trace := sy_trace s @ outs\<rparr>) })"
| "exec_act E ty s ALoad =
     (case sy_new s of [] \<Rightarrow> None
      | t # ts \<Rightarrow> Some (s\<lparr>sy_new := ts, sy_run := sy_run s @ [(t, pn_view (sy_node s))]\<rparr>))"
| "exec_act E ty s (ARun now) =
     (case sy_run s of [] \<Rightarrow> None
      | (t, v) # r \<Rightarrow>
          if needs_lock t \<and> sy_blocked s \<noteq> None then None
          else do { (ts, res) \<leftarrow> run_task E (select_ihm E ty now) (select_ohm E ty now) now False v t (sy_node s);
                    case res of
                      Done outs p \<Rightarrow> Some (s\<lparr>sy_node := p, sy_run := r, sy_new := sy_new s @ ts,
                                             sy_trace := sy_trace s @ outs\<rparr>)
                    | _ \<Rightarrow> None })"
| "exec_act E ty s (ATimer now) =
     do { (outs, p) \<leftarrow> viewChangeTimer E now (sy_node s);
          Some (s\<lparr>sy_node := p, sy_trace := sy_trace s @ outs\<rparr>) }"

lemma exec_act_step:
  assumes "exec_act E ty s a = Some s'"
  shows "pbft_step E (select_ihm E ty) (select_ohm E ty) s s'"
proof (cases a)
  case (ARecv now msg)
  with assms show ?thesis by (auto simp: bind_eq_Some_conv intro!: recv split: if_splits)
next
  case ALoad
  with assms obtain t ts where n: "sy_new s = t # ts" by (auto split: list.splits)
  with assms ALoad load[of t s E "select_ihm E ty" "select_ohm E ty"] show ?thesis by simp
next
  case (ARun now)
  with assms obtain t v r where n: "sy_run s = (t, v) # r" by (auto split: list.splits)
  with assms ARun obtain ts res where r: "\<not> (needs_lock t \<and> sy_blocked s \<noteq> None)"
    "run_task E (select_ihm E ty now) (select_ohm E ty now) now False v t (sy_node s) = Some (ts, res)"
    by (auto simp: bind_eq_Some_conv split: if_splits)
  with assms ARun n obtain outs p where "res = Done outs p" by (cases res) (auto split: if_splits)
  with r n assms ARun run[of t v s E "select_ihm E ty" now "select_ohm E ty" False ts outs p] show ?thesis
    by (auto split: if_splits)
next
  case (ATimer now)
  with assms show ?thesis by (auto simp: bind_eq_Some_conv intro!: timer)
qed

lemma exec_acts_reachable:
  "foldlM (exec_act E ty) (sys_init p) as = Some s \<Longrightarrow> pbft_reachable E ty p s"
proof -
  assume run: "foldlM (exec_act E ty) (sys_init p) as = Some s"
  show ?thesis
    unfolding pbft_reachable_def
    by (rule foldlM_invariant[OF run]) (auto intro: rtranclp.rtrancl_into_rtrancl exec_act_step)
qed

section \<open>One round of consensus\<close>

definition demo_peer :: "u64 \<Rightarrow> Node" where
  "demo_peer i = \<lparr>nd_NodeID = i, nd_ShardID = 0, nd_IPaddr = demo_ips 0 i\<rparr>"

text \<open>An empty block on top of the genesis block.\<close>

definition demo_empty :: "nat list Block" where
  "demo_empty = \<lparr>bk_Header = \<lparr>bh_ParentBlockHash = replicate 32 (CHR 0x04), bh_StateRoot = demo_root [],
       bh_TxRoot = GetTxTreeRoot demo_nenv [], bh_Bloom = [], bh_Number = 1, bh_Time = 9, bh_Miner = 0\<rparr>,
     bk_Body = [], bk_Hash = ''h1''\<rparr>"

definition demo_req :: Request where
  "demo_req = \<lparr>rq_RequestType = BlockRequest, rq_Content = B_Encode demo_nenv demo_empty, rq_ReqTime = 9\<rparr>"

lemma demo_node_fields:
  "pn_view (demo_node i) = 0" "pn_sequenceID (demo_node i) = 1" "pn_pbftStage (demo_node i) = 1"
  "pn_malicious_nums (demo_node i) = 1" "pn_cntPrepareConfirm (demo_node i) = Map.empty"
  "pn_cntCommitConfirm (demo_node i) = Map.empty" "pn_isReply (demo_node i) d = False"
  "pn_isCommitBordcast (demo_node i) d = False" "pn_stopSignal (demo_node i) = False"
  "pn_requestPool (demo_node i) = Map.empty" "pn_NodeID (demo_node i) = i"
  "pn_CurChain (demo_node i) = demo_chain 0 [demo_tx ''c0'']" "pn_newViewMap (demo_node i) = Map.empty"
  by (simp_all add: demo_node_def NewPbftNode_def demo_cc_def)

lemma demo_no_overhead: "oh_Enabled (pm_Overhead (prm demo_nenv)) = False"
  by (simp add: demo_nenv_def chain_env.defs demo_env_def demo_params_def)

lemma demo_nenv_ops:
  "tr_New demo_nenv = tr_New demo_env"
  "bolt_Put demo_nenv = (\<lambda>(bk, es) b k v. if b \<in> set bk \<and> k \<noteq> [] then Some (bk, ((b, k), v) # es) else None)"
  by (simp_all add: demo_nenv_def chain_env.defs demo_env_def)

lemma demo_empty_fields:
  "bh_Number (bk_Header demo_empty) = 1" "bh_ParentBlockHash (bk_Header demo_empty) = bk_Hash demo_genesis"
  "bh_StateRoot (bk_Header demo_empty) = demo_root []" "bk_Hash demo_empty = ''h1''" "bk_Body demo_empty = []"
  by (simp_all add: demo_empty_def demo_genesis_def Let_def)

lemma demo_empty_valid: "IsValidBlock demo_nenv demo_empty (demo_chain 0 txs) = None"
  by (simp add: IsValidBlock_def demo_empty_def demo_genesis_def Let_def)

lemma demo_decode: "DecodeB demo_nenv (rq_Content demo_req) = Some demo_empty"
  using decode_encode(4)[OF demo_nenv_core] by (simp add: demo_req_def)

lemma demo_empty_added: "\<exists>bc. AddBlock demo_nenv demo_empty (demo_chain 0 txs) = Some bc"
proof -
  have "BytesToHash (demo_root []) = demo_root []" by (simp add: BytesToHash_def demo_root_def)
  then show ?thesis
    by (simp add: AddBlock_def demo_empty_fields Let_def demo_nenv_ops Storage_AddBlock_def AddBlockHeader_def
        UpdateNewestBlock_def demo_chain_def)
qed

abbreviation demo_D :: bytes where
  "demo_D \<equiv> getDigest demo_nenv demo_req"

text \<open>The node after \<open>a\<close> prepare messages and \<open>b\<close> commit messages.\<close>

definition demo_at :: "nat \<Rightarrow> nat \<Rightarrow> (nat list, bytes list \<times> ((bytes \<times> bytes) \<times> bytes) list, (bytes \<times> alist_trie) list) node" where
  "demo_at a b = (demo_node 1)\<lparr>pn_requestPool := [demo_D \<mapsto> demo_req], pn_height2Digest := [1 \<mapsto> demo_D],
     pn_pbftStage := (if a < 3 then 2 else 3),
     pn_cntPrepareConfirm := (if a = 0 then Map.empty else [demo_D \<mapsto> map demo_peer (take a [0, 1, 2])]),
     pn_cntCommitConfirm := (if b = 0 then Map.empty else [demo_D \<mapsto> map demo_peer (take b [0, 1, 2])]),
     pn_isCommitBordcast := (if a < 3 then (\<lambda>_. False) else (\<lambda>_. False)(demo_D := True))\<rparr>"

definition demo_sys :: "('bs, 'bo, 'td) node \<Rightarrow> net_msg list \<Rightarrow> net_out list \<Rightarrow> ('bs, 'bo, 'td) sys" where
  "demo_sys p ms tr = (sys_init p)\<lparr>sy_recv := ms, sy_trace := tr\<rparr>"

lemma demo_turn:
  assumes "pbft_reachable E ty q (demo_sys p ms tr)" "\<not> pn_stopSignal p"
    and "handleMessage E (select_ihm E ty now) now m p = Some ([t], [], p)"
    and "run_task E (select_ihm E ty now) (select_ohm E ty now) now False (pn_view p) t p = Some ([], Done outs p')"
  shows "pbft_reachable E ty q (demo_sys p' (ms @ [m]) (tr @ outs))"
proof -
  have run: "foldlM (exec_act E ty) (demo_sys p ms tr) [ARecv now m, ALoad, ARun now] = Some (demo_sys p' (ms @ [m]) (tr @ outs))"
    using assms(2-4) by (simp add: demo_sys_def sys_init_def)
  show ?thesis
    unfolding pbft_reachable_def
    by (rule foldlM_invariant[OF run]) (use assms(1) in \<open>auto simp: pbft_reachable_def intro: rtranclp.rtrancl_into_rtrancl exec_act_step\<close>)
qed

lemma demo_dispatch:
  "handleMessage demo_nenv i now (CPrePrepare m1) p = Some ([TPrePrepare m1], [], p)"
  "handleMessage demo_nenv i now (CPrepare m2) p = Some ([TPrepare m2], [], p)"
  "handleMessage demo_nenv i now (CCommit m3) p = Some ([TCommit m3], [], p)"
  by (simp_all add: handleMessage_def handleOverhead_def demo_no_overhead)

lemma demo_sel: "select_ihm demo_nenv [] now = RawRelay_ihm demo_nenv now"
  by (simp add: select_ihm_def)

lemma demo_fields_at: "pn_view (demo_at a b) = 0" "\<not> pn_stopSignal (demo_at a b)"
  by (simp_all add: demo_at_def demo_node_fields)

lemmas demo_run_defs = run_task_def handlePrepare_def handleCommit_def demo_node_fields RawRelay_ihm_def Let_def stage_up_def
  demo_at_def to_int32_def no_op_def set2DMap_def add_vote_def votes_def demo_peer_def word_le_nat_alt

definition demo_ppmsg :: PrePrepare where
  "demo_ppmsg = \<lparr>pp_RequestMsg = demo_req, pp_Digest = demo_D, pp_SeqID = 1\<rparr>"

definition demo_pmsg :: "nat \<Rightarrow> Prepare" where
  "demo_pmsg a = \<lparr>pr_Digest = demo_D, pr_SeqID = 1, pr_SenderNode = demo_peer (of_nat a)\<rparr>"

definition demo_cmsg :: "nat \<Rightarrow> Commit" where
  "demo_cmsg a = \<lparr>cm_Digest = demo_D, cm_SeqID = 1, cm_SenderNode = demo_peer (of_nat a)\<rparr>"

lemma demo_run_preprepare:
  "\<exists>outs. run_task demo_nenv (RawRelay_ihm demo_nenv now) o' now False 0 (TPrePrepare demo_ppmsg) (demo_node 1)
     = Some ([], Done outs (demo_at 0 0))"
  by (simp add: demo_ppmsg_def run_task_def handlePrePrepare_def demo_node_fields RawRelay_ihm_def
      RawRelay_HandleinPrePrepare_def check_block_def demo_decode demo_empty_valid Let_def stage_up_def demo_at_def to_int32_def)
     (simp add: demo_node_def NewPbftNode_def)

lemma demo_own_node: "pn_RunningNode (demo_node 1) = demo_peer 1"
  by (simp add: demo_node_def NewPbftNode_def demo_peer_def)

lemma demo_run_prepare:
  assumes "a < 3"
  shows "run_task demo_nenv (RawRelay_ihm demo_nenv now) o' now False 0 (TPrepare (demo_pmsg a)) (demo_at a 0)
    = Some ([], Done (if a < 2 then [] else [Bcast (CCommit (demo_cmsg 1)), Dial (demo_ips 0 1) (CCommit (demo_cmsg 1))])
                 (demo_at (Suc a) 0))"
proof -
  from assms consider "a = 0" | "a = 1" | "a = 2" by linarith
  then show ?thesis
    by cases (simp_all add: demo_run_defs demo_pmsg_def demo_cmsg_def demo_own_node)
qed

lemma demo_run_commit:
  assumes "b < 2"
  shows "run_task demo_nenv (RawRelay_ihm demo_nenv now) o' now False 0 (TCommit (demo_cmsg b)) (demo_at 3 b)
    = Some ([], Done [] (demo_at 3 (Suc b)))"
proof -
  from assms consider "b = 0" | "b = 1" by linarith
  then show ?thesis
    by cases (simp_all add: demo_run_defs demo_cmsg_def)
qed

lemma demo_run_last:
  "\<exists>p'. run_task demo_nenv (RawRelay_ihm demo_nenv now) o' now False 0 (TCommit (demo_cmsg 2)) (demo_at 3 2)
     = Some ([], Done [RoundEnd demo_D 1] p')"
proof -
  obtain bc where "AddBlock demo_nenv demo_empty (demo_chain 0 [demo_tx ''c0'']) = Some bc" using demo_empty_added by blast
  then show ?thesis
    by (simp add: demo_run_defs demo_cmsg_def RawRelay_HandleinCommit_def commit_block_relay_def demo_decode leader_id_def end_round_def)
qed

definition demo_round_msgs :: "net_msg list" where
  "demo_round_msgs = [CPrePrepare demo_ppmsg, CPrepare (demo_pmsg 0), CPrepare (demo_pmsg 1), CPrepare (demo_pmsg 2),
     CCommit (demo_cmsg 0), CCommit (demo_cmsg 1), CCommit (demo_cmsg 2)]"

text \<open>A replica that receives the messages of a round executes the request in it.\<close>

lemma demo_round:
  "\<exists>s. pbft_reachable demo_nenv [] (demo_node 1) s \<and> sy_recv s = demo_round_msgs
     \<and> rounds (sy_trace s) = [(demo_D, 1)] \<and> Bcast (CCommit (demo_cmsg 1)) \<in> set (sy_trace s)"
proof -
  note tn = demo_turn[OF _ _ demo_dispatch(2)] note tc = demo_turn[OF _ _ demo_dispatch(3)]
  let ?R = "pbft_reachable demo_nenv [] (demo_node 1)"
  obtain o1 where pp: "run_task demo_nenv (RawRelay_ihm demo_nenv 0) (select_ohm demo_nenv [] 0) 0 False 0 (TPrePrepare demo_ppmsg) (demo_node 1)
     = Some ([], Done o1 (demo_at 0 0))" using demo_run_preprepare by blast
  have "?R (demo_sys (demo_node 1) [] [])" by (simp add: pbft_reachable_def demo_sys_def sys_init_def)
  from demo_turn[OF this _ demo_dispatch(1), of 0 demo_ppmsg o1 "demo_at 0 0"] pp
  have r0: "?R (demo_sys (demo_at 0 0) [CPrePrepare demo_ppmsg] o1)" by (simp add: demo_sel demo_node_fields)
  let ?c = "[Bcast (CCommit (demo_cmsg 1)), Dial (demo_ips 0 1) (CCommit (demo_cmsg 1))]"
  from tn[OF r0, of 0 "demo_pmsg 0" "[]" "demo_at 1 0"] demo_run_prepare[of 0 0]
  have r1: "?R (demo_sys (demo_at 1 0) [CPrePrepare demo_ppmsg, CPrepare (demo_pmsg 0)] o1)" by (simp add: demo_sel demo_fields_at)
  from tn[OF r1, of 0 "demo_pmsg 1" "[]" "demo_at 2 0"] demo_run_prepare[of 1 0]
  have r2: "?R (demo_sys (demo_at 2 0) [CPrePrepare demo_ppmsg, CPrepare (demo_pmsg 0), CPrepare (demo_pmsg 1)] o1)"
    by (simp add: demo_sel demo_fields_at eval_nat_numeral)
  from tn[OF r2, of 0 "demo_pmsg 2" ?c "demo_at 3 0"] demo_run_prepare[of 2 0]
  have r3: "?R (demo_sys (demo_at 3 0) (take 4 demo_round_msgs) (o1 @ ?c))"
    by (simp add: demo_sel demo_fields_at eval_nat_numeral demo_round_msgs_def)
  from tc[OF r3, of 0 "demo_cmsg 0" "[]" "demo_at 3 1"] demo_run_commit[of 0 0]
  have r4: "?R (demo_sys (demo_at 3 1) (take 5 demo_round_msgs) (o1 @ ?c))"
    by (simp add: demo_sel demo_fields_at demo_round_msgs_def)
  from tc[OF r4, of 0 "demo_cmsg 1" "[]" "demo_at 3 2"] demo_run_commit[of 1 0]
  have r5: "?R (demo_sys (demo_at 3 2) (take 6 demo_round_msgs) (o1 @ ?c))"
    by (simp add: demo_sel demo_fields_at eval_nat_numeral demo_round_msgs_def)
  obtain p' where last: "run_task demo_nenv (RawRelay_ihm demo_nenv 0) (select_ohm demo_nenv [] 0) 0 False 0 (TCommit (demo_cmsg 2)) (demo_at 3 2)
     = Some ([], Done [RoundEnd demo_D 1] p')" using demo_run_last by blast
  from tc[OF r5, of 0 "demo_cmsg 2" "[RoundEnd demo_D 1]" p'] last
  have "?R (demo_sys p' demo_round_msgs (o1 @ ?c @ [RoundEnd demo_D 1]))"
    by (simp add: demo_sel demo_fields_at demo_round_msgs_def)
  moreover have "rounds o1 = []" using pp
    by (auto simp: run_task_def handlePrePrepare_def demo_node_fields demo_ppmsg_def Let_def bind_eq_Some_conv split: if_splits)
  ultimately show ?thesis by (intro exI[of _ "demo_sys p' demo_round_msgs (o1 @ ?c @ [RoundEnd demo_D 1])"]) (simp add: demo_sys_def)
qed

end
