(* ===== verification/Pbft_Props.thy ===== *)
theory Pbft_Props
  imports Pbft_Run
begin

text \<open>
  The properties of a consensus node over all its runs. First the order of the executed requests:
  only a commit moves the sequence number forward, except for the messages of a view change and of
  catching up. Then the theorems, each a consequence of the invariants.
\<close>

section \<open>Sequence numbers\<close>

definition calm :: "net_msg set \<Rightarrow> bool" where
  "calm M \<longleftrightarrow> (\<forall>m. NewChange m \<notin> M) \<and> (\<forall>m. CSendOldrequest m \<notin> M)"

definition seq_ok :: "u64 \<Rightarrow> net_out list \<Rightarrow> ('bs, 'bo, 'td) node \<Rightarrow> bool" where
  "seq_ok n0 tr p \<longleftrightarrow> pn_sequenceID p = n0 + of_nat (length (rounds tr))
     \<and> map snd (rounds tr) = map (\<lambda>i. n0 + of_nat i) [0..<length (rounds tr)]"

text \<open>An operation that ends no round and leaves the sequence number alone.\<close>

definition steady :: "net_out list \<Rightarrow> ('bs, 'bo, 'td) node \<Rightarrow> ('bs, 'bo, 'td) node \<Rightarrow> bool" where
  "steady outs p p' \<longleftrightarrow> pn_sequenceID p' = pn_sequenceID p \<and> rounds outs = []"

lemma seq_ok_steady: "seq_ok n0 tr p \<Longrightarrow> steady outs p p' \<Longrightarrow> seq_ok n0 (tr @ outs) p'"
  by (simp add: seq_ok_def steady_def)

lemma seq_ok_round:
  "seq_ok n0 tr p \<Longrightarrow> rounds outs = [(d, pn_sequenceID p)] \<Longrightarrow> pn_sequenceID p' = pn_sequenceID p + 1 \<Longrightarrow>
   seq_ok n0 (tr @ outs) p'"
  by (simp add: seq_ok_def)

lemma frame_seqID: "frame p p' \<Longrightarrow> pn_sequenceID p' = pn_sequenceID p"
  by (auto simp: frame_def)

lemma frame_steady: "frame p p' \<Longrightarrow> events outs = [] \<Longrightarrow> steady outs p p'"
  using events_silent[of outs] by (simp add: steady_def frame_seqID)

lemma set2DMap_seqID [simp]: "pn_sequenceID (set2DMap b k v p) = pn_sequenceID p"
  by (simp add: set2DMap_def)

lemma ask_old_steady:
  "ask_old_requests now c p = Some r \<Longrightarrow>
   case r of Done outs p' \<Rightarrow> steady outs p p' | Blocked p' \<Rightarrow> steady [] p p' | Waiting \<Rightarrow> True"
  by (auto simp: ask_old_requests_def Let_def end_round_def steady_def split: if_splits)

context node_modules
begin

lemma handlePrePrepare_steady:
  assumes "handlePrePrepare E (ihm now) v m p = Some (Done outs p')"
  shows "steady outs p p'"
  using assms
proof (cases rule: handlePrePrepare_cases)
  case (asked flag p1 p2)
  then have "pn_sequenceID p1 = pn_sequenceID p" using preprepare_result[OF asked(1)] by simp
  with asked(4,5) show ?thesis by (cases flag) (auto simp: steady_def stage_up_def)
qed (auto simp: steady_def)

lemma handlePrepare_steady:
  assumes "handlePrepare (ihm now) v m p = Some (Done outs p')"
  shows "steady outs p p'"
  using assms
proof (cases rule: handlePrepare_cases)
  case (vote b p1 q)
  with prepare_id[OF vote(1)] show ?thesis by (simp add: steady_def)
next
  case (commit b p1 q c)
  with prepare_id[OF commit(1)] show ?thesis by (simp add: steady_def stage_up_def)
qed (auto simp: steady_def)

lemma handleCommit_seq:
  assumes "handleCommit (ihm now) now v m p = Some r" "seq_ok n0 tr p"
  shows "case r of Done outs p' \<Rightarrow> seq_ok n0 (tr @ outs) p' | Blocked p' \<Rightarrow> seq_ok n0 tr p' | Waiting \<Rightarrow> True"
  using assms(1)
proof (cases rule: handleCommit_cases)
  case (vote q)
  with assms(2) show ?thesis by (simp add: seq_ok_def)
next
  case (ask q)
  have q: "seq_ok n0 tr (q\<lparr>pn_isReply := (pn_isReply q)(cm_Digest m := True)\<rparr>)"
    using assms(2) ask(1) by (simp add: seq_ok_def)
  from ask_old_steady[OF ask(2)] seq_ok_steady[OF q] seq_ok_steady[OF q, of "[]"] show ?thesis
    by (auto split: outcome.splits)
next
  case (exec q b outs p1)
  from commit_frame[OF exec(5)] have "pn_sequenceID p1 = pn_sequenceID p" "rounds outs = []"
    using frame_seqID[of q p1] exec(1) events_silent[of outs] by auto
  with exec(6) assms(2) show ?thesis
    by (auto simp: end_round_def Let_def split: if_splits
        intro!: seq_ok_round[where d = "cm_Digest m" and p = p])
qed (use assms(2) in auto)

lemma run_task_seq:
  assumes "run_task E (ihm now) (ohm now) now late v t p = Some (ts, r)" "seq_ok n0 tr p"
  shows "case r of Done outs p' \<Rightarrow> seq_ok n0 (tr @ outs) p' | Blocked p' \<Rightarrow> seq_ok n0 tr p' | Waiting \<Rightarrow> True"
proof (cases t)
  case (TPrePrepare m)
  with assms(1) have "handlePrePrepare E (ihm now) v m p = Some r" by (auto simp: run_task_def)
  with assms(2) show ?thesis
    by (cases r) (auto elim: handlePrePrepare_cases split: if_splits intro: seq_ok_steady handlePrePrepare_steady)
next
  case (TPrepare m)
  with assms(1) have "handlePrepare (ihm now) v m p = Some r" by (auto simp: run_task_def)
  with assms(2) show ?thesis
    by (cases r) (auto elim: handlePrepare_cases intro: seq_ok_steady handlePrepare_steady)
next
  case (TCommit m)
  with assms show ?thesis by (intro handleCommit_seq) (auto simp: run_task_def)
next
  case (TOutside m)
  with assms show ?thesis
    by (auto simp: run_task_def map_wait_Some seq_ok_def simp del: map_option_eq_Some dest!: outside_frame frame_seqID)
next
  case (TMissing req)
  with assms show ?thesis by (auto simp: run_task_def answerMissing_def bind_eq_Some_conv intro!: seq_ok_steady simp: steady_def)
next
  case (TCompact cp)
  with assms show ?thesis
    by (auto simp: run_task_def compact_ask_def Let_def bind_eq_Some_conv steady_def intro!: seq_ok_steady split: if_splits)
next
  case (TRebuild cp)
  with assms show ?thesis by (auto simp: run_task_def map_wait_Some simp del: map_option_eq_Some)
qed

lemma Propose_steady:
  assumes "Propose E (ihm now) pc p = Some (Ready (n, outs, p'))"
  shows "steady outs p p'"
  using assms
proof (cases rule: Propose_cases)
  case (yield p0 pc')
  with propose_quiet[OF yield(2)] frame_steady[of p0 p' outs] show ?thesis by (simp add: quiet_def steady_def)
next
  case (proposed p0 r outs1 p1 pp q marks msg p3)
  have "steady outs1 p0 p1" using propose_quiet[OF proposed(2)] by (auto simp: quiet_def intro: frame_steady)
  moreover have "frame q p3" "marks = mark_partition E pp"
    using proposed(5) by (auto simp: encodeProposal_def bind_eq_Some_conv split: if_splits dest: cacheBodies_frame)
  ultimately show ?thesis using proposed(1,4,6,7) by (auto simp: steady_def dest: frame_seqID)
qed (auto simp: steady_def)

lemma handleMessage_steady:
  assumes "handleMessage E (ihm now) now msg p = Some (ts, outs, p')" "calm {msg}"
  shows "steady outs p p'"
proof -
  from assms(1) obtain handled ts0 p0 where h: "handleOverhead E msg p = Some (handled, ts0, p0)"
    by (auto simp: handleMessage_def bind_eq_Some_conv)
  have p0: "pn_sequenceID p0 = pn_sequenceID p" using handleOverhead_result[OF h, THEN conjunct1] by (rule frame_seqID)
  show ?thesis
  proof (cases handled)
    case True
    with assms(1) h p0 show ?thesis by (auto simp: handleMessage_def steady_def)
  next
    case False
    have vc: "handleViewChangeMsg m p0 = Some (outs, p') \<Longrightarrow> steady outs p0 p'" for m
      by (auto simp: handleViewChangeMsg_def bind_eq_Some_conv Let_def steady_def split: if_splits)
    have ro: "handleRequestOldSeq (ihm now) m p0 = Some (outs, p') \<Longrightarrow> steady outs p0 p'" for m
      by (auto simp: handleRequestOldSeq_def bind_eq_Some_conv steady_def split: if_splits dest!: old_id)
    from False assms h p0 vc ro show ?thesis
      by (cases msg) (auto simp: handleMessage_def bind_eq_Some_conv WaitToStop_def calm_def steady_def)
  qed
qed

lemma step_seq:
  assumes "pbft_step E ihm ohm s s'" "calm (set (sy_recv s'))" "seq_ok n0 (sy_trace s) (sy_node s)"
  shows "seq_ok n0 (sy_trace s') (sy_node s')"
  using assms(1)
proof (cases rule: pbft_step.cases)
  case (recv now msg ts outs p)
  with assms(2) have "calm {msg}" by (auto simp: calm_def)
  from handleMessage_steady[OF recv(3) this] assms(3) recv(1) show ?thesis by (simp add: seq_ok_steady)
next
  case (run t v now late ts outs p)
  from run_task_seq[OF run(4) assms(3)] run(1) show ?thesis by simp
next
  case (block c v now late ts p)
  from run_task_seq[OF block(4) assms(3)] block(1) show ?thesis by simp
next
  case (resume c now outs p)
  from ask_old_steady[OF resume(3)] assms(3) resume(1) show ?thesis by (simp add: seq_ok_steady)
next
  case (propose pc now nxt outs p)
  from Propose_steady[OF propose(3)] assms(3) propose(1) show ?thesis by (simp add: seq_ok_steady)
next
  case (timer now outs p)
  then have "steady outs (sy_node s) p"
    by (auto simp: viewChangeTimer_def viewChangePropose_def bind_eq_Some_conv Let_def steady_def split: if_splits)
  with assms(3) timer(1) show ?thesis by (simp add: seq_ok_steady)
next
  case (stream outs p)
  then obtain ov where ov: "pn_overhead (sy_node s) = Some ov" by (auto simp: stream_worker_def bind_eq_Some_conv)
  with stream obtain b bs where "ov_stream ov = b # bs" by (cases "ov_stream ov") (auto simp: stream_worker_def)
  with ov stream(2) have "frame (sy_node s) p" "events outs = []" by (auto simp: stream_worker_def)
  with assms(3) stream(1) show ?thesis by (auto intro: seq_ok_steady frame_steady)
qed (use assms(3) in simp_all)

lemma reachable_seq:
  assumes "(pbft_step E ihm ohm)\<^sup>*\<^sup>* s0 s" "seq_ok n0 (sy_trace s0) (sy_node s0)"
  shows "calm (set (sy_recv s)) \<longrightarrow> seq_ok n0 (sy_trace s) (sy_node s)"
  using assms
proof (induction rule: rtranclp_induct)
  case (step s s')
  have "set (sy_recv s) \<subseteq> set (sy_recv s')" using step.hyps(2) by (cases rule: pbft_step.cases) auto
  with step step_seq[OF step.hyps(2)] show ?case by (auto simp: calm_def)
qed simp

end

section \<open>From the start\<close>

abbreviation max_faulty :: "ChainConfig \<Rightarrow> nat" where
  "max_faulty pcc \<equiv> unat ((cc_Nodes_perShard pcc - 1) div 3)"

lemma new_node_ok:
  "node_ok ((cc_Nodes_perShard pcc - 1) div 3) {} [] (NewPbftNode E ips t0 sid nid pcc bc)"
  by (simp add: node_ok_defs NewPbftNode_def pv.table_ok_def nv.table_ok_def votes_def vc_voters_def)

lemma reachable_node_ok:
  assumes "pbft_reachable E ty (NewPbftNode E ips t0 sid nid pcc bc) s"
  shows "node_ok ((cc_Nodes_perShard pcc - 1) div 3) (set (sy_recv s)) (sy_trace s) (sy_node s)"
proof -
  let ?f = "(cc_Nodes_perShard pcc - 1) div 3"
  have "sys_ok ?f (sys_init (NewPbftNode E ips t0 sid nid pcc bc))"
    using new_node_ok by (simp add: sys_ok_def tasks_ok_def sys_init_def)
  with assms have "sys_ok ?f s" unfolding pbft_reachable_def by (rule sel.reachable_ok)
  then show ?thesis by (simp add: sys_ok_def)
qed

text \<open>\<^verbatim>\<open>2*f+1\<close> does not overflow, because f is at most a third of the range.\<close>

lemma third_no_overflow:
  "unat (2 * (n div 3) + 1 :: u64) = 2 * unat (n div 3) + 1" "2 * sint (n div 3) + 1 = 2 * int (unat (n div 3)) + 1" for n :: u64
proof -
  have "unat (n div 3) = unat n div 3" by (simp add: unat_div)
  moreover have "unat n < 18446744073709551616" using unsigned_less[of n] by simp
  ultimately have b: "2 * unat (n div 3) + 1 < 18446744073709551616" "unat (n div 3) < 9223372036854775808" by auto
  from b(1) have "unat (of_nat (2 * unat (n div 3) + 1) :: u64) = 2 * unat (n div 3) + 1"
    unfolding unat_of_nat by (intro mod_less) simp
  then show "unat (2 * (n div 3) + 1 :: u64) = 2 * unat (n div 3) + 1" by (simp add: add.commute)
  have "sint (n div 3) = int (unat (n div 3))"
  proof -
    have "uint (n div 3) = int (unat (n div 3))" by simp
    with b(2) have "uint (n div 3) < 9223372036854775808" by linarith
    moreover have "- 9223372036854775808 \<le> uint (n div 3)" using uint_ge_0[of "n div 3"] by linarith
    ultimately show ?thesis unfolding sint_uint by (subst signed_take_bit_int_eq_self) simp_all
  qed
  then show "2 * sint (n div 3) + 1 = 2 * int (unat (n div 3)) + 1" by simp
qed

lemma finite_senders [simp]:
  "finite (preparers (set ms) d)" "finite (committers (set ms) d)" "finite (new_viewers (set ms) k)"
proof -
  have "preparers (set ms) d \<subseteq> (\<lambda>m. case m of CPrepare x \<Rightarrow> node_key (pr_SenderNode x) | _ \<Rightarrow> undefined) ` set ms"
    by (force simp: preparers_def)
  then show "finite (preparers (set ms) d)" by (rule finite_subset) simp
  have "committers (set ms) d \<subseteq> (\<lambda>m. case m of CCommit x \<Rightarrow> node_key (cm_SenderNode x) | _ \<Rightarrow> undefined) ` set ms"
    by (force simp: committers_def)
  then show "finite (committers (set ms) d)" by (rule finite_subset) simp
  have "new_viewers (set ms) k \<subseteq> (\<lambda>m. case m of NewChange x \<Rightarrow> nv_FromNode x | _ \<Rightarrow> undefined) ` set ms"
    by (force simp: new_viewers_def)
  then show "finite (new_viewers (set ms) k)" by (rule finite_subset) simp
qed

lemma executed_quorum:
  assumes "node_ok f (set ms) tr p" "d \<in> fst ` set (rounds tr)"
  shows "unat (2 * f + 1) \<le> card (committers (set ms) d)"
proof -
  let ?v = "votes (pn_cntCommitConfirm p) d"
  from assms have ok: "pv.table_ok (pn_cntCommitConfirm p)" "node_key ` set ?v \<subseteq> committers (set ms) d"
    "unat (2 * f + 1) \<le> length ?v" "f = pn_malicious_nums p"
    by (auto simp: node_ok_def commit_ok_def quorum_def)
  have "length ?v = card (node_key ` set ?v)" by (rule pv.count_distinct[OF ok(1)])
  also have "\<dots> \<le> card (committers (set ms) d)" by (rule card_mono) (simp_all add: ok(2))
  finally show ?thesis using ok(3) by simp
qed


lemma broadcast_quorum:
  assumes "node_ok f (set ms) tr p" "Bcast (CCommit c) \<in> set tr"
  shows "unat (2 * f + 1) \<le> card (preparers (set ms) (cm_Digest c))"
proof -
  let ?v = "votes (pn_cntPrepareConfirm p) (cm_Digest c)"
  from assms have ok: "pv.table_ok (pn_cntPrepareConfirm p)" "node_key ` set ?v \<subseteq> preparers (set ms) (cm_Digest c)"
    "unat (2 * f + 1) \<le> length ?v" "f = pn_malicious_nums p"
    by (auto simp: node_ok_def prepare_ok_def quorum_def)
  have "length ?v = card (node_key ` set ?v)" by (rule pv.count_distinct[OF ok(1)])
  also have "\<dots> \<le> card (preparers (set ms) (cm_Digest c))" by (rule card_mono) (simp_all add: ok(2))
  finally show ?thesis using ok(3) by simp
qed

section \<open>The safety theorems\<close>








lemma demo_committers: "committers (set demo_round_msgs) demo_D \<subseteq> {(0, 0), (1, 0), (2, 0), (3, 0)}"
  by (auto simp: committers_def demo_round_msgs_def demo_cmsg_def demo_peer_def)


text \<open>
  C35. A node leaves the first view only for a view that 2f+1 different nodes announced in new-view
  messages with the same view and sequence number.
\<close>

theorem view_by_quorum:
  assumes "pbft_reachable E ty (NewPbftNode E ips t0 sid nid pcc bc) s" "pn_view (sy_node s) \<noteq> 0"
  shows "\<exists>v sq. pn_view (sy_node s) = to_int32 v \<and> 2 * max_faulty pcc + 1 \<le> card (new_viewers (set (sy_recv s)) (v, sq))"
proof -
  let ?t = "pn_newViewMap (sy_node s)"
  from reachable_node_ok[OF assms(1)] have ok: "view_ok (set (sy_recv s)) (sy_node s)"
    and f: "pn_malicious_nums (sy_node s) = (cc_Nodes_perShard pcc - 1) div 3" by (auto simp: node_ok_def)
  with assms(2) obtain k where k: "pn_view (sy_node s) = to_int32 (fst k)"
    "vc_quorum (sy_node s) \<le> int (length (vc_voters ?t k))" "nv.table_ok ?t"
    "set (vc_voters ?t k) \<subseteq> new_viewers (set (sy_recv s)) k" unfolding view_ok_def by blast
  have "length (vc_voters ?t k) = card (set (vc_voters ?t k))" using nv.count_distinct[OF k(3), of k] by simp
  also have "\<dots> \<le> card (new_viewers (set (sy_recv s)) k)" by (rule card_mono) (simp_all add: k(4))
  finally have "2 * max_faulty pcc + 1 \<le> card (new_viewers (set (sy_recv s)) (fst k, snd k))"
    using k(2)[unfolded vc_quorum_def f third_no_overflow(2)] by (simp only: prod.collapse)
  with k(1) show ?thesis by blast
qed

definition demo_nv :: "u64 \<Rightarrow> NewViewMsg" where
  "demo_nv i = \<lparr>nv_CurView = 0, nv_NextView = 1, nv_NewSeqID = 1, nv_FromNode = i\<rparr>"

theorem view_by_quorum_witness:
  "\<exists>s. pbft_reachable demo_nenv [] (demo_node 1) s \<and> pn_view (sy_node s) = 1
     \<and> (\<exists>v sq. pn_view (sy_node s) = to_int32 v \<and> 3 \<le> card (new_viewers (set (sy_recv s)) (v, sq)))"
proof -
  have "\<exists>s. foldlM (exec_act demo_nenv []) (sys_init (demo_node 1)) (map (\<lambda>i. ARecv 0 (NewChange (demo_nv i))) [0, 1, 2]) = Some s
      \<and> pn_view (sy_node s) = 1"
    by (simp add: handleMessage_def handleOverhead_def demo_no_overhead handleNewViewMsg_def Let_def demo_nv_def sys_init_def
        demo_node_fields vc_add_def vc_voters_def vc_quorum_def to_int32_def)
  then obtain s where s: "pbft_reachable demo_nenv [] (demo_node 1) s" "pn_view (sy_node s) = 1"
    using exec_acts_reachable by blast
  from view_by_quorum[OF s(1)[unfolded demo_node_def]] s(2)
  have "\<exists>v sq. pn_view (sy_node s) = to_int32 v \<and> 3 \<le> card (new_viewers (set (sy_recv s)) (v, sq))" by (simp add: demo_cc_def)
  with s show ?thesis by blast
qed

section \<open>Single handlers\<close>

text \<open>
  Late messages do nothing: a pre-prepare, prepare or commit message whose sequence number has
  passed, or whose handler began in another view, changes nothing and sends nothing to the shard,
  whatever the stage of the round.
\<close>

theorem late_messages_ignored:
  assumes "pn_view p \<noteq> v \<or> (pp_SeqID pp < pn_sequenceID p \<and> pr_SeqID pr < pn_sequenceID p \<and> cm_SeqID cm < pn_sequenceID p)"
  shows "handlePrePrepare E i v pp p = Some (Done (mark_partition E pp) p) \<and> handlePrepare i v pr p = Some (Done [] p)
    \<and> handleCommit i now v cm p = Some (Done [] p)"
proof (cases "pn_view p = v")
  case True
  with assms show ?thesis
    by (simp add: handlePrePrepare_def handlePrepare_def handleCommit_def Let_def not_le[symmetric])
next
  case False
  then show ?thesis by (simp add: handlePrePrepare_def handlePrepare_def handleCommit_def)
qed

theorem late_messages_ignored_witness:
  "handlePrepare (RawRelay_ihm demo_nenv 0) 1 (demo_pmsg 0) (demo_node 1) = Some (Done [] (demo_node 1))"
  using late_messages_ignored[of "demo_node 1" 1 demo_ppmsg "demo_pmsg 0" "demo_cmsg 0" demo_nenv "RawRelay_ihm demo_nenv 0" 0]
  by (simp add: demo_node_fields)

text \<open>
  A node prepares every valid proposal for its sequence number, also a second one: after it has
  broadcast a prepare message for one request it does so for a different request with the same
  sequence number in the same view. Nothing in the handler compares with \<^verbatim>\<open>height2Digest\<close>.
\<close>

theorem prepares_conflicting_proposals:
  assumes "0 < pn_pbftStage p" "pn_pbftStage p < 2 ^ 30" "pn_view p = v"
    and "\<forall>pp \<in> {pp1, pp2}. pp_SeqID pp = pn_sequenceID p \<and> pp_Digest pp = getDigest E (pp_RequestMsg pp)
           \<and> (\<exists>b. DecodeB E (rq_Content (pp_RequestMsg pp)) = Some b \<and> IsValidBlock E b (pn_CurChain p) = None)"
  shows "\<exists>o1 p1 o2 p2. handlePrePrepare E (RawRelay_ihm E now) v pp1 p = Some (Done o1 p1)
    \<and> handlePrePrepare E (RawRelay_ihm E now) v pp2 p1 = Some (Done o2 p2)
    \<and> Bcast (CPrepare \<lparr>pr_Digest = pp_Digest pp1, pr_SeqID = pn_sequenceID p, pr_SenderNode = pn_RunningNode p\<rparr>) \<in> set o1
    \<and> Bcast (CPrepare \<lparr>pr_Digest = pp_Digest pp2, pr_SeqID = pn_sequenceID p, pr_SenderNode = pn_RunningNode p\<rparr>) \<in> set o2"
proof -
  from assms(4) obtain b1 b2 where b: "DecodeB E (rq_Content (pp_RequestMsg pp1)) = Some b1" "IsValidBlock E b1 (pn_CurChain p) = None"
    "DecodeB E (rq_Content (pp_RequestMsg pp2)) = Some b2" "IsValidBlock E b2 (pn_CurChain p) = None" by auto
  have st: "to_int32 (pn_pbftStage p + 1) = pn_pbftStage p + 1" using assms(1,2) by (intro to_int32_id) auto
  show ?thesis
    using assms b st
    by (simp add: handlePrePrepare_def RawRelay_ihm_def RawRelay_HandleinPrePrepare_def check_block_def Let_def stage_up_def)
qed

theorem prepares_conflicting_proposals_witness:
  "\<exists>o1 p1 o2 p2. handlePrePrepare demo_nenv (RawRelay_ihm demo_nenv 0) 0 demo_ppmsg (demo_node 1) = Some (Done o1 p1)
    \<and> handlePrePrepare demo_nenv (RawRelay_ihm demo_nenv 0) 0 (demo_ppmsg\<lparr>pp_RequestMsg := demo_req\<lparr>rq_ReqTime := 10\<rparr>\<rparr>) p1
        = Some (Done o2 p2)
    \<and> Bcast (CPrepare \<lparr>pr_Digest = demo_D, pr_SeqID = 1, pr_SenderNode = demo_peer 1\<rparr>) \<in> set o1"
proof -
  have d: "getDigest demo_nenv (demo_req\<lparr>rq_ReqTime := 10\<rparr>) = demo_D"
    by (simp add: getDigest_def demo_nenv_def chain_env.defs demo_env_def)
  have "0 < pn_pbftStage (demo_node 1)" "pn_pbftStage (demo_node 1) < 2 ^ 30" "pn_view (demo_node 1) = 0"
    "\<forall>pp \<in> {demo_ppmsg, demo_ppmsg\<lparr>pp_RequestMsg := demo_req\<lparr>rq_ReqTime := 10\<rparr>\<rparr>}.
       pp_SeqID pp = pn_sequenceID (demo_node 1) \<and> pp_Digest pp = getDigest demo_nenv (pp_RequestMsg pp)
       \<and> (\<exists>b. DecodeB demo_nenv (rq_Content (pp_RequestMsg pp)) = Some b \<and> IsValidBlock demo_nenv b (pn_CurChain (demo_node 1)) = None)"
    by (simp_all add: demo_node_fields demo_ppmsg_def d demo_decode demo_empty_valid)
  from prepares_conflicting_proposals[OF this, of 0] show ?thesis
    by (auto simp: demo_ppmsg_def demo_node_fields demo_own_node)
qed

lemma old_blocks_ignored:
  assumes "\<forall>r \<in> set (so_OldRequest som). rq_RequestType r = BlockRequest
       \<and> (\<exists>b. DecodeB E (rq_Content r) = Some b \<and> bh_Number (bk_Header b) \<noteq> bh_Number (bk_Header (bc_CurrentBlock (pn_CurChain p))) + 1)"
    and "so_SeqStartHeight som \<le> so_SeqEndHeight som" "so_SeqEndHeight som \<noteq> - 1"
    and "unat (so_SeqEndHeight som - so_SeqStartHeight som) < length (so_OldRequest som)"
  shows "old_requests_loop (old_request_blocks E) som (outs, p) = Some (outs, p)"
proof -
  have body: "old_request_blocks E r (outs, p) = Some (outs, p)" if r: "r \<in> set (so_OldRequest som)" for r
  proof -
    from r assms(1) obtain b where "DecodeB E (rq_Content r) = Some b" "rq_RequestType r = BlockRequest"
      "bh_Number (bk_Header b) \<noteq> bh_Number (bk_Header (bc_CurrentBlock (pn_CurChain p))) + 1" by blast
    then show ?thesis by (simp add: old_request_blocks_def add_old_block_def AddBlock_def)
  qed
  let ?f = "\<lambda>s i. if i < length (so_OldRequest som) then old_request_blocks E (so_OldRequest som ! i) s else None"
  have "foldlM ?f (outs, p) is = Some (outs, p)" if "\<forall>i \<in> set is. i < length (so_OldRequest som)" for "is"
    using that by (induction "is") (auto simp: body)
  then have "foldlM ?f (outs, p) [0..<unat (so_SeqEndHeight som - so_SeqStartHeight som) + 1] = Some (outs, p)"
    using assms(4) by auto
  then show ?thesis using assms(2,3) by (simp add: old_requests_loop_def)
qed

lemma expected_count:
  fixes a b :: u64
  assumes "a \<le> b" "b \<noteq> - 1" "sint (b - a + 1) = int n"
  shows "n = Suc (unat (b - a))"
proof -
  have "1 + (b - a) \<noteq> 0"
  proof
    assume "1 + (b - a) = 0"
    then have "1 + b = a" by (simp add: algebra_simps)
    moreover have "unat (1 + b) = Suc (unat b)" using assms(2) by (intro unatSuc) (metis add.inverse_unique)
    ultimately show False using assms(1) by (auto simp: word_le_nat_alt)
  qed
  then have "unat (b - a + 1) = Suc (unat (b - a))" by (subst add.commute) (rule unatSuc)
  moreover have "sint (b - a + 1) = int (unat (b - a + 1))" by (rule sint_nonneg_unat) (simp add: assms(3))
  ultimately show ?thesis using assms(3) by linarith
qed

text \<open>
  Catching up misses a block. A node that is left behind asks for the requests from its sequence
  number plus one, although the request of its own sequence number is the first it lacks. When the
  answer has the length asked for and holds only blocks that do not follow the node's current block,
  none is added and yet the sequence number moves past them: the chain stays behind for good.
\<close>

theorem catching_up_skips_blocks:
  assumes "\<not> pn_askForLock p" "\<not> is_leader p" "cm_SeqID c = so_SeqEndHeight som"
    and "so_SeqStartHeight som = pn_sequenceID p + 1" "so_SeqStartHeight som \<le> so_SeqEndHeight som" "so_SeqEndHeight som \<noteq> - 1"
    and "sint (so_SeqEndHeight som - so_SeqStartHeight som + 1) = int (length (so_OldRequest som))"
    and "\<forall>r \<in> set (so_OldRequest som). rq_RequestType r = BlockRequest
       \<and> (\<exists>b. DecodeB E (rq_Content r) = Some b \<and> bh_Number (bk_Header b) \<noteq> bh_Number (bk_Header (bc_CurrentBlock (pn_CurChain p))) + 1)"
  shows "\<exists>sn q q'. ask_old_requests now c p = Some (Done [Dial (nd_IPaddr sn) (CRequestOldrequest
          \<lparr>ro_SeqStartHeight = so_SeqStartHeight som, ro_SeqEndHeight = so_SeqEndHeight som,
           ro_ServerNode = sn, ro_SenderNode = pn_RunningNode p\<rparr>)] q)
     \<and> RawRelay_HandleforSequentialRequest E som q = Some (True, [], q')
     \<and> pn_CurChain q' = pn_CurChain p \<and> pn_sequenceID q' = so_SeqEndHeight som + 1"
proof -
  define sn where "sn = \<lparr>nd_NodeID = leader_id p, nd_ShardID = pn_ShardID p,
    nd_IPaddr = pn_ip_nodeTable p (pn_ShardID p) (leader_id p)\<rparr>"
  define q where "q = p\<lparr>pn_askForLock := True, pn_pbftStage := 1, pn_lastCommitTime := UnixMilli now\<rparr>"
  have "ask_old_requests now c p = Some (Done [Dial (nd_IPaddr sn) (CRequestOldrequest
          \<lparr>ro_SeqStartHeight = so_SeqStartHeight som, ro_SeqEndHeight = so_SeqEndHeight som,
           ro_ServerNode = sn, ro_SenderNode = pn_RunningNode p\<rparr>)] q)"
    using assms(1-4) by (simp add: ask_old_requests_def end_round_def Let_def sn_def q_def leader_id_def)
  moreover have "RawRelay_HandleforSequentialRequest E som q = Some (True, [], q\<lparr>pn_sequenceID := so_SeqEndHeight som + 1\<rparr>)"
    using old_blocks_ignored[of som E q "[]"] assms(5-8) expected_count[OF assms(5-7)]
    by (simp add: RawRelay_HandleforSequentialRequest_def sequential_requests_def q_def)
  ultimately show ?thesis
    by (intro exI[of _ sn] exI[of _ q] exI[of _ "q\<lparr>pn_sequenceID := so_SeqEndHeight som + 1\<rparr>"]) (simp add: q_def)
qed

definition demo_old :: SendOldMessage where
  "demo_old = \<lparr>so_SeqStartHeight = 2, so_SeqEndHeight = 2,
     so_OldRequest = [demo_req\<lparr>rq_Content := B_Encode demo_nenv (demo_empty\<lparr>bk_Header := (bk_Header demo_empty)\<lparr>bh_Number := 2\<rparr>\<rparr>)\<rparr>],
     so_SenderNode = demo_peer 0\<rparr>"

theorem catching_up_skips_blocks_witness:
  "\<exists>sn q q'. ask_old_requests 0 \<lparr>cm_Digest = demo_D, cm_SeqID = 2, cm_SenderNode = demo_peer 0\<rparr> (demo_node 1)
       = Some (Done [Dial (nd_IPaddr sn) (CRequestOldrequest \<lparr>ro_SeqStartHeight = so_SeqStartHeight demo_old,
           ro_SeqEndHeight = so_SeqEndHeight demo_old, ro_ServerNode = sn, ro_SenderNode = pn_RunningNode (demo_node 1)\<rparr>)] q)
     \<and> RawRelay_HandleforSequentialRequest demo_nenv demo_old q = Some (True, [], q')
     \<and> pn_CurChain q' = pn_CurChain (demo_node 1) \<and> pn_sequenceID q' = so_SeqEndHeight demo_old + 1"
  by (rule catching_up_skips_blocks)
     (simp_all add: demo_old_def demo_node_fields leader_id_def decode_encode(4)[OF demo_nenv_core] demo_req_def,
      simp_all add: demo_node_def NewPbftNode_def)

text \<open>
  C40. A commit message of a later round can end the current one. \<^verbatim>\<open>handleCommit\<close> refuses messages of earlier rounds only. A replica that has prepared the
  block of its round and already has the proposal of a later round takes 2f+1 commit messages of that round for the end of its own: it
  cannot add the later block, its chain stays as it is, its sequence number moves on, and the commit messages of the block
  it has missed are dropped from then on.
\<close>

theorem overtaking_commit_skips_block:
  assumes "3 \<le> pn_pbftStage p" "pn_view p = v" "\<not> is_leader p" "pn_sequenceID p < cm_SeqID c"
    and "\<not> pn_isReply p (cm_Digest c)" "pn_requestPool p (cm_Digest c) = Some r" "DecodeB E (rq_Content r) = Some b"
    and "bh_Number (bk_Header b) \<noteq> bh_Number (bk_Header (bc_CurrentBlock (pn_CurChain p))) + 1"
    and "2 * pn_malicious_nums p + 1 \<le> of_nat (length (votes (add_vote (cm_Digest c) (cm_SenderNode c) (pn_cntCommitConfirm p)) (cm_Digest c)))"
  shows "\<exists>p'. handleCommit (RawRelay_ihm E now) now v c p = Some (Done [RoundEnd (cm_Digest c) (pn_sequenceID p)] p')
    \<and> pn_CurChain p' = pn_CurChain p \<and> pn_sequenceID p' = pn_sequenceID p + 1
    \<and> (\<forall>c'. cm_SeqID c' = pn_sequenceID p \<longrightarrow> handleCommit (RawRelay_ihm E now) now v c' p' = Some (Done [] p'))"
proof -
  have kept: "AddBlock E b (pn_CurChain p) = Some (pn_CurChain p)" using assms(8) by (simp add: AddBlock_def)
  have next': "pn_sequenceID p < pn_sequenceID p + 1"
    using assms(4) inc_less_eq_self_iff_eq[of "pn_sequenceID p"] word_order.extremum[of "cm_SeqID c"] by (auto simp: not_le[symmetric])
  define p' where "p' = p\<lparr>pn_cntCommitConfirm := add_vote (cm_Digest c) (cm_SenderNode c) (pn_cntCommitConfirm p),
    pn_isReply := (pn_isReply p)(cm_Digest c := True), pn_sequenceID := pn_sequenceID p + 1, pn_pbftStage := 1, pn_lastCommitTime := UnixMilli now\<rparr>"
  have "handleCommit (RawRelay_ihm E now) now v c p = Some (Done [RoundEnd (cm_Digest c) (pn_sequenceID p)] p')"
    using assms kept by (simp add: handleCommit_def Let_def set2DMap_def RawRelay_ihm_def RawRelay_HandleinCommit_def commit_block_relay_def
        end_round_def leader_id_def p'_def)
  moreover have "handleCommit (RawRelay_ihm E now) now v c' p' = Some (Done [] p')" if "cm_SeqID c' = pn_sequenceID p" for c'
    using that next' by (simp add: handleCommit_def p'_def not_le)
  ultimately show ?thesis by (intro exI[of _ p']) (simp add: p'_def)
qed

text \<open>A replica in round 1 that has the proposal of round 2 and two commit messages for it.\<close>

definition demo_overtaken where
  "demo_overtaken = (demo_at 3 2)\<lparr>pn_requestPool := [demo_D \<mapsto> hd (so_OldRequest demo_old)]\<rparr>"

theorem overtaking_commit_skips_block_witness:
  "\<exists>p'. handleCommit (RawRelay_ihm demo_nenv 0) 0 0 ((demo_cmsg 2)\<lparr>cm_SeqID := 2\<rparr>) demo_overtaken = Some (Done [RoundEnd demo_D 1] p')
     \<and> pn_CurChain p' = demo_chain 0 [demo_tx ''c0''] \<and> pn_sequenceID p' = 2
     \<and> handleCommit (RawRelay_ihm demo_nenv 0) 0 0 (demo_cmsg 0) p' = Some (Done [] p')"
proof -
  let ?b = "demo_empty\<lparr>bk_Header := (bk_Header demo_empty)\<lparr>bh_Number := 2\<rparr>\<rparr>"
  have c: "pn_CurChain demo_overtaken = demo_chain 0 [demo_tx ''c0'']" "pn_sequenceID demo_overtaken = 1"
    "pn_requestPool demo_overtaken demo_D = Some (hd (so_OldRequest demo_old))"
    by (simp_all add: demo_overtaken_def demo_at_def demo_node_fields)
  have "\<exists>p'. handleCommit (RawRelay_ihm demo_nenv 0) 0 0 ((demo_cmsg 2)\<lparr>cm_SeqID := 2\<rparr>) demo_overtaken
        = Some (Done [RoundEnd (cm_Digest ((demo_cmsg 2)\<lparr>cm_SeqID := 2\<rparr>)) (pn_sequenceID demo_overtaken)] p')
      \<and> pn_CurChain p' = pn_CurChain demo_overtaken \<and> pn_sequenceID p' = pn_sequenceID demo_overtaken + 1
      \<and> (\<forall>c'. cm_SeqID c' = pn_sequenceID demo_overtaken \<longrightarrow> handleCommit (RawRelay_ihm demo_nenv 0) 0 0 c' p' = Some (Done [] p'))"
    by (rule overtaking_commit_skips_block[where r = "hd (so_OldRequest demo_old)" and b = ?b])
       (simp_all add: c demo_overtaken_def demo_at_def demo_node_fields demo_cmsg_def leader_id_def demo_old_def decode_encode(4)[OF demo_nenv_core]
         add_vote_def votes_def demo_peer_def word_le_nat_alt)
  then show ?thesis by (auto simp: c demo_cmsg_def)
qed

text \<open>
  A node of the broker variant never takes over old blocks: for an answer with all the requests it
  asked for, the reversed difference never equals the number of requests, so nothing is added, and
  \<^verbatim>\<open>handleSendOldSeq\<close> still moves the sequence number behind the last one.
\<close>

theorem Broker_never_catches_up:
  assumes "so_SeqStartHeight som \<le> so_SeqEndHeight som" "so_SeqEndHeight som < 2 ^ 62"
    and "length (so_OldRequest som) = unat (so_SeqEndHeight som - so_SeqStartHeight som) + 1"
  shows "Broker_HandleforSequentialRequest E som p = Some (True, [], p)"
proof -
  let ?x = "so_SeqEndHeight som - so_SeqStartHeight som"
  have "sint (so_SeqStartHeight som - so_SeqEndHeight som) \<noteq> int (length (so_OldRequest som))"
  proof
    assume eq: "sint (so_SeqStartHeight som - so_SeqEndHeight som) = int (length (so_OldRequest som))"
    then have "unat (so_SeqStartHeight som - so_SeqEndHeight som) = unat ?x + 1"
      using sint_nonneg_unat[of "so_SeqStartHeight som - so_SeqEndHeight som"] assms(3) by linarith
    then have "(of_nat (unat (so_SeqStartHeight som - so_SeqEndHeight som)) :: u64) = of_nat (unat ?x + 1)" by (simp only:)
    then have "so_SeqStartHeight som - so_SeqEndHeight som = ?x + 1" by simp
    then have "2 * ?x + 1 = 0" by (simp add: algebra_simps)
    then have "bit (2 * ?x + 1) 0 = bit (0 :: u64) 0" by simp
    then show False by (simp add: bit_0)
  qed
  then show ?thesis by (simp add: Broker_HandleforSequentialRequest_def sequential_requests_def)
qed

theorem Broker_never_catches_up_witness:
  "Broker_HandleforSequentialRequest demo_nenv demo_old (demo_node 1) = Some (True, [], demo_node 1)"
  by (rule Broker_never_catches_up) (simp_all add: demo_old_def)

end
