(* ===== verification/Pbft_Migration.thy ===== *)
theory Pbft_Migration
  imports Pbft_Outside
begin

text \<open>
  What the leader does with transactions: sorting the body of a committed block for the relay, and
  handing the queued transactions of moved accounts to their new shards.
\<close>

section \<open>The two-pointer loop over the queue\<close>

lemma split_prefix:
  assumes "k \<le> length q"
  shows "\<exists>r. foldl (split_step mv) (q, 0, []) [0..<k]
       = (filter (\<lambda>t. \<not> mv t) (take k q) @ r @ drop k q, length (filter (\<lambda>t. \<not> mv t) (take k q)), filter mv (take k q))
     \<and> length (filter (\<lambda>t. \<not> mv t) (take k q)) + length r = k"
  using assms
proof (induction k)
  case 0
  then show ?case by simp
next
  case (Suc k)
  let ?keep = "filter (\<lambda>t. \<not> mv t) (take k q)" and ?x = "q ! k"
  from Suc obtain r where r: "foldl (split_step mv) (q, 0, []) [0..<k] = (?keep @ r @ drop k q, length ?keep, filter mv (take k q))"
    "length ?keep + length r = k" by auto
  have t: "take (Suc k) q = take k q @ [?x]" using Suc.prems by (simp add: take_Suc_conv_app_nth)
  have d: "drop k q = ?x # drop (Suc k) q" using Suc.prems by (simp add: Cons_nth_drop_Suc)
  have "(?keep @ r @ drop k q) ! (length (?keep @ r)) = ?x" unfolding d by (metis append.assoc nth_append_length)
  then have x: "(?keep @ r @ drop k q) ! k = ?x" using r(2) by simp
  show ?case
  proof (cases "mv ?x")
    case True
    then show ?thesis using x r by (intro exI[of _ "r @ [?x]"]) (simp add: split_step_def Let_def t d)
  next
    case False
    show ?thesis
    proof (cases r)
      case Nil
      with False x r show ?thesis by (intro exI[of _ "[]"]) (simp add: split_step_def Let_def t d list_update_append)
    next
      case (Cons y ys)
      with False x r show ?thesis by (intro exI[of _ "ys @ [?x]"]) (simp add: split_step_def Let_def t d list_update_append)
    qed
  qed
qed

lemma split_queue_filter: "split_queue mv q = (filter mv q, filter (\<lambda>t. \<not> mv t) q)"
  using split_prefix[of "length q" q mv] by (auto simp: split_queue_def)

section \<open>Handing over the queue\<close>

definition queue_of :: "('bs, 'bo, 'td) node \<Rightarrow> Transaction list" where
  "queue_of p = tp_TxQueue (bc_Txpool (pn_CurChain p))"

text \<open>The account messages among the outputs, with the address they go to.\<close>

definition account_msgs :: "net_out list \<Rightarrow> (bytes \<times> AccountStateAndTx) list" where
  "account_msgs outs = List.map_filter (\<lambda>x. case x of Dial a (AccountState_and_TX at) \<Rightarrow> Some (a, at) | _ \<Rightarrow> None) outs"

lemma account_msgs_simps [simp]:
  "account_msgs [] = []" "account_msgs (xs @ ys) = account_msgs xs @ account_msgs ys"
  "account_msgs (Dial a (AccountState_and_TX at) # xs) = (a, at) # account_msgs xs"
  by (simp_all add: account_msgs_def map_filter_def)

lemma send_accounts_shard_result:
  "send_accounts_shard mm fetched (outs, p) i =
    (let send = filter (\<lambda>(addr, as). map_get0 mm addr = i) fetched; mv = tx_moves (map fst send) in
     (outs @ [Dial (pn_ip_nodeTable p i 0) (AccountState_and_TX \<lparr>ax_Addrs = map fst send, ax_AccountState = map snd send,
          ax_Txs = filter mv (queue_of p), ax_FromShard = pn_ShardID p\<rparr>)],
      map_pool (\<lambda>pool. pool\<lparr>tp_TxQueue := filter (\<lambda>t. \<not> mv t) (queue_of p)\<rparr>) p))"
  by (simp add: send_accounts_shard_def split_queue_filter queue_of_def Let_def)

lemma queue_map_pool [simp]: "queue_of (map_pool (\<lambda>pool. pool\<lparr>tp_TxQueue := q\<rparr>) p) = q"
  by (simp add: queue_of_def map_pool_def)

lemma send_accounts_conserves:
  "foldl (send_accounts_shard mm fetched) (outs, p) is = (outs', p') \<Longrightarrow>
   \<exists>new. outs' = outs @ new
     \<and> mset (queue_of p) = mset (queue_of p') + sum_list (map (\<lambda>m. mset (ax_Txs (snd m))) (account_msgs new))
     \<and> (\<forall>t \<in> set (queue_of p'). \<not> tx_moves (map fst (filter (\<lambda>(a, s). map_get0 mm a \<in> set is) fetched)) t)
     \<and> set (queue_of p') \<subseteq> set (queue_of p)
     \<and> concat (map (\<lambda>(_, at). zip (ax_Addrs at) (ax_AccountState at)) (account_msgs new))
         = concat (map (\<lambda>i. filter (\<lambda>(a, s). map_get0 mm a = i) fetched) is)"
proof (induction "is" arbitrary: outs p)
  case Nil
  then show ?case by (auto simp: tx_moves_def)
next
  case (Cons i "is")
  define send where "send = filter (\<lambda>(addr, as). map_get0 mm addr = i) fetched"
  define mv where "mv = tx_moves (map fst send)"
  define at where "at = \<lparr>ax_Addrs = map fst send, ax_AccountState = map snd send, ax_Txs = filter mv (queue_of p), ax_FromShard = pn_ShardID p\<rparr>"
  define p1 where "p1 = map_pool (\<lambda>pool. pool\<lparr>tp_TxQueue := filter (\<lambda>t. \<not> mv t) (queue_of p)\<rparr>) p"
  have step: "send_accounts_shard mm fetched (outs, p) i = (outs @ [Dial (pn_ip_nodeTable p i 0) (AccountState_and_TX at)], p1)"
    unfolding send_accounts_shard_result Let_def at_def p1_def mv_def send_def by simp
  from Cons.prems Cons.IH[of "outs @ [Dial (pn_ip_nodeTable p i 0) (AccountState_and_TX at)]" p1] obtain new where
    n: "outs' = (outs @ [Dial (pn_ip_nodeTable p i 0) (AccountState_and_TX at)]) @ new"
    "mset (queue_of p1) = mset (queue_of p') + sum_list (map (\<lambda>m. mset (ax_Txs (snd m))) (account_msgs new))"
    "\<forall>t \<in> set (queue_of p'). \<not> tx_moves (map fst (filter (\<lambda>(a, s). map_get0 mm a \<in> set is) fetched)) t"
    "set (queue_of p') \<subseteq> set (queue_of p1)"
    "concat (map (\<lambda>(_, at). zip (ax_Addrs at) (ax_AccountState at)) (account_msgs new))
       = concat (map (\<lambda>i. filter (\<lambda>(a, s). map_get0 mm a = i) fetched) is)"
    by (auto simp: step)
  have q1: "queue_of p1 = filter (\<lambda>t. \<not> mv t) (queue_of p)" by (simp add: p1_def)
  have "mset (queue_of p) = mset (queue_of p1) + mset (ax_Txs at)"
    using mset_filter_partition[of mv "queue_of p"] by (simp add: q1 at_def)
  moreover have "\<not> tx_moves (map fst (filter (\<lambda>(a, s). map_get0 mm a \<in> set (i # is)) fetched)) t" if "t \<in> set (queue_of p')" for t
    using that n(3,4) unfolding q1 by (force simp: mv_def send_def tx_moves_def)
  moreover have "set (queue_of p') \<subseteq> set (queue_of p)" using n(4) unfolding q1 by auto
  moreover have "zip (ax_Addrs at) (ax_AccountState at) = send" by (simp add: at_def zip_map_fst_snd)
  ultimately show ?case
    using n(1,2,5)
    by (intro exI[of _ "Dial (pn_ip_nodeTable p i 0) (AccountState_and_TX at) # new"]) (auto simp: send_def ac_simps)
qed


definition demo_mover :: "(nat list, bytes list \<times> ((bytes \<times> bytes) \<times> bytes) list, (bytes \<times> alist_trie) list) node" where
  "demo_mover = (demo_node 0)\<lparr>pn_cdm := NewCLPADataSupport\<lparr>dm_ModifiedMap := [[(''a0'', 1), (''c0'', 0)]]\<rparr>\<rparr>"

lemma demo_mover_setup:
  "last_map demo_mover = Some [(''a0'', 1), (''c0'', 0)]"
  "accounts_to_fetch demo_nenv demo_mover [(''a0'', 1), (''c0'', 0)] = Some [''a0'']"
  "\<exists>s. FetchAccounts demo_nenv [''a0''] (pn_CurChain demo_mover) = Some [s]"
proof -
  have chain: "pn_CurChain demo_mover = demo_chain 0 [demo_tx ''c0'']" "pn_ShardID demo_mover = 0"
    by (simp_all add: demo_mover_def demo_node_def NewPbftNode_def)
  show "last_map demo_mover = Some [(''a0'', 1), (''c0'', 0)]" by (simp add: last_map_def demo_mover_def)
  show "accounts_to_fetch demo_nenv demo_mover [(''a0'', 1), (''c0'', 0)] = Some [''a0'']"
    by (simp add: accounts_to_fetch_def chain Get_PartitionMap_def demo_chain_def)
  have "tr_New demo_nenv = tr_New demo_env" "tr_Get demo_nenv = map_of"
    by (simp_all add: demo_nenv_def chain_env.defs demo_env_def)
  moreover have "BytesToHash (bh_StateRoot (bk_Header demo_genesis)) = demo_root []"
    by (simp add: demo_genesis_def Let_def BytesToHash_def demo_root_def)
  ultimately show "\<exists>s. FetchAccounts demo_nenv [''a0''] (pn_CurChain demo_mover) = Some [s]"
    by (simp add: FetchAccounts_def chain load_account_def)
qed


section \<open>Sorting a committed block for the relay\<close>

text \<open>The shard of an address, for addresses that have one.\<close>

definition shard_of :: "('bs, 'e) core_env_scheme \<Rightarrow> ('bs, 'bo, 'td) BlockChain \<Rightarrow> address \<Rightarrow> u64" where
  "shard_of E bc a = (case Get_PartitionMap E bc a of None \<Rightarrow> 0 | Some s \<Rightarrow> s)"

definition leaves :: "('bs, 'e) core_env_scheme \<Rightarrow> u64 \<Rightarrow> ('bs, 'bo, 'td) BlockChain \<Rightarrow> Transaction \<Rightarrow> bool" where
  "leaves E sid bc tx \<longleftrightarrow> \<not> tx_Relayed tx \<and> shard_of E bc (tx_Sender tx) = sid \<and> shard_of E bc (tx_Recipient tx) \<noteq> sid"

definition arrives :: "('bs, 'e) core_env_scheme \<Rightarrow> u64 \<Rightarrow> ('bs, 'bo, 'td) BlockChain \<Rightarrow> Transaction \<Rightarrow> bool" where
  "arrives E sid bc tx \<longleftrightarrow> tx_Relayed tx \<and> shard_of E bc (tx_Recipient tx) = sid"

definition stays :: "('bs, 'e) core_env_scheme \<Rightarrow> u64 \<Rightarrow> ('bs, 'bo, 'td) BlockChain \<Rightarrow> Transaction \<Rightarrow> bool" where
  "stays E sid bc tx \<longleftrightarrow> \<not> tx_Relayed tx \<and> shard_of E bc (tx_Sender tx) = sid \<and> shard_of E bc (tx_Recipient tx) = sid"

abbreviation mark_relayed :: "Transaction \<Rightarrow> Transaction" where
  "mark_relayed tx \<equiv> tx\<lparr>tx_Relayed := True\<rparr>"

definition classified ::
    "('bs, 'e) core_env_scheme \<Rightarrow> u64 \<Rightarrow> ('bs, 'bo, 'td) BlockChain \<Rightarrow> relay_acc \<Rightarrow> Transaction list \<Rightarrow> bool" where
  "classified E sid bc a txs \<longleftrightarrow> tp_RelayPool (ra_pool a) \<noteq> None
     \<and> ra_inner a = filter (stays E sid bc) txs \<and> ra_relay2 a = filter (arrives E sid bc) txs
     \<and> ra_relay1 a = map mark_relayed (filter (leaves E sid bc) txs)
     \<and> (\<forall>s. relay_of (ra_pool a) s = filter (\<lambda>tx. shard_of E bc (tx_Recipient tx) = s) (ra_relay1 a))
     \<and> ra_body a = map (\<lambda>tx. if leaves E sid bc tx then mark_relayed tx else tx) txs
     \<and> tp_TxQueue (ra_pool a) = tp_TxQueue (bc_Txpool bc)"

lemma classify_step:
  assumes "routable E bc tx" "classified E sid bc a txs"
  shows "\<exists>a'. classify_relay_tx E sid bc a tx = Some a' \<and> classified E sid bc a' (txs @ [tx])"
proof -
  from assms(1) obtain ss rs where sh: "Get_PartitionMap E bc (tx_Sender tx) = Some ss" "Get_PartitionMap E bc (tx_Recipient tx) = Some rs"
    by (auto simp: routable_def)
  then have so: "shard_of E bc (tx_Sender tx) = ss" "shard_of E bc (tx_Recipient tx) = rs" by (simp_all add: shard_of_def)
  from assms(2) obtain pool where pool: "AddRelayTx (mark_relayed tx) rs (ra_pool a) = Some pool"
    by (cases "tp_RelayPool (ra_pool a)") (auto simp: classified_def AddRelayTx_def Let_def)
  then have pool': "tp_RelayPool pool \<noteq> None" "tp_TxQueue pool = tp_TxQueue (ra_pool a)"
    by (auto simp: AddRelayTx_def Let_def split: option.splits)
  consider (out) "leaves E sid bc tx" | (arr) "arrives E sid bc tx" | (st) "stays E sid bc tx"
    | (skip) "\<not> leaves E sid bc tx" "\<not> arrives E sid bc tx" "\<not> stays E sid bc tx" by blast
  then show ?thesis
  proof cases
    case out
    with assms(2) pool pool' relay_of_AddRelayTx[OF pool] sh so show ?thesis
      by (simp add: classify_relay_tx_def classified_def leaves_def arrives_def stays_def Let_def)
  next
    case arr
    with assms(2) sh so show ?thesis by (simp add: classify_relay_tx_def classified_def leaves_def arrives_def stays_def Let_def)
  next
    case st
    with assms(2) sh so show ?thesis by (simp add: classify_relay_tx_def classified_def leaves_def arrives_def stays_def Let_def)
  next
    case skip
    with assms(2) sh so show ?thesis by (auto simp: classify_relay_tx_def classified_def leaves_def arrives_def stays_def)
  qed
qed

text \<open>
  C12. The leader relays exactly the transactions that leave the shard. For a body whose addresses all
  have shards, sorting does not panic; the three reported lists are the transactions inside the shard,
  the ones that leave it (marked as relayed) and the ones that arrive; the relay pool of every other
  shard holds, in order, the leaving transactions whose recipients live there; the queue is unchanged.
\<close>

theorem classify_relay_exact:
  assumes "\<forall>tx \<in> set body. routable E bc tx"
  shows "\<exists>a. classify_relay E sid bc body = Some a \<and> classified E sid bc a body"
proof -
  have "\<exists>a'. foldlM (classify_relay_tx E sid bc) a txs = Some a' \<and> classified E sid bc a' (done @ txs)"
    if "classified E sid bc a done" "\<forall>tx \<in> set txs. routable E bc tx" for a "done" txs
    using that
  proof (induction txs arbitrary: a "done")
    case (Cons tx txs)
    from classify_step[OF _ Cons.prems(1), of tx] Cons.prems(2) obtain a1 where
      "classify_relay_tx E sid bc a tx = Some a1" "classified E sid bc a1 (done @ [tx])" by auto
    with Cons.IH[of a1 "done @ [tx]"] Cons.prems(2) show ?case by simp
  qed simp
  from this[of _ "[]" body] assms show ?thesis
    by (simp add: classify_relay_def classified_def relay_of_def)
qed

theorem classify_relay_exact_witness:
  "\<exists>a. classify_relay demo_env 0 (demo_chain 0 []) [demo_tx ''b1'', demo_tx ''c0''] = Some a
     \<and> classified demo_env 0 (demo_chain 0 []) a [demo_tx ''b1'', demo_tx ''c0'']"
  by (rule classify_relay_exact) (auto intro: demo_routable)

end
