(* ===== verification/Go_Float.thy ===== *)
theory Go_Float
  imports Complex_Main Blb_Prelude
begin

text \<open>
  Go's \<^verbatim>\<open>float64\<close>, which the partition algorithms, the broker scheme and the measures compute with.
  The language fixes it as the IEEE 754 binary64 format: infinities, signed zeros, not-a-number, and
  otherwise rationals that every operation rounds to the nearest representable number, ties to even.
  A fused multiply-add, which a compiler may use on some machines, is not modelled. The theory ends
  with the order facts that hold although \<^verbatim>\<open><\<close> is not a linear order on \<^verbatim>\<open>float64\<close>.
\<close>

section \<open>Values and rounding\<close>

text \<open>The boolean of \<open>Inf\<close> and \<open>Zero\<close> is the sign bit; \<open>Fin\<close> holds a number other than zero.\<close>

datatype f64 = NaN | Inf bool | Zero bool | Fin rat

text \<open>The number of binary digits of a positive number.\<close>

function blen :: "int \<Rightarrow> int" where
  "blen n = (if n \<le> 0 then 0 else 1 + blen (n div 2))"
  by pat_completeness auto
termination by (relation "measure nat") auto

declare blen.simps [simp del]

definition pow2 :: "int \<Rightarrow> rat" where
  "pow2 e = (if 0 \<le> e then 2 ^ nat e else 1 / 2 ^ nat (- e))"

definition round_even :: "rat \<Rightarrow> int" where
  "round_even m =
     (let k = floor m; r = m - of_int k
      in if r < 1 / 2 \<or> (r = 1 / 2 \<and> even k) then k else k + 1)"

text \<open>The exponent of the last binary digit kept of a positive rational: 53 digits, or fewer below \<open>2\<^sup>-\<^sup>1\<^sup>0\<^sup>2\<^sup>2\<close>.\<close>

definition ulp_exp :: "rat \<Rightarrow> int" where
  "ulp_exp q =
     (let (n, d) = quotient_of q; e = blen n - blen d; e = (if pow2 e \<le> q then e else e - 1)
      in max (e - 52) (- 1074))"

definition round_pos :: "rat \<Rightarrow> rat" where
  "round_pos q = (let e = ulp_exp q in of_int (round_even (q / pow2 e)) * pow2 e)"

definition round64 :: "rat \<Rightarrow> f64" where
  "round64 q =
     (if q = 0 then Zero False
      else let r = round_pos \<bar>q\<bar>
           in if pow2 1024 \<le> r then Inf (q < 0)
              else if r = 0 then Zero (q < 0)
              else Fin (if q < 0 then - r else r))"

section \<open>Operations\<close>

fun sign64 :: "f64 \<Rightarrow> bool" where
  "sign64 NaN = False"
| "sign64 (Inf s) = s"
| "sign64 (Zero s) = s"
| "sign64 (Fin x) = (x < 0)"

instantiation f64 :: "{plus, uminus, minus, times, inverse, ord}"
begin

fun plus_f64 :: "f64 \<Rightarrow> f64 \<Rightarrow> f64" where
  "NaN + _ = NaN"
| "_ + NaN = NaN"
| "Inf s + Inf t = (if s = t then Inf s else NaN)"
| "Inf s + _ = Inf s"
| "_ + Inf t = Inf t"
| "Zero s + Zero t = Zero (s \<and> t)"
| "Zero s + Fin y = Fin y"
| "Fin x + Zero t = Fin x"
| "Fin x + Fin y = round64 (x + y)"

fun uminus_f64 :: "f64 \<Rightarrow> f64" where
  "- NaN = NaN"
| "- Inf s = Inf (\<not> s)"
| "- Zero s = Zero (\<not> s)"
| "- Fin x = Fin (- x)"

definition minus_f64 :: "f64 \<Rightarrow> f64 \<Rightarrow> f64" where
  "a - b = a + - (b :: f64)"

fun times_f64 :: "f64 \<Rightarrow> f64 \<Rightarrow> f64" where
  "NaN * _ = NaN"
| "_ * NaN = NaN"
| "Inf s * Zero t = NaN"
| "Zero s * Inf t = NaN"
| "Inf s * b = Inf (s \<noteq> sign64 b)"
| "a * Inf t = Inf (sign64 a \<noteq> t)"
| "Zero s * b = Zero (s \<noteq> sign64 b)"
| "a * Zero t = Zero (sign64 a \<noteq> t)"
| "Fin x * Fin y = round64 (x * y)"

fun divide_f64 :: "f64 \<Rightarrow> f64 \<Rightarrow> f64" where
  "divide_f64 NaN _ = NaN"
| "divide_f64 _ NaN = NaN"
| "divide_f64 (Inf s) (Inf t) = NaN"
| "divide_f64 (Zero s) (Zero t) = NaN"
| "divide_f64 (Inf s) b = Inf (s \<noteq> sign64 b)"
| "divide_f64 a (Inf t) = Zero (sign64 a \<noteq> t)"
| "divide_f64 (Zero s) b = Zero (s \<noteq> sign64 b)"
| "divide_f64 a (Zero t) = Inf (sign64 a \<noteq> t)"
| "divide_f64 (Fin x) (Fin y) = round64 (x / y)"

definition inverse_f64 :: "f64 \<Rightarrow> f64" where
  "inverse_f64 a = divide (Fin 1) a"

fun less_f64 :: "f64 \<Rightarrow> f64 \<Rightarrow> bool" where
  "NaN < _ \<longleftrightarrow> False"
| "_ < NaN \<longleftrightarrow> False"
| "Inf s < Inf t \<longleftrightarrow> s \<and> \<not> t"
| "Inf s < _ \<longleftrightarrow> s"
| "_ < Inf t \<longleftrightarrow> \<not> t"
| "Zero s < Zero t \<longleftrightarrow> False"
| "Zero s < Fin y \<longleftrightarrow> 0 < y"
| "Fin x < Zero t \<longleftrightarrow> x < 0"
| "Fin x < Fin y \<longleftrightarrow> x < y"

definition less_eq_f64 :: "f64 \<Rightarrow> f64 \<Rightarrow> bool" where
  "a \<le> b \<longleftrightarrow> a \<noteq> NaN \<and> b \<noteq> NaN \<and> \<not> b < (a :: f64)"

instance ..

end

text \<open>Go's \<^verbatim>\<open>==\<close> on floats, the conversion \<^verbatim>\<open>float64(n)\<close>, and the constants the sources use.\<close>

definition eq64 :: "f64 \<Rightarrow> f64 \<Rightarrow> bool" where
  "eq64 a b \<longleftrightarrow> a \<le> b \<and> b \<le> a"

definition float64 :: "int \<Rightarrow> f64" where
  "float64 n = round64 (of_int n)"

definition f64_zero :: f64 where
  "f64_zero = Zero False"

definition f64_one :: f64 where
  "f64_one = Fin 1"

definition MaxFloat64 :: f64 where
  "MaxFloat64 = Fin ((2 ^ 53 - 1) * 2 ^ 971)"

section \<open>Order facts\<close>

lemma less64_irrefl [simp]: "\<not> a < (a :: f64)"
  by (cases a) auto

lemma less64_trans: "a < b \<Longrightarrow> b < c \<Longrightarrow> a < (c :: f64)"
  by (cases a; cases b; cases c) auto

lemma less64_asym: "a < b \<Longrightarrow> \<not> b < (a :: f64)"
  using less64_trans less64_irrefl by blast

lemma less64_not_NaN: "a < b \<Longrightarrow> a \<noteq> NaN \<and> b \<noteq> NaN"
  by (cases a; cases b) auto

lemma le64_refl [simp]: "a \<noteq> NaN \<Longrightarrow> a \<le> (a :: f64)"
  by (simp add: less_eq_f64_def)

lemma le64_trans: "a \<le> b \<Longrightarrow> b \<le> c \<Longrightarrow> a \<le> (c :: f64)"
  unfolding less_eq_f64_def by (cases a; cases b; cases c) auto

lemma less64_imp_le: "a < b \<Longrightarrow> a \<le> (b :: f64)"
  using less64_asym less64_not_NaN by (auto simp: less_eq_f64_def)

lemma not_less64: "a \<noteq> NaN \<Longrightarrow> b \<noteq> NaN \<Longrightarrow> \<not> a < b \<longleftrightarrow> b \<le> (a :: f64)"
  by (simp add: less_eq_f64_def)

lemma round64_not_NaN [simp]: "round64 q \<noteq> NaN"
  by (simp add: round64_def Let_def)

lemma float64_not_NaN [simp]: "float64 n \<noteq> NaN"
  by (simp add: float64_def)

section \<open>Values that are not negative\<close>

text \<open>
  Rounding keeps the sign, so sums and products of numbers that are not negative stay such, and
  are never \<open>NaN\<close> unless an infinity meets a zero.
\<close>

definition nonneg64 :: "f64 \<Rightarrow> bool" where
  "nonneg64 a \<longleftrightarrow> a \<noteq> NaN \<and> \<not> sign64 a"

lemma pow2_pos [simp]: "0 < pow2 e"
  by (simp add: pow2_def)

lemma round_pos_nonneg: "0 \<le> q \<Longrightarrow> 0 \<le> round_pos q"
proof -
  assume "0 \<le> q"
  then have "0 \<le> q / pow2 (ulp_exp q)" using pow2_pos less_imp_le by (metis divide_nonneg_pos)
  then have "0 \<le> round_even (q / pow2 (ulp_exp q))"
    by (auto simp: round_even_def Let_def)
  then show ?thesis by (simp add: round_pos_def Let_def less_imp_le)
qed

lemma nonneg64_round: "0 \<le> q \<Longrightarrow> nonneg64 (round64 q)"
  using round_pos_nonneg[of q] by (auto simp: round64_def nonneg64_def Let_def)

lemma nonneg64_add: "nonneg64 a \<Longrightarrow> nonneg64 b \<Longrightarrow> nonneg64 (a + b)"
proof -
  have "\<not> x < 0 \<Longrightarrow> \<not> y < 0 \<Longrightarrow> \<not> sign64 (round64 (x + y))" for x y :: rat
    using nonneg64_round[of "x + y"] by (simp add: nonneg64_def not_less)
  then show "nonneg64 a \<Longrightarrow> nonneg64 b \<Longrightarrow> nonneg64 (a + b)"
    by (cases a; cases b) (auto simp: nonneg64_def)
qed

lemma nonneg64_float64: "0 \<le> n \<Longrightarrow> nonneg64 (float64 n)"
  by (simp add: float64_def nonneg64_round)

lemma nonneg64_const [simp]: "nonneg64 f64_zero" "nonneg64 f64_one"
  by (simp_all add: nonneg64_def f64_zero_def f64_one_def)

section \<open>Conversions of small integers are exact\<close>

lemma blen_bounds: "0 < n \<Longrightarrow> 2 ^ nat (blen n - 1) \<le> n \<and> n < 2 ^ nat (blen n) \<and> 1 \<le> blen n"
proof (induction n rule: blen.induct)
  case (1 n)
  show ?case
  proof (cases "n = 1")
    case True
    then show ?thesis by (simp add: blen.simps)
  next
    case False
    with 1(2) have "0 < n div 2" by simp
    with 1 have IH: "2 ^ nat (blen (n div 2) - 1) \<le> n div 2" "n div 2 < 2 ^ nat (blen (n div 2))"
        "1 \<le> blen (n div 2)" by simp_all
    have b: "blen n = 1 + blen (n div 2)" using 1(2) by (simp add: blen.simps[of n])
    have "nat (blen n) = Suc (nat (blen (n div 2)))" "nat (blen n - 1) = Suc (nat (blen (n div 2) - 1))"
      using IH(3) by (simp_all add: b)
    moreover have "2 * x \<le> n" "n < 2 * y" if "x \<le> n div 2" "n div 2 < y" for x y :: int
      using that by auto
    ultimately show ?thesis using IH b by (simp only: power_Suc) simp
  qed
qed

lemma blen_le: "0 < n \<Longrightarrow> n < 2 ^ k \<Longrightarrow> blen n \<le> int k"
proof (rule ccontr)
  assume n: "0 < n" "n < 2 ^ k" and "\<not> blen n \<le> int k"
  then have "k \<le> nat (blen n - 1)" by linarith
  then have "(2::int) ^ k \<le> 2 ^ nat (blen n - 1)" by (intro power_increasing) simp_all
  with blen_bounds[OF n(1)] n(2) show False by simp
qed

lemma round_even_of_int [simp]: "round_even (of_int k) = k"
  by (simp add: round_even_def)

lemma round_pos_of_int:
  assumes "0 < n" "n < 2 ^ 53"
  shows "round_pos (of_int n) = of_int n"
proof -
  note b = blen_bounds[OF assms(1)]
  have "blen 1 = 1" by (simp add: blen.simps)
  moreover have "pow2 (blen n - 1) \<le> of_int n"
  proof -
    have "pow2 (blen n - 1) = of_int (2 ^ nat (blen n - 1))" using b by (simp add: pow2_def)
    with b show ?thesis by (metis of_int_le_iff)
  qed
  ultimately have u: "ulp_exp (of_int n) = blen n - 53"
    using b by (simp add: ulp_exp_def quotient_of_int[unfolded of_int_def] quotient_of_int)
  have le: "blen n - 53 \<le> 0" using blen_le[OF assms] by simp
  define k where "k = nat (53 - blen n)"
  have p: "pow2 (blen n - 53) = 1 / 2 ^ k"
    using le by (auto simp: pow2_def k_def)
  have "of_int n / pow2 (blen n - 53) = of_int (n * 2 ^ k)" by (simp add: p)
  then have "round_even (of_int n / pow2 (blen n - 53)) = n * 2 ^ k" by (metis round_even_of_int)
  then show ?thesis by (simp add: round_pos_def u Let_def p)
qed

lemma float64_small: "0 < n \<Longrightarrow> n < 2 ^ 53 \<Longrightarrow> float64 n = Fin (of_int n)"
proof -
  assume n: "0 < n" "n < 2 ^ 53"
  have "(of_int n :: rat) < of_int (2 ^ 53)" using n(2) by (simp only: of_int_less_iff)
  also have "\<dots> \<le> pow2 1024" unfolding pow2_def by simp
  finally show ?thesis using n by (simp add: float64_def round64_def round_pos_of_int Let_def)
qed

lemma float64_0 [simp]: "float64 0 = f64_zero"
  by (simp add: float64_def round64_def f64_zero_def)

section \<open>Halves are exact\<close>

lemma round_pos_half:
  assumes "0 < n" "n < 2 ^ 53" "odd n"
  shows "round_pos (of_int n / 2) = of_int n / 2"
proof -
  note b = blen_bounds[OF assms(1)]
  have "quotient_of (Fract n 2) = (n, 2)"
    using assms(3) by (simp add: quotient_of_Fract Rat.normalize_def)
  then have q: "quotient_of (of_int n / 2) = (n, 2)" by (simp add: Fract_of_int_quotient)
  have b2: "blen 2 = 2" by (simp add: blen.simps)
  have pow: "pow2 (blen n - 2) \<le> of_int n / 2"
  proof (cases "blen n = 1")
    case True
    with b have "n = 1" by simp
    with True show ?thesis by (simp add: pow2_def)
  next
    case False
    with b have ge: "0 \<le> blen n - 2" by linarith
    then have "nat (blen n - 1) = Suc (nat (blen n - 2))" by linarith
    with ge have "2 * pow2 (blen n - 2) = of_int (2 ^ nat (blen n - 1))" by (simp add: pow2_def)
    also have "\<dots> \<le> of_int n" using b by (metis of_int_le_iff)
    finally show ?thesis by simp
  qed
  have u: "ulp_exp (of_int n / 2) = blen n - 54"
    using b pow by (simp add: ulp_exp_def q b2)
  have le: "blen n \<le> 53" using blen_le[OF assms(1,2)] by simp
  define k where "k = nat (53 - blen n)"
  have p: "pow2 (blen n - 54) = 1 / 2 ^ Suc k"
    using le by (auto simp: pow2_def k_def Suc_nat_eq_nat_zadd1)
  have "of_int n / 2 / pow2 (blen n - 54) = of_int (n * 2 ^ k)" by (simp add: p)
  then have "round_even (of_int n / 2 / pow2 (blen n - 54)) = n * 2 ^ k" by (metis round_even_of_int)
  then show ?thesis by (simp add: round_pos_def u Let_def p)
qed

text \<open>The float that is half of an integer.\<close>

definition half64 :: "int \<Rightarrow> f64" where
  "half64 k = (if k = 0 then f64_zero else Fin (of_int k / 2))"

lemma round64_half: "0 \<le> k \<Longrightarrow> k < 2 ^ 53 \<Longrightarrow> round64 (of_int k / 2) = half64 k"
proof (cases "k = 0")
  case False
  assume k: "0 \<le> k" "k < 2 ^ 53"
  have "round_pos (of_int k / 2) = of_int k / 2"
  proof (cases "odd k")
    case True
    then show ?thesis using round_pos_half[of k] False k by simp
  next
    case False
    then obtain j where "k = 2 * j" by (auto elim: evenE)
    then show ?thesis using round_pos_of_int[of j] k \<open>k \<noteq> 0\<close> by simp
  qed
  moreover have "(of_int k / 2 :: rat) < pow2 1024"
  proof -
    have "(of_int k :: rat) < of_int (2 ^ 53)" using k(2) by (simp only: of_int_less_iff)
    also have "\<dots> \<le> pow2 1024" unfolding pow2_def by simp
    finally show ?thesis using k(1) by simp
  qed
  ultimately show ?thesis using False k by (simp add: round64_def half64_def Let_def)
qed (simp add: round64_def half64_def f64_zero_def)

lemma half64_add: "0 \<le> a \<Longrightarrow> 0 \<le> b \<Longrightarrow> a + b < 2 ^ 53 \<Longrightarrow> half64 a + half64 b = half64 (a + b)"
  using round64_half[of "a + b"] by (auto simp: half64_def f64_zero_def add_divide_distrib)

lemma float64_half: "0 \<le> n \<Longrightarrow> n < 2 ^ 52 \<Longrightarrow> float64 n = half64 (2 * n)"
  using float64_small[of n] by (cases "n = 0") (simp_all add: half64_def)

lemma half64_divide: "0 \<le> n \<Longrightarrow> n < 2 ^ 52 \<Longrightarrow> half64 (2 * n) / Fin 2 = half64 n"
  using round64_half[of n] by (auto simp: half64_def f64_zero_def)

lemma half64_less [simp]: "0 \<le> a \<Longrightarrow> 0 \<le> b \<Longrightarrow> half64 a < half64 b \<longleftrightarrow> a < b"
  by (auto simp: half64_def f64_zero_def)

lemma half64_0: "half64 0 = f64_zero"
  by (simp add: half64_def)

text \<open>One and a half times an integer.\<close>

lemma half64_times: "0 \<le> n \<Longrightarrow> n < 2 ^ 51 \<Longrightarrow> half64 (2 * n) * Fin (3 / 2) = half64 (3 * n)"
  using round64_half[of "3 * n"] by (auto simp: half64_def f64_zero_def mult.commute)

end
