(* ===== verification/Go_Slice.thy ===== *)
theory Go_Slice
  imports Blb_Prelude "HOL-Library.Multiset"
begin

text \<open>
  Go slices indexed with \<^verbatim>\<open>int\<close> expressions: an index out of range panics, and so does a slice made
  with a negative length.
\<close>

definition make_slice :: "int \<Rightarrow> 'a \<Rightarrow> 'a list option" where
  "make_slice n z = (if n < 0 then None else Some (replicate (nat n) z))"

definition slice_get :: "'a list \<Rightarrow> int \<Rightarrow> 'a option" where
  "slice_get xs i = (if 0 \<le> i \<and> nat i < length xs then Some (xs ! nat i) else None)"

definition slice_set :: "'a list \<Rightarrow> int \<Rightarrow> 'a \<Rightarrow> 'a list option" where
  "slice_set xs i x = (if 0 \<le> i \<and> nat i < length xs then Some (xs[nat i := x]) else None)"

text \<open>\<open>bump xs i f\<close> is the assignment \<^verbatim>\<open>xs[i] = f(xs[i])\<close>, such as \<^verbatim>\<open>xs[i] += d\<close>.\<close>

definition bump :: "'a list \<Rightarrow> int \<Rightarrow> ('a \<Rightarrow> 'a) \<Rightarrow> 'a list option" where
  "bump xs i f = do { x \<leftarrow> slice_get xs i; slice_set xs i (f x) }"

lemma slice_get_in [simp]: "0 \<le> i \<Longrightarrow> nat i < length xs \<Longrightarrow> slice_get xs i = Some (xs ! nat i)"
  by (simp add: slice_get_def)

lemma bump_in [simp]: "0 \<le> i \<Longrightarrow> nat i < length xs \<Longrightarrow> bump xs i f = Some (xs[nat i := f (xs ! nat i)])"
  by (simp add: bump_def slice_set_def)

lemma bump_SomeD: "bump xs i f = Some ys \<Longrightarrow> 0 \<le> i \<and> nat i < length xs \<and> ys = xs[nat i := f (xs ! nat i)]"
  by (auto simp: bump_def slice_get_def slice_set_def split: if_splits)

lemma bump_total: "0 \<le> i \<Longrightarrow> nat i < length xs \<Longrightarrow> \<exists>ys. bump xs i f = Some ys \<and> length ys = length xs"
  by simp

lemma make_slice_nonneg [simp]: "0 \<le> n \<Longrightarrow> make_slice n z = Some (replicate (nat n) z)"
  by (simp add: make_slice_def)

text \<open>Adding at an index, seen as adding an indicator at every index.\<close>

lemma list_update_add:
  fixes xs :: "int list"
  shows "nat i < length xs \<Longrightarrow> 0 \<le> i \<Longrightarrow>
    xs[nat i := xs ! nat i + d] = map (\<lambda>k. xs ! k + (if int k = i then d else 0)) [0..<length xs]"
  by (auto intro!: nth_equalityI simp: nth_list_update)

section \<open>Sorting\<close>

text \<open>\<^verbatim>\<open>sort.Slice\<close> with a comparison that orders the elements strictly, so that the result is determined by it.\<close>

fun insert_by :: "('a \<Rightarrow> 'a \<Rightarrow> bool) \<Rightarrow> 'a \<Rightarrow> 'a list \<Rightarrow> 'a list" where
  "insert_by lt x [] = [x]"
| "insert_by lt x (y # ys) = (if lt x y then x # y # ys else y # insert_by lt x ys)"

definition sort_by :: "('a \<Rightarrow> 'a \<Rightarrow> bool) \<Rightarrow> 'a list \<Rightarrow> 'a list" where
  "sort_by lt xs = foldr (insert_by lt) xs []"

lemma mset_insert_by [simp]: "mset (insert_by lt x ys) = add_mset x (mset ys)"
  by (induction ys) simp_all

lemma mset_sort_by [simp]: "mset (sort_by lt xs) = mset xs"
  by (induction xs) (simp_all add: sort_by_def)

end
