(* ===== verification/Part_Graph.thy ===== *)
theory Part_Graph
  imports Go_Slice "HOL-Library.AList"
begin

text \<open>
  The transaction graph of the partition algorithms (\<^verbatim>\<open>partition/graph.go\<close>): accounts as vertices and
  one undirected edge per transaction, kept as adjacency lists. A \<^verbatim>\<open>Vertex\<close> is a struct with the
  account address as its only field and is that address here. The vertex set is the list of its keys
  in iteration order. A nil edge map is \<^const>\<open>None\<close>, since \<^verbatim>\<open>CopyGraph\<close> tells it from an empty one.
\<close>

type_synonym Vertex = address

record Graph =
  gr_VertexSet :: "Vertex list"
  gr_EdgeSet :: "(Vertex \<times> Vertex list) list option"

definition edge_list :: "Graph \<Rightarrow> (Vertex \<times> Vertex list) list" where
  "edge_list g = (case gr_EdgeSet g of None \<Rightarrow> [] | Some es \<Rightarrow> es)"

definition assoc_get :: "('k \<times> 'v list) list \<Rightarrow> 'k \<Rightarrow> 'v list" where
  "assoc_get es v = (case map_of es v of None \<Rightarrow> [] | Some l \<Rightarrow> l)"

text \<open>\<open>edges_of g v\<close> is \<^verbatim>\<open>g.EdgeSet[v]\<close>, the nil slice when there is no entry.\<close>

definition edges_of :: "Graph \<Rightarrow> Vertex \<Rightarrow> Vertex list" where
  "edges_of g v = assoc_get (edge_list g) v"

definition Graph_AddVertex :: "Vertex \<Rightarrow> Graph \<Rightarrow> Graph" where
  "Graph_AddVertex v g = g\<lparr>gr_VertexSet := (if v \<in> set (gr_VertexSet g) then gr_VertexSet g else gr_VertexSet g @ [v])\<rparr>"

definition Graph_AddEdge :: "Vertex \<Rightarrow> Vertex \<Rightarrow> Graph \<Rightarrow> Graph" where
  "Graph_AddEdge u v g =
     (let g = (if u \<notin> set (gr_VertexSet g) then Graph_AddVertex u g else g);
          g = (if v \<notin> set (gr_VertexSet g) then Graph_AddVertex v g else g);
          es = edge_list g;
          es = AList.update u (assoc_get es u @ [v]) es;
          es = AList.update v (assoc_get es v @ [u]) es
      in g\<lparr>gr_EdgeSet := Some es\<rparr>)"

definition CopyGraph :: "Graph \<Rightarrow> Graph \<Rightarrow> Graph" where
  "CopyGraph src dst =
     (let dst = dst\<lparr>gr_VertexSet := gr_VertexSet src\<rparr>
      in if gr_EdgeSet src \<noteq> None
         then dst\<lparr>gr_EdgeSet := Some (map (\<lambda>v. (v, edges_of src v)) (gr_VertexSet src))\<rparr>
         else dst)"

section \<open>Well-formed graphs\<close>

text \<open>
  The edge lists mention vertices only and are symmetric: \<open>u\<close> occurs in the list of \<open>v\<close> as often as
  \<open>v\<close> in the list of \<open>u\<close>. Parallel edges and self-loops are allowed.
\<close>

definition graph_wf :: "Graph \<Rightarrow> bool" where
  "graph_wf g \<longleftrightarrow>
     distinct (gr_VertexSet g) \<and> distinct (map fst (edge_list g))
     \<and> (\<forall>(v, l) \<in> set (edge_list g). v \<in> set (gr_VertexSet g) \<and> set l \<subseteq> set (gr_VertexSet g))
     \<and> (\<forall>u v. count (mset (edges_of g v)) u = count (mset (edges_of g u)) v)"

lemma edges_of_vertices: "graph_wf g \<Longrightarrow> u \<in> set (edges_of g v) \<Longrightarrow> u \<in> set (gr_VertexSet g)"
  by (auto simp: graph_wf_def edges_of_def assoc_get_def split: option.splits dest!: map_of_SomeD)

lemma edges_of_entry: "graph_wf g \<Longrightarrow> (v, l) \<in> set (edge_list g) \<Longrightarrow> edges_of g v = l"
  by (simp add: graph_wf_def edges_of_def assoc_get_def)

lemma Graph_AddVertex_edges [simp]: "edges_of (Graph_AddVertex v g) = edges_of g"
    "edge_list (Graph_AddVertex v g) = edge_list g"
  by (auto simp: Graph_AddVertex_def edges_of_def edge_list_def fun_eq_iff)

lemma Graph_AddVertex_wf [intro]: "graph_wf g \<Longrightarrow> graph_wf (Graph_AddVertex v g)"
  unfolding graph_wf_def Graph_AddVertex_edges by (auto simp: Graph_AddVertex_def)

lemma Graph_AddVertex_set [simp]: "set (gr_VertexSet (Graph_AddVertex v g)) = insert v (set (gr_VertexSet g))"
  by (auto simp: Graph_AddVertex_def)

lemma Graph_AddEdge_vertices: "set (gr_VertexSet (Graph_AddEdge u v g)) = {u, v} \<union> set (gr_VertexSet g)"
  by (auto simp: Graph_AddEdge_def Let_def)

lemma assoc_get_update: "assoc_get (AList.update k x es) v = (if v = k then x else assoc_get es v)"
  by (simp add: assoc_get_def update_conv')

lemma Graph_AddEdge_edges:
  "edges_of (Graph_AddEdge u v g) w =
     edges_of g w @ (if w = u then [v] else []) @ (if w = v then [u] else [])"
proof -
  define g2 where "g2 = (let g = (if u \<notin> set (gr_VertexSet g) then Graph_AddVertex u g else g)
                         in if v \<notin> set (gr_VertexSet g) then Graph_AddVertex v g else g)"
  have "edge_list g2 = edge_list g" by (simp add: g2_def Let_def)
  moreover have "edges_of (Graph_AddEdge u v g) w =
      (let es = AList.update u (assoc_get (edge_list g2) u @ [v]) (edge_list g2)
       in assoc_get (AList.update v (assoc_get es v @ [u]) es) w)"
    by (simp add: Graph_AddEdge_def g2_def Let_def edges_of_def edge_list_def[of "g\<lparr>gr_EdgeSet := z\<rparr>" for g z])
  ultimately show ?thesis
    by (simp add: Let_def assoc_get_update edges_of_def)
qed

lemma Graph_AddEdge_entries:
  assumes "graph_wf g"
  shows "distinct (map fst (edge_list (Graph_AddEdge u v g)))
    \<and> fst ` set (edge_list (Graph_AddEdge u v g)) \<subseteq> {u, v} \<union> set (gr_VertexSet g)"
proof -
  have "fst ` set (edge_list g) \<subseteq> set (gr_VertexSet g)" "distinct (map fst (edge_list g))"
    using assms by (auto simp: graph_wf_def)
  then show ?thesis
    unfolding Graph_AddEdge_def Let_def
    by (simp add: edge_list_def[of "g\<lparr>gr_EdgeSet := z\<rparr>" for g z] distinct_update dom_update) blast
qed

lemma Graph_AddEdge_wf:
  assumes "graph_wf g"
  shows "graph_wf (Graph_AddEdge u v g)"
proof -
  let ?g = "Graph_AddEdge u v g"
  note e = Graph_AddEdge_entries[OF assms, of u v]
  have "distinct (gr_VertexSet ?g)"
    using assms by (auto simp: Graph_AddEdge_def Let_def graph_wf_def Graph_AddVertex_def)
  moreover have "w \<in> set (gr_VertexSet ?g) \<and> set l \<subseteq> set (gr_VertexSet ?g)" if "(w, l) \<in> set (edge_list ?g)" for w l
  proof
    show "w \<in> set (gr_VertexSet ?g)" using e that by (force simp: Graph_AddEdge_vertices)
    have "l = edges_of ?g w" using e that by (simp add: edges_of_def assoc_get_def)
    then show "set l \<subseteq> set (gr_VertexSet ?g)"
      using edges_of_vertices[OF assms] by (auto simp: Graph_AddEdge_edges Graph_AddEdge_vertices)
  qed
  moreover have "count (mset (edges_of ?g b)) a = count (mset (edges_of ?g a)) b" for a b
    using assms by (auto simp: graph_wf_def Graph_AddEdge_edges)
  ultimately show ?thesis using e unfolding graph_wf_def by blast
qed

lemma edges_of_None [simp]: "edges_of \<lparr>gr_VertexSet = vs, gr_EdgeSet = None\<rparr> v = []"
  by (simp add: edges_of_def edge_list_def assoc_get_def)

lemma graph_wf_empty [simp]: "graph_wf \<lparr>gr_VertexSet = [], gr_EdgeSet = None\<rparr>"
  by (simp add: graph_wf_def edge_list_def edges_of_def assoc_get_def)

section \<open>The edges at one vertex\<close>

text \<open>Every entry of an adjacency list is a pair of the vertex it belongs to and the neighbour.\<close>

definition adj_pairs :: "Graph \<Rightarrow> (Vertex \<times> Vertex) list" where
  "adj_pairs g = concat (map (\<lambda>(v, l). map (Pair v) l) (edge_list g))"

lemma adj_pairs_vertices:
  "graph_wf g \<Longrightarrow> (a, b) \<in> set (adj_pairs g) \<Longrightarrow> a \<in> set (gr_VertexSet g) \<and> b \<in> set (gr_VertexSet g)"
  by (auto simp: adj_pairs_def graph_wf_def)

lemma count_image_Pair: "count (image_mset (Pair a) M) (b, c) = (if a = b then count M c else 0)"
  by (induction M) auto

lemma count_image_Pair2: "count (image_mset (\<lambda>x. (x, a)) M) (b, c) = (if a = c then count M b else 0)"
  by (induction M) auto

lemma count_pairs_list:
  "distinct (map fst es) \<Longrightarrow>
     count (mset (concat (map (\<lambda>(v, l). map (Pair v) l) es))) (a, b) = count (mset (assoc_get es a)) b"
proof (induction es)
  case Nil
  then show ?case by (simp add: assoc_get_def)
next
  case (Cons e es)
  obtain v l where e: "e = (v, l)" by (cases e)
  have "a = v \<Longrightarrow> map_of es a = None" using Cons.prems e by (auto simp: map_of_eq_None_iff)
  then have "assoc_get (e # es) a = (if a = v then l else assoc_get es a)" "a = v \<Longrightarrow> assoc_get es a = []"
    by (auto simp: assoc_get_def e)
  with Cons show ?case by (auto simp: e count_image_Pair)
qed

lemma count_adj_pairs: "graph_wf g \<Longrightarrow> count (mset (adj_pairs g)) (a, b) = count (mset (edges_of g a)) b"
  unfolding adj_pairs_def edges_of_def by (rule count_pairs_list) (simp add: graph_wf_def)

text \<open>The pairs are those from \<open>v\<close> to other vertices, their mirror images, and pairs without \<open>v\<close> or self-loops.\<close>

lemma adj_pairs_split:
  assumes "graph_wf g"
  obtains R where
    "mset (adj_pairs g) = image_mset (Pair v) {#u \<in># mset (edges_of g v). u \<noteq> v#} + image_mset (\<lambda>u. (u, v)) {#u \<in># mset (edges_of g v). u \<noteq> v#} + R"
    "\<forall>(a, b) \<in># R. a = v \<longleftrightarrow> b = v"
proof -
  let ?M = "mset (adj_pairs g)" and ?A = "{#u \<in># mset (edges_of g v). u \<noteq> v#}"
  let ?R = "filter_mset (\<lambda>(a, b). a = v \<longleftrightarrow> b = v) ?M"
  have "count ?M (a, b) = count (image_mset (Pair v) ?A + image_mset (\<lambda>u. (u, v)) ?A + ?R) (a, b)" for a b
  proof -
    have "count (mset (edges_of g a)) b = count (mset (edges_of g b)) a"
      using assms(1) by (auto simp: graph_wf_def)
    then show ?thesis
      unfolding count_union count_filter_mset count_image_Pair count_image_Pair2 count_adj_pairs[OF assms(1)]
      by auto
  qed
  then have "?M = image_mset (Pair v) ?A + image_mset (\<lambda>u. (u, v)) ?A + ?R"
    by (intro multiset_eqI) (metis surj_pair)
  then show thesis by (rule that) auto
qed

text \<open>Without a self-loop at \<open>v\<close>, the pairs are those from \<open>v\<close>, their mirror images, and pairs without \<open>v\<close>.\<close>

lemma adj_pairs_at:
  assumes "graph_wf g" and "v \<notin> set (edges_of g v)"
  obtains R where
    "mset (adj_pairs g) = image_mset (Pair v) (mset (edges_of g v)) + image_mset (\<lambda>u. (u, v)) (mset (edges_of g v)) + R"
    "\<forall>(a, b) \<in># R. a \<noteq> v \<and> b \<noteq> v"
proof -
  have A: "{#u \<in># mset (edges_of g v). u \<noteq> v#} = mset (edges_of g v)"
    using assms(2) by (auto simp: filter_mset_eq_conv)
  obtain R where R: "mset (adj_pairs g) = image_mset (Pair v) (mset (edges_of g v)) + image_mset (\<lambda>u. (u, v)) (mset (edges_of g v)) + R"
      "\<forall>(a, b) \<in># R. a = v \<longleftrightarrow> b = v"
    by (rule adj_pairs_split[OF assms(1), of v]) (simp add: A)
  have "count (mset (adj_pairs g)) (v, v) = 0"
    using assms(2) by (simp add: count_adj_pairs[OF assms(1)] count_eq_zero_iff)
  then have "(v, v) \<notin># R" using R(1) by (simp add: count_eq_zero_iff flip: not_in_iff)
  with R(2) have "\<forall>(a, b) \<in># R. a \<noteq> v \<and> b \<noteq> v" by (auto split: prod.splits)
  with R(1) show thesis by (rule that)
qed

end
