(* ===== verification/Contrib_State.thy ===== *)
theory Contrib_State
  imports Go_Float Go_Slice Part_Graph
begin

text \<open>
  Contribution scores: the calculator that the partition algorithm of ContribChain uses
  (\<^verbatim>\<open>partition/contribution_calculator.go\<close>) and the per-shard state of the contribution committee
  (\<^verbatim>\<open>partition/partition_Contrib.go\<close>). Their maps are association lists in iteration order. The
  locks only serialise calls; each operation is one step. The calculator's pointer to the graph is
  never followed and is left out, and the metrics it points to never leave it (\<^verbatim>\<open>GetMetrics\<close> copies).
\<close>

section \<open>The contribution calculator\<close>

record ContributionMetrics =
  cm_TotalTxCount :: int
  cm_IntraShardTxCount :: int
  cm_CrossShardTxCount :: int
  cm_ContribScore :: f64
  cm_TotalContribution :: f64
  cm_LastUpdateEpoch :: int

record ContributionCalculator =
  cc_Contributions :: "(Vertex \<times> ContributionMetrics) list"
  cc_DecayFactor :: f64

definition NewContributionCalculator :: ContributionCalculator where
  "NewContributionCalculator = \<lparr>cc_Contributions = [], cc_DecayFactor = round64 (9 / 10)\<rparr>"

definition Calc_GetContribution :: "ContributionCalculator \<Rightarrow> Vertex \<Rightarrow> f64" where
  "Calc_GetContribution cc v =
     (case map_of (cc_Contributions cc) v of Some metrics \<Rightarrow> cm_ContribScore metrics | None \<Rightarrow> f64_zero)"

definition Calc_UpdateContribution ::
    "Vertex \<Rightarrow> bool \<Rightarrow> int \<Rightarrow> ContributionCalculator \<Rightarrow> ContributionCalculator" where
  "Calc_UpdateContribution v isIntraShard epoch cc =
     (let metrics = (case map_of (cc_Contributions cc) v of
            Some metrics \<Rightarrow> metrics
          | None \<Rightarrow> \<lparr>cm_TotalTxCount = 0, cm_IntraShardTxCount = 0, cm_CrossShardTxCount = 0,
                     cm_ContribScore = f64_zero, cm_TotalContribution = f64_zero, cm_LastUpdateEpoch = epoch\<rparr>);
          metrics = metrics\<lparr>cm_TotalTxCount := cm_TotalTxCount metrics + 1\<rparr>;
          metrics = (if isIntraShard
            then metrics\<lparr>cm_IntraShardTxCount := cm_IntraShardTxCount metrics + 1,
                         cm_ContribScore := cm_ContribScore metrics + f64_one,
                         cm_TotalContribution := cm_TotalContribution metrics + f64_one\<rparr>
            else metrics\<lparr>cm_CrossShardTxCount := cm_CrossShardTxCount metrics + 1\<rparr>);
          metrics = metrics\<lparr>cm_LastUpdateEpoch := epoch\<rparr>
      in cc\<lparr>cc_Contributions := AList.update v metrics (cc_Contributions cc)\<rparr>)"

definition decay_metrics :: "f64 \<Rightarrow> ContributionMetrics \<Rightarrow> ContributionMetrics" where
  "decay_metrics d metrics =
     metrics\<lparr>cm_ContribScore := cm_ContribScore metrics * d, cm_TotalContribution := cm_TotalContribution metrics * d\<rparr>"

definition CalculateAllContributions :: "ContributionCalculator \<Rightarrow> ContributionCalculator" where
  "CalculateAllContributions cc =
     cc\<lparr>cc_Contributions :=
          filter (\<lambda>(v, metrics). \<not> cm_ContribScore metrics < round64 (1 / 100))
            (map (\<lambda>(v, metrics). (v, decay_metrics (cc_DecayFactor cc) metrics)) (cc_Contributions cc))\<rparr>"

text \<open>The exchange sort of the first \<open>k\<close> places, largest contribution first.\<close>

definition top_exchange :: "nat \<Rightarrow> (Vertex \<times> f64) list \<Rightarrow> nat \<Rightarrow> (Vertex \<times> f64) list" where
  "top_exchange i vertices j =
     (if snd (vertices ! j) > snd (vertices ! i)
      then vertices[i := vertices ! j, j := vertices ! i] else vertices)"

definition top_place :: "(Vertex \<times> f64) list \<Rightarrow> nat \<Rightarrow> (Vertex \<times> f64) list" where
  "top_place vertices i = foldl (top_exchange i) vertices [i + 1..<length vertices]"

definition top_sort :: "nat \<Rightarrow> (Vertex \<times> f64) list \<Rightarrow> (Vertex \<times> f64) list" where
  "top_sort k vertices = foldl top_place vertices [0..<min k (length vertices)]"

definition Calc_GetTopContributors :: "int \<Rightarrow> ContributionCalculator \<Rightarrow> Vertex list option" where
  "Calc_GetTopContributors k cc =
     (let vertices = map (\<lambda>(v, metrics). (v, cm_TotalContribution metrics)) (cc_Contributions cc);
          vertices = top_sort (nat k) vertices
      in if k < 0 then None else Some (map fst (take (nat k) vertices)))"

definition ResetContributions :: "ContributionCalculator \<Rightarrow> ContributionCalculator" where
  "ResetContributions cc = cc\<lparr>cc_Contributions := []\<rparr>"

definition GetMetrics :: "ContributionCalculator \<Rightarrow> Vertex \<Rightarrow> ContributionMetrics option" where
  "GetMetrics cc v = map_of (cc_Contributions cc) v"

definition SetDecayFactor :: "f64 \<Rightarrow> ContributionCalculator \<Rightarrow> ContributionCalculator" where
  "SetDecayFactor factor cc =
     (if f64_zero < factor \<and> factor \<le> f64_one then cc\<lparr>cc_DecayFactor := factor\<rparr> else cc)"

definition GetTotalContribution :: "ContributionCalculator \<Rightarrow> f64" where
  "GetTotalContribution cc =
     foldl (\<lambda>total (v, metrics). total + cm_TotalContribution metrics) f64_zero (cc_Contributions cc)"

definition GetAverageContribution :: "ContributionCalculator \<Rightarrow> f64" where
  "GetAverageContribution cc =
     (if length (cc_Contributions cc) = 0 then f64_zero
      else foldl (\<lambda>total (v, metrics). total + cm_TotalContribution metrics) f64_zero (cc_Contributions cc)
           / float64 (int (length (cc_Contributions cc))))"

definition GetContributionByVertex :: "ContributionCalculator \<Rightarrow> Vertex \<Rightarrow> f64" where
  "GetContributionByVertex cc v =
     (case map_of (cc_Contributions cc) v of Some metrics \<Rightarrow> cm_TotalContribution metrics | None \<Rightarrow> f64_zero)"

section \<open>The contribution state of a shard\<close>

record ContribState =
  ct_ContribMap :: "(address \<times> f64) list"
  ct_LocalAccounts :: "address list"
  ct_ShardID :: u64
  ct_ShardNum :: u64
  ct_DecayFactor :: f64
  ct_ContribIncrement :: f64
  ct_TransferThreshold :: f64
  ct_RetainThreshold :: f64
  ct_CrossShardTxCount :: int

definition Init_ContribState :: "u64 \<Rightarrow> u64 \<Rightarrow> f64 \<Rightarrow> f64 \<Rightarrow> f64 \<Rightarrow> f64 \<Rightarrow> ContribState" where
  "Init_ContribState shardID shardNum decay increment transferThresh retainThresh =
     \<lparr>ct_ContribMap = [], ct_LocalAccounts = [], ct_ShardID = shardID, ct_ShardNum = shardNum,
      ct_DecayFactor = decay, ct_ContribIncrement = increment, ct_TransferThreshold = transferThresh,
      ct_RetainThreshold = retainThresh, ct_CrossShardTxCount = 0\<rparr>"

definition contrib_at :: "ContribState \<Rightarrow> address \<Rightarrow> f64" where
  "contrib_at cs addr = (case map_of (ct_ContribMap cs) addr of Some val \<Rightarrow> val | None \<Rightarrow> f64_zero)"

definition UpdateContribution :: "address \<Rightarrow> bool \<Rightarrow> ContribState \<Rightarrow> ContribState" where
  "UpdateContribution addr isLocal cs =
     (let m = (if addr \<notin> fst ` set (ct_ContribMap cs) then AList.update addr f64_zero (ct_ContribMap cs) else ct_ContribMap cs);
          cs = cs\<lparr>ct_ContribMap := m\<rparr>
      in if isLocal
         then cs\<lparr>ct_ContribMap := AList.update addr (contrib_at cs addr + ct_ContribIncrement cs) m\<rparr>
         else cs)"

definition DecayAllContributions :: "ContribState \<Rightarrow> ContribState" where
  "DecayAllContributions cs =
     cs\<lparr>ct_ContribMap := filter (\<lambda>(addr, val). \<not> val < round64 (1 / 100))
          (map (\<lambda>(addr, val). (addr, val * ct_DecayFactor cs)) (ct_ContribMap cs))\<rparr>"

definition GetContribution :: "ContribState \<Rightarrow> address \<Rightarrow> f64" where
  "GetContribution cs addr = contrib_at cs addr"

definition AddLocalAccount :: "address \<Rightarrow> ContribState \<Rightarrow> ContribState" where
  "AddLocalAccount addr cs =
     cs\<lparr>ct_LocalAccounts := (if addr \<in> set (ct_LocalAccounts cs) then ct_LocalAccounts cs else ct_LocalAccounts cs @ [addr])\<rparr>"

definition RemoveLocalAccount :: "address \<Rightarrow> ContribState \<Rightarrow> ContribState" where
  "RemoveLocalAccount addr cs = cs\<lparr>ct_LocalAccounts := removeAll addr (ct_LocalAccounts cs)\<rparr>"

definition IsLocalAccount :: "ContribState \<Rightarrow> address \<Rightarrow> bool" where
  "IsLocalAccount cs addr \<longleftrightarrow> addr \<in> set (ct_LocalAccounts cs)"

definition lowContribAccounts :: "ContribState \<Rightarrow> address list" where
  "lowContribAccounts cs = filter (\<lambda>addr. contrib_at cs addr < ct_TransferThreshold cs) (ct_LocalAccounts cs)"

definition next_target :: "ContribState \<Rightarrow> u64 \<Rightarrow> u64" where
  "next_target cs targetShard =
     (let targetShard = (targetShard + 1) mod ct_ShardNum cs
      in if targetShard = ct_ShardID cs then (targetShard + 1) mod ct_ShardNum cs else targetShard)"

definition ComputeReallocation :: "ContribState \<Rightarrow> (address \<times> u64) list option" where
  "ComputeReallocation cs =
     (if ct_ShardNum cs = 0 then None
      else Some (fst (foldl (\<lambda>(reallocationMap, targetShard) addr.
                               (AList.update addr targetShard reallocationMap, next_target cs targetShard))
                        ([], (ct_ShardID cs + 1) mod ct_ShardNum cs) (lowContribAccounts cs))))"

section \<open>The best contributors come first\<close>

lemma top_exchange_mset:
  "i < length vs \<Longrightarrow> j < length vs \<Longrightarrow> mset (top_exchange i vs j) = mset vs \<and> length (top_exchange i vs j) = length vs"
  by (simp add: top_exchange_def mset_swap)

text \<open>No entry is \<open>NaN\<close>, so \<^verbatim>\<open><\<close> is the strict part of a total order on the contributions.\<close>

definition comparable :: "(Vertex \<times> f64) list \<Rightarrow> bool" where
  "comparable vs \<longleftrightarrow> (\<forall>x \<in> set vs. snd x \<noteq> NaN)"

lemma comparable_nth: "comparable vs \<Longrightarrow> i < length vs \<Longrightarrow> snd (vs ! i) \<noteq> NaN"
  by (simp add: comparable_def)

lemma comparable_mset: "mset vs = mset ws \<Longrightarrow> comparable vs \<longleftrightarrow> comparable ws"
  by (metis comparable_def mset_eq_setD)

text \<open>The inner loop puts a greatest entry of the places from \<open>i\<close> on at place \<open>i\<close> and keeps the places before.\<close>

lemma top_place_prefix:
  assumes "comparable vs" and "i < length vs" and "i < n" "n \<le> length vs"
  defines "ws \<equiv> foldl (top_exchange i) vs [i + 1..<n]"
  shows "mset ws = mset vs \<and> take i ws = take i vs \<and> (\<forall>j. i \<le> j \<and> j < n \<longrightarrow> snd (ws ! j) \<le> snd (ws ! i))"
  using assms(3,4) unfolding ws_def
proof (induction n)
  case 0
  then show ?case by simp
next
  case (Suc n)
  show ?case
  proof (cases "n = i")
    case True
    with assms(1,2) show ?thesis by (auto simp: le_less_Suc_eq comparable_nth)
  next
    case False
    let ?w = "foldl (top_exchange i) vs [i + 1..<n]"
    from False Suc have n: "i < n" "n < length vs" by auto
    with Suc.IH have IH: "mset ?w = mset vs" "take i ?w = take i vs" "\<forall>j. i \<le> j \<and> j < n \<longrightarrow> snd (?w ! j) \<le> snd (?w ! i)"
      by auto
    have len: "length ?w = length vs" using IH(1) by (metis mset_eq_length)
    have c: "snd (?w ! i) \<noteq> NaN" "snd (?w ! n) \<noteq> NaN"
      using comparable_mset[OF IH(1)] assms(1) n len by (simp_all add: comparable_nth)
    have fold: "foldl (top_exchange i) vs [i + 1..<Suc n] = top_exchange i ?w n" using n by simp
    have "snd (top_exchange i ?w n ! j) \<le> snd (top_exchange i ?w n ! i)" if j: "i \<le> j" "j < Suc n" for j
    proof -
      consider "j = i" | "i < j" "j < n" | "j = n" using j by linarith
      then show ?thesis
      proof cases
        case 2
        with IH(3) have "snd (?w ! j) \<le> snd (?w ! i)" by simp
        with 2 n len show ?thesis
          by (auto simp: top_exchange_def intro: le64_trans less64_imp_le)
      qed (use n len c in \<open>auto simp: top_exchange_def not_less64 less64_imp_le\<close>)
    qed
    moreover have "take i (top_exchange i ?w n) = take i ?w"
      using n by (simp add: top_exchange_def)
    ultimately show ?thesis unfolding fold using IH(1,2) top_exchange_mset[of i ?w n] n len by simp
  qed
qed

lemma top_place_spec:
  assumes "comparable vs" and "i < length vs"
  shows "mset (top_place vs i) = mset vs" "take i (top_place vs i) = take i vs"
    "j < length vs \<Longrightarrow> i \<le> j \<Longrightarrow> snd (top_place vs i ! j) \<le> snd (top_place vs i ! i)"
  using top_place_prefix[OF assms assms(2) le_refl] unfolding top_place_def by auto

lemma top_loop_spec:
  assumes "comparable vs" and "n \<le> length vs"
  defines "ws \<equiv> foldl top_place vs [0..<n]"
  shows "mset ws = mset vs \<and> (\<forall>i j. i < n \<and> i \<le> j \<and> j < length vs \<longrightarrow> snd (ws ! j) \<le> snd (ws ! i))"
  using assms(2) unfolding ws_def
proof (induction n)
  case 0
  then show ?case by simp
next
  case (Suc n)
  let ?w = "foldl top_place vs [0..<n]"
  have IH: "mset ?w = mset vs" "\<And>i j. i < n \<Longrightarrow> i \<le> j \<Longrightarrow> j < length vs \<Longrightarrow> snd (?w ! j) \<le> snd (?w ! i)"
    using Suc by auto
  have len: "length ?w = length vs" using IH(1) by (metis mset_eq_length)
  have c: "comparable ?w" "n < length ?w" using comparable_mset[OF IH(1)] assms(1) Suc.prems len by auto
  note tp = top_place_spec[OF c]
  have keep: "top_place ?w n ! i = ?w ! i" if "i < n" for i
    using tp(2) that by (metis nth_take)
  have "snd (top_place ?w n ! j) \<le> snd (top_place ?w n ! i)" if ij: "i < Suc n" "i \<le> j" "j < length vs" for i j
  proof (cases "i = n")
    case True
    with tp(3)[of j] ij len show ?thesis by simp
  next
    case False
    with ij have i: "i < n" by simp
    have sd: "set (drop n (top_place ?w n)) = set (drop n ?w)"
      by (metis append_take_drop_id mset_append mset_eq_setD tp(1) tp(2) add_left_cancel)
    show ?thesis
    proof (cases "j < n")
      case True
      with IH(2)[OF i] keep i ij show ?thesis by simp
    next
      case False
      have "top_place ?w n ! j \<in> set (drop n (top_place ?w n))"
        using False ij(3) len mset_eq_length[OF tp(1)] nth_mem[of "j - n" "drop n (top_place ?w n)"] by simp
      then obtain d where "d < length (drop n ?w)" "drop n ?w ! d = top_place ?w n ! j"
        unfolding sd by (metis in_set_conv_nth)
      with IH(2)[OF i, of "n + d"] keep i len show ?thesis by simp
    qed
  qed
  with tp(1) IH(1) show ?case by simp
qed

lemma top_sort_spec:
  assumes "comparable vs"
  shows "mset (top_sort k vs) = mset vs"
    "i < k \<Longrightarrow> i \<le> j \<Longrightarrow> j < length vs \<Longrightarrow> snd (top_sort k vs ! j) \<le> snd (top_sort k vs ! i)"
  using top_loop_spec[OF assms, of "min k (length vs)"] unfolding top_sort_def by auto

section \<open>Reallocation\<close>

text \<open>The \<open>i\<close>-th low account gets the \<open>i\<close>-th shard of a round over all shards but the own one.\<close>

definition round_robin :: "ContribState \<Rightarrow> nat \<Rightarrow> nat" where
  "round_robin cs i =
     (unat (ct_ShardID cs) + 1 + i mod (unat (ct_ShardNum cs) - 1)) mod unat (ct_ShardNum cs)"

lemma unat_Suc_mod:
  assumes "t < (n :: u64)"
  shows "unat ((t + 1) mod n) = (unat t + 1) mod unat n"
proof -
  have "unat t < unat n" using assms by (simp add: word_less_nat_alt)
  moreover have "unat n < 2 ^ 64" using unsigned_less[of n] by simp
  ultimately have "unat (t + 1) = unat t + 1" by (simp add: unat_word_ariths)
  then show ?thesis by (simp add: unat_mod)
qed

lemma round_robin_range:
  assumes "2 \<le> unat (ct_ShardNum cs)" and "ct_ShardID cs < ct_ShardNum cs"
  shows "round_robin cs i < unat (ct_ShardNum cs)" "round_robin cs i \<noteq> unat (ct_ShardID cs)"
proof -
  define n s j where "n = unat (ct_ShardNum cs)" and "s = unat (ct_ShardID cs)" and "j = i mod (n - 1)"
  have "s < n" "j < n - 1" using assms by (auto simp: n_def s_def j_def word_less_nat_alt)
  then have "(s + 1 + j) mod n \<noteq> s"
    by (cases "s + 1 + j < n") (auto simp: mod_if le_mod_geq)
  then show "round_robin cs i \<noteq> unat (ct_ShardID cs)" by (simp add: round_robin_def n_def s_def j_def)
  show "round_robin cs i < unat (ct_ShardNum cs)" using assms by (simp add: round_robin_def)
qed

lemma round_robin_next:
  assumes "2 \<le> unat (ct_ShardNum cs)" and "ct_ShardID cs < ct_ShardNum cs" and "unat t = round_robin cs i"
  shows "unat (next_target cs t) = round_robin cs (Suc i)"
proof -
  define n s j where "n = unat (ct_ShardNum cs)" and "s = unat (ct_ShardID cs)" and "j = i mod (n - 1)"
  have b: "s < n" "j < n - 1" "2 \<le> n" using assms by (auto simp: n_def s_def j_def word_less_nat_alt)
  have t: "t < ct_ShardNum cs" using round_robin_range(1)[OF assms(1,2)] assms(3) by (simp add: word_less_nat_alt)
  have t1: "unat ((t + 1) mod ct_ShardNum cs) = (s + 2 + j) mod n"
    using assms(3) by (simp add: unat_Suc_mod[OF t] round_robin_def n_def s_def j_def mod_simps)
  have s1: "unat ((ct_ShardID cs + 1) mod ct_ShardNum cs) = (s + 1) mod n"
    using unat_Suc_mod[OF assms(2)] by (simp add: n_def s_def)
  have j1: "Suc i mod (n - 1) = (if j + 1 = n - 1 then 0 else j + 1)"
    using b by (auto simp: j_def mod_Suc)
  show ?thesis
  proof (cases "j + 1 = n - 1")
    case True
    then have "s + 2 + j = s + n" using b by linarith
    then have "(s + 2 + j) mod n = s" using b(1) by (metis mod_add_self2 mod_less)
    with t1 have "(t + 1) mod ct_ShardNum cs = ct_ShardID cs" unfolding s_def by (simp only: word_unat_eq_iff)
    then show ?thesis
      using s1 True j1 by (simp add: next_target_def round_robin_def flip: n_def s_def)
  next
    case False
    then have "(s + 2 + j) mod n \<noteq> s" using b by (cases "s + 2 + j < n") (auto simp: mod_if le_mod_geq)
    with t1 have "(t + 1) mod ct_ShardNum cs \<noteq> ct_ShardID cs" by (auto simp: s_def)
    then show ?thesis
      using t1 False j1 by (simp add: next_target_def round_robin_def flip: n_def s_def)
  qed
qed

lemma realloc_loop:
  fixes m0 :: "(address \<times> u64) list"
  assumes cs: "2 \<le> unat (ct_ShardNum cs)" "ct_ShardID cs < ct_ShardNum cs" and "distinct l"
    and "unat t = round_robin cs i"
  defines "r \<equiv> fst (foldl (\<lambda>(m, t) addr. (AList.update addr t m, next_target cs t)) (m0, t) l)"
  shows "(\<forall>j < length l. \<exists>t. map_of r (l ! j) = Some t \<and> unat t = round_robin cs (i + j)) \<and> (\<forall>a. a \<notin> set l \<longrightarrow> map_of r a = map_of m0 a)"
  using assms(3,4) unfolding r_def
proof (induction l arbitrary: m0 t i)
  case Nil
  then show ?case by simp
next
  case (Cons a l)
  have "unat (next_target cs t) = round_robin cs (Suc i)" by (rule round_robin_next[OF cs Cons.prems(2)])
  with Cons.IH[of "next_target cs t" "Suc i" "AList.update a t m0"] Cons.prems
  show ?case by (auto simp: nth_Cons update_conv' split: nat.splits)
qed

section \<open>Properties\<close>

text \<open>
  \<^verbatim>\<open>GetTopContributors\<close> returns the \<open>k\<close> accounts with the largest total contributions, in
  decreasing order, or all accounts when there are fewer: the result has \<open>min k n\<close> different entries, their
  contributions decrease, and no account left out contributes more than one returned. It holds as
  long as no contribution is \<open>NaN\<close>, on which the code's comparisons are always false.
\<close>

theorem GetTopContributors_top:
  assumes "distinct (map fst (cc_Contributions cc))"
    and "\<forall>(v, m) \<in> set (cc_Contributions cc). cm_TotalContribution m \<noteq> NaN" and "0 \<le> k"
  shows "\<exists>top. Calc_GetTopContributors k cc = Some top
    \<and> length top = min (nat k) (length (cc_Contributions cc))
    \<and> distinct top \<and> set top \<subseteq> fst ` set (cc_Contributions cc)
    \<and> (\<forall>i j. i < j \<and> j < length top \<longrightarrow> GetContributionByVertex cc (top ! j) \<le> GetContributionByVertex cc (top ! i))
    \<and> (\<forall>v \<in> set top. \<forall>w \<in> fst ` set (cc_Contributions cc) - set top.
          GetContributionByVertex cc w \<le> GetContributionByVertex cc v)"
proof -
  define vs where "vs = map (\<lambda>(v, m). (v, cm_TotalContribution m)) (cc_Contributions cc)"
  define ws where "ws = top_sort (nat k) vs"
  have comp: "comparable vs" using assms(2) by (auto simp: comparable_def vs_def)
  have m: "mset ws = mset vs" unfolding ws_def by (rule top_sort_spec(1)[OF comp])
  then have len: "length ws = length vs" and sws: "set ws = set vs" by (auto dest: mset_eq_length mset_eq_setD)
  have fst_vs: "map fst vs = map fst (cc_Contributions cc)" by (auto simp: vs_def)
  have d: "distinct (map fst ws)" using m assms(1) fst_vs by (metis mset_eq_imp_distinct_iff mset_map)
  have val: "GetContributionByVertex cc (fst x) = snd x" if x: "x \<in> set ws" for x
    using x assms(1) by (auto simp: sws vs_def GetContributionByVertex_def)
  have nth: "GetContributionByVertex cc (map fst ws ! i) = snd (ws ! i)" if "i < length ws" for i
    using that val by simp
  have ord: "snd (ws ! j) \<le> snd (ws ! i)" if "i < nat k" "i \<le> j" "j < length ws" for i j
    using that top_sort_spec(2)[OF comp] len by (simp add: ws_def)
  let ?top = "take (nat k) (map fst ws)"
  have "Calc_GetTopContributors k cc = Some ?top"
    using assms(3) by (simp add: Calc_GetTopContributors_def vs_def[symmetric] ws_def[symmetric] take_map)
  moreover have "length ?top = min (nat k) (length (cc_Contributions cc))" by (simp add: len vs_def)
  moreover have "distinct ?top" using d by simp
  moreover have "set ?top \<subseteq> fst ` set (cc_Contributions cc)"
    using sws fst_vs by (metis list.set_map set_take_subset)
  moreover have "GetContributionByVertex cc (?top ! j) \<le> GetContributionByVertex cc (?top ! i)"
    if "i < j" "j < length ?top" for i j
    using that ord[of i j] nth by simp
  moreover have "GetContributionByVertex cc w \<le> GetContributionByVertex cc v"
    if v: "v \<in> set ?top" and w: "w \<in> fst ` set (cc_Contributions cc) - set ?top" for v w
  proof -
    obtain i where i: "v = map fst ws ! i" "i < nat k" "i < length ws"
      using v unfolding in_set_conv_nth by auto
    have "w \<in> set (map fst ws)" using w sws fst_vs by (metis DiffD1 list.set_map)
    then obtain j where j: "w = map fst ws ! j" "j < length ws" by (metis in_set_conv_nth length_map)
    have "i \<le> j"
    proof (rule ccontr)
      assume "\<not> i \<le> j"
      with i j nth_mem[of j ?top] have "w \<in> set ?top" by simp
      with w show False by simp
    qed
    with i j ord nth show ?thesis by simp
  qed
  ultimately show ?thesis by blast
qed

definition demo_metrics :: "nat \<Rightarrow> ContributionMetrics" where
  "demo_metrics n = \<lparr>cm_TotalTxCount = int n, cm_IntraShardTxCount = int n, cm_CrossShardTxCount = 0,
     cm_ContribScore = Fin (of_nat n), cm_TotalContribution = Fin (of_nat n), cm_LastUpdateEpoch = 1\<rparr>"

definition demo_calc :: ContributionCalculator where
  "demo_calc = NewContributionCalculator\<lparr>cc_Contributions :=
     [(''0a'', demo_metrics 2), (''0b'', demo_metrics 7), (''0c'', demo_metrics 5)]\<rparr>"

text \<open>The two best of three contributors.\<close>

theorem GetTopContributors_top_witness:
  "Calc_GetTopContributors 2 demo_calc = Some [''0b'', ''0c'']
   \<and> GetContributionByVertex demo_calc ''0a'' \<le> GetContributionByVertex demo_calc ''0c''"
proof -
  have run: "Calc_GetTopContributors 2 demo_calc = Some [''0b'', ''0c'']"
    by (simp add: Calc_GetTopContributors_def demo_calc_def demo_metrics_def top_sort_def top_place_def
        top_exchange_def upt_conv_Cons numeral_2_eq_2)
  have "distinct (map fst (cc_Contributions demo_calc))"
    "\<forall>(v, m) \<in> set (cc_Contributions demo_calc). cm_TotalContribution m \<noteq> NaN" "(0::int) \<le> 2"
    by (simp_all add: demo_calc_def demo_metrics_def)
  from GetTopContributors_top[OF this] run
  have "\<forall>v \<in> set [''0b'', ''0c'']. \<forall>w \<in> fst ` set (cc_Contributions demo_calc) - set [''0b'', ''0c''].
      GetContributionByVertex demo_calc w \<le> GetContributionByVertex demo_calc v" by auto
  moreover have "''0a'' \<in> fst ` set (cc_Contributions demo_calc) - set [''0b'', ''0c'']" by (simp add: demo_calc_def)
  ultimately show ?thesis using run by auto
qed

text \<open>
  C18. The reallocation plan of a shard names exactly its local accounts whose contribution is below
  the threshold. With two shards or more, the plan sends them round-robin over the other shards:
  the \<open>i\<close>-th account goes to the \<open>i\<close>-th shard after the own one, and never to the own shard.
\<close>

theorem ComputeReallocation_round_robin:
  assumes "2 \<le> unat (ct_ShardNum cs)" and "ct_ShardID cs < ct_ShardNum cs" and "distinct (ct_LocalAccounts cs)"
  shows "\<exists>plan. ComputeReallocation cs = Some plan
    \<and> dom (map_of plan) = {addr. IsLocalAccount cs addr \<and> GetContribution cs addr < ct_TransferThreshold cs}
    \<and> (\<forall>i < length (lowContribAccounts cs). map_option unat (map_of plan (lowContribAccounts cs ! i)) = Some (round_robin cs i))
    \<and> (\<forall>addr sid. map_of plan addr = Some sid \<longrightarrow> sid < ct_ShardNum cs \<and> sid \<noteq> ct_ShardID cs)"
proof -
  define l where "l = lowContribAccounts cs"
  define plan where "plan = fst (foldl (\<lambda>(m, t) addr. (AList.update addr t m, next_target cs t))
                              ([], (ct_ShardID cs + 1) mod ct_ShardNum cs) l)"
  have "ct_ShardNum cs \<noteq> 0" using assms(1) by auto
  then have c: "ComputeReallocation cs = Some plan" by (simp add: ComputeReallocation_def plan_def l_def)
  have d: "distinct l" using assms(3) by (simp add: l_def lowContribAccounts_def)
  have "unat ((ct_ShardID cs + 1) mod ct_ShardNum cs) = round_robin cs 0"
    by (simp add: unat_Suc_mod[OF assms(2)] round_robin_def)
  from realloc_loop[OF assms(1,2) d this, of "[]", folded plan_def]
  have r: "\<And>j. j < length l \<Longrightarrow> \<exists>t. map_of plan (l ! j) = Some t \<and> unat t = round_robin cs j"
    and out: "\<And>a. a \<notin> set l \<Longrightarrow> map_of plan a = None" by auto
  have "dom (map_of plan) = set l"
    using r out unfolding dom_def by (metis (mono_tags, lifting) Collect_cong Collect_mem_eq in_set_conv_nth option.distinct(1))
  moreover have "set l = {addr. IsLocalAccount cs addr \<and> GetContribution cs addr < ct_TransferThreshold cs}"
    by (auto simp: l_def lowContribAccounts_def IsLocalAccount_def GetContribution_def)
  moreover have "sid < ct_ShardNum cs \<and> sid \<noteq> ct_ShardID cs" if "map_of plan addr = Some sid" for addr sid
  proof -
    have "addr \<in> set l" using out that by fastforce
    then obtain j where "j < length l" "l ! j = addr" by (auto simp: in_set_conv_nth)
    with r that have "unat sid = round_robin cs j" by force
    with round_robin_range[OF assms(1,2), of j] show ?thesis by (auto simp: word_less_nat_alt)
  qed
  moreover have "map_option unat (map_of plan (l ! i)) = Some (round_robin cs i)" if "i < length l" for i
    using r[OF that] by auto
  ultimately show ?thesis using c by (fastforce simp: l_def)
qed

definition demo_contrib :: ContribState where
  "demo_contrib = (Init_ContribState 1 3 (Fin (1 / 2)) f64_one f64_one (Fin 5))
     \<lparr>ct_LocalAccounts := [''0a'', ''0b'', ''0c'', ''0d''], ct_ContribMap := [(''0b'', Fin 4)]\<rparr>"

text \<open>Shard 1 of three hands three accounts to the shards 2, 0 and 2.\<close>

theorem ComputeReallocation_round_robin_witness:
  "\<exists>plan. ComputeReallocation demo_contrib = Some plan \<and> dom (map_of plan) = {''0a'', ''0c'', ''0d''}
     \<and> map_option unat (map_of plan ''0c'') = Some 0"
proof -
  have l: "lowContribAccounts demo_contrib = [''0a'', ''0c'', ''0d'']"
    by (simp add: lowContribAccounts_def demo_contrib_def Init_ContribState_def contrib_at_def f64_zero_def f64_one_def)
  have "2 \<le> unat (ct_ShardNum demo_contrib)" "ct_ShardID demo_contrib < ct_ShardNum demo_contrib"
    "distinct (ct_LocalAccounts demo_contrib)"
    by (simp_all add: demo_contrib_def Init_ContribState_def)
  from ComputeReallocation_round_robin[OF this] obtain plan where plan:
    "ComputeReallocation demo_contrib = Some plan"
    "dom (map_of plan) = {addr. IsLocalAccount demo_contrib addr \<and> GetContribution demo_contrib addr < ct_TransferThreshold demo_contrib}"
    "\<forall>i < length (lowContribAccounts demo_contrib).
       map_option unat (map_of plan (lowContribAccounts demo_contrib ! i)) = Some (round_robin demo_contrib i)" by blast
  have "{addr. IsLocalAccount demo_contrib addr \<and> GetContribution demo_contrib addr < ct_TransferThreshold demo_contrib}
      = set (lowContribAccounts demo_contrib)"
    by (auto simp: lowContribAccounts_def IsLocalAccount_def GetContribution_def)
  moreover have "round_robin demo_contrib 1 = 0"
    by (simp add: round_robin_def demo_contrib_def Init_ContribState_def)
  then have "map_option unat (map_of plan ''0c'') = Some 0"
    using plan(3)[unfolded l, rule_format, of 1] by simp
  ultimately show ?thesis using plan(1,2) by (auto simp: l)
qed

end
