(* ===== verification/Clpa_State.thy ===== *)
theory Clpa_State
  imports Contrib_State Core_Data
begin

text \<open>
  The state of the constrained label propagation algorithm and its operations
  (\<^verbatim>\<open>partition/partition_CLPA.go\<close>). The partition map is an association list. Go's \<^verbatim>\<open>int\<close> counters are
  unbounded here: they count vertices and edges held in memory. \<open>pshards\<close> is \<^verbatim>\<open>params.ShardNum\<close>, on which
  \<^verbatim>\<open>utils.Addr2Shard\<close> depends. The unused \<^verbatim>\<open>GraphHash\<close> and the encoding of the state are left out.
\<close>

record CLPAState =
  cl_NetGraph :: Graph
  cl_PartitionMap :: "(Vertex \<times> int) list"
  cl_Edges2Shard :: "int list"
  cl_VertexsNumInShard :: "int list"
  cl_WeightPenalty :: f64
  cl_MinEdges2Shard :: int
  cl_MaxIterations :: int
  cl_CrossShardEdgeNum :: int
  cl_ShardNum :: int
  cl_ContribCalculator :: "ContributionCalculator option"
  cl_ContribInShard :: "f64 list"
  cl_ContribWeight :: f64
  cl_IncentivePool :: "(Vertex \<times> f64) list"
  cl_EnableContrib :: bool

definition empty_CLPAState :: CLPAState where
  "empty_CLPAState =
     \<lparr>cl_NetGraph = \<lparr>gr_VertexSet = [], gr_EdgeSet = None\<rparr>, cl_PartitionMap = [], cl_Edges2Shard = [],
      cl_VertexsNumInShard = [], cl_WeightPenalty = f64_zero, cl_MinEdges2Shard = 0, cl_MaxIterations = 0,
      cl_CrossShardEdgeNum = 0, cl_ShardNum = 0, cl_ContribCalculator = None, cl_ContribInShard = [],
      cl_ContribWeight = f64_zero, cl_IncentivePool = [], cl_EnableContrib = False\<rparr>"

abbreviation vertices :: "CLPAState \<Rightarrow> Vertex set" where
  "vertices cs \<equiv> set (gr_VertexSet (cl_NetGraph cs))"

text \<open>\<open>shard_at cs v\<close> is \<^verbatim>\<open>cs.PartitionMap[v]\<close>, zero when there is no entry.\<close>

definition shard_at :: "CLPAState \<Rightarrow> Vertex \<Rightarrow> int" where
  "shard_at cs v = (case map_of (cl_PartitionMap cs) v of Some s \<Rightarrow> s | None \<Rightarrow> 0)"

definition set_shard :: "Vertex \<Rightarrow> int \<Rightarrow> CLPAState \<Rightarrow> CLPAState" where
  "set_shard v s cs = cs\<lparr>cl_PartitionMap := AList.update v s (cl_PartitionMap cs)\<rparr>"

definition CLPA_AddVertex :: "int \<Rightarrow> Vertex \<Rightarrow> CLPAState \<Rightarrow> CLPAState option" where
  "CLPA_AddVertex pshards v cs =
     (let cs = cs\<lparr>cl_NetGraph := Graph_AddVertex v (cl_NetGraph cs)\<rparr> in
      do { cs \<leftarrow> (case map_of (cl_PartitionMap cs) v of
                    None \<Rightarrow> map_option (\<lambda>s. set_shard v s cs) (Addr2Shard pshards v)
                  | Some val \<Rightarrow> Some (set_shard v val cs));
           nums \<leftarrow> bump (cl_VertexsNumInShard cs) (shard_at cs v) (\<lambda>n. n + 1);
           Some (cs\<lparr>cl_VertexsNumInShard := nums\<rparr>) })"

definition CLPA_AddEdge :: "int \<Rightarrow> Vertex \<Rightarrow> Vertex \<Rightarrow> CLPAState \<Rightarrow> CLPAState option" where
  "CLPA_AddEdge pshards u v cs =
     do { cs \<leftarrow> (if u \<notin> vertices cs then CLPA_AddVertex pshards u cs else Some cs);
          cs \<leftarrow> (if v \<notin> vertices cs then CLPA_AddVertex pshards v cs else Some cs);
          Some (cs\<lparr>cl_NetGraph := Graph_AddEdge u v (cl_NetGraph cs)\<rparr>) }"

text \<open>
  \<open>copy_into\<close> is \<^verbatim>\<open>copy\<close> into a fresh slice of \<open>n\<close> zero values. The copy shares the slice of the vertex
  counts with the original; the copy's value at the time of the call is what the model has. The
  destination is a new state, in which the fields that are not copied have their zero values.
\<close>

definition copy_into :: "int \<Rightarrow> 'a \<Rightarrow> 'a list \<Rightarrow> 'a list option" where
  "copy_into n z xs = (if n < 0 then None else Some (take (nat n) xs @ replicate (nat n - length xs) z))"

definition CopyCLPA :: "CLPAState \<Rightarrow> CLPAState option" where
  "CopyCLPA src =
     do { es \<leftarrow> copy_into (cl_ShardNum src) 0 (cl_Edges2Shard src);
          contrib \<leftarrow> (if cl_ContribInShard src \<noteq> [] then copy_into (cl_ShardNum src) f64_zero (cl_ContribInShard src)
                     else Some []);
          Some (empty_CLPAState\<lparr>
            cl_NetGraph := CopyGraph (cl_NetGraph src) (cl_NetGraph empty_CLPAState),
            cl_PartitionMap := cl_PartitionMap src,
            cl_Edges2Shard := es,
            cl_VertexsNumInShard := cl_VertexsNumInShard src,
            cl_WeightPenalty := cl_WeightPenalty src,
            cl_MinEdges2Shard := cl_MinEdges2Shard src,
            cl_MaxIterations := cl_MaxIterations src,
            cl_ShardNum := cl_ShardNum src,
            cl_ContribWeight := cl_ContribWeight src,
            cl_EnableContrib := cl_EnableContrib src,
            cl_ContribInShard := contrib,
            cl_IncentivePool := cl_IncentivePool src\<rparr>) }"

section \<open>Edge tallies\<close>

definition MaxInt :: int where
  "MaxInt = 2 ^ 63 - 1"

definition min_edges :: "int list \<Rightarrow> int" where
  "min_edges es = foldl (\<lambda>m val. if m > val then val else m) MaxInt es"

definition tally_edge :: "CLPAState \<Rightarrow> Vertex \<Rightarrow> int list \<times> int list \<Rightarrow> Vertex \<Rightarrow> (int list \<times> int list) option" where
  "tally_edge cs v = (\<lambda>(es, interEdge) u.
     let vShard = shard_at cs v; uShard = shard_at cs u
     in if vShard \<noteq> uShard then map_option (\<lambda>es. (es, interEdge)) (bump es uShard (\<lambda>n. n + 1))
        else map_option (\<lambda>interEdge. (es, interEdge)) (bump interEdge uShard (\<lambda>n. n + 1)))"

text \<open>The tallies are not negative, so the truncating division of Go is \<^const>\<open>divide\<close> on \<^typ>\<open>int\<close>.\<close>

definition ComputeEdges2Shard :: "CLPAState \<Rightarrow> CLPAState option" where
  "ComputeEdges2Shard cs =
     do { zero \<leftarrow> make_slice (cl_ShardNum cs) 0;
          (es, interEdge) \<leftarrow> foldlM (\<lambda>acc (v, lst). foldlM (tally_edge cs v) acc lst) (zero, zero) (edge_list (cl_NetGraph cs));
          let cross = foldl (+) 0 es div 2;
          let es = map2 (\<lambda>e i. e + i div 2) es interEdge;
          Some (cs\<lparr>cl_Edges2Shard := es, cl_CrossShardEdgeNum := cross, cl_MinEdges2Shard := min_edges es\<rparr>) }"

definition recompute_edge :: "CLPAState \<Rightarrow> int \<Rightarrow> int \<Rightarrow> int list \<times> int \<Rightarrow> Vertex \<Rightarrow> (int list \<times> int) option" where
  "recompute_edge cs new old = (\<lambda>(es, cross) u.
     let neighborShard = shard_at cs u
     in if neighborShard \<noteq> new \<and> neighborShard \<noteq> old
        then do { es \<leftarrow> bump es new (\<lambda>n. n + 1); es \<leftarrow> bump es old (\<lambda>n. n - 1); Some (es, cross) }
        else if neighborShard = new then do { es \<leftarrow> bump es old (\<lambda>n. n - 1); Some (es, cross - 1) }
        else do { es \<leftarrow> bump es new (\<lambda>n. n + 1); Some (es, cross + 1) })"

definition changeShardRecompute :: "Vertex \<Rightarrow> int \<Rightarrow> CLPAState \<Rightarrow> CLPAState option" where
  "changeShardRecompute v old cs =
     do { let new = shard_at cs v;
          (es, cross) \<leftarrow> foldlM (recompute_edge cs new old) (cl_Edges2Shard cs, cl_CrossShardEdgeNum cs)
                           (edges_of (cl_NetGraph cs) v);
          Some (cs\<lparr>cl_Edges2Shard := es, cl_CrossShardEdgeNum := cross, cl_MinEdges2Shard := min_edges es\<rparr>) }"

section \<open>Initial partitions\<close>

definition Init_CLPAState :: "f64 \<Rightarrow> int \<Rightarrow> int \<Rightarrow> CLPAState \<Rightarrow> CLPAState option" where
  "Init_CLPAState wp mIter sn cs =
     do { nums \<leftarrow> make_slice sn 0;
          contrib \<leftarrow> make_slice sn f64_zero;
          Some (cs\<lparr>cl_WeightPenalty := wp, cl_MaxIterations := mIter, cl_ShardNum := sn,
                   cl_VertexsNumInShard := nums, cl_PartitionMap := [], cl_ContribInShard := contrib,
                   cl_IncentivePool := [], cl_EnableContrib := False, cl_ContribWeight := f64_zero\<rparr>) }"

text \<open>\<^verbatim>\<open>strconv.ParseInt(s, 16, 64)\<close> on eight characters, which cannot overflow.\<close>

definition parse_int16 :: "bytes \<Rightarrow> int option" where
  "parse_int16 s =
     (case s of [] \<Rightarrow> None
      | c # cs \<Rightarrow> if c = CHR ''-'' then map_option (\<lambda>n. - int n) (parse_hex cs)
                  else if c = CHR ''+'' then map_option int (parse_hex cs)
                  else map_option int (parse_hex s))"

definition init_vertex :: "CLPAState \<Rightarrow> Vertex \<Rightarrow> CLPAState option" where
  "init_vertex cs v =
     do { va \<leftarrow> (if length v < 8 then None else Some (drop (length v - 8) v));
          num \<leftarrow> parse_int16 va;
          s \<leftarrow> go_rem num (cl_ShardNum cs);
          let cs = set_shard v s cs;
          nums \<leftarrow> bump (cl_VertexsNumInShard cs) (shard_at cs v) (\<lambda>n. n + 1);
          Some (cs\<lparr>cl_VertexsNumInShard := nums\<rparr>) }"

definition Init_Partition :: "CLPAState \<Rightarrow> CLPAState option" where
  "Init_Partition cs =
     do { nums \<leftarrow> make_slice (cl_ShardNum cs) 0;
          cs \<leftarrow> foldlM init_vertex (cs\<lparr>cl_VertexsNumInShard := nums, cl_PartitionMap := []\<rparr>) (gr_VertexSet (cl_NetGraph cs));
          ComputeEdges2Shard cs }"

definition stable_init_vertex :: "CLPAState \<times> int \<Rightarrow> Vertex \<Rightarrow> (CLPAState \<times> int) option" where
  "stable_init_vertex = (\<lambda>(cs, cnt) v.
     do { s \<leftarrow> go_rem cnt (cl_ShardNum cs);
          let cs = set_shard v s cs;
          nums \<leftarrow> bump (cl_VertexsNumInShard cs) (shard_at cs v) (\<lambda>n. n + 1);
          Some (cs\<lparr>cl_VertexsNumInShard := nums\<rparr>, cnt + 1) })"

text \<open>The result is \<open>Inl ()\<close> for the error \<^verbatim>\<open>too many shards\<close>, with the state unchanged.\<close>

definition Stable_Init_Partition :: "CLPAState \<Rightarrow> (unit + CLPAState) option" where
  "Stable_Init_Partition cs =
     (if cl_ShardNum cs > int (length (gr_VertexSet (cl_NetGraph cs))) then Some (Inl ())
      else do { nums \<leftarrow> make_slice (cl_ShardNum cs) 0;
                (cs, _) \<leftarrow> foldlM stable_init_vertex (cs\<lparr>cl_VertexsNumInShard := nums, cl_PartitionMap := []\<rparr>, 0)
                             (gr_VertexSet (cl_NetGraph cs));
                map_option Inr (ComputeEdges2Shard cs) })"

definition EraseEdges :: "CLPAState \<Rightarrow> CLPAState" where
  "EraseEdges cs = cs\<lparr>cl_NetGraph := (cl_NetGraph cs)\<lparr>gr_EdgeSet := Some []\<rparr>\<rparr>"

end
