(* ===== verification/Clpa_Tally.thy ===== *)
theory Clpa_Tally
  imports Clpa_State
begin

text \<open>
  The edge tallies of the partition state: what \<^verbatim>\<open>ComputeEdges2Shard\<close> computes, as counts over the
  adjacency pairs of the graph, and that the incremental update after a vertex changes its shard
  computes the same.
\<close>

section \<open>Counts over adjacency pairs\<close>

definition cross_in :: "(Vertex \<Rightarrow> int) \<Rightarrow> (Vertex \<times> Vertex) multiset \<Rightarrow> int \<Rightarrow> int" where
  "cross_in p M k = int (size {#e \<in># M. p (snd e) = k \<and> p (fst e) \<noteq> p (snd e)#})"

definition inter_in :: "(Vertex \<Rightarrow> int) \<Rightarrow> (Vertex \<times> Vertex) multiset \<Rightarrow> int \<Rightarrow> int" where
  "inter_in p M k = int (size {#e \<in># M. p (snd e) = k \<and> p (fst e) = p (snd e)#})"

definition cut_pairs :: "(Vertex \<Rightarrow> int) \<Rightarrow> (Vertex \<times> Vertex) multiset \<Rightarrow> int" where
  "cut_pairs p M = int (size {#e \<in># M. p (fst e) \<noteq> p (snd e)#})"

definition shard_weight :: "(Vertex \<Rightarrow> int) \<Rightarrow> (Vertex \<times> Vertex) multiset \<Rightarrow> int \<Rightarrow> int" where
  "shard_weight p M k = cross_in p M k + inter_in p M k div 2"

text \<open>The state with the tallies that belong to its partition.\<close>

definition tallied :: "CLPAState \<Rightarrow> CLPAState" where
  "tallied cs =
     (let M = mset (adj_pairs (cl_NetGraph cs));
          es = map (\<lambda>k. shard_weight (shard_at cs) M (int k)) [0..<nat (cl_ShardNum cs)]
      in cs\<lparr>cl_Edges2Shard := es, cl_CrossShardEdgeNum := cut_pairs (shard_at cs) M div 2, cl_MinEdges2Shard := min_edges es\<rparr>)"

definition in_range :: "CLPAState \<Rightarrow> bool" where
  "in_range cs \<longleftrightarrow> 0 \<le> cl_ShardNum cs \<and> (\<forall>v \<in> vertices cs. 0 \<le> shard_at cs v \<and> shard_at cs v < cl_ShardNum cs)"

lemma foldlM_map: "foldlM f s (map g xs) = foldlM (\<lambda>s x. f s (g x)) s xs"
  by (induction xs arbitrary: s) simp_all

lemma tally_pairs:
  "foldlM (\<lambda>acc (v, lst). foldlM (tally_edge cs v) acc lst) a es
   = foldlM (\<lambda>acc (v, u). tally_edge cs v acc u) a (concat (map (\<lambda>(v, l). map (Pair v) l) es))"
  by (induction es arbitrary: a) (auto simp: foldlM_append foldlM_map)

lemma tally_result:
  assumes "\<forall>(v, u) \<in> set prs. 0 \<le> shard_at cs u \<and> nat (shard_at cs u) < n" and "length a = n" "length b = n"
  shows "foldlM (\<lambda>acc (v, u). tally_edge cs v acc u) (a, b) prs =
     Some (map (\<lambda>k. a ! k + cross_in (shard_at cs) (mset prs) (int k)) [0..<n],
           map (\<lambda>k. b ! k + inter_in (shard_at cs) (mset prs) (int k)) [0..<n])"
  using assms
proof (induction prs arbitrary: a b)
  case Nil
  then show ?case by (auto simp: cross_in_def inter_in_def intro!: nth_equalityI)
next
  case (Cons e prs)
  obtain v u where e: "e = (v, u)" by (cases e)
  have u: "0 \<le> shard_at cs u" "nat (shard_at cs u) < n" using Cons.prems(1) e by auto
  show ?case
  proof (cases "shard_at cs v = shard_at cs u")
    case True
    have "tally_edge cs v (a, b) u = Some (a, b[nat (shard_at cs u) := b ! nat (shard_at cs u) + 1])"
      using True u Cons.prems by (simp add: tally_edge_def Let_def)
    then show ?thesis
      using Cons True u by (simp add: e) (auto simp: cross_in_def inter_in_def nth_list_update)
  next
    case False
    have "tally_edge cs v (a, b) u = Some (a[nat (shard_at cs u) := a ! nat (shard_at cs u) + 1], b)"
      using False u Cons.prems by (simp add: tally_edge_def Let_def)
    then show ?thesis
      using Cons False u by (simp add: e) (auto simp: cross_in_def inter_in_def nth_list_update)
  qed
qed

lemma sum_cross_in:
  assumes "\<forall>e \<in># M. 0 \<le> p (snd e) \<and> nat (p (snd e)) < n"
  shows "(\<Sum>k \<in> {0..<n}. cross_in p M (int k)) = cut_pairs p M"
  using assms
proof (induction M)
  case empty
  then show ?case by (simp add: cross_in_def cut_pairs_def)
next
  case (add e M)
  have "(\<Sum>k \<in> {0..<n}. cross_in p (add_mset e M) (int k))
      = (\<Sum>k \<in> {0..<n}. cross_in p M (int k) + (if k = nat (p (snd e)) then if p (fst e) \<noteq> p (snd e) then 1 else 0 else 0))"
    using add.prems by (intro sum.cong) (auto simp: cross_in_def)
  then show ?case using add by (simp add: sum.distrib cut_pairs_def)
qed

lemma foldl_sum: "foldl (+) (a::int) xs = a + sum_list xs"
  by (induction xs arbitrary: a) simp_all

lemma map2_upt: "map2 f (map g [0..<n]) (map h [0..<n]) = map (\<lambda>k. f (g k) (h k)) [0..<n]"
  by (intro nth_equalityI) auto

lemma in_range_pairs:
  assumes "graph_wf (cl_NetGraph cs)" and "in_range cs"
  shows "\<forall>(v, u) \<in> set (adj_pairs (cl_NetGraph cs)). 0 \<le> shard_at cs u \<and> nat (shard_at cs u) < nat (cl_ShardNum cs)"
  using adj_pairs_vertices[OF assms(1)] assms(2) by (fastforce simp: in_range_def)

lemma ComputeEdges2Shard_tallied:
  assumes "graph_wf (cl_NetGraph cs)" and "in_range cs"
  shows "ComputeEdges2Shard cs = Some (tallied cs)"
proof -
  let ?M = "mset (adj_pairs (cl_NetGraph cs))" and ?n = "nat (cl_ShardNum cs)"
  note r = in_range_pairs[OF assms]
  have t: "foldlM (\<lambda>acc (v, lst). foldlM (tally_edge cs v) acc lst) (replicate ?n 0, replicate ?n 0) (edge_list (cl_NetGraph cs))
      = Some (map (\<lambda>k. cross_in (shard_at cs) ?M (int k)) [0..<?n], map (\<lambda>k. inter_in (shard_at cs) ?M (int k)) [0..<?n])"
    unfolding tally_pairs adj_pairs_def[symmetric]
    by (subst tally_result[OF r]) (auto intro!: map_cong)
  have "sum_list (map (\<lambda>k. cross_in (shard_at cs) ?M (int k)) [0..<?n]) = cut_pairs (shard_at cs) ?M"
    using r by (subst sum_cross_in[symmetric]) (auto simp: interv_sum_list_conv_sum_set_nat)
  with t assms(2) show ?thesis
    unfolding ComputeEdges2Shard_def
    by (simp add: in_range_def tallied_def Let_def foldl_sum map2_upt shard_weight_def)
qed

section \<open>The incremental update\<close>

definition others :: "(Vertex \<Rightarrow> int) \<Rightarrow> Vertex multiset \<Rightarrow> int \<Rightarrow> int" where
  "others p A k = int (size {#u \<in># A. p u \<noteq> k#})"

lemma recompute_result:
  assumes "0 \<le> new" "nat new < n" "0 \<le> old" "nat old < n" "new \<noteq> old" and "length es = n"
  shows "foldlM (recompute_edge cs new old) (es, c) us =
     Some (map (\<lambda>k. es ! k + (if int k = new then others (shard_at cs) (mset us) new else 0)
                   - (if int k = old then others (shard_at cs) (mset us) old else 0)) [0..<n],
           c + others (shard_at cs) (mset us) new - others (shard_at cs) (mset us) old)"
  using assms(6)
proof (induction us arbitrary: es c)
  case Nil
  then show ?case by (auto simp: others_def intro!: nth_equalityI)
next
  case (Cons u us)
  define s where "s = shard_at cs u"
  define es' where "es' = map (\<lambda>k. es ! k + (if int k = new \<and> s \<noteq> new then 1 else 0) - (if int k = old \<and> s \<noteq> old then 1 else 0)) [0..<n]"
  have "recompute_edge cs new old (es, c) u
      = Some (es', c + (if s \<noteq> new then 1 else 0) - (if s \<noteq> old then 1 else 0))"
  proof -
    consider "s \<noteq> new" "s \<noteq> old" | "s = new" | "s = old" by blast
    then show ?thesis
      using assms(1-5) Cons.prems
      by cases (simp_all add: recompute_edge_def s_def[symmetric] es'_def, auto simp: nth_list_update intro!: nth_equalityI)
  qed
  moreover have "length es' = n" by (simp add: es'_def)
  ultimately show ?case
    using Cons.IH[of es'] by (auto simp: es'_def others_def s_def[symmetric] intro!: nth_equalityI)
qed

lemma shard_at_set [simp]: "shard_at (set_shard v s cs) = (shard_at cs)(v := s)"
  by (auto simp: shard_at_def set_shard_def update_conv' fun_eq_iff)

lemma shard_at_frame [simp]:
  "shard_at (cs\<lparr>cl_Edges2Shard := es\<rparr>) = shard_at cs" "shard_at (cs\<lparr>cl_MinEdges2Shard := n\<rparr>) = shard_at cs"
  "shard_at (cs\<lparr>cl_CrossShardEdgeNum := n\<rparr>) = shard_at cs" "shard_at (cs\<lparr>cl_VertexsNumInShard := es\<rparr>) = shard_at cs"
  "shard_at (cs\<lparr>cl_NetGraph := g\<rparr>) = shard_at cs" "shard_at (cs\<lparr>cl_ContribInShard := fs\<rparr>) = shard_at cs"
  "shard_at (cs\<lparr>cl_ContribCalculator := c\<rparr>) = shard_at cs" "shard_at (cs\<lparr>cl_EnableContrib := b\<rparr>) = shard_at cs"
  by (simp_all add: shard_at_def fun_eq_iff)

lemma set_shard_frame [simp]:
  "cl_NetGraph (set_shard v s cs) = cl_NetGraph cs" "cl_ShardNum (set_shard v s cs) = cl_ShardNum cs"
  "cl_Edges2Shard (set_shard v s cs) = cl_Edges2Shard cs" "cl_CrossShardEdgeNum (set_shard v s cs) = cl_CrossShardEdgeNum cs"
  "cl_VertexsNumInShard (set_shard v s cs) = cl_VertexsNumInShard cs" "cl_MaxIterations (set_shard v s cs) = cl_MaxIterations cs"
  "cl_ContribCalculator (set_shard v s cs) = cl_ContribCalculator cs" "cl_ContribInShard (set_shard v s cs) = cl_ContribInShard cs"
  by (simp_all add: set_shard_def)

text \<open>The weights and the cut, split into the edges at \<open>v\<close> and the others.\<close>

lemma size_filter_image: "size (filter_mset P (image_mset f A)) = size (filter_mset (P \<circ> f) A)"
  by (induction A) auto

lemma weight_split:
  assumes "v \<notin># A" and "\<forall>(a, b) \<in># R. a \<noteq> v \<and> b \<noteq> v"
  defines "M \<equiv> image_mset (Pair v) A + image_mset (\<lambda>u. (u, v)) A + R"
  shows "shard_weight (p(v := s)) M k =
      (if k = s then int (size A) else int (size {#u \<in># A. p u = k#})) + shard_weight p R k"
    and "cut_pairs (p(v := s)) M div 2 = others p A s + cut_pairs p R div 2"
proof -
  define q where "q = p(v := s)"
  have qv: "q v = s" by (simp add: q_def)
  have A: "\<And>P. {#u \<in># A. P (q u)#} = {#u \<in># A. P (p u)#}" using assms(1) by (intro filter_mset_cong) (auto simp: q_def)
  have R: "cross_in q R k = cross_in p R k" "inter_in q R k = inter_in p R k" "cut_pairs q R = cut_pairs p R" for k
    using assms(2) unfolding cross_in_def inter_in_def cut_pairs_def
    by (auto simp: q_def intro!: arg_cong[where f = size] filter_mset_cong)
  have c: "cross_in q M k = int (size {#u \<in># A. p u = k \<and> s \<noteq> p u#})
      + int (size {#u \<in># A. s = k \<and> p u \<noteq> s#}) + cross_in p R k"
    using A[of "\<lambda>x. x = k \<and> s \<noteq> x"] A[of "\<lambda>x. s = k \<and> x \<noteq> s"]
    unfolding R(1)[symmetric] by (simp add: cross_in_def M_def size_filter_image comp_def qv)
  have i: "inter_in q M k = 2 * int (size {#u \<in># A. s = k \<and> p u = s#}) + inter_in p R k"
  proof -
    have "{#u \<in># A. p u = k \<and> s = p u#} = {#u \<in># A. s = k \<and> p u = s#}" by (intro filter_mset_cong) auto
    then show ?thesis
      using A[of "\<lambda>x. x = k \<and> s = x"] A[of "\<lambda>x. s = k \<and> x = s"]
      unfolding R(2)[symmetric] by (simp add: inter_in_def M_def size_filter_image comp_def qv)
  qed
  have sz: "size A = size {#u \<in># A. p u \<noteq> s#} + size {#u \<in># A. p u = s#}"
    using multiset_partition[of A "\<lambda>u. p u \<noteq> s"] by (metis (no_types, lifting) filter_mset_cong not_not size_union)
  have k: "{#u \<in># A. p u = k \<and> s \<noteq> p u#} = (if k = s then {#} else {#u \<in># A. p u = k#})"
    by (auto intro!: filter_mset_cong)
  show "shard_weight (p(v := s)) M k = (if k = s then int (size A) else int (size {#u \<in># A. p u = k#})) + shard_weight p R k"
    using sz unfolding q_def[symmetric] by (simp add: shard_weight_def c i k)
  have "cut_pairs q M = 2 * others p A s + cut_pairs p R"
    using A[of "\<lambda>x. x \<noteq> s"] A[of "\<lambda>x. s \<noteq> x"] unfolding R(3)[symmetric]
    by (simp add: cut_pairs_def others_def M_def size_filter_image comp_def qv eq_commute[of s])
  then show "cut_pairs (p(v := s)) M div 2 = others p A s + cut_pairs p R div 2" unfolding q_def[symmetric] by simp
qed

lemma in_range_set_shard: "in_range cs \<Longrightarrow> 0 \<le> s \<Longrightarrow> s < cl_ShardNum cs \<Longrightarrow> in_range (set_shard v s cs)"
  by (auto simp: in_range_def)

lemma weight_change:
  assumes "graph_wf g" and "v \<notin> set (edges_of g v)" and "p v = old" and "new \<noteq> old"
  defines "M \<equiv> mset (adj_pairs g)" and "A \<equiv> mset (edges_of g v)"
  shows "shard_weight (p(v := new)) M k =
      shard_weight p M k + (if k = new then others p A new else 0) - (if k = old then others p A old else 0)"
    and "cut_pairs (p(v := new)) M div 2 = cut_pairs p M div 2 + others p A new - others p A old"
proof -
  obtain R where M: "M = image_mset (Pair v) A + image_mset (\<lambda>u. (u, v)) A + R"
    and R: "\<forall>(a, b) \<in># R. a \<noteq> v \<and> b \<noteq> v"
    using adj_pairs_at[OF assms(1,2)] unfolding M_def A_def by blast
  have v: "v \<notin># A" using assms(2) by (simp add: A_def)
  have p: "p(v := old) = p" using assms(3) by auto
  note w = weight_split[OF v R, folded M]
  have sz: "int (size A) = others p A s + int (size {#u \<in># A. p u = s#})" for s
    using multiset_partition[of A "\<lambda>u. p u \<noteq> s"] unfolding others_def
    by (metis (no_types, lifting) filter_mset_cong not_not of_nat_add size_union)
  show "shard_weight (p(v := new)) M k =
      shard_weight p M k + (if k = new then others p A new else 0) - (if k = old then others p A old else 0)"
    using w(1)[of p new k] w(1)[of p old k] assms(4) sz[of k] unfolding p by auto
  show "cut_pairs (p(v := new)) M div 2 = cut_pairs p M div 2 + others p A new - others p A old"
    using w(2)[of p new] w(2)[of p old] unfolding p by simp
qed

lemma changeShardRecompute_tallied:
  assumes "graph_wf (cl_NetGraph cs)" and "in_range cs" and "v \<in> vertices cs"
    and "v \<notin> set (edges_of (cl_NetGraph cs) v)" and "tallied cs = cs"
    and new: "0 \<le> new" "new < cl_ShardNum cs" "new \<noteq> shard_at cs v"
  shows "changeShardRecompute v (shard_at cs v) (set_shard v new cs) = Some (tallied (set_shard v new cs))"
proof -
  let ?M = "mset (adj_pairs (cl_NetGraph cs))" and ?A = "mset (edges_of (cl_NetGraph cs) v)" and ?n = "nat (cl_ShardNum cs)"
  let ?p = "shard_at cs" and ?q = "(shard_at cs)(v := new)"
  have es: "cl_Edges2Shard cs = map (\<lambda>k. shard_weight ?p ?M (int k)) [0..<?n]"
    and cr: "cl_CrossShardEdgeNum cs = cut_pairs ?p ?M div 2"
    using arg_cong[OF assms(5), of cl_Edges2Shard] arg_cong[OF assms(5), of cl_CrossShardEdgeNum]
    by (simp_all add: tallied_def Let_def)
  have old: "0 \<le> ?p v" "nat (?p v) < ?n" using assms(2,3) by (auto simp: in_range_def)
  have oth: "others ?q ?A k = others ?p ?A k" for k
    using assms(4) unfolding others_def by (auto intro!: arg_cong[where f = size] filter_mset_cong)
  note w = weight_change[OF assms(1,4), of ?p "?p v" new, OF refl new(3)]
  have "foldlM (recompute_edge (set_shard v new cs) new (?p v)) (cl_Edges2Shard cs, cl_CrossShardEdgeNum cs)
          (edges_of (cl_NetGraph cs) v)
      = Some (map (\<lambda>k. shard_weight ?q ?M (int k)) [0..<?n], cut_pairs ?q ?M div 2)"
    using new old by (subst recompute_result[where n = ?n]) (auto simp: es cr oth w)
  then show ?thesis by (simp add: changeShardRecompute_def tallied_def Let_def)
qed

section \<open>Properties\<close>

text \<open>
  C14. When a vertex without a self-loop moves to another shard, the incremental
  \<^verbatim>\<open>changeShardRecompute\<close>, which looks at the neighbours of the vertex only, leaves exactly the tallies
  that \<^verbatim>\<open>ComputeEdges2Shard\<close> computes from the whole graph for the new partition: the weight of every
  shard, the smallest weight and the number of cross-shard edges.
\<close>

theorem changeShardRecompute_correct:
  assumes "graph_wf (cl_NetGraph cs)" and "in_range cs" and "v \<in> vertices cs"
    and "v \<notin> set (edges_of (cl_NetGraph cs) v)" and "ComputeEdges2Shard cs = Some cs"
    and "0 \<le> new" and "new < cl_ShardNum cs" and "new \<noteq> shard_at cs v"
  shows "changeShardRecompute v (shard_at cs v) (set_shard v new cs) = ComputeEdges2Shard (set_shard v new cs)"
proof -
  have "tallied cs = cs" using ComputeEdges2Shard_tallied[OF assms(1,2)] assms(5) by simp
  moreover have "ComputeEdges2Shard (set_shard v new cs) = Some (tallied (set_shard v new cs))"
    using assms by (intro ComputeEdges2Shard_tallied in_range_set_shard) simp_all
  ultimately show ?thesis using changeShardRecompute_tallied[OF assms(1-4) _ assms(6-8)] by simp
qed

text \<open>A path of four accounts over two shards, and the account in the middle that moves.\<close>

definition demo_graph :: Graph where
  "demo_graph = Graph_AddEdge ''c'' ''d'' (Graph_AddEdge ''b'' ''c'' (Graph_AddEdge ''a'' ''b''
     \<lparr>gr_VertexSet = [], gr_EdgeSet = None\<rparr>))"

lemma demo_graph_wf: "graph_wf demo_graph"
  by (simp add: demo_graph_def Graph_AddEdge_wf)

lemma demo_graph_edges:
  "edges_of demo_graph ''a'' = [''b'']" "edges_of demo_graph ''b'' = [''a'', ''c'']"
  "edges_of demo_graph ''c'' = [''b'', ''d'']" "edges_of demo_graph ''d'' = [''c'']"
  "set (gr_VertexSet demo_graph) = {''a'', ''b'', ''c'', ''d''}"
  by (auto simp: demo_graph_def Graph_AddEdge_edges Graph_AddEdge_vertices)

lemma tallied_frame [simp]:
  "cl_NetGraph (tallied cs) = cl_NetGraph cs" "cl_ShardNum (tallied cs) = cl_ShardNum cs"
  "cl_PartitionMap (tallied cs) = cl_PartitionMap cs" "cl_VertexsNumInShard (tallied cs) = cl_VertexsNumInShard cs"
  "cl_MaxIterations (tallied cs) = cl_MaxIterations cs" "shard_at (tallied cs) = shard_at cs" "tallied (tallied cs) = tallied cs"
  by (simp_all add: tallied_def Let_def)

definition demo_base :: CLPAState where
  "demo_base = empty_CLPAState\<lparr>cl_NetGraph := demo_graph, cl_ShardNum := 2,
     cl_PartitionMap := [(''a'', 0), (''b'', 0), (''c'', 0), (''d'', 1)], cl_VertexsNumInShard := [3, 1],
     cl_WeightPenalty := Fin (1 / 2), cl_MaxIterations := 10\<rparr>"

definition demo_clpa :: CLPAState where
  "demo_clpa = the (ComputeEdges2Shard demo_base)"

lemma demo_clpa_tallied: "demo_clpa = tallied demo_base"
proof -
  have "graph_wf (cl_NetGraph demo_base)" "in_range demo_base"
    by (simp_all add: demo_base_def demo_graph_wf in_range_def demo_graph_edges shard_at_def)
  then show ?thesis by (simp add: demo_clpa_def ComputeEdges2Shard_tallied)
qed

lemma demo_clpa_fields:
  "cl_NetGraph demo_clpa = demo_graph" "cl_ShardNum demo_clpa = 2" "cl_VertexsNumInShard demo_clpa = [3, 1]"
  "cl_PartitionMap demo_clpa = [(''a'', 0), (''b'', 0), (''c'', 0), (''d'', 1)]"
  by (simp_all add: demo_clpa_tallied) (simp_all add: demo_base_def)

lemma demo_clpa_range: "in_range demo_clpa"
  by (simp add: in_range_def demo_graph_edges shard_at_def demo_clpa_fields)

lemma demo_clpa_computed: "ComputeEdges2Shard demo_clpa = Some demo_clpa"
  using ComputeEdges2Shard_tallied[OF _ demo_clpa_range]
  by (simp add: demo_clpa_fields demo_graph_wf) (simp add: demo_clpa_tallied)

theorem changeShardRecompute_correct_witness:
  "changeShardRecompute ''c'' 0 (set_shard ''c'' 1 demo_clpa) = ComputeEdges2Shard (set_shard ''c'' 1 demo_clpa)
   \<and> ComputeEdges2Shard (set_shard ''c'' 1 demo_clpa) \<noteq> None"
proof -
  have "shard_at demo_clpa ''c'' = 0" by (simp add: shard_at_def demo_clpa_fields)
  moreover have "in_range (set_shard ''c'' 1 demo_clpa)"
    by (rule in_range_set_shard) (simp_all add: demo_clpa_fields demo_clpa_range)
  ultimately show ?thesis
    using changeShardRecompute_correct[of demo_clpa "''c''" 1] ComputeEdges2Shard_tallied[of "set_shard ''c'' 1 demo_clpa"]
    by (simp add: demo_clpa_fields demo_clpa_range demo_clpa_computed demo_graph_wf demo_graph_edges)
qed

end
