(* ===== verification/Clpa_Partition.thy ===== *)
theory Clpa_Partition
  imports Clpa_Tally
begin

text \<open>
  The partition algorithms of \<^verbatim>\<open>partition/partition_CLPA.go\<close>: CLPA and its ContribChain variant. Each
  iteration visits the vertices in the order in which Go ranges over the vertex set, which may be
  different every time: \<open>ord i\<close> is the order of iteration \<open>i\<close>. The functions return the map of moved
  accounts, the number of cross-shard edges and the new state. The common shape of the two
  algorithms is the locale \<open>label_propagation\<close>.
\<close>

section \<open>CLPA\<close>

definition edges_to_shard :: "CLPAState \<Rightarrow> Vertex \<Rightarrow> int \<Rightarrow> int" where
  "edges_to_shard cs v uShard =
     foldl (\<lambda>n item. if shard_at cs item = uShard then n + 1 else n) 0 (edges_of (cl_NetGraph cs) v)"

definition getShard_score :: "CLPAState \<Rightarrow> Vertex \<Rightarrow> int \<Rightarrow> f64 option" where
  "getShard_score cs v uShard =
     (let v_outdegree = int (length (edges_of (cl_NetGraph cs) v));
          Edgesto_uShard = edges_to_shard cs v uShard
      in do { e \<leftarrow> slice_get (cl_Edges2Shard cs) uShard;
              Some (float64 Edgesto_uShard / float64 v_outdegree
                    * (f64_one - cl_WeightPenalty cs * float64 e / float64 (cl_MinEdges2Shard cs))) })"

text \<open>The loop over the neighbours: each neighbouring shard is scored once and the first best one is kept.\<close>

definition best_neighbor_step ::
    "(int \<Rightarrow> f64 option) \<Rightarrow> CLPAState \<Rightarrow> int list \<times> f64 \<times> int \<Rightarrow> Vertex \<Rightarrow> (int list \<times> f64 \<times> int) option" where
  "best_neighbor_step score cs = (\<lambda>(computed, max_score, max_scoreShard) u.
     let uShard = shard_at cs u
     in if uShard \<in> set computed then Some (computed, max_score, max_scoreShard)
        else do { sc \<leftarrow> score uShard;
                  Some (if max_score < sc then (uShard # computed, sc, uShard)
                        else (uShard # computed, max_score, max_scoreShard)) })"

definition best_neighbor_shard :: "(int \<Rightarrow> f64 option) \<Rightarrow> CLPAState \<Rightarrow> Vertex \<Rightarrow> int option" where
  "best_neighbor_shard score cs v =
     map_option (snd \<circ> snd)
       (foldlM (best_neighbor_step score cs) ([], float64 (- 9999), shard_at cs v) (edges_of (cl_NetGraph cs) v))"

type_synonym clpa_run = "CLPAState \<times> (address \<times> u64) list \<times> (address \<Rightarrow> int)"

definition clpa_visit :: "clpa_run \<Rightarrow> Vertex \<Rightarrow> clpa_run option" where
  "clpa_visit = (\<lambda>(cs, res, updateTreshold) v.
     if updateTreshold v \<ge> 50 then Some (cs, res, updateTreshold)
     else do {
       max_scoreShard \<leftarrow> best_neighbor_shard (getShard_score cs v) cs v;
       let vNowShard = shard_at cs v;
       if vNowShard = max_scoreShard then Some (cs, res, updateTreshold)
       else do {
         n \<leftarrow> slice_get (cl_VertexsNumInShard cs) vNowShard;
         if \<not> n > 1 then Some (cs, res, updateTreshold)
         else do {
           let cs = set_shard v max_scoreShard cs;
           nums \<leftarrow> bump (cl_VertexsNumInShard cs) vNowShard (\<lambda>n. n - 1);
           nums \<leftarrow> bump nums max_scoreShard (\<lambda>n. n + 1);
           cs \<leftarrow> changeShardRecompute v vNowShard (cs\<lparr>cl_VertexsNumInShard := nums\<rparr>);
           Some (cs, AList.update v (of_int max_scoreShard) res, updateTreshold(v := updateTreshold v + 1)) } } })"

definition CLPA_Partition ::
    "(nat \<Rightarrow> Vertex list) \<Rightarrow> CLPAState \<Rightarrow> ((address \<times> u64) list \<times> int \<times> CLPAState) option" where
  "CLPA_Partition ord cs =
     do { cs \<leftarrow> ComputeEdges2Shard cs;
          (cs, res, _) \<leftarrow> foldlM (\<lambda>s iter. foldlM clpa_visit s (ord iter)) (cs, [], \<lambda>_. 0)
                             [0..<nat (cl_MaxIterations cs)];
          cs \<leftarrow> ComputeEdges2Shard cs;
          Some (res, cl_CrossShardEdgeNum cs, cs) }"

section \<open>ContribChain\<close>

definition EnableContribChain :: "f64 \<Rightarrow> CLPAState \<Rightarrow> CLPAState option" where
  "EnableContribChain contribWeight cs =
     do { contrib \<leftarrow> make_slice (cl_ShardNum cs) f64_zero;
          Some (cs\<lparr>cl_EnableContrib := True, cl_ContribWeight := contribWeight,
                   cl_ContribCalculator := Some NewContributionCalculator,
                   cl_ContribInShard := contrib, cl_IncentivePool := []\<rparr>) }"

definition ComputeContribInShard :: "CLPAState \<Rightarrow> CLPAState option" where
  "ComputeContribInShard cs =
     (case cl_ContribCalculator cs of
        None \<Rightarrow> Some cs
      | Some cc \<Rightarrow>
          if \<not> cl_EnableContrib cs then Some cs
          else do { zero \<leftarrow> make_slice (cl_ShardNum cs) f64_zero;
                    contrib \<leftarrow> foldlM (\<lambda>l (v, shard). bump l shard (\<lambda>c. c + Calc_GetContribution cc v)) zero (cl_PartitionMap cs);
                    Some (cs\<lparr>cl_ContribInShard := contrib\<rparr>) })"

definition getShard_score_Contrib :: "CLPAState \<Rightarrow> Vertex \<Rightarrow> int \<Rightarrow> f64 option" where
  "getShard_score_Contrib cs v uShard =
     (let v_outdegree = int (length (edges_of (cl_NetGraph cs) v))
      in if v_outdegree = 0 then Some f64_zero
         else do {
           let Edgesto_uShard = edges_to_shard cs v uShard;
           e \<leftarrow> slice_get (cl_Edges2Shard cs) uShard;
           let baseScore = float64 Edgesto_uShard / float64 v_outdegree
                           * (f64_one - cl_WeightPenalty cs * float64 e / float64 (cl_MinEdges2Shard cs));
           cc \<leftarrow> cl_ContribCalculator cs;
           let vContrib = Calc_GetContribution cc v;
           shardNodeCount \<leftarrow> slice_get (cl_VertexsNumInShard cs) uShard;
           let shardNodeCount = (if shardNodeCount = 0 then 1 else shardNodeCount);
           c \<leftarrow> slice_get (cl_ContribInShard cs) uShard;
           let avgContrib = c / float64 shardNodeCount;
           let contribFactor = (if avgContrib > f64_zero \<and> vContrib > avgContrib
                                then f64_one + cl_ContribWeight cs * (vContrib / avgContrib - f64_one) else f64_one);
           Some (baseScore * contribFactor) })"

type_synonym contrib_run = "CLPAState \<times> (address \<times> u64) list \<times> (address \<Rightarrow> int) \<times> bool"

definition contrib_visit :: "contrib_run \<Rightarrow> Vertex \<Rightarrow> contrib_run option" where
  "contrib_visit = (\<lambda>(cs, res, updateThreshold, moved) v.
     if updateThreshold v \<ge> 50 then Some (cs, res, updateThreshold, moved)
     else do {
       max_scoreShard \<leftarrow> best_neighbor_shard (getShard_score_Contrib cs v) cs v;
       let vNowShard = shard_at cs v;
       if vNowShard = max_scoreShard then Some (cs, res, updateThreshold, moved)
       else do {
         n \<leftarrow> slice_get (cl_VertexsNumInShard cs) vNowShard;
         if \<not> n > 1 then Some (cs, res, updateThreshold, moved)
         else do {
           cc \<leftarrow> cl_ContribCalculator cs;
           let vContrib = Calc_GetContribution cc v;
           contrib \<leftarrow> bump (cl_ContribInShard cs) vNowShard (\<lambda>c. c - vContrib);
           contrib \<leftarrow> bump contrib max_scoreShard (\<lambda>c. c + vContrib);
           let cs = set_shard v max_scoreShard (cs\<lparr>cl_ContribInShard := contrib\<rparr>);
           nums \<leftarrow> bump (cl_VertexsNumInShard cs) vNowShard (\<lambda>n. n - 1);
           nums \<leftarrow> bump nums max_scoreShard (\<lambda>n. n + 1);
           cs \<leftarrow> changeShardRecompute v vNowShard (cs\<lparr>cl_VertexsNumInShard := nums\<rparr>);
           Some (cs, AList.update v (of_int max_scoreShard) res, updateThreshold(v := updateThreshold v + 1), True) } } })"

text \<open>\<open>contrib_iterations ord n i\<close> runs the iterations from \<open>i\<close> on, \<open>n\<close> at most, until one moves nothing.\<close>

primrec contrib_iterations :: "(nat \<Rightarrow> Vertex list) \<Rightarrow> nat \<Rightarrow> nat \<Rightarrow> contrib_run \<Rightarrow> contrib_run option" where
  "contrib_iterations ord 0 iter s = Some s"
| "contrib_iterations ord (Suc n) iter s =
     do { let (cs, res, updateThreshold, _) = s;
          (cs, res, updateThreshold, moved) \<leftarrow> foldlM contrib_visit (cs, res, updateThreshold, False) (ord iter);
          if \<not> moved then Some (cs, res, updateThreshold, moved)
          else contrib_iterations ord n (Suc iter) (cs, res, updateThreshold, moved) }"

text \<open>The statistics at the end index the contributions by shard: there must be one for each.\<close>

definition ContribChain_Partition ::
    "(nat \<Rightarrow> Vertex list) \<Rightarrow> CLPAState \<Rightarrow> ((address \<times> u64) list \<times> int \<times> CLPAState) option" where
  "ContribChain_Partition ord cs =
     do { cc \<leftarrow> cl_ContribCalculator cs;
          let cs = cs\<lparr>cl_ContribCalculator := Some (CalculateAllContributions cc)\<rparr>;
          cs \<leftarrow> ComputeEdges2Shard cs;
          cs \<leftarrow> ComputeContribInShard cs;
          (cs, res, _) \<leftarrow> contrib_iterations ord (nat (cl_MaxIterations cs)) 0 (cs, [], \<lambda>_. 0, False);
          _ \<leftarrow> (if length (cl_ContribInShard cs) < length (cl_VertexsNumInShard cs) then None else Some ());
          cs \<leftarrow> ComputeEdges2Shard cs;
          Some (res, cl_CrossShardEdgeNum cs, cs) }"

text \<open>The reward map is \<^const>\<open>None\<close> (nil) when contributions are disabled or sum up to zero.\<close>

definition CalculateIncentives :: "f64 \<Rightarrow> CLPAState \<Rightarrow> (address \<rightharpoonup> f64) option \<times> CLPAState" where
  "CalculateIncentives totalReward cs =
     (case cl_ContribCalculator cs of
        None \<Rightarrow> (None, cs)
      | Some cc \<Rightarrow>
          if \<not> cl_EnableContrib cs then (None, cs)
          else let totalContrib = foldl (\<lambda>total (v, metrics). total + cm_TotalContribution metrics) f64_zero (cc_Contributions cc)
               in if eq64 totalContrib f64_zero then (None, cs)
                  else let reward = (\<lambda>metrics. (cm_TotalContribution metrics / totalContrib) * totalReward);
                           (incentives, pool) =
                             foldl (\<lambda>(incentives, pool) (v, metrics).
                                      (incentives(v \<mapsto> reward metrics), AList.update v (reward metrics) pool))
                               (Map.empty, cl_IncentivePool cs) (cc_Contributions cc)
                       in (Some incentives, cs\<lparr>cl_IncentivePool := pool\<rparr>))"

definition CLPA_GetTopContributors :: "int \<Rightarrow> CLPAState \<Rightarrow> Vertex list option" where
  "CLPA_GetTopContributors k cs =
     (case cl_ContribCalculator cs of
        None \<Rightarrow> Some []
      | Some cc \<Rightarrow> if \<not> cl_EnableContrib cs then Some [] else Calc_GetTopContributors k cc)"

definition GetNodeContribution :: "CLPAState \<Rightarrow> address \<Rightarrow> f64" where
  "GetNodeContribution cs addr =
     (case cl_ContribCalculator cs of
        None \<Rightarrow> f64_zero
      | Some cc \<Rightarrow> if \<not> cl_EnableContrib cs then f64_zero
                   else if addr \<in> vertices cs then Calc_GetContribution cc addr else f64_zero)"

end
