(* ===== verification/Clpa_Correct.thy ===== *)
theory Clpa_Correct
  imports Clpa_Partition
begin

text \<open>
  Correctness of the label propagation algorithms. \<open>part_wf\<close> is the invariant of the partition state;
  the locale \<open>label_propagation\<close> says what a visit to a vertex may do (nothing, or a move to the shard
  of a neighbour out of a shard with other vertices), and proves once what every sequence of visits
  keeps. It is interpreted on the visits of CLPA and of ContribChain.
\<close>

section \<open>The invariant of the partition state\<close>

text \<open>Every vertex has a shard, and the vertex counts are the sizes of the shards.\<close>

definition part_wf :: "CLPAState \<Rightarrow> bool" where
  "part_wf cs \<longleftrightarrow> graph_wf (cl_NetGraph cs) \<and> in_range cs
     \<and> length (cl_VertexsNumInShard cs) = nat (cl_ShardNum cs)
     \<and> (\<forall>k < nat (cl_ShardNum cs). cl_VertexsNumInShard cs ! k = int (card {v \<in> vertices cs. shard_at cs v = int k}))"

lemma part_wf_shard: "part_wf cs \<Longrightarrow> v \<in> vertices cs \<Longrightarrow> 0 \<le> shard_at cs v \<and> shard_at cs v < cl_ShardNum cs"
  by (simp add: part_wf_def in_range_def)

lemma part_wf_tallied: "part_wf cs \<Longrightarrow> ComputeEdges2Shard cs = Some (tallied cs) \<and> part_wf (tallied cs)"
  by (simp add: part_wf_def ComputeEdges2Shard_tallied in_range_def)

lemma length_tallied: "length (cl_Edges2Shard (tallied cs)) = nat (cl_ShardNum cs)"
  by (simp add: tallied_def Let_def)

lemma card_shard_move:
  assumes "finite V" and "v \<in> V" and "p v = old" and "new \<noteq> old"
  shows "int (card {w \<in> V. (p(v := new)) w = k}) =
    int (card {w \<in> V. p w = k}) + (if k = new then 1 else 0) - (if k = old then 1 else 0)"
proof -
  consider "k = new" | "k = old" | "k \<noteq> new" "k \<noteq> old" by blast
  then show ?thesis
  proof cases
    case 1
    then have "{w \<in> V. (p(v := new)) w = k} = insert v {w \<in> V. p w = k}" "v \<notin> {w \<in> V. p w = k}"
      using assms by auto
    with 1 assms show ?thesis by simp
  next
    case 2
    have v: "v \<in> {w \<in> V. p w = k}" "finite {w \<in> V. p w = k}" using 2 assms by auto
    have "{w \<in> V. (p(v := new)) w = k} = {w \<in> V. p w = k} - {v}" using 2 assms by auto
    then have "card {w \<in> V. p w = k} = Suc (card {w \<in> V. (p(v := new)) w = k})"
      using card_Suc_Diff1[OF v(2,1)] by simp
    with 2 assms(4) show ?thesis by simp
  next
    case 3
    then have "{w \<in> V. (p(v := new)) w = k} = {w \<in> V. p w = k}" using assms by auto
    with 3 show ?thesis by simp
  qed
qed

section \<open>One move\<close>

text \<open>\<open>moves cs v k cs'\<close>: the vertex \<open>v\<close> leaves a shard with other vertices for the shard \<open>k\<close> of a neighbour.\<close>

definition moves :: "CLPAState \<Rightarrow> Vertex \<Rightarrow> int \<Rightarrow> CLPAState \<Rightarrow> bool" where
  "moves cs v k cs' \<longleftrightarrow>
     k \<noteq> shard_at cs v \<and> k \<in> shard_at cs ` set (edges_of (cl_NetGraph cs) v)
     \<and> cl_VertexsNumInShard cs ! nat (shard_at cs v) > 1
     \<and> cl_NetGraph cs' = cl_NetGraph cs \<and> cl_ShardNum cs' = cl_ShardNum cs
     \<and> shard_at cs' = (shard_at cs)(v := k)
     \<and> length (cl_VertexsNumInShard cs') = length (cl_VertexsNumInShard cs)
     \<and> (\<forall>i < length (cl_VertexsNumInShard cs). cl_VertexsNumInShard cs' ! i =
          cl_VertexsNumInShard cs ! i + (if int i = k then 1 else 0) - (if int i = shard_at cs v then 1 else 0))"

lemma moves_shard:
  assumes "part_wf cs" and "moves cs v k cs'"
  shows "0 \<le> k \<and> k < cl_ShardNum cs"
proof -
  obtain u where "u \<in> set (edges_of (cl_NetGraph cs) v)" "shard_at cs u = k" using assms(2) by (auto simp: moves_def)
  moreover have "graph_wf (cl_NetGraph cs)" using assms(1) by (simp add: part_wf_def)
  ultimately show ?thesis using part_wf_shard[OF assms(1)] edges_of_vertices by blast
qed

lemma moves_part_wf:
  assumes wf: "part_wf cs" and v: "v \<in> vertices cs" and mv: "moves cs v k cs'"
  shows "part_wf cs'"
proof -
  note k = moves_shard[OF wf mv]
  have net: "cl_NetGraph cs' = cl_NetGraph cs" "cl_ShardNum cs' = cl_ShardNum cs" "shard_at cs' = (shard_at cs)(v := k)"
    and ne: "k \<noteq> shard_at cs v" using mv by (auto simp: moves_def)
  have "cl_VertexsNumInShard cs' ! i = int (card {w \<in> vertices cs'. shard_at cs' w = int i})"
    if i: "i < nat (cl_ShardNum cs)" for i
  proof -
    have "cl_VertexsNumInShard cs ! i = int (card {w \<in> vertices cs. shard_at cs w = int i})"
      using wf i by (simp add: part_wf_def)
    moreover have "cl_VertexsNumInShard cs' ! i =
        cl_VertexsNumInShard cs ! i + (if int i = k then 1 else 0) - (if int i = shard_at cs v then 1 else 0)"
      using mv wf i by (simp add: moves_def part_wf_def)
    ultimately show ?thesis
      unfolding net using card_shard_move[of "vertices cs" v "shard_at cs" "shard_at cs v" k "int i"] v ne by simp
  qed
  moreover have "in_range cs'" using wf k by (auto simp: part_wf_def in_range_def net)
  moreover have "length (cl_VertexsNumInShard cs') = nat (cl_ShardNum cs)" using mv wf by (simp add: moves_def part_wf_def)
  ultimately show ?thesis using wf by (simp add: part_wf_def net)
qed

text \<open>A move empties no shard.\<close>

lemma moves_inhabited:
  assumes wf: "part_wf cs" and v: "v \<in> vertices cs" and mv: "moves cs v k cs'" and "w \<in> vertices cs"
  shows "\<exists>u \<in> vertices cs. shard_at cs' u = shard_at cs w"
proof (cases "shard_at cs w = shard_at cs v")
  case False
  then have "w \<noteq> v" by auto
  with mv assms(4) show ?thesis by (intro bexI[of _ w]) (simp_all add: moves_def)
next
  case True
  let ?S = "{u \<in> vertices cs. shard_at cs u = shard_at cs v}"
  have "nat (shard_at cs v) < nat (cl_ShardNum cs)" "0 \<le> shard_at cs v" using part_wf_shard[OF wf v] by auto
  then have "cl_VertexsNumInShard cs ! nat (shard_at cs v) = int (card ?S)" using wf by (simp add: part_wf_def)
  then have "1 < card ?S" using mv by (simp add: moves_def)
  then have "\<not> ?S \<subseteq> {v}" using card_mono[of "{v}" ?S] by auto
  then show ?thesis using mv True by (auto simp: moves_def)
qed

section \<open>Sequences of visits\<close>

text \<open>
  \<open>progress cs0 cs res\<close>: from the partition of \<open>cs0\<close> the algorithm has come to that of \<open>cs\<close>, \<open>res\<close> records
  exactly the difference, and no shard has been emptied.
\<close>

definition progress :: "CLPAState \<Rightarrow> CLPAState \<Rightarrow> (address \<rightharpoonup> u64) \<Rightarrow> bool" where
  "progress cs0 cs res \<longleftrightarrow> part_wf cs \<and> cl_NetGraph cs = cl_NetGraph cs0 \<and> cl_ShardNum cs = cl_ShardNum cs0
     \<and> dom res \<subseteq> vertices cs0
     \<and> (\<forall>v. case res v of None \<Rightarrow> shard_at cs v = shard_at cs0 v | Some s \<Rightarrow> s = of_int (shard_at cs v))
     \<and> (\<forall>w \<in> vertices cs0. \<exists>u \<in> vertices cs0. shard_at cs u = shard_at cs0 w)"

lemma progress_refl: "part_wf cs \<Longrightarrow> progress cs cs Map.empty"
  by (auto simp: progress_def)

lemma progress_move:
  assumes pr: "progress cs0 cs res" and v: "v \<in> vertices cs0" and mv: "moves cs v k cs'"
  shows "progress cs0 cs' (res(v \<mapsto> of_int k))"
proof -
  have wf: "part_wf cs" and net: "cl_NetGraph cs = cl_NetGraph cs0" "cl_ShardNum cs = cl_ShardNum cs0"
    using pr by (auto simp: progress_def)
  have v': "v \<in> vertices cs" using v net by simp
  have net': "cl_NetGraph cs' = cl_NetGraph cs0" "cl_ShardNum cs' = cl_ShardNum cs0" "shard_at cs' = (shard_at cs)(v := k)"
    using mv net by (auto simp: moves_def)
  have "\<exists>u \<in> vertices cs0. shard_at cs' u = shard_at cs0 w" if w: "w \<in> vertices cs0" for w
  proof -
    obtain u where "u \<in> vertices cs" "shard_at cs u = shard_at cs0 w" using pr w net by (auto simp: progress_def)
    with moves_inhabited[OF wf v' mv] net show ?thesis by metis
  qed
  moreover have "case (res(v \<mapsto> of_int k)) w of None \<Rightarrow> shard_at cs' w = shard_at cs0 w | Some s \<Rightarrow> s = of_int (shard_at cs' w)" for w
  proof -
    have "case res w of None \<Rightarrow> shard_at cs w = shard_at cs0 w | Some s \<Rightarrow> s = of_int (shard_at cs w)"
      using pr unfolding progress_def by blast
    then show ?thesis by (cases "w = v") (simp_all add: net'(3) split: option.splits)
  qed
  moreover have "dom (res(v \<mapsto> of_int k)) \<subseteq> vertices cs0" using pr v by (simp add: progress_def)
  ultimately show ?thesis using moves_part_wf[OF wf v' mv] net' unfolding progress_def by blast
qed

text \<open>
  The contract of a visit, for a run whose state and record of moves are read by \<open>state\<close> and \<open>recd\<close>:
  it never panics in a run that is \<open>ready\<close>, and either changes nothing or moves the visited vertex.
\<close>

locale label_propagation =
  fixes visit :: "'s \<Rightarrow> Vertex \<Rightarrow> 's option"
    and state :: "'s \<Rightarrow> CLPAState" and recd :: "'s \<Rightarrow> (address \<rightharpoonup> u64)" and ready :: "'s \<Rightarrow> bool"
  assumes ready_wf: "ready s \<Longrightarrow> part_wf (state s)"
    and visit_law: "ready s \<Longrightarrow> v \<in> vertices (state s) \<Longrightarrow>
      \<exists>s'. visit s v = Some s' \<and> ready s' \<and>
        (state s' = state s \<and> recd s' = recd s
         \<or> (\<exists>k. moves (state s) v k (state s') \<and> recd s' = (recd s)(v \<mapsto> of_int k)))"
begin

definition good :: "CLPAState \<Rightarrow> 's \<Rightarrow> bool" where
  "good cs0 s \<longleftrightarrow> ready s \<and> progress cs0 (state s) (recd s)"

lemma good_visit:
  assumes "good cs0 s" and "v \<in> vertices cs0"
  shows "\<exists>s'. visit s v = Some s' \<and> good cs0 s'"
proof -
  have "v \<in> vertices (state s)" "ready s" and pr: "progress cs0 (state s) (recd s)"
    using assms by (auto simp: good_def progress_def)
  then obtain s' where s': "visit s v = Some s'" "ready s'"
    "state s' = state s \<and> recd s' = recd s
         \<or> (\<exists>k. moves (state s) v k (state s') \<and> recd s' = (recd s)(v \<mapsto> of_int k))"
    using visit_law by blast
  then have "progress cs0 (state s') (recd s')"
    using pr progress_move[OF pr assms(2)] by metis
  with s' show ?thesis by (auto simp: good_def)
qed

lemma good_visits:
  assumes "good cs0 s" and "set vs \<subseteq> vertices cs0"
  shows "\<exists>s'. foldlM visit s vs = Some s' \<and> good cs0 s'"
  using assms by (intro foldlM_total good_visit) auto

lemma good_iterations:
  assumes "good cs0 s" and "\<forall>i. set (ord i) \<subseteq> vertices cs0"
  shows "\<exists>s'. foldlM (\<lambda>s i. foldlM visit s (ord i)) s is = Some s' \<and> good cs0 s'"
  using assms by (intro foldlM_total good_visits) auto

end

section \<open>The visits of the two algorithms\<close>

lemma best_neighbor_total:
  assumes "\<forall>u \<in> set (edges_of (cl_NetGraph cs) v). score (shard_at cs u) \<noteq> None"
  shows "\<exists>k. best_neighbor_shard score cs v = Some k
    \<and> (k = shard_at cs v \<or> k \<in> shard_at cs ` set (edges_of (cl_NetGraph cs) v))"
proof -
  let ?P = "\<lambda>(computed :: int list, m :: f64, k). k = shard_at cs v \<or> k \<in> shard_at cs ` set (edges_of (cl_NetGraph cs) v)"
  have "\<exists>a. foldlM (best_neighbor_step score cs) ([], float64 (- 9999), shard_at cs v) (edges_of (cl_NetGraph cs) v) = Some a \<and> ?P a"
  proof (rule foldlM_total)
    fix a u
    assume u: "u \<in> set (edges_of (cl_NetGraph cs) v)" and "?P a"
    moreover obtain sc where "score (shard_at cs u) = Some sc" using assms u by auto
    ultimately show "\<exists>a'. best_neighbor_step score cs a u = Some a' \<and> ?P a'"
      by (cases a) (auto simp: best_neighbor_step_def Let_def)
  qed simp
  then show ?thesis by (auto simp: best_neighbor_shard_def)
qed

text \<open>Everything a visit needs to move a vertex: all tables have one entry per shard.\<close>

lemma changeShardRecompute_total:
  assumes "length (cl_Edges2Shard cs) = n" "0 \<le> old" "nat old < n" "0 \<le> shard_at cs v" "nat (shard_at cs v) < n" "shard_at cs v \<noteq> old"
  shows "\<exists>es cross. changeShardRecompute v old cs =
    Some (cs\<lparr>cl_Edges2Shard := es, cl_CrossShardEdgeNum := cross, cl_MinEdges2Shard := min_edges es\<rparr>) \<and> length es = n"
proof -
  obtain es cross where "foldlM (recompute_edge cs (shard_at cs v) old) (cl_Edges2Shard cs, cl_CrossShardEdgeNum cs)
      (edges_of (cl_NetGraph cs) v) = Some (es, cross)" "length es = n"
    using recompute_result[OF assms(4,5,2,3,6,1)] by simp
  then show ?thesis by (auto simp: changeShardRecompute_def)
qed

definition clpa_ready :: "CLPAState \<Rightarrow> bool" where
  "clpa_ready cs \<longleftrightarrow> part_wf cs \<and> length (cl_Edges2Shard cs) = nat (cl_ShardNum cs)"

definition contrib_ready :: "CLPAState \<Rightarrow> bool" where
  "contrib_ready cs \<longleftrightarrow> clpa_ready cs \<and> cl_ContribCalculator cs \<noteq> None \<and> length (cl_ContribInShard cs) = nat (cl_ShardNum cs)"

text \<open>The part of the two visits that follows the choice of the best shard.\<close>

lemma move_spec:
  assumes rd: "clpa_ready cs" and v: "v \<in> vertices cs"
    and k: "k \<noteq> shard_at cs v" "k \<in> shard_at cs ` set (edges_of (cl_NetGraph cs) v)"
    and n: "1 < cl_VertexsNumInShard cs ! nat (shard_at cs v)"
    and c: "length contrib = length (cl_ContribInShard cs)"
  defines "nums \<equiv> cl_VertexsNumInShard cs" and "old \<equiv> shard_at cs v"
  shows "\<exists>nums1 nums2 cs'. bump nums old (\<lambda>n. n - 1) = Some nums1 \<and> bump nums1 k (\<lambda>n. n + 1) = Some nums2
     \<and> changeShardRecompute v old (set_shard v k (cs\<lparr>cl_ContribInShard := contrib\<rparr>)\<lparr>cl_VertexsNumInShard := nums2\<rparr>) = Some cs'
     \<and> moves cs v k cs' \<and> length (cl_Edges2Shard cs') = nat (cl_ShardNum cs')
     \<and> cl_ContribCalculator cs' = cl_ContribCalculator cs \<and> cl_ContribInShard cs' = contrib"
proof -
  have wf: "part_wf cs" and len: "length (cl_Edges2Shard cs) = nat (cl_ShardNum cs)" "length nums = nat (cl_ShardNum cs)"
    using rd by (auto simp: clpa_ready_def part_wf_def nums_def)
  have old: "0 \<le> old" "nat old < nat (cl_ShardNum cs)" using part_wf_shard[OF wf v] by (auto simp: old_def)
  obtain u where "u \<in> set (edges_of (cl_NetGraph cs) v)" "k = shard_at cs u" using k(2) by auto
  then have k0: "0 \<le> k" "nat k < nat (cl_ShardNum cs)"
    using part_wf_shard[OF wf, of u] edges_of_vertices[of "cl_NetGraph cs" u v] wf by (auto simp: part_wf_def)
  define nums1 where "nums1 = nums[nat old := nums ! nat old - 1]"
  define nums2 where "nums2 = nums1[nat k := nums1 ! nat k + 1]"
  define cs1 where "cs1 = set_shard v k (cs\<lparr>cl_ContribInShard := contrib\<rparr>)\<lparr>cl_VertexsNumInShard := nums2\<rparr>"
  have f: "shard_at cs1 = (shard_at cs)(v := k)" "cl_NetGraph cs1 = cl_NetGraph cs" "cl_ShardNum cs1 = cl_ShardNum cs"
    "cl_Edges2Shard cs1 = cl_Edges2Shard cs" "cl_VertexsNumInShard cs1 = nums2"
    "cl_ContribCalculator cs1 = cl_ContribCalculator cs" "cl_ContribInShard cs1 = contrib"
    by (simp_all add: cs1_def)
  obtain es cross where ch: "changeShardRecompute v old cs1 =
      Some (cs1\<lparr>cl_Edges2Shard := es, cl_CrossShardEdgeNum := cross, cl_MinEdges2Shard := min_edges es\<rparr>)"
      "length es = nat (cl_ShardNum cs)"
    using changeShardRecompute_total[of cs1 "nat (cl_ShardNum cs)" old v] old k0 k(1) len by (auto simp: f old_def)
  have "bump nums old (\<lambda>n. n - 1) = Some nums1" "bump nums1 k (\<lambda>n. n + 1) = Some nums2"
    using old k0 len by (simp_all add: nums1_def nums2_def)
  moreover have "moves cs v k (cs1\<lparr>cl_Edges2Shard := es, cl_CrossShardEdgeNum := cross, cl_MinEdges2Shard := min_edges es\<rparr>)"
    using k n len old k0 unfolding moves_def
    by (auto simp: f nums2_def nums1_def nth_list_update old_def nums_def)
  ultimately show ?thesis
    using ch
    by - (rule exI[of _ nums1], rule exI[of _ nums2],
      rule exI[of _ "cs1\<lparr>cl_Edges2Shard := es, cl_CrossShardEdgeNum := cross, cl_MinEdges2Shard := min_edges es\<rparr>"],
      simp add: f flip: cs1_def)
qed

lemma moves_ready: "clpa_ready cs \<Longrightarrow> v \<in> vertices cs \<Longrightarrow> moves cs v k cs' \<Longrightarrow>
    length (cl_Edges2Shard cs') = nat (cl_ShardNum cs') \<Longrightarrow> clpa_ready cs'"
  using moves_part_wf by (auto simp: clpa_ready_def)

lemma neighbor_in_range:
  assumes "clpa_ready cs" and "u \<in> set (edges_of (cl_NetGraph cs) v)"
  shows "0 \<le> shard_at cs u" "nat (shard_at cs u) < nat (cl_ShardNum cs)"
  using assms part_wf_shard[of cs u] edges_of_vertices[of "cl_NetGraph cs" u v]
  by (auto simp: clpa_ready_def part_wf_def)

lemma clpa_visit_law:
  assumes rd: "clpa_ready cs" and v: "v \<in> vertices cs"
  shows "\<exists>cs' res' thr'. clpa_visit (cs, res, thr) v = Some (cs', res', thr') \<and> clpa_ready cs'
    \<and> (cs' = cs \<and> res' = res \<or> (\<exists>k. moves cs v k cs' \<and> res' = AList.update v (of_int k) res))"
proof -
  have "getShard_score cs v (shard_at cs u) \<noteq> None" if "u \<in> set (edges_of (cl_NetGraph cs) v)" for u
    using neighbor_in_range[OF rd that] rd by (simp add: getShard_score_def clpa_ready_def)
  then obtain k where k: "best_neighbor_shard (getShard_score cs v) cs v = Some k"
    "k = shard_at cs v \<or> k \<in> shard_at cs ` set (edges_of (cl_NetGraph cs) v)"
    using best_neighbor_total[of cs v "getShard_score cs v"] by blast
  have n: "slice_get (cl_VertexsNumInShard cs) (shard_at cs v) = Some (cl_VertexsNumInShard cs ! nat (shard_at cs v))"
    using part_wf_shard[of cs v] rd v by (auto simp: clpa_ready_def part_wf_def slice_get_def)
  show ?thesis
  proof (cases "thr v \<ge> 50 \<or> k = shard_at cs v \<or> \<not> cl_VertexsNumInShard cs ! nat (shard_at cs v) > 1")
    case True
    then have "clpa_visit (cs, res, thr) v = Some (cs, res, thr)" using k n by (auto simp: clpa_visit_def Let_def)
    with rd show ?thesis by blast
  next
    case False
    with k(2) obtain nums1 nums2 cs' where m: "bump (cl_VertexsNumInShard cs) (shard_at cs v) (\<lambda>n. n - 1) = Some nums1"
      "bump nums1 k (\<lambda>n. n + 1) = Some nums2"
      "changeShardRecompute v (shard_at cs v) (set_shard v k cs\<lparr>cl_VertexsNumInShard := nums2\<rparr>) = Some cs'"
      "moves cs v k cs'" "length (cl_Edges2Shard cs') = nat (cl_ShardNum cs')"
      using move_spec[OF rd v, of k "cl_ContribInShard cs"] by auto
    then have "clpa_visit (cs, res, thr) v = Some (cs', AList.update v (of_int k) res, thr(v := thr v + 1))"
      using False k(1) n by (simp add: clpa_visit_def Let_def)
    with m(4) moves_ready[OF rd v m(4,5)] show ?thesis by blast
  qed
qed

interpretation clpa: label_propagation clpa_visit fst "\<lambda>s. map_of (fst (snd s))" "\<lambda>s. clpa_ready (fst s)"
proof
  show "\<exists>s'. clpa_visit s v = Some s' \<and> clpa_ready (fst s') \<and>
      (fst s' = fst s \<and> map_of (fst (snd s')) = map_of (fst (snd s))
       \<or> (\<exists>k. moves (fst s) v k (fst s') \<and> map_of (fst (snd s')) = (map_of (fst (snd s)))(v \<mapsto> of_int k)))"
    if s: "clpa_ready (fst s)" "v \<in> vertices (fst s)" for s v
  proof -
    obtain cs res thr where "s = (cs, res, thr)" by (cases s)
    with s clpa_visit_law[of cs v res thr] show ?thesis by (fastforce simp: update_conv')
  qed
qed (simp add: clpa_ready_def)

lemma contrib_visit_law:
  assumes rd: "contrib_ready cs" and v: "v \<in> vertices cs"
  shows "\<exists>cs' res' thr' moved'. contrib_visit (cs, res, thr, moved) v = Some (cs', res', thr', moved') \<and> contrib_ready cs'
    \<and> (cs' = cs \<and> res' = res \<or> (\<exists>k. moves cs v k cs' \<and> res' = AList.update v (of_int k) res))"
proof -
  have cl: "clpa_ready cs" and lc: "length (cl_ContribInShard cs) = nat (cl_ShardNum cs)" using rd by (auto simp: contrib_ready_def)
  obtain cc where cc: "cl_ContribCalculator cs = Some cc" using rd by (auto simp: contrib_ready_def)
  have ln: "length (cl_VertexsNumInShard cs) = nat (cl_ShardNum cs)" "length (cl_Edges2Shard cs) = nat (cl_ShardNum cs)"
    using cl by (auto simp: clpa_ready_def part_wf_def)
  have old: "0 \<le> shard_at cs v" "nat (shard_at cs v) < nat (cl_ShardNum cs)"
    using part_wf_shard[of cs v] cl v by (auto simp: clpa_ready_def)
  have "getShard_score_Contrib cs v (shard_at cs u) \<noteq> None" if "u \<in> set (edges_of (cl_NetGraph cs) v)" for u
    using neighbor_in_range[OF cl that] lc ln by (simp add: getShard_score_Contrib_def cc Let_def)
  then obtain k where k: "best_neighbor_shard (getShard_score_Contrib cs v) cs v = Some k"
    "k = shard_at cs v \<or> k \<in> shard_at cs ` set (edges_of (cl_NetGraph cs) v)"
    using best_neighbor_total[of cs v "getShard_score_Contrib cs v"] by blast
  show ?thesis
  proof (cases "thr v \<ge> 50 \<or> k = shard_at cs v \<or> \<not> cl_VertexsNumInShard cs ! nat (shard_at cs v) > 1")
    case True
    then have "contrib_visit (cs, res, thr, moved) v = Some (cs, res, thr, moved)"
      using k old ln by (auto simp: contrib_visit_def Let_def)
    with rd show ?thesis by blast
  next
    case False
    then have k0: "0 \<le> k" "nat k < nat (cl_ShardNum cs)" using k(2) neighbor_in_range[OF cl] by auto
    define c where "c = Calc_GetContribution cc v"
    obtain l1 l2 where l: "bump (cl_ContribInShard cs) (shard_at cs v) (\<lambda>x. x - c) = Some l1"
      "bump l1 k (\<lambda>x. x + c) = Some l2" "length l2 = length (cl_ContribInShard cs)"
      using old k0 lc by simp
    obtain nums1 nums2 cs' where m: "bump (cl_VertexsNumInShard cs) (shard_at cs v) (\<lambda>n. n - 1) = Some nums1"
      "bump nums1 k (\<lambda>n. n + 1) = Some nums2"
      "changeShardRecompute v (shard_at cs v) (set_shard v k (cs\<lparr>cl_ContribInShard := l2\<rparr>)\<lparr>cl_VertexsNumInShard := nums2\<rparr>) = Some cs'"
      "moves cs v k cs'" "length (cl_Edges2Shard cs') = nat (cl_ShardNum cs')"
      "cl_ContribCalculator cs' = cl_ContribCalculator cs" "cl_ContribInShard cs' = l2"
      using move_spec[OF cl v, of k l2] False k(2) l(3) by auto
    then have "contrib_visit (cs, res, thr, moved) v = Some (cs', AList.update v (of_int k) res, thr(v := thr v + 1), True)"
      using False k(1) old ln cc l by (simp add: contrib_visit_def Let_def c_def)
    moreover have "contrib_ready cs'"
      using moves_ready[OF cl v m(4,5)] m(4,6,7) l(3) lc cc by (simp add: contrib_ready_def moves_def)
    ultimately show ?thesis using m(4) by blast
  qed
qed

interpretation contribchain: label_propagation contrib_visit fst "\<lambda>s. map_of (fst (snd s))" "\<lambda>s. contrib_ready (fst s)"
proof
  show "\<exists>s'. contrib_visit s v = Some s' \<and> contrib_ready (fst s') \<and>
      (fst s' = fst s \<and> map_of (fst (snd s')) = map_of (fst (snd s))
       \<or> (\<exists>k. moves (fst s) v k (fst s') \<and> map_of (fst (snd s')) = (map_of (fst (snd s)))(v \<mapsto> of_int k)))"
    if s: "contrib_ready (fst s)" "v \<in> vertices (fst s)" for s v
  proof -
    obtain cs res thr moved where "s = (cs, res, thr, moved)" by (cases s)
    with s contrib_visit_law[of cs v res thr moved] show ?thesis by (fastforce simp: update_conv')
  qed
qed (simp add: contrib_ready_def clpa_ready_def)

end
