(* ===== verification/Clpa_Props.thy ===== *)
theory Clpa_Props
  imports Clpa_Correct
begin

text \<open>
  The properties of the partition algorithms: what a partition run returns, how the initial
  partitions are, and that building the graph keeps the invariant the runs rely on.
\<close>

section \<open>Building the graph\<close>

text \<open>The shard a vertex that is not in the graph will get.\<close>

definition home_shard :: "int \<Rightarrow> CLPAState \<Rightarrow> Vertex \<Rightarrow> int option" where
  "home_shard pshards cs v = (case map_of (cl_PartitionMap cs) v of Some s \<Rightarrow> Some s | None \<Rightarrow> Addr2Shard pshards v)"

lemma CLPA_AddVertex_wf:
  assumes wf: "part_wf cs" and new: "v \<notin> vertices cs"
    and h: "home_shard pshards cs v = Some s" "0 \<le> s" "s < cl_ShardNum cs"
  shows "\<exists>cs'. CLPA_AddVertex pshards v cs = Some cs' \<and> part_wf cs' \<and> shard_at cs' = (shard_at cs)(v := s)
    \<and> cl_NetGraph cs' = Graph_AddVertex v (cl_NetGraph cs) \<and> cl_ShardNum cs' = cl_ShardNum cs
    \<and> home_shard pshards cs' = home_shard pshards cs"
proof -
  define cs1 where "cs1 = set_shard v s (cs\<lparr>cl_NetGraph := Graph_AddVertex v (cl_NetGraph cs)\<rparr>)"
  define nums where "nums = (cl_VertexsNumInShard cs)[nat s := cl_VertexsNumInShard cs ! nat s + 1]"
  have len: "length (cl_VertexsNumInShard cs) = nat (cl_ShardNum cs)" using wf by (simp add: part_wf_def)
  have f: "shard_at cs1 = (shard_at cs)(v := s)" "cl_NetGraph cs1 = Graph_AddVertex v (cl_NetGraph cs)"
    "cl_ShardNum cs1 = cl_ShardNum cs" "cl_VertexsNumInShard cs1 = cl_VertexsNumInShard cs" by (simp_all add: cs1_def)
  have run: "CLPA_AddVertex pshards v cs = Some (cs1\<lparr>cl_VertexsNumInShard := nums\<rparr>)"
    using h len
    by (auto simp: CLPA_AddVertex_def home_shard_def cs1_def nums_def Let_def split: option.splits)
  have cnt: "nums ! k = int (card {w \<in> insert v (vertices cs). ((shard_at cs)(v := s)) w = int k})" if k: "k < nat (cl_ShardNum cs)" for k
  proof -
    have "{w \<in> insert v (vertices cs). ((shard_at cs)(v := s)) w = int k} =
        (if int k = s then insert v {w \<in> vertices cs. shard_at cs w = int k} else {w \<in> vertices cs. shard_at cs w = int k})"
      using new by auto
    then have "int (card {w \<in> insert v (vertices cs). ((shard_at cs)(v := s)) w = int k}) =
        int (card {w \<in> vertices cs. shard_at cs w = int k}) + (if int k = s then 1 else 0)" using new by simp
    moreover have "cl_VertexsNumInShard cs ! k = int (card {w \<in> vertices cs. shard_at cs w = int k})"
      using wf k by (simp add: part_wf_def)
    ultimately show ?thesis using k h(2) len by (auto simp: nums_def nth_list_update)
  qed
  have "part_wf (cs1\<lparr>cl_VertexsNumInShard := nums\<rparr>)"
    using wf h(2,3) len cnt unfolding part_wf_def in_range_def
    by (auto simp: f nums_def)
  moreover have "home_shard pshards (cs1\<lparr>cl_VertexsNumInShard := nums\<rparr>) = home_shard pshards cs"
    using h(1) by (auto simp: home_shard_def cs1_def set_shard_def update_conv' fun_eq_iff)
  ultimately show ?thesis using run f by simp
qed

lemma part_wf_add_edge:
  assumes "part_wf cs" and "u \<in> vertices cs" "v \<in> vertices cs"
  shows "part_wf (cs\<lparr>cl_NetGraph := Graph_AddEdge u v (cl_NetGraph cs)\<rparr>)"
  using assms unfolding part_wf_def in_range_def
  by (auto simp: Graph_AddEdge_wf Graph_AddEdge_vertices insert_absorb)

lemma ensure_vertex:
  assumes wf: "part_wf cs" and h: "v \<notin> vertices cs \<Longrightarrow> \<exists>s. home_shard pshards cs v = Some s \<and> 0 \<le> s \<and> s < cl_ShardNum cs"
  shows "\<exists>cs'. (if v \<notin> vertices cs then CLPA_AddVertex pshards v cs else Some cs) = Some cs' \<and> part_wf cs'
    \<and> vertices cs' = insert v (vertices cs) \<and> cl_ShardNum cs' = cl_ShardNum cs
    \<and> edges_of (cl_NetGraph cs') = edges_of (cl_NetGraph cs)
    \<and> home_shard pshards cs' = home_shard pshards cs
    \<and> (\<forall>w \<in> vertices cs. shard_at cs' w = shard_at cs w)"
proof (cases "v \<in> vertices cs")
  case True
  with wf show ?thesis by auto
next
  case False
  with h obtain s where s: "home_shard pshards cs v = Some s" "0 \<le> s" "s < cl_ShardNum cs" by blast
  from CLPA_AddVertex_wf[OF wf False s] obtain cs' where "CLPA_AddVertex pshards v cs = Some cs'" "part_wf cs'"
    "shard_at cs' = (shard_at cs)(v := s)" "cl_NetGraph cs' = Graph_AddVertex v (cl_NetGraph cs)"
    "cl_ShardNum cs' = cl_ShardNum cs" "home_shard pshards cs' = home_shard pshards cs" by blast
  with False show ?thesis by auto
qed

lemma CLPA_AddEdge_ok:
  assumes "part_wf cs"
    and "\<forall>w \<in> {u, v} - vertices cs. \<exists>s. home_shard pshards cs w = Some s \<and> 0 \<le> s \<and> s < cl_ShardNum cs"
  shows "\<exists>cs'. CLPA_AddEdge pshards u v cs = Some cs' \<and> part_wf cs'
    \<and> vertices cs' = {u, v} \<union> vertices cs
    \<and> (\<forall>w \<in> vertices cs. shard_at cs' w = shard_at cs w)
    \<and> (\<forall>w. edges_of (cl_NetGraph cs') w =
         edges_of (cl_NetGraph cs) w @ (if w = u then [v] else []) @ (if w = v then [u] else []))
    \<and> cl_ShardNum cs' = cl_ShardNum cs \<and> home_shard pshards cs' = home_shard pshards cs"
proof -
  obtain cs1 where 1: "(if u \<notin> vertices cs then CLPA_AddVertex pshards u cs else Some cs) = Some cs1" "part_wf cs1"
    "vertices cs1 = insert u (vertices cs)" "cl_ShardNum cs1 = cl_ShardNum cs"
    "edges_of (cl_NetGraph cs1) = edges_of (cl_NetGraph cs)"
    "home_shard pshards cs1 = home_shard pshards cs"
    "\<forall>w \<in> vertices cs. shard_at cs1 w = shard_at cs w"
    using ensure_vertex[OF assms(1), of u pshards] assms(2) by auto
  obtain cs2 where 2: "(if v \<notin> vertices cs1 then CLPA_AddVertex pshards v cs1 else Some cs1) = Some cs2" "part_wf cs2"
    "vertices cs2 = insert v (vertices cs1)" "edges_of (cl_NetGraph cs2) = edges_of (cl_NetGraph cs1)"
    "\<forall>w \<in> vertices cs1. shard_at cs2 w = shard_at cs1 w" "cl_ShardNum cs2 = cl_ShardNum cs"
    "home_shard pshards cs2 = home_shard pshards cs"
    using ensure_vertex[OF 1(2), of v pshards] assms(2) 1(3,4,6) by auto
  let ?cs = "cs2\<lparr>cl_NetGraph := Graph_AddEdge u v (cl_NetGraph cs2)\<rparr>"
  have "CLPA_AddEdge pshards u v cs = Some ?cs" using 1(1) 2(1) by (simp add: CLPA_AddEdge_def)
  moreover have "part_wf ?cs" using part_wf_add_edge[OF 2(2), of u v] 1(3) 2(3) by simp
  moreover have "home_shard pshards ?cs = home_shard pshards cs" using 2(7) by (simp add: home_shard_def fun_eq_iff)
  ultimately show ?thesis
    using 1 2 by (intro exI[of _ ?cs]) (auto simp: Graph_AddEdge_vertices Graph_AddEdge_edges)
qed

text \<open>
  C16. Adding an edge keeps the partition state well formed: the adjacency lists stay symmetric, every
  vertex has a shard in range and the vertex counts are the sizes of the shards. The new edge is
  entered at both ends, no vertex changes its shard, and new vertices start in the shard the
  partition map or their address gives. It needs that this shard exists.
\<close>

theorem CLPA_AddEdge_wf:
  assumes "part_wf cs"
    and "\<forall>w \<in> {u, v} - vertices cs. \<exists>s. home_shard pshards cs w = Some s \<and> 0 \<le> s \<and> s < cl_ShardNum cs"
  shows "\<exists>cs'. CLPA_AddEdge pshards u v cs = Some cs' \<and> part_wf cs'
    \<and> vertices cs' = {u, v} \<union> vertices cs
    \<and> (\<forall>w \<in> vertices cs. shard_at cs' w = shard_at cs w)
    \<and> (\<forall>w. edges_of (cl_NetGraph cs') w =
         edges_of (cl_NetGraph cs) w @ (if w = u then [v] else []) @ (if w = v then [u] else []))"
  using CLPA_AddEdge_ok[OF assms] by blast

lemma demo_clpa_wf: "part_wf demo_clpa"
proof -
  have "{v \<in> {''a'', ''b'', ''c'', ''d''}. shard_at demo_clpa v = 0} = {''a'', ''b'', ''c''}"
    "{v \<in> {''a'', ''b'', ''c'', ''d''}. shard_at demo_clpa v = 1} = {''d''}"
    by (auto simp: shard_at_def demo_clpa_fields)
  then show ?thesis
    by (auto simp: part_wf_def demo_clpa_fields demo_graph_wf demo_clpa_range demo_graph_edges less_Suc_eq numeral_2_eq_2)
qed

text \<open>A transaction with a new account, whose address puts it in shard 0.\<close>

theorem CLPA_AddEdge_wf_witness:
  "\<exists>cs'. CLPA_AddEdge 2 ''d'' ''e'' demo_clpa = Some cs' \<and> part_wf cs'
     \<and> vertices cs' = {''a'', ''b'', ''c'', ''d'', ''e''} \<and> edges_of (cl_NetGraph cs') ''d'' = [''c'', ''e'']"
proof -
  have "home_shard 2 demo_clpa ''e'' = Some 0"
    by (simp add: home_shard_def demo_clpa_fields Addr2Shard_def parse_hex_def hex_digit_def go_rem_def)
  then have "\<forall>w \<in> {''d'', ''e''} - vertices demo_clpa. \<exists>s. home_shard 2 demo_clpa w = Some s \<and> 0 \<le> s \<and> s < cl_ShardNum demo_clpa"
    by (simp add: demo_clpa_fields demo_graph_edges)
  from CLPA_AddEdge_wf[OF demo_clpa_wf this] obtain cs' where "CLPA_AddEdge 2 ''d'' ''e'' demo_clpa = Some cs'" "part_wf cs'"
    "vertices cs' = {''d'', ''e''} \<union> vertices demo_clpa"
    "\<forall>w. edges_of (cl_NetGraph cs') w = edges_of (cl_NetGraph demo_clpa) w
        @ (if w = ''d'' then [''e''] else []) @ (if w = ''e'' then [''d''] else [])" by blast
  then show ?thesis by (auto simp: demo_clpa_fields demo_graph_edges)
qed

section \<open>Partition runs\<close>

lemma clpa_visit_distinct:
  "clpa_visit s v = Some s' \<Longrightarrow> distinct (map fst (fst (snd s))) \<Longrightarrow> distinct (map fst (fst (snd s')))"
  by (cases s) (auto simp: clpa_visit_def Let_def distinct_update bind_eq_Some_conv split: if_splits)

lemma clpa_iterations_distinct:
  assumes "foldlM (\<lambda>s i. foldlM clpa_visit s (ord i)) s is = Some s'" and "distinct (map fst (fst (snd s)))"
  shows "distinct (map fst (fst (snd s')))"
  using assms by (rule foldlM_invariant) (erule foldlM_invariant, auto intro: clpa_visit_distinct)

lemma CLPA_Partition_ok:
  assumes "part_wf cs" and "\<forall>i. set (ord i) = vertices cs"
  shows "\<exists>res cs'. CLPA_Partition ord cs =
      Some (res, cut_pairs (shard_at cs') (mset (adj_pairs (cl_NetGraph cs))) div 2, cs') \<and> progress cs cs' (map_of res) \<and> distinct (map fst res)"
proof -
  have t: "ComputeEdges2Shard cs = Some (tallied cs)" "part_wf (tallied cs)" using part_wf_tallied[OF assms(1)] by auto
  have "clpa.good (tallied cs) (tallied cs, [], \<lambda>_. 0)"
    using t unfolding clpa.good_def by (simp add: clpa_ready_def length_tallied progress_refl)
  from clpa.good_iterations[OF this, of ord "[0..<nat (cl_MaxIterations cs)]"] assms(2)
  obtain cs1 res thr where run:
    "foldlM (\<lambda>s i. foldlM clpa_visit s (ord i)) (tallied cs, [], \<lambda>_. 0) [0..<nat (cl_MaxIterations cs)] = Some (cs1, res, thr)"
    "progress (tallied cs) cs1 (map_of res)" unfolding clpa.good_def by auto
  then have wf: "part_wf cs1" "cl_NetGraph cs1 = cl_NetGraph cs" by (auto simp: progress_def)
  then have "ComputeEdges2Shard cs1 = Some (tallied cs1)" "part_wf (tallied cs1)" using part_wf_tallied by auto
  moreover have "cl_CrossShardEdgeNum (tallied cs1) = cut_pairs (shard_at (tallied cs1)) (mset (adj_pairs (cl_NetGraph cs))) div 2"
    unfolding tallied_frame wf(2)[symmetric] by (simp add: tallied_def Let_def)
  moreover have "progress cs (tallied cs1) (map_of res)" using run(2) calculation(2) unfolding progress_def tallied_frame by simp
  moreover have "distinct (map fst res)" using clpa_iterations_distinct[OF run(1)] by simp
  ultimately show ?thesis using t run(1) by (simp add: CLPA_Partition_def)
qed



lemma contrib_iterations_good:
  assumes "contribchain.good cs0 s" and "\<forall>i. set (ord i) \<subseteq> vertices cs0"
  shows "\<exists>s'. contrib_iterations ord n i s = Some s' \<and> contribchain.good cs0 s'"
  using assms(1)
proof (induction n arbitrary: i s)
  case 0
  then show ?case by simp
next
  case (Suc n)
  obtain cs res thr m where s: "s = (cs, res, thr, m)" by (cases s)
  have "contribchain.good cs0 (cs, res, thr, False)"
    using Suc.prems unfolding contribchain.good_def by (simp add: s)
  from contribchain.good_visits[OF this, of "ord i"] assms(2)
  obtain cs1 res1 thr1 m1 where "foldlM contrib_visit (cs, res, thr, False) (ord i) = Some (cs1, res1, thr1, m1)"
    and g: "contribchain.good cs0 (cs1, res1, thr1, m1)" by auto
  with Suc.IH[OF g, of "Suc i"] show ?case by (auto simp: s)
qed

lemma ComputeContribInShard_total:
  assumes "\<forall>(v, s) \<in> set (cl_PartitionMap cs). 0 \<le> s \<and> s < cl_ShardNum cs" and "0 \<le> cl_ShardNum cs"
    and "cl_EnableContrib cs" and "cl_ContribCalculator cs = Some cc"
  shows "\<exists>l. ComputeContribInShard cs = Some (cs\<lparr>cl_ContribInShard := l\<rparr>) \<and> length l = nat (cl_ShardNum cs)"
proof -
  have "\<exists>l. foldlM (\<lambda>l (v, s). bump l s (\<lambda>c. c + Calc_GetContribution cc v)) (replicate (nat (cl_ShardNum cs)) f64_zero)
      (cl_PartitionMap cs) = Some l \<and> length l = nat (cl_ShardNum cs)"
    using assms(1) by (intro foldlM_total) auto
  with assms(2-4) show ?thesis by (auto simp: ComputeContribInShard_def)
qed



section \<open>Initial partitions\<close>

lemma card_residue:
  assumes "0 < S"
  shows "card {j. j < n \<and> j mod S = k} = (if k < S then n div S + (if k < n mod S then 1 else 0) else 0)"
proof (induction n)
  case 0
  then show ?case by simp
next
  case (Suc n)
  have "{j. j < Suc n \<and> j mod S = k} = (if n mod S = k then insert n {j. j < n \<and> j mod S = k} else {j. j < n \<and> j mod S = k})"
    by (auto simp: less_Suc_eq)
  then have "card {j. j < Suc n \<and> j mod S = k} = card {j. j < n \<and> j mod S = k} + (if n mod S = k then 1 else 0)" by simp
  moreover have "n mod S < S" using assms by simp
  ultimately show ?case using Suc assms by (auto simp: div_Suc mod_Suc split: if_splits)
qed

lemma card_index_filter:
  assumes "distinct vs"
  shows "card {v \<in> set vs. \<exists>j < length vs. vs ! j = v \<and> P j} = card {j. j < length vs \<and> P j}"
proof -
  have "{v \<in> set vs. \<exists>j < length vs. vs ! j = v \<and> P j} = (!) vs ` {j. j < length vs \<and> P j}" by auto
  moreover have "inj_on ((!) vs) {j. j < length vs \<and> P j}" using assms by (auto simp: inj_on_def nth_eq_iff_index_eq)
  ultimately show ?thesis by (simp add: card_image)
qed

text \<open>After \<open>i\<close> vertices, the first \<open>i\<close> are dealt out in turn and counted.\<close>

lemma stable_init_loop:
  assumes "0 < cl_ShardNum cs" and "distinct vs" and "length (cl_VertexsNumInShard cs) = nat (cl_ShardNum cs)"
    and "\<forall>k < nat (cl_ShardNum cs). cl_VertexsNumInShard cs ! k = 0" and "i \<le> length vs"
  shows "\<exists>cs'. foldlM stable_init_vertex (cs, 0) (take i vs) = Some (cs', int i)
    \<and> cl_NetGraph cs' = cl_NetGraph cs \<and> cl_ShardNum cs' = cl_ShardNum cs
    \<and> length (cl_VertexsNumInShard cs') = nat (cl_ShardNum cs)
    \<and> (\<forall>j < i. shard_at cs' (vs ! j) = int j mod cl_ShardNum cs)
    \<and> (\<forall>k < nat (cl_ShardNum cs). cl_VertexsNumInShard cs' ! k = int (card {j. j < i \<and> j mod nat (cl_ShardNum cs) = k}))"
  using assms(5)
proof (induction i)
  case 0
  with assms show ?case by simp
next
  case (Suc i)
  then obtain cs1 where IH: "foldlM stable_init_vertex (cs, 0) (take i vs) = Some (cs1, int i)"
    "cl_NetGraph cs1 = cl_NetGraph cs" "cl_ShardNum cs1 = cl_ShardNum cs"
    "length (cl_VertexsNumInShard cs1) = nat (cl_ShardNum cs)"
    "\<forall>j < i. shard_at cs1 (vs ! j) = int j mod cl_ShardNum cs"
    "\<forall>k < nat (cl_ShardNum cs). cl_VertexsNumInShard cs1 ! k = int (card {j. j < i \<and> j mod nat (cl_ShardNum cs) = k})"
    by auto
  define s where "s = int i mod cl_ShardNum cs"
  define cs2 where "cs2 = set_shard (vs ! i) s cs1\<lparr>cl_VertexsNumInShard :=
      (cl_VertexsNumInShard cs1)[nat s := cl_VertexsNumInShard cs1 ! nat s + 1]\<rparr>"
  have s: "0 \<le> s" "nat s < nat (cl_ShardNum cs)" "nat s = i mod nat (cl_ShardNum cs)"
    using assms(1) by (auto simp: s_def nat_mod_distrib)
  have step: "stable_init_vertex (cs1, int i) (vs ! i) = Some (cs2, int (Suc i))"
    using assms(1) s IH(3,4) by (simp add: stable_init_vertex_def go_rem_nonneg cs2_def Let_def flip: s_def)
  have "take (Suc i) vs = take i vs @ [vs ! i]" using Suc.prems by (simp add: take_Suc_conv_app_nth)
  then have run: "foldlM stable_init_vertex (cs, 0) (take (Suc i) vs) = Some (cs2, int (Suc i))"
    using IH(1) step by (simp add: foldlM_append)
  have "vs ! j \<noteq> vs ! i" if "j < i" for j using assms(2) that Suc.prems by (simp add: nth_eq_iff_index_eq)
  then have sh: "\<forall>j < Suc i. shard_at cs2 (vs ! j) = int j mod cl_ShardNum cs"
    using IH(5) by (auto simp: cs2_def less_Suc_eq s_def)
  have "cl_VertexsNumInShard cs2 ! k = int (card {j. j < Suc i \<and> j mod nat (cl_ShardNum cs) = k})" if k: "k < nat (cl_ShardNum cs)" for k
  proof -
    have "{j. j < Suc i \<and> j mod nat (cl_ShardNum cs) = k} =
        (if nat s = k then insert i {j. j < i \<and> j mod nat (cl_ShardNum cs) = k} else {j. j < i \<and> j mod nat (cl_ShardNum cs) = k})"
      by (auto simp: less_Suc_eq s(3))
    with IH(4,6) k s show ?thesis by (simp add: cs2_def nth_list_update)
  qed
  with run sh IH show ?case by (simp add: cs2_def)
qed

text \<open>
  The stable initial partition fails with an error exactly when there are more shards than
  accounts. Otherwise it deals the accounts out in turn: the state is well formed, the shard sizes are
  the number of accounts divided by the number of shards, rounded up for the first shards and down
  for the others, and so no shard is empty.
\<close>

theorem Stable_Init_Partition_balanced:
  assumes "graph_wf (cl_NetGraph cs)" and "0 < cl_ShardNum cs"
  defines "n \<equiv> length (gr_VertexSet (cl_NetGraph cs))" and "S \<equiv> nat (cl_ShardNum cs)"
  shows "if n < S then Stable_Init_Partition cs = Some (Inl ())
    else \<exists>cs'. Stable_Init_Partition cs = Some (Inr cs') \<and> part_wf cs' \<and> cl_NetGraph cs' = cl_NetGraph cs
      \<and> (\<forall>k < S. cl_VertexsNumInShard cs' ! k = int (n div S + (if k < n mod S then 1 else 0)) \<and> 0 < cl_VertexsNumInShard cs' ! k)"
proof (cases "n < S")
  case True
  then have "int (length (gr_VertexSet (cl_NetGraph cs))) < cl_ShardNum cs" by (simp add: n_def S_def)
  with True show ?thesis by (simp add: Stable_Init_Partition_def)
next
  case False
  let ?vs = "gr_VertexSet (cl_NetGraph cs)"
  let ?c = "cs\<lparr>cl_VertexsNumInShard := replicate S 0, cl_PartitionMap := []\<rparr>"
  have d: "distinct ?vs" using assms(1) by (simp add: graph_wf_def)
  obtain cs1 where L: "foldlM stable_init_vertex (?c, 0) ?vs = Some (cs1, int n)"
    "cl_NetGraph cs1 = cl_NetGraph cs" "cl_ShardNum cs1 = cl_ShardNum cs" "length (cl_VertexsNumInShard cs1) = S"
    "\<forall>j < n. shard_at cs1 (?vs ! j) = int j mod cl_ShardNum cs"
    "\<forall>k < S. cl_VertexsNumInShard cs1 ! k = int (card {j. j < n \<and> j mod S = k})"
    using stable_init_loop[of ?c ?vs n] assms(2) d by (auto simp: S_def n_def)
  have pos: "0 < S" using assms(2) by (simp add: S_def)
  have sh: "shard_at cs1 (?vs ! j) = int (j mod S)" if "j < n" for j
    using L(5) that assms(2) by (simp add: S_def zmod_int)
  have "{v \<in> set ?vs. shard_at cs1 v = int k} = {v \<in> set ?vs. \<exists>j < length ?vs. ?vs ! j = v \<and> j mod S = k}" for k
    using sh unfolding n_def by (metis (mono_tags, lifting) in_set_conv_nth of_nat_eq_iff)
  then have cnt: "card {v \<in> set ?vs. shard_at cs1 v = int k} = card {j. j < n \<and> j mod S = k}" for k
    using card_index_filter[OF d, of "\<lambda>j. j mod S = k"] by (simp add: n_def)
  have "in_range cs1"
    unfolding in_range_def L(2,3) using sh assms(2) pos by (auto simp: in_set_conv_nth n_def S_def zmod_int)
  then have wf: "part_wf cs1" using assms(1) L cnt by (simp add: part_wf_def S_def)
  then have "Stable_Init_Partition cs = Some (Inr (tallied cs1))"
    using L(1) False assms(2) part_wf_tallied[OF wf] by (simp add: Stable_Init_Partition_def n_def S_def)
  moreover have "part_wf (tallied cs1)" using part_wf_tallied[OF wf] by simp
  moreover have q: "0 < n div S" using False pos by (simp add: div_greater_zero_iff)
  moreover have "cl_VertexsNumInShard (tallied cs1) ! k = int (n div S + (if k < n mod S then 1 else 0))
      \<and> 0 < cl_VertexsNumInShard (tallied cs1) ! k" if "k < S" for k
    using L(6) that card_residue[OF pos, of n k] q by simp
  ultimately show ?thesis using False L(2) by auto
qed

theorem Stable_Init_Partition_balanced_witness:
  "\<exists>cs'. Stable_Init_Partition demo_clpa = Some (Inr cs') \<and> part_wf cs' \<and> cl_VertexsNumInShard cs' ! 0 = 2"
proof -
  have "distinct (gr_VertexSet demo_graph)" using demo_graph_wf by (simp add: graph_wf_def)
  then have "length (gr_VertexSet demo_graph) = card {''a'', ''b'', ''c'', ''d''}"
    using distinct_card[of "gr_VertexSet demo_graph"] by (simp add: demo_graph_edges)
  then have "length (gr_VertexSet demo_graph) = 4" by simp
  then show ?thesis
    using Stable_Init_Partition_balanced[of demo_clpa] by (auto simp: demo_clpa_fields demo_graph_wf)
qed

end
