(* ===== verification/Sup_Sending.thy ===== *)
theory Sup_Sending
  imports Pbft_Node Model_Env Go_Slice
begin

text \<open>
  What the committees of the supervisor share (\<^verbatim>\<open>supervisor/committee/\<close>): turning a row of the data set
  into a transaction, sending a batch of transactions to the shards, and the plain relay committee.
  The rows are what the CSV reader returns before the end of the file; a read error is a row \<^const>\<open>None\<close>.
  Each row comes with the time at which it is read. The sleep between two injections does not
  change the state and is left out. The stop signal is \<^verbatim>\<open>supervisor/signal/\<close>.
\<close>

section \<open>The stop signal\<close>

record StopSignal =
  ss_stopGap :: int
  ss_stopThreshold :: int

definition NewStopSignal :: "int \<Rightarrow> StopSignal" where
  "NewStopSignal stop_Threshold = \<lparr>ss_stopGap = 0, ss_stopThreshold = stop_Threshold\<rparr>"

definition StopGap_Inc :: "StopSignal \<Rightarrow> StopSignal" where
  "StopGap_Inc ss = ss\<lparr>ss_stopGap := ss_stopGap ss + 1\<rparr>"

definition StopGap_Reset :: "StopSignal \<Rightarrow> StopSignal" where
  "StopGap_Reset ss = ss\<lparr>ss_stopGap := 0\<rparr>"

definition GapEnough :: "StopSignal \<Rightarrow> bool" where
  "GapEnough ss \<longleftrightarrow> ss_stopGap ss \<ge> ss_stopThreshold ss"

section \<open>Rows of the data set\<close>

text \<open>\<^verbatim>\<open>big.Int.SetString(s, 10)\<close>: an optional sign and decimal digits, at least one.\<close>

definition dec_value :: "bytes \<Rightarrow> int option" where
  "dec_value s =
     (if s \<noteq> [] \<and> list_all (\<lambda>c. 48 \<le> (of_char c :: nat) \<and> (of_char c :: nat) \<le> 57) s
      then Some (foldl (\<lambda>acc c. 10 * acc + (of_char c - 48)) 0 s) else None)"

definition SetString10 :: "bytes \<Rightarrow> int option" where
  "SetString10 s =
     (case s of [] \<Rightarrow> None
      | c # cs \<Rightarrow> if c = CHR ''-'' then map_option uminus (dec_value cs)
                  else if c = CHR ''+'' then dec_value cs else dec_value s)"

definition nth_col :: "bytes list \<Rightarrow> nat \<Rightarrow> bytes option" where
  "nth_col data i = (if i < length data then Some (data ! i) else None)"

text \<open>The result is \<open>Some None\<close> for a row that is not a legal transaction.\<close>

definition data2tx ::
    "('bs, 'e) core_env_scheme \<Rightarrow> time \<Rightarrow> bytes list \<Rightarrow> u64 \<Rightarrow> Transaction option option" where
  "data2tx E now data nonce =
     do { d6 \<leftarrow> nth_col data 6;
          if d6 \<noteq> ''0'' then Some None
          else do { d7 \<leftarrow> nth_col data 7;
            if d7 \<noteq> ''0'' then Some None
            else do { d3 \<leftarrow> nth_col data 3; d4 \<leftarrow> nth_col data 4;
              if length d3 > 16 \<and> length d4 > 16 \<and> d3 \<noteq> d4
              then do { d8 \<leftarrow> nth_col data 8;
                        val \<leftarrow> SetString10 d8;
                        Some (Some (NewTransaction E (drop 2 d3) (drop 2 d4) val nonce now)) }
              else Some None } } }"

section \<open>Sending a batch\<close>

type_synonym ip_table = "u64 \<Rightarrow> u64 \<Rightarrow> bytes"

text \<open>One injection message per shard, also when it holds no transactions.\<close>

definition inject_all :: "int \<Rightarrow> ip_table \<Rightarrow> (u64 \<Rightarrow> Transaction list) \<Rightarrow> net_out list" where
  "inject_all ShardNum ips sendToShard =
     map (\<lambda>sid. Dial (ips sid 0) (CInject \<lparr>ij_Txs = sendToShard sid, ij_ToShardID = sid\<rparr>)) (u64_range (of_int ShardNum))"

text \<open>\<open>route\<close> is the shard a transaction is sent to. The list is what is left of the batch at index \<open>idx\<close>.\<close>

fun send_from ::
    "int \<Rightarrow> int \<Rightarrow> ip_table \<Rightarrow> (Transaction \<Rightarrow> u64 option) \<Rightarrow> nat \<Rightarrow> (u64 \<Rightarrow> Transaction list) \<Rightarrow> Transaction list \<Rightarrow> net_out list option" where
  "send_from ShardNum InjectSpeed ips route idx sendToShard rest =
     do { flush \<leftarrow> (if idx = 0 then Some False else map_option (\<lambda>r. r = 0 \<or> rest = []) (go_rem (int idx) InjectSpeed));
          let (outs, sendToShard) = (if flush then (inject_all ShardNum ips sendToShard, \<lambda>_. []) else ([], sendToShard));
          (case rest of
             [] \<Rightarrow> Some outs
           | tx # rest' \<Rightarrow>
               do { sendersid \<leftarrow> route tx;
                    more \<leftarrow> send_from ShardNum InjectSpeed ips route (Suc idx)
                              (sendToShard(sendersid := sendToShard sendersid @ [tx])) rest';
                    Some (outs @ more) }) }"

declare send_from.simps [simp del]

definition txSending :: "Params \<Rightarrow> ip_table \<Rightarrow> (Transaction \<Rightarrow> u64 option) \<Rightarrow> Transaction list \<Rightarrow> net_out list option" where
  "txSending pr ips route txlist = send_from (pm_ShardNum pr) (pm_InjectSpeed pr) ips route 0 (\<lambda>_. []) txlist"

definition home_route :: "Params \<Rightarrow> address \<Rightarrow> u64 option" where
  "home_route pr addr = map_option of_int (Addr2Shard (pm_ShardNum pr) addr)"

section \<open>The relay committee\<close>

record RelayCommitteeModule =
  rc_dataTotalNum :: int
  rc_nowDataNum :: int
  rc_batchDataNum :: int
  rc_IpNodeTable :: ip_table
  rc_Ss :: StopSignal

definition NewRelayCommitteeModule :: "ip_table \<Rightarrow> StopSignal \<Rightarrow> int \<Rightarrow> int \<Rightarrow> RelayCommitteeModule" where
  "NewRelayCommitteeModule ips Ss dataNum batchNum =
     \<lparr>rc_dataTotalNum = dataNum, rc_nowDataNum = 0, rc_batchDataNum = batchNum, rc_IpNodeTable = ips, rc_Ss = Ss\<rparr>"

definition relay_txSending :: "Params \<Rightarrow> RelayCommitteeModule \<Rightarrow> Transaction list \<Rightarrow> net_out list option" where
  "relay_txSending pr rthm txlist = txSending pr (rc_IpNodeTable rthm) (\<lambda>tx. home_route pr (tx_Sender tx)) txlist"

text \<open>One turn of the reading loop; the last component says whether the loop ends here.\<close>

definition relay_row ::
    "('bs, 'e) core_env_scheme \<Rightarrow> time \<Rightarrow> bytes list \<Rightarrow> Transaction list \<Rightarrow> RelayCommitteeModule \<Rightarrow>
     (net_out list \<times> Transaction list \<times> RelayCommitteeModule \<times> bool) option" where
  "relay_row E now data txlist rthm =
     do { t \<leftarrow> data2tx E now data (of_int (rc_nowDataNum rthm));
          let (txlist, rthm) = (case t of
                Some tx \<Rightarrow> (txlist @ [tx], rthm\<lparr>rc_nowDataNum := rc_nowDataNum rthm + 1\<rparr>)
              | None \<Rightarrow> (txlist, rthm));
          (outs, txlist, rthm) \<leftarrow>
            (if int (length txlist) = rc_batchDataNum rthm \<or> rc_nowDataNum rthm = rc_dataTotalNum rthm
             then map_option (\<lambda>outs. (outs, [], rthm\<lparr>rc_Ss := StopGap_Reset (rc_Ss rthm)\<rparr>)) (relay_txSending (prm E) rthm txlist)
             else Some ([], txlist, rthm));
          Some (outs, txlist, rthm, rc_nowDataNum rthm = rc_dataTotalNum rthm) }"

fun relay_rows ::
    "('bs, 'e) core_env_scheme \<Rightarrow> (time \<times> bytes list option) list \<Rightarrow> Transaction list \<Rightarrow> RelayCommitteeModule \<Rightarrow>
     (net_out list \<times> RelayCommitteeModule) option" where
  "relay_rows E [] txlist rthm = Some ([], rthm)"
| "relay_rows E ((now, row) # rows) txlist rthm =
     do { data \<leftarrow> row;
          (outs, txlist, rthm, stop) \<leftarrow> relay_row E now data txlist rthm;
          if stop then Some (outs, rthm)
          else map_option (\<lambda>(more, rthm). (outs @ more, rthm)) (relay_rows E rows txlist rthm) }"

definition relay_MsgSendingControl ::
    "('bs, 'e) core_env_scheme \<Rightarrow> (time \<times> bytes list option) list \<Rightarrow> RelayCommitteeModule \<Rightarrow> (net_out list \<times> RelayCommitteeModule) option" where
  "relay_MsgSendingControl E rows rthm = relay_rows E rows [] rthm"

section \<open>Every transaction of a batch reaches its shard\<close>

text \<open>What a sequence of messages injects into a shard.\<close>

fun injected_by :: "u64 \<Rightarrow> net_out \<Rightarrow> Transaction list" where
  "injected_by sid (Dial ip (CInject m)) = (if ij_ToShardID m = sid then ij_Txs m else [])"
| "injected_by sid _ = []"

definition injected :: "u64 \<Rightarrow> net_out list \<Rightarrow> Transaction list" where
  "injected sid outs = concat (map (injected_by sid) outs)"

lemma injected_append [simp]: "injected sid (xs @ ys) = injected sid xs @ injected sid ys"
  by (simp add: injected_def)

lemma injected_Nil [simp]: "injected sid [] = []"
  by (simp add: injected_def)

lemma concat_map_single:
  "distinct xs \<Longrightarrow> concat (map (\<lambda>x. if x = y then f x else []) xs) = (if y \<in> set xs then f y else [])"
  by (induction xs) auto

lemma injected_inject_all:
  "injected sid (inject_all n ips s2s) = (if sid < of_int n then s2s sid else [])"
proof -
  have "injected sid (inject_all n ips s2s) = concat (map (\<lambda>x. if x = sid then s2s x else []) (u64_range (of_int n)))"
    by (simp add: injected_def inject_all_def comp_def cong: if_cong)
  then show ?thesis using concat_map_single[of "u64_range (of_int n)" sid s2s] by simp
qed

text \<open>All messages are injections, sent to the first node of the shard they are for.\<close>

definition injections :: "ip_table \<Rightarrow> net_out list \<Rightarrow> bool" where
  "injections ips outs \<longleftrightarrow> (\<forall>out \<in> set outs. \<exists>m. out = Dial (ips (ij_ToShardID m) 0) (CInject m))"

lemma injections_simps [simp]:
  "injections ips []" "injections ips (xs @ ys) \<longleftrightarrow> injections ips xs \<and> injections ips ys" "injections ips (inject_all n ips s2s)"
  by (auto simp: injections_def inject_all_def)

lemma send_from_delivers:
  assumes "InjectSpeed \<noteq> 0" and "\<forall>tx \<in> set rest. route tx \<noteq> None" and "idx = 0 \<longrightarrow> (\<forall>sid. s2s sid = [])"
  shows "\<exists>outs. send_from n InjectSpeed ips route idx s2s rest = Some outs
    \<and> (\<forall>sid. injected sid outs = (if sid < of_int n then s2s sid @ filter (\<lambda>tx. route tx = Some sid) rest else []))
    \<and> injections ips outs"
  using assms(2,3)
proof (induction rest arbitrary: idx s2s)
  case Nil
  then show ?case
    using assms(1)
    by (cases "idx = 0") (auto simp: send_from.simps go_rem_def injected_inject_all)
next
  case (Cons tx rest)
  obtain k where k: "route tx = Some k" using Cons.prems(1) by auto
  obtain flush where flush: "(if idx = 0 then Some False else map_option (\<lambda>r. r = 0 \<or> tx # rest = []) (go_rem (int idx) InjectSpeed)) = Some flush"
    using assms(1) by (cases "idx = 0") (auto simp: go_rem_def)
  define s2 where "s2 = (if flush then (\<lambda>_. []) else s2s)"
  define o1 where "o1 = (if flush then inject_all n ips s2s else [])"
  have o1: "injected sid o1 @ (if sid < of_int n then s2 sid else []) = (if sid < of_int n then s2s sid else [])" for sid
    by (simp add: o1_def s2_def injected_inject_all)
  have sub: "injections ips o1"
    by (simp add: o1_def)
  have "\<forall>tx \<in> set rest. route tx \<noteq> None" "Suc idx = 0 \<longrightarrow> (\<forall>sid. (s2(k := s2 k @ [tx])) sid = [])" using Cons.prems(1) by simp_all
  from Cons.IH[OF this] obtain more where more:
    "send_from n InjectSpeed ips route (Suc idx) (s2(k := s2 k @ [tx])) rest = Some more"
    "\<forall>sid. injected sid more = (if sid < of_int n then (s2(k := s2 k @ [tx])) sid @ filter (\<lambda>tx. route tx = Some sid) rest else [])"
    "injections ips more" by blast
  have "send_from n InjectSpeed ips route idx s2s (tx # rest) = Some (o1 @ more)"
    using flush k more(1) by (subst send_from.simps) (auto simp: o1_def s2_def split: if_splits)
  moreover have "injected sid (o1 @ more) = (if sid < of_int n then s2s sid @ filter (\<lambda>tx. route tx = Some sid) (tx # rest) else [])" for sid
    using more(2) o1[of sid] k by (auto split: if_splits)
  ultimately show ?case using more(3) sub by auto
qed

lemma txSending_routes:
  assumes "0 < pm_InjectSpeed pr" and "\<forall>tx \<in> set txlist. \<exists>sid. route tx = Some sid \<and> sid < of_int (pm_ShardNum pr)"
  shows "\<exists>outs. txSending pr ips route txlist = Some outs \<and> injections ips outs
    \<and> (\<forall>sid. injected sid outs = filter (\<lambda>tx. route tx = Some sid) txlist)"
proof -
  have "\<forall>tx \<in> set txlist. route tx \<noteq> None" using assms(2) by auto
  then obtain outs where o: "txSending pr ips route txlist = Some outs" "injections ips outs"
    "\<forall>sid. injected sid outs = (if sid < of_int (pm_ShardNum pr) then filter (\<lambda>tx. route tx = Some sid) txlist else [])"
    using send_from_delivers[of "pm_InjectSpeed pr" txlist route 0 "\<lambda>_. []" "pm_ShardNum pr" ips] assms(1)
    by (auto simp: txSending_def)
  have "injected sid outs = filter (\<lambda>tx. route tx = Some sid) txlist" for sid
    using o(3) assms(2) by (cases "sid < of_int (pm_ShardNum pr)") (auto simp: eq_commute[of "[]"] filter_empty_conv)
  with o(1,2) show ?thesis by blast
qed

lemma txSending_empty: "txSending pr ips route [] = Some []"
  by (simp add: txSending_def send_from.simps)

section \<open>What the relay committee sends\<close>

text \<open>The legal transactions of the rows, numbered from \<open>n\<close> on.\<close>

fun legal_txs :: "('bs, 'e) core_env_scheme \<Rightarrow> nat \<Rightarrow> (time \<times> bytes list option) list \<Rightarrow> Transaction list option" where
  "legal_txs E n [] = Some []"
| "legal_txs E n ((now, row) # rows) =
     do { data \<leftarrow> row;
          t \<leftarrow> data2tx E now data (of_int (int n));
          (case t of None \<Rightarrow> legal_txs E n rows | Some tx \<Rightarrow> map_option ((#) tx) (legal_txs E (Suc n) rows)) }"

text \<open>How many of \<open>l\<close> waiting and \<open>m\<close> coming transactions are sent, when \<open>r\<close> more are wanted and batches have \<open>b\<close>.\<close>

definition sent_count :: "nat \<Rightarrow> nat \<Rightarrow> nat \<Rightarrow> nat \<Rightarrow> nat" where
  "sent_count b r l m = (if r \<le> m then l + r else (l + m) - (l + m) mod b)"

lemma sent_count_step: "sent_count b (Suc r) l (Suc m) = sent_count b r (Suc l) m"
  by (simp add: sent_count_def)

lemma sent_count_flush: "0 < b \<Longrightarrow> sent_count b r b m = b + sent_count b r 0 m"
proof -
  assume "0 < b"
  have "m mod b \<le> m" by simp
  then show ?thesis by (simp add: sent_count_def)
qed

lemma sent_count_0: "sent_count b r 0 m = (if r \<le> m then r else m - m mod b)"
  by (simp add: sent_count_def)

lemma sent_count_none: "l < b \<Longrightarrow> 0 < r \<Longrightarrow> sent_count b r l 0 = 0"
  by (simp add: sent_count_def)

lemma relay_rows_sent:
  fixes E :: "('bs, 'e) core_env_scheme"
  defines "route \<equiv> \<lambda>tx. home_route (prm E) (tx_Sender tx)"
  assumes "0 < pm_InjectSpeed (prm E)" and "rc_batchDataNum rc = int b" "0 < b"
    and "legal_txs E n rows = Some T" and "rc_nowDataNum rc = int n" "rc_dataTotalNum rc = int (n + r)" "0 < r"
    and "length txlist < b"
    and "\<forall>tx \<in> set (txlist @ T). \<exists>sid. route tx = Some sid \<and> sid < of_int (pm_ShardNum (prm E))"
  shows "\<exists>outs rc'. relay_rows E rows txlist rc = Some (outs, rc')
    \<and> (\<forall>sid. injected sid outs = filter (\<lambda>tx. route tx = Some sid) (take (sent_count b r (length txlist) (length T)) (txlist @ T)))"
  using assms(3-)
proof (induction rows arbitrary: n r txlist rc T)
  case Nil
  then show ?case by (simp add: sent_count_none)
next
  case (Cons p rows)
  obtain now row where p: "p = (now, row)" by (cases p)
  obtain data t where d: "row = Some data" "data2tx E now data (of_int (int n)) = Some t"
    using Cons.prems(3) by (auto simp: p bind_eq_Some_conv)
  show ?case
  proof (cases t)
    case None
    have row: "relay_row E now data txlist rc = Some ([], txlist, rc, False)"
      using d None Cons.prems by (simp add: relay_row_def)
    have "legal_txs E n rows = Some T" using Cons.prems(3) d None by (simp add: p)
    from Cons.IH[OF Cons.prems(1,2) this Cons.prems(4-)] row d show ?thesis by (auto simp: p)
  next
    case (Some tx)
    obtain T' where T: "T = tx # T'" "legal_txs E (Suc n) rows = Some T'" using Cons.prems(3) d Some by (auto simp: p)
    obtain r' where r: "r = Suc r'" using Cons.prems(6) by (cases r) auto
    define rc1 where "rc1 = rc\<lparr>rc_nowDataNum := int (Suc n)\<rparr>"
    define l where "l = txlist @ [tx]"
    have routed: "\<forall>tx \<in> set l. \<exists>sid. home_route (prm E) (tx_Sender tx) = Some sid \<and> sid < of_int (pm_ShardNum (prm E))"
      using Cons.prems(8) by (auto simp: l_def T(1) route_def)
    obtain o1 where o1: "relay_txSending (prm E) rc1 l = Some o1" "\<forall>sid. injected sid o1 = filter (\<lambda>tx. route tx = Some sid) l"
      using txSending_routes[OF assms(2) routed, of "rc_IpNodeTable rc1"] by (auto simp: relay_txSending_def route_def)
    have step: "relay_row E now data txlist rc =
        (if length l = b \<or> r' = 0 then Some (o1, [], rc1\<lparr>rc_Ss := StopGap_Reset (rc_Ss rc1)\<rparr>, r' = 0) else Some ([], l, rc1, False))"
    proof -
      have "data2tx E now data (of_int (rc_nowDataNum rc)) = Some (Some tx)" "rc\<lparr>rc_nowDataNum := rc_nowDataNum rc + 1\<rparr> = rc1"
        "rc_dataTotalNum rc1 = rc_nowDataNum rc1 + int r'" "rc_batchDataNum rc1 = int b"
        using d(2) Some Cons.prems(1,4,5) by (simp_all add: rc1_def r add.commute)
      then show ?thesis using o1(1) by (simp add: relay_row_def flip: l_def)
    qed
    have sc: "sent_count b r (length txlist) (length T) = sent_count b r' (length l) (length T')"
      by (simp add: r T(1) l_def sent_count_step)
    have app: "txlist @ T = l @ T'" by (simp add: l_def T(1))
    consider (last) "r' = 0" | (flush) "0 < r'" "length l = b" | (more) "0 < r'" "length l \<noteq> b" by blast
    then show ?thesis
    proof cases
      case last
      then have "sent_count b r' (length l) (length T') = length l" by (simp add: sent_count_def)
      with last step d o1(2) show ?thesis unfolding sc app by (auto simp: p)
    next
      case flush
      let ?rc = "rc1\<lparr>rc_Ss := StopGap_Reset (rc_Ss rc1)\<rparr>"
      have "\<exists>outs rc'. relay_rows E rows [] ?rc = Some (outs, rc')
          \<and> (\<forall>sid. injected sid outs = filter (\<lambda>tx. route tx = Some sid) (take (sent_count b r' (length ([] :: Transaction list)) (length T')) ([] @ T')))"
        using Cons.prems T(2) flush
        by (intro Cons.IH[where n = "Suc n"]) (auto simp: rc1_def r T(1))
      with step flush d o1(2) show ?thesis unfolding sc app by (auto simp: p sent_count_flush Cons.prems(2))
    next
      case more
      have "length l < b" using Cons.prems(7) more(2) by (simp add: l_def)
      then have "\<exists>outs rc'. relay_rows E rows l rc1 = Some (outs, rc')
          \<and> (\<forall>sid. injected sid outs = filter (\<lambda>tx. route tx = Some sid) (take (sent_count b r' (length l) (length T')) (l @ T')))"
        using Cons.prems T(2) more app
        by (intro Cons.IH[where n = "Suc n"]) (auto simp: rc1_def r T(1))
      with step more d show ?thesis unfolding sc app by (auto simp: p)
    qed
  qed
qed

section \<open>Properties\<close>

text \<open>
  \<^verbatim>\<open>txSending\<close> gets every transaction of a batch to its shard exactly once and in order: the
  messages it sends inject into each shard the transactions of the batch that are routed there, and
  go to the first node of that shard. It needs a positive injection speed and a shard for each transaction.
\<close>

theorem txSending_delivers:
  assumes "0 < pm_InjectSpeed pr" and "\<forall>tx \<in> set txlist. \<exists>sid. route tx = Some sid \<and> sid < of_int (pm_ShardNum pr)"
  shows "\<exists>outs. txSending pr ips route txlist = Some outs \<and> injections ips outs
    \<and> (\<forall>sid. injected sid outs = filter (\<lambda>tx. route tx = Some sid) txlist)"
  by (rule txSending_routes[OF assms])

text \<open>Two transactions for shard 1 around one for shard 0.\<close>

theorem txSending_delivers_witness:
  "\<exists>outs. txSending demo_params (\<lambda>_ _. []) (\<lambda>tx. Some (if tx_Nonce tx = 7 then 0 else 1))
       [sample_tx ''0a'' ''0b'' 1\<lparr>tx_Nonce := 1\<rparr>, sample_tx ''0a'' ''0b'' 7\<lparr>tx_Nonce := 7\<rparr>, sample_tx ''0a'' ''0b'' 3\<lparr>tx_Nonce := 3\<rparr>] = Some outs
     \<and> injected 1 outs = [sample_tx ''0a'' ''0b'' 1\<lparr>tx_Nonce := 1\<rparr>, sample_tx ''0a'' ''0b'' 3\<lparr>tx_Nonce := 3\<rparr>]"
proof -
  let ?txs = "[sample_tx ''0a'' ''0b'' 1\<lparr>tx_Nonce := 1\<rparr>, sample_tx ''0a'' ''0b'' 7\<lparr>tx_Nonce := 7\<rparr>, sample_tx ''0a'' ''0b'' 3\<lparr>tx_Nonce := 3\<rparr>]"
    and ?r = "\<lambda>tx. Some (if tx_Nonce tx = 7 then 0 else 1 :: u64)"
  have "0 < pm_InjectSpeed demo_params" "\<forall>tx \<in> set ?txs. \<exists>sid. ?r tx = Some sid \<and> sid < of_int (pm_ShardNum demo_params)"
    by (simp_all add: demo_params_def)
  from txSending_delivers[OF this, of "\<lambda>_ _. []"] obtain outs where
    "txSending demo_params (\<lambda>_ _. []) ?r ?txs = Some outs" "\<forall>sid. injected sid outs = filter (\<lambda>tx. ?r tx = Some sid) ?txs" by blast
  then show ?thesis by (intro exI[of _ outs]) simp
qed

text \<open>
  The relay committee injects, shard by shard and in the order of the file, exactly the first
  \<^verbatim>\<open>dataTotalNum\<close> legal transactions of the data set. When the file holds fewer, it injects the full
  batches only: the transactions of the last, incomplete batch are never sent.
\<close>

theorem relay_committee_sends:
  assumes "legal_txs E 0 rows = Some T" and "0 < pm_InjectSpeed (prm E)" and "0 < batch" "0 < wanted"
    and "\<forall>tx \<in> set T. \<exists>sid. home_route (prm E) (tx_Sender tx) = Some sid \<and> sid < of_int (pm_ShardNum (prm E))"
  shows "\<exists>outs rc. relay_MsgSendingControl E rows (NewRelayCommitteeModule ips Ss (int wanted) (int batch)) = Some (outs, rc)
    \<and> (\<forall>sid. injected sid outs = filter (\<lambda>tx. home_route (prm E) (tx_Sender tx) = Some sid)
         (take (if wanted \<le> length T then wanted else length T - length T mod batch) T))"
  using relay_rows_sent[of E "NewRelayCommitteeModule ips Ss (int wanted) (int batch)" batch 0 rows T wanted "[]"] assms
  by (simp add: relay_MsgSendingControl_def NewRelayCommitteeModule_def sent_count_0 split del: if_split)

definition demo_row :: "bytes \<Rightarrow> bytes list" where
  "demo_row val = [''b'', ''t'', ''h'', ''0x0123456789abcdef'', ''0x0123456789abcde0'', [], ''0'', ''0'', val]"

definition demo_rows :: "(time \<times> bytes list option) list" where
  "demo_rows = [(1, Some (demo_row ''5'')), (2, Some [''b'', ''t'', ''h'', ''0x1'', ''0x2'', [], ''1'', ''0'', ''5'']),
                (3, Some (demo_row ''17'')), (4, Some (demo_row ''8''))]"

text \<open>Four rows with three legal transactions; two transactions are wanted.\<close>

theorem relay_committee_sends_witness:
  "\<exists>outs rc. relay_MsgSendingControl demo_env demo_rows (NewRelayCommitteeModule (\<lambda>_ _. []) (NewStopSignal 6) (int 2) (int 16)) = Some (outs, rc)
     \<and> map tx_Value (injected 1 outs) = [5, 17]"
proof -
  let ?tx = "NewTransaction demo_env ''0123456789abcdef'' ''0123456789abcde0''"
  have p: "prm demo_env = demo_params" by (simp add: demo_env_def)
  have d: "data2tx demo_env now (demo_row v) n = map_option (\<lambda>val. Some (?tx val n now)) (SetString10 v)" for now v n
    by (cases "SetString10 v") (simp_all add: data2tx_def demo_row_def nth_col_def)
  have v: "SetString10 ''5'' = Some 5" "SetString10 ''17'' = Some 17" "SetString10 ''8'' = Some 8"
    by (simp_all add: SetString10_def dec_value_def)
  have T: "legal_txs demo_env 0 demo_rows = Some [?tx 5 0 1, ?tx 17 1 3, ?tx 8 2 4]"
    by (simp add: demo_rows_def d v) (simp add: data2tx_def nth_col_def)
  have h: "home_route demo_params ''0123456789abcdef'' = Some 1"
    by (simp add: home_route_def Addr2Shard_def parse_hex_def hex_digit_def go_rem_def demo_params_def)
  have "0 < pm_InjectSpeed (prm demo_env)" "0 < (16::nat)" "0 < (2::nat)"
    "\<forall>tx \<in> set [?tx 5 0 1, ?tx 17 1 3, ?tx 8 2 4]. \<exists>sid. home_route (prm demo_env) (tx_Sender tx) = Some sid \<and> sid < of_int (pm_ShardNum (prm demo_env))"
    by (simp_all add: p h) (simp_all add: demo_params_def)
  from relay_committee_sends[OF T this, of "\<lambda>_ _. []" "NewStopSignal 6"] obtain outs rc where
    "relay_MsgSendingControl demo_env demo_rows (NewRelayCommitteeModule (\<lambda>_ _. []) (NewStopSignal 6) (int 2) (int 16)) = Some (outs, rc)"
    "\<forall>sid. injected sid outs = filter (\<lambda>tx. home_route (prm demo_env) (tx_Sender tx) = Some sid)
       (take (if (2::nat) \<le> length [?tx 5 0 1, ?tx 17 1 3, ?tx 8 2 4] then 2 else length [?tx 5 0 1, ?tx 17 1 3, ?tx 8 2 4] - length [?tx 5 0 1, ?tx 17 1 3, ?tx 8 2 4] mod 16)
          [?tx 5 0 1, ?tx 17 1 3, ?tx 8 2 4])" by blast
  then show ?thesis by (intro exI[of _ outs] exI[of _ rc]) (simp add: p h)
qed

end
