(* ===== verification/Sup_Clpa.thy ===== *)
theory Sup_Clpa
  imports Sup_Sending Clpa_Props
begin

text \<open>
  The CLPA committee of the supervisor (\<^verbatim>\<open>supervisor/committee/committee_clpa.go\<close>): it reads the data set,
  injects transactions by its record of moved accounts, builds the transaction graph from the block
  reports of the shards, and re-partitions the accounts when the epoch is over. The sending loop and
  the block reports run concurrently under a lock; a run is a sequence of events, each of which is
  one turn of the loop, one poll of a waiting loop, or one block report. The orders in which the
  algorithm ranges over the vertices of a graph are given by \<open>ord\<close>.
\<close>

section \<open>State and operations\<close>

record CLPACommitteeModule =
  cp_dataTotalNum :: int
  cp_nowDataNum :: int
  cp_batchDataNum :: int
  cp_curEpoch :: int
  cp_clpaGraph :: CLPAState
  cp_modifiedMap :: modified_map
  cp_clpaLastRunningTime :: time
  cp_clpaFreq :: int
  cp_Ss :: StopSignal
  cp_IpNodeTable :: ip_table

definition new_graph :: "Params \<Rightarrow> CLPAState option" where
  "new_graph pr = Init_CLPAState (Fin (1 / 2)) 100 (pm_ShardNum pr) empty_CLPAState"

definition NewCLPACommitteeModule :: "Params \<Rightarrow> ip_table \<Rightarrow> StopSignal \<Rightarrow> int \<Rightarrow> int \<Rightarrow> int \<Rightarrow> CLPACommitteeModule option" where
  "NewCLPACommitteeModule pr ips Ss dataNum batchNum clpaFrequency =
     map_option (\<lambda>cg.
       \<lparr>cp_dataTotalNum = dataNum, cp_nowDataNum = 0, cp_batchDataNum = batchNum, cp_curEpoch = 0, cp_clpaGraph = cg,
        cp_modifiedMap = [], cp_clpaLastRunningTime = 0, cp_clpaFreq = clpaFrequency, cp_Ss = Ss, cp_IpNodeTable = ips\<rparr>)
       (new_graph pr)"

definition fetchModifiedMap :: "Params \<Rightarrow> modified_map \<Rightarrow> address \<Rightarrow> u64 option" where
  "fetchModifiedMap pr m key = (case map_of m key of None \<Rightarrow> home_route pr key | Some val \<Rightarrow> Some val)"

definition clpa_txSending :: "Params \<Rightarrow> CLPACommitteeModule \<Rightarrow> Transaction list \<Rightarrow> net_out list option" where
  "clpa_txSending pr ccm txlist =
     txSending pr (cp_IpNodeTable ccm) (\<lambda>tx. fetchModifiedMap pr (cp_modifiedMap ccm) (tx_Sender tx)) txlist"

definition clpaMapSend :: "Params \<Rightarrow> CLPACommitteeModule \<Rightarrow> modified_map \<Rightarrow> net_out list" where
  "clpaMapSend pr ccm m = map (\<lambda>i. Dial (cp_IpNodeTable ccm i 0) (CPartitionMsg m)) (u64_range (of_int (pm_ShardNum pr)))"

definition clpaReset :: "Params \<Rightarrow> CLPACommitteeModule \<Rightarrow> CLPACommitteeModule option" where
  "clpaReset pr ccm =
     do { cg \<leftarrow> new_graph pr;
          Some (ccm\<lparr>cp_clpaGraph := foldl (\<lambda>g (key, val). set_shard key (sint val) g) cg (cp_modifiedMap ccm)\<rparr>) }"

text \<open>The critical section of the sending loop that re-partitions.\<close>

definition clpa_repartition ::
    "Params \<Rightarrow> (Graph \<Rightarrow> nat \<Rightarrow> Vertex list) \<Rightarrow> CLPACommitteeModule \<Rightarrow> (net_out list \<times> CLPACommitteeModule) option" where
  "clpa_repartition pr ord ccm =
     do { (mmap, _, cg) \<leftarrow> CLPA_Partition (ord (cl_NetGraph (cp_clpaGraph ccm))) (cp_clpaGraph ccm);
          let outs = clpaMapSend pr ccm mmap;
          let m = foldl (\<lambda>m (key, val). AList.update key val m) (cp_modifiedMap ccm) mmap;
          ccm \<leftarrow> clpaReset pr (ccm\<lparr>cp_clpaGraph := cg, cp_modifiedMap := m\<rparr>);
          Some (outs, ccm) }"

definition clpa_due :: "Params \<Rightarrow> time \<Rightarrow> CLPACommitteeModule \<Rightarrow> bool" where
  "clpa_due pr now ccm \<longleftrightarrow>
     pm_ShardNum pr > 1 \<and> time_Sub now (cp_clpaLastRunningTime ccm) \<ge> cp_clpaFreq ccm * 1000000000"

definition add_edges :: "Params \<Rightarrow> (Transaction \<Rightarrow> Vertex \<times> Vertex) \<Rightarrow> CLPAState \<Rightarrow> Transaction list \<Rightarrow> CLPAState option" where
  "add_edges pr ends g txs = foldlM (\<lambda>g tx. CLPA_AddEdge (pm_ShardNum pr) (fst (ends tx)) (snd (ends tx)) g) g txs"

text \<open>\<^verbatim>\<open>atomic.CompareAndSwapInt32\<close> of the epoch counter.\<close>

definition next_epoch :: "BlockInfoMsg \<Rightarrow> int \<Rightarrow> int" where
  "next_epoch b curEpoch = (if curEpoch = to_int32 (bi_Epoch b - 1) then to_int32 (bi_Epoch b) else curEpoch)"

definition clpa_HandleBlockInfo :: "Params \<Rightarrow> BlockInfoMsg \<Rightarrow> CLPACommitteeModule \<Rightarrow> CLPACommitteeModule option" where
  "clpa_HandleBlockInfo pr b ccm =
     (let ccm = ccm\<lparr>cp_curEpoch := next_epoch b (cp_curEpoch ccm)\<rparr>
      in if bi_BlockBodyLength b = 0 then Some ccm
         else do { g \<leftarrow> add_edges pr (\<lambda>tx. (tx_Sender tx, tx_Recipient tx)) (cp_clpaGraph ccm) (bi_InnerShardTxs b);
                   g \<leftarrow> add_edges pr (\<lambda>tx. (tx_Sender tx, tx_Recipient tx)) g (bi_Relay2Txs b);
                   Some (ccm\<lparr>cp_clpaGraph := g\<rparr>) })"

section \<open>The sending loop\<close>

text \<open>
  Where \<^verbatim>\<open>MsgSendingControl\<close> is: reading rows with the transactions of the current batch, waiting for the
  next epoch (in the reading loop, or in the final loop), in the final loop, or returned. The
  number is \<^verbatim>\<open>clpaCnt\<close>.
\<close>

datatype clpa_pc = Reading "Transaction list" | EpochWait "Transaction list" | Draining | DrainWait | Returned

record clpa_ctl =
  ctl_pc :: clpa_pc
  ctl_clpaCnt :: int
  ctl_ccm :: CLPACommitteeModule

text \<open>After the turn of a row: the loop ends when all data are read.\<close>

definition next_turn :: "Transaction list \<Rightarrow> CLPACommitteeModule \<Rightarrow> clpa_pc" where
  "next_turn txlist ccm = (if cp_nowDataNum ccm = cp_dataTotalNum ccm then Draining else Reading txlist)"

text \<open>A full batch is sent, and so is the last one.\<close>

definition clpa_batch ::
    "Params \<Rightarrow> time \<Rightarrow> Transaction list \<Rightarrow> CLPACommitteeModule \<Rightarrow> (net_out list \<times> Transaction list \<times> CLPACommitteeModule) option" where
  "clpa_batch pr now txlist ccm =
     (if int (length txlist) = cp_batchDataNum ccm \<or> cp_nowDataNum ccm = cp_dataTotalNum ccm
      then let ccm = (if cp_clpaLastRunningTime ccm = 0 then ccm\<lparr>cp_clpaLastRunningTime := now\<rparr> else ccm)
           in map_option (\<lambda>outs. (outs, [], ccm\<lparr>cp_Ss := StopGap_Reset (cp_Ss ccm)\<rparr>)) (clpa_txSending pr ccm txlist)
      else Some ([], txlist, ccm))"

definition clpa_row ::
    "('bs, 'e) core_env_scheme \<Rightarrow> (Graph \<Rightarrow> nat \<Rightarrow> Vertex list) \<Rightarrow> time \<Rightarrow> time \<Rightarrow> bytes list \<Rightarrow> Transaction list \<Rightarrow>
     clpa_ctl \<Rightarrow> (net_out list \<times> clpa_ctl) option" where
  "clpa_row E ord now later data txlist s =
     do { t \<leftarrow> data2tx E now data (of_int (cp_nowDataNum (ctl_ccm s)));
          (case t of
             None \<Rightarrow> Some ([], s)
           | Some tx \<Rightarrow>
               do { (outs, txlist, ccm) \<leftarrow> clpa_batch (prm E) now (txlist @ [tx])
                      ((ctl_ccm s)\<lparr>cp_nowDataNum := cp_nowDataNum (ctl_ccm s) + 1\<rparr>);
                    if cp_clpaLastRunningTime ccm \<noteq> 0 \<and> clpa_due (prm E) later ccm
                    then do { (more, ccm) \<leftarrow> clpa_repartition (prm E) ord ccm;
                              Some (outs @ more, \<lparr>ctl_pc = EpochWait txlist, ctl_clpaCnt = ctl_clpaCnt s + 1, ctl_ccm = ccm\<rparr>) }
                    else Some (outs, s\<lparr>ctl_pc := next_turn txlist ccm, ctl_ccm := ccm\<rparr>) }) }"

text \<open>One poll of the wait for the next epoch, at time \<open>now\<close>.\<close>

definition clpa_epoch_poll :: "time \<Rightarrow> clpa_pc \<Rightarrow> clpa_ctl \<Rightarrow> clpa_ctl" where
  "clpa_epoch_poll now after s =
     (if cp_curEpoch (ctl_ccm s) = to_int32 (ctl_clpaCnt s)
      then s\<lparr>ctl_pc := after, ctl_ccm := (ctl_ccm s)\<lparr>cp_clpaLastRunningTime := now\<rparr>\<rparr> else s)"

text \<open>One turn of the final loop, which keeps re-partitioning until the stop signal.\<close>

definition clpa_drain_poll ::
    "Params \<Rightarrow> (Graph \<Rightarrow> nat \<Rightarrow> Vertex list) \<Rightarrow> time \<Rightarrow> clpa_ctl \<Rightarrow> (net_out list \<times> clpa_ctl) option" where
  "clpa_drain_poll pr ord now s =
     (if GapEnough (cp_Ss (ctl_ccm s)) then Some ([], s\<lparr>ctl_pc := Returned\<rparr>)
      else if clpa_due pr now (ctl_ccm s)
      then do { (outs, ccm) \<leftarrow> clpa_repartition pr ord (ctl_ccm s);
                Some (outs, \<lparr>ctl_pc = DrainWait, ctl_clpaCnt = ctl_clpaCnt s + 1, ctl_ccm = ccm\<rparr>) }
      else Some ([], s))"

text \<open>
  The events of a run. \<open>Row\<close> reads a row (\<^const>\<open>None\<close> is a read error) at the first time and checks the epoch at the second,
  \<open>Eof\<close> is the end of the file, \<open>Poll\<close> a turn of a waiting loop or of the final loop, \<open>Info\<close> a block report:
  the supervisor updates the stop signal and hands it to the committee.
\<close>

datatype clpa_event = Row time time "bytes list option" | Eof | Poll time | Info BlockInfoMsg

definition gap_update :: "BlockInfoMsg \<Rightarrow> StopSignal \<Rightarrow> StopSignal" where
  "gap_update b ss = (if bi_BlockBodyLength b = 0 then StopGap_Inc ss else StopGap_Reset ss)"

fun clpa_exec ::
    "('bs, 'e) core_env_scheme \<Rightarrow> (Graph \<Rightarrow> nat \<Rightarrow> Vertex list) \<Rightarrow> clpa_ctl \<Rightarrow> clpa_event \<Rightarrow> (net_out list \<times> clpa_ctl) option" where
  "clpa_exec E ord s (Row now later row) =
     (case ctl_pc s of
        Reading txlist \<Rightarrow> do { data \<leftarrow> row; clpa_row E ord now later data txlist s }
      | _ \<Rightarrow> Some ([], s))"
| "clpa_exec E ord s Eof = Some ([], case ctl_pc s of Reading txlist \<Rightarrow> s\<lparr>ctl_pc := Draining\<rparr> | _ \<Rightarrow> s)"
| "clpa_exec E ord s (Poll now) =
     (case ctl_pc s of
        EpochWait txlist \<Rightarrow> Some ([], clpa_epoch_poll now (next_turn txlist (ctl_ccm s)) s)
      | Draining \<Rightarrow> clpa_drain_poll (prm E) ord now s
      | DrainWait \<Rightarrow> Some ([], clpa_epoch_poll now Draining s)
      | _ \<Rightarrow> Some ([], s))"
| "clpa_exec E ord s (Info b) =
     map_option (\<lambda>ccm. ([], s\<lparr>ctl_ccm := ccm\<rparr>))
       (clpa_HandleBlockInfo (prm E) b ((ctl_ccm s)\<lparr>cp_Ss := gap_update b (cp_Ss (ctl_ccm s))\<rparr>))"

definition clpa_events ::
    "('bs, 'e) core_env_scheme \<Rightarrow> (Graph \<Rightarrow> nat \<Rightarrow> Vertex list) \<Rightarrow> clpa_ctl \<Rightarrow> clpa_event list \<Rightarrow> (net_out list \<times> clpa_ctl) option" where
  "clpa_events E ord s evs =
     foldlM (\<lambda>(outs, s) ev. map_option (\<lambda>(more, s). (outs @ more, s)) (clpa_exec E ord s ev)) ([], s) evs"

end
