(* ===== verification/Sup_Clpa_Props.thy ===== *)
theory Sup_Clpa_Props
  imports Sup_Clpa
begin

text \<open>
  The invariant of the CLPA committee: the routing of accounts always names existing shards and
  agrees with the partition the graph starts from, so no event of a run panics.
\<close>

section \<open>Updating association lists\<close>

lemma map_of_foldl_update:
  "distinct (map fst xs) \<Longrightarrow> map_of (foldl (\<lambda>m (k, v). AList.update k v m) m xs) = map_of m ++ map_of xs"
proof (induction xs arbitrary: m)
  case Nil
  then show ?case by simp
next
  case (Cons x xs)
  obtain k v where x: "x = (k, v)" by (cases x)
  have "map_of xs k = None" using Cons.prems by (simp add: x map_of_eq_None_iff)
  with Cons show ?case by (auto simp: x update_conv' map_add_def fun_eq_iff split: option.splits)
qed

lemma set_alist_update: "set (AList.update a v m) \<subseteq> insert (a, v) (set m)"
  by (induction m) auto

lemma distinct_foldl_update:
  "distinct (map fst m) \<Longrightarrow> distinct (map fst (foldl (\<lambda>m (k, v). AList.update k v m) m xs))"
  by (induction xs arbitrary: m) (auto simp: distinct_update)

section \<open>The invariant\<close>

definition shards_ok :: "Params \<Rightarrow> bool" where
  "shards_ok pr \<longleftrightarrow> 0 < pm_ShardNum pr \<and> pm_ShardNum pr < 2 ^ 63"

definition committee_ok :: "Params \<Rightarrow> CLPACommitteeModule \<Rightarrow> bool" where
  "committee_ok pr ccm \<longleftrightarrow>
     part_wf (cp_clpaGraph ccm) \<and> cl_ShardNum (cp_clpaGraph ccm) = pm_ShardNum pr
     \<and> distinct (map fst (cp_modifiedMap ccm))
     \<and> (\<forall>a v. map_of (cp_modifiedMap ccm) a = Some v \<longrightarrow> v < of_int (pm_ShardNum pr))
     \<and> (\<forall>a. home_shard (pm_ShardNum pr) (cp_clpaGraph ccm) a = map_option uint (fetchModifiedMap pr (cp_modifiedMap ccm) a))"

lemma uint_shard: "shards_ok pr \<Longrightarrow> 0 \<le> k \<Longrightarrow> k < pm_ShardNum pr \<Longrightarrow> uint (of_int k :: u64) = k"
  by (simp add: shards_ok_def uint_word_of_int)

lemma less_shard: "shards_ok pr \<Longrightarrow> 0 \<le> k \<Longrightarrow> k < pm_ShardNum pr \<Longrightarrow> (of_int k :: u64) < of_int (pm_ShardNum pr)"
  by (simp add: word_less_def shards_ok_def uint_word_of_int)

lemma sint_shard:
  assumes "shards_ok pr" and "(v :: u64) < of_int (pm_ShardNum pr)"
  shows "sint v = uint v" "uint v < pm_ShardNum pr"
proof -
  show u: "uint v < pm_ShardNum pr" using assms by (simp add: word_less_def shards_ok_def uint_word_of_int)
  then have "uint v < 2 ^ 63" using assms(1) by (simp add: shards_ok_def)
  moreover have "- (2 ^ 63) \<le> (0 :: int)" "0 \<le> uint v" by simp_all
  then have "- (2 ^ 63) \<le> uint v" by (rule order_trans)
  ultimately show "sint v = uint v" by (simp add: sint_uint signed_take_bit_int_eq_self)
qed

lemma home_route_ok:
  assumes "shards_ok pr" and "hex_address a"
  shows "\<exists>k. Addr2Shard (pm_ShardNum pr) a = Some k \<and> home_route pr a = Some (of_int k)
    \<and> 0 \<le> k \<and> k < pm_ShardNum pr"
  using assms by (auto simp: home_route_def shards_ok_def elim: Addr2Shard_total)

text \<open>Every account is routed to an existing shard.\<close>

lemma fetch_ok:
  assumes "shards_ok pr" and "committee_ok pr ccm" and "hex_address a"
  shows "\<exists>sid. fetchModifiedMap pr (cp_modifiedMap ccm) a = Some sid \<and> sid < of_int (pm_ShardNum pr)"
proof (cases "map_of (cp_modifiedMap ccm) a")
  case None
  with home_route_ok[OF assms(1,3)] less_shard[OF assms(1)] show ?thesis by (auto simp: fetchModifiedMap_def)
next
  case (Some v)
  with assms(2) show ?thesis by (auto simp: fetchModifiedMap_def committee_ok_def)
qed

text \<open>A fresh graph with the routing as its partition map.\<close>

lemma fresh_graph_wf:
  assumes "shards_ok pr"
  shows "\<exists>g. new_graph pr = Some g \<and> part_wf g \<and> cl_ShardNum g = pm_ShardNum pr \<and> cl_PartitionMap g = [] \<and> vertices g = {}"
  using assms by (auto simp: new_graph_def Init_CLPAState_def empty_CLPAState_def part_wf_def in_range_def shards_ok_def)

lemma set_shards_frame:
  "cl_NetGraph (foldl (\<lambda>g (k, v). set_shard k (sint v) g) g m) = cl_NetGraph g"
  "cl_ShardNum (foldl (\<lambda>g (k, v). set_shard k (sint v) g) g m) = cl_ShardNum g"
  "cl_VertexsNumInShard (foldl (\<lambda>g (k, v). set_shard k (sint v) g) g m) = cl_VertexsNumInShard g"
  by (induction m arbitrary: g) auto

lemma set_shards_map:
  "distinct (map fst m) \<Longrightarrow>
     map_of (cl_PartitionMap (foldl (\<lambda>g (k, v). set_shard k (sint v) g) g m)) = map_of (cl_PartitionMap g) ++ (map_option sint \<circ> map_of m)"
proof (induction m arbitrary: g)
  case Nil
  then show ?case by (auto simp: map_add_def fun_eq_iff)
next
  case (Cons x m)
  obtain k v where x: "x = (k, v)" by (cases x)
  have "map_of m k = None" using Cons.prems by (simp add: x map_of_eq_None_iff)
  with Cons show ?case
    by (auto simp: x set_shard_def update_conv' map_add_def fun_eq_iff split: option.splits)
qed

lemma home_agrees:
  assumes "shards_ok pr" and "\<forall>a v. map_of m a = Some v \<longrightarrow> v < of_int (pm_ShardNum pr)"
    and "map_of (cl_PartitionMap g) = map_option sint \<circ> map_of m"
  shows "home_shard (pm_ShardNum pr) g a = map_option uint (fetchModifiedMap pr m a)"
proof (cases "map_of m a")
  case (Some v)
  with assms sint_shard[OF assms(1), of v] show ?thesis by (simp add: home_shard_def fetchModifiedMap_def)
next
  case None
  show ?thesis
  proof (cases "Addr2Shard (pm_ShardNum pr) a")
    case None
    with \<open>map_of m a = None\<close> assms(3) show ?thesis by (simp add: home_shard_def fetchModifiedMap_def home_route_def)
  next
    case (Some k)
    have "0 \<le> k \<and> k < pm_ShardNum pr"
      using Some assms(1) by (auto simp: Addr2Shard_def Let_def bind_eq_Some_conv go_rem_nonneg shards_ok_def)
    with Some \<open>map_of m a = None\<close> assms(3) show ?thesis
      by (simp add: home_shard_def fetchModifiedMap_def home_route_def uint_shard[OF assms(1)])
  qed
qed

lemma clpaReset_ok:
  assumes pr: "shards_ok pr" and "distinct (map fst (cp_modifiedMap ccm))"
    and "\<forall>a v. map_of (cp_modifiedMap ccm) a = Some v \<longrightarrow> v < of_int (pm_ShardNum pr)"
  shows "\<exists>g. clpaReset pr ccm = Some (ccm\<lparr>cp_clpaGraph := g\<rparr>) \<and> committee_ok pr (ccm\<lparr>cp_clpaGraph := g\<rparr>)"
proof -
  obtain g0 where g0: "new_graph pr = Some g0" "part_wf g0" "cl_ShardNum g0 = pm_ShardNum pr" "cl_PartitionMap g0 = []" "vertices g0 = {}"
    using fresh_graph_wf[OF pr] by blast
  define g where "g = foldl (\<lambda>g (k, v). set_shard k (sint v) g) g0 (cp_modifiedMap ccm)"
  have f: "cl_NetGraph g = cl_NetGraph g0" "cl_ShardNum g = pm_ShardNum pr" "cl_VertexsNumInShard g = cl_VertexsNumInShard g0"
    by (simp_all add: g_def set_shards_frame g0(3))
  have "map_of (cl_PartitionMap g) = map_option sint \<circ> map_of (cp_modifiedMap ccm)"
    using set_shards_map[OF assms(2), of g0] by (simp add: g_def g0(4))
  note home = home_agrees[OF pr assms(3) this]
  have "part_wf g" using g0(2,3,5) unfolding part_wf_def in_range_def f by simp
  with home f(2) assms(2,3) have "committee_ok pr (ccm\<lparr>cp_clpaGraph := g\<rparr>)" by (simp add: committee_ok_def)
  moreover have "clpaReset pr ccm = Some (ccm\<lparr>cp_clpaGraph := g\<rparr>)" by (simp add: clpaReset_def g0(1) g_def)
  ultimately show ?thesis by blast
qed

lemma clpa_repartition_ok:
  assumes pr: "shards_ok pr" and ok: "committee_ok pr ccm" and ord: "\<forall>g i. set (ord g i) = set (gr_VertexSet g)"
  shows "\<exists>outs ccm'. clpa_repartition pr ord ccm = Some (outs, ccm') \<and> committee_ok pr ccm'
    \<and> cp_Ss ccm' = cp_Ss ccm \<and> cp_curEpoch ccm' = cp_curEpoch ccm"
proof -
  let ?g = "cp_clpaGraph ccm"
  have wf: "part_wf ?g" and sn: "cl_ShardNum ?g = pm_ShardNum pr" using ok by (auto simp: committee_ok_def)
  from CLPA_Partition_ok[OF wf, of "ord (cl_NetGraph ?g)"] ord obtain mmap cross g' where
    run: "CLPA_Partition (ord (cl_NetGraph ?g)) ?g = Some (mmap, cross, g')" and p: "progress ?g g' (map_of mmap)" and d: "distinct (map fst mmap)"
    by blast
  define m where "m = foldl (\<lambda>m (k, v). AList.update k v m) (cp_modifiedMap ccm) mmap"
  have dm: "distinct (map fst m)" using ok unfolding m_def by (intro distinct_foldl_update) (simp add: committee_ok_def)
  have mm: "map_of m = map_of (cp_modifiedMap ccm) ++ map_of mmap" unfolding m_def by (rule map_of_foldl_update[OF d])
  have "v < of_int (pm_ShardNum pr)" if "map_of m a = Some v" for a v
  proof (cases "map_of mmap a")
    case None
    with that mm ok show ?thesis by (auto simp: map_add_def committee_ok_def)
  next
    case (Some w)
    have "case map_of mmap a of None \<Rightarrow> shard_at g' a = shard_at ?g a | Some s \<Rightarrow> s = of_int (shard_at g' a)"
      using p unfolding progress_def by blast
    with Some have "w = of_int (shard_at g' a)" by simp
    moreover have "a \<in> vertices g'" "part_wf g'" "cl_ShardNum g' = pm_ShardNum pr"
      using p Some sn by (auto simp: progress_def)
    ultimately show ?thesis
      using that Some mm part_wf_shard[of g' a] less_shard[OF pr] by (auto simp: map_add_def)
  qed
  then obtain g where "clpaReset pr (ccm\<lparr>cp_clpaGraph := g', cp_modifiedMap := m\<rparr>) = Some (ccm\<lparr>cp_modifiedMap := m, cp_clpaGraph := g\<rparr>)"
    "committee_ok pr (ccm\<lparr>cp_modifiedMap := m, cp_clpaGraph := g\<rparr>)"
    using clpaReset_ok[OF pr, of "ccm\<lparr>cp_clpaGraph := g', cp_modifiedMap := m\<rparr>"] dm by auto
  then show ?thesis using run by (simp add: clpa_repartition_def flip: m_def)
qed

section \<open>Events\<close>

text \<open>The addresses that events bring in are hexadecimal, and no row is broken.\<close>

definition tx_ok :: "Transaction \<Rightarrow> bool" where
  "tx_ok tx \<longleftrightarrow> hex_address (tx_Sender tx) \<and> hex_address (tx_Recipient tx)"

fun event_ok :: "('bs, 'e) core_env_scheme \<Rightarrow> clpa_event \<Rightarrow> bool" where
  "event_ok E (Row now later row) \<longleftrightarrow>
     (\<exists>data. row = Some data \<and> (\<forall>n. \<exists>t. data2tx E now data n = Some t \<and> (\<forall>tx. t = Some tx \<longrightarrow> tx_ok tx)))"
| "event_ok E (Info b) \<longleftrightarrow> (\<forall>tx \<in> set (bi_InnerShardTxs b) \<union> set (bi_Relay2Txs b). tx_ok tx)"
| "event_ok E _ \<longleftrightarrow> True"

text \<open>The transactions that wait for the end of the batch.\<close>

fun waiting :: "clpa_pc \<Rightarrow> Transaction list" where
  "waiting (Reading txlist) = txlist"
| "waiting (EpochWait txlist) = txlist"
| "waiting _ = []"

definition ctl_ok :: "Params \<Rightarrow> clpa_ctl \<Rightarrow> bool" where
  "ctl_ok pr s \<longleftrightarrow> committee_ok pr (ctl_ccm s) \<and> (\<forall>tx \<in> set (waiting (ctl_pc s)). tx_ok tx)"

lemma committee_ok_frame [simp]:
  "committee_ok pr (ccm\<lparr>cp_nowDataNum := n\<rparr>) \<longleftrightarrow> committee_ok pr ccm"
  "committee_ok pr (ccm\<lparr>cp_curEpoch := e\<rparr>) \<longleftrightarrow> committee_ok pr ccm"
  "committee_ok pr (ccm\<lparr>cp_clpaLastRunningTime := t\<rparr>) \<longleftrightarrow> committee_ok pr ccm"
  "committee_ok pr (ccm\<lparr>cp_Ss := ss\<rparr>) \<longleftrightarrow> committee_ok pr ccm"
  by (simp_all add: committee_ok_def)

lemma clpa_txSending_ok:
  assumes "shards_ok pr" and "0 < pm_InjectSpeed pr" and "committee_ok pr ccm" and "\<forall>tx \<in> set txs. tx_ok tx"
  shows "\<exists>outs. clpa_txSending pr ccm txs = Some outs"
  using txSending_routes[OF assms(2), of txs "\<lambda>tx. fetchModifiedMap pr (cp_modifiedMap ccm) (tx_Sender tx)"] fetch_ok[OF assms(1,3)] assms(4)
  unfolding clpa_txSending_def tx_ok_def by blast

lemma add_edges_ok:
  assumes pr: "shards_ok pr" and "committee_ok pr ccm" and "\<forall>tx \<in> set txs. tx_ok tx"
  shows "\<exists>g. add_edges pr (\<lambda>tx. (tx_Sender tx, tx_Recipient tx)) (cp_clpaGraph ccm) txs = Some g \<and> committee_ok pr (ccm\<lparr>cp_clpaGraph := g\<rparr>)"
proof -
  let ?P = "\<lambda>g. committee_ok pr (ccm\<lparr>cp_clpaGraph := g\<rparr>)"
  have "\<exists>g'. CLPA_AddEdge (pm_ShardNum pr) u v g = Some g' \<and> ?P g'" if g: "?P g" and h: "hex_address u" "hex_address v" for g u v
  proof -
    have "\<exists>s. home_shard (pm_ShardNum pr) g w = Some s \<and> 0 \<le> s \<and> s < cl_ShardNum g" if w: "hex_address w" for w
    proof -
      obtain sid where "fetchModifiedMap pr (cp_modifiedMap ccm) w = Some sid" "sid < of_int (pm_ShardNum pr)"
        using fetch_ok[OF pr g w] by auto
      with g sint_shard[OF pr, of sid] show ?thesis by (simp add: committee_ok_def)
    qed
    then have "\<forall>w \<in> {u, v} - vertices g. \<exists>s. home_shard (pm_ShardNum pr) g w = Some s \<and> 0 \<le> s \<and> s < cl_ShardNum g"
      using h by auto
    from CLPA_AddEdge_ok[OF _ this] g obtain g' where "CLPA_AddEdge (pm_ShardNum pr) u v g = Some g'" "part_wf g'"
      "cl_ShardNum g' = cl_ShardNum g" "home_shard (pm_ShardNum pr) g' = home_shard (pm_ShardNum pr) g"
      by (auto simp: committee_ok_def)
    with g show ?thesis by (simp add: committee_ok_def)
  qed
  moreover have "?P (cp_clpaGraph ccm)" using assms(2) by simp
  ultimately show ?thesis
    using assms(3) unfolding add_edges_def by (intro foldlM_total) (auto simp: tx_ok_def)
qed

lemma clpa_HandleBlockInfo_ok:
  assumes "shards_ok pr" and "committee_ok pr ccm" and "\<forall>tx \<in> set (bi_InnerShardTxs b) \<union> set (bi_Relay2Txs b). tx_ok tx"
  shows "\<exists>ccm'. clpa_HandleBlockInfo pr b ccm = Some ccm' \<and> committee_ok pr ccm'"
proof -
  let ?c = "ccm\<lparr>cp_curEpoch := next_epoch b (cp_curEpoch ccm)\<rparr>"
  obtain g1 where g1: "add_edges pr (\<lambda>tx. (tx_Sender tx, tx_Recipient tx)) (cp_clpaGraph ?c) (bi_InnerShardTxs b) = Some g1"
    "committee_ok pr (?c\<lparr>cp_clpaGraph := g1\<rparr>)"
    using add_edges_ok[OF assms(1), of ?c "bi_InnerShardTxs b"] assms(2,3) by auto
  then obtain g2 where "add_edges pr (\<lambda>tx. (tx_Sender tx, tx_Recipient tx)) g1 (bi_Relay2Txs b) = Some g2"
    "committee_ok pr (?c\<lparr>cp_clpaGraph := g2\<rparr>)"
    using add_edges_ok[OF assms(1) g1(2), of "bi_Relay2Txs b"] assms(3) by auto
  with g1 assms(2) show ?thesis by (simp add: clpa_HandleBlockInfo_def Let_def)
qed

lemma clpa_batch_ok:
  assumes "shards_ok pr" "0 < pm_InjectSpeed pr" and "committee_ok pr c" and l: "\<forall>tx \<in> set l. tx_ok tx"
  shows "\<exists>outs l' c'. clpa_batch pr now l c = Some (outs, l', c') \<and> committee_ok pr c' \<and> (\<forall>tx \<in> set l'. tx_ok tx)"
proof -
  define c1 where "c1 = (if cp_clpaLastRunningTime c = 0 then c\<lparr>cp_clpaLastRunningTime := now\<rparr> else c)"
  have c1: "committee_ok pr c1" using assms(3) by (simp add: c1_def)
  with clpa_txSending_ok[OF assms(1,2) c1 l] assms(3) l show ?thesis
    unfolding clpa_batch_def c1_def[symmetric] by (auto simp: Let_def)
qed

lemma clpa_row_ok:
  assumes pr: "shards_ok (prm E)" "0 < pm_InjectSpeed (prm E)" and ord: "\<forall>g i. set (ord g i) = set (gr_VertexSet g)"
    and s: "ctl_ok (prm E) s" "ctl_pc s = Reading txlist"
    and t: "data2tx E now data (of_int (cp_nowDataNum (ctl_ccm s))) = Some t" "\<forall>tx. t = Some tx \<longrightarrow> tx_ok tx"
  shows "\<exists>outs s'. clpa_row E ord now later data txlist s = Some (outs, s') \<and> ctl_ok (prm E) s'"
proof (cases t)
  case None
  with t s show ?thesis by (simp add: clpa_row_def)
next
  case (Some tx)
  define c where "c = (ctl_ccm s)\<lparr>cp_nowDataNum := cp_nowDataNum (ctl_ccm s) + 1\<rparr>"
  have "committee_ok (prm E) c" "\<forall>tx \<in> set (txlist @ [tx]). tx_ok tx" using s t(2) Some by (auto simp: c_def ctl_ok_def)
  then obtain outs l2 c2 where b: "clpa_batch (prm E) now (txlist @ [tx]) c = Some (outs, l2, c2)"
    "committee_ok (prm E) c2" "\<forall>tx \<in> set l2. tx_ok tx" using clpa_batch_ok[OF pr] by blast
  obtain o2 c3 where r: "clpa_repartition (prm E) ord c2 = Some (o2, c3)" "committee_ok (prm E) c3"
    using clpa_repartition_ok[OF pr(1) b(2) ord] by blast
  have "\<forall>tx \<in> set (waiting (next_turn l2 c2)). tx_ok tx" using b(3) by (simp add: next_turn_def)
  with t(1) Some b r show ?thesis by (auto simp: clpa_row_def ctl_ok_def simp flip: c_def)
qed

lemma clpa_exec_ok:
  assumes pr: "shards_ok (prm E)" "0 < pm_InjectSpeed (prm E)" and ord: "\<forall>g i. set (ord g i) = set (gr_VertexSet g)"
    and s: "ctl_ok (prm E) s" and ev: "event_ok E ev"
  shows "\<exists>outs s'. clpa_exec E ord s ev = Some (outs, s') \<and> ctl_ok (prm E) s'"
proof (cases ev)
  case (Row now later row)
  with ev obtain data where "row = Some data" "\<forall>n. \<exists>t. data2tx E now data n = Some t \<and> (\<forall>tx. t = Some tx \<longrightarrow> tx_ok tx)" by auto
  with clpa_row_ok[OF pr ord s] Row s show ?thesis by (cases "ctl_pc s") (auto, metis)
next
  case Eof
  with s show ?thesis by (cases "ctl_pc s") (auto simp: ctl_ok_def)
next
  case (Poll now)
  have poll: "ctl_ok (prm E) (clpa_epoch_poll now pc s)" if "\<forall>tx \<in> set (waiting pc). tx_ok tx" for pc
    using s that by (simp add: clpa_epoch_poll_def ctl_ok_def)
  have drain: "\<exists>outs s'. clpa_drain_poll (prm E) ord now s = Some (outs, s') \<and> ctl_ok (prm E) s'"
    using clpa_repartition_ok[OF pr(1) _ ord, of "ctl_ccm s"] s by (auto simp: clpa_drain_poll_def ctl_ok_def)
  show ?thesis
  proof (cases "ctl_pc s")
    case (EpochWait txlist)
    then have "\<forall>tx \<in> set (waiting (next_turn txlist (ctl_ccm s))). tx_ok tx" using s by (simp add: ctl_ok_def next_turn_def)
    from poll[OF this] Poll EpochWait show ?thesis by simp
  next
    case DrainWait
    with poll[of Draining] Poll show ?thesis by simp
  qed (use Poll drain s in simp_all)
next
  case (Info b)
  with ev clpa_HandleBlockInfo_ok[OF pr(1), of "(ctl_ccm s)\<lparr>cp_Ss := gap_update b (cp_Ss (ctl_ccm s))\<rparr>" b] s
  show ?thesis by (auto simp: ctl_ok_def)
qed


definition demo_info :: BlockInfoMsg where
  "demo_info = \<lparr>bi_BlockBodyLength = 1, bi_InnerShardTxs = [sample_tx ''0a'' ''0b'' 5], bi_Epoch = 1, bi_ProposeTime = 1,
     bi_CommitTime = 2, bi_SenderShardID = 0, bi_Relay1Txs = [], bi_Relay2Txs = [], bi_Broker1Txs = [], bi_Broker2Txs = []\<rparr>"

definition demo_events :: "clpa_event list" where
  "demo_events = [Info demo_info, Row 1 90000000000 (Some (demo_row ''5'')), Poll 91000000000, Eof, Poll 160000000000]"

definition demo_ccm :: CLPACommitteeModule where
  "demo_ccm = the (NewCLPACommitteeModule demo_params (\<lambda>_ _. []) (NewStopSignal 6) 1 16 50)"


end
