(* ===== verification/Sup_Contrib.thy ===== *)
theory Sup_Contrib
  imports Sup_Clpa
begin

text \<open>
  The contribution committee (\<^verbatim>\<open>supervisor/committee/committee_contrib.go\<close>): one contribution state per
  shard, updated by the block reports, and a reallocation of the accounts with low contributions when
  the epoch is over. The contribution states are an association list in iteration order.
\<close>

record ContribCommitteeModule =
  cn_dataTotalNum :: int
  cn_nowDataNum :: int
  cn_batchDataNum :: int
  cn_curEpoch :: int
  cn_contribStates :: "(u64 \<times> ContribState) list"
  cn_modifiedMap :: modified_map
  cn_contribLastRunningTime :: time
  cn_contribFreq :: int
  cn_Ss :: StopSignal
  cn_IpNodeTable :: ip_table

definition NewContribCommitteeModule :: "Params \<Rightarrow> ip_table \<Rightarrow> StopSignal \<Rightarrow> int \<Rightarrow> int \<Rightarrow> int \<Rightarrow> ContribCommitteeModule" where
  "NewContribCommitteeModule pr ips Ss dataNum batchNum contribFrequency =
     \<lparr>cn_dataTotalNum = dataNum, cn_nowDataNum = 0, cn_batchDataNum = batchNum, cn_curEpoch = 0,
      cn_contribStates = map (\<lambda>sid. (sid, Init_ContribState sid (of_int (pm_ShardNum pr)) (round64 (9 / 10)) f64_one (Fin 5) (Fin 20)))
                           (u64_range (of_int (pm_ShardNum pr))),
      cn_modifiedMap = [], cn_contribLastRunningTime = 0, cn_contribFreq = contribFrequency, cn_Ss = Ss, cn_IpNodeTable = ips\<rparr>"

definition contrib_fetchModifiedMap :: "Params \<Rightarrow> modified_map \<Rightarrow> address \<Rightarrow> u64 option" where
  "contrib_fetchModifiedMap pr m key = (case map_of m key of Some val \<Rightarrow> Some val | None \<Rightarrow> home_route pr key)"

definition contrib_txSending :: "Params \<Rightarrow> ContribCommitteeModule \<Rightarrow> Transaction list \<Rightarrow> net_out list option" where
  "contrib_txSending pr ccm txlist =
     txSending pr (cn_IpNodeTable ccm) (\<lambda>tx. contrib_fetchModifiedMap pr (cn_modifiedMap ccm) (tx_Sender tx)) txlist"

definition contribMapSend :: "Params \<Rightarrow> ContribCommitteeModule \<Rightarrow> modified_map \<Rightarrow> net_out list" where
  "contribMapSend pr ccm m = map (\<lambda>i. Dial (cn_IpNodeTable ccm i 0) (CPartitionMsg m)) (u64_range (of_int (pm_ShardNum pr)))"

definition update_all :: "('k \<times> 'v) list \<Rightarrow> ('k \<times> 'v) list \<Rightarrow> ('k \<times> 'v) list" where
  "update_all m xs = foldl (\<lambda>m (key, val). AList.update key val m) m xs"

text \<open>The critical section of the sending loop: decay, the plans of all shards in one map, and the new record.\<close>

definition contrib_repartition :: "Params \<Rightarrow> ContribCommitteeModule \<Rightarrow> (net_out list \<times> ContribCommitteeModule) option" where
  "contrib_repartition pr ccm =
     do { let states = map (\<lambda>(sid, cs). (sid, DecayAllContributions cs)) (cn_contribStates ccm);
          plan \<leftarrow> foldlM (\<lambda>m (sid, cs). map_option (update_all m) (ComputeReallocation cs)) [] states;
          Some (contribMapSend pr ccm plan,
                ccm\<lparr>cn_contribStates := states, cn_modifiedMap := update_all (cn_modifiedMap ccm) plan\<rparr>) }"

definition contrib_due :: "Params \<Rightarrow> time \<Rightarrow> ContribCommitteeModule \<Rightarrow> bool" where
  "contrib_due pr now ccm \<longleftrightarrow>
     pm_ShardNum pr > 1 \<and> time_Sub now (cn_contribLastRunningTime ccm) \<ge> cn_contribFreq ccm * 1000000000"

text \<open>A report of a shard without a contribution state is a nil pointer.\<close>

definition contrib_report :: "BlockInfoMsg \<Rightarrow> ContribState \<Rightarrow> ContribState" where
  "contrib_report b cs =
     (let cs = foldl (\<lambda>cs tx. AddLocalAccount (tx_Recipient tx) (AddLocalAccount (tx_Sender tx)
                 (UpdateContribution (tx_Recipient tx) True (UpdateContribution (tx_Sender tx) True cs)))) cs (bi_InnerShardTxs b);
          cs = cs\<lparr>ct_CrossShardTxCount := ct_CrossShardTxCount cs + int (length (bi_Relay1Txs b) + length (bi_Relay2Txs b))\<rparr>;
          cs = foldl (\<lambda>cs tx. UpdateContribution (tx_Sender tx) False cs) cs (bi_Relay1Txs b)
      in foldl (\<lambda>cs tx. UpdateContribution (tx_Recipient tx) False cs) cs (bi_Relay2Txs b))"

definition contrib_HandleBlockInfo :: "BlockInfoMsg \<Rightarrow> ContribCommitteeModule \<Rightarrow> ContribCommitteeModule option" where
  "contrib_HandleBlockInfo b ccm =
     (let ccm = ccm\<lparr>cn_curEpoch := next_epoch b (cn_curEpoch ccm)\<rparr>
      in if bi_BlockBodyLength b = 0 then Some ccm
         else do { cs \<leftarrow> map_of (cn_contribStates ccm) (bi_SenderShardID b);
                   Some (ccm\<lparr>cn_contribStates := AList.update (bi_SenderShardID b) (contrib_report b cs) (cn_contribStates ccm)\<rparr>) })"

section \<open>The sending loop\<close>

record contrib_ctl =
  cnc_pc :: clpa_pc
  cnc_contribCnt :: int
  cnc_ccm :: ContribCommitteeModule

definition contrib_next_turn :: "Transaction list \<Rightarrow> ContribCommitteeModule \<Rightarrow> clpa_pc" where
  "contrib_next_turn txlist ccm = (if cn_nowDataNum ccm = cn_dataTotalNum ccm then Draining else Reading txlist)"

definition contrib_batch ::
    "Params \<Rightarrow> time \<Rightarrow> Transaction list \<Rightarrow> ContribCommitteeModule \<Rightarrow> (net_out list \<times> Transaction list \<times> ContribCommitteeModule) option" where
  "contrib_batch pr now txlist ccm =
     (if int (length txlist) = cn_batchDataNum ccm \<or> cn_nowDataNum ccm = cn_dataTotalNum ccm
      then let ccm = (if cn_contribLastRunningTime ccm = 0 then ccm\<lparr>cn_contribLastRunningTime := now\<rparr> else ccm)
           in map_option (\<lambda>outs. (outs, [], ccm\<lparr>cn_Ss := StopGap_Reset (cn_Ss ccm)\<rparr>)) (contrib_txSending pr ccm txlist)
      else Some ([], txlist, ccm))"

definition contrib_row ::
    "('bs, 'e) core_env_scheme \<Rightarrow> time \<Rightarrow> time \<Rightarrow> bytes list \<Rightarrow> Transaction list \<Rightarrow> contrib_ctl \<Rightarrow> (net_out list \<times> contrib_ctl) option" where
  "contrib_row E now later data txlist s =
     do { t \<leftarrow> data2tx E now data (of_int (cn_nowDataNum (cnc_ccm s)));
          (case t of
             None \<Rightarrow> Some ([], s)
           | Some tx \<Rightarrow>
               do { (outs, txlist, ccm) \<leftarrow> contrib_batch (prm E) now (txlist @ [tx])
                      ((cnc_ccm s)\<lparr>cn_nowDataNum := cn_nowDataNum (cnc_ccm s) + 1\<rparr>);
                    if cn_contribLastRunningTime ccm \<noteq> 0 \<and> contrib_due (prm E) later ccm
                    then do { (more, ccm) \<leftarrow> contrib_repartition (prm E) ccm;
                              Some (outs @ more, \<lparr>cnc_pc = EpochWait txlist, cnc_contribCnt = cnc_contribCnt s + 1, cnc_ccm = ccm\<rparr>) }
                    else Some (outs, s\<lparr>cnc_pc := contrib_next_turn txlist ccm, cnc_ccm := ccm\<rparr>) }) }"

definition contrib_epoch_poll :: "time \<Rightarrow> clpa_pc \<Rightarrow> contrib_ctl \<Rightarrow> contrib_ctl" where
  "contrib_epoch_poll now after s =
     (if cn_curEpoch (cnc_ccm s) = to_int32 (cnc_contribCnt s)
      then s\<lparr>cnc_pc := after, cnc_ccm := (cnc_ccm s)\<lparr>cn_contribLastRunningTime := now\<rparr>\<rparr> else s)"

definition contrib_drain_poll :: "Params \<Rightarrow> time \<Rightarrow> contrib_ctl \<Rightarrow> (net_out list \<times> contrib_ctl) option" where
  "contrib_drain_poll pr now s =
     (if GapEnough (cn_Ss (cnc_ccm s)) then Some ([], s\<lparr>cnc_pc := Returned\<rparr>)
      else if contrib_due pr now (cnc_ccm s)
      then do { (outs, ccm) \<leftarrow> contrib_repartition pr (cnc_ccm s);
                Some (outs, \<lparr>cnc_pc = DrainWait, cnc_contribCnt = cnc_contribCnt s + 1, cnc_ccm = ccm\<rparr>) }
      else Some ([], s))"

fun contrib_exec ::
    "('bs, 'e) core_env_scheme \<Rightarrow> contrib_ctl \<Rightarrow> clpa_event \<Rightarrow> (net_out list \<times> contrib_ctl) option" where
  "contrib_exec E s (Row now later row) =
     (case cnc_pc s of
        Reading txlist \<Rightarrow> do { data \<leftarrow> row; contrib_row E now later data txlist s }
      | _ \<Rightarrow> Some ([], s))"
| "contrib_exec E s Eof = Some ([], case cnc_pc s of Reading txlist \<Rightarrow> s\<lparr>cnc_pc := Draining\<rparr> | _ \<Rightarrow> s)"
| "contrib_exec E s (Poll now) =
     (case cnc_pc s of
        EpochWait txlist \<Rightarrow> Some ([], contrib_epoch_poll now (contrib_next_turn txlist (cnc_ccm s)) s)
      | Draining \<Rightarrow> contrib_drain_poll (prm E) now s
      | DrainWait \<Rightarrow> Some ([], contrib_epoch_poll now Draining s)
      | _ \<Rightarrow> Some ([], s))"
| "contrib_exec E s (Info b) =
     map_option (\<lambda>ccm. ([], s\<lparr>cnc_ccm := ccm\<rparr>))
       (contrib_HandleBlockInfo b ((cnc_ccm s)\<lparr>cn_Ss := gap_update b (cn_Ss (cnc_ccm s))\<rparr>))"

section \<open>Accounts stay local where they were\<close>

text \<open>
  A reallocation moves accounts to other shards, but no account ever leaves the set of local accounts
  of the shard that gave it away: \<^verbatim>\<open>RemoveLocalAccount\<close> has no caller. The shard plans the same accounts again
  in every later epoch in which their contribution there is low.
\<close>

definition local_accounts :: "ContribCommitteeModule \<Rightarrow> u64 \<Rightarrow> address set" where
  "local_accounts ccm sid = (case map_of (cn_contribStates ccm) sid of None \<Rightarrow> {} | Some cs \<Rightarrow> set (ct_LocalAccounts cs))"

lemma UpdateContribution_local [simp]: "ct_LocalAccounts (UpdateContribution a l cs) = ct_LocalAccounts cs"
  by (simp add: UpdateContribution_def Let_def)

lemma fold_update_local: "ct_LocalAccounts (foldl (\<lambda>cs tx. UpdateContribution (f tx) l cs) cs txs) = ct_LocalAccounts cs"
  by (induction txs arbitrary: cs) simp_all

lemma fold_inner_local: "set (ct_LocalAccounts cs) \<subseteq> set (ct_LocalAccounts (foldl (\<lambda>cs tx. AddLocalAccount (tx_Recipient tx) (AddLocalAccount (tx_Sender tx)
     (UpdateContribution (tx_Recipient tx) True (UpdateContribution (tx_Sender tx) True cs)))) cs txs))"
proof (induction txs arbitrary: cs)
  case Nil
  then show ?case by simp
next
  case (Cons tx txs)
  show ?case
    using Cons[of "AddLocalAccount (tx_Recipient tx) (AddLocalAccount (tx_Sender tx)
      (UpdateContribution (tx_Recipient tx) True (UpdateContribution (tx_Sender tx) True cs)))"]
    by (auto simp: AddLocalAccount_def)
qed

lemma contrib_report_local: "set (ct_LocalAccounts cs) \<subseteq> set (ct_LocalAccounts (contrib_report b cs))"
  using fold_inner_local by (simp add: contrib_report_def Let_def fold_update_local)

lemma contrib_repartition_local:
  assumes "contrib_repartition pr ccm = Some (outs, ccm')"
  shows "local_accounts ccm' = local_accounts ccm"
proof -
  have "cn_contribStates ccm' = map (\<lambda>(sid, cs). (sid, DecayAllContributions cs)) (cn_contribStates ccm)"
    using assms by (auto simp: contrib_repartition_def Let_def bind_eq_Some_conv)
  then have "map_of (cn_contribStates ccm') sid = map_option DecayAllContributions (map_of (cn_contribStates ccm) sid)" for sid
    by (simp add: map_of_map)
  then show ?thesis by (auto simp: local_accounts_def fun_eq_iff DecayAllContributions_def split: option.splits)
qed

lemma contrib_HandleBlockInfo_local:
  assumes "contrib_HandleBlockInfo b ccm = Some ccm'"
  shows "local_accounts ccm sid \<subseteq> local_accounts ccm' sid"
  using assms
  by (auto simp: contrib_HandleBlockInfo_def Let_def bind_eq_Some_conv local_accounts_def update_conv'
      split: if_splits option.splits intro: subsetD[OF contrib_report_local])

end
