(* ===== verification/Go_Parse.thy ===== *)
theory Go_Parse
  imports Go_Float
begin

text \<open>
  \<^verbatim>\<open>strconv.ParseFloat(s, 64)\<close> of the standard library: decimal and hexadecimal numbers with optional
  sign, fraction, exponent and underscores between digits, and the names of the special values. The
  result is the exact value of the text, rounded once; a text that is too large gives an infinity and one that
  is not a number gives zero, in both cases with an error that the callers here ignore.
\<close>

definition ascii_lower :: "char \<Rightarrow> char" where
  "ascii_lower c = (let n = (of_char c :: nat) in if 65 \<le> n \<and> n \<le> 90 then char_of (n + 32) else c)"

definition digit_of :: "bool \<Rightarrow> char \<Rightarrow> int option" where
  "digit_of hex c =
     (let n = (of_char (ascii_lower c) :: int)
      in if 48 \<le> n \<and> n \<le> 57 then Some (n - 48)
         else if hex \<and> 97 \<le> n \<and> n \<le> 102 then Some (n - 87) else None)"

text \<open>The digits before the exponent: the number without its point, the digits after the point, whether there is a digit, and the rest.\<close>

fun scan_mantissa :: "bool \<Rightarrow> bool \<Rightarrow> int \<times> nat \<times> bool \<Rightarrow> bytes \<Rightarrow> (int \<times> nat \<times> bool) \<times> bytes" where
  "scan_mantissa hex sawdot acc [] = (acc, [])"
| "scan_mantissa hex sawdot (mant, fracs, sawdigits) (c # s) =
     (if c = CHR ''_'' then scan_mantissa hex sawdot (mant, fracs, sawdigits) s
      else if c = CHR ''.'' \<and> \<not> sawdot then scan_mantissa hex True (mant, fracs, sawdigits) s
      else case digit_of hex c of
             Some d \<Rightarrow> scan_mantissa hex sawdot ((if hex then 16 else 10) * mant + d, if sawdot then Suc fracs else fracs, True) s
           | None \<Rightarrow> ((mant, fracs, sawdigits), c # s))"

text \<open>The digits of an exponent; it stops growing at five digits.\<close>

fun scan_exponent :: "int \<Rightarrow> bytes \<Rightarrow> int \<times> bytes" where
  "scan_exponent e [] = (e, [])"
| "scan_exponent e (c # s) =
     (if c = CHR ''_'' then scan_exponent e s
      else case digit_of False c of
             Some d \<Rightarrow> scan_exponent (if e < 10000 then 10 * e + d else e) s
           | None \<Rightarrow> (e, c # s))"

definition take_sign :: "bytes \<Rightarrow> bool \<times> bytes" where
  "take_sign s = (case s of c # r \<Rightarrow> if c = CHR ''-'' then (True, r) else if c = CHR ''+'' then (False, r) else (False, s) | [] \<Rightarrow> (False, s))"

text \<open>An exponent must have a digit first; a hexadecimal number must have an exponent.\<close>

definition parse_exponent :: "bool \<Rightarrow> bytes \<Rightarrow> (int \<times> bytes) option" where
  "parse_exponent hex s =
     (case s of
        c # r \<Rightarrow> if ascii_lower c = (if hex then CHR ''p'' else CHR ''e'')
                 then let (neg, r) = take_sign r
                      in (case r of
                            d # _ \<Rightarrow> if digit_of False d = None then None
                                     else let (e, rest) = scan_exponent 0 r in Some (if neg then - e else e, rest)
                          | [] \<Rightarrow> None)
                 else if hex then None else Some (0, s)
      | [] \<Rightarrow> if hex then None else Some (0, []))"

text \<open>Underscores stand between digits or after the base prefix. The first argument is what was seen last: a digit, an underscore or something else.\<close>

datatype seen = SawDigit | SawUnderscore | SawOther

fun underscores_from :: "bool \<Rightarrow> seen \<Rightarrow> bytes \<Rightarrow> bool" where
  "underscores_from hex l [] = (l \<noteq> SawUnderscore)"
| "underscores_from hex l (c # s) =
     (if digit_of hex c \<noteq> None then underscores_from hex SawDigit s
      else if c = CHR ''_'' then l = SawDigit \<and> underscores_from hex SawUnderscore s
      else l \<noteq> SawUnderscore \<and> underscores_from hex SawOther s)"

definition underscoreOK :: "bytes \<Rightarrow> bool" where
  "underscoreOK s =
     (let s = snd (take_sign s)
      in case s of
           c # d # r \<Rightarrow> if c = CHR ''0'' \<and> ascii_lower d \<in> {CHR ''b'', CHR ''o'', CHR ''x''}
                        then underscores_from (ascii_lower d = CHR ''x'') SawDigit r else underscores_from False SawOther s
         | _ \<Rightarrow> underscores_from False SawOther s)"

definition ParseFloat :: "bytes \<Rightarrow> f64" where
  "ParseFloat s =
     (let (neg, r) = take_sign s; lower = map ascii_lower r
      in if lower = ''inf'' \<or> lower = ''infinity'' then Inf neg
         else if map ascii_lower s = ''nan'' then NaN
         else let hex = (case r of c # d # _ # _ \<Rightarrow> c = CHR ''0'' \<and> ascii_lower d = CHR ''x'' | _ \<Rightarrow> False);
                  ((mant, fracs, sawdigits), rest) = scan_mantissa hex False (0, 0, False) (if hex then drop 2 r else r)
              in (case (if sawdigits then parse_exponent hex rest else None) of
                    Some (e, []) \<Rightarrow>
                      if CHR ''_'' \<in> set s \<and> \<not> underscoreOK s then f64_zero
                      else let q = of_int mant / (if hex then 16 else 10) ^ fracs * (if hex then pow2 e else if 0 \<le> e then 10 ^ nat e else 1 / 10 ^ nat (- e))
                           in if q = 0 then Zero neg else round64 (if neg then - q else q)
                  | _ \<Rightarrow> f64_zero))"

text \<open>
  A conversion to \<^verbatim>\<open>int64\<close> drops the fraction. What it gives for a value that does not fit is left to the
  implementation; \<open>unfit\<close> is that choice.
\<close>

definition int64_of :: "(f64 \<Rightarrow> int) \<Rightarrow> f64 \<Rightarrow> int" where
  "int64_of unfit x =
     (case x of
        Zero _ \<Rightarrow> 0
      | Fin q \<Rightarrow> let k = (if q < 0 then - floor (- q) else floor q) in if - (2 ^ 63) \<le> k \<and> k < 2 ^ 63 then k else unfit x
      | _ \<Rightarrow> unfit x)"

end
