(* ===== verification/Sup_PLouvain.thy ===== *)
theory Sup_PLouvain
  imports Sup_Clpa_Props Go_Parse
begin

text \<open>
  The PLouvain committee (\<^verbatim>\<open>supervisor/committee/committee_plouvain.go\<close>): it reads the whole data set, partitions
  the accounts in four phases, and sends the transactions by that partition. The order in which Go ranges
  over a map is not fixed, and neither is the order of equal elements after \<^verbatim>\<open>sort.Slice\<close>; these orders, which
  decide the sums of floating-point weights and the moves, are the record \<open>pl_orders\<close>. Log output is left out,
  and so are the pauses between injections.
\<close>

section \<open>Data\<close>

record PL_Transaction =
  pt_Sender :: address
  pt_Recipient :: address
  pt_Value :: f64

type_synonym pl_graph = "(address \<times> (address \<times> f64) list) list"

type_synonym pl_partition = "(address \<times> u64) list"

text \<open>
  \<open>po_sort\<close> is the range over the counts followed by the sort; \<open>po_nodes\<close> and \<open>po_nbrs\<close> are the orders of the accounts and of the
  neighbours of an account in a phase and an iteration of it; \<open>po_parts\<close> and \<open>po_send\<close> order the partition and the pending batches.
\<close>

record pl_orders =
  po_sort :: "(address \<times> int) list \<Rightarrow> (address \<times> int) list"
  po_nodes :: "nat \<Rightarrow> nat \<Rightarrow> address list"
  po_nbrs :: "nat \<Rightarrow> nat \<Rightarrow> address \<Rightarrow> address list"
  po_parts :: "pl_partition \<Rightarrow> pl_partition"
  po_send :: "(u64 \<times> Transaction list) list \<Rightarrow> (u64 \<times> Transaction list) list"

text \<open>The table of addresses gives, for a shard that has an entry with a node, the address the range visits first.\<close>

record PLouvainCommittee =
  pl_dataTotalNum :: int
  pl_nowDataNum :: int
  pl_batchDataNum :: int
  pl_reconfigTimeGap :: int
  pl_firstIp :: "u64 \<Rightarrow> bytes option"
  pl_partitionMap :: pl_partition
  pl_Ss :: StopSignal

definition NewPLouvainCommitteeModule :: "(u64 \<Rightarrow> bytes option) \<Rightarrow> StopSignal \<Rightarrow> int \<Rightarrow> int \<Rightarrow> int \<Rightarrow> PLouvainCommittee" where
  "NewPLouvainCommitteeModule ips Ss dataNum batchNum reconfigTimeGap =
     \<lparr>pl_dataTotalNum = dataNum, pl_nowDataNum = 0, pl_batchDataNum = batchNum, pl_reconfigTimeGap = reconfigTimeGap,
      pl_firstIp = ips, pl_partitionMap = [], pl_Ss = Ss\<rparr>"

text \<open>The header row and the rows after \<^verbatim>\<open>dataTotalNum\<close> are skipped, and so are rows with fewer than five columns.\<close>

definition loadAllTransactions :: "PLouvainCommittee \<Rightarrow> bytes list list \<Rightarrow> PL_Transaction list" where
  "loadAllTransactions p records =
     List.map_filter (\<lambda>(i, record).
        if i = 0 \<or> int i > pl_dataTotalNum p then None
        else if length record < 5 then None
        else Some \<lparr>pt_Sender = record ! 2, pt_Recipient = record ! 3, pt_Value = ParseFloat (record ! 4)\<rparr>)
       (enumerate 0 records)"

section \<open>The graph\<close>

definition pl_row :: "pl_graph \<Rightarrow> address \<Rightarrow> (address \<times> f64) list" where
  "pl_row g a = assoc_get g a"

definition pl_weight :: "pl_graph \<Rightarrow> address \<Rightarrow> address \<Rightarrow> f64" where
  "pl_weight g a b = (case map_of (pl_row g a) b of None \<Rightarrow> f64_zero | Some w \<Rightarrow> w)"

definition pl_touch :: "address \<Rightarrow> pl_graph \<Rightarrow> pl_graph" where
  "pl_touch a g = (if map_of g a = None then AList.update a [] g else g)"

definition pl_add :: "address \<Rightarrow> address \<Rightarrow> f64 \<Rightarrow> pl_graph \<Rightarrow> pl_graph" where
  "pl_add a b v g = AList.update a (AList.update b (pl_weight g a b + v) (pl_row g a)) g"

definition pl_add_tx :: "pl_graph \<Rightarrow> PL_Transaction \<Rightarrow> pl_graph" where
  "pl_add_tx g tx =
     (let s = pt_Sender tx; r = pt_Recipient tx
      in pl_add r s (pt_Value tx) (pl_add s r (pt_Value tx) (pl_touch r (pl_touch s g))))"

definition pl_build :: "PL_Transaction list \<Rightarrow> pl_graph" where
  "pl_build txs = foldl pl_add_tx [] txs"

section \<open>The initial partition\<close>

definition count_up :: "address \<Rightarrow> (address \<times> int) list \<Rightarrow> (address \<times> int) list" where
  "count_up a m = AList.update a ((case map_of m a of None \<Rightarrow> 0 | Some c \<Rightarrow> c) + 1) m"

definition addrTxCount :: "PL_Transaction list \<Rightarrow> (address \<times> int) list" where
  "addrTxCount txs = foldl (\<lambda>m tx. count_up (pt_Recipient tx) (count_up (pt_Sender tx) m)) [] txs"

text \<open>The search for the first best element of a slice of \<open>n\<close> elements, which the phases repeat.\<close>

definition scan_best :: "('a \<Rightarrow> 'a \<Rightarrow> bool) \<Rightarrow> int \<Rightarrow> 'a list \<Rightarrow> (int \<times> 'a) option" where
  "scan_best better n xs =
     do { x0 \<leftarrow> slice_get xs 0;
          foldlM (\<lambda>(i, b) sid. map_option (\<lambda>x. if better x b then (sid, x) else (i, b)) (slice_get xs sid)) (0, x0) [1..n - 1] }"

definition greedy_step :: "int \<Rightarrow> pl_partition \<times> int list \<Rightarrow> address \<times> int \<Rightarrow> (pl_partition \<times> int list) option" where
  "greedy_step numShards = (\<lambda>(part, shardWorkload) (addr, cnt).
     do { (minShard, _) \<leftarrow> scan_best (<) numShards shardWorkload;
          wl \<leftarrow> bump shardWorkload minShard (\<lambda>w. w + cnt);
          Some (AList.update addr (of_int minShard) part, wl) })"

definition transactionBasedPartitioning :: "pl_orders \<Rightarrow> PL_Transaction list \<Rightarrow> int \<Rightarrow> pl_partition option" where
  "transactionBasedPartitioning ord allTxs numShards =
     do { wl \<leftarrow> make_slice numShards 0;
          (part, _) \<leftarrow> foldlM (greedy_step numShards) ([], wl) (po_sort ord (addrTxCount allTxs));
          Some part }"

section \<open>Moving accounts to the shard of their neighbours\<close>

text \<open>\<^verbatim>\<open>partition[a]\<close>: zero when there is no entry.\<close>

definition part_at :: "pl_partition \<Rightarrow> address \<Rightarrow> u64" where
  "part_at part a = (case map_of part a of None \<Rightarrow> 0 | Some s \<Rightarrow> s)"

definition shardWeights :: "int \<Rightarrow> pl_graph \<Rightarrow> pl_partition \<Rightarrow> address \<Rightarrow> address list \<Rightarrow> f64 list option" where
  "shardWeights numShards g part node nbrs =
     do { ws \<leftarrow> make_slice numShards f64_zero;
          foldlM (\<lambda>ws nb. bump ws (uint (part_at part nb)) (\<lambda>w. w + pl_weight g node nb)) ws nbrs }"

text \<open>The two middle phases have the same loop with different factors and bounds.\<close>

definition move_turn :: "f64 \<Rightarrow> int \<Rightarrow> pl_graph \<Rightarrow> (address \<Rightarrow> address list) \<Rightarrow> pl_partition \<times> int \<Rightarrow> address \<Rightarrow> (pl_partition \<times> int) option" where
  "move_turn factor numShards g nbrs = (\<lambda>(part, moved) node.
     do { ws \<leftarrow> shardWeights numShards g part node (nbrs node);
          (maxShard, maxWeight) \<leftarrow> scan_best (>) numShards ws;
          currentShardWeight \<leftarrow> slice_get ws (uint (part_at part node));
          Some (if maxWeight > currentShardWeight * factor then (AList.update node (of_int maxShard) part, moved + 1)
                else (part, moved)) })"

fun move_passes ::
    "f64 \<Rightarrow> int \<Rightarrow> pl_graph \<Rightarrow> (nat \<Rightarrow> address list) \<Rightarrow> (nat \<Rightarrow> address \<Rightarrow> address list) \<Rightarrow> nat \<Rightarrow> nat \<Rightarrow> pl_partition \<Rightarrow> pl_partition option" where
  "move_passes factor numShards g nodes nbrs 0 iter part = Some part"
| "move_passes factor numShards g nodes nbrs (Suc left) iter part =
     do { (part, moved) \<leftarrow> foldlM (move_turn factor numShards g (nbrs iter)) (part, 0) (nodes iter);
          if moved = 0 then Some part else move_passes factor numShards g nodes nbrs left (Suc iter) part }"

definition louvainOptimization :: "pl_orders \<Rightarrow> pl_partition \<Rightarrow> pl_graph \<Rightarrow> int \<Rightarrow> pl_partition option" where
  "louvainOptimization ord part g numShards =
     move_passes (round64 (12 / 10)) numShards g (po_nodes ord 0) (po_nbrs ord 0) 5 0 part"

definition optimizeBoundaryNodes :: "pl_orders \<Rightarrow> pl_partition \<Rightarrow> pl_graph \<Rightarrow> int \<Rightarrow> pl_partition option" where
  "optimizeBoundaryNodes ord part g numShards =
     move_passes (Fin (3 / 2)) numShards g (po_nodes ord 1) (po_nbrs ord 1) 3 0 part"

section \<open>Balancing\<close>

definition inner_workload :: "pl_partition \<Rightarrow> PL_Transaction list \<Rightarrow> int \<Rightarrow> int list option" where
  "inner_workload part allTxs numShards =
     do { wl \<leftarrow> make_slice numShards 0;
          foldlM (\<lambda>wl tx.
            (case (map_of part (pt_Sender tx), map_of part (pt_Recipient tx)) of
               (Some s, Some r) \<Rightarrow> if s = r then bump wl (uint s) (\<lambda>w. w + 1) else Some wl
             | _ \<Rightarrow> Some wl)) wl allTxs }"

definition group_nodes :: "pl_orders \<Rightarrow> pl_partition \<Rightarrow> int \<Rightarrow> address list list option" where
  "group_nodes ord part numShards =
     do { sn \<leftarrow> make_slice numShards [];
          foldlM (\<lambda>sn (node, shard). bump sn (uint shard) (\<lambda>l. l @ [node])) sn (po_parts ord part) }"

definition crossShardEdges :: "pl_graph \<Rightarrow> pl_partition \<Rightarrow> int \<Rightarrow> address \<Rightarrow> int" where
  "crossShardEdges g part maxShard node =
     int (length (filter (\<lambda>(nb, _). case map_of part nb of Some s \<Rightarrow> s \<noteq> of_int maxShard | None \<Rightarrow> False) (pl_row g node)))"

definition bestNode :: "pl_graph \<Rightarrow> pl_partition \<Rightarrow> int \<Rightarrow> address list \<Rightarrow> address \<times> int" where
  "bestNode g part maxShard nodes =
     foldl (\<lambda>(best, most) node. let c = crossShardEdges g part maxShard node in if c > most then (node, c) else (best, most)) ([], 0) nodes"

text \<open>One iteration; \<^const>\<open>None\<close> inside says that the loop ends.\<close>

definition balance_turn ::
    "pl_graph \<Rightarrow> PL_Transaction list \<Rightarrow> int \<Rightarrow> f64 \<Rightarrow> pl_partition \<times> address list list \<times> int list \<Rightarrow>
     (pl_partition \<times> address list list \<times> int list) option option" where
  "balance_turn g allTxs numShards avgWorkload = (\<lambda>(part, shardNodes, shardWorkload).
     do { (maxShard, maxWorkload) \<leftarrow> scan_best (>) numShards shardWorkload;
          (minShard, _) \<leftarrow> scan_best (<) numShards shardWorkload;
          if float64 maxWorkload < avgWorkload * round64 (13 / 10) then Some None
          else do { nodes \<leftarrow> slice_get shardNodes maxShard;
            let (best, most) = bestNode g part maxShard nodes;
            if best = [] \<or> most = 0 then Some None
            else do { let part = AList.update best (of_int minShard) part;
                      sn \<leftarrow> slice_set shardNodes maxShard (remove1 best nodes);
                      sn \<leftarrow> bump sn minShard (\<lambda>l. l @ [best]);
                      wl \<leftarrow> inner_workload part allTxs numShards;
                      Some (Some (part, sn, wl)) } } })"

fun balance_turns ::
    "pl_graph \<Rightarrow> PL_Transaction list \<Rightarrow> int \<Rightarrow> f64 \<Rightarrow> nat \<Rightarrow> pl_partition \<times> address list list \<times> int list \<Rightarrow> pl_partition option" where
  "balance_turns g allTxs numShards avg 0 st = Some (fst st)"
| "balance_turns g allTxs numShards avg (Suc left) st =
     do { r \<leftarrow> balance_turn g allTxs numShards avg st;
          (case r of None \<Rightarrow> Some (fst st) | Some st \<Rightarrow> balance_turns g allTxs numShards avg left st) }"

definition finalLoadBalancing :: "pl_orders \<Rightarrow> pl_partition \<Rightarrow> pl_graph \<Rightarrow> PL_Transaction list \<Rightarrow> int \<Rightarrow> pl_partition option" where
  "finalLoadBalancing ord part g allTxs numShards =
     do { sn \<leftarrow> group_nodes ord part numShards;
          wl \<leftarrow> inner_workload part allTxs numShards;
          balance_turns g allTxs numShards (float64 (int (length allTxs)) / float64 numShards) 10 (part, sn, wl) }"

text \<open>The numbers that are printed: accounts and inner transactions of each shard, and the cross-shard transactions.\<close>

definition printPartitionStats :: "pl_partition \<Rightarrow> PL_Transaction list \<Rightarrow> int \<Rightarrow> (int list \<times> int list \<times> int) option" where
  "printPartitionStats part allTxs numShards =
     do { z \<leftarrow> make_slice numShards 0;
          ns \<leftarrow> foldlM (\<lambda>ns (_, shard). bump ns (uint shard) (\<lambda>n. n + 1)) z part;
          wl \<leftarrow> inner_workload part allTxs numShards;
          Some (ns, wl, int (length (filter (\<lambda>tx.
            case (map_of part (pt_Sender tx), map_of part (pt_Recipient tx)) of (Some s, Some r) \<Rightarrow> s \<noteq> r | _ \<Rightarrow> False) allTxs))) }"

definition ImprovedPLouvain :: "pl_orders \<Rightarrow> pl_graph \<Rightarrow> PL_Transaction list \<Rightarrow> int \<Rightarrow> pl_partition option" where
  "ImprovedPLouvain ord g allTxs numShards =
     do { part \<leftarrow> transactionBasedPartitioning ord allTxs numShards;
          part \<leftarrow> louvainOptimization ord part g numShards;
          part \<leftarrow> optimizeBoundaryNodes ord part g numShards;
          part \<leftarrow> finalLoadBalancing ord part g allTxs numShards;
          _ \<leftarrow> printPartitionStats part allTxs numShards;
          Some part }"

section \<open>Sending\<close>

definition sendBatchToShard :: "PLouvainCommittee \<Rightarrow> u64 \<Rightarrow> Transaction list \<Rightarrow> net_out list" where
  "sendBatchToShard p shardID txs =
     (case pl_firstIp p shardID of
        Some ip \<Rightarrow> [Dial ip (CInject \<lparr>ij_Txs = txs, ij_ToShardID = shardID\<rparr>)]
      | None \<Rightarrow> [])"

text \<open>\<open>unfit\<close> is the conversion of a value that does not fit into \<^verbatim>\<open>int64\<close>.\<close>

definition coreTx :: "(f64 \<Rightarrow> int) \<Rightarrow> PL_Transaction \<Rightarrow> Transaction" where
  "coreTx unfit tx =
     \<lparr>tx_Sender = pt_Sender tx, tx_Recipient = pt_Recipient tx, tx_Nonce = 0, tx_Signature = [], tx_Value = int64_of unfit (pt_Value tx),
      tx_TxHash = [], tx_Time = 0, tx_Relayed = False, tx_HasBroker = False, tx_SenderIsBroker = False,
      tx_OriginalSender = [], tx_FinalRecipient = [], tx_RawTxHash = []\<rparr>"

definition send_turn ::
    "Params \<Rightarrow> (f64 \<Rightarrow> int) \<Rightarrow> PLouvainCommittee \<Rightarrow> net_out list \<times> (u64 \<times> Transaction list) list \<Rightarrow> PL_Transaction \<Rightarrow>
     (net_out list \<times> (u64 \<times> Transaction list) list) option" where
  "send_turn pr unfit p = (\<lambda>(outs, shardTxs) tx.
     do { shard \<leftarrow> (case map_of (pl_partitionMap p) (pt_Sender tx) of Some s \<Rightarrow> Some s | None \<Rightarrow> home_route pr (pt_Sender tx));
          let txs = assoc_get shardTxs shard @ [coreTx unfit tx];
          Some (if int (length txs) \<ge> pl_batchDataNum p then (outs @ sendBatchToShard p shard txs, AList.update shard [] shardTxs)
                else (outs, AList.update shard txs shardTxs)) })"

definition sendTransactionsWithPartition ::
    "Params \<Rightarrow> pl_orders \<Rightarrow> (f64 \<Rightarrow> int) \<Rightarrow> PLouvainCommittee \<Rightarrow> PL_Transaction list \<Rightarrow> net_out list option" where
  "sendTransactionsWithPartition pr ord unfit p allTxs =
     do { (outs, shardTxs) \<leftarrow> foldlM (send_turn pr unfit p) ([], []) allTxs;
          Some (outs @ concat (map (\<lambda>(shard, txs). if txs \<noteq> [] then sendBatchToShard p shard txs else []) (po_send ord shardTxs))) }"

text \<open>\<^verbatim>\<open>records\<close> is what the CSV reader returns for the file; when the file cannot be read the process ends.\<close>

definition RunPLouvain ::
    "Params \<Rightarrow> pl_orders \<Rightarrow> (f64 \<Rightarrow> int) \<Rightarrow> bytes list list option \<Rightarrow> PLouvainCommittee \<Rightarrow> (net_out list \<times> PLouvainCommittee) option" where
  "RunPLouvain pr ord unfit records p =
     do { rs \<leftarrow> records;
          let allTxs = loadAllTransactions p rs;
          part \<leftarrow> ImprovedPLouvain ord (pl_build allTxs) allTxs (pm_ShardNum pr);
          let p = p\<lparr>pl_partitionMap := foldl (\<lambda>m (addr, shard). AList.update addr shard m) (pl_partitionMap p) part\<rparr>;
          outs \<leftarrow> sendTransactionsWithPartition pr ord unfit p allTxs;
          Some (outs, p) }"

end
