(* ===== verification/Sup_PLouvain_Props.thy ===== *)
theory Sup_PLouvain_Props
  imports Sup_PLouvain
begin

text \<open>
  The PLouvain committee never panics, gives every account of the data set a shard that exists, and
  sends every transaction once, in order, to the shard of its sender. The initial partition is balanced.
\<close>

section \<open>Searching a slice\<close>

lemma scan_best_total:
  assumes "0 < n" and "length xs = nat n"
  shows "\<exists>i. scan_best better n xs = Some (i, xs ! nat i) \<and> 0 \<le> i \<and> i < n"
proof -
  have "\<exists>r. foldlM (\<lambda>(i, b) sid. map_option (\<lambda>x. if better x b then (sid, x) else (i, b)) (slice_get xs sid)) (0, xs ! 0) [1..n - 1] = Some r
      \<and> 0 \<le> fst r \<and> fst r < n \<and> snd r = xs ! nat (fst r)"
    by (rule foldlM_total) (use assms in \<open>auto simp: slice_get_def split: prod.splits\<close>)
  then show ?thesis using assms by (auto simp: scan_best_def slice_get_def)
qed

lemma scan_best_least:
  fixes xs :: "int list"
  assumes "scan_best (<) n xs = Some (i, b)" and "0 \<le> j" "j < n"
  shows "b \<le> xs ! nat j"
proof -
  let ?f = "\<lambda>(i, b) sid. map_option (\<lambda>x. if x < b then (sid, x) else (i, b)) (slice_get xs sid)"
  have least: "b' \<le> b \<and> (\<forall>sid \<in> set sids. b' \<le> xs ! nat sid)" if "foldlM ?f (i, b) sids = Some (i', b')" for i b i' b' sids
    using that
  proof (induction sids arbitrary: i b)
    case (Cons s sids)
    then obtain x where x: "slice_get xs s = Some x" by (auto simp: bind_eq_Some_conv)
    then have "x = xs ! nat s" by (simp add: slice_get_def split: if_splits)
    with x Cons.prems Cons.IH[of "if x < b then s else i" "if x < b then x else b"] show ?case
      by (auto split: if_splits)
  qed simp
  from assms(1) have "foldlM ?f (0, xs ! 0) [1..n - 1] = Some (i, b)"
    by (simp add: scan_best_def slice_get_def split: if_splits)
  from least[OF this] have "b \<le> xs ! 0" "\<forall>sid \<in> {1..n - 1}. b \<le> xs ! nat sid" by simp_all
  with assms(2,3) show ?thesis by (cases "j = 0") auto
qed

section \<open>Every account has a shard that exists\<close>

text \<open>\<open>D\<close> is the set of accounts, \<open>n\<close> the number of shards.\<close>

definition part_ok :: "int \<Rightarrow> address set \<Rightarrow> pl_partition \<Rightarrow> bool" where
  "part_ok n D part \<longleftrightarrow> distinct (map fst part) \<and> fst ` set part = D \<and> (\<forall>(a, s) \<in> set part. uint s < n)"

lemma uint_shard_index: "0 \<le> i \<Longrightarrow> i < n \<Longrightarrow> n < 2 ^ 63 \<Longrightarrow> uint (of_int i :: u64) = i"
  by (simp add: uint_word_of_int)

lemma part_ok_insert:
  assumes "part_ok n D part" and "0 \<le> i" "i < n" "n < 2 ^ 63"
  shows "part_ok n (insert a D) (AList.update a (of_int i) part)"
proof -
  note set_alist_update[of a "of_int i" part]
  moreover have "fst ` set (AList.update a (of_int i) part) = insert a (fst ` set part)"
    by (auto simp: update_conv' simp flip: dom_map_of_conv_image_fst)
  ultimately show ?thesis using assms uint_shard_index[of i n]
    by (auto simp: part_ok_def distinct_update)
qed

lemma part_ok_update:
  "part_ok n D part \<Longrightarrow> a \<in> D \<Longrightarrow> 0 \<le> i \<Longrightarrow> i < n \<Longrightarrow> n < 2 ^ 63 \<Longrightarrow> part_ok n D (AList.update a (of_int i) part)"
  using part_ok_insert[of n D part i a] by (simp add: insert_absorb)

lemma part_ok_at: "part_ok n D part \<Longrightarrow> 0 < n \<Longrightarrow> uint (part_at part a) < n"
  by (auto simp: part_ok_def part_at_def dest!: map_of_SomeD split: option.splits)

lemma shardWeights_total:
  assumes "part_ok n D part" and "0 < n"
  shows "\<exists>ws. shardWeights n g part node nbrs = Some ws \<and> length ws = nat n"
proof -
  have "\<exists>ws. foldlM (\<lambda>ws nb. bump ws (uint (part_at part nb)) (\<lambda>w. w + pl_weight g node nb)) (replicate (nat n) f64_zero) nbrs = Some ws
      \<and> length ws = nat n"
    by (rule foldlM_total) (use part_ok_at[OF assms] in \<open>auto simp: nat_less_iff zless_nat_eq_int_zless\<close>)
  then show ?thesis using assms(2) by (simp add: shardWeights_def)
qed

lemma move_turn_ok:
  assumes "part_ok n D part" and "0 < n" "n < 2 ^ 63" and "node \<in> D"
  shows "\<exists>part' m. move_turn factor n g nbrs (part, moved) node = Some (part', m) \<and> part_ok n D part'"
proof -
  obtain ws where ws: "shardWeights n g part node (nbrs node) = Some ws" "length ws = nat n"
    using shardWeights_total[OF assms(1,2)] by blast
  obtain i where i: "scan_best (>) n ws = Some (i, ws ! nat i)" "0 \<le> i" "i < n" using scan_best_total[OF assms(2) ws(2)] by blast
  have "slice_get ws (uint (part_at part node)) = Some (ws ! nat (uint (part_at part node)))"
    using part_ok_at[OF assms(1,2), of node] ws(2) by (simp add: nat_less_iff zless_nat_eq_int_zless)
  with ws i part_ok_update[OF assms(1,4) i(2,3) assms(3)] assms(1) show ?thesis by (simp add: move_turn_def)
qed

lemma move_passes_ok:
  assumes "0 < n" "n < 2 ^ 63" and "\<And>i. set (nodes i) \<subseteq> D" and "part_ok n D part"
  shows "\<exists>part'. move_passes factor n g nodes nbrs left iter part = Some part' \<and> part_ok n D part'"
  using assms(4)
proof (induction left arbitrary: iter part)
  case (Suc left)
  have "\<exists>r. foldlM (move_turn factor n g (nbrs iter)) (part, 0) (nodes iter) = Some r \<and> part_ok n D (fst r)"
    by (rule foldlM_total) (use Suc.prems move_turn_ok[OF _ assms(1,2)] assms(3) in \<open>fastforce split: prod.splits\<close>)+
  with Suc.IH show ?case by fastforce
qed simp

lemma inner_workload_total:
  assumes "part_ok n D part" and "0 < n"
  shows "\<exists>wl. inner_workload part txs n = Some wl \<and> length wl = nat n"
proof -
  have s: "uint s < n" if "map_of part a = Some s" for a s
    using that assms(1) by (auto simp: part_ok_def dest!: map_of_SomeD)
  let ?f = "\<lambda>wl tx. (case (map_of part (pt_Sender tx), map_of part (pt_Recipient tx)) of
      (Some s, Some r) \<Rightarrow> if s = r then bump wl (uint s) (\<lambda>w. w + 1) else Some wl | _ \<Rightarrow> Some wl)"
  have "\<exists>wl. foldlM ?f (replicate (nat n) 0) txs = Some wl \<and> length wl = nat n"
    by (rule foldlM_total) (use s in \<open>auto simp: nat_less_iff zless_nat_eq_int_zless split: option.splits\<close>)
  then show ?thesis using assms(2) by (simp add: inner_workload_def)
qed

definition groups_ok :: "int \<Rightarrow> address set \<Rightarrow> address list list \<Rightarrow> bool" where
  "groups_ok n D sn \<longleftrightarrow> length sn = nat n \<and> (\<forall>l \<in> set sn. set l \<subseteq> D)"

lemma groups_ok_update: "groups_ok n D sn \<Longrightarrow> set l \<subseteq> D \<Longrightarrow> groups_ok n D (sn[i := l])"
  by (auto simp: groups_ok_def dest!: set_update_subset_insert[THEN subsetD])

lemma group_nodes_ok:
  assumes "part_ok n D part" and "0 < n" and "set (po_parts ord part) \<subseteq> set part"
  shows "\<exists>sn. group_nodes ord part n = Some sn \<and> groups_ok n D sn"
proof -
  have "\<exists>sn. foldlM (\<lambda>sn (node, shard). bump sn (uint shard) (\<lambda>l. l @ [node])) (replicate (nat n) []) (po_parts ord part) = Some sn
      \<and> groups_ok n D sn"
  proof (rule foldlM_total)
    fix sn :: "address list list" and x
    assume x: "x \<in> set (po_parts ord part)" and sn: "groups_ok n D sn"
    obtain node shard where [simp]: "x = (node, shard)" by force
    from x assms(3) have "(node, shard) \<in> set part" by auto
    with assms(1) have "node \<in> D" "uint shard < n" by (force simp: part_ok_def)+
    moreover from this sn have i: "nat (uint shard) < length sn" by (simp add: groups_ok_def nat_less_iff zless_nat_eq_int_zless)
    ultimately have "groups_ok n D (sn[nat (uint shard) := sn ! nat (uint shard) @ [node]])"
      using sn nth_mem[OF i] by (intro groups_ok_update[OF sn]) (simp add: groups_ok_def)
    with i show "\<exists>sn'. (case x of (node, shard) \<Rightarrow> bump sn (uint shard) (\<lambda>l. l @ [node])) = Some sn' \<and> groups_ok n D sn'" by simp
  qed (auto simp: groups_ok_def)
  then show ?thesis using assms(2) by (simp add: group_nodes_def)
qed

lemma bestNode_in:
  assumes "bestNode g part mx nodes = (best, most)" and "best \<noteq> []"
  shows "best \<in> set nodes"
proof -
  let ?f = "\<lambda>(best, most) node. let c = crossShardEdges g part mx node in if c > most then (node, c) else (best, most)"
  have "fst (foldl ?f (b, m) nodes) \<in> insert b (set nodes)" for b m
  proof (induction nodes arbitrary: b m)
    case (Cons a nodes)
    show ?case
      using Cons[of a "crossShardEdges g part mx a"] Cons[of b m] by (auto simp: Let_def)
  qed simp
  from this[of "[]" 0] assms show ?thesis by (simp add: bestNode_def)
qed

definition balance_ok :: "int \<Rightarrow> address set \<Rightarrow> pl_partition \<times> address list list \<times> int list \<Rightarrow> bool" where
  "balance_ok n D = (\<lambda>(part, sn, wl). part_ok n D part \<and> groups_ok n D sn \<and> length wl = nat n)"

lemma balance_turn_ok:
  assumes "balance_ok n D st" and "0 < n" "n < 2 ^ 63"
  shows "\<exists>r. balance_turn g txs n avg st = Some r \<and> (\<forall>st'. r = Some st' \<longrightarrow> balance_ok n D st')"
proof -
  obtain part sn wl where st [simp]: "st = (part, sn, wl)" by (cases st)
  from assms(1) have ok: "part_ok n D part" "groups_ok n D sn" "length wl = nat n" by (simp_all add: balance_ok_def)
  obtain mx where mx: "scan_best (>) n wl = Some (mx, wl ! nat mx)" "0 \<le> mx" "mx < n" using scan_best_total[OF assms(2) ok(3)] by blast
  obtain mn where mn: "scan_best (<) n wl = Some (mn, wl ! nat mn)" "0 \<le> mn" "mn < n" using scan_best_total[OF assms(2) ok(3)] by blast
  from mx mn ok(2) have i: "nat mx < length sn" "nat mn < length sn" by (simp_all add: groups_ok_def)
  obtain best most where b: "bestNode g part mx (sn ! nat mx) = (best, most)" by force
  show ?thesis
  proof (cases "float64 (wl ! nat mx) < avg * round64 (13 / 10) \<or> best = [] \<or> most = 0")
    case True
    with mx mn i b show ?thesis by (auto simp: balance_turn_def)
  next
    case False
    with bestNode_in[OF b] ok(2) i(1) have best: "best \<in> D" by (auto simp: groups_ok_def dest: nth_mem)
    let ?part = "AList.update best (of_int mn) part" and ?sn = "sn[nat mx := remove1 best (sn ! nat mx)]"
    have p: "part_ok n D ?part" using part_ok_update[OF ok(1) best mn(2,3) assms(3)] .
    obtain wl' where wl': "inner_workload ?part txs n = Some wl'" "length wl' = nat n" using inner_workload_total[OF p assms(2)] by blast
    have sn: "groups_ok n D ?sn"
      using ok(2) i(1) by (intro groups_ok_update) (auto simp: groups_ok_def dest!: set_remove1_subset[THEN subsetD] dest: nth_mem)
    then have "groups_ok n D (?sn[nat mn := ?sn ! nat mn @ [best]])"
      using best i sn nth_mem[of "nat mn" ?sn] by (intro groups_ok_update[OF sn]) (simp add: groups_ok_def)
    with False mx mn i b p wl' sn show ?thesis by (simp add: balance_turn_def slice_set_def balance_ok_def)
  qed
qed

lemma balance_turns_ok:
  assumes "0 < n" "n < 2 ^ 63" and "balance_ok n D st"
  shows "\<exists>part. balance_turns g txs n avg left st = Some part \<and> part_ok n D part"
  using assms(3)
proof (induction left arbitrary: st)
  case 0
  then show ?case by (auto simp: balance_ok_def)
next
  case (Suc left)
  from balance_turn_ok[OF Suc.prems assms(1,2)] obtain r where "balance_turn g txs n avg st = Some r"
    "\<forall>st'. r = Some st' \<longrightarrow> balance_ok n D st'" by blast
  with Suc show ?case by (cases r) (auto simp: balance_ok_def)
qed

lemma printPartitionStats_total:
  assumes "part_ok n D part" and "0 < n"
  shows "\<exists>r. printPartitionStats part txs n = Some r"
proof -
  have "\<exists>ns. foldlM (\<lambda>ns (_, shard). bump ns (uint shard) (\<lambda>n. n + 1)) (replicate (nat n) (0 :: int)) part = Some ns \<and> length ns = nat n"
    by (rule foldlM_total) (use assms in \<open>auto simp: part_ok_def nat_less_iff zless_nat_eq_int_zless split: prod.splits\<close>)
  moreover obtain wl where "inner_workload part txs n = Some wl" using inner_workload_total[OF assms] by blast
  ultimately show ?thesis using assms(2) by (auto simp: printPartitionStats_def)
qed

section \<open>Counting\<close>

text \<open>The accounts of the data set, one for each end of each transaction.\<close>

definition tx_ends :: "PL_Transaction list \<Rightarrow> address list" where
  "tx_ends txs = concat (map (\<lambda>tx. [pt_Sender tx, pt_Recipient tx]) txs)"

lemma addrTxCount_ends: "addrTxCount txs = foldl (\<lambda>m a. count_up a m) [] (tx_ends txs)"
proof -
  have "foldl (\<lambda>m tx. count_up (pt_Recipient tx) (count_up (pt_Sender tx) m)) m txs = foldl (\<lambda>m a. count_up a m) m (tx_ends txs)" for m
    by (induction txs arbitrary: m) (simp_all add: tx_ends_def)
  then show ?thesis by (simp add: addrTxCount_def)
qed

lemma count_up_sum:
  "sum_list (map snd (filter (\<lambda>x. P (fst x)) (count_up a m))) = sum_list (map snd (filter (\<lambda>x. P (fst x)) m)) + (if P a then 1 else 0)"
proof -
  have "sum_list (map snd (filter (\<lambda>x. P (fst x)) (AList.update a (c + 1) m))) = sum_list (map snd (filter (\<lambda>x. P (fst x)) m)) + (if P a then 1 else 0)"
    if "c = (case map_of m a of None \<Rightarrow> 0 | Some c \<Rightarrow> c)" for c :: int
    using that by (induction m) auto
  then show ?thesis by (simp add: count_up_def)
qed

lemma addrTxCount_spec:
  "distinct (map fst (addrTxCount txs)) \<and> fst ` set (addrTxCount txs) = set (tx_ends txs)
   \<and> (\<forall>(a, c) \<in> set (addrTxCount txs). c = int (count_list (tx_ends txs) a))
   \<and> (\<forall>P. sum_list (map snd (filter (\<lambda>x. P (fst x)) (addrTxCount txs))) = int (length (filter P (tx_ends txs))))"
proof -
  let ?cnt = "foldl (\<lambda>m a. count_up a m) []"
  have "distinct (map fst (?cnt xs)) \<and> (\<forall>a. map_of (?cnt xs) a = (if a \<in> set xs then Some (int (count_list xs a)) else None))
     \<and> (\<forall>P. sum_list (map snd (filter (\<lambda>x. P (fst x)) (?cnt xs))) = int (length (filter P xs)))" for xs :: "address list"
  proof (induction xs rule: rev_induct)
    case (snoc x xs)
    have "map_of (count_up x (?cnt xs)) a = (if a \<in> set (xs @ [x]) then Some (int (count_list (xs @ [x]) a)) else None)" for a
      using snoc by (simp add: count_up_def update_conv')
    moreover have "distinct (map fst (count_up x (?cnt xs)))" using snoc by (simp add: count_up_def distinct_update)
    ultimately show ?case using snoc by (auto simp: count_up_sum)
  qed simp
  note * = this[of "tx_ends txs", folded addrTxCount_ends]
  then have "fst ` set (addrTxCount txs) = set (tx_ends txs)"
    by (auto simp: dom_def simp flip: dom_map_of_conv_image_fst)
  moreover from * have "c = int (count_list (tx_ends txs) a)" if "(a, c) \<in> set (addrTxCount txs)" for a c
    using map_of_is_SomeI[of "addrTxCount txs" a c] that by (auto split: if_splits)
  ultimately show ?thesis using * by auto
qed

section \<open>The greedy initial partition\<close>

text \<open>After some accounts: the workloads are the sums of what was placed, and differ by at most \<open>M\<close>.\<close>

definition greedy_ok :: "int \<Rightarrow> int \<Rightarrow> (address \<times> int) list \<Rightarrow> pl_partition \<Rightarrow> int list \<Rightarrow> bool" where
  "greedy_ok n M placed part wl \<longleftrightarrow>
     length wl = nat n \<and> part_ok n (fst ` set placed) part
     \<and> (\<forall>s. 0 \<le> s \<and> s < n \<longrightarrow> wl ! nat s = sum_list (map snd (filter (\<lambda>x. map_of part (fst x) = Some (of_int s)) placed)))
     \<and> (\<forall>s t. 0 \<le> s \<and> s < n \<and> 0 \<le> t \<and> t < n \<longrightarrow> wl ! nat s \<le> wl ! nat t + M)"

lemma of_int_shard_eq: "0 \<le> i \<Longrightarrow> i < n \<Longrightarrow> 0 \<le> j \<Longrightarrow> j < n \<Longrightarrow> n < 2 ^ 63 \<Longrightarrow> (of_int i :: u64) = of_int j \<longleftrightarrow> i = j"
  by (metis uint_shard_index)

lemma greedy_step_ok:
  assumes ok: "greedy_ok n M placed part wl" and n: "0 < n" "n < 2 ^ 63" and new: "a \<notin> fst ` set placed" and c: "0 \<le> c" "c \<le> M"
  shows "\<exists>part' wl'. greedy_step n (part, wl) (a, c) = Some (part', wl') \<and> greedy_ok n M (placed @ [(a, c)]) part' wl'"
proof -
  from ok have len: "length wl = nat n" by (simp add: greedy_ok_def)
  obtain i where i: "scan_best (<) n wl = Some (i, wl ! nat i)" "0 \<le> i" "i < n" using scan_best_total[OF n(1) len] by blast
  have least: "wl ! nat i \<le> wl ! nat j" if "0 \<le> j" "j < n" for j using scan_best_least[OF i(1) that] .
  let ?part = "AList.update a (of_int i) part" and ?wl = "wl[nat i := wl ! nat i + c]"
  have step: "greedy_step n (part, wl) (a, c) = Some (?part, ?wl)" using i len by (simp add: greedy_step_def)
  have wl: "?wl ! nat s = wl ! nat s + (if s = i then c else 0)" if "0 \<le> s" "s < n" for s
    using that i len by (simp add: nth_list_update nat_eq_iff2)
  have "part_ok n (insert a (fst ` set placed)) ?part"
    using ok by (intro part_ok_insert i n(2)) (simp add: greedy_ok_def)
  moreover have "?wl ! nat s = sum_list (map snd (filter (\<lambda>x. map_of ?part (fst x) = Some (of_int s)) (placed @ [(a, c)])))"
    if s: "0 \<le> s" "s < n" for s
  proof -
    have "filter (\<lambda>x. map_of ?part (fst x) = Some (of_int s)) placed = filter (\<lambda>x. map_of part (fst x) = Some (of_int s)) placed"
      using new by (intro filter_cong) (auto simp: update_conv')
    moreover have "wl ! nat s = sum_list (map snd (filter (\<lambda>x. map_of part (fst x) = Some (of_int s)) placed))"
      using ok s unfolding greedy_ok_def by blast
    ultimately show ?thesis using of_int_shard_eq[OF i(2,3) s n(2)] by (simp add: wl[OF s] update_conv')
  qed
  moreover have "?wl ! nat s \<le> ?wl ! nat t + M" if "0 \<le> s" "s < n" "0 \<le> t" "t < n" for s t
  proof -
    have "wl ! nat s \<le> wl ! nat t + M" using ok that unfolding greedy_ok_def by blast
    with that c least[of t] show ?thesis by (auto simp: wl)
  qed
  ultimately have "greedy_ok n M (placed @ [(a, c)]) ?part ?wl"
    using len unfolding greedy_ok_def by simp
  with step show ?thesis by blast
qed

lemma greedy_ok_all:
  assumes "0 < n" "n < 2 ^ 63" and "distinct (map fst xs)" and "\<forall>(a, c) \<in> set xs. 0 \<le> c \<and> c \<le> M" and "0 \<le> M"
  shows "\<exists>part wl. foldlM (greedy_step n) ([], replicate (nat n) 0) xs = Some (part, wl) \<and> greedy_ok n M xs part wl"
  using assms(3,4)
proof (induction xs rule: rev_induct)
  case Nil
  then show ?case using assms by (auto simp: greedy_ok_def part_ok_def)
next
  case (snoc x xs)
  then obtain part wl where pw: "foldlM (greedy_step n) ([], replicate (nat n) 0) xs = Some (part, wl)" "greedy_ok n M xs part wl" by auto
  obtain a c where x: "x = (a, c)" by force
  with snoc.prems greedy_step_ok[OF pw(2) assms(1,2), of a c] pw(1) show ?case by (auto simp: foldlM_append)
qed

text \<open>What is used of the orders: they rearrange what they order, and the graph is visited at its accounts.\<close>

definition orders_ok :: "pl_orders \<Rightarrow> PL_Transaction list \<Rightarrow> bool" where
  "orders_ok ord txs \<longleftrightarrow>
     (\<forall>xs. mset (po_sort ord xs) = mset xs \<and> sorted_wrt (\<lambda>x y. snd x \<ge> snd y) (po_sort ord xs))
     \<and> (\<forall>phase iter. set (po_nodes ord phase iter) = fst ` set (pl_build txs))
     \<and> (\<forall>part. mset (po_parts ord part) = mset part) \<and> (\<forall>xs. mset (po_send ord xs) = mset xs)"

lemma transactionBasedPartitioning_ok:
  assumes "0 < n" "n < 2 ^ 63" and "orders_ok ord txs" and "\<forall>a. int (count_list (tx_ends txs) a) \<le> M"
  shows "\<exists>part. transactionBasedPartitioning ord txs n = Some part \<and> part_ok n (set (tx_ends txs)) part
     \<and> (\<forall>s t. 0 \<le> s \<and> s < n \<and> 0 \<le> t \<and> t < n \<longrightarrow>
          int (length (filter (\<lambda>a. map_of part a = Some (of_int s)) (tx_ends txs)))
          \<le> int (length (filter (\<lambda>a. map_of part a = Some (of_int t)) (tx_ends txs))) + M)"
proof -
  let ?xs = "po_sort ord (addrTxCount txs)"
  have ms: "mset ?xs = mset (addrTxCount txs)" using assms(3) by (simp add: orders_ok_def)
  note spec = addrTxCount_spec[of txs]
  have "distinct (map fst ?xs)" using spec ms by (metis mset_eq_imp_distinct_iff mset_map)
  moreover have "\<forall>(a, c) \<in> set ?xs. 0 \<le> c \<and> c \<le> M" using spec assms(4) mset_eq_setD[OF ms] by auto
  moreover have "0 \<le> M" using assms(4) by (metis of_nat_0_le_iff order_trans)
  ultimately obtain part wl where pw: "foldlM (greedy_step n) ([], replicate (nat n) 0) ?xs = Some (part, wl)" "greedy_ok n M ?xs part wl"
    using greedy_ok_all[OF assms(1,2)] by blast
  have "sum_list (map snd (filter P ?xs)) = sum_list (map snd (filter P (addrTxCount txs)))" for P
    using ms by (metis mset_filter mset_map sum_mset_sum_list)
  moreover have "sum_list (map snd (filter (\<lambda>x. map_of part (fst x) = Some s) (addrTxCount txs))) = int (length (filter (\<lambda>a. map_of part a = Some s) (tx_ends txs)))" for s
    using spec[THEN conjunct2, THEN conjunct2, THEN conjunct2, rule_format, of "\<lambda>a. map_of part a = Some s"] .
  ultimately have wl: "wl ! nat s = int (length (filter (\<lambda>a. map_of part a = Some (of_int s)) (tx_ends txs)))" if "0 \<le> s" "s < n" for s
    using that pw(2) unfolding greedy_ok_def by simp
  have "fst ` set ?xs = set (tx_ends txs)" using spec mset_eq_setD[OF ms] by simp
  with pw have "part_ok n (set (tx_ends txs)) part" by (simp add: greedy_ok_def)
  moreover have "transactionBasedPartitioning ord txs n = Some part" using pw(1) assms(1) by (simp add: transactionBasedPartitioning_def)
  moreover have "wl ! nat s \<le> wl ! nat t + M" if "0 \<le> s" "s < n" "0 \<le> t" "t < n" for s t
    using pw(2) that unfolding greedy_ok_def by blast
  ultimately show ?thesis using wl by (intro exI[of _ part]) simp
qed

lemma pl_build_nodes: "fst ` set (pl_build txs) = set (tx_ends txs)"
proof -
  have u: "fst ` set (AList.update a v g) = insert a (fst ` set g)" for a :: address and v :: "(address \<times> f64) list" and g
    by (auto simp: update_conv' simp flip: dom_map_of_conv_image_fst)
  have t: "fst ` set (pl_touch a g) = insert a (fst ` set g)" for a g
    using map_of_eq_None_iff[of g a] by (auto simp: pl_touch_def u insert_absorb)
  have "fst ` set (foldl pl_add_tx g txs) = fst ` set g \<union> set (tx_ends txs)" for g
    by (induction txs arbitrary: g) (auto simp: pl_add_tx_def Let_def pl_add_def u t tx_ends_def)
  then show ?thesis by (simp add: pl_build_def)
qed

lemma ImprovedPLouvain_ok:
  assumes "0 < n" "n < 2 ^ 63" and "orders_ok ord txs"
  shows "\<exists>part. ImprovedPLouvain ord (pl_build txs) txs n = Some part \<and> part_ok n (set (tx_ends txs)) part"
proof -
  let ?D = "set (tx_ends txs)" and ?g = "pl_build txs"
  have "\<forall>a. int (count_list (tx_ends txs) a) \<le> int (length (tx_ends txs))" by (simp add: count_le_length)
  then obtain p0 where p0: "transactionBasedPartitioning ord txs n = Some p0" "part_ok n ?D p0"
    using transactionBasedPartitioning_ok[OF assms] by blast
  have nodes: "set (po_nodes ord phase i) \<subseteq> ?D" for phase i using assms(3) by (simp add: orders_ok_def pl_build_nodes)
  obtain p1 where p1: "louvainOptimization ord p0 ?g n = Some p1" "part_ok n ?D p1"
    using move_passes_ok[where nodes = "po_nodes ord 0", OF assms(1,2) nodes p0(2)] unfolding louvainOptimization_def by blast
  obtain p2 where p2: "optimizeBoundaryNodes ord p1 ?g n = Some p2" "part_ok n ?D p2"
    using move_passes_ok[where nodes = "po_nodes ord 1", OF assms(1,2) nodes p1(2)] unfolding optimizeBoundaryNodes_def by blast
  have "set (po_parts ord p2) \<subseteq> set p2" using assms(3) mset_eq_setD unfolding orders_ok_def by blast
  then obtain sn where sn: "group_nodes ord p2 n = Some sn" "groups_ok n ?D sn" using group_nodes_ok[OF p2(2) assms(1)] by blast
  obtain wl where wl: "inner_workload p2 txs n = Some wl" "length wl = nat n" using inner_workload_total[OF p2(2) assms(1)] by blast
  have "balance_ok n ?D (p2, sn, wl)" using sn wl p2 by (simp add: balance_ok_def)
  from balance_turns_ok[OF assms(1,2) this] sn(1) wl(1) obtain p3 where p3: "finalLoadBalancing ord p2 ?g txs n = Some p3" "part_ok n ?D p3"
    unfolding finalLoadBalancing_def by (metis bind.bind_lunit)
  obtain r where "printPartitionStats p3 txs n = Some r" using printPartitionStats_total[OF p3(2) assms(1)] by blast
  with p0 p1 p2 p3 show ?thesis by (simp add: ImprovedPLouvain_def)
qed

section \<open>Sending\<close>

lemma injected_batch:
  "injected sid (sendBatchToShard p shard txs) = (if shard = sid \<and> pl_firstIp p sid \<noteq> None then txs else [])"
  by (auto simp: sendBatchToShard_def injected_def split: option.splits)

lemma injected_flush:
  assumes "distinct (map fst xs)" and "\<forall>(s, txs) \<in> set xs. pl_firstIp p s \<noteq> None"
  shows "injected sid (concat (map (\<lambda>(shard, txs). if txs \<noteq> [] then sendBatchToShard p shard txs else []) xs)) = assoc_get xs sid"
  using assms
proof (induction xs)
  case (Cons x xs)
  obtain s txs where x: "x = (s, txs)" by force
  have "map_of xs s = None" using Cons.prems(1) x by (simp add: map_of_eq_None_iff)
  with Cons x show ?case by (cases "s = sid") (auto simp: injected_batch assoc_get_def)
qed (simp add: assoc_get_def)

lemma send_turns:
  assumes "\<forall>tx \<in> set txs. \<exists>s. map_of (pl_partitionMap p) (pt_Sender tx) = Some s \<and> pl_firstIp p s \<noteq> None"
  shows "\<exists>outs st. foldlM (send_turn pr unfit p) ([], []) txs = Some (outs, st) \<and> distinct (map fst st)
     \<and> (\<forall>(s, l) \<in> set st. pl_firstIp p s \<noteq> None)
     \<and> (\<forall>sid. injected sid outs @ assoc_get st sid
           = map (coreTx unfit) (filter (\<lambda>tx. map_of (pl_partitionMap p) (pt_Sender tx) = Some sid) txs))"
  using assms
proof (induction txs rule: rev_induct)
  case Nil
  then show ?case by (auto simp: assoc_get_def)
next
  case (snoc tx txs)
  then obtain outs st where IH: "foldlM (send_turn pr unfit p) ([], []) txs = Some (outs, st)" "distinct (map fst st)"
    "\<forall>(s, l) \<in> set st. pl_firstIp p s \<noteq> None"
    "\<forall>sid. injected sid outs @ assoc_get st sid
       = map (coreTx unfit) (filter (\<lambda>tx. map_of (pl_partitionMap p) (pt_Sender tx) = Some sid) txs)" by auto
  from snoc.prems obtain s where s: "map_of (pl_partitionMap p) (pt_Sender tx) = Some s" "pl_firstIp p s \<noteq> None" by auto
  have ips: "\<forall>(s, l) \<in> set (AList.update s l st). pl_firstIp p s \<noteq> None" for l
    using IH(3) s(2) by (induction st) auto
  have get: "assoc_get (AList.update s l st) sid = (if sid = s then l else assoc_get st sid)" for l sid
    by (simp add: assoc_get_def update_conv')
  from IH(4) have "injected sid outs @ assoc_get st sid
       = map (coreTx unfit) (filter (\<lambda>tx. map_of (pl_partitionMap p) (pt_Sender tx) = Some sid) txs)" for sid by blast
  note inj = this[symmetric]
  show ?case
    by (cases "int (length (assoc_get st s @ [coreTx unfit tx])) \<ge> pl_batchDataNum p")
      (use IH(1,2) s ips in \<open>auto simp: foldlM_append send_turn_def Let_def distinct_update get injected_batch inj\<close>)
qed

section \<open>Properties\<close>

text \<open>
  C21. A run of the PLouvain committee on a readable data set ends without a panic, whatever the orders
  in which the maps are visited and the counts sorted. The partition it stores has exactly the accounts
  of the data set, each with a shard that exists, and every transaction is injected exactly once, into
  the shard of its sender, in the order of the file.
\<close>

theorem RunPLouvain_routes:
  assumes "0 < pm_ShardNum pr" "pm_ShardNum pr < 2 ^ 63" and "\<forall>s. uint s < pm_ShardNum pr \<longrightarrow> ips s \<noteq> None"
    and "txs = loadAllTransactions (NewPLouvainCommitteeModule ips Ss dataNum batchNum gap) records" and "orders_ok ord txs"
  shows "\<exists>outs p. RunPLouvain pr ord unfit (Some records) (NewPLouvainCommitteeModule ips Ss dataNum batchNum gap) = Some (outs, p)
    \<and> dom (map_of (pl_partitionMap p)) = set (tx_ends txs)
    \<and> (\<forall>a s. map_of (pl_partitionMap p) a = Some s \<longrightarrow> uint s < pm_ShardNum pr)
    \<and> (\<forall>sid. injected sid outs = map (coreTx unfit) (filter (\<lambda>tx. map_of (pl_partitionMap p) (pt_Sender tx) = Some sid) txs))"
proof -
  let ?p0 = "NewPLouvainCommitteeModule ips Ss dataNum batchNum gap"
  obtain part where part: "ImprovedPLouvain ord (pl_build txs) txs (pm_ShardNum pr) = Some part" "part_ok (pm_ShardNum pr) (set (tx_ends txs)) part"
    using ImprovedPLouvain_ok[OF assms(1,2,5)] by blast
  define p where "p = ?p0\<lparr>pl_partitionMap := foldl (\<lambda>m (addr, shard). AList.update addr shard m) [] part\<rparr>"
  have m: "map_of (pl_partitionMap p) = map_of part"
    using part(2) map_of_foldl_update[of part "[]"] by (auto simp: p_def part_ok_def fun_eq_iff split: option.splits)
  have dom: "dom (map_of part) = set (tx_ends txs)" using part(2) by (simp add: part_ok_def dom_map_of_conv_image_fst)
  have sh: "uint s < pm_ShardNum pr" if "map_of part a = Some s" for a s
    using that part(2) by (auto simp: part_ok_def dest!: map_of_SomeD)
  have "\<forall>tx \<in> set txs. \<exists>s. map_of (pl_partitionMap p) (pt_Sender tx) = Some s \<and> pl_firstIp p s \<noteq> None"
  proof
    fix tx
    assume "tx \<in> set txs"
    then have "pt_Sender tx \<in> dom (map_of part)" by (auto simp: dom tx_ends_def)
    with m sh assms(3) show "\<exists>s. map_of (pl_partitionMap p) (pt_Sender tx) = Some s \<and> pl_firstIp p s \<noteq> None"
      by (fastforce simp: p_def NewPLouvainCommitteeModule_def)
  qed
  from send_turns[OF this, of pr unfit] obtain outs st where st: "foldlM (send_turn pr unfit p) ([], []) txs = Some (outs, st)"
    "distinct (map fst st)" "\<forall>(s, l) \<in> set st. pl_firstIp p s \<noteq> None"
    "\<forall>sid. injected sid outs @ assoc_get st sid = map (coreTx unfit) (filter (\<lambda>tx. map_of (pl_partitionMap p) (pt_Sender tx) = Some sid) txs)"
    by blast
  have ms: "mset (po_send ord st) = mset st" using assms(5) by (simp add: orders_ok_def)
  then have d: "distinct (map fst (po_send ord st))" using st(2) by (metis mset_eq_imp_distinct_iff mset_map)
  with st(2) mset_eq_setD[OF ms] have "map_of (po_send ord st) = map_of st" by (simp add: map_of_inject_set)
  then have "injected sid (concat (map (\<lambda>(shard, txs). if txs \<noteq> [] then sendBatchToShard p shard txs else []) (po_send ord st))) = assoc_get st sid" for sid
    using injected_flush[OF d, of p] st(3) mset_eq_setD[OF ms] by (simp add: assoc_get_def)
  note flush = this
  have "pl_partitionMap ?p0 = []" by (simp add: NewPLouvainCommitteeModule_def)
  then have "RunPLouvain pr ord unfit (Some records) ?p0 = Some (outs @ concat (map (\<lambda>(shard, txs).
      if txs \<noteq> [] then sendBatchToShard p shard txs else []) (po_send ord st)), p)"
    by (simp add: RunPLouvain_def Let_def assms(4)[symmetric] part(1) p_def sendTransactionsWithPartition_def st(1)[unfolded p_def] cong: if_cong)
  with st(4) flush m dom sh show ?thesis by (intro exI conjI) (assumption | simp)+
qed

definition demo_records :: "bytes list list" where
  "demo_records = [[''h''], [[], [], ''0a'', ''0b'', ''5''], [[], [], ''0a'']]"

definition demo_orders :: "PL_Transaction list \<Rightarrow> pl_orders" where
  "demo_orders txs = \<lparr>po_sort = (\<lambda>xs. rev (sort_key snd xs)), po_nodes = (\<lambda>_ _. map fst (pl_build txs)),
     po_nbrs = (\<lambda>_ _ a. map fst (pl_row (pl_build txs) a)), po_parts = (\<lambda>p. p), po_send = (\<lambda>x. x)\<rparr>"

lemma demo_orders_ok: "orders_ok (demo_orders txs) txs"
proof -
  have "sorted_wrt (\<lambda>x y. snd x \<ge> snd y) (rev (sort_key snd xs))" for xs :: "(address \<times> int) list"
    using sorted_sort_key[of snd xs] by (simp add: sorted_wrt_rev sorted_wrt_map)
  then show ?thesis by (simp add: orders_ok_def demo_orders_def)
qed

text \<open>A data set with one transaction, of value 5, between a header and an incomplete row.\<close>

theorem RunPLouvain_routes_witness:
  "\<exists>outs p s. RunPLouvain demo_params (demo_orders [\<lparr>pt_Sender = ''0a'', pt_Recipient = ''0b'', pt_Value = Fin 5\<rparr>]) (\<lambda>_. 0) (Some demo_records)
       (NewPLouvainCommitteeModule (\<lambda>_. Some []) (NewStopSignal 6) 100 16 50) = Some (outs, p)
     \<and> map_of (pl_partitionMap p) ''0a'' = Some s \<and> uint s < 2 \<and> map tx_Value (injected s outs) = [5]"
proof -
  let ?tx = "\<lparr>pt_Sender = ''0a'', pt_Recipient = ''0b'', pt_Value = Fin 5\<rparr>"
  let ?p0 = "NewPLouvainCommitteeModule (\<lambda>_. Some []) (NewStopSignal 6) 100 16 50"
  have "ParseFloat ''5'' = Fin 5" by code_simp
  then have T: "[?tx] = loadAllTransactions ?p0 demo_records"
    by (simp add: loadAllTransactions_def NewPLouvainCommitteeModule_def demo_records_def List.map_filter_def)
  have n: "pm_ShardNum demo_params = 2" by (simp add: demo_params_def)
  have "0 < pm_ShardNum demo_params" "pm_ShardNum demo_params < 2 ^ 63" "\<forall>s. uint (s :: u64) < pm_ShardNum demo_params \<longrightarrow> Some [] \<noteq> (None :: bytes option)"
    by (simp_all add: n)
  from RunPLouvain_routes[OF this T demo_orders_ok, of "\<lambda>_. 0"] obtain outs p where r:
    "RunPLouvain demo_params (demo_orders [?tx]) (\<lambda>_. 0) (Some demo_records) ?p0 = Some (outs, p)"
    "dom (map_of (pl_partitionMap p)) = set (tx_ends [?tx])"
    "\<forall>a s. map_of (pl_partitionMap p) a = Some s \<longrightarrow> uint s < pm_ShardNum demo_params"
    "\<forall>sid. injected sid outs = map (coreTx (\<lambda>_. 0)) (filter (\<lambda>tx. map_of (pl_partitionMap p) (pt_Sender tx) = Some sid) [?tx])"
    by blast
  have "''0a'' \<in> dom (map_of (pl_partitionMap p))" unfolding r(2) by (simp add: tx_ends_def)
  then obtain s where s: "map_of (pl_partitionMap p) ''0a'' = Some s" by blast
  have v: "int64_of (\<lambda>_. 0) (Fin 5) = 5" by (simp add: int64_of_def)
  have "injected s outs = [coreTx (\<lambda>_. 0) ?tx]" using r(4)[rule_format, of s] s by simp
  then have "map tx_Value (injected s outs) = [5]" using v by (simp add: coreTx_def)
  moreover have "uint s < 2" using r(3)[rule_format, OF s] n by simp
  ultimately show ?thesis using r(1) s by (intro exI[of _ outs] exI[of _ p] exI[of _ s] conjI)
qed

text \<open>
  C22. The initial partition balances the load: when no account occurs more than \<open>M\<close> times as sender or
  recipient, the numbers of transaction ends in any two shards differ by at most \<open>M\<close>.
\<close>

theorem transactionBasedPartitioning_balanced:
  assumes "0 < n" "n < 2 ^ 63" and "orders_ok ord txs" and "\<forall>a. int (count_list (tx_ends txs) a) \<le> M"
  shows "\<exists>part. transactionBasedPartitioning ord txs n = Some part \<and> dom (map_of part) = set (tx_ends txs)
     \<and> (\<forall>s t. 0 \<le> s \<and> s < n \<and> 0 \<le> t \<and> t < n \<longrightarrow>
          \<bar>int (length (filter (\<lambda>a. map_of part a = Some (of_int s)) (tx_ends txs)))
           - int (length (filter (\<lambda>a. map_of part a = Some (of_int t)) (tx_ends txs)))\<bar> \<le> M)"
proof -
  obtain part where part: "transactionBasedPartitioning ord txs n = Some part" "part_ok n (set (tx_ends txs)) part"
    and le: "\<forall>s t. 0 \<le> s \<and> s < n \<and> 0 \<le> t \<and> t < n \<longrightarrow>
          int (length (filter (\<lambda>a. map_of part a = Some (of_int s)) (tx_ends txs)))
          \<le> int (length (filter (\<lambda>a. map_of part a = Some (of_int t)) (tx_ends txs))) + M"
    using transactionBasedPartitioning_ok[OF assms] by blast
  have "\<bar>int (length (filter (\<lambda>a. map_of part a = Some (of_int s)) (tx_ends txs)))
           - int (length (filter (\<lambda>a. map_of part a = Some (of_int t)) (tx_ends txs)))\<bar> \<le> M"
    if "0 \<le> s" "s < n" "0 \<le> t" "t < n" for s t
    using le[rule_format, of s t] le[rule_format, of t s] that by linarith
  with part show ?thesis by (auto simp: part_ok_def dom_map_of_conv_image_fst)
qed

theorem transactionBasedPartitioning_balanced_witness:
  "\<exists>part. transactionBasedPartitioning (demo_orders [\<lparr>pt_Sender = ''0a'', pt_Recipient = ''0b'', pt_Value = Fin 5\<rparr>])
       [\<lparr>pt_Sender = ''0a'', pt_Recipient = ''0b'', pt_Value = Fin 5\<rparr>] 2 = Some part
     \<and> dom (map_of part) = {''0a'', ''0b''}
     \<and> \<bar>int (length (filter (\<lambda>a. map_of part a = Some 0) [''0a'', ''0b''])) - int (length (filter (\<lambda>a. map_of part a = Some 1) [''0a'', ''0b'']))\<bar> \<le> 1"
proof -
  let ?txs = "[\<lparr>pt_Sender = ''0a'', pt_Recipient = ''0b'', pt_Value = Fin 5\<rparr>]"
  have e: "tx_ends ?txs = [''0a'', ''0b'']" by (simp add: tx_ends_def)
  then have "\<forall>a. int (count_list (tx_ends ?txs) a) \<le> 1" by simp
  from transactionBasedPartitioning_balanced[OF _ _ demo_orders_ok this, of 2] obtain part where p:
    "transactionBasedPartitioning (demo_orders ?txs) ?txs 2 = Some part" "dom (map_of part) = set (tx_ends ?txs)"
    "\<forall>s t. 0 \<le> s \<and> s < 2 \<and> 0 \<le> t \<and> t < 2 \<longrightarrow>
          \<bar>int (length (filter (\<lambda>a. map_of part a = Some (of_int s)) (tx_ends ?txs)))
           - int (length (filter (\<lambda>a. map_of part a = Some (of_int t)) (tx_ends ?txs)))\<bar> \<le> 1" by auto
  from p(3)[rule_format, of 0 1] p(1,2) show ?thesis unfolding e by (intro exI[of _ part]) simp
qed

end
