(* ===== verification/Sup_Measure.thy ===== *)
theory Sup_Measure
  imports Pbft_Node Go_Float Go_Slice
begin

text \<open>
  The measure modules of the supervisor (\<^verbatim>\<open>supervisor/measure/\<close>). They record per epoch what the block reports
  say: numbers of transactions, latencies, start and end times. The modules for the relay and for the broker
  scheme have the same fields up to the names of the two legs of a cross-shard transaction and share a record
  here; \<open>legs1\<close> and \<open>legs2\<close> are the legs of a report. All modules begin with the same counters, which the
  others extend. Writing the records to CSV files is output and not modelled.
\<close>

section \<open>Counters\<close>

datatype scheme = RelayScheme | BrokerScheme

fun legs1 :: "scheme \<Rightarrow> BlockInfoMsg \<Rightarrow> Transaction list" where
  "legs1 RelayScheme b = bi_Relay1Txs b"
| "legs1 BrokerScheme b = bi_Broker1Txs b"

fun legs2 :: "scheme \<Rightarrow> BlockInfoMsg \<Rightarrow> Transaction list" where
  "legs2 RelayScheme b = bi_Relay2Txs b"
| "legs2 BrokerScheme b = bi_Broker2Txs b"

record epoch_counts =
  ec_epochID :: int
  ec_txNum :: "f64 list"
  ec_normalTxNum :: "int list"
  ec_leg1TxNum :: "int list"
  ec_leg2TxNum :: "int list"

text \<open>The loop that appends an element for each new epoch, seen at one slice.\<close>

definition pad_epochs :: "int \<Rightarrow> int \<Rightarrow> 'a \<Rightarrow> 'a list \<Rightarrow> 'a list" where
  "pad_epochs epochID epochid z xs = xs @ replicate (nat (epochid - epochID)) z"

definition extend_counts :: "int \<Rightarrow> 'm epoch_counts_scheme \<Rightarrow> 'm epoch_counts_scheme" where
  "extend_counts e m =
     m\<lparr>ec_txNum := pad_epochs (ec_epochID m) e f64_zero (ec_txNum m), ec_leg1TxNum := pad_epochs (ec_epochID m) e 0 (ec_leg1TxNum m),
       ec_leg2TxNum := pad_epochs (ec_epochID m) e 0 (ec_leg2TxNum m), ec_normalTxNum := pad_epochs (ec_epochID m) e 0 (ec_normalTxNum m),
       ec_epochID := max (ec_epochID m) e\<rparr>"

text \<open>Adding a report to the integer counters.\<close>

definition count_txs :: "scheme \<Rightarrow> BlockInfoMsg \<Rightarrow> 'm epoch_counts_scheme \<Rightarrow> 'm epoch_counts_scheme option" where
  "count_txs sch b m =
     do { nt \<leftarrow> bump (ec_normalTxNum m) (bi_Epoch b) (\<lambda>n. n + int (length (bi_InnerShardTxs b)));
          l1 \<leftarrow> bump (ec_leg1TxNum m) (bi_Epoch b) (\<lambda>n. n + int (length (legs1 sch b)));
          l2 \<leftarrow> bump (ec_leg2TxNum m) (bi_Epoch b) (\<lambda>n. n + int (length (legs2 sch b)));
          Some (m\<lparr>ec_normalTxNum := nt, ec_leg1TxNum := l1, ec_leg2TxNum := l2\<rparr>) }"

definition add_txNum :: "int \<Rightarrow> f64 \<Rightarrow> 'm epoch_counts_scheme \<Rightarrow> 'm epoch_counts_scheme option" where
  "add_txNum e x m = map_option (\<lambda>xs. m\<lparr>ec_txNum := xs\<rparr>) (bump (ec_txNum m) e (\<lambda>y. y + x))"

definition inner64 :: "BlockInfoMsg \<Rightarrow> f64" where
  "inner64 b = float64 (int (length (bi_InnerShardTxs b)))"

text \<open>\<^verbatim>\<open>float64(n1+n2)/2\<close>\<close>

definition legs64 :: "scheme \<Rightarrow> BlockInfoMsg \<Rightarrow> f64" where
  "legs64 sch b = float64 (int (length (legs1 sch b)) + int (length (legs2 sch b))) / Fin 2"

definition new_counts :: epoch_counts where
  "new_counts = \<lparr>ec_epochID = - 1, ec_txNum = [], ec_normalTxNum = [], ec_leg1TxNum = [], ec_leg2TxNum = []\<rparr>"

section \<open>Transaction numbers\<close>

definition NewTestTxNumCount :: epoch_counts where
  "NewTestTxNumCount = new_counts"

definition TxNumCount_Relay_Update :: "BlockInfoMsg \<Rightarrow> epoch_counts \<Rightarrow> epoch_counts option" where
  "TxNumCount_Relay_Update b m =
     (if bi_BlockBodyLength b = 0 then Some m
      else do { m \<leftarrow> count_txs RelayScheme b (extend_counts (bi_Epoch b) m);
                add_txNum (bi_Epoch b) (inner64 b + legs64 RelayScheme b) m })"

text \<open>The broker variant adds the numbers of legs after the conversion.\<close>

definition TxNumCount_Broker_Update :: "BlockInfoMsg \<Rightarrow> epoch_counts \<Rightarrow> epoch_counts option" where
  "TxNumCount_Broker_Update b m =
     (if bi_BlockBodyLength b = 0 then Some m
      else do { m \<leftarrow> count_txs BrokerScheme b (extend_counts (bi_Epoch b) m);
                add_txNum (bi_Epoch b)
                  (inner64 b + (float64 (int (length (bi_Broker1Txs b))) + float64 (int (length (bi_Broker2Txs b)))) / Fin 2) m })"

definition TxNumCount_OutputRecord :: "epoch_counts \<Rightarrow> f64 list \<times> f64" where
  "TxNumCount_OutputRecord m = (ec_txNum m, foldl (+) f64_zero (ec_txNum m))"

section \<open>The rate of cross-shard transactions\<close>

record CrossTxRate = epoch_counts +
  ct_totCrossTxNum :: "f64 list"

definition NewTestCrossTxRate :: CrossTxRate where
  "NewTestCrossTxRate = \<lparr>ec_epochID = - 1, ec_txNum = [], ec_normalTxNum = [], ec_leg1TxNum = [], ec_leg2TxNum = [], ct_totCrossTxNum = []\<rparr>"

definition CrossTxRate_Update :: "scheme \<Rightarrow> BlockInfoMsg \<Rightarrow> CrossTxRate \<Rightarrow> CrossTxRate option" where
  "CrossTxRate_Update sch b m =
     (if bi_BlockBodyLength b = 0 then Some m
      else do { let m = extend_counts (bi_Epoch b) (m\<lparr>ct_totCrossTxNum := pad_epochs (ec_epochID m) (bi_Epoch b) f64_zero (ct_totCrossTxNum m)\<rparr>);
                m \<leftarrow> count_txs sch b m;
                cs \<leftarrow> bump (ct_totCrossTxNum m) (bi_Epoch b) (\<lambda>y. y + legs64 sch b);
                add_txNum (bi_Epoch b) (case sch of RelayScheme \<Rightarrow> legs64 sch b + inner64 b | BrokerScheme \<Rightarrow> inner64 b + legs64 sch b)
                  (m\<lparr>ct_totCrossTxNum := cs\<rparr>) })"

definition CrossTxRate_Broker_Update :: "BlockInfoMsg \<Rightarrow> CrossTxRate \<Rightarrow> CrossTxRate option" where
  "CrossTxRate_Broker_Update b m = CrossTxRate_Update BrokerScheme b m"

text \<open>The ratios of the epochs, then the two totals; and the ratio of the totals.\<close>

definition CrossTxRate_OutputRecord :: "CrossTxRate \<Rightarrow> (f64 list \<times> f64) option" where
  "CrossTxRate_OutputRecord m =
     do { (rs, tot, ctx) \<leftarrow> foldlM (\<lambda>(rs, tot, ctx) (eid, t). map_option (\<lambda>c. (rs @ [c / t], tot + t, ctx + c)) (slice_get (ct_totCrossTxNum m) (int eid)))
            ([], f64_zero, f64_zero) (enumerate 0 (ec_txNum m));
          Some (rs @ [tot, ctx], ctx / tot) }"

section \<open>Throughput\<close>

text \<open>\<^verbatim>\<open>Duration.Seconds\<close> and \<^verbatim>\<open>Duration.Milliseconds\<close> of a duration in nanoseconds\<close>

definition go_Seconds :: "int \<Rightarrow> f64" where
  "go_Seconds d = float64 (sgn d * (\<bar>d\<bar> div 1000000000)) + float64 (sgn d * (\<bar>d\<bar> mod 1000000000)) / Fin 1000000000"

definition go_Milliseconds :: "int \<Rightarrow> int" where
  "go_Milliseconds d = sgn d * (\<bar>d\<bar> div 1000000)"

record avgTPS = epoch_counts +
  tp_startTime :: "time list"
  tp_endTime :: "time list"

definition NewTestModule_avgTPS :: avgTPS where
  "NewTestModule_avgTPS = \<lparr>ec_epochID = - 1, ec_txNum = [], ec_normalTxNum = [], ec_leg1TxNum = [], ec_leg2TxNum = [], tp_startTime = [], tp_endTime = []\<rparr>"

text \<open>The zero time stands for no time yet.\<close>

definition first_time :: "time \<Rightarrow> time \<Rightarrow> time" where
  "first_time t old = (if old = 0 \<or> old > t then t else old)"

definition last_time :: "time \<Rightarrow> time \<Rightarrow> time" where
  "last_time t old = (if old = 0 \<or> t > old then t else old)"

definition avgTPS_Update :: "scheme \<Rightarrow> BlockInfoMsg \<Rightarrow> avgTPS \<Rightarrow> avgTPS option" where
  "avgTPS_Update sch b m =
     (if bi_BlockBodyLength b = 0 then Some m
      else do { let m = extend_counts (bi_Epoch b)
                          (m\<lparr>tp_startTime := pad_epochs (ec_epochID m) (bi_Epoch b) 0 (tp_startTime m),
                             tp_endTime := pad_epochs (ec_epochID m) (bi_Epoch b) 0 (tp_endTime m)\<rparr>);
                m \<leftarrow> (case sch of
                        RelayScheme \<Rightarrow> do { m \<leftarrow> add_txNum (bi_Epoch b) (legs64 sch b) m; add_txNum (bi_Epoch b) (inner64 b) m }
                      | BrokerScheme \<Rightarrow> add_txNum (bi_Epoch b) (inner64 b + legs64 sch b) m);
                m \<leftarrow> count_txs sch b m;
                st \<leftarrow> bump (tp_startTime m) (bi_Epoch b) (first_time (bi_ProposeTime b));
                et \<leftarrow> bump (tp_endTime m) (bi_Epoch b) (last_time (bi_CommitTime b));
                Some (m\<lparr>tp_startTime := st, tp_endTime := et\<rparr>) })"

definition avgTPS_Broker_Update :: "BlockInfoMsg \<Rightarrow> avgTPS \<Rightarrow> avgTPS option" where
  "avgTPS_Broker_Update b m = avgTPS_Update BrokerScheme b m"

text \<open>An epoch without a report has the zero times, which enter the totals.\<close>

definition avgTPS_OutputRecord :: "time \<Rightarrow> avgTPS \<Rightarrow> (f64 list \<times> f64) option" where
  "avgTPS_OutputRecord now m =
     do { z \<leftarrow> make_slice (ec_epochID m + 1) f64_zero;
          (rs, tot, eTime, lTime) \<leftarrow> foldlM (\<lambda>(rs, tot, eTime, lTime) (eid, n).
             do { st \<leftarrow> slice_get (tp_startTime m) (int eid);
                  et \<leftarrow> slice_get (tp_endTime m) (int eid);
                  rs \<leftarrow> slice_set rs (int eid) (n / go_Seconds (time_Sub et st));
                  Some (rs, tot + n, if eTime > st then st else eTime, if et > lTime then et else lTime) })
            (z, f64_zero, now, 0) (enumerate 0 (ec_txNum m));
          Some (rs, tot / go_Seconds (time_Sub lTime eTime)) }"

section \<open>Latency\<close>

record TCL = epoch_counts +
  tl_totTxLatencyEpoch :: "f64 list"
  tl_leg1CommitLatency :: "int list"
  tl_leg2CommitLatency :: "int list"
  tl_ctxCommitLatency :: "int list"
  tl_normalTxCommitLatency :: "int list"
  tl_leg1Times :: "bytes \<rightharpoonup> time"

definition NewTestModule_TCL :: TCL where
  "NewTestModule_TCL = \<lparr>ec_epochID = - 1, ec_txNum = [], ec_normalTxNum = [], ec_leg1TxNum = [], ec_leg2TxNum = [],
      tl_totTxLatencyEpoch = [], tl_leg1CommitLatency = [], tl_leg2CommitLatency = [], tl_ctxCommitLatency = [],
      tl_normalTxCommitLatency = [], tl_leg1Times = Map.empty\<rparr>"

definition TCL_extend :: "int \<Rightarrow> TCL \<Rightarrow> TCL" where
  "TCL_extend e m = extend_counts e
     (m\<lparr>tl_totTxLatencyEpoch := pad_epochs (ec_epochID m) e f64_zero (tl_totTxLatencyEpoch m),
        tl_leg1CommitLatency := pad_epochs (ec_epochID m) e 0 (tl_leg1CommitLatency m),
        tl_leg2CommitLatency := pad_epochs (ec_epochID m) e 0 (tl_leg2CommitLatency m),
        tl_normalTxCommitLatency := pad_epochs (ec_epochID m) e 0 (tl_normalTxCommitLatency m),
        tl_ctxCommitLatency := pad_epochs (ec_epochID m) e 0 (tl_ctxCommitLatency m)\<rparr>)"

definition TCL_total :: "int \<Rightarrow> int \<Rightarrow> TCL \<Rightarrow> TCL option" where
  "TCL_total e d m = map_option (\<lambda>xs. m\<lparr>tl_totTxLatencyEpoch := xs\<rparr>) (bump (tl_totTxLatencyEpoch m) e (\<lambda>y. y + go_Seconds d))"

definition TCL_leg1 :: "int \<Rightarrow> int \<Rightarrow> TCL \<Rightarrow> TCL option" where
  "TCL_leg1 e d m = map_option (\<lambda>xs. m\<lparr>tl_leg1CommitLatency := xs\<rparr>) (bump (tl_leg1CommitLatency m) e (\<lambda>y. y + go_Milliseconds d))"

definition TCL_leg2 :: "int \<Rightarrow> int \<Rightarrow> TCL \<Rightarrow> TCL option" where
  "TCL_leg2 e d m = map_option (\<lambda>xs. m\<lparr>tl_leg2CommitLatency := xs\<rparr>) (bump (tl_leg2CommitLatency m) e (\<lambda>y. y + go_Milliseconds d))"

definition TCL_ctx :: "int \<Rightarrow> int \<Rightarrow> TCL \<Rightarrow> TCL option" where
  "TCL_ctx e d m = map_option (\<lambda>xs. m\<lparr>tl_ctxCommitLatency := xs\<rparr>) (bump (tl_ctxCommitLatency m) e (\<lambda>y. y + go_Milliseconds d))"

definition TCL_normal :: "int \<Rightarrow> int \<Rightarrow> TCL \<Rightarrow> TCL option" where
  "TCL_normal e d m =
     do { m \<leftarrow> TCL_total e d m;
          map_option (\<lambda>xs. m\<lparr>tl_normalTxCommitLatency := xs\<rparr>) (bump (tl_normalTxCommitLatency m) e (\<lambda>y. y + go_Milliseconds d)) }"

text \<open>The relay variant remembers when a first leg was committed.\<close>

definition TCL_relay1 :: "int \<Rightarrow> time \<Rightarrow> TCL \<Rightarrow> Transaction \<Rightarrow> TCL option" where
  "TCL_relay1 e mTime m tx =
     TCL_leg1 e (time_Sub mTime (tx_Time tx)) (m\<lparr>tl_leg1Times := (tl_leg1Times m)(tx_TxHash tx \<mapsto> mTime)\<rparr>)"

definition TCL_relay2 :: "int \<Rightarrow> time \<Rightarrow> TCL \<Rightarrow> Transaction \<Rightarrow> TCL option" where
  "TCL_relay2 e mTime m tx =
     do { m \<leftarrow> TCL_total e (time_Sub mTime (tx_Time tx)) m;
          (case tl_leg1Times m (tx_TxHash tx) of
             Some t \<Rightarrow> do { m \<leftarrow> TCL_leg2 e (time_Sub mTime t) m; TCL_ctx e (time_Sub mTime (tx_Time tx)) m }
           | None \<Rightarrow> Some m) }"

text \<open>The broker variant remembers when a first leg was created, under the hash of the original transaction.\<close>

definition TCL_broker1 :: "int \<Rightarrow> time \<Rightarrow> TCL \<Rightarrow> Transaction \<Rightarrow> TCL option" where
  "TCL_broker1 e mTime m tx =
     TCL_leg1 e (time_Sub mTime (tx_Time tx)) (m\<lparr>tl_leg1Times := (tl_leg1Times m)(tx_RawTxHash tx \<mapsto> tx_Time tx)\<rparr>)"

definition TCL_broker2 :: "int \<Rightarrow> time \<Rightarrow> TCL \<Rightarrow> Transaction \<Rightarrow> TCL option" where
  "TCL_broker2 e mTime m tx =
     do { m \<leftarrow> (case tl_leg1Times m (tx_RawTxHash tx) of
                 Some t \<Rightarrow> do { m \<leftarrow> TCL_total e (time_Sub mTime t) m; TCL_ctx e (time_Sub mTime t) m }
               | None \<Rightarrow> Some m);
          TCL_leg2 e (time_Sub mTime (tx_Time tx)) m }"

definition TCL_Update :: "scheme \<Rightarrow> BlockInfoMsg \<Rightarrow> TCL \<Rightarrow> TCL option" where
  "TCL_Update sch b m =
     (if bi_BlockBodyLength b = 0 then Some m
      else do { let e = bi_Epoch b; let t = bi_CommitTime b;
                m \<leftarrow> count_txs sch b (TCL_extend e m);
                m \<leftarrow> add_txNum e (inner64 b + legs64 sch b) m;
                (case sch of
                   RelayScheme \<Rightarrow>
                     do { m \<leftarrow> foldlM (TCL_relay1 e t) m (bi_Relay1Txs b);
                          m \<leftarrow> foldlM (TCL_relay2 e t) m (bi_Relay2Txs b);
                          foldlM (\<lambda>m tx. TCL_normal e (time_Sub t (tx_Time tx)) m) m (bi_InnerShardTxs b) }
                 | BrokerScheme \<Rightarrow>
                     do { m \<leftarrow> foldlM (\<lambda>m tx. TCL_normal e (time_Sub t (tx_Time tx)) m) m (bi_InnerShardTxs b);
                          m \<leftarrow> foldlM (TCL_broker1 e t) m (bi_Broker1Txs b);
                          foldlM (TCL_broker2 e t) m (bi_Broker2Txs b) }) })"

definition TCL_Broker_Update :: "BlockInfoMsg \<Rightarrow> TCL \<Rightarrow> TCL option" where
  "TCL_Broker_Update b m = TCL_Update BrokerScheme b m"

definition TCL_OutputRecord :: "TCL \<Rightarrow> (f64 list \<times> f64) option" where
  "TCL_OutputRecord m =
     do { (rs, latencySum, totTxNum) \<leftarrow> foldlM (\<lambda>(rs, ls, tn) (eid, l).
             map_option (\<lambda>n. (rs @ [l / n], ls + l, tn + n)) (slice_get (ec_txNum m) (int eid)))
            ([], f64_zero, f64_zero) (enumerate 0 (tl_totTxLatencyEpoch m));
          Some (rs, latencySum / totTxNum) }"

section \<open>Details of single transactions\<close>

record txMetricDetailTime =
  td_TxProposeTimestamp :: time
  td_BlockProposeTimestamp :: time
  td_TxCommitTimestamp :: time
  td_Relay1CommitTimestamp :: time
  td_Relay2CommitTimestamp :: time
  td_Broker1CommitTimestamp :: time
  td_Broker2CommitTimestamp :: time

type_synonym TestTxDetail = "bytes \<rightharpoonup> txMetricDetailTime"

definition NewTestTxDetail :: TestTxDetail where
  "NewTestTxDetail = Map.empty"

definition no_detail :: txMetricDetailTime where
  "no_detail = \<lparr>td_TxProposeTimestamp = 0, td_BlockProposeTimestamp = 0, td_TxCommitTimestamp = 0, td_Relay1CommitTimestamp = 0,
     td_Relay2CommitTimestamp = 0, td_Broker1CommitTimestamp = 0, td_Broker2CommitTimestamp = 0\<rparr>"

definition set_detail :: "bytes \<Rightarrow> (txMetricDetailTime \<Rightarrow> txMetricDetailTime) \<Rightarrow> TestTxDetail \<Rightarrow> TestTxDetail" where
  "set_detail h f m = m(h \<mapsto> f (case m h of None \<Rightarrow> no_detail | Some d \<Rightarrow> d))"

definition TxDetail_Update :: "BlockInfoMsg \<Rightarrow> TestTxDetail \<Rightarrow> TestTxDetail" where
  "TxDetail_Update b m =
     (if bi_BlockBodyLength b = 0 then m
      else let p = bi_ProposeTime b; c = bi_CommitTime b;
               m = foldl (\<lambda>m tx. set_detail (tx_TxHash tx) (\<lambda>d. d\<lparr>td_TxProposeTimestamp := tx_Time tx, td_BlockProposeTimestamp := p, td_TxCommitTimestamp := c\<rparr>) m) m (bi_InnerShardTxs b);
               m = foldl (\<lambda>m tx. set_detail (tx_TxHash tx) (\<lambda>d. d\<lparr>td_TxProposeTimestamp := tx_Time tx, td_BlockProposeTimestamp := p, td_Relay1CommitTimestamp := c\<rparr>) m) m (bi_Relay1Txs b);
               m = foldl (\<lambda>m tx. set_detail (tx_TxHash tx) (\<lambda>d. d\<lparr>td_Relay2CommitTimestamp := c, td_TxCommitTimestamp := c\<rparr>) m) m (bi_Relay2Txs b);
               m = foldl (\<lambda>m tx. set_detail (tx_RawTxHash tx) (\<lambda>d. d\<lparr>td_TxProposeTimestamp := tx_Time tx, td_BlockProposeTimestamp := p, td_Broker1CommitTimestamp := c\<rparr>) m) m (bi_Broker1Txs b)
           in foldl (\<lambda>m tx. set_detail (tx_RawTxHash tx) (\<lambda>d. d\<lparr>td_Broker2CommitTimestamp := c, td_TxCommitTimestamp := c\<rparr>) m) m (bi_Broker2Txs b))"

section \<open>The modules\<close>

text \<open>The interface \<^verbatim>\<open>MeasureModule\<close> and its implementations.\<close>

datatype measure_module =
    TPS_Relay avgTPS
  | TPS_Broker avgTPS
  | TCL_Relay TCL
  | TCL_Broker TCL
  | CrossTxRate_Relay CrossTxRate
  | CrossTxRate_Broker CrossTxRate
  | TxNumberCount_Relay epoch_counts
  | TxNumberCount_Broker epoch_counts
  | Tx_Details TestTxDetail

definition OutputMetricName :: "measure_module \<Rightarrow> bytes" where
  "OutputMetricName mm =
     (case mm of
        TPS_Relay _ \<Rightarrow> ''Average_TPS''
      | TPS_Broker _ \<Rightarrow> ''Average_TPS''
      | TCL_Relay _ \<Rightarrow> ''Transaction_Confirm_Latency''
      | TCL_Broker _ \<Rightarrow> ''Transaction_Confirm_Latency''
      | CrossTxRate_Relay _ \<Rightarrow> ''CrossTransaction_ratio''
      | CrossTxRate_Broker _ \<Rightarrow> ''CrossTransaction_ratio''
      | TxNumberCount_Relay _ \<Rightarrow> ''Tx_number''
      | TxNumberCount_Broker _ \<Rightarrow> ''Tx_number''
      | Tx_Details _ \<Rightarrow> ''Tx_Details'')"

definition UpdateMeasureRecord :: "BlockInfoMsg \<Rightarrow> measure_module \<Rightarrow> measure_module option" where
  "UpdateMeasureRecord b mm =
     (case mm of
        TPS_Relay m \<Rightarrow> map_option TPS_Relay (avgTPS_Update RelayScheme b m)
      | TPS_Broker m \<Rightarrow> map_option TPS_Broker (avgTPS_Broker_Update b m)
      | TCL_Relay m \<Rightarrow> map_option TCL_Relay (TCL_Update RelayScheme b m)
      | TCL_Broker m \<Rightarrow> map_option TCL_Broker (TCL_Broker_Update b m)
      | CrossTxRate_Relay m \<Rightarrow> map_option CrossTxRate_Relay (CrossTxRate_Update RelayScheme b m)
      | CrossTxRate_Broker m \<Rightarrow> map_option CrossTxRate_Broker (CrossTxRate_Broker_Update b m)
      | TxNumberCount_Relay m \<Rightarrow> map_option TxNumberCount_Relay (TxNumCount_Relay_Update b m)
      | TxNumberCount_Broker m \<Rightarrow> map_option TxNumberCount_Broker (TxNumCount_Broker_Update b m)
      | Tx_Details m \<Rightarrow> Some (Tx_Details (TxDetail_Update b m)))"

definition OutputRecord :: "time \<Rightarrow> measure_module \<Rightarrow> (f64 list \<times> f64) option" where
  "OutputRecord now mm =
     (case mm of
        TPS_Relay m \<Rightarrow> avgTPS_OutputRecord now m
      | TPS_Broker m \<Rightarrow> avgTPS_OutputRecord now m
      | TCL_Relay m \<Rightarrow> TCL_OutputRecord m
      | TCL_Broker m \<Rightarrow> TCL_OutputRecord m
      | CrossTxRate_Relay m \<Rightarrow> CrossTxRate_OutputRecord m
      | CrossTxRate_Broker m \<Rightarrow> CrossTxRate_OutputRecord m
      | TxNumberCount_Relay m \<Rightarrow> Some (TxNumCount_OutputRecord m)
      | TxNumberCount_Broker m \<Rightarrow> Some (TxNumCount_OutputRecord m)
      | Tx_Details m \<Rightarrow> Some ([], f64_zero))"

end
