(* ===== verification/Sup_Measure_Props.thy ===== *)
theory Sup_Measure_Props
  imports Sup_Measure
begin

text \<open>
  The measure modules count exactly: after any sequence of block reports the counters of an epoch are
  what the reports of that epoch add up to, with each leg of a cross-shard transaction as a half, although the sums
  are floating-point numbers. The argument is made once for a module that satisfies the laws of
  \<open>epoch_measure\<close>; each module is an interpretation of it.
\<close>

section \<open>What the reports add up to\<close>

definition reported_in :: "int \<Rightarrow> (BlockInfoMsg \<Rightarrow> Transaction list) \<Rightarrow> BlockInfoMsg list \<Rightarrow> int" where
  "reported_in e f bs = sum_list (map (\<lambda>b. if bi_BlockBodyLength b \<noteq> 0 \<and> bi_Epoch b = e then int (length (f b)) else 0) bs)"

definition halves :: "scheme \<Rightarrow> BlockInfoMsg \<Rightarrow> int" where
  "halves sch b = 2 * int (length (bi_InnerShardTxs b)) + int (length (legs1 sch b)) + int (length (legs2 sch b))"

definition all_halves :: "scheme \<Rightarrow> BlockInfoMsg list \<Rightarrow> int" where
  "all_halves sch bs = sum_list (map (halves sch) bs)"

definition counted :: "scheme \<Rightarrow> BlockInfoMsg list \<Rightarrow> 'm epoch_counts_scheme \<Rightarrow> bool" where
  "counted sch bs m \<longleftrightarrow>
     - 1 \<le> ec_epochID m \<and> (\<forall>b \<in> set bs. bi_BlockBodyLength b \<noteq> 0 \<longrightarrow> bi_Epoch b \<le> ec_epochID m)
     \<and> length (ec_txNum m) = nat (ec_epochID m + 1) \<and> length (ec_normalTxNum m) = nat (ec_epochID m + 1)
     \<and> length (ec_leg1TxNum m) = nat (ec_epochID m + 1) \<and> length (ec_leg2TxNum m) = nat (ec_epochID m + 1)
     \<and> (\<forall>e. 0 \<le> e \<and> e \<le> ec_epochID m \<longrightarrow>
          ec_normalTxNum m ! nat e = reported_in e bi_InnerShardTxs bs
          \<and> ec_leg1TxNum m ! nat e = reported_in e (legs1 sch) bs \<and> ec_leg2TxNum m ! nat e = reported_in e (legs2 sch) bs
          \<and> ec_txNum m ! nat e = half64 (2 * reported_in e bi_InnerShardTxs bs + reported_in e (legs1 sch) bs + reported_in e (legs2 sch) bs))"

lemma counted_txNum:
  "counted sch bs m \<Longrightarrow> 0 \<le> e \<Longrightarrow> e \<le> ec_epochID m \<Longrightarrow>
     ec_txNum m ! nat e = half64 (2 * reported_in e bi_InnerShardTxs bs + reported_in e (legs1 sch) bs + reported_in e (legs2 sch) bs)"
  unfolding counted_def by simp

lemma reported_simps [simp]:
  "reported_in e f [] = 0"
  "reported_in e f (bs @ [b]) = reported_in e f bs + (if bi_BlockBodyLength b \<noteq> 0 \<and> bi_Epoch b = e then int (length (f b)) else 0)"
  by (simp_all add: reported_in_def)

lemma reported_nonneg: "0 \<le> reported_in e f bs"
  by (auto simp: reported_in_def intro!: sum_list_nonneg)

lemma reported_none: "(\<forall>b \<in> set bs. bi_BlockBodyLength b \<noteq> 0 \<longrightarrow> bi_Epoch b < e) \<Longrightarrow> reported_in e f bs = 0"
  unfolding reported_in_def by (induction bs) auto

lemma reported_total: "2 * reported_in e bi_InnerShardTxs bs + reported_in e (legs1 sch) bs + reported_in e (legs2 sch) bs \<le> all_halves sch bs"
  unfolding reported_in_def all_halves_def halves_def by (induction bs) auto

lemma all_halves_simps [simp]: "all_halves sch [] = 0" "all_halves sch (bs @ [b]) = all_halves sch bs + halves sch b"
  by (simp_all add: all_halves_def)

text \<open>The slices after the epoch of a report has been opened.\<close>

lemma pad_epochs_nth:
  "length xs = nat (k + 1) \<Longrightarrow> - 1 \<le> k \<Longrightarrow> 0 \<le> e \<Longrightarrow> e \<le> max k d \<Longrightarrow> pad_epochs k d z xs ! nat e = (if e \<le> k then xs ! nat e else z)"
  by (auto simp: pad_epochs_def nth_append nat_less_iff zless_nat_eq_int_zless)

lemma pad_epochs_length: "length xs = nat (k + 1) \<Longrightarrow> - 1 \<le> k \<Longrightarrow> length (pad_epochs k d z xs) = nat (max k d + 1)"
  by (auto simp: pad_epochs_def max_def)

text \<open>
  One report: whatever else a module does, its counters are right again when each integer counter has
  grown by the number of transactions and the sum by their halves.
\<close>

lemma counted_step:
  fixes m :: "'m epoch_counts_scheme" and m' :: "'n epoch_counts_scheme"
  assumes m: "counted sch bs m" and b: "bi_BlockBodyLength b \<noteq> 0" "0 \<le> bi_Epoch b"
    and m': "ec_epochID m' = max (ec_epochID m) (bi_Epoch b)"
      "ec_normalTxNum m' = (pad_epochs (ec_epochID m) (bi_Epoch b) 0 (ec_normalTxNum m))[nat (bi_Epoch b) :=
         pad_epochs (ec_epochID m) (bi_Epoch b) 0 (ec_normalTxNum m) ! nat (bi_Epoch b) + int (length (bi_InnerShardTxs b))]"
      "ec_leg1TxNum m' = (pad_epochs (ec_epochID m) (bi_Epoch b) 0 (ec_leg1TxNum m))[nat (bi_Epoch b) :=
         pad_epochs (ec_epochID m) (bi_Epoch b) 0 (ec_leg1TxNum m) ! nat (bi_Epoch b) + int (length (legs1 sch b))]"
      "ec_leg2TxNum m' = (pad_epochs (ec_epochID m) (bi_Epoch b) 0 (ec_leg2TxNum m))[nat (bi_Epoch b) :=
         pad_epochs (ec_epochID m) (bi_Epoch b) 0 (ec_leg2TxNum m) ! nat (bi_Epoch b) + int (length (legs2 sch b))]"
      "ec_txNum m' = (pad_epochs (ec_epochID m) (bi_Epoch b) f64_zero (ec_txNum m))[nat (bi_Epoch b) := x]"
    and x: "\<And>k. pad_epochs (ec_epochID m) (bi_Epoch b) f64_zero (ec_txNum m) ! nat (bi_Epoch b) = half64 k \<Longrightarrow>
      0 \<le> k \<Longrightarrow> k \<le> all_halves sch bs \<Longrightarrow> x = half64 (k + halves sch b)"
  shows "counted sch (bs @ [b]) m'"
proof -
  let ?k = "\<lambda>e bs. 2 * reported_in e bi_InnerShardTxs bs + reported_in e (legs1 sch) bs + reported_in e (legs2 sch) bs"
  let ?E = "bi_Epoch b" and ?n = "ec_epochID m"
  from m have len: "length (ec_txNum m) = nat (?n + 1)" "length (ec_normalTxNum m) = nat (?n + 1)" "length (ec_leg1TxNum m) = nat (?n + 1)"
      "length (ec_leg2TxNum m) = nat (?n + 1)" and n: "- 1 \<le> ?n"
    and le: "\<forall>b \<in> set bs. bi_BlockBodyLength b \<noteq> 0 \<longrightarrow> bi_Epoch b \<le> ?n" by (simp_all add: counted_def)
  note P = pad_epochs_nth[OF len(1) n] pad_epochs_nth[OF len(2) n] pad_epochs_nth[OF len(3) n] pad_epochs_nth[OF len(4) n]
  note L = pad_epochs_length[OF len(1) n] pad_epochs_length[OF len(2) n] pad_epochs_length[OF len(3) n] pad_epochs_length[OF len(4) n]
  have none: "reported_in e f bs = 0" if "?n < e" for e f using le that by (intro reported_none) force
  have old: "pad_epochs ?n ?E 0 (ec_normalTxNum m) ! nat e = reported_in e bi_InnerShardTxs bs"
    "pad_epochs ?n ?E 0 (ec_leg1TxNum m) ! nat e = reported_in e (legs1 sch) bs" "pad_epochs ?n ?E 0 (ec_leg2TxNum m) ! nat e = reported_in e (legs2 sch) bs"
    "pad_epochs ?n ?E f64_zero (ec_txNum m) ! nat e = half64 (?k e bs)" if e: "0 \<le> e" "e \<le> max ?n ?E" for e
    using m e none[of e] by (auto simp: P counted_def half64_def)
  have "x = half64 (?k ?E bs + halves sch b)"
    using b(2) reported_total reported_nonneg by (intro x old) (simp_all add: add_nonneg_nonneg)
  moreover have "nat e = nat ?E \<longleftrightarrow> e = ?E" if "0 \<le> e" for e using that b(2) by auto
  ultimately show ?thesis
    using b le n by (auto simp: counted_def m' L nth_list_update old halves_def algebra_simps nat_less_iff zless_nat_eq_int_zless max_def)
qed

section \<open>Modules\<close>

text \<open>
  A module with counters: \<open>upd\<close> handles a report and \<open>aux\<close> is what it keeps of its other slices.
\<close>

locale epoch_measure =
  fixes upd :: "BlockInfoMsg \<Rightarrow> 'm epoch_counts_scheme \<Rightarrow> 'm epoch_counts_scheme option"
    and sch :: scheme and aux :: "'m epoch_counts_scheme \<Rightarrow> bool"
  assumes skips_empty: "bi_BlockBodyLength b = 0 \<Longrightarrow> upd b m = Some m"
    and records: "bi_BlockBodyLength b \<noteq> 0 \<Longrightarrow> 0 \<le> bi_Epoch b \<Longrightarrow> aux m \<Longrightarrow> counted sch bs m \<Longrightarrow>
      all_halves sch (bs @ [b]) < 2 ^ 52 \<Longrightarrow> \<exists>m'. upd b m = Some m' \<and> aux m' \<and> counted sch (bs @ [b]) m'"
begin

lemma counts_reports:
  assumes "aux m0" and "counted sch [] m0" and "\<forall>b \<in> set bs. 0 \<le> bi_Epoch b" and "all_halves sch bs < 2 ^ 52"
  shows "\<exists>m. foldlM (\<lambda>m b. upd b m) m0 bs = Some m \<and> aux m \<and> counted sch bs m"
  using assms(3,4)
proof (induction bs rule: rev_induct)
  case Nil
  then show ?case using assms(1,2) by simp
next
  case (snoc b bs)
  have "0 \<le> halves sch b" by (simp add: halves_def)
  with snoc obtain m where m: "foldlM (\<lambda>m b. upd b m) m0 bs = Some m" "aux m" "counted sch bs m" by auto
  show ?case
  proof (cases "bi_BlockBodyLength b = 0")
    case True
    with m have "counted sch (bs @ [b]) m" by (simp add: counted_def)
    with True m skips_empty show ?thesis by (simp add: foldlM_append)
  next
    case False
    with records[OF False _ m(2,3)] snoc.prems m(1) show ?thesis by (auto simp: foldlM_append)
  qed
qed

end

text \<open>The common part of the modules: opening the epoch and counting.\<close>

lemma extend_counts_fields [simp]:
  "ec_epochID (extend_counts e m) = max (ec_epochID m) e"
  "ec_txNum (extend_counts e m) = pad_epochs (ec_epochID m) e f64_zero (ec_txNum m)"
  "ec_normalTxNum (extend_counts e m) = pad_epochs (ec_epochID m) e 0 (ec_normalTxNum m)"
  "ec_leg1TxNum (extend_counts e m) = pad_epochs (ec_epochID m) e 0 (ec_leg1TxNum m)"
  "ec_leg2TxNum (extend_counts e m) = pad_epochs (ec_epochID m) e 0 (ec_leg2TxNum m)"
  "epoch_counts.more (extend_counts e m) = epoch_counts.more m"
  by (simp_all add: extend_counts_def)

definition slices_ok :: "'m epoch_counts_scheme \<Rightarrow> bool" where
  "slices_ok m \<longleftrightarrow> length (ec_txNum m) = nat (ec_epochID m + 1) \<and> length (ec_normalTxNum m) = nat (ec_epochID m + 1)
     \<and> length (ec_leg1TxNum m) = nat (ec_epochID m + 1) \<and> length (ec_leg2TxNum m) = nat (ec_epochID m + 1) \<and> - 1 \<le> ec_epochID m"

lemma counted_slices: "counted sch bs m \<Longrightarrow> slices_ok m"
  by (simp add: counted_def slices_ok_def)

lemma slices_ok_extend: "slices_ok m \<Longrightarrow> slices_ok (extend_counts e m)"
  by (auto simp: slices_ok_def pad_epochs_length)

lemma count_txs_in:
  assumes "slices_ok m" and "0 \<le> bi_Epoch b" "bi_Epoch b \<le> ec_epochID m"
  shows "count_txs sch b m = Some (m
    \<lparr>ec_normalTxNum := (ec_normalTxNum m)[nat (bi_Epoch b) := ec_normalTxNum m ! nat (bi_Epoch b) + int (length (bi_InnerShardTxs b))],
     ec_leg1TxNum := (ec_leg1TxNum m)[nat (bi_Epoch b) := ec_leg1TxNum m ! nat (bi_Epoch b) + int (length (legs1 sch b))],
     ec_leg2TxNum := (ec_leg2TxNum m)[nat (bi_Epoch b) := ec_leg2TxNum m ! nat (bi_Epoch b) + int (length (legs2 sch b))]\<rparr>)"
  using assms by (simp add: count_txs_def slices_ok_def)

lemma add_txNum_in:
  assumes "length (ec_txNum m) = nat (ec_epochID m + 1)" and "0 \<le> e" "e \<le> ec_epochID m"
  shows "add_txNum e x m = Some (m\<lparr>ec_txNum := (ec_txNum m)[nat e := ec_txNum m ! nat e + x]\<rparr>)"
  using assms by (simp add: add_txNum_def)

lemma halves_float:
  assumes "all_halves sch (bs @ [b]) < 2 ^ 52" and "0 \<le> k" "k \<le> all_halves sch bs"
  shows "half64 k + (inner64 b + legs64 sch b) = half64 (k + halves sch b)"
    and "half64 k + (legs64 sch b + inner64 b) = half64 (k + halves sch b)"
    and "half64 k + legs64 sch b + inner64 b = half64 (k + halves sch b)"
    and "half64 k + (inner64 b + (float64 (int (length (legs1 sch b))) + float64 (int (length (legs2 sch b)))) / Fin 2) = half64 (k + halves sch b)"
proof -
  define i a c where "i = int (length (bi_InnerShardTxs b))" and "a = int (length (legs1 sch b))" and "c = int (length (legs2 sch b))"
  have h: "halves sch b = 2 * i + a + c" by (simp add: halves_def i_def a_def c_def)
  have nn: "0 \<le> i" "0 \<le> a" "0 \<le> c" by (simp_all add: i_def a_def c_def)
  have sum: "k + (2 * i + a + c) < 2 ^ 52" using assms h by simp
  have inner: "inner64 b = half64 (2 * i)"
    using float64_half[of i] nn sum assms(2) by (simp add: inner64_def flip: i_def)
  have legs: "legs64 sch b = half64 (a + c)"
    using float64_half[of "a + c"] half64_divide[of "a + c"] nn sum assms(2) by (simp add: legs64_def flip: a_def c_def)
  have legs': "(float64 (int (length (legs1 sch b))) + float64 (int (length (legs2 sch b)))) / Fin 2 = half64 (a + c)"
    using float64_half[of a] float64_half[of c] half64_add[of "2 * a" "2 * c"] half64_divide[of "a + c"] nn sum assms(2)
    by (simp add: distrib_left flip: a_def c_def)
  note add = half64_add[of "2 * i" "a + c"] half64_add[of "a + c" "2 * i"] half64_add[of k "2 * i + (a + c)"] half64_add[of k "a + c + 2 * i"]
    half64_add[of k "a + c"] half64_add[of "k + (a + c)" "2 * i"]
  have eq: "k + (a + c + 2 * i) = k + (2 * i + (a + c))" "k + (a + c) + 2 * i = k + (2 * i + (a + c))" "2 * i + a + c = 2 * i + (a + c)" by simp_all
  show "half64 k + (inner64 b + legs64 sch b) = half64 (k + halves sch b)"
    "half64 k + (legs64 sch b + inner64 b) = half64 (k + halves sch b)"
    "half64 k + legs64 sch b + inner64 b = half64 (k + halves sch b)"
    "half64 k + (inner64 b + (float64 (int (length (legs1 sch b))) + float64 (int (length (legs2 sch b)))) / Fin 2) = half64 (k + halves sch b)"
    using nn sum assms(2) add unfolding inner legs legs' h eq by simp_all
qed

lemma counted_records:
  fixes m :: "'m epoch_counts_scheme" and m' :: "'n epoch_counts_scheme"
  assumes "counted sch bs m" and "bi_BlockBodyLength b \<noteq> 0" "0 \<le> bi_Epoch b"
    and "ec_epochID m' = max (ec_epochID m) (bi_Epoch b)"
      "ec_normalTxNum m' = (pad_epochs (ec_epochID m) (bi_Epoch b) 0 (ec_normalTxNum m))[nat (bi_Epoch b) :=
         pad_epochs (ec_epochID m) (bi_Epoch b) 0 (ec_normalTxNum m) ! nat (bi_Epoch b) + int (length (bi_InnerShardTxs b))]"
      "ec_leg1TxNum m' = (pad_epochs (ec_epochID m) (bi_Epoch b) 0 (ec_leg1TxNum m))[nat (bi_Epoch b) :=
         pad_epochs (ec_epochID m) (bi_Epoch b) 0 (ec_leg1TxNum m) ! nat (bi_Epoch b) + int (length (legs1 sch b))]"
      "ec_leg2TxNum m' = (pad_epochs (ec_epochID m) (bi_Epoch b) 0 (ec_leg2TxNum m))[nat (bi_Epoch b) :=
         pad_epochs (ec_epochID m) (bi_Epoch b) 0 (ec_leg2TxNum m) ! nat (bi_Epoch b) + int (length (legs2 sch b))]"
      "ec_txNum m' = (pad_epochs (ec_epochID m) (bi_Epoch b) f64_zero (ec_txNum m))[nat (bi_Epoch b) :=
         g (pad_epochs (ec_epochID m) (bi_Epoch b) f64_zero (ec_txNum m) ! nat (bi_Epoch b))]"
    and "\<And>k. 0 \<le> k \<Longrightarrow> k \<le> all_halves sch bs \<Longrightarrow> g (half64 k) = half64 (k + halves sch b)"
  shows "counted sch (bs @ [b]) m'"
  using assms by (intro counted_step[where x = "g (pad_epochs (ec_epochID m) (bi_Epoch b) f64_zero (ec_txNum m) ! nat (bi_Epoch b))" and m = m]) simp_all

lemma counted_new: "ec_epochID m = - 1 \<Longrightarrow> ec_txNum m = [] \<Longrightarrow> ec_normalTxNum m = [] \<Longrightarrow> ec_leg1TxNum m = [] \<Longrightarrow> ec_leg2TxNum m = [] \<Longrightarrow>
    counted sch [] m"
  by (auto simp: counted_def)

text \<open>After \<^const>\<open>count_txs\<close> on the opened epoch, only the sum is left to be recorded.\<close>

lemma counted_then:
  fixes m :: "'m epoch_counts_scheme" and m' :: "'m epoch_counts_scheme"
  assumes "counted sch bs m" and "bi_BlockBodyLength b \<noteq> 0" "0 \<le> bi_Epoch b"
    and "count_txs sch b (extend_counts (bi_Epoch b) m) = Some m1"
    and "ec_epochID m' = ec_epochID m1" "ec_normalTxNum m' = ec_normalTxNum m1" "ec_leg1TxNum m' = ec_leg1TxNum m1" "ec_leg2TxNum m' = ec_leg2TxNum m1"
      "ec_txNum m' = (ec_txNum m1)[nat (bi_Epoch b) := g (ec_txNum m1 ! nat (bi_Epoch b))]"
    and "\<And>k. 0 \<le> k \<Longrightarrow> k \<le> all_halves sch bs \<Longrightarrow> g (half64 k) = half64 (k + halves sch b)"
  shows "counted sch (bs @ [b]) m'"
proof -
  have "slices_ok (extend_counts (bi_Epoch b) m)" by (rule slices_ok_extend[OF counted_slices[OF assms(1)]])
  with assms(3,4) have "m1 = (extend_counts (bi_Epoch b) m)
    \<lparr>ec_normalTxNum := (ec_normalTxNum (extend_counts (bi_Epoch b) m))[nat (bi_Epoch b) := ec_normalTxNum (extend_counts (bi_Epoch b) m) ! nat (bi_Epoch b) + int (length (bi_InnerShardTxs b))],
     ec_leg1TxNum := (ec_leg1TxNum (extend_counts (bi_Epoch b) m))[nat (bi_Epoch b) := ec_leg1TxNum (extend_counts (bi_Epoch b) m) ! nat (bi_Epoch b) + int (length (legs1 sch b))],
     ec_leg2TxNum := (ec_leg2TxNum (extend_counts (bi_Epoch b) m))[nat (bi_Epoch b) := ec_leg2TxNum (extend_counts (bi_Epoch b) m) ! nat (bi_Epoch b) + int (length (legs2 sch b))]\<rparr>"
    by (simp add: count_txs_in)
  with assms(5-9) show ?thesis by (intro counted_records[OF assms(1-3), where g = g] assms(10)) simp_all
qed

lemma count_opened:
  assumes "counted sch bs m" and "0 \<le> bi_Epoch b"
  shows "\<exists>m1. count_txs sch b (extend_counts (bi_Epoch b) m) = Some m1 \<and> slices_ok m1
    \<and> ec_epochID m1 = max (ec_epochID m) (bi_Epoch b)
    \<and> (\<exists>ns l1 l2. m1 = (extend_counts (bi_Epoch b) m)\<lparr>ec_normalTxNum := ns, ec_leg1TxNum := l1, ec_leg2TxNum := l2\<rparr>)"
proof -
  have "slices_ok (extend_counts (bi_Epoch b) m)" by (rule slices_ok_extend[OF counted_slices[OF assms(1)]])
  with assms(2) show ?thesis by (simp add: count_txs_in) (auto simp: slices_ok_def)
qed

interpretation tx_relay: epoch_measure TxNumCount_Relay_Update RelayScheme "\<lambda>_. True"
proof
  fix b bs and m :: epoch_counts
  assume b: "bi_BlockBodyLength b \<noteq> 0" "0 \<le> bi_Epoch b" and m: "counted RelayScheme bs m" and h: "all_halves RelayScheme (bs @ [b]) < 2 ^ 52"
  obtain m1 where m1: "count_txs RelayScheme b (extend_counts (bi_Epoch b) m) = Some m1" "slices_ok m1" "ec_epochID m1 = max (ec_epochID m) (bi_Epoch b)"
    using count_opened[OF m b(2)] by blast
  show "\<exists>m'. TxNumCount_Relay_Update b m = Some m' \<and> True \<and> counted RelayScheme (bs @ [b]) m'"
    using b m1 counted_then[OF m b m1(1), where g = "\<lambda>y. y + (inner64 b + legs64 RelayScheme b)"] halves_float(1)[OF h]
    by (simp add: TxNumCount_Relay_Update_def add_txNum_in slices_ok_def)
qed (simp add: TxNumCount_Relay_Update_def)

interpretation tx_broker: epoch_measure TxNumCount_Broker_Update BrokerScheme "\<lambda>_. True"
proof
  fix b bs and m :: epoch_counts
  assume b: "bi_BlockBodyLength b \<noteq> 0" "0 \<le> bi_Epoch b" and m: "counted BrokerScheme bs m" and h: "all_halves BrokerScheme (bs @ [b]) < 2 ^ 52"
  obtain m1 where m1: "count_txs BrokerScheme b (extend_counts (bi_Epoch b) m) = Some m1" "slices_ok m1" "ec_epochID m1 = max (ec_epochID m) (bi_Epoch b)"
    using count_opened[OF m b(2)] by blast
  show "\<exists>m'. TxNumCount_Broker_Update b m = Some m' \<and> True \<and> counted BrokerScheme (bs @ [b]) m'"
    using b m1 halves_float(4)[OF h]
      counted_then[OF m b m1(1), where g = "\<lambda>y. y + (inner64 b + (float64 (int (length (bi_Broker1Txs b))) + float64 (int (length (bi_Broker2Txs b)))) / Fin 2)"]
    by (simp add: TxNumCount_Broker_Update_def add_txNum_in slices_ok_def)
qed (simp add: TxNumCount_Broker_Update_def)

definition cross_aux :: "CrossTxRate \<Rightarrow> bool" where
  "cross_aux m \<longleftrightarrow> length (ct_totCrossTxNum m) = nat (ec_epochID m + 1)"

interpretation cross_rate: epoch_measure "CrossTxRate_Update sch" sch cross_aux for sch
proof
  fix b bs and m :: CrossTxRate
  assume b: "bi_BlockBodyLength b \<noteq> 0" "0 \<le> bi_Epoch b" and aux: "cross_aux m" and m: "counted sch bs m"
    and h: "all_halves sch (bs @ [b]) < 2 ^ 52"
  define m0 where "m0 = m\<lparr>ct_totCrossTxNum := pad_epochs (ec_epochID m) (bi_Epoch b) f64_zero (ct_totCrossTxNum m)\<rparr>"
  have c0: "counted sch bs m0" using m by (simp add: m0_def counted_def)
  obtain m1 ns l1 l2 where m1: "count_txs sch b (extend_counts (bi_Epoch b) m0) = Some m1" "slices_ok m1" "ec_epochID m1 = max (ec_epochID m0) (bi_Epoch b)"
    "m1 = (extend_counts (bi_Epoch b) m0)\<lparr>ec_normalTxNum := ns, ec_leg1TxNum := l1, ec_leg2TxNum := l2\<rparr>"
    using count_opened[OF c0 b(2)] by blast
  have len: "length (ct_totCrossTxNum m1) = nat (max (ec_epochID m) (bi_Epoch b) + 1)"
    using m aux pad_epochs_length[of "ct_totCrossTxNum m" "ec_epochID m"] by (simp add: m1(4) extend_counts_def m0_def cross_aux_def counted_def)
  define x where "x = (case sch of RelayScheme \<Rightarrow> legs64 sch b + inner64 b | BrokerScheme \<Rightarrow> inner64 b + legs64 sch b)"
  let ?m2 = "m1\<lparr>ct_totCrossTxNum := (ct_totCrossTxNum m1)[nat (bi_Epoch b) := ct_totCrossTxNum m1 ! nat (bi_Epoch b) + legs64 sch b]\<rparr>"
  have "add_txNum (bi_Epoch b) x ?m2 = Some (?m2\<lparr>ec_txNum := (ec_txNum m1)[nat (bi_Epoch b) := ec_txNum m1 ! nat (bi_Epoch b) + x]\<rparr>)"
    using m1(2,3) b(2) by (subst add_txNum_in) (simp_all add: slices_ok_def)
  then have "CrossTxRate_Update sch b m = Some (?m2\<lparr>ec_txNum := (ec_txNum m1)[nat (bi_Epoch b) := ec_txNum m1 ! nat (bi_Epoch b) + x]\<rparr>)"
    using b m1(1) len by (simp add: CrossTxRate_Update_def m0_def[symmetric] x_def[symmetric])
  moreover have "half64 k + x = half64 (k + halves sch b)" if "0 \<le> k" "k \<le> all_halves sch bs" for k
    using halves_float(1,2)[OF h that] by (cases sch) (simp_all add: x_def)
  then have "counted sch (bs @ [b]) (?m2\<lparr>ec_txNum := (ec_txNum m1)[nat (bi_Epoch b) := ec_txNum m1 ! nat (bi_Epoch b) + x]\<rparr>)"
    by (intro counted_then[OF c0 b m1(1), where g = "\<lambda>y. y + x"]) simp_all
  ultimately show "\<exists>m'. CrossTxRate_Update sch b m = Some m' \<and> cross_aux m' \<and> counted sch (bs @ [b]) m'"
    using len m1(3) by (simp add: cross_aux_def m0_def)
qed (simp add: CrossTxRate_Update_def)

definition tps_aux :: "avgTPS \<Rightarrow> bool" where
  "tps_aux m \<longleftrightarrow> length (tp_startTime m) = nat (ec_epochID m + 1) \<and> length (tp_endTime m) = nat (ec_epochID m + 1)"

lemma count_txs_txNum: "count_txs sch b (m\<lparr>ec_txNum := xs\<rparr>) = map_option (\<lambda>m. m\<lparr>ec_txNum := xs\<rparr>) (count_txs sch b m)"
  by (cases m) (simp add: count_txs_def map_option_bind comp_def)

interpretation tps: epoch_measure "avgTPS_Update sch" sch tps_aux for sch
proof
  fix b bs and m :: avgTPS
  assume b: "bi_BlockBodyLength b \<noteq> 0" "0 \<le> bi_Epoch b" and aux: "tps_aux m" and m: "counted sch bs m"
    and h: "all_halves sch (bs @ [b]) < 2 ^ 52"
  let ?e = "bi_Epoch b"
  define m0 where "m0 = m\<lparr>tp_startTime := pad_epochs (ec_epochID m) ?e 0 (tp_startTime m), tp_endTime := pad_epochs (ec_epochID m) ?e 0 (tp_endTime m)\<rparr>"
  have c0: "counted sch bs m0" using m by (simp add: m0_def counted_def)
  obtain m1 ns l1 l2 where m1: "count_txs sch b (extend_counts ?e m0) = Some m1" "slices_ok m1" "ec_epochID m1 = max (ec_epochID m0) ?e"
    "m1 = (extend_counts ?e m0)\<lparr>ec_normalTxNum := ns, ec_leg1TxNum := l1, ec_leg2TxNum := l2\<rparr>"
    using count_opened[OF c0 b(2)] by blast
  have len: "length (tp_startTime m1) = nat (max (ec_epochID m) ?e + 1)" "length (tp_endTime m1) = nat (max (ec_epochID m) ?e + 1)"
    using m aux pad_epochs_length[of "tp_startTime m" "ec_epochID m"] pad_epochs_length[of "tp_endTime m" "ec_epochID m"]
    by (simp_all add: m1(4) extend_counts_def m0_def tps_aux_def counted_def)
  define g where "g y = (case sch of RelayScheme \<Rightarrow> y + legs64 sch b + inner64 b | BrokerScheme \<Rightarrow> y + (inner64 b + legs64 sch b))" for y
  define xs where "xs = (ec_txNum m1)[nat ?e := g (ec_txNum m1 ! nat ?e)]"
  let ?m' = "m1\<lparr>ec_txNum := xs, tp_startTime := (tp_startTime m1)[nat ?e := first_time (bi_ProposeTime b) (tp_startTime m1 ! nat ?e)],
    tp_endTime := (tp_endTime m1)[nat ?e := last_time (bi_CommitTime b) (tp_endTime m1 ! nat ?e)]\<rparr>"
  have "slices_ok (extend_counts ?e m0)" by (rule slices_ok_extend[OF counted_slices[OF c0]])
  then have "(case sch of RelayScheme \<Rightarrow> do { m \<leftarrow> add_txNum ?e (legs64 sch b) (extend_counts ?e m0); add_txNum ?e (inner64 b) m }
      | BrokerScheme \<Rightarrow> add_txNum ?e (inner64 b + legs64 sch b) (extend_counts ?e m0)) = Some ((extend_counts ?e m0)\<lparr>ec_txNum := xs\<rparr>)"
    using b(2) by (cases sch) (simp_all add: add_txNum_in slices_ok_def xs_def g_def m1(4))
  then have "avgTPS_Update sch b m = Some ?m'"
    using b m1(1) len by (simp add: avgTPS_Update_def m0_def[symmetric] count_txs_txNum)
  moreover have "g (half64 k) = half64 (k + halves sch b)" if "0 \<le> k" "k \<le> all_halves sch bs" for k
    using halves_float(1,3)[OF h that] by (cases sch) (simp_all add: g_def)
  then have "counted sch (bs @ [b]) ?m'"
    by (intro counted_then[OF c0 b m1(1), where g = g]) (simp_all add: xs_def)
  ultimately show "\<exists>m'. avgTPS_Update sch b m = Some m' \<and> tps_aux m' \<and> counted sch (bs @ [b]) m'"
    using len m1(3) by (simp add: tps_aux_def m0_def)
qed (simp add: avgTPS_Update_def)

definition tcl_lens :: "int \<Rightarrow> TCL \<Rightarrow> bool" where
  "tcl_lens n m \<longleftrightarrow> length (tl_totTxLatencyEpoch m) = nat (n + 1) \<and> length (tl_leg1CommitLatency m) = nat (n + 1)
     \<and> length (tl_leg2CommitLatency m) = nat (n + 1) \<and> length (tl_ctxCommitLatency m) = nat (n + 1) \<and> length (tl_normalTxCommitLatency m) = nat (n + 1)"

text \<open>The latency loops neither fail nor touch the counters.\<close>

definition tcl_keeps :: "int \<Rightarrow> TCL \<Rightarrow> TCL \<Rightarrow> bool" where
  "tcl_keeps n m m' \<longleftrightarrow> tcl_lens n m' \<and> epoch_counts.truncate m' = epoch_counts.truncate m"

lemma tcl_loop:
  assumes "\<And>m tx. tcl_lens n m \<Longrightarrow> \<exists>m'. f m tx = Some m' \<and> tcl_keeps n m m'" and "tcl_lens n m"
  shows "\<exists>m'. foldlM f m txs = Some m' \<and> tcl_keeps n m m'"
  by (rule foldlM_total) (use assms in \<open>auto simp: tcl_keeps_def\<close>, metis assms(1) tcl_keeps_def)

lemma tcl_steps:
  assumes "0 \<le> e" "e \<le> n" and "tcl_lens n m"
  shows "\<exists>m'. TCL_normal e d m = Some m' \<and> tcl_keeps n m m'"
    and "\<exists>m'. TCL_relay1 e t m tx = Some m' \<and> tcl_keeps n m m'"
    and "\<exists>m'. TCL_relay2 e t m tx = Some m' \<and> tcl_keeps n m m'"
    and "\<exists>m'. TCL_broker1 e t m tx = Some m' \<and> tcl_keeps n m m'"
    and "\<exists>m'. TCL_broker2 e t m tx = Some m' \<and> tcl_keeps n m m'"
  using assms
  by (simp_all add: TCL_normal_def TCL_total_def TCL_relay1_def TCL_leg1_def TCL_relay2_def TCL_leg2_def TCL_ctx_def TCL_broker1_def TCL_broker2_def
      tcl_lens_def tcl_keeps_def epoch_counts.truncate_def split: option.split)

lemma tcl_keeps_trans: "tcl_keeps n a b \<Longrightarrow> tcl_keeps n b c \<Longrightarrow> tcl_keeps n a c"
  by (simp add: tcl_keeps_def)

lemma tcl_loops:
  assumes "0 \<le> e" "e \<le> n" and "tcl_lens n m"
  shows "\<exists>m'. (case sch of
      RelayScheme \<Rightarrow> do { m \<leftarrow> foldlM (TCL_relay1 e t) m (bi_Relay1Txs b); m \<leftarrow> foldlM (TCL_relay2 e t) m (bi_Relay2Txs b);
                        foldlM (\<lambda>m tx. TCL_normal e (time_Sub t (tx_Time tx)) m) m (bi_InnerShardTxs b) }
    | BrokerScheme \<Rightarrow> do { m \<leftarrow> foldlM (\<lambda>m tx. TCL_normal e (time_Sub t (tx_Time tx)) m) m (bi_InnerShardTxs b);
                        m \<leftarrow> foldlM (TCL_broker1 e t) m (bi_Broker1Txs b); foldlM (TCL_broker2 e t) m (bi_Broker2Txs b) }) = Some m'
    \<and> tcl_keeps n m m'"
proof -
  have loop: "\<exists>m'. foldlM (\<lambda>m tx. TCL_normal e (time_Sub t (tx_Time tx)) m) m txs = Some m' \<and> tcl_keeps n m m'"
    "\<exists>m'. foldlM (TCL_relay1 e t) m txs = Some m' \<and> tcl_keeps n m m'" "\<exists>m'. foldlM (TCL_relay2 e t) m txs = Some m' \<and> tcl_keeps n m m'"
    "\<exists>m'. foldlM (TCL_broker1 e t) m txs = Some m' \<and> tcl_keeps n m m'" "\<exists>m'. foldlM (TCL_broker2 e t) m txs = Some m' \<and> tcl_keeps n m m'"
    if "tcl_lens n m" for m txs
    using that by (auto intro!: tcl_loop tcl_steps[OF assms(1,2)])
  have lens: "tcl_keeps n m m' \<Longrightarrow> tcl_lens n m'" for m m' by (simp add: tcl_keeps_def)
  show ?thesis
  proof (cases sch)
    case RelayScheme
    obtain a where a: "foldlM (TCL_relay1 e t) m (bi_Relay1Txs b) = Some a" "tcl_keeps n m a" using loop(2)[OF assms(3)] by blast
    obtain c where c: "foldlM (TCL_relay2 e t) a (bi_Relay2Txs b) = Some c" "tcl_keeps n a c" using loop(3)[OF lens[OF a(2)]] by blast
    obtain d where "foldlM (\<lambda>m tx. TCL_normal e (time_Sub t (tx_Time tx)) m) c (bi_InnerShardTxs b) = Some d" "tcl_keeps n c d"
      using loop(1)[OF lens[OF c(2)]] by blast
    with RelayScheme a c show ?thesis by (auto intro: tcl_keeps_trans)
  next
    case BrokerScheme
    obtain a where a: "foldlM (\<lambda>m tx. TCL_normal e (time_Sub t (tx_Time tx)) m) m (bi_InnerShardTxs b) = Some a" "tcl_keeps n m a"
      using loop(1)[OF assms(3)] by blast
    obtain c where c: "foldlM (TCL_broker1 e t) a (bi_Broker1Txs b) = Some c" "tcl_keeps n a c" using loop(4)[OF lens[OF a(2)]] by blast
    obtain d where "foldlM (TCL_broker2 e t) c (bi_Broker2Txs b) = Some d" "tcl_keeps n c d" using loop(5)[OF lens[OF c(2)]] by blast
    with BrokerScheme a c show ?thesis by (auto intro: tcl_keeps_trans)
  qed
qed

interpretation tcl: epoch_measure "TCL_Update sch" sch "\<lambda>m. tcl_lens (ec_epochID m) m" for sch
proof
  fix b bs and m :: TCL
  assume b: "bi_BlockBodyLength b \<noteq> 0" "0 \<le> bi_Epoch b" and aux: "tcl_lens (ec_epochID m) m" and m: "counted sch bs m"
    and h: "all_halves sch (bs @ [b]) < 2 ^ 52"
  let ?e = "bi_Epoch b"
  define m0 where "m0 = m\<lparr>tl_totTxLatencyEpoch := pad_epochs (ec_epochID m) ?e f64_zero (tl_totTxLatencyEpoch m),
        tl_leg1CommitLatency := pad_epochs (ec_epochID m) ?e 0 (tl_leg1CommitLatency m),
        tl_leg2CommitLatency := pad_epochs (ec_epochID m) ?e 0 (tl_leg2CommitLatency m),
        tl_normalTxCommitLatency := pad_epochs (ec_epochID m) ?e 0 (tl_normalTxCommitLatency m),
        tl_ctxCommitLatency := pad_epochs (ec_epochID m) ?e 0 (tl_ctxCommitLatency m)\<rparr>"
  have ext: "TCL_extend ?e m = extend_counts ?e m0" by (simp add: TCL_extend_def m0_def)
  have c0: "counted sch bs m0" using m by (simp add: m0_def counted_def)
  obtain m1 ns l1 l2 where m1: "count_txs sch b (extend_counts ?e m0) = Some m1" "slices_ok m1" "ec_epochID m1 = max (ec_epochID m0) ?e"
    "m1 = (extend_counts ?e m0)\<lparr>ec_normalTxNum := ns, ec_leg1TxNum := l1, ec_leg2TxNum := l2\<rparr>"
    using count_opened[OF c0 b(2)] by blast
  define m2 where "m2 = m1\<lparr>ec_txNum := (ec_txNum m1)[nat ?e := ec_txNum m1 ! nat ?e + (inner64 b + legs64 sch b)]\<rparr>"
  have add: "add_txNum ?e (inner64 b + legs64 sch b) m1 = Some m2" using b(2) m1(2,3) by (simp add: add_txNum_in slices_ok_def m2_def)
  have n: "ec_epochID m2 = max (ec_epochID m) ?e" by (simp add: m2_def m1(3) m0_def)
  have "- 1 \<le> ec_epochID m" using m by (simp add: counted_def)
  with aux have "tcl_lens (max (ec_epochID m) ?e) m2"
    by (simp add: m2_def m1(4) extend_counts_def m0_def tcl_lens_def pad_epochs_length)
  then obtain m3 where m3: "TCL_Update sch b m = Some m3" "tcl_keeps (max (ec_epochID m) ?e) m2 m3"
    using tcl_loops[OF b(2), where n = "max (ec_epochID m) ?e" and m = m2 and sch = sch and t = "bi_CommitTime b" and b = b] b m1(1) add
    by (auto simp: TCL_Update_def Let_def ext)
  then have same: "ec_epochID m3 = ec_epochID m2" "ec_txNum m3 = ec_txNum m2" "ec_normalTxNum m3 = ec_normalTxNum m2"
      "ec_leg1TxNum m3 = ec_leg1TxNum m2" "ec_leg2TxNum m3 = ec_leg2TxNum m2"
    by (simp_all add: tcl_keeps_def epoch_counts.truncate_def)
  have "counted sch (bs @ [b]) m3"
    by (rule counted_then[OF c0 b m1(1), where g = "\<lambda>y. y + (inner64 b + legs64 sch b)"])
      (use halves_float(1)[OF h] in \<open>simp_all add: same m2_def\<close>)
  with m3 n same(1) show "\<exists>m'. TCL_Update sch b m = Some m' \<and> tcl_lens (ec_epochID m') m' \<and> counted sch (bs @ [b]) m'"
    by (simp add: tcl_keeps_def)
qed (simp add: TCL_Update_def)

section \<open>Property\<close>

text \<open>
  The measures of an experiment count what the shards report: whatever block reports with
  non-negative epochs arrive, none of the modules for transaction numbers, cross-shard rates,
  throughput and latency panics, and for each epoch the recorded numbers of inner transactions and of
  first and second legs are those of the reports of the epoch. The floating-point number of transactions is
  exactly the inner ones plus half of the legs, as long as fewer than \<open>2\<^sup>5\<^sup>2\<close> halves are reported.
\<close>

theorem measures_count_reports:
  assumes "\<forall>b \<in> set bs. 0 \<le> bi_Epoch b" and "all_halves RelayScheme bs < 2 ^ 52" and "all_halves BrokerScheme bs < 2 ^ 52"
  shows "(\<exists>m. foldlM (\<lambda>m b. TxNumCount_Relay_Update b m) NewTestTxNumCount bs = Some m \<and> counted RelayScheme bs m)
    \<and> (\<exists>m. foldlM (\<lambda>m b. TxNumCount_Broker_Update b m) NewTestTxNumCount bs = Some m \<and> counted BrokerScheme bs m)
    \<and> (\<exists>m. foldlM (\<lambda>m b. CrossTxRate_Update sch b m) NewTestCrossTxRate bs = Some m \<and> counted sch bs m)
    \<and> (\<exists>m. foldlM (\<lambda>m b. avgTPS_Update sch b m) NewTestModule_avgTPS bs = Some m \<and> counted sch bs m)
    \<and> (\<exists>m. foldlM (\<lambda>m b. TCL_Update sch b m) NewTestModule_TCL bs = Some m \<and> counted sch bs m)"
proof -
  have h: "all_halves sch bs < 2 ^ 52" using assms(2,3) by (cases sch) simp_all
  have "\<exists>m. foldlM (\<lambda>m b. TxNumCount_Relay_Update b m) NewTestTxNumCount bs = Some m \<and> counted RelayScheme bs m"
    using tx_relay.counts_reports[OF TrueI _ assms(1,2), of NewTestTxNumCount] counted_new[of NewTestTxNumCount RelayScheme]
    by (auto simp: NewTestTxNumCount_def new_counts_def)
  moreover have "\<exists>m. foldlM (\<lambda>m b. TxNumCount_Broker_Update b m) NewTestTxNumCount bs = Some m \<and> counted BrokerScheme bs m"
    using tx_broker.counts_reports[OF TrueI _ assms(1,3), of NewTestTxNumCount] counted_new[of NewTestTxNumCount BrokerScheme]
    by (auto simp: NewTestTxNumCount_def new_counts_def)
  moreover have "cross_aux NewTestCrossTxRate" "counted sch [] NewTestCrossTxRate"
    by (simp_all add: NewTestCrossTxRate_def cross_aux_def counted_new)
  from cross_rate.counts_reports[OF this assms(1) h]
  have "\<exists>m. foldlM (\<lambda>m b. CrossTxRate_Update sch b m) NewTestCrossTxRate bs = Some m \<and> counted sch bs m" by blast
  moreover have "tps_aux NewTestModule_avgTPS" "counted sch [] NewTestModule_avgTPS"
    by (simp_all add: NewTestModule_avgTPS_def tps_aux_def counted_new)
  from tps.counts_reports[OF this assms(1) h]
  have "\<exists>m. foldlM (\<lambda>m b. avgTPS_Update sch b m) NewTestModule_avgTPS bs = Some m \<and> counted sch bs m" by blast
  moreover have "tcl_lens (ec_epochID NewTestModule_TCL) NewTestModule_TCL" "counted sch [] NewTestModule_TCL"
    by (simp_all add: NewTestModule_TCL_def tcl_lens_def counted_new)
  from tcl.counts_reports[OF this assms(1) h]
  have "\<exists>m. foldlM (\<lambda>m b. TCL_Update sch b m) NewTestModule_TCL bs = Some m \<and> counted sch bs m" by blast
  ultimately show ?thesis by blast
qed

definition demo_report :: BlockInfoMsg where
  "demo_report = \<lparr>bi_BlockBodyLength = 2, bi_InnerShardTxs = [sample_tx ''0a'' ''0b'' 5], bi_Epoch = 1, bi_ProposeTime = 5, bi_CommitTime = 9,
     bi_SenderShardID = 0, bi_Relay1Txs = [sample_tx ''0a'' ''0b'' 5], bi_Relay2Txs = [], bi_Broker1Txs = [], bi_Broker2Txs = []\<rparr>"

text \<open>One inner transaction and one first leg in epoch 1: one and a half transactions.\<close>

theorem measures_count_reports_witness:
  "\<exists>m. foldlM (\<lambda>m b. avgTPS_Update RelayScheme b m) NewTestModule_avgTPS [demo_report] = Some m \<and> ec_txNum m ! 1 = Fin (3 / 2)"
proof -
  have "\<forall>b \<in> set [demo_report]. 0 \<le> bi_Epoch b" "all_halves RelayScheme [demo_report] < 2 ^ 52" "all_halves BrokerScheme [demo_report] < 2 ^ 52"
    by (simp_all add: demo_report_def all_halves_def halves_def)
  from measures_count_reports[OF this, of RelayScheme] obtain m where
    m: "foldlM (\<lambda>m b. avgTPS_Update RelayScheme b m) NewTestModule_avgTPS [demo_report] = Some m" "counted RelayScheme [demo_report] m" by blast
  have r: "bi_BlockBodyLength demo_report \<noteq> 0" "bi_Epoch demo_report = 1" by (simp_all add: demo_report_def)
  with m(2) have "1 \<le> ec_epochID m" by (simp add: counted_def)
  from counted_txNum[OF m(2) _ this] have "ec_txNum m ! 1 = Fin (3 / 2)" by (simp add: reported_in_def demo_report_def half64_def)
  with m(1) show ?thesis by blast
qed

end
