(* ===== verification/Sup_Overhead.thy ===== *)
theory Sup_Overhead
  imports Sup_PLouvain Pbft_Overhead
begin

text \<open>
  The committee of the overhead experiment (\<^verbatim>\<open>supervisor/committee/committee_overhead.go\<close>): it reads a data set,
  injects it at a fixed rate, moves the busiest accounts once, and waits until every transaction is
  confirmed. Rows are what the CSV reader returns after another (\<^const>\<open>None\<close> is a read error). Sleeping and the
  experiment's log files are left out. A failed \<^verbatim>\<open>TcpDial\<close> is a panic here; \<open>dial\<close> says which messages get through.
\<close>

section \<open>The data set\<close>

record overheadRow =
  or_sender :: address
  or_recipient :: address
  or_value :: int

datatype csv_error = OpenError | ReadError | ColumnError nat | AddressError nat | HexError | ValueError nat | RowsError nat

definition ToLower :: "bytes \<Rightarrow> bytes" where
  "ToLower s = map ascii_lower s"

text \<open>One row, the \<open>n\<close>-th of the result.\<close>

definition overhead_row :: "nat \<Rightarrow> bytes list \<Rightarrow> csv_error + overheadRow" where
  "overhead_row n v =
     (if length v < 5 then Inl (ColumnError (n + 2))
      else if length (v ! 2) \<noteq> 40 then Inl (AddressError (n + 2))
      else if \<not> hex_address (v ! 2) then Inl HexError
      else if length (v ! 3) \<noteq> 40 then Inl (AddressError (n + 2))
      else if \<not> hex_address (v ! 3) then Inl HexError
      else (case SetString10 (v ! 4) of
              None \<Rightarrow> Inl (ValueError (n + 2))
            | Some val \<Rightarrow> if val < 0 then Inl (ValueError (n + 2))
                          else Inr \<lparr>or_sender = ToLower (v ! 2), or_recipient = ToLower (v ! 3), or_value = val\<rparr>))"

fun overhead_rows :: "int \<Rightarrow> overheadRow list \<Rightarrow> bytes list option list \<Rightarrow> csv_error + overheadRow list" where
  "overhead_rows limit rows [] = (if int (length rows) \<noteq> limit then Inl (RowsError (length rows)) else Inr rows)"
| "overhead_rows limit rows (r # rest) =
     (if int (length rows) \<ge> limit then (if int (length rows) \<noteq> limit then Inl (RowsError (length rows)) else Inr rows)
      else (case r of
              None \<Rightarrow> Inl ReadError
            | Some v \<Rightarrow> (case overhead_row (length rows) v of
                          Inl e \<Rightarrow> Inl e
                        | Inr row \<Rightarrow> overhead_rows limit (rows @ [row]) rest)))"

text \<open>The first row is the header; a negative limit is a negative capacity, which panics.\<close>

definition loadOverheadCSV :: "bytes list option list option \<Rightarrow> int \<Rightarrow> (csv_error + overheadRow list) option" where
  "loadOverheadCSV file limit =
     (case file of
        None \<Rightarrow> Some (Inl OpenError)
      | Some [] \<Rightarrow> Some (Inl ReadError)
      | Some (None # _) \<Rightarrow> Some (Inl ReadError)
      | Some (Some _ # rest) \<Rightarrow> if limit < 0 then None else Some (overhead_rows limit [] rest))"

section \<open>The committee\<close>

record OverheadCommittee =
  oc_ips :: ip_table
  oc_completed :: "bytes list"
  oc_acks :: "bytes list"
  oc_placement :: modified_map
  oc_frequency :: "(address \<times> int) list"

definition NewOverheadCommittee :: "ip_table \<Rightarrow> OverheadCommittee" where
  "NewOverheadCommittee ips = \<lparr>oc_ips = ips, oc_completed = [], oc_acks = [], oc_placement = [], oc_frequency = []\<rparr>"

definition oc_shard :: "Params \<Rightarrow> OverheadCommittee \<Rightarrow> address \<Rightarrow> u64 option" where
  "oc_shard pr c addr = (case map_of (oc_placement c) addr of Some s \<Rightarrow> Some s | None \<Rightarrow> home_route pr addr)"

text \<open>A message to the first node of each shard; each must be delivered.\<close>

definition dial_all :: "(net_out \<Rightarrow> bool) \<Rightarrow> net_out list \<Rightarrow> net_out list option" where
  "dial_all dial outs = (if list_all dial outs then Some outs else None)"

text \<open>The time at which transaction \<open>i\<close> is scheduled; the product is a duration in nanoseconds.\<close>

definition arrival :: "Params \<Rightarrow> (f64 \<Rightarrow> int) \<Rightarrow> time \<Rightarrow> int \<Rightarrow> time" where
  "arrival pr unfit start i = start + int64_of unfit (float64 i / float64 (pm_InjectSpeed pr) * float64 1000000000)"

definition oc_add_tx ::
    "('bs, 'e) core_env_scheme \<Rightarrow> (f64 \<Rightarrow> int) \<Rightarrow> time \<Rightarrow> overheadRow list \<Rightarrow> (u64 \<Rightarrow> Transaction list) \<times> OverheadCommittee \<Rightarrow> int \<Rightarrow>
     ((u64 \<Rightarrow> Transaction list) \<times> OverheadCommittee) option" where
  "oc_add_tx E unfit start rows = (\<lambda>(byShard, c) i.
     do { row \<leftarrow> slice_get rows i;
          let tx = NewTransaction E (or_sender row) (or_recipient row) (or_value row) (of_int i) (arrival (prm E) unfit start i);
          sid \<leftarrow> oc_shard (prm E) c (or_sender row);
          Some (byShard(sid := byShard sid @ [tx]), c\<lparr>oc_frequency := count_up (or_sender row) (oc_frequency c)\<rparr>) })"

text \<open>One batch, from \<open>pos\<close> to \<open>fin\<close>.\<close>

definition oc_batch ::
    "('bs, 'e) core_env_scheme \<Rightarrow> (f64 \<Rightarrow> int) \<Rightarrow> (net_out \<Rightarrow> bool) \<Rightarrow> time \<Rightarrow> overheadRow list \<Rightarrow> int \<Rightarrow> int \<Rightarrow> OverheadCommittee \<Rightarrow>
     (net_out list \<times> OverheadCommittee) option" where
  "oc_batch E unfit dial start rows pos fin c =
     do { (byShard, c) \<leftarrow> foldlM (oc_add_tx E unfit start rows) (\<lambda>_. [], c) [pos..fin - 1];
          outs \<leftarrow> dial_all dial (map (\<lambda>sid. Dial (oc_ips c sid 0) (CInject \<lparr>ij_Txs = byShard sid, ij_ToShardID = sid\<rparr>))
                    (filter (\<lambda>sid. byShard sid \<noteq> []) (u64_range (of_int (pm_ShardNum (prm E))))));
          Some (outs, c) }"

section \<open>Migration\<close>

text \<open>Bytewise order of strings.\<close>

fun str_less :: "bytes \<Rightarrow> bytes \<Rightarrow> bool" where
  "str_less _ [] = False"
| "str_less [] (_ # _) = True"
| "str_less (a # s) (b # t) = ((of_char a :: nat) < of_char b \<or> (a = b \<and> str_less s t))"

definition busier :: "(address \<times> int) list \<Rightarrow> address \<Rightarrow> address \<Rightarrow> bool" where
  "busier freq a b =
     (let fa = (case map_of freq a of None \<Rightarrow> 0 | Some n \<Rightarrow> n); fb = (case map_of freq b of None \<Rightarrow> 0 | Some n \<Rightarrow> n)
      in if fa = fb then str_less a b else fa > fb)"

text \<open>The plan: the busiest accounts, each to the next shard.\<close>

definition oc_mapping :: "Params \<Rightarrow> OverheadCommittee \<Rightarrow> (address \<times> u64) list option" where
  "oc_mapping pr c =
     (let accounts = sort_by (busier (oc_frequency c)) (map fst (oc_frequency c)); limit = oh_MigrationAccounts (pm_Overhead pr)
      in do { accounts \<leftarrow> (if int (length accounts) > limit then if limit < 0 then None else Some (take (nat limit) accounts) else Some accounts);
              if accounts = [] then None
              else foldlM (\<lambda>m a. map_option (\<lambda>s. AList.update a ((s + 1) mod of_int (pm_ShardNum pr)) m) (oc_shard pr c a)) [] accounts })"

definition migrate_start :: "Params \<Rightarrow> (net_out \<Rightarrow> bool) \<Rightarrow> OverheadCommittee \<Rightarrow> (net_out list \<times> (address \<times> u64) list) option" where
  "migrate_start pr dial c =
     (if pm_ShardNum pr < 2 then None
      else do { mapping \<leftarrow> oc_mapping pr c;
                outs \<leftarrow> dial_all dial (map (\<lambda>sid. Dial (oc_ips c sid 0) (CPartitionMsg mapping)) (u64_range (of_int (pm_ShardNum pr))));
                Some (outs, mapping) })"

text \<open>One poll of the wait for the acknowledgements: \<open>Some None\<close> when it goes on.\<close>

definition migrate_poll :: "Params \<Rightarrow> time \<Rightarrow> time \<Rightarrow> (address \<times> u64) list \<Rightarrow> OverheadCommittee \<Rightarrow> OverheadCommittee option option" where
  "migrate_poll pr now deadline mapping c =
     (if int (length (oc_acks c)) = pm_ShardNum pr * pm_NodesInShard pr
      then Some (Some (c\<lparr>oc_placement := foldl (\<lambda>m (a, s). AList.update a s m) (oc_placement c) mapping\<rparr>))
      else if now > deadline then None else Some None)"

section \<open>Reports and acknowledgements\<close>

definition oc_HandleBlockInfo :: "BlockInfoMsg \<Rightarrow> OverheadCommittee \<Rightarrow> OverheadCommittee" where
  "oc_HandleBlockInfo b c =
     c\<lparr>oc_completed := foldl (\<lambda>done tx. let key = hex_EncodeToString (tx_TxHash tx) in if key \<in> set done then done else done @ [key])
         (oc_completed c) (bi_InnerShardTxs b @ bi_Relay2Txs b)\<rparr>"

definition ack_key :: "u64 \<Rightarrow> u64 \<Rightarrow> bytes" where
  "ack_key sid nid = dec_digits (unat sid) @ ''/'' @ dec_digits (unat nid)"

definition oc_HandleOtherMessage :: "Params \<Rightarrow> net_msg \<Rightarrow> OverheadCommittee \<Rightarrow> OverheadCommittee option" where
  "oc_HandleOtherMessage pr msg c =
     (case msg of
        OHMigrationDone sid nid epoch \<Rightarrow>
          if epoch \<noteq> 1 \<or> sid \<ge> of_int (pm_ShardNum pr) \<or> nid \<ge> of_int (pm_NodesInShard pr) then None
          else Some (c\<lparr>oc_acks := (if ack_key sid nid \<in> set (oc_acks c) then oc_acks c else oc_acks c @ [ack_key sid nid])\<rparr>)
      | _ \<Rightarrow> Some c)"

section \<open>The run\<close>

text \<open>
  Where \<^verbatim>\<open>MsgSendingControl\<close> is: at the checks of a turn from a position, waiting for the acknowledgements of a
  migration, before the batch of a turn, waiting for the confirmations, or returned. The flag says
  whether the migration has been done.
\<close>

datatype oh_pc = OhCheck int bool | OhMigrating int "(address \<times> u64) list" | OhBatch int bool | OhConfirming | OhReturned

record oh_run =
  ohr_pc :: oh_pc
  ohr_c :: OverheadCommittee

record oh_plan =
  ohp_rows :: "overheadRow list"
  ohp_start :: time
  ohp_deadline :: time

text \<open>The end of a turn: the next one, or the end of the loop, where a migration must have happened.\<close>

definition oh_next :: "Params \<Rightarrow> oh_plan \<Rightarrow> int \<Rightarrow> bool \<Rightarrow> oh_pc option" where
  "oh_next pr pl pos migrated =
     (if pos < int (length (ohp_rows pl)) then Some (OhCheck pos migrated)
      else if oh_Migration (pm_Overhead pr) \<and> \<not> migrated then None else Some OhConfirming)"

text \<open>\<open>Tick\<close> is the next step of \<^verbatim>\<open>MsgSendingControl\<close>, at which the clock is read, once or twice; the others are calls from the network.\<close>

datatype oh_event = OhTick time time | OhInfo BlockInfoMsg | OhMessage net_msg

definition oh_check :: "Params \<Rightarrow> (net_out \<Rightarrow> bool) \<Rightarrow> oh_plan \<Rightarrow> time \<Rightarrow> time \<Rightarrow> int \<Rightarrow> bool \<Rightarrow> oh_run \<Rightarrow> (net_out list \<times> oh_run) option" where
  "oh_check pr dial pl now later pos migrated s =
     (if now > ohp_deadline pl then None
      else if oh_Migration (pm_Overhead pr) \<and> \<not> migrated
              \<and> time_Sub later (ohp_start pl) \<ge> oh_MigrationAfterSeconds (pm_Overhead pr) * 1000000000
      then map_option (\<lambda>(outs, mapping). (outs, s\<lparr>ohr_pc := OhMigrating pos mapping\<rparr>)) (migrate_start pr dial (ohr_c s))
      else Some ([], s\<lparr>ohr_pc := OhBatch pos migrated\<rparr>))"

definition oh_batch ::
    "('bs, 'e) core_env_scheme \<Rightarrow> (f64 \<Rightarrow> int) \<Rightarrow> (net_out \<Rightarrow> bool) \<Rightarrow> oh_plan \<Rightarrow> int \<Rightarrow> bool \<Rightarrow> oh_run \<Rightarrow> (net_out list \<times> oh_run) option" where
  "oh_batch E unfit dial pl pos migrated s =
     (let fin = min (pos + pm_TxBatchSize (prm E)) (int (length (ohp_rows pl)))
      in do { (outs, c) \<leftarrow> oc_batch E unfit dial (ohp_start pl) (ohp_rows pl) pos fin (ohr_c s);
              pc \<leftarrow> oh_next (prm E) pl fin migrated;
              Some (outs, \<lparr>ohr_pc = pc, ohr_c = c\<rparr>) })"

definition oh_confirm :: "oh_plan \<Rightarrow> time \<Rightarrow> oh_run \<Rightarrow> oh_run option" where
  "oh_confirm pl now s =
     (if length (oc_completed (ohr_c s)) = length (ohp_rows pl) then Some (s\<lparr>ohr_pc := OhReturned\<rparr>)
      else if now > ohp_deadline pl then None else Some s)"

fun oh_exec ::
    "('bs, 'e) core_env_scheme \<Rightarrow> (f64 \<Rightarrow> int) \<Rightarrow> (net_out \<Rightarrow> bool) \<Rightarrow> oh_plan \<Rightarrow> oh_run \<Rightarrow> oh_event \<Rightarrow> (net_out list \<times> oh_run) option" where
  "oh_exec E unfit dial pl s (OhTick now later) =
     (case ohr_pc s of
        OhCheck pos migrated \<Rightarrow> oh_check (prm E) dial pl now later pos migrated s
      | OhMigrating pos mapping \<Rightarrow>
          map_option (\<lambda>r. ([], case r of None \<Rightarrow> s | Some c \<Rightarrow> \<lparr>ohr_pc = OhBatch pos True, ohr_c = c\<rparr>))
            (migrate_poll (prm E) now (ohp_deadline pl) mapping (ohr_c s))
      | OhBatch pos migrated \<Rightarrow> oh_batch E unfit dial pl pos migrated s
      | OhConfirming \<Rightarrow> map_option (\<lambda>s. ([], s)) (oh_confirm pl now s)
      | OhReturned \<Rightarrow> Some ([], s))"
| "oh_exec E unfit dial pl s (OhInfo b) = Some ([], s\<lparr>ohr_c := oc_HandleBlockInfo b (ohr_c s)\<rparr>)"
| "oh_exec E unfit dial pl s (OhMessage msg) =
     map_option (\<lambda>c. ([], s\<lparr>ohr_c := c\<rparr>)) (oc_HandleOtherMessage (prm E) msg (ohr_c s))"

text \<open>The start: a data set that cannot be loaded is a panic.\<close>

definition oh_start ::
    "Params \<Rightarrow> bytes list option list option \<Rightarrow> time \<Rightarrow> OverheadCommittee \<Rightarrow> (oh_plan \<times> oh_run) option" where
  "oh_start pr file now c =
     do { r \<leftarrow> loadOverheadCSV file (pm_TotalDataSize pr);
          (case r of
             Inl _ \<Rightarrow> None
           | Inr rows \<Rightarrow>
               do { let pl = \<lparr>ohp_rows = rows, ohp_start = now, ohp_deadline = now + oh_TimeoutSeconds (pm_Overhead pr) * 1000000000\<rparr>;
                    pc \<leftarrow> oh_next pr pl 0 False;
                    Some (pl, \<lparr>ohr_pc = pc, ohr_c = c\<rparr>) }) }"

definition oh_events ::
    "('bs, 'e) core_env_scheme \<Rightarrow> (f64 \<Rightarrow> int) \<Rightarrow> (net_out \<Rightarrow> bool) \<Rightarrow> oh_plan \<Rightarrow> oh_run \<Rightarrow> oh_event list \<Rightarrow> (net_out list \<times> oh_run) option" where
  "oh_events E unfit dial pl s evs =
     foldlM (\<lambda>(outs, s) ev. map_option (\<lambda>(more, s). (outs @ more, s)) (oh_exec E unfit dial pl s ev)) ([], s) evs"

end
