(* ===== verification/Sup_Overhead_Props.thy ===== *)
theory Sup_Overhead_Props
  imports Sup_Overhead
begin

text \<open>
  What a run of the overhead committee has done when it returns: every transaction of the data set
  was sent once, in order, to the shard where its sender was placed, every replica had acknowledged the migration before
  a transaction followed it, and as many transactions were confirmed as were sent.
\<close>

section \<open>The data set\<close>

lemma hex_ToLower: "hex_address a \<Longrightarrow> hex_address (ToLower a)"
proof -
  have "hex_digit (ascii_lower c) \<noteq> None" if "hex_digit c \<noteq> None" for c
    using that by (auto simp: hex_digit_def ascii_lower_def Let_def split: if_splits)
  then show "hex_address a \<Longrightarrow> hex_address (ToLower a)" by (auto simp: hex_address_def ToLower_def)
qed

lemma overhead_row_hex: "overhead_row n v = Inr row \<Longrightarrow> hex_address (or_sender row)"
  by (auto simp: overhead_row_def hex_ToLower split: if_splits option.splits)

lemma overhead_rows_hex:
  "overhead_rows limit rows rest = Inr res \<Longrightarrow> \<forall>row \<in> set rows. hex_address (or_sender row) \<Longrightarrow> \<forall>row \<in> set res. hex_address (or_sender row)"
proof (induction limit rows rest rule: overhead_rows.induct)
  case (2 limit rows r rest)
  then show ?case by (auto split: if_splits option.splits sum.splits dest: overhead_row_hex)
qed (auto split: if_splits)

lemma loaded_hex: "loadOverheadCSV file limit = Some (Inr rows) \<Longrightarrow> \<forall>row \<in> set rows. hex_address (or_sender row)"
  by (auto simp: loadOverheadCSV_def split: option.splits list.splits if_splits dest: overhead_rows_hex)

lemma overhead_rows_length: "overhead_rows limit rows rest = Inr res \<Longrightarrow> int (length res) = limit"
  by (induction limit rows rest rule: overhead_rows.induct) (auto split: if_splits option.splits sum.splits)

lemma loaded_length: "loadOverheadCSV file limit = Some (Inr rows) \<Longrightarrow> int (length rows) = limit"
  by (auto simp: loadOverheadCSV_def split: option.splits list.splits if_splits dest: overhead_rows_length)

section \<open>A batch\<close>

definition row_tx :: "('bs, 'e) core_env_scheme \<Rightarrow> (f64 \<Rightarrow> int) \<Rightarrow> oh_plan \<Rightarrow> int \<Rightarrow> Transaction" where
  "row_tx E unfit pl i =
     (let row = ohp_rows pl ! nat i
      in NewTransaction E (or_sender row) (or_recipient row) (or_value row) (of_int i) (arrival (prm E) unfit (ohp_start pl) i))"

text \<open>The transactions with indices from \<open>a\<close> up to \<open>b\<close> whose senders \<open>route\<close> puts into shard \<open>sid\<close>.\<close>

definition routed ::
    "('bs, 'e) core_env_scheme \<Rightarrow> (f64 \<Rightarrow> int) \<Rightarrow> oh_plan \<Rightarrow> (address \<Rightarrow> u64 option) \<Rightarrow> int \<Rightarrow> int \<Rightarrow> u64 \<Rightarrow> Transaction list" where
  "routed E unfit pl route a b sid =
     map (row_tx E unfit pl) (filter (\<lambda>i. route (or_sender (ohp_rows pl ! nat i)) = Some sid) [a..b - 1])"

lemma routed_split: "a \<le> b \<Longrightarrow> b \<le> c \<Longrightarrow> routed E unfit pl route a c sid = routed E unfit pl route a b sid @ routed E unfit pl route b c sid"
  using upto_split1[of a b "c - 1"] by (cases "b = c") (auto simp: routed_def)

definition shard_ok :: "Params \<Rightarrow> u64 \<Rightarrow> bool" where
  "shard_ok pr sid \<longleftrightarrow> sid < of_int (pm_ShardNum pr)"

definition placed_ok :: "Params \<Rightarrow> modified_map \<Rightarrow> bool" where
  "placed_ok pr m \<longleftrightarrow> (\<forall>(a, s) \<in> set m. shard_ok pr s)"

lemma oc_shard_ok:
  assumes "shards_ok pr" and "placed_ok pr (oc_placement c)" and "hex_address a" and "oc_shard pr c a = Some sid"
  shows "shard_ok pr sid"
proof (cases "map_of (oc_placement c) a")
  case None
  with home_route_ok[OF assms(1,3)] less_shard[OF assms(1)] assms(4) show ?thesis by (auto simp: oc_shard_def shard_ok_def)
next
  case (Some s)
  with assms(2,4) show ?thesis by (auto simp: oc_shard_def placed_ok_def dest!: map_of_SomeD)
qed

lemma add_txs:
  assumes "foldlM (oc_add_tx E unfit (ohp_start pl) (ohp_rows pl)) (\<lambda>_. [], c) is = Some (byShard, c')"
  shows "(\<forall>sid. byShard sid = map (row_tx E unfit pl) (filter (\<lambda>i. oc_shard (prm E) c (or_sender (ohp_rows pl ! nat i)) = Some sid) is))
    \<and> (\<exists>f. c' = c\<lparr>oc_frequency := f\<rparr>) \<and> (\<forall>i \<in> set is. 0 \<le> i \<and> nat i < length (ohp_rows pl))"
  using assms
proof (induction "is" arbitrary: byShard c' rule: rev_induct)
  case Nil
  then show ?case by (auto intro!: exI[of _ "oc_frequency c"])
next
  case (snoc i xs)
  from snoc.prems obtain bs c1 where 1: "foldlM (oc_add_tx E unfit (ohp_start pl) (ohp_rows pl)) (\<lambda>_. [], c) xs = Some (bs, c1)"
    and step: "oc_add_tx E unfit (ohp_start pl) (ohp_rows pl) (bs, c1) i = Some (byShard, c')"
    by (auto simp: foldlM_append bind_eq_Some_conv)
  from snoc.IH[OF 1] obtain f where IH: "\<And>sid. bs sid = map (row_tx E unfit pl) (filter (\<lambda>i. oc_shard (prm E) c (or_sender (ohp_rows pl ! nat i)) = Some sid) xs)"
    "c1 = c\<lparr>oc_frequency := f\<rparr>" "\<forall>i \<in> set xs. 0 \<le> i \<and> nat i < length (ohp_rows pl)" by blast
  from step obtain row sid where s: "slice_get (ohp_rows pl) i = Some row" "oc_shard (prm E) c1 (or_sender row) = Some sid"
    "byShard = bs(sid := bs sid @ [NewTransaction E (or_sender row) (or_recipient row) (or_value row) (of_int i) (arrival (prm E) unfit (ohp_start pl) i)])"
    "c' = c1\<lparr>oc_frequency := count_up (or_sender row) (oc_frequency c1)\<rparr>"
    by (auto simp: oc_add_tx_def bind_eq_Some_conv)
  from s(1) have i: "0 \<le> i" "nat i < length (ohp_rows pl)" "row = ohp_rows pl ! nat i" by (auto simp: slice_get_def split: if_splits)
  have "oc_shard (prm E) c (or_sender (ohp_rows pl ! nat i)) = Some sid" using s(2) i(3) IH(2) by (simp add: oc_shard_def)
  then show ?case using s(3,4) IH i by (auto simp: row_tx_def Let_def)
qed

lemma injected_dials:
  assumes "distinct sids"
  shows "injected sid (map (\<lambda>sid. Dial (f sid) (CInject \<lparr>ij_Txs = byShard sid, ij_ToShardID = sid\<rparr>)) (filter (\<lambda>sid. byShard sid \<noteq> []) sids))
    = (if sid \<in> set sids then byShard sid else [])"
  using assms by (induction sids) (auto simp: injected_def)

lemma oc_batch_sent:
  assumes "oc_batch E unfit dial (ohp_start pl) (ohp_rows pl) pos fin c = Some (outs, c')" and "0 \<le> pos"
    and "shards_ok (prm E)" and "placed_ok (prm E) (oc_placement c)" and rows: "\<forall>row \<in> set (ohp_rows pl). hex_address (or_sender row)"
  shows "injected sid outs = routed E unfit pl (oc_shard (prm E) c) pos fin sid" and "\<exists>f. c' = c\<lparr>oc_frequency := f\<rparr>"
proof -
  from assms(1) obtain byShard where b: "foldlM (oc_add_tx E unfit (ohp_start pl) (ohp_rows pl)) (\<lambda>_. [], c) [pos..fin - 1] = Some (byShard, c')"
    "outs = map (\<lambda>sid. Dial (oc_ips c' sid 0) (CInject \<lparr>ij_Txs = byShard sid, ij_ToShardID = sid\<rparr>))
      (filter (\<lambda>sid. byShard sid \<noteq> []) (u64_range (of_int (pm_ShardNum (prm E)))))"
    by (auto simp: oc_batch_def bind_eq_Some_conv dial_all_def split: if_splits)
  note a = add_txs[OF b(1)]
  then show "\<exists>f. c' = c\<lparr>oc_frequency := f\<rparr>" by blast
  have by_sid: "byShard sid = routed E unfit pl (oc_shard (prm E) c) pos fin sid" using a by (simp add: routed_def)
  have "byShard sid = []" if "\<not> shard_ok (prm E) sid"
  proof -
    have "oc_shard (prm E) c (or_sender (ohp_rows pl ! nat i)) \<noteq> Some sid" if "i \<in> set [pos..fin - 1]" for i
      using oc_shard_ok[OF assms(3,4)] rows a that \<open>\<not> shard_ok (prm E) sid\<close> nth_mem by blast
    then show ?thesis using by_sid by (auto simp: routed_def filter_empty_conv)
  qed
  with by_sid show "injected sid outs = routed E unfit pl (oc_shard (prm E) c) pos fin sid"
    unfolding b(2) by (subst injected_dials) (auto simp: shard_ok_def)
qed

section \<open>The invariant of a run\<close>

definition ack_keys :: "Params \<Rightarrow> bytes set" where
  "ack_keys pr = (\<lambda>(sid, nid). ack_key sid nid) ` ({sid. sid < of_int (pm_ShardNum pr)} \<times> {nid. nid < of_int (pm_NodesInShard pr)})"

text \<open>What has been sent: up to some index by the address, after it by the placement of the migration.\<close>

definition sent_up_to :: "('bs, 'e) core_env_scheme \<Rightarrow> (f64 \<Rightarrow> int) \<Rightarrow> oh_plan \<Rightarrow> net_out list \<Rightarrow> OverheadCommittee \<Rightarrow> int \<Rightarrow> bool" where
  "sent_up_to E unfit pl outs c pos \<longleftrightarrow> 0 \<le> pos \<and> pos \<le> int (length (ohp_rows pl))
     \<and> (\<exists>k. 0 \<le> k \<and> k \<le> pos \<and> (\<forall>sid. injected sid outs
          = routed E unfit pl (home_route (prm E)) 0 k sid @ routed E unfit pl (oc_shard (prm E) c) k pos sid))"

definition migration_state :: "Params \<Rightarrow> OverheadCommittee \<Rightarrow> bool \<Rightarrow> bool" where
  "migration_state pr c migrated \<longleftrightarrow> (if migrated then oh_Migration (pm_Overhead pr) \<and> ack_keys pr \<subseteq> set (oc_acks c) else oc_placement c = [])"

fun pc_ok :: "('bs, 'e) core_env_scheme \<Rightarrow> (f64 \<Rightarrow> int) \<Rightarrow> oh_plan \<Rightarrow> net_out list \<Rightarrow> OverheadCommittee \<Rightarrow> oh_pc \<Rightarrow> bool" where
  "pc_ok E unfit pl outs c (OhCheck pos m) = (sent_up_to E unfit pl outs c pos \<and> migration_state (prm E) c m)"
| "pc_ok E unfit pl outs c (OhBatch pos m) = (sent_up_to E unfit pl outs c pos \<and> migration_state (prm E) c m)"
| "pc_ok E unfit pl outs c (OhMigrating pos mapping) =
     (sent_up_to E unfit pl outs c pos \<and> migration_state (prm E) c False \<and> placed_ok (prm E) mapping \<and> oh_Migration (pm_Overhead (prm E)))"
| "pc_ok E unfit pl outs c pc =
     (sent_up_to E unfit pl outs c (int (length (ohp_rows pl))) \<and> migration_state (prm E) c (oh_Migration (pm_Overhead (prm E))))"

definition run_ok :: "('bs, 'e) core_env_scheme \<Rightarrow> (f64 \<Rightarrow> int) \<Rightarrow> oh_plan \<Rightarrow> net_out list \<Rightarrow> oh_run \<Rightarrow> bool" where
  "run_ok E unfit pl outs s \<longleftrightarrow>
     pc_ok E unfit pl outs (ohr_c s) (ohr_pc s) \<and> placed_ok (prm E) (oc_placement (ohr_c s))
     \<and> distinct (oc_acks (ohr_c s)) \<and> set (oc_acks (ohr_c s)) \<subseteq> ack_keys (prm E) \<and> distinct (oc_completed (ohr_c s))
     \<and> (ohr_pc s = OhReturned \<longrightarrow> length (ohp_rows pl) \<le> length (oc_completed (ohr_c s)))"

text \<open>The invariant looks at the placement and, monotonically, at the acknowledgements.\<close>

lemma oc_shard_cong: "oc_placement c = oc_placement c' \<Longrightarrow> oc_shard pr c = oc_shard pr c'"
  by (simp add: oc_shard_def fun_eq_iff)

lemma pc_ok_cong:
  assumes "pc_ok E unfit pl outs c pc" and "oc_placement c' = oc_placement c" and "set (oc_acks c) \<subseteq> set (oc_acks c')"
  shows "pc_ok E unfit pl outs c' pc"
proof -
  have "sent_up_to E unfit pl outs c' pos = sent_up_to E unfit pl outs c pos" for pos
    using oc_shard_cong[OF assms(2), of "prm E"] by (simp add: sent_up_to_def)
  moreover have "migration_state (prm E) c m \<Longrightarrow> migration_state (prm E) c' m" for m
    using assms(2,3) by (auto simp: migration_state_def split: if_splits)
  ultimately show ?thesis using assms(1) by (cases pc) auto
qed

lemma sent_up_to_silent:
  assumes "\<forall>out \<in> set new. \<forall>sid. injected_by sid out = []" and "sent_up_to E unfit pl outs c pos"
  shows "sent_up_to E unfit pl (outs @ new) c pos"
proof -
  have "injected sid new = []" for sid using assms(1) by (simp add: injected_def)
  with assms(2) show ?thesis by (simp add: sent_up_to_def)
qed

lemma ack_keys_all:
  assumes "shards_ok pr" and "0 \<le> pm_NodesInShard pr" "pm_NodesInShard pr < 2 ^ 63" and "distinct acks" "set acks \<subseteq> ack_keys pr"
    and "int (length acks) = pm_ShardNum pr * pm_NodesInShard pr"
  shows "set acks = ack_keys pr"
proof -
  have fin: "finite (ack_keys pr)" by (simp add: ack_keys_def)
  have card: "card {x :: u64. x < of_int n} = nat n" if "0 \<le> n" "n < 2 ^ 63" for n
  proof -
    have "{x :: u64. x < of_int n} = set (u64_range (of_int n))" by auto
    moreover have "unat (of_int n :: u64) = nat n" using that by (simp add: uint_word_of_int flip: nat_uint_eq)
    ultimately show ?thesis using distinct_card[OF distinct_u64_range[of "of_int n"]] by simp
  qed
  have "card (ack_keys pr) \<le> card ({sid :: u64. sid < of_int (pm_ShardNum pr)} \<times> {nid :: u64. nid < of_int (pm_NodesInShard pr)})"
    unfolding ack_keys_def by (intro card_image_le) simp
  also have "\<dots> = nat (pm_ShardNum pr) * nat (pm_NodesInShard pr)"
    using assms(1-3) card[of "pm_ShardNum pr"] card[of "pm_NodesInShard pr"] by (simp add: card_cartesian_product shards_ok_def)
  also have "\<dots> = length acks" using assms(1,2,6) by (simp add: nat_mult_distrib[symmetric] shards_ok_def)
  also have "\<dots> = card (set acks)" using assms(4) by (simp add: distinct_card)
  finally show ?thesis using assms(5) fin by (simp add: card_seteq)
qed

lemma mapping_ok:
  assumes "shards_ok pr" and "oc_mapping pr c = Some mapping"
  shows "placed_ok pr mapping"
proof -
  have upd: "placed_ok pr (AList.update a (x mod of_int (pm_ShardNum pr)) m)" if "placed_ok pr m" for a x m
  proof -
    have "(0 :: u64) < of_int (pm_ShardNum pr)" using less_shard[OF assms(1), of 0] assms(1) by (simp add: shards_ok_def)
    then have "shard_ok pr (x mod of_int (pm_ShardNum pr))" unfolding shard_ok_def by (rule word_mod_less_divisor)
    with that set_alist_update[of a "x mod of_int (pm_ShardNum pr)" m] show ?thesis by (auto simp: placed_ok_def)
  qed
  from assms(2) obtain accounts where
    "foldlM (\<lambda>m a. map_option (\<lambda>s. AList.update a ((s + 1) mod of_int (pm_ShardNum pr)) m) (oc_shard pr c a)) [] accounts = Some mapping"
    by (auto simp: oc_mapping_def Let_def bind_eq_Some_conv split: if_splits)
  then show ?thesis
  proof (rule foldlM_invariant)
    show "placed_ok pr []" by (simp add: placed_ok_def)
  qed (use upd in auto)
qed

lemma placed_ok_merge: "placed_ok pr m \<Longrightarrow> placed_ok pr xs \<Longrightarrow> placed_ok pr (foldl (\<lambda>m (a, s). AList.update a s m) m xs)"
proof (induction xs arbitrary: m)
  case (Cons x xs)
  obtain a s where x: "x = (a, s)" by force
  have "placed_ok pr (AList.update a s m)" using Cons.prems x set_alist_update[of a s m] by (auto simp: placed_ok_def)
  moreover have "placed_ok pr xs" using Cons.prems(2) by (simp add: placed_ok_def)
  ultimately show ?case using Cons.IH x by simp
qed simp

section \<open>Every event keeps the invariant\<close>

lemma oh_next_ok:
  assumes "oh_next (prm E) pl pos migrated = Some pc" and "sent_up_to E unfit pl outs c pos" and "migration_state (prm E) c migrated"
  shows "pc_ok E unfit pl outs c pc \<and> pc \<noteq> OhReturned"
  using assms by (cases "pos = int (length (ohp_rows pl))")
    (auto simp: oh_next_def sent_up_to_def migration_state_def split: if_splits)

lemma batch_ok:
  assumes batch: "oh_batch E unfit dial pl pos m s = Some (new, s')" and s: "run_ok E unfit pl outs s" "ohr_pc s = OhBatch pos m"
    and pr: "shards_ok (prm E)" "0 < pm_TxBatchSize (prm E)" and rows: "\<forall>row \<in> set (ohp_rows pl). hex_address (or_sender row)"
  shows "run_ok E unfit pl (outs @ new) s'"
proof -
  define fin where "fin = min (pos + pm_TxBatchSize (prm E)) (int (length (ohp_rows pl)))"
  from batch obtain c pc where b: "oc_batch E unfit dial (ohp_start pl) (ohp_rows pl) pos fin (ohr_c s) = Some (new, c)"
    "oh_next (prm E) pl fin m = Some pc" "s' = \<lparr>ohr_pc = pc, ohr_c = c\<rparr>"
    by (auto simp: oh_batch_def Let_def bind_eq_Some_conv simp flip: fin_def)
  from s have ok: "sent_up_to E unfit pl outs (ohr_c s) pos" "migration_state (prm E) (ohr_c s) m" "placed_ok (prm E) (oc_placement (ohr_c s))"
    by (simp_all add: run_ok_def)
  then obtain k where k: "0 \<le> k" "k \<le> pos" "\<And>sid. injected sid outs
      = routed E unfit pl (home_route (prm E)) 0 k sid @ routed E unfit pl (oc_shard (prm E) (ohr_c s)) k pos sid"
    and pos: "0 \<le> pos" "pos \<le> int (length (ohp_rows pl))" by (auto simp: sent_up_to_def)
  note sent = oc_batch_sent[OF b(1) pos(1) pr(1) ok(3) rows]
  from sent(2) obtain f where c: "c = (ohr_c s)\<lparr>oc_frequency := f\<rparr>" by blast
  have sh: "oc_shard (prm E) c = oc_shard (prm E) (ohr_c s)" by (rule oc_shard_cong) (simp add: c)
  have fin: "pos \<le> fin" "fin \<le> int (length (ohp_rows pl))" using pos pr(2) by (simp_all add: fin_def)
  have "sent_up_to E unfit pl (outs @ new) c fin"
    unfolding sent_up_to_def using k pos fin by (auto simp: sent(1) sh routed_split[of k pos fin] intro!: exI[of _ k])
  moreover have "migration_state (prm E) c m" using ok(2) by (simp add: c migration_state_def)
  ultimately have "pc_ok E unfit pl (outs @ new) c pc" "pc \<noteq> OhReturned" using oh_next_ok[OF b(2)] by blast+
  with s(1) show ?thesis by (simp add: b(3) run_ok_def c)
qed

lemma migrating_ok:
  assumes poll: "migrate_poll (prm E) now deadline mapping (ohr_c s) = Some (Some c)" and s: "run_ok E unfit pl outs s" "ohr_pc s = OhMigrating pos mapping"
    and pr: "shards_ok (prm E)" "0 \<le> pm_NodesInShard (prm E)" "pm_NodesInShard (prm E) < 2 ^ 63"
  shows "run_ok E unfit pl outs \<lparr>ohr_pc = OhBatch pos True, ohr_c = c\<rparr>"
proof -
  from poll have p: "int (length (oc_acks (ohr_c s))) = pm_ShardNum (prm E) * pm_NodesInShard (prm E)"
    "c = (ohr_c s)\<lparr>oc_placement := foldl (\<lambda>m (a, s). AList.update a s m) (oc_placement (ohr_c s)) mapping\<rparr>"
    by (auto simp: migrate_poll_def split: if_splits)
  from s have ok: "sent_up_to E unfit pl outs (ohr_c s) pos" "oc_placement (ohr_c s) = []" "placed_ok (prm E) mapping" "oh_Migration (pm_Overhead (prm E))"
    by (simp_all add: run_ok_def migration_state_def)
  have home: "oc_shard (prm E) (ohr_c s) = home_route (prm E)" using ok(2) by (simp add: oc_shard_def fun_eq_iff)
  from ok(1) have "sent_up_to E unfit pl outs c pos"
    by (auto simp: sent_up_to_def home routed_split[symmetric] routed_def[of _ _ _ _ pos pos] intro!: exI[of _ pos])
  moreover have "set (oc_acks (ohr_c s)) = ack_keys (prm E)"
    by (rule ack_keys_all[OF pr _ _ p(1)]) (use s(1) in \<open>simp_all add: run_ok_def\<close>)
  moreover have "placed_ok (prm E) (oc_placement c)" using placed_ok_merge[OF _ ok(3), of "[]"] by (simp add: p(2) ok(2) placed_ok_def)
  ultimately show ?thesis using s(1) ok(4) by (simp add: run_ok_def migration_state_def p(2))
qed

lemma completed_grows:
  "distinct done \<Longrightarrow> distinct (foldl (\<lambda>done tx. let key = hex_EncodeToString (tx_TxHash tx) in if key \<in> set done then done else done @ [key]) done txs)
    \<and> length done \<le> length (foldl (\<lambda>done tx. let key = hex_EncodeToString (tx_TxHash tx) in if key \<in> set done then done else done @ [key]) done txs)"
proof (induction txs arbitrary: "done")
  case (Cons tx txs)
  let ?k = "hex_EncodeToString (tx_TxHash tx)"
  show ?case using Cons.IH[of "if ?k \<in> set done then done else done @ [?k]"] Cons.prems by (auto simp: Let_def split: if_splits)
qed simp

lemma oh_exec_ok:
  assumes ev: "oh_exec E unfit dial pl s ev = Some (new, s')" and s: "run_ok E unfit pl outs s"
    and pr: "shards_ok (prm E)" "0 \<le> pm_NodesInShard (prm E)" "pm_NodesInShard (prm E) < 2 ^ 63" "0 < pm_TxBatchSize (prm E)"
    and rows: "\<forall>row \<in> set (ohp_rows pl). hex_address (or_sender row)"
  shows "run_ok E unfit pl (outs @ new) s'"
proof (cases ev)
  case (OhInfo b)
  with ev have e: "new = []" "s' = s\<lparr>ohr_c := oc_HandleBlockInfo b (ohr_c s)\<rparr>" by simp_all
  have "pc_ok E unfit pl outs (oc_HandleBlockInfo b (ohr_c s)) (ohr_pc s)"
    by (rule pc_ok_cong[where c = "ohr_c s"]) (use s in \<open>simp_all add: run_ok_def oc_HandleBlockInfo_def\<close>)
  with s completed_grows[of "oc_completed (ohr_c s)" "bi_InnerShardTxs b @ bi_Relay2Txs b"] show ?thesis
    by (auto simp: e run_ok_def oc_HandleBlockInfo_def simp del: foldl_append)
next
  case (OhMessage msg)
  with ev obtain c where e: "oc_HandleOtherMessage (prm E) msg (ohr_c s) = Some c" "new = []" "s' = s\<lparr>ohr_c := c\<rparr>" by auto
  from e(1) consider "c = ohr_c s" | sid nid where "c = (ohr_c s)\<lparr>oc_acks := oc_acks (ohr_c s) @ [ack_key sid nid]\<rparr>"
      "sid < of_int (pm_ShardNum (prm E))" "nid < of_int (pm_NodesInShard (prm E))" "ack_key sid nid \<notin> set (oc_acks (ohr_c s))"
    by (cases msg) (auto simp: oc_HandleOtherMessage_def not_le split: if_splits)
  then show ?thesis
  proof cases
    case 1
    with s e show ?thesis by simp
  next
    case (2 sid nid)
    have "pc_ok E unfit pl outs c (ohr_pc s)"
      by (rule pc_ok_cong[where c = "ohr_c s"]) (use s 2 in \<open>auto simp: run_ok_def\<close>)
    moreover have "ack_key sid nid \<in> ack_keys (prm E)" using 2(2,3) unfolding ack_keys_def by auto
    ultimately show ?thesis using s 2 by (simp add: e run_ok_def)
  qed
next
  case (OhTick now later)
  show ?thesis
  proof (cases "ohr_pc s")
    case (OhCheck pos m)
    with ev OhTick have chk: "oh_check (prm E) dial pl now later pos m s = Some (new, s')" by simp
    from s OhCheck have ok: "sent_up_to E unfit pl outs (ohr_c s) pos" "migration_state (prm E) (ohr_c s) m" by (simp_all add: run_ok_def)
    from chk consider "new = []" "s' = s\<lparr>ohr_pc := OhBatch pos m\<rparr>"
      | mapping where "\<not> m" "oh_Migration (pm_Overhead (prm E))" "migrate_start (prm E) dial (ohr_c s) = Some (new, mapping)" "s' = s\<lparr>ohr_pc := OhMigrating pos mapping\<rparr>"
      by (auto simp: oh_check_def split: if_splits)
    then show ?thesis
    proof cases
      case 1
      with s ok show ?thesis by (simp add: run_ok_def)
    next
      case (2 mapping)
      then have mp: "oc_mapping (prm E) (ohr_c s) = Some mapping" "\<forall>out \<in> set new. \<forall>sid. injected_by sid out = []"
        by (auto simp: migrate_start_def dial_all_def bind_eq_Some_conv split: if_splits)
      have "sent_up_to E unfit pl (outs @ new) (ohr_c s) pos" by (rule sent_up_to_silent[OF mp(2) ok(1)])
      with s ok(2) 2 mapping_ok[OF pr(1) mp(1)] show ?thesis by (simp add: run_ok_def)
    qed
  next
    case (OhMigrating pos mapping)
    with ev OhTick s migrating_ok[OF _ s OhMigrating pr(1-3)] show ?thesis by (auto split: option.splits)
  next
    case (OhBatch pos m)
    with ev OhTick batch_ok[OF _ s OhBatch pr(1,4) rows] show ?thesis by simp
  next
    case OhConfirming
    with ev OhTick s show ?thesis by (auto simp: oh_confirm_def run_ok_def split: if_splits)
  next
    case OhReturned
    with ev OhTick s show ?thesis by simp
  qed
qed

section \<open>The whole run\<close>

lemma oh_events_ok:
  assumes "oh_events E unfit dial pl s0 evs = Some (outs, s)" and "run_ok E unfit pl [] s0"
    and "shards_ok (prm E)" "0 \<le> pm_NodesInShard (prm E)" "pm_NodesInShard (prm E) < 2 ^ 63" "0 < pm_TxBatchSize (prm E)"
    and "\<forall>row \<in> set (ohp_rows pl). hex_address (or_sender row)"
  shows "run_ok E unfit pl outs s"
proof -
  have "(\<lambda>(outs, s). run_ok E unfit pl outs s) (outs, s)"
    using assms(1) unfolding oh_events_def
    by (rule foldlM_invariant) (use assms(2) oh_exec_ok[OF _ _ assms(3-7)] in \<open>auto split: prod.splits\<close>)
  then show ?thesis by simp
qed

lemma oh_start_ok:
  assumes "oh_start (prm E) file now (NewOverheadCommittee ips) = Some (pl, s0)"
  shows "run_ok E unfit pl [] s0" and "\<forall>row \<in> set (ohp_rows pl). hex_address (or_sender row)"
    and "loadOverheadCSV file (pm_TotalDataSize (prm E)) = Some (Inr (ohp_rows pl))"
proof -
  let ?c = "NewOverheadCommittee ips"
  from assms obtain r where r: "loadOverheadCSV file (pm_TotalDataSize (prm E)) = Some r"
    by (cases "loadOverheadCSV file (pm_TotalDataSize (prm E))") (simp_all add: oh_start_def)
  with assms obtain pc where st: "loadOverheadCSV file (pm_TotalDataSize (prm E)) = Some (Inr (ohp_rows pl))"
    "oh_next (prm E) pl 0 False = Some pc" "s0 = \<lparr>ohr_pc = pc, ohr_c = ?c\<rparr>"
    by (cases r) (auto simp: oh_start_def bind_eq_Some_conv Let_def)
  then show "loadOverheadCSV file (pm_TotalDataSize (prm E)) = Some (Inr (ohp_rows pl))" by simp
  from loaded_hex[OF this] show "\<forall>row \<in> set (ohp_rows pl). hex_address (or_sender row)" .
  have "sent_up_to E unfit pl [] ?c 0" by (simp add: sent_up_to_def routed_def injected_def exI[of _ 0])
  moreover have "migration_state (prm E) ?c False" by (simp add: migration_state_def NewOverheadCommittee_def)
  ultimately have "pc_ok E unfit pl [] ?c pc \<and> pc \<noteq> OhReturned" using oh_next_ok[OF st(2)] by blast
  then show "run_ok E unfit pl [] s0" by (simp add: st(3) run_ok_def NewOverheadCommittee_def placed_ok_def)
qed


text \<open>One transaction from an account of shard 0 is sent there, reported and confirmed.\<close>

definition oh_demo_params :: Params where
  "oh_demo_params = demo_params\<lparr>pm_TotalDataSize := 1, pm_TxBatchSize := 1\<rparr>"

definition oh_demo_file :: "bytes list option list option" where
  "oh_demo_file = Some [Some [''header''],
     Some [[], [], ''0000000000000000000000000000000000000010'', ''0000000000000000000000000000000000000001'', ''7'']]"

definition oh_demo_tx :: Transaction where
  "oh_demo_tx = (sample_tx ''0a'' ''0b'' 5)\<lparr>tx_TxHash := ''h''\<rparr>"

definition oh_demo_info :: BlockInfoMsg where
  "oh_demo_info = \<lparr>bi_BlockBodyLength = 1, bi_InnerShardTxs = [oh_demo_tx], bi_Epoch = 0, bi_ProposeTime = 0, bi_CommitTime = 0,
     bi_SenderShardID = 0, bi_Relay1Txs = [], bi_Relay2Txs = [], bi_Broker1Txs = [], bi_Broker2Txs = []\<rparr>"

definition oh_demo_plan :: oh_plan where
  "oh_demo_plan = \<lparr>ohp_rows = [\<lparr>or_sender = ''0000000000000000000000000000000000000010'',
     or_recipient = ''0000000000000000000000000000000000000001'', or_value = 7\<rparr>], ohp_start = 0, ohp_deadline = 0\<rparr>"

lemma oh_demo_start:
  "oh_start oh_demo_params oh_demo_file 0 (NewOverheadCommittee ips)
     = Some (oh_demo_plan, \<lparr>ohr_pc = OhCheck 0 False, ohr_c = NewOverheadCommittee ips\<rparr>)"
  by (simp add: oh_start_def oh_demo_params_def demo_params_def oh_demo_file_def loadOverheadCSV_def overhead_row_def hex_address_def
      hex_digit_def SetString10_def dec_value_def ToLower_def ascii_lower_def oh_next_def oh_demo_plan_def Let_def)

lemma oh_demo_batch:
  fixes E :: "('bs, 'e) core_env_scheme"
  assumes "prm E = oh_demo_params"
  shows "\<exists>outs f. oc_batch E unfit (\<lambda>_. True) 0 (ohp_rows oh_demo_plan) 0 1 (NewOverheadCommittee ips) = Some (outs, (NewOverheadCommittee ips)\<lparr>oc_frequency := f\<rparr>)"
proof -
  have sh: "oc_shard oh_demo_params (NewOverheadCommittee ips) ''0000000000000000000000000000000000000010'' = Some 0"
    by (simp add: oc_shard_def NewOverheadCommittee_def home_route_def Addr2Shard_def parse_hex_def hex_digit_def go_rem_def
        oh_demo_params_def demo_params_def)
  show ?thesis by (auto simp: oc_batch_def oc_add_tx_def slice_get_def assms oh_demo_plan_def sh dial_all_def list_all_iff)
qed


end
