(* ===== verification/Sup_Broker.thy ===== *)
theory Sup_Broker
  imports Sup_Sending Sup_Clpa
begin

text \<open>
  The broker scheme: the broker (\<^verbatim>\<open>broker/broker.go\<close>), its messages (\<^verbatim>\<open>message/message_broker.go\<close>) and the two
  committees that use it (\<^verbatim>\<open>committee_broker.go\<close>, \<^verbatim>\<open>committee_clpa_broker.go\<close>). A cross-shard transaction is
  replaced by a first leg from the sender to a broker and, when a block report confirms it, a second
  leg from the broker to the recipient. The two committees have the same broker code; it is modelled
  once on \<open>broker_side\<close>, with the routing \<open>fetch\<close> of accounts as an argument. \<open>jr\<close> is the JSON encoding
  of a raw message, which is hashed and never decoded. The clock does not advance within one call.
\<close>

section \<open>Messages and the broker\<close>

record BrokerRawMeg =
  br_Tx :: Transaction
  br_Broker :: address
  br_Hlock :: u64
  br_Snonce :: u64
  br_Bnonce :: u64
  br_Signature :: bytes

record BrokerType1Meg =
  b1_RawMeg :: BrokerRawMeg
  b1_Hcurrent :: u64
  b1_Broker :: address

record Mag1Confirm =
  m1_Tx1Hash :: bytes
  m1_RawMeg :: BrokerRawMeg

record BrokerType2Meg =
  b2_RawMeg :: BrokerRawMeg
  b2_Broker :: address

record Mag2Confirm =
  m2_Tx2Hash :: bytes
  m2_RawMeg :: BrokerRawMeg

record Broker =
  bk_BrokerRawMegs :: "bytes \<rightharpoonup> BrokerRawMeg"
  bk_BrokerAddress :: "address list"
  bk_RawTx2BrokerTx :: "bytes \<Rightarrow> bytes list"

text \<open>\<open>lines\<close> are the lines of the broker file. A number that is not positive reads all of them.\<close>

definition initBrokerAddr :: "address list \<Rightarrow> int \<Rightarrow> address list" where
  "initBrokerAddr lines num = (if num \<le> 0 then lines else take (nat num) lines)"

definition NewBroker :: "Params \<Rightarrow> address list \<Rightarrow> Broker" where
  "NewBroker pr lines =
     \<lparr>bk_BrokerRawMegs = Map.empty, bk_BrokerAddress = initBrokerAddr lines (pm_BrokerNum pr), bk_RawTx2BrokerTx = (\<lambda>_. [])\<rparr>"

definition IsBroker :: "Broker \<Rightarrow> address \<Rightarrow> bool" where
  "IsBroker b addr \<longleftrightarrow> addr \<in> set (bk_BrokerAddress b)"

text \<open>\<^verbatim>\<open>BrokerAddress[0]\<close> panics when there is no broker.\<close>

definition first_broker :: "Broker \<Rightarrow> address option" where
  "first_broker b = (case bk_BrokerAddress b of [] \<Rightarrow> None | a # _ \<Rightarrow> Some a)"

section \<open>The broker side of a committee\<close>

record broker_side =
  bs_broker :: Broker
  bs_brokerConfirm1Pool :: "bytes \<rightharpoonup> Mag1Confirm"
  bs_brokerConfirm2Pool :: "bytes \<rightharpoonup> Mag2Confirm"
  bs_IpNodeTable :: ip_table

definition new_side :: "Params \<Rightarrow> address list \<Rightarrow> ip_table \<Rightarrow> broker_side" where
  "new_side pr lines ips =
     \<lparr>bs_broker = NewBroker pr lines, bs_brokerConfirm1Pool = Map.empty, bs_brokerConfirm2Pool = Map.empty, bs_IpNodeTable = ips\<rparr>"

text \<open>A transaction of a broker is sent to the shard of its recipient.\<close>

definition broker_route :: "(address \<Rightarrow> u64 option) \<Rightarrow> Broker \<Rightarrow> Transaction \<Rightarrow> u64 option" where
  "broker_route fetch b tx =
     do { sendersid \<leftarrow> fetch (tx_Sender tx);
          if IsBroker b (tx_Sender tx) then fetch (tx_Recipient tx) else Some sendersid }"

definition broker_txSending ::
    "Params \<Rightarrow> (address \<Rightarrow> u64 option) \<Rightarrow> broker_side \<Rightarrow> Transaction list \<Rightarrow> net_out list option" where
  "broker_txSending pr fetch bs txlist = txSending pr (bs_IpNodeTable bs) (broker_route fetch (bs_broker bs)) txlist"

definition first_leg :: "('bs, 'e) core_env_scheme \<Rightarrow> time \<Rightarrow> address \<Rightarrow> Transaction \<Rightarrow> Transaction" where
  "first_leg E now brk ctx =
     (NewTransaction E (tx_Sender ctx) brk (tx_Value ctx) (tx_Nonce ctx) now)
       \<lparr>tx_OriginalSender := tx_Sender ctx, tx_FinalRecipient := tx_Recipient ctx, tx_RawTxHash := tx_TxHash ctx\<rparr>"

definition second_leg :: "('bs, 'e) core_env_scheme \<Rightarrow> time \<Rightarrow> address \<Rightarrow> Transaction \<Rightarrow> Transaction" where
  "second_leg E now brk ctx =
     (NewTransaction E brk (tx_Recipient ctx) (tx_Value ctx) (tx_Nonce ctx) now)
       \<lparr>tx_OriginalSender := tx_Sender ctx, tx_FinalRecipient := tx_Recipient ctx, tx_RawTxHash := tx_TxHash ctx\<rparr>"

definition handleBrokerType1Mes ::
    "('bs, 'e) core_env_scheme \<Rightarrow> time \<Rightarrow> (address \<Rightarrow> u64 option) \<Rightarrow> BrokerType1Meg list \<Rightarrow> broker_side \<Rightarrow>
     (net_out list \<times> broker_side) option" where
  "handleBrokerType1Mes E now fetch megs bs =
     (let (tx1s, pool) = foldl (\<lambda>(tx1s, pool) meg.
            let tx1 = first_leg E now (b1_Broker meg) (br_Tx (b1_RawMeg meg))
            in (tx1s @ [tx1], pool(tx_TxHash tx1 \<mapsto> \<lparr>m1_Tx1Hash = tx_TxHash tx1, m1_RawMeg = b1_RawMeg meg\<rparr>)))
          ([], bs_brokerConfirm1Pool bs) megs;
          bs = bs\<lparr>bs_brokerConfirm1Pool := pool\<rparr>
      in map_option (\<lambda>outs. (outs, bs)) (broker_txSending (prm E) fetch bs tx1s))"

definition handleBrokerType2Mes ::
    "('bs, 'e) core_env_scheme \<Rightarrow> time \<Rightarrow> (address \<Rightarrow> u64 option) \<Rightarrow> BrokerType2Meg list \<Rightarrow> broker_side \<Rightarrow>
     (net_out list \<times> broker_side) option" where
  "handleBrokerType2Mes E now fetch megs bs =
     (let (tx2s, pool) = foldl (\<lambda>(tx2s, pool) mes.
            let tx2 = second_leg E now (b2_Broker mes) (br_Tx (b2_RawMeg mes))
            in (tx2s @ [tx2], pool(tx_TxHash tx2 \<mapsto> \<lparr>m2_Tx2Hash = tx_TxHash tx2, m2_RawMeg = b2_RawMeg mes\<rparr>)))
          ([], bs_brokerConfirm2Pool bs) megs;
          bs = bs\<lparr>bs_brokerConfirm2Pool := pool\<rparr>
      in map_option (\<lambda>outs. (outs, bs)) (broker_txSending (prm E) fetch bs tx2s))"

definition getBrokerRawMagDigest :: "('bs, 'e) core_env_scheme \<Rightarrow> (BrokerRawMeg \<Rightarrow> bytes) \<Rightarrow> BrokerRawMeg \<Rightarrow> bytes" where
  "getBrokerRawMagDigest E jr r = sha256_Sum256 E (jr r)"

definition handleBrokerRawMag ::
    "('bs, 'e) core_env_scheme \<Rightarrow> (BrokerRawMeg \<Rightarrow> bytes) \<Rightarrow> time \<Rightarrow> (address \<Rightarrow> u64 option) \<Rightarrow> BrokerRawMeg list \<Rightarrow> broker_side \<Rightarrow>
     (net_out list \<times> broker_side) option" where
  "handleBrokerRawMag E jr now fetch megs bs =
     (let b = (bs_broker bs)\<lparr>bk_BrokerRawMegs :=
                 foldl (\<lambda>m meg. m(getBrokerRawMagDigest E jr meg \<mapsto> meg)) (bk_BrokerRawMegs (bs_broker bs)) megs\<rparr>
      in handleBrokerType1Mes E now fetch (map (\<lambda>meg. \<lparr>b1_RawMeg = meg, b1_Hcurrent = 0, b1_Broker = br_Broker meg\<rparr>) megs)
           (bs\<lparr>bs_broker := b\<rparr>))"

text \<open>Splits a batch into the transactions the shards can execute and the raw messages for the broker.\<close>

definition deal_tx ::
    "(address \<Rightarrow> u64 option) \<Rightarrow> Broker \<Rightarrow> Transaction list \<times> BrokerRawMeg list \<Rightarrow> Transaction \<Rightarrow>
     (Transaction list \<times> BrokerRawMeg list) option" where
  "deal_tx fetch b = (\<lambda>(itxs, raws) tx.
     do { rSid \<leftarrow> fetch (tx_Recipient tx);
          sSid \<leftarrow> fetch (tx_Sender tx);
          if rSid \<noteq> sSid \<and> \<not> IsBroker b (tx_Recipient tx) \<and> \<not> IsBroker b (tx_Sender tx)
          then do { brk \<leftarrow> first_broker b;
                    Some (itxs, raws @ [\<lparr>br_Tx = tx, br_Broker = brk, br_Hlock = 0, br_Snonce = 0, br_Bnonce = 0, br_Signature = []\<rparr>]) }
          else Some (itxs @ [if IsBroker b (tx_Recipient tx) \<or> IsBroker b (tx_Sender tx)
                             then tx\<lparr>tx_HasBroker := True, tx_SenderIsBroker := IsBroker b (tx_Sender tx)\<rparr> else tx], raws) })"

definition dealTxByBroker ::
    "('bs, 'e) core_env_scheme \<Rightarrow> (BrokerRawMeg \<Rightarrow> bytes) \<Rightarrow> time \<Rightarrow> (address \<Rightarrow> u64 option) \<Rightarrow> Transaction list \<Rightarrow> broker_side \<Rightarrow>
     (net_out list \<times> Transaction list \<times> broker_side) option" where
  "dealTxByBroker E jr now fetch txs bs =
     do { (itxs, raws) \<leftarrow> foldlM (deal_tx fetch (bs_broker bs)) ([], []) txs;
          if raws \<noteq> [] then map_option (\<lambda>(outs, bs). (outs, itxs, bs)) (handleBrokerRawMag E jr now fetch raws bs)
          else Some ([], itxs, bs) }"

definition confirm_tx1 ::
    "('bs, 'e) core_env_scheme \<Rightarrow> (BrokerRawMeg \<Rightarrow> bytes) \<Rightarrow> Broker \<times> BrokerType2Meg list \<Rightarrow> Mag1Confirm \<Rightarrow>
     (Broker \<times> BrokerType2Meg list) option" where
  "confirm_tx1 E jr = (\<lambda>(b, megs) c.
     let RawMeg = m1_RawMeg c; h = tx_TxHash (br_Tx RawMeg)
     in if bk_BrokerRawMegs b (getBrokerRawMagDigest E jr RawMeg) = None then Some (b, megs)
        else do { brk \<leftarrow> first_broker b;
                  Some (b\<lparr>bk_RawTx2BrokerTx := (bk_RawTx2BrokerTx b)(h := bk_RawTx2BrokerTx b h @ [m1_Tx1Hash c])\<rparr>,
                        megs @ [\<lparr>b2_RawMeg = RawMeg, b2_Broker = brk\<rparr>]) })"

definition handleTx1ConfirmMag ::
    "('bs, 'e) core_env_scheme \<Rightarrow> (BrokerRawMeg \<Rightarrow> bytes) \<Rightarrow> time \<Rightarrow> (address \<Rightarrow> u64 option) \<Rightarrow> Mag1Confirm list \<Rightarrow> broker_side \<Rightarrow>
     (net_out list \<times> broker_side) option" where
  "handleTx1ConfirmMag E jr now fetch confirms bs =
     do { (b, megs) \<leftarrow> foldlM (confirm_tx1 E jr) (bs_broker bs, []) confirms;
          handleBrokerType2Mes E now fetch megs (bs\<lparr>bs_broker := b\<rparr>) }"

definition handleTx2ConfirmMag :: "Mag2Confirm list \<Rightarrow> broker_side \<Rightarrow> broker_side" where
  "handleTx2ConfirmMag confirms bs =
     bs\<lparr>bs_broker := foldl (\<lambda>b c. let h = tx_TxHash (br_Tx (m2_RawMeg c)) in
          b\<lparr>bk_RawTx2BrokerTx := (bk_RawTx2BrokerTx b)(h := bk_RawTx2BrokerTx b h @ [m2_Tx2Hash c])\<rparr>) (bs_broker bs) confirms\<rparr>"

definition createConfirm ::
    "('bs, 'e) core_env_scheme \<Rightarrow> (BrokerRawMeg \<Rightarrow> bytes) \<Rightarrow> time \<Rightarrow> (address \<Rightarrow> u64 option) \<Rightarrow> Transaction list \<Rightarrow> broker_side \<Rightarrow>
     (net_out list \<times> broker_side) option" where
  "createConfirm E jr now fetch txs bs =
     (let confirm1s = List.map_filter (\<lambda>tx. bs_brokerConfirm1Pool bs (tx_TxHash tx)) txs;
          confirm2s = List.map_filter (\<lambda>tx. bs_brokerConfirm2Pool bs (tx_TxHash tx)) txs
      in do { (outs, bs) \<leftarrow> (if confirm1s \<noteq> [] then handleTx1ConfirmMag E jr now fetch confirm1s bs else Some ([], bs));
              Some (outs, if confirm2s \<noteq> [] then handleTx2ConfirmMag confirm2s bs else bs) })"

section \<open>The broker committee\<close>

record BrokerCommitteeMod =
  bm_dataTotalNum :: int
  bm_nowDataNum :: int
  bm_batchDataNum :: int
  bm_side :: broker_side
  bm_Ss :: StopSignal

definition NewBrokerCommitteeMod :: "Params \<Rightarrow> address list \<Rightarrow> ip_table \<Rightarrow> StopSignal \<Rightarrow> int \<Rightarrow> int \<Rightarrow> BrokerCommitteeMod" where
  "NewBrokerCommitteeMod pr lines ips Ss dataNum batchNum =
     \<lparr>bm_dataTotalNum = dataNum, bm_nowDataNum = 0, bm_batchDataNum = batchNum, bm_side = new_side pr lines ips, bm_Ss = Ss\<rparr>"

text \<open>The broker committee routes accounts by their address only.\<close>

definition broker_HandleBlockInfo ::
    "('bs, 'e) core_env_scheme \<Rightarrow> (BrokerRawMeg \<Rightarrow> bytes) \<Rightarrow> time \<Rightarrow> BlockInfoMsg \<Rightarrow> BrokerCommitteeMod \<Rightarrow>
     (net_out list \<times> BrokerCommitteeMod) option" where
  "broker_HandleBlockInfo E jr now b bcm =
     (if bi_BlockBodyLength b = 0 then Some ([], bcm)
      else map_option (\<lambda>(outs, bs). (outs, bcm\<lparr>bm_side := bs\<rparr>))
             (createConfirm E jr now (home_route (prm E)) (bi_Broker1Txs b @ bi_Broker2Txs b) (bm_side bcm)))"

text \<open>A batch: the cross-shard transactions go through the broker, the others to the shards.\<close>

definition broker_batch ::
    "('bs, 'e) core_env_scheme \<Rightarrow> (BrokerRawMeg \<Rightarrow> bytes) \<Rightarrow> time \<Rightarrow> (address \<Rightarrow> u64 option) \<Rightarrow> Transaction list \<Rightarrow> broker_side \<Rightarrow>
     (net_out list \<times> broker_side) option" where
  "broker_batch E jr now fetch txlist bs =
     do { (outs, itx, bs) \<leftarrow> dealTxByBroker E jr now fetch txlist bs;
          more \<leftarrow> broker_txSending (prm E) fetch bs itx;
          Some (outs @ more, bs) }"

definition broker_row ::
    "('bs, 'e) core_env_scheme \<Rightarrow> (BrokerRawMeg \<Rightarrow> bytes) \<Rightarrow> time \<Rightarrow> bytes list \<Rightarrow> Transaction list \<Rightarrow> BrokerCommitteeMod \<Rightarrow>
     (net_out list \<times> Transaction list \<times> BrokerCommitteeMod \<times> bool) option" where
  "broker_row E jr now data txlist bcm =
     do { t \<leftarrow> data2tx E now data (of_int (bm_nowDataNum bcm));
          (case t of
             None \<Rightarrow> Some ([], txlist, bcm, False)
           | Some tx \<Rightarrow>
               do { let txlist = txlist @ [tx];
                    let bcm = bcm\<lparr>bm_nowDataNum := bm_nowDataNum bcm + 1\<rparr>;
                    (outs, txlist, bcm) \<leftarrow>
                      (if int (length txlist) = bm_batchDataNum bcm \<or> bm_nowDataNum bcm = bm_dataTotalNum bcm
                       then map_option (\<lambda>(outs, bs). (outs, [], bcm\<lparr>bm_side := bs, bm_Ss := StopGap_Reset (bm_Ss bcm)\<rparr>))
                              (broker_batch E jr now (home_route (prm E)) txlist (bm_side bcm))
                       else Some ([], txlist, bcm));
                    Some (outs, txlist, bcm, bm_nowDataNum bcm = bm_dataTotalNum bcm) }) }"

fun broker_MsgSendingControl ::
    "('bs, 'e) core_env_scheme \<Rightarrow> (BrokerRawMeg \<Rightarrow> bytes) \<Rightarrow> (time \<times> bytes list option) list \<Rightarrow> Transaction list \<Rightarrow> BrokerCommitteeMod \<Rightarrow>
     (net_out list \<times> BrokerCommitteeMod) option" where
  "broker_MsgSendingControl E jr [] txlist bcm = Some ([], bcm)"
| "broker_MsgSendingControl E jr ((now, row) # rows) txlist bcm =
     do { data \<leftarrow> row;
          (outs, txlist, bcm, stop) \<leftarrow> broker_row E jr now data txlist bcm;
          if stop then Some (outs, bcm)
          else map_option (\<lambda>(more, bcm). (outs @ more, bcm)) (broker_MsgSendingControl E jr rows txlist bcm) }"

end
