(* ===== verification/Sup_Broker_Props.thy ===== *)
theory Sup_Broker_Props
  imports Sup_Broker
begin

text \<open>
  The safety of the broker scheme: what a committee injects is a transaction of the data set, a first
  leg of one, or a second leg of one whose first leg a shard has reported.
\<close>

section \<open>Runs of the broker side\<close>

text \<open>
  The broker side changes when a batch is dealt with and when a block report is handled; \<open>Report\<close> has the
  broker transactions of the report. The routing may be another one for every event.
\<close>

datatype broker_event = Batch time "address \<Rightarrow> u64 option" "Transaction list" | Report time "address \<Rightarrow> u64 option" "Transaction list"

fun broker_exec ::
    "('bs, 'e) core_env_scheme \<Rightarrow> (BrokerRawMeg \<Rightarrow> bytes) \<Rightarrow> broker_side \<Rightarrow> broker_event \<Rightarrow> (net_out list \<times> broker_side) option" where
  "broker_exec E jr bs (Batch now fetch txs) = broker_batch E jr now fetch txs bs"
| "broker_exec E jr bs (Report now fetch txs) = createConfirm E jr now fetch txs bs"

definition broker_run ::
    "('bs, 'e) core_env_scheme \<Rightarrow> (BrokerRawMeg \<Rightarrow> bytes) \<Rightarrow> broker_side \<Rightarrow> broker_event list \<Rightarrow> (net_out list \<times> broker_side) option" where
  "broker_run E jr bs evs =
     foldlM (\<lambda>(outs, bs) ev. map_option (\<lambda>(more, bs). (outs @ more, bs)) (broker_exec E jr bs ev)) ([], bs) evs"

fun batch_txs :: "broker_event \<Rightarrow> Transaction set" where
  "batch_txs (Batch now fetch txs) = set txs"
| "batch_txs (Report now fetch txs) = {}"

fun report_hashes :: "broker_event \<Rightarrow> bytes set" where
  "report_hashes (Batch now fetch txs) = {}"
| "report_hashes (Report now fetch txs) = tx_TxHash ` set txs"

abbreviation dealt :: "broker_event list \<Rightarrow> Transaction set" where
  "dealt evs \<equiv> \<Union> (batch_txs ` set evs)"

abbreviation reported :: "broker_event list \<Rightarrow> bytes set" where
  "reported evs \<equiv> \<Union> (report_hashes ` set evs)"

text \<open>The transactions the committee may inject after the events \<open>evs\<close>.\<close>

definition plain_of :: "Transaction \<Rightarrow> Transaction \<Rightarrow> bool" where
  "plain_of ctx tx \<longleftrightarrow> tx = ctx \<or> (\<exists>b. tx = ctx\<lparr>tx_HasBroker := True, tx_SenderIsBroker := b\<rparr>)"

definition justified :: "('bs, 'e) core_env_scheme \<Rightarrow> broker_event list \<Rightarrow> Transaction \<Rightarrow> bool" where
  "justified E evs tx \<longleftrightarrow> (\<exists>ctx \<in> dealt evs. plain_of ctx tx
     \<or> (\<exists>t brk. tx = first_leg E t brk ctx)
     \<or> (\<exists>t brk. tx = second_leg E t brk ctx \<and> (\<exists>t' brk'. tx_TxHash (first_leg E t' brk' ctx) \<in> reported evs)))"

lemma justified_mono:
  assumes "justified E evs tx" and "set evs \<subseteq> set evs'"
  shows "justified E evs' tx"
proof -
  have d: "dealt evs \<subseteq> dealt evs'" and r: "reported evs \<subseteq> reported evs'" using assms(2) by auto
  from assms(1) obtain ctx where ctx: "ctx \<in> dealt evs" "plain_of ctx tx \<or> (\<exists>t brk. tx = first_leg E t brk ctx)
     \<or> (\<exists>t brk. tx = second_leg E t brk ctx \<and> (\<exists>t' brk'. tx_TxHash (first_leg E t' brk' ctx) \<in> reported evs))"
    unfolding justified_def by (elim bexE)
  from ctx(2) r have "plain_of ctx tx \<or> (\<exists>t brk. tx = first_leg E t brk ctx)
     \<or> (\<exists>t brk. tx = second_leg E t brk ctx \<and> (\<exists>t' brk'. tx_TxHash (first_leg E t' brk' ctx) \<in> reported evs'))" by fast
  then show ?thesis unfolding justified_def using subsetD[OF d ctx(1)] by (rule bexI)
qed

section \<open>What the operations send\<close>

lemma send_from_only:
  "send_from n sp ips route idx s2s rest = Some outs \<Longrightarrow> set (injected sid outs) \<subseteq> (\<Union>k. set (s2s k)) \<union> set rest"
proof (induction rest arbitrary: idx s2s outs)
  case Nil
  then show ?case
    by (subst (asm) send_from.simps) (auto simp: bind_eq_Some_conv injected_inject_all split: if_splits)
next
  case (Cons tx rest)
  from Cons.prems[unfolded send_from.simps[of n sp ips route idx s2s "tx # rest"] bind_eq_Some_conv[of "if _ then _ else _"]]
  obtain flush where f: "(let (outs, s2s) = (if flush then (inject_all n ips s2s, \<lambda>_. []) else ([], s2s)) in
      case tx # rest of [] \<Rightarrow> Some outs
      | tx # rest' \<Rightarrow> do { k \<leftarrow> route tx; more \<leftarrow> send_from n sp ips route (Suc idx) (s2s(k := s2s k @ [tx])) rest'; Some (outs @ more) }) = Some outs"
    by (elim exE conjE)
  define s2 where "s2 = (if flush then (\<lambda>_. []) else s2s)"
  from f obtain k more where more: "send_from n sp ips route (Suc idx) (s2(k := s2 k @ [tx])) rest = Some more"
    and outs: "outs = (if flush then inject_all n ips s2s else []) @ more"
    by (cases flush) (auto simp: s2_def bind_eq_Some_conv)
  have "(\<Union>x. set ((s2(k := s2 k @ [tx])) x)) \<subseteq> (\<Union>x. set (s2s x)) \<union> {tx}" by (auto simp: s2_def split: if_splits)
  with Cons.IH[OF more] show ?case
    by (auto simp: outs injected_inject_all simp del: fun_upd_apply split: if_splits)
qed

lemma broker_txSending_only: "broker_txSending pr fetch bs txs = Some outs \<Longrightarrow> set (injected sid outs) \<subseteq> set txs"
  using send_from_only by (fastforce simp: broker_txSending_def txSending_def)

lemma type1_loop:
  "foldl (\<lambda>(tx1s, pool) meg.
      let tx1 = first_leg E now (b1_Broker meg) (br_Tx (b1_RawMeg meg))
      in (tx1s @ [tx1], pool(tx_TxHash tx1 \<mapsto> \<lparr>m1_Tx1Hash = tx_TxHash tx1, m1_RawMeg = b1_RawMeg meg\<rparr>))) (l, pool) megs = (tx1s, pool') \<Longrightarrow>
   set tx1s \<subseteq> set l \<union> (\<lambda>meg. first_leg E now (b1_Broker meg) (br_Tx (b1_RawMeg meg))) ` set megs
   \<and> (\<forall>h c. pool' h = Some c \<longrightarrow> pool h = Some c \<or>
        (\<exists>meg \<in> set megs. c = \<lparr>m1_Tx1Hash = h, m1_RawMeg = b1_RawMeg meg\<rparr> \<and> h = tx_TxHash (first_leg E now (b1_Broker meg) (br_Tx (b1_RawMeg meg)))))"
proof (induction megs arbitrary: l pool)
  case Nil
  then show ?case by simp
next
  case (Cons meg megs)
  let ?tx = "first_leg E now (b1_Broker meg) (br_Tx (b1_RawMeg meg))"
  from Cons.IH[of "l @ [?tx]" "pool(tx_TxHash ?tx \<mapsto> \<lparr>m1_Tx1Hash = tx_TxHash ?tx, m1_RawMeg = b1_RawMeg meg\<rparr>)"] Cons.prems
  show ?case by (auto simp: Let_def split: if_splits)
qed

lemma handleBrokerRawMag_spec:
  assumes "handleBrokerRawMag E jr now fetch raws bs = Some (outs, bs')"
  shows "set (injected sid outs) \<subseteq> {first_leg E t brk (br_Tx r) | t brk r. r \<in> set raws}"
    and "bs_brokerConfirm1Pool bs' h = Some c \<Longrightarrow> bs_brokerConfirm1Pool bs h = Some c
         \<or> (\<exists>r \<in> set raws. br_Tx (m1_RawMeg c) = br_Tx r \<and> (\<exists>t brk. h = tx_TxHash (first_leg E t brk (br_Tx r))))"
proof -
  define megs where "megs = map (\<lambda>meg. \<lparr>b1_RawMeg = meg, b1_Hcurrent = 0, b1_Broker = br_Broker meg\<rparr>) raws"
  obtain b tx1s pool where b: "handleBrokerType1Mes E now fetch megs (bs\<lparr>bs_broker := b\<rparr>) = Some (outs, bs')"
    and l: "foldl (\<lambda>(tx1s, pool) meg.
      let tx1 = first_leg E now (b1_Broker meg) (br_Tx (b1_RawMeg meg))
      in (tx1s @ [tx1], pool(tx_TxHash tx1 \<mapsto> \<lparr>m1_Tx1Hash = tx_TxHash tx1, m1_RawMeg = b1_RawMeg meg\<rparr>))) ([], bs_brokerConfirm1Pool bs) megs = (tx1s, pool)"
    using assms by (fastforce simp: handleBrokerRawMag_def Let_def megs_def)
  note loop = type1_loop[OF l]
  have "broker_txSending (prm E) fetch (bs\<lparr>bs_broker := b, bs_brokerConfirm1Pool := pool\<rparr>) tx1s = Some outs"
    and p: "bs_brokerConfirm1Pool bs' = pool" using b l by (auto simp: handleBrokerType1Mes_def Let_def)
  then have "set (injected sid outs) \<subseteq> set tx1s" by (auto dest: broker_txSending_only)
  with loop show "set (injected sid outs) \<subseteq> {first_leg E t brk (br_Tx r) | t brk r. r \<in> set raws}"
    by (fastforce simp: megs_def)
  show "bs_brokerConfirm1Pool bs h = Some c
         \<or> (\<exists>r \<in> set raws. br_Tx (m1_RawMeg c) = br_Tx r \<and> (\<exists>t brk. h = tx_TxHash (first_leg E t brk (br_Tx r))))"
    if "bs_brokerConfirm1Pool bs' h = Some c"
    using that loop unfolding p by (fastforce simp: megs_def)
qed

lemma deal_loop:
  assumes "foldlM (deal_tx fetch b) (i0, r0) txs = Some (itxs, raws)"
  shows "(\<forall>tx \<in> set itxs. tx \<in> set i0 \<or> (\<exists>ctx \<in> set txs. plain_of ctx tx)) \<and> br_Tx ` set raws \<subseteq> br_Tx ` set r0 \<union> set txs"
  using assms
proof (induction txs arbitrary: i0 r0)
  case Nil
  then show ?case by simp
next
  case (Cons tx txs)
  from Cons.prems obtain i1 r1 where 1: "deal_tx fetch b (i0, r0) tx = Some (i1, r1)" and 2: "foldlM (deal_tx fetch b) (i1, r1) txs = Some (itxs, raws)"
    by (auto simp: bind_eq_Some_conv)
  from 1 have "(\<forall>x \<in> set i1. x \<in> set i0 \<or> plain_of tx x) \<and> br_Tx ` set r1 \<subseteq> insert tx (br_Tx ` set r0)"
    by (auto simp: deal_tx_def bind_eq_Some_conv plain_of_def split: if_splits)
  moreover note Cons.IH[OF 2]
  ultimately show ?case by (auto, blast+)
qed

lemma broker_batch_spec:
  assumes "broker_batch E jr now fetch txs bs = Some (outs, bs')"
  shows "tx \<in> set (injected sid outs) \<Longrightarrow> \<exists>ctx \<in> set txs. plain_of ctx tx \<or> (\<exists>t brk. tx = first_leg E t brk ctx)"
    and "bs_brokerConfirm1Pool bs' h = Some c \<Longrightarrow> bs_brokerConfirm1Pool bs h = Some c
         \<or> (br_Tx (m1_RawMeg c) \<in> set txs \<and> (\<exists>t brk. h = tx_TxHash (first_leg E t brk (br_Tx (m1_RawMeg c)))))"
proof -
  obtain o1 itxs o2 raws where deal: "foldlM (deal_tx fetch (bs_broker bs)) ([], []) txs = Some (itxs, raws)"
    and raw: "(if raws \<noteq> [] then handleBrokerRawMag E jr now fetch raws bs else Some ([], bs)) = Some (o1, bs')"
    and send: "broker_txSending (prm E) fetch bs' itxs = Some o2" and outs: "outs = o1 @ o2"
    using assms by (auto simp: broker_batch_def dealTxByBroker_def bind_eq_Some_conv split: if_splits)
  note d = deal_loop[OF deal]
  have "set (injected sid o1) \<subseteq> {first_leg E t brk (br_Tx r) | t brk r. r \<in> set raws}"
    using raw handleBrokerRawMag_spec(1)[of E jr now fetch raws bs o1 bs' sid] by (auto split: if_splits)
  with d broker_txSending_only[OF send, of sid]
  show "\<exists>ctx \<in> set txs. plain_of ctx tx \<or> (\<exists>t brk. tx = first_leg E t brk ctx)" if "tx \<in> set (injected sid outs)"
    using that unfolding outs by (fastforce simp: image_subset_iff)
  show "bs_brokerConfirm1Pool bs h = Some c
      \<or> (br_Tx (m1_RawMeg c) \<in> set txs \<and> (\<exists>t brk. h = tx_TxHash (first_leg E t brk (br_Tx (m1_RawMeg c)))))"
    if "bs_brokerConfirm1Pool bs' h = Some c"
    using that d raw handleBrokerRawMag_spec(2)[of E jr now fetch raws bs o1 bs' h c] by (fastforce split: if_splits)
qed

lemma confirm_loop:
  assumes "foldlM (confirm_tx1 E jr) (b, megs0) confirms = Some (b', megs)"
  shows "b2_RawMeg ` set megs \<subseteq> b2_RawMeg ` set megs0 \<union> m1_RawMeg ` set confirms"
  using assms
proof (induction confirms arbitrary: b megs0)
  case Nil
  then show ?case by simp
next
  case (Cons c confirms)
  from Cons.prems obtain b1 megs1 where 1: "confirm_tx1 E jr (b, megs0) c = Some (b1, megs1)"
    and 2: "foldlM (confirm_tx1 E jr) (b1, megs1) confirms = Some (b', megs)" by (auto simp: bind_eq_Some_conv)
  from 1 have "b2_RawMeg ` set megs1 \<subseteq> b2_RawMeg ` set megs0 \<union> {m1_RawMeg c}"
    by (auto simp: confirm_tx1_def Let_def bind_eq_Some_conv split: if_splits)
  with Cons.IH[OF 2] show ?case by auto
qed

lemma type2_loop:
  "set (fst (foldl (\<lambda>(tx2s, pool) mes.
      let tx2 = second_leg E now (b2_Broker mes) (br_Tx (b2_RawMeg mes))
      in (tx2s @ [tx2], pool(tx_TxHash tx2 \<mapsto> \<lparr>m2_Tx2Hash = tx_TxHash tx2, m2_RawMeg = b2_RawMeg mes\<rparr>))) (l, pool) megs))
   \<subseteq> set l \<union> (\<lambda>mes. second_leg E now (b2_Broker mes) (br_Tx (b2_RawMeg mes))) ` set megs"
proof (induction megs arbitrary: l pool)
  case Nil
  then show ?case by simp
next
  case (Cons mes megs)
  let ?tx = "second_leg E now (b2_Broker mes) (br_Tx (b2_RawMeg mes))"
  from Cons.IH[of "l @ [?tx]" "pool(tx_TxHash ?tx \<mapsto> \<lparr>m2_Tx2Hash = tx_TxHash ?tx, m2_RawMeg = b2_RawMeg mes\<rparr>)"]
  show ?case by (auto simp: Let_def)
qed

lemma handleTx1ConfirmMag_spec:
  assumes "handleTx1ConfirmMag E jr now fetch confirms bs = Some (outs, bs')"
  shows "bs_brokerConfirm1Pool bs' = bs_brokerConfirm1Pool bs"
    and "set (injected sid outs) \<subseteq> {second_leg E t brk (br_Tx (m1_RawMeg c)) | t brk c. c \<in> set confirms}"
proof -
  obtain b megs where c: "foldlM (confirm_tx1 E jr) (bs_broker bs, []) confirms = Some (b, megs)"
    and h: "handleBrokerType2Mes E now fetch megs (bs\<lparr>bs_broker := b\<rparr>) = Some (outs, bs')"
    using assms by (auto simp: handleTx1ConfirmMag_def bind_eq_Some_conv)
  define r where "r = foldl (\<lambda>(tx2s, pool) mes.
      let tx2 = second_leg E now (b2_Broker mes) (br_Tx (b2_RawMeg mes))
      in (tx2s @ [tx2], pool(tx_TxHash tx2 \<mapsto> \<lparr>m2_Tx2Hash = tx_TxHash tx2, m2_RawMeg = b2_RawMeg mes\<rparr>))) ([], bs_brokerConfirm2Pool bs) megs"
  have "broker_txSending (prm E) fetch (bs\<lparr>bs_broker := b, bs_brokerConfirm2Pool := snd r\<rparr>) (fst r) = Some outs"
    and p: "bs' = bs\<lparr>bs_broker := b, bs_brokerConfirm2Pool := snd r\<rparr>"
    using h by (auto simp: handleBrokerType2Mes_def Let_def split_def r_def)
  then have "set (injected sid outs) \<subseteq> (\<lambda>mes. second_leg E now (b2_Broker mes) (br_Tx (b2_RawMeg mes))) ` set megs"
    using broker_txSending_only[of "prm E" fetch _ "fst r" outs sid] type2_loop[of E now "[]" "bs_brokerConfirm2Pool bs" megs] unfolding r_def by fastforce
  with confirm_loop[OF c] show "set (injected sid outs) \<subseteq> {second_leg E t brk (br_Tx (m1_RawMeg c)) | t brk c. c \<in> set confirms}"
    by (fastforce simp: image_subset_iff)
  show "bs_brokerConfirm1Pool bs' = bs_brokerConfirm1Pool bs" by (simp add: p)
qed

lemma createConfirm_spec:
  assumes "createConfirm E jr now fetch txs bs = Some (outs, bs')"
  shows "bs_brokerConfirm1Pool bs' = bs_brokerConfirm1Pool bs"
    and "tx \<in> set (injected sid outs) \<Longrightarrow> \<exists>h c t brk. h \<in> tx_TxHash ` set txs \<and> bs_brokerConfirm1Pool bs h = Some c
           \<and> tx = second_leg E t brk (br_Tx (m1_RawMeg c))"
proof -
  define cs where "cs = List.map_filter (\<lambda>tx. bs_brokerConfirm1Pool bs (tx_TxHash tx)) txs"
  obtain bs1 where 1: "(if cs \<noteq> [] then handleTx1ConfirmMag E jr now fetch cs bs else Some ([], bs)) = Some (outs, bs1)"
    and p: "bs_brokerConfirm1Pool bs' = bs_brokerConfirm1Pool bs1"
    using assms by (auto simp: createConfirm_def Let_def bind_eq_Some_conv handleTx2ConfirmMag_def cs_def[symmetric] split: if_splits)
  show "bs_brokerConfirm1Pool bs' = bs_brokerConfirm1Pool bs"
    using 1 handleTx1ConfirmMag_spec(1)[of E jr now fetch cs bs outs bs1] by (auto simp: p split: if_splits)
  have "\<exists>h \<in> tx_TxHash ` set txs. bs_brokerConfirm1Pool bs h = Some c" if "c \<in> set cs" for c
    using that by (auto simp: cs_def List.map_filter_def)
  moreover assume "tx \<in> set (injected sid outs)"
  with 1 handleTx1ConfirmMag_spec(2)[of E jr now fetch cs bs outs bs1 sid]
  obtain t brk c where "c \<in> set cs" "tx = second_leg E t brk (br_Tx (m1_RawMeg c))" by (auto split: if_splits)
  ultimately show "\<exists>h c t brk. h \<in> tx_TxHash ` set txs \<and> bs_brokerConfirm1Pool bs h = Some c
           \<and> tx = second_leg E t brk (br_Tx (m1_RawMeg c))" by blast
qed

section \<open>Property\<close>

lemma broker_run_inv:
  assumes "broker_run E jr bs evs = Some (outs, bs')" and "bs_brokerConfirm1Pool bs = Map.empty"
  shows "(\<forall>sid. \<forall>tx \<in> set (injected sid outs). justified E evs tx)
    \<and> (\<forall>h c. bs_brokerConfirm1Pool bs' h = Some c \<longrightarrow>
         br_Tx (m1_RawMeg c) \<in> dealt evs \<and> (\<exists>t brk. h = tx_TxHash (first_leg E t brk (br_Tx (m1_RawMeg c)))))"
  using assms(1)
proof (induction evs arbitrary: outs bs' rule: rev_induct)
  case Nil
  then show ?case using assms(2) by (simp add: broker_run_def)
next
  case (snoc ev evs)
  then obtain o1 bs1 more where run: "broker_run E jr bs evs = Some (o1, bs1)" and ex: "broker_exec E jr bs1 ev = Some (more, bs')"
    and outs: "outs = o1 @ more" by (auto simp: broker_run_def foldlM_append bind_eq_Some_conv)
  note IH = snoc.IH[OF run]
  have new: "justified E (evs @ [ev]) tx" if tx: "tx \<in> set (injected sid more)" for tx sid
  proof (cases ev)
    case (Batch now fetch txs)
    with ex have "broker_batch E jr now fetch txs bs1 = Some (more, bs')" by simp
    from broker_batch_spec(1)[OF this tx] obtain ctx where "ctx \<in> set txs" "plain_of ctx tx \<or> (\<exists>t brk. tx = first_leg E t brk ctx)" by blast
    moreover from this(1) Batch have "ctx \<in> dealt (evs @ [ev])" by simp
    ultimately show ?thesis unfolding justified_def by blast
  next
    case (Report now fetch txs)
    with ex have "createConfirm E jr now fetch txs bs1 = Some (more, bs')" by simp
    from createConfirm_spec(2)[OF this tx] obtain h c t brk where
      "h \<in> tx_TxHash ` set txs" "bs_brokerConfirm1Pool bs1 h = Some c" "tx = second_leg E t brk (br_Tx (m1_RawMeg c))" by blast
    moreover have "report_hashes ev = tx_TxHash ` set txs" using Report by simp
    moreover obtain t' brk' where "br_Tx (m1_RawMeg c) \<in> dealt evs" "h = tx_TxHash (first_leg E t' brk' (br_Tx (m1_RawMeg c)))"
      using IH calculation(2) by blast
    ultimately have "br_Tx (m1_RawMeg c) \<in> dealt (evs @ [ev])" "tx_TxHash (first_leg E t' brk' (br_Tx (m1_RawMeg c))) \<in> reported (evs @ [ev])"
      "tx = second_leg E t brk (br_Tx (m1_RawMeg c))" by auto
    then show ?thesis unfolding justified_def by blast
  qed
  have "br_Tx (m1_RawMeg c) \<in> dealt (evs @ [ev]) \<and> (\<exists>t brk. h = tx_TxHash (first_leg E t brk (br_Tx (m1_RawMeg c))))"
    if h: "bs_brokerConfirm1Pool bs' h = Some c" for h c
  proof (cases ev)
    case (Batch now fetch txs)
    with ex have "broker_batch E jr now fetch txs bs1 = Some (more, bs')" by simp
    from broker_batch_spec(2)[OF this h] IH Batch show ?thesis by auto
  next
    case (Report now fetch txs)
    with ex have "createConfirm E jr now fetch txs bs1 = Some (more, bs')" by simp
    from createConfirm_spec(1)[OF this] h IH show ?thesis by auto
  qed
  moreover have "justified E (evs @ [ev]) tx" if "tx \<in> set (injected sid outs)" for tx sid
    using that new IH justified_mono[of E evs tx "evs @ [ev]"] unfolding outs by auto
  ultimately show ?case by blast
qed


definition demo_cross :: Transaction where
  "demo_cross = sample_tx ''0a'' ''0b'' 5"

definition demo_fetch :: "address \<Rightarrow> u64 option" where
  "demo_fetch a = Some (if a = ''0a'' then 0 else 1)"

definition demo_broker_events :: "broker_event list" where
  "demo_broker_events = [Batch 1 demo_fetch [demo_cross], Report 2 demo_fetch [first_leg demo_env 1 ''0f'' demo_cross]]"

lemma demo_broker_send:
  "\<exists>outs. broker_txSending demo_params demo_fetch bs txs = Some outs \<and> (\<forall>sid. injected sid outs = filter (\<lambda>tx. broker_route demo_fetch (bs_broker bs) tx = Some sid) txs)"
proof -
  have "0 < pm_InjectSpeed demo_params" by (simp add: demo_params_def)
  moreover have "\<forall>tx \<in> set txs. \<exists>sid. broker_route demo_fetch (bs_broker bs) tx = Some sid \<and> sid < of_int (pm_ShardNum demo_params)"
    by (simp add: broker_route_def demo_fetch_def demo_params_def)
  ultimately show ?thesis using txSending_routes unfolding broker_txSending_def by blast
qed


end
