(* ===== verification/Sup_ClpaBroker.thy ===== *)
theory Sup_ClpaBroker
  imports Sup_Broker
begin

text \<open>
  The committee that combines CLPA with the broker scheme
  (\<^verbatim>\<open>supervisor/committee/committee_clpa_broker.go\<close>): the fields and the code of the CLPA committee and of
  the broker committee, with the record of moved accounts as the routing of the broker side. Its
  sending loop is that of the CLPA committee with the broker in front of each batch.
\<close>

record CLPACommitteeMod_Broker =
  cb_clpa :: CLPACommitteeModule
  cb_side :: broker_side

definition NewCLPACommitteeMod_Broker ::
    "Params \<Rightarrow> address list \<Rightarrow> ip_table \<Rightarrow> StopSignal \<Rightarrow> int \<Rightarrow> int \<Rightarrow> int \<Rightarrow> CLPACommitteeMod_Broker option" where
  "NewCLPACommitteeMod_Broker pr lines ips Ss dataNum batchNum clpaFrequency =
     map_option (\<lambda>c. \<lparr>cb_clpa = c, cb_side = new_side pr lines ips\<rparr>) (NewCLPACommitteeModule pr ips Ss dataNum batchNum clpaFrequency)"

definition CB_fetchModifiedMap :: "Params \<Rightarrow> CLPACommitteeMod_Broker \<Rightarrow> address \<Rightarrow> u64 option" where
  "CB_fetchModifiedMap pr ccm key = fetchModifiedMap pr (cp_modifiedMap (cb_clpa ccm)) key"

definition on_side ::
    "(broker_side \<Rightarrow> (net_out list \<times> broker_side) option) \<Rightarrow> CLPACommitteeMod_Broker \<Rightarrow> (net_out list \<times> CLPACommitteeMod_Broker) option" where
  "on_side f ccm = map_option (\<lambda>(outs, bs). (outs, ccm\<lparr>cb_side := bs\<rparr>)) (f (cb_side ccm))"

definition CB_txSending :: "Params \<Rightarrow> CLPACommitteeMod_Broker \<Rightarrow> Transaction list \<Rightarrow> net_out list option" where
  "CB_txSending pr ccm txlist = broker_txSending pr (CB_fetchModifiedMap pr ccm) (cb_side ccm) txlist"

definition CB_dealTxByBroker ::
    "('bs, 'e) core_env_scheme \<Rightarrow> (BrokerRawMeg \<Rightarrow> bytes) \<Rightarrow> time \<Rightarrow> Transaction list \<Rightarrow> CLPACommitteeMod_Broker \<Rightarrow>
     (net_out list \<times> Transaction list \<times> CLPACommitteeMod_Broker) option" where
  "CB_dealTxByBroker E jr now txs ccm =
     map_option (\<lambda>(outs, itxs, bs). (outs, itxs, ccm\<lparr>cb_side := bs\<rparr>))
       (dealTxByBroker E jr now (CB_fetchModifiedMap (prm E) ccm) txs (cb_side ccm))"

definition CB_handleBrokerType1Mes ::
    "('bs, 'e) core_env_scheme \<Rightarrow> time \<Rightarrow> BrokerType1Meg list \<Rightarrow> CLPACommitteeMod_Broker \<Rightarrow> (net_out list \<times> CLPACommitteeMod_Broker) option" where
  "CB_handleBrokerType1Mes E now megs ccm = on_side (handleBrokerType1Mes E now (CB_fetchModifiedMap (prm E) ccm) megs) ccm"

definition CB_handleBrokerType2Mes ::
    "('bs, 'e) core_env_scheme \<Rightarrow> time \<Rightarrow> BrokerType2Meg list \<Rightarrow> CLPACommitteeMod_Broker \<Rightarrow> (net_out list \<times> CLPACommitteeMod_Broker) option" where
  "CB_handleBrokerType2Mes E now megs ccm = on_side (handleBrokerType2Mes E now (CB_fetchModifiedMap (prm E) ccm) megs) ccm"

definition CB_handleBrokerRawMag ::
    "('bs, 'e) core_env_scheme \<Rightarrow> (BrokerRawMeg \<Rightarrow> bytes) \<Rightarrow> time \<Rightarrow> BrokerRawMeg list \<Rightarrow> CLPACommitteeMod_Broker \<Rightarrow>
     (net_out list \<times> CLPACommitteeMod_Broker) option" where
  "CB_handleBrokerRawMag E jr now megs ccm = on_side (handleBrokerRawMag E jr now (CB_fetchModifiedMap (prm E) ccm) megs) ccm"

definition CB_handleTx1ConfirmMag ::
    "('bs, 'e) core_env_scheme \<Rightarrow> (BrokerRawMeg \<Rightarrow> bytes) \<Rightarrow> time \<Rightarrow> Mag1Confirm list \<Rightarrow> CLPACommitteeMod_Broker \<Rightarrow>
     (net_out list \<times> CLPACommitteeMod_Broker) option" where
  "CB_handleTx1ConfirmMag E jr now confirms ccm = on_side (handleTx1ConfirmMag E jr now (CB_fetchModifiedMap (prm E) ccm) confirms) ccm"

definition CB_handleTx2ConfirmMag :: "Mag2Confirm list \<Rightarrow> CLPACommitteeMod_Broker \<Rightarrow> CLPACommitteeMod_Broker" where
  "CB_handleTx2ConfirmMag confirms ccm = ccm\<lparr>cb_side := handleTx2ConfirmMag confirms (cb_side ccm)\<rparr>"

definition CB_createConfirm ::
    "('bs, 'e) core_env_scheme \<Rightarrow> (BrokerRawMeg \<Rightarrow> bytes) \<Rightarrow> time \<Rightarrow> Transaction list \<Rightarrow> CLPACommitteeMod_Broker \<Rightarrow>
     (net_out list \<times> CLPACommitteeMod_Broker) option" where
  "CB_createConfirm E jr now txs ccm = on_side (createConfirm E jr now (CB_fetchModifiedMap (prm E) ccm) txs) ccm"

text \<open>An inner-shard transaction that a shard could not execute any more becomes a cross-shard one.\<close>

definition CB_HandleOtherMessage ::
    "('bs, 'e) core_env_scheme \<Rightarrow> (BrokerRawMeg \<Rightarrow> bytes) \<Rightarrow> time \<Rightarrow> net_msg \<Rightarrow> CLPACommitteeMod_Broker \<Rightarrow>
     (net_out list \<times> CLPACommitteeMod_Broker) option" where
  "CB_HandleOtherMessage E jr now msg ccm =
     (case msg of
        CInner2CrossTx txs \<Rightarrow>
          do { (outs, itxs, ccm) \<leftarrow> CB_dealTxByBroker E jr now txs ccm;
               more \<leftarrow> CB_txSending (prm E) ccm itxs;
               Some (outs @ more, ccm) }
      | _ \<Rightarrow> Some ([], ccm))"

definition CB_HandleBlockInfo ::
    "('bs, 'e) core_env_scheme \<Rightarrow> (BrokerRawMeg \<Rightarrow> bytes) \<Rightarrow> time \<Rightarrow> BlockInfoMsg \<Rightarrow> CLPACommitteeMod_Broker \<Rightarrow>
     (net_out list \<times> CLPACommitteeMod_Broker) option" where
  "CB_HandleBlockInfo E jr now b ccm =
     (let c = cb_clpa ccm; ccm = ccm\<lparr>cb_clpa := c\<lparr>cp_curEpoch := next_epoch b (cp_curEpoch c)\<rparr>\<rparr>
      in if bi_BlockBodyLength b = 0 then Some ([], ccm)
         else do { (outs, ccm) \<leftarrow> CB_createConfirm E jr now (bi_Broker1Txs b @ bi_Broker2Txs b) ccm;
                   g \<leftarrow> add_edges (prm E) (\<lambda>tx. (tx_Sender tx, tx_Recipient tx)) (cp_clpaGraph (cb_clpa ccm))
                         (filter (\<lambda>tx. \<not> tx_HasBroker tx) (bi_InnerShardTxs b));
                   g \<leftarrow> add_edges (prm E) (\<lambda>tx. (tx_OriginalSender tx, tx_FinalRecipient tx)) g (bi_Broker1Txs b);
                   Some (outs, ccm\<lparr>cb_clpa := (cb_clpa ccm)\<lparr>cp_clpaGraph := g\<rparr>\<rparr>) })"

section \<open>The sending loop\<close>

text \<open>The control state is that of the CLPA committee, with the broker side beside the committee.\<close>

record cb_ctl =
  cbc_pc :: clpa_pc
  cbc_clpaCnt :: int
  cbc_ccm :: CLPACommitteeMod_Broker

definition CB_batch ::
    "('bs, 'e) core_env_scheme \<Rightarrow> (BrokerRawMeg \<Rightarrow> bytes) \<Rightarrow> time \<Rightarrow> Transaction list \<Rightarrow> CLPACommitteeMod_Broker \<Rightarrow>
     (net_out list \<times> Transaction list \<times> CLPACommitteeMod_Broker) option" where
  "CB_batch E jr now txlist ccm =
     (let c = cb_clpa ccm
      in if int (length txlist) = cp_batchDataNum c \<or> cp_nowDataNum c = cp_dataTotalNum c
         then do { let ccm = ccm\<lparr>cb_clpa := (if cp_clpaLastRunningTime c = 0 then c\<lparr>cp_clpaLastRunningTime := now\<rparr> else c)\<rparr>;
                   (outs, itx, ccm) \<leftarrow> CB_dealTxByBroker E jr now txlist ccm;
                   more \<leftarrow> CB_txSending (prm E) ccm itx;
                   Some (outs @ more, [], ccm\<lparr>cb_clpa := (cb_clpa ccm)\<lparr>cp_Ss := StopGap_Reset (cp_Ss (cb_clpa ccm))\<rparr>\<rparr>) }
         else Some ([], txlist, ccm))"

definition CB_row ::
    "('bs, 'e) core_env_scheme \<Rightarrow> (BrokerRawMeg \<Rightarrow> bytes) \<Rightarrow> (Graph \<Rightarrow> nat \<Rightarrow> Vertex list) \<Rightarrow> time \<Rightarrow> time \<Rightarrow> bytes list \<Rightarrow>
     Transaction list \<Rightarrow> cb_ctl \<Rightarrow> (net_out list \<times> cb_ctl) option" where
  "CB_row E jr ord now later data txlist s =
     do { let c = cb_clpa (cbc_ccm s);
          t \<leftarrow> data2tx E now data (of_int (cp_nowDataNum c));
          (case t of
             None \<Rightarrow> Some ([], s)
           | Some tx \<Rightarrow>
               do { (outs, txlist, ccm) \<leftarrow> CB_batch E jr now (txlist @ [tx])
                      ((cbc_ccm s)\<lparr>cb_clpa := c\<lparr>cp_nowDataNum := cp_nowDataNum c + 1\<rparr>\<rparr>);
                    if cp_clpaLastRunningTime (cb_clpa ccm) \<noteq> 0 \<and> clpa_due (prm E) later (cb_clpa ccm)
                    then do { (more, c) \<leftarrow> clpa_repartition (prm E) ord (cb_clpa ccm);
                              Some (outs @ more, \<lparr>cbc_pc = EpochWait txlist, cbc_clpaCnt = cbc_clpaCnt s + 1, cbc_ccm = ccm\<lparr>cb_clpa := c\<rparr>\<rparr>) }
                    else Some (outs, s\<lparr>cbc_pc := next_turn txlist (cb_clpa ccm), cbc_ccm := ccm\<rparr>) }) }"

text \<open>The polls touch the CLPA part only.\<close>

definition clpa_part :: "cb_ctl \<Rightarrow> clpa_ctl" where
  "clpa_part s = \<lparr>ctl_pc = cbc_pc s, ctl_clpaCnt = cbc_clpaCnt s, ctl_ccm = cb_clpa (cbc_ccm s)\<rparr>"

definition with_part :: "cb_ctl \<Rightarrow> clpa_ctl \<Rightarrow> cb_ctl" where
  "with_part s t = \<lparr>cbc_pc = ctl_pc t, cbc_clpaCnt = ctl_clpaCnt t, cbc_ccm = (cbc_ccm s)\<lparr>cb_clpa := ctl_ccm t\<rparr>\<rparr>"

definition CB_poll ::
    "Params \<Rightarrow> (Graph \<Rightarrow> nat \<Rightarrow> Vertex list) \<Rightarrow> time \<Rightarrow> cb_ctl \<Rightarrow> (net_out list \<times> cb_ctl) option" where
  "CB_poll pr ord now s =
     (case cbc_pc s of
        EpochWait txlist \<Rightarrow> Some ([], with_part s (clpa_epoch_poll now (next_turn txlist (cb_clpa (cbc_ccm s))) (clpa_part s)))
      | Draining \<Rightarrow> map_option (\<lambda>(outs, t). (outs, with_part s t)) (clpa_drain_poll pr ord now (clpa_part s))
      | DrainWait \<Rightarrow> Some ([], with_part s (clpa_epoch_poll now Draining (clpa_part s)))
      | _ \<Rightarrow> Some ([], s))"

text \<open>
  Every step of the combined committee is a step of the broker side under its current routing, so the
  safety of the broker scheme carries over: dealing with a batch and reporting are those of \<open>broker_side\<close>.
\<close>

lemma CB_fetch_eq: "CB_fetchModifiedMap pr ccm = fetchModifiedMap pr (cp_modifiedMap (cb_clpa ccm))"
  by (rule ext) (simp add: CB_fetchModifiedMap_def)

lemma CB_batch_side:
  assumes "CB_batch E jr now txlist ccm = Some (outs, [], ccm')" and "txlist \<noteq> []"
  shows "broker_batch E jr now (CB_fetchModifiedMap (prm E) ccm) txlist (cb_side ccm) = Some (outs, cb_side ccm')"
  using assms
  by (auto simp: CB_batch_def Let_def CB_dealTxByBroker_def CB_txSending_def broker_batch_def CB_fetch_eq
      bind_eq_Some_conv split: if_splits)

lemma CB_HandleBlockInfo_side:
  assumes "CB_HandleBlockInfo E jr now b ccm = Some (outs, ccm')" and "bi_BlockBodyLength b \<noteq> 0"
  shows "createConfirm E jr now (CB_fetchModifiedMap (prm E) ccm) (bi_Broker1Txs b @ bi_Broker2Txs b) (cb_side ccm) = Some (outs, cb_side ccm')"
  using assms
  by (auto simp: CB_HandleBlockInfo_def Let_def CB_createConfirm_def on_side_def CB_fetch_eq bind_eq_Some_conv split: if_splits)

end
