(* ===== verification/Sup_Supervisor.thy ===== *)
theory Sup_Supervisor
  imports Sup_Measure_Props Sup_Overhead_Props Sup_Broker_Props Sup_ClpaBroker Sup_Contrib Sup_PLouvain
begin

text \<open>
  The supervisor (\<^verbatim>\<open>supervisor/supervisor.go\<close>): it builds the committee and the measure modules, hands them the
  block reports of the shards, and stops all nodes once the committee has sent everything and the
  shards have nothing left to do. The stop signal is one object shared by the supervisor and its committee; it is
  kept in the supervisor and handed to the committee before each call. The listener, the
  connections and the log are left out; a request is the message it holds.
\<close>

section \<open>Committees\<close>

text \<open>The interface \<^verbatim>\<open>CommitteeModule\<close> and its implementations.\<close>

datatype committee =
    OverheadCom OverheadCommittee
  | CLPABrokerCom CLPACommitteeMod_Broker
  | CLPACom CLPACommitteeModule
  | BrokerCom BrokerCommitteeMod
  | ContribCom ContribCommitteeModule
  | PLouvainCom PLouvainCommittee

fun share_signal :: "StopSignal \<Rightarrow> committee \<Rightarrow> committee" where
  "share_signal ss (OverheadCom c) = OverheadCom c"
| "share_signal ss (CLPABrokerCom c) = CLPABrokerCom (c\<lparr>cb_clpa := (cb_clpa c)\<lparr>cp_Ss := ss\<rparr>\<rparr>)"
| "share_signal ss (CLPACom c) = CLPACom (c\<lparr>cp_Ss := ss\<rparr>)"
| "share_signal ss (BrokerCom c) = BrokerCom (c\<lparr>bm_Ss := ss\<rparr>)"
| "share_signal ss (ContribCom c) = ContribCom (c\<lparr>cn_Ss := ss\<rparr>)"
| "share_signal ss (PLouvainCom c) = PLouvainCom (c\<lparr>pl_Ss := ss\<rparr>)"

text \<open>The PLouvain committee ignores the reports.\<close>

fun committee_HandleBlockInfo ::
    "('bs, 'e) core_env_scheme \<Rightarrow> (BrokerRawMeg \<Rightarrow> bytes) \<Rightarrow> time \<Rightarrow> BlockInfoMsg \<Rightarrow> committee \<Rightarrow> (net_out list \<times> committee) option" where
  "committee_HandleBlockInfo E jr now b (OverheadCom c) = Some ([], OverheadCom (oc_HandleBlockInfo b c))"
| "committee_HandleBlockInfo E jr now b (CLPABrokerCom c) = map_option (\<lambda>(outs, c). (outs, CLPABrokerCom c)) (CB_HandleBlockInfo E jr now b c)"
| "committee_HandleBlockInfo E jr now b (CLPACom c) = map_option (\<lambda>c. ([], CLPACom c)) (clpa_HandleBlockInfo (prm E) b c)"
| "committee_HandleBlockInfo E jr now b (BrokerCom c) = map_option (\<lambda>(outs, c). (outs, BrokerCom c)) (broker_HandleBlockInfo E jr now b c)"
| "committee_HandleBlockInfo E jr now b (ContribCom c) = map_option (\<lambda>c. ([], ContribCom c)) (contrib_HandleBlockInfo b c)"
| "committee_HandleBlockInfo E jr now b (PLouvainCom c) = Some ([], PLouvainCom c)"

fun committee_HandleOtherMessage ::
    "('bs, 'e) core_env_scheme \<Rightarrow> (BrokerRawMeg \<Rightarrow> bytes) \<Rightarrow> time \<Rightarrow> net_msg \<Rightarrow> committee \<Rightarrow> (net_out list \<times> committee) option" where
  "committee_HandleOtherMessage E jr now msg (OverheadCom c) = map_option (\<lambda>c. ([], OverheadCom c)) (oc_HandleOtherMessage (prm E) msg c)"
| "committee_HandleOtherMessage E jr now msg (CLPABrokerCom c) = map_option (\<lambda>(outs, c). (outs, CLPABrokerCom c)) (CB_HandleOtherMessage E jr now msg c)"
| "committee_HandleOtherMessage E jr now msg com = Some ([], com)"

section \<open>The supervisor\<close>

text \<open>
  \<open>sv_phase\<close> is where \<^verbatim>\<open>SupervisorTxHandling\<close> is: in the committee's \<^verbatim>\<open>MsgSendingControl\<close>, waiting for the stop signal, or closed.
\<close>

datatype sv_phase = SvSending | SvWaiting | SvClosed

record Supervisor =
  sv_ChainConfig :: ChainConfig
  sv_Ip_nodeTable :: ip_table
  sv_listenStop :: bool
  sv_Ss :: StopSignal
  sv_comMod :: committee
  sv_testMeasureMods :: "measure_module list"
  sv_phase :: sv_phase

text \<open>A module for a name; other names are skipped.\<close>

definition new_measure :: "bytes \<Rightarrow> measure_module option" where
  "new_measure mModName =
     (if mModName = ''TPS_Relay'' then Some (TPS_Relay NewTestModule_avgTPS)
      else if mModName = ''TPS_Broker'' then Some (TPS_Broker NewTestModule_avgTPS)
      else if mModName = ''TCL_Relay'' then Some (TCL_Relay NewTestModule_TCL)
      else if mModName = ''TCL_Broker'' then Some (TCL_Broker NewTestModule_TCL)
      else if mModName = ''CrossTxRate_Relay'' then Some (CrossTxRate_Relay NewTestCrossTxRate)
      else if mModName = ''CrossTxRate_Broker'' then Some (CrossTxRate_Broker NewTestCrossTxRate)
      else if mModName = ''TxNumberCount_Relay'' then Some (TxNumberCount_Relay NewTestTxNumCount)
      else if mModName = ''TxNumberCount_Broker'' then Some (TxNumberCount_Broker NewTestTxNumCount)
      else if mModName = ''Tx_Details'' then Some (Tx_Details NewTestTxDetail)
      else None)"

text \<open>
  The committee for a method; every other name, \<^verbatim>\<open>Relay\<close> among them, gives the PLouvain committee. \<open>lines\<close> is the
  list of broker addresses, \<open>firstIp\<close> the node of a shard that the PLouvain committee takes.
\<close>

definition new_committee ::
    "Params \<Rightarrow> address list \<Rightarrow> (u64 \<Rightarrow> bytes option) \<Rightarrow> ip_table \<Rightarrow> StopSignal \<Rightarrow> bytes \<Rightarrow> committee option" where
  "new_committee pr lines firstIp ips Ss committeeMethod =
     (let total = pm_TotalDataSize pr; batch = pm_TxBatchSize pr; gap = pm_ReconfigTimeGap pr
      in if committeeMethod = ''Overhead'' then Some (OverheadCom (NewOverheadCommittee ips))
         else if committeeMethod = ''CLPA_Broker'' then map_option CLPABrokerCom (NewCLPACommitteeMod_Broker pr lines ips Ss total batch gap)
         else if committeeMethod = ''CLPA'' then map_option CLPACom (NewCLPACommitteeModule pr ips Ss total batch gap)
         else if committeeMethod = ''Broker'' then Some (BrokerCom (NewBrokerCommitteeMod pr lines ips Ss total batch))
         else if committeeMethod = ''Contrib'' then Some (ContribCom (NewContribCommitteeModule pr ips Ss total batch gap))
         else Some (PLouvainCom (NewPLouvainCommitteeModule firstIp Ss total batch gap)))"

definition NewSupervisor ::
    "Params \<Rightarrow> address list \<Rightarrow> (u64 \<Rightarrow> bytes option) \<Rightarrow> ip_table \<Rightarrow> ChainConfig \<Rightarrow> bytes \<Rightarrow> bytes list \<Rightarrow> Supervisor option" where
  "NewSupervisor pr lines firstIp ips pcc committeeMethod measureModNames =
     (let Ss = NewStopSignal (3 * sint (cc_ShardNums pcc))
      in map_option (\<lambda>com. \<lparr>sv_ChainConfig = pcc, sv_Ip_nodeTable = ips, sv_listenStop = False, sv_Ss = Ss, sv_comMod = com,
           sv_testMeasureMods = List.map_filter new_measure measureModNames, sv_phase = SvSending\<rparr>)
         (new_committee pr lines firstIp ips Ss committeeMethod))"

section \<open>Messages\<close>

definition update_measures :: "BlockInfoMsg \<Rightarrow> measure_module list \<Rightarrow> measure_module list option" where
  "update_measures bim mods = those (map (UpdateMeasureRecord bim) mods)"

definition handleBlockInfos ::
    "('bs, 'e) core_env_scheme \<Rightarrow> (BrokerRawMeg \<Rightarrow> bytes) \<Rightarrow> time \<Rightarrow> BlockInfoMsg \<Rightarrow> Supervisor \<Rightarrow> (net_out list \<times> Supervisor) option" where
  "handleBlockInfos E jr now bim d =
     do { let Ss = gap_update bim (sv_Ss d);
          (outs, com) \<leftarrow> committee_HandleBlockInfo E jr now bim (share_signal Ss (sv_comMod d));
          mods \<leftarrow> update_measures bim (sv_testMeasureMods d);
          Some (outs, d\<lparr>sv_Ss := Ss, sv_comMod := com, sv_testMeasureMods := mods\<rparr>) }"

text \<open>The \<^verbatim>\<open>HandleExtraMessage\<close> of every measure module is empty.\<close>

definition sv_handleMessage ::
    "('bs, 'e) core_env_scheme \<Rightarrow> (BrokerRawMeg \<Rightarrow> bytes) \<Rightarrow> time \<Rightarrow> net_msg \<Rightarrow> Supervisor \<Rightarrow> (net_out list \<times> Supervisor) option" where
  "sv_handleMessage E jr now msg d =
     (case msg of
        CBlockInfo bim \<Rightarrow> handleBlockInfos E jr now bim d
      | _ \<Rightarrow> map_option (\<lambda>(outs, com). (outs, d\<lparr>sv_comMod := com\<rparr>))
               (committee_HandleOtherMessage E jr now msg (share_signal (sv_Ss d) (sv_comMod d))))"

section \<open>The end of a run\<close>

definition stop_messages :: "Supervisor \<Rightarrow> net_out list" where
  "stop_messages d =
     concat (map (\<lambda>sid. map (\<lambda>nid. Dial (sv_Ip_nodeTable d sid nid) CStop) (u64_range (cc_Nodes_perShard (sv_ChainConfig d))))
       (u64_range (cc_ShardNums (sv_ChainConfig d))))"

text \<open>What the modules print at the end.\<close>

definition CloseSupervisor :: "time \<Rightarrow> Supervisor \<Rightarrow> (bytes \<times> f64 list \<times> f64) list option" where
  "CloseSupervisor now d = those (map (\<lambda>mm. map_option (Pair (OutputMetricName mm)) (OutputRecord now mm)) (sv_testMeasureMods d))"

text \<open>
  The events of a run. \<open>SvMessage\<close> is a message, with the time; \<open>SvControl\<close> is a step of the
  committee's \<^verbatim>\<open>MsgSendingControl\<close>, which leaves the committee in some state and resets the stop signal or
  not; \<open>SvReturn\<close> is its end; \<open>SvPoll\<close> is a turn of the loop that waits for the stop signal.
\<close>

datatype sv_event = SvMessage time net_msg | SvControl bool committee | SvReturn | SvPoll time

definition SupervisorTxHandling_poll :: "time \<Rightarrow> Supervisor \<Rightarrow> (net_out list \<times> Supervisor) option" where
  "SupervisorTxHandling_poll now d =
     (if GapEnough (sv_Ss d)
      then map_option (\<lambda>_. (stop_messages d, d\<lparr>sv_listenStop := True, sv_phase := SvClosed\<rparr>)) (CloseSupervisor now d)
      else Some ([], d))"

fun sv_exec ::
    "('bs, 'e) core_env_scheme \<Rightarrow> (BrokerRawMeg \<Rightarrow> bytes) \<Rightarrow> Supervisor \<Rightarrow> sv_event \<Rightarrow> (net_out list \<times> Supervisor) option" where
  "sv_exec E jr d (SvMessage now msg) = sv_handleMessage E jr now msg d"
| "sv_exec E jr d (SvControl reset com) =
     Some ([], if sv_phase d = SvSending then d\<lparr>sv_Ss := (if reset then StopGap_Reset (sv_Ss d) else sv_Ss d), sv_comMod := com\<rparr> else d)"
| "sv_exec E jr d SvReturn = Some ([], if sv_phase d = SvSending then d\<lparr>sv_phase := SvWaiting\<rparr> else d)"
| "sv_exec E jr d (SvPoll now) = (if sv_phase d = SvWaiting then SupervisorTxHandling_poll now d else Some ([], d))"

definition sv_run ::
    "('bs, 'e) core_env_scheme \<Rightarrow> (BrokerRawMeg \<Rightarrow> bytes) \<Rightarrow> Supervisor \<Rightarrow> sv_event list \<Rightarrow> (net_out list \<times> Supervisor) option" where
  "sv_run E jr d evs = foldlM (\<lambda>(outs, d) ev. map_option (\<lambda>(new, d). (outs @ new, d)) (sv_exec E jr d ev)) ([], d) evs"

end
