(* ===== verification/Sup_Supervisor_Props.thy ===== *)
theory Sup_Supervisor_Props
  imports Sup_Supervisor
begin

text \<open>
  When the supervisor stops the nodes. A run is compared with a reference that only looks at the
  sequence of events: the number of empty block reports since the last sign of work.
\<close>

section \<open>The quiet period\<close>

text \<open>Whether the committee is still sending, and the number of empty reports since the last report with transactions or reset.\<close>

fun quiet_step :: "bool \<times> int \<Rightarrow> sv_event \<Rightarrow> bool \<times> int" where
  "quiet_step (sending, n) (SvMessage now msg) =
     (sending, case msg of CBlockInfo b \<Rightarrow> if bi_BlockBodyLength b = 0 then n + 1 else 0 | _ \<Rightarrow> n)"
| "quiet_step (sending, n) (SvControl reset com) = (sending, if sending \<and> reset then 0 else n)"
| "quiet_step (sending, n) SvReturn = (False, n)"
| "quiet_step (sending, n) (SvPoll now) = (sending, n)"

definition quiet :: "sv_event list \<Rightarrow> bool \<times> int" where
  "quiet evs = foldl quiet_step (True, 0) evs"

definition is_stop :: "net_out \<Rightarrow> bool" where
  "is_stop out = (case out of Dial _ CStop \<Rightarrow> True | _ \<Rightarrow> False)"

section \<open>The committees send no stop message\<close>

definition no_stop :: "net_out list \<Rightarrow> bool" where
  "no_stop outs \<longleftrightarrow> filter is_stop outs = []"

lemma no_stop_simps [simp]: "no_stop []" "no_stop (xs @ ys) \<longleftrightarrow> no_stop xs \<and> no_stop ys" "no_stop (inject_all n ips m)"
  by (auto simp: no_stop_def inject_all_def filter_empty_conv is_stop_def)

lemma send_from_no_stop: "send_from n sp ips route i m txs = Some outs \<Longrightarrow> no_stop outs"
proof (induction txs arbitrary: i m outs)
  case Nil
  then show ?case by (subst (asm) send_from.simps) (auto simp: bind_eq_Some_conv split: if_splits)
next
  case (Cons tx txs)
  with Cons.prems[unfolded send_from.simps[of n sp ips route i m "tx # txs"]] show ?case
    by (auto simp: bind_eq_Some_conv split: if_splits)
qed

lemma broker_txSending_no_stop: "broker_txSending pr fetch bs txs = Some outs \<Longrightarrow> no_stop outs"
  by (simp add: broker_txSending_def txSending_def send_from_no_stop)

lemma type_mes_no_stop:
  "handleBrokerType1Mes E now fetch megs1 bs = Some (outs, bs') \<Longrightarrow> no_stop outs"
  "handleBrokerType2Mes E now fetch megs2 bs = Some (outs, bs') \<Longrightarrow> no_stop outs"
  by (auto simp: handleBrokerType1Mes_def handleBrokerType2Mes_def Let_def broker_txSending_no_stop split: prod.splits)

lemma createConfirm_no_stop: "createConfirm E jr now fetch txs bs = Some (outs, bs') \<Longrightarrow> no_stop outs"
  by (auto simp: createConfirm_def handleTx1ConfirmMag_def Let_def bind_eq_Some_conv type_mes_no_stop split: if_splits)

lemma dealTxByBroker_no_stop: "dealTxByBroker E jr now fetch txs bs = Some (outs, itxs, bs') \<Longrightarrow> no_stop outs"
  by (auto simp: dealTxByBroker_def handleBrokerRawMag_def Let_def bind_eq_Some_conv type_mes_no_stop split: if_splits)

lemma committee_HandleBlockInfo_no_stop: "committee_HandleBlockInfo E jr now b com = Some (outs, com') \<Longrightarrow> no_stop outs"
  by (cases com) (auto simp: CB_HandleBlockInfo_def CB_createConfirm_def on_side_def broker_HandleBlockInfo_def Let_def bind_eq_Some_conv
      createConfirm_no_stop split: if_splits)

lemma committee_HandleOtherMessage_no_stop: "committee_HandleOtherMessage E jr now msg com = Some (outs, com') \<Longrightarrow> no_stop outs"
  by (cases com) (auto simp: CB_HandleOtherMessage_def CB_dealTxByBroker_def CB_txSending_def bind_eq_Some_conv
      dealTxByBroker_no_stop broker_txSending_no_stop split: net_msg.split_asm)

lemma sv_handleMessage_keeps:
  assumes "sv_handleMessage E jr now msg d = Some (outs, d')"
  shows "no_stop outs" "sv_phase d' = sv_phase d" "sv_ChainConfig d' = sv_ChainConfig d" "sv_Ip_nodeTable d' = sv_Ip_nodeTable d"
    "sv_Ss d' = (case msg of CBlockInfo b \<Rightarrow> gap_update b (sv_Ss d) | _ \<Rightarrow> sv_Ss d)"
    "sv_listenStop d' = sv_listenStop d"
proof -
  have "no_stop outs \<and> sv_phase d' = sv_phase d \<and> sv_ChainConfig d' = sv_ChainConfig d \<and> sv_Ip_nodeTable d' = sv_Ip_nodeTable d
    \<and> sv_Ss d' = (case msg of CBlockInfo b \<Rightarrow> gap_update b (sv_Ss d) | _ \<Rightarrow> sv_Ss d) \<and> sv_listenStop d' = sv_listenStop d"
  proof (cases "\<exists>b. msg = CBlockInfo b")
    case True
    with assms show ?thesis
      by (auto simp: sv_handleMessage_def handleBlockInfos_def Let_def bind_eq_Some_conv committee_HandleBlockInfo_no_stop)
  next
    case False
    with assms have "\<exists>com. committee_HandleOtherMessage E jr now msg (share_signal (sv_Ss d) (sv_comMod d)) = Some (outs, com) \<and> d' = d\<lparr>sv_comMod := com\<rparr>"
      by (cases msg) (auto simp: sv_handleMessage_def)
    with False committee_HandleOtherMessage_no_stop show ?thesis by (cases msg) auto
  qed
  then show "no_stop outs" "sv_phase d' = sv_phase d" "sv_ChainConfig d' = sv_ChainConfig d" "sv_Ip_nodeTable d' = sv_Ip_nodeTable d"
    "sv_Ss d' = (case msg of CBlockInfo b \<Rightarrow> gap_update b (sv_Ss d) | _ \<Rightarrow> sv_Ss d)" "sv_listenStop d' = sv_listenStop d"
    by blast+
qed

section \<open>A run\<close>

text \<open>
  The invariant of a run over the events so far: the stop signal counts the quiet period, and the stop messages
  have been sent exactly when the run is closed, which a poll did after a long enough quiet period.
\<close>

definition closed_after :: "int \<Rightarrow> sv_event list \<Rightarrow> bool" where
  "closed_after threshold evs \<longleftrightarrow>
     (\<exists>before now after. evs = before @ SvPoll now # after \<and> fst (quiet before) = False \<and> threshold \<le> snd (quiet before))"

definition sv_inv :: "ChainConfig \<Rightarrow> ip_table \<Rightarrow> sv_event list \<Rightarrow> net_out list \<Rightarrow> Supervisor \<Rightarrow> bool" where
  "sv_inv pcc ips evs outs d \<longleftrightarrow>
     sv_ChainConfig d = pcc \<and> sv_Ip_nodeTable d = ips
     \<and> sv_Ss d = \<lparr>ss_stopGap = snd (quiet evs), ss_stopThreshold = 3 * sint (cc_ShardNums pcc)\<rparr>
     \<and> (fst (quiet evs) \<longleftrightarrow> sv_phase d = SvSending)
     \<and> filter is_stop outs = (if sv_phase d = SvClosed then stop_messages d else [])
     \<and> (sv_phase d = SvClosed \<longrightarrow> closed_after (3 * sint (cc_ShardNums pcc)) evs)
     \<and> (sv_listenStop d \<longleftrightarrow> sv_phase d = SvClosed)"

lemma quiet_snoc: "quiet (evs @ [ev]) = quiet_step (quiet evs) ev"
  by (simp add: quiet_def)

lemma closed_after_snoc: "closed_after k evs \<Longrightarrow> closed_after k (evs @ [ev])"
  unfolding closed_after_def by (metis append.assoc append_Cons)

lemma stop_messages_cong:
  "sv_ChainConfig d' = sv_ChainConfig d \<Longrightarrow> sv_Ip_nodeTable d' = sv_Ip_nodeTable d \<Longrightarrow> stop_messages d' = stop_messages d"
  by (simp add: stop_messages_def)

lemma stop_messages_stop: "filter is_stop (stop_messages d) = stop_messages d"
  by (auto simp: stop_messages_def is_stop_def filter_id_conv)

lemma sv_exec_inv:
  assumes inv: "sv_inv pcc ips evs outs d" and ev: "sv_exec E jr d ev = Some (new, d')"
  shows "sv_inv pcc ips (evs @ [ev]) (outs @ new) d'"
proof (cases ev)
  case (SvMessage now msg)
  with ev have "sv_handleMessage E jr now msg d = Some (new, d')" by simp
  note k = sv_handleMessage_keeps[OF this]
  obtain s n where q: "quiet evs = (s, n)" by force
  have "sv_Ss d' = \<lparr>ss_stopGap = snd (quiet (evs @ [ev])), ss_stopThreshold = 3 * sint (cc_ShardNums pcc)\<rparr>"
    using inv k(5) by (simp add: sv_inv_def quiet_snoc SvMessage q gap_update_def StopGap_Inc_def StopGap_Reset_def split: net_msg.split)
  with inv k(1-4,6) closed_after_snoc stop_messages_cong[OF k(3,4)] show ?thesis
    by (simp add: sv_inv_def no_stop_def quiet_snoc SvMessage q)
next
  case (SvControl reset com)
  obtain s n where q: "quiet evs = (s, n)" by force
  from inv ev SvControl closed_after_snoc show ?thesis
    by (auto simp: sv_inv_def quiet_snoc q StopGap_Reset_def stop_messages_def)
next
  case SvReturn
  obtain s n where q: "quiet evs = (s, n)" by force
  from inv ev SvReturn closed_after_snoc show ?thesis
    by (auto simp: sv_inv_def quiet_snoc q stop_messages_def)
next
  case (SvPoll now)
  obtain s n where q: "quiet evs = (s, n)" by force
  show ?thesis
  proof (cases "sv_phase d = SvWaiting \<and> GapEnough (sv_Ss d)")
    case True
    with ev SvPoll have e: "new = stop_messages d" "d' = d\<lparr>sv_listenStop := True, sv_phase := SvClosed\<rparr>"
      by (auto simp: SupervisorTxHandling_poll_def)
    have "closed_after (3 * sint (cc_ShardNums pcc)) (evs @ [ev])"
      unfolding closed_after_def using True inv q SvPoll
      by (intro exI[of _ evs] exI[of _ now] exI[of _ "[]"]) (simp add: sv_inv_def GapEnough_def)
    moreover have "stop_messages d' = stop_messages d" by (rule stop_messages_cong) (simp_all add: e)
    ultimately show ?thesis using inv True q SvPoll by (simp add: sv_inv_def e quiet_snoc stop_messages_stop)
  next
    case False
    with ev SvPoll have "new = [] \<and> d' = d" by (auto simp: SupervisorTxHandling_poll_def split: if_splits)
    with inv q SvPoll closed_after_snoc show ?thesis by (simp add: sv_inv_def quiet_snoc)
  qed
qed

lemma sv_run_inv:
  assumes "sv_inv pcc ips [] [] d0" and "sv_run E jr d0 evs = Some (outs, d)"
  shows "sv_inv pcc ips evs outs d"
  using assms(2)
proof (induction evs arbitrary: outs d rule: rev_induct)
  case Nil
  with assms(1) show ?case by (simp add: sv_run_def)
next
  case (snoc ev evs)
  then obtain o1 d1 new where "sv_run E jr d0 evs = Some (o1, d1)" "sv_exec E jr d1 ev = Some (new, d)" "outs = o1 @ new"
    by (auto simp: sv_run_def foldlM_append bind_eq_Some_conv)
  with snoc.IH sv_exec_inv show ?case by blast
qed

lemma NewSupervisor_inv:
  assumes "NewSupervisor pr lines firstIp ips pcc com names = Some d0"
  shows "sv_inv pcc ips [] [] d0"
  using assms by (auto simp: NewSupervisor_def Let_def sv_inv_def quiet_def NewStopSignal_def)

section \<open>The records can be printed\<close>

fun record_ok :: "measure_module \<Rightarrow> bool" where
  "record_ok (TPS_Relay m) = (- 1 \<le> ec_epochID m \<and> length (ec_txNum m) = nat (ec_epochID m + 1) \<and> tps_aux m)"
| "record_ok (TPS_Broker m) = (- 1 \<le> ec_epochID m \<and> length (ec_txNum m) = nat (ec_epochID m + 1) \<and> tps_aux m)"
| "record_ok (TCL_Relay m) = (length (tl_totTxLatencyEpoch m) = length (ec_txNum m))"
| "record_ok (TCL_Broker m) = (length (tl_totTxLatencyEpoch m) = length (ec_txNum m))"
| "record_ok (CrossTxRate_Relay m) = (length (ct_totCrossTxNum m) = length (ec_txNum m))"
| "record_ok (CrossTxRate_Broker m) = (length (ct_totCrossTxNum m) = length (ec_txNum m))"
| "record_ok _ = True"

lemma count_txs_keeps:
  "count_txs sch b m = Some m' \<Longrightarrow> ec_epochID m' = ec_epochID m \<and> ec_txNum m' = ec_txNum m \<and> epoch_counts.more m' = epoch_counts.more m"
  by (auto simp: count_txs_def bind_eq_Some_conv)

lemma add_txNum_keeps:
  "add_txNum e x m = Some m' \<Longrightarrow> ec_epochID m' = ec_epochID m \<and> length (ec_txNum m') = length (ec_txNum m) \<and> epoch_counts.more m' = epoch_counts.more m"
  by (auto simp: add_txNum_def dest: bump_SomeD)

lemma avgTPS_more: "epoch_counts.more (m :: avgTPS) = epoch_counts.more m' \<Longrightarrow> tp_startTime m = tp_startTime m' \<and> tp_endTime m = tp_endTime m'"
  by (cases m, cases m') simp

lemma CrossTxRate_more: "epoch_counts.more (m :: CrossTxRate) = epoch_counts.more m' \<Longrightarrow> ct_totCrossTxNum m = ct_totCrossTxNum m'"
  by (cases m, cases m') simp

lemma TCL_more: "epoch_counts.more (m :: TCL) = epoch_counts.more m' \<Longrightarrow> tl_totTxLatencyEpoch m = tl_totTxLatencyEpoch m'"
  by (cases m, cases m') simp

lemma CrossTxRate_Update_lens:
  assumes "CrossTxRate_Update sch b m = Some m'" and "length (ct_totCrossTxNum m) = length (ec_txNum m)"
  shows "length (ct_totCrossTxNum m') = length (ec_txNum m')"
  using assms
  by (auto simp: CrossTxRate_Update_def Let_def bind_eq_Some_conv extend_counts_def pad_epochs_def dest!: count_txs_keeps add_txNum_keeps bump_SomeD CrossTxRate_more
      split: if_splits)

lemma TCL_leg_keeps:
  "TCL_total e t m = Some m' \<Longrightarrow> length (tl_totTxLatencyEpoch m') = length (tl_totTxLatencyEpoch m) \<and> ec_txNum m' = ec_txNum m"
  "TCL_leg1 e t m = Some m' \<Longrightarrow> length (tl_totTxLatencyEpoch m') = length (tl_totTxLatencyEpoch m) \<and> ec_txNum m' = ec_txNum m"
  "TCL_leg2 e t m = Some m' \<Longrightarrow> length (tl_totTxLatencyEpoch m') = length (tl_totTxLatencyEpoch m) \<and> ec_txNum m' = ec_txNum m"
  "TCL_ctx e t m = Some m' \<Longrightarrow> length (tl_totTxLatencyEpoch m') = length (tl_totTxLatencyEpoch m) \<and> ec_txNum m' = ec_txNum m"
  by (auto simp: TCL_total_def TCL_leg1_def TCL_leg2_def TCL_ctx_def dest: bump_SomeD)

lemma TCL_tx_keeps:
  assumes "f = TCL_relay1 e t \<or> f = TCL_relay2 e t \<or> f = TCL_broker1 e t \<or> f = TCL_broker2 e t \<or> f = (\<lambda>m tx. TCL_normal e (time_Sub t (tx_Time tx)) m)"
    and "f m tx = Some m'" and "length (tl_totTxLatencyEpoch m) = length (ec_txNum m)"
  shows "length (tl_totTxLatencyEpoch m') = length (ec_txNum m')"
  using assms
  by (elim disjE; auto simp: TCL_relay1_def TCL_relay2_def TCL_broker1_def TCL_broker2_def TCL_normal_def bind_eq_Some_conv
      dest!: TCL_leg_keeps split: option.split_asm)

lemma TCL_txs_keeps:
  assumes "f = TCL_relay1 e t \<or> f = TCL_relay2 e t \<or> f = TCL_broker1 e t \<or> f = TCL_broker2 e t \<or> f = (\<lambda>m tx. TCL_normal e (time_Sub t (tx_Time tx)) m)"
    and "foldlM f m txs = Some m'" and "length (tl_totTxLatencyEpoch m) = length (ec_txNum m)"
  shows "length (tl_totTxLatencyEpoch m') = length (ec_txNum m')"
  using assms(2,3) by (rule foldlM_invariant) (use TCL_tx_keeps[OF assms(1)] in blast)

lemma TCL_Update_lens:
  assumes up: "TCL_Update sch b m = Some m'" and len: "length (tl_totTxLatencyEpoch m) = length (ec_txNum m)"
  shows "length (tl_totTxLatencyEpoch m') = length (ec_txNum m')"
proof (cases "bi_BlockBodyLength b = 0")
  case True
  with up len show ?thesis by (simp add: TCL_Update_def)
next
  case False
  let ?e = "bi_Epoch b" and ?t = "bi_CommitTime b"
  let ?n = "\<lambda>m tx. TCL_normal ?e (time_Sub ?t (tx_Time tx)) m"
  from up False obtain m1 m2 where m1: "count_txs sch b (TCL_extend ?e m) = Some m1" and m2: "add_txNum ?e (inner64 b + legs64 sch b) m1 = Some m2"
    and m': "(\<exists>m3 m4. foldlM (TCL_relay1 ?e ?t) m2 (bi_Relay1Txs b) = Some m3 \<and> foldlM (TCL_relay2 ?e ?t) m3 (bi_Relay2Txs b) = Some m4
        \<and> foldlM ?n m4 (bi_InnerShardTxs b) = Some m')
      \<or> (\<exists>m3 m4. foldlM ?n m2 (bi_InnerShardTxs b) = Some m3 \<and> foldlM (TCL_broker1 ?e ?t) m3 (bi_Broker1Txs b) = Some m4
        \<and> foldlM (TCL_broker2 ?e ?t) m4 (bi_Broker2Txs b) = Some m')"
    by (cases sch) (auto simp: TCL_Update_def Let_def bind_eq_Some_conv)
  have "length (tl_totTxLatencyEpoch (TCL_extend ?e m)) = length (ec_txNum (TCL_extend ?e m))"
    using len by (simp add: TCL_extend_def extend_counts_def pad_epochs_def)
  with count_txs_keeps[OF m1] add_txNum_keeps[OF m2] TCL_more[of m1 "TCL_extend ?e m"] TCL_more[of m2 m1]
  have len2: "length (tl_totTxLatencyEpoch m2) = length (ec_txNum m2)" by simp
  note keeps = TCL_txs_keeps[of "TCL_relay1 ?e ?t" ?e ?t] TCL_txs_keeps[of "TCL_relay2 ?e ?t" ?e ?t] TCL_txs_keeps[of ?n ?e ?t]
    TCL_txs_keeps[of "TCL_broker1 ?e ?t" ?e ?t] TCL_txs_keeps[of "TCL_broker2 ?e ?t" ?e ?t]
  from m' show ?thesis
  proof (elim disjE exE conjE)
    fix m3 m4
    assume "foldlM (TCL_relay1 ?e ?t) m2 (bi_Relay1Txs b) = Some m3" "foldlM (TCL_relay2 ?e ?t) m3 (bi_Relay2Txs b) = Some m4"
      "foldlM ?n m4 (bi_InnerShardTxs b) = Some m'"
    with keeps(1-3) len2 show ?thesis by simp
  next
    fix m3 m4
    assume "foldlM ?n m2 (bi_InnerShardTxs b) = Some m3" "foldlM (TCL_broker1 ?e ?t) m3 (bi_Broker1Txs b) = Some m4"
      "foldlM (TCL_broker2 ?e ?t) m4 (bi_Broker2Txs b) = Some m'"
    with keeps(3-5) len2 show ?thesis by simp
  qed
qed

lemma avgTPS_Update_lens:
  assumes up: "avgTPS_Update sch b m = Some m'" and ok: "record_ok (TPS_Relay m)"
  shows "record_ok (TPS_Relay m')"
proof (cases "bi_BlockBodyLength b = 0")
  case True
  with up ok show ?thesis by (simp add: avgTPS_Update_def)
next
  case False
  let ?e = "bi_Epoch b"
  define m0 where "m0 = extend_counts ?e (m\<lparr>tp_startTime := pad_epochs (ec_epochID m) ?e 0 (tp_startTime m), tp_endTime := pad_epochs (ec_epochID m) ?e 0 (tp_endTime m)\<rparr>)"
  have ok0: "record_ok (TPS_Relay m0)"
    using ok by (simp add: m0_def tps_aux_def pad_epochs_length) (simp add: extend_counts_def pad_epochs_length le_max_iff_disj)
  from up False obtain m1 m2 st et where
    m1: "(case sch of RelayScheme \<Rightarrow> do { m \<leftarrow> add_txNum ?e (legs64 sch b) m0; add_txNum ?e (inner64 b) m }
       | BrokerScheme \<Rightarrow> add_txNum ?e (inner64 b + legs64 sch b) m0) = Some m1"
    and m2: "count_txs sch b m1 = Some m2" and st: "bump (tp_startTime m2) ?e (first_time (bi_ProposeTime b)) = Some st"
      "bump (tp_endTime m2) ?e (last_time (bi_CommitTime b)) = Some et" and m': "m' = m2\<lparr>tp_startTime := st, tp_endTime := et\<rparr>"
    by (simp add: avgTPS_Update_def Let_def bind_eq_Some_conv flip: m0_def) blast
  have "record_ok (TPS_Relay m1)"
    using m1 ok0 by (cases sch) (auto dest!: add_txNum_keeps avgTPS_more simp: tps_aux_def bind_eq_Some_conv)
  with count_txs_keeps[OF m2] avgTPS_more[of m2 m1] have "record_ok (TPS_Relay m2)" by (simp add: tps_aux_def)
  with st show ?thesis by (auto simp: m' tps_aux_def dest!: bump_SomeD)
qed

lemma UpdateMeasureRecord_ok:
  assumes "UpdateMeasureRecord b mm = Some mm'" and "record_ok mm"
  shows "record_ok mm'"
  using assms avgTPS_Update_lens TCL_Update_lens CrossTxRate_Update_lens
  by (cases mm) (auto simp: UpdateMeasureRecord_def avgTPS_Broker_Update_def TCL_Broker_Update_def CrossTxRate_Broker_Update_def)

lemma OutputRecord_total:
  assumes "record_ok mm"
  shows "\<exists>r. OutputRecord now mm = Some r"
proof -
  have tps: "\<exists>r. avgTPS_OutputRecord now m = Some r" if ok: "record_ok (TPS_Relay m)" for m
  proof -
    let ?f = "\<lambda>(rs, tot, eTime, lTime) (eid, n).
       do { st \<leftarrow> slice_get (tp_startTime m) (int eid); et \<leftarrow> slice_get (tp_endTime m) (int eid);
            rs \<leftarrow> slice_set rs (int eid) (n / go_Seconds (time_Sub et st));
            Some (rs, tot + n, if eTime > st then st else eTime, if et > lTime then et else lTime) }"
    let ?z = "replicate (nat (ec_epochID m + 1)) f64_zero"
    have "\<exists>s'. foldlM ?f (?z, f64_zero, now, 0) (enumerate 0 (ec_txNum m)) = Some s' \<and> (\<lambda>(rs, _). length rs = length (ec_txNum m)) s'"
      using ok by (intro foldlM_total) (auto simp: slice_get_def slice_set_def tps_aux_def in_set_enumerate_eq)
    then show ?thesis using ok by (auto simp: avgTPS_OutputRecord_def make_slice_def)
  qed
  have tcl: "\<exists>r. TCL_OutputRecord m = Some r" if "record_ok (TCL_Relay m)" for m
  proof -
    have "\<exists>s'. foldlM (\<lambda>(rs, ls, tn) (eid, l). map_option (\<lambda>n. (rs @ [l / n], ls + l, tn + n)) (slice_get (ec_txNum m) (int eid)))
        ([], f64_zero, f64_zero) (enumerate 0 (tl_totTxLatencyEpoch m)) = Some s' \<and> (\<lambda>_. True) s'"
      using that by (intro foldlM_total) (auto simp: slice_get_def in_set_enumerate_eq)
    then show ?thesis by (auto simp: TCL_OutputRecord_def)
  qed
  have cross: "\<exists>r. CrossTxRate_OutputRecord m = Some r" if "record_ok (CrossTxRate_Relay m)" for m
  proof -
    have "\<exists>s'. foldlM (\<lambda>(rs, tot, ctx) (eid, t). map_option (\<lambda>c. (rs @ [c / t], tot + t, ctx + c)) (slice_get (ct_totCrossTxNum m) (int eid)))
        ([], f64_zero, f64_zero) (enumerate 0 (ec_txNum m)) = Some s' \<and> (\<lambda>_. True) s'"
      using that by (intro foldlM_total) (auto simp: slice_get_def in_set_enumerate_eq)
    then show ?thesis by (auto simp: CrossTxRate_OutputRecord_def)
  qed
  show ?thesis using assms tps tcl cross by (cases mm) (auto simp: OutputRecord_def)
qed

lemma those_total: "\<forall>x \<in> set xs. f x \<noteq> None \<Longrightarrow> \<exists>ys. those (map f xs) = Some ys"
  by (induction xs) auto

lemma those_SomeD: "those (map f xs) = Some ys \<Longrightarrow> y \<in> set ys \<Longrightarrow> \<exists>x \<in> set xs. f x = Some y"
  by (induction xs arbitrary: ys) (auto split: option.splits)

definition records_ok :: "Supervisor \<Rightarrow> bool" where
  "records_ok d \<longleftrightarrow> (\<forall>mm \<in> set (sv_testMeasureMods d). record_ok mm)"

lemma CloseSupervisor_total: "records_ok d \<Longrightarrow> \<exists>r. CloseSupervisor now d = Some r"
  unfolding CloseSupervisor_def records_ok_def by (rule those_total) (use OutputRecord_total in force)

lemma NewSupervisor_records:
  assumes "NewSupervisor pr lines firstIp ips pcc com names = Some d0"
  shows "records_ok d0"
proof -
  have "record_ok mm" if "new_measure n = Some mm" for n mm
    using that by (auto simp: new_measure_def NewTestModule_avgTPS_def NewTestModule_TCL_def NewTestCrossTxRate_def tps_aux_def split: if_splits)
  then show ?thesis using assms by (auto simp: NewSupervisor_def Let_def records_ok_def List.map_filter_def)
qed

lemma update_measures_ok: "update_measures b mods = Some mods' \<Longrightarrow> \<forall>mm \<in> set mods. record_ok mm \<Longrightarrow> \<forall>mm \<in> set mods'. record_ok mm"
proof
  fix mm
  assume up: "update_measures b mods = Some mods'" and ok: "\<forall>mm \<in> set mods. record_ok mm" and "mm \<in> set mods'"
  from up this(3) obtain m where m: "m \<in> set mods" "UpdateMeasureRecord b m = Some mm"
    unfolding update_measures_def using those_SomeD by metis
  show "record_ok mm" by (rule UpdateMeasureRecord_ok[OF m(2)]) (use ok m(1) in simp)
qed

lemma sv_exec_records:
  assumes "sv_exec E jr d ev = Some (new, d')" and "records_ok d"
  shows "records_ok d'"
proof (cases ev)
  case (SvMessage now msg)
  show ?thesis
  proof (cases "\<exists>b. msg = CBlockInfo b")
    case True
    then obtain b where b: "msg = CBlockInfo b" by blast
    with assms(1) SvMessage have "update_measures b (sv_testMeasureMods d) = Some (sv_testMeasureMods d')"
      by (auto simp: sv_handleMessage_def handleBlockInfos_def Let_def bind_eq_Some_conv)
    from update_measures_ok[OF this] assms(2) show ?thesis by (simp add: records_ok_def)
  next
    case False
    with assms SvMessage show ?thesis by (cases msg) (auto simp: sv_handleMessage_def records_ok_def)
  qed
qed (use assms in \<open>auto simp: records_ok_def SupervisorTxHandling_poll_def split: if_splits\<close>)

lemma sv_run_records:
  assumes "records_ok d0" and "sv_run E jr d0 evs = Some (outs, d)"
  shows "records_ok d"
proof -
  have "(\<lambda>(outs, d). records_ok d) (outs, d)"
    using assms(2) unfolding sv_run_def by (rule foldlM_invariant) (use assms(1) sv_exec_records in \<open>auto split: prod.splits\<close>)
  then show ?thesis by simp
qed

section \<open>Stopping\<close>

text \<open>
  C23. The supervisor stops the nodes only when there is nothing left to do. In any run, with any committee and
  any order of messages, the stop messages sent are either none, or exactly one to every node of
  every shard; and they were sent by a poll that came after the committee had sent all its transactions
  and when at least three times as many empty block reports as there are shards had arrived since the last
  report with transactions and the last reset by the committee.
\<close>

theorem supervisor_stops_when_idle:
  assumes "NewSupervisor pr lines firstIp ips pcc com names = Some d0" and "sv_run E jr d0 evs = Some (outs, d)"
  shows "if sv_phase d = SvClosed
    then filter is_stop outs = concat (map (\<lambda>sid. map (\<lambda>nid. Dial (ips sid nid) CStop) (u64_range (cc_Nodes_perShard pcc))) (u64_range (cc_ShardNums pcc)))
      \<and> (\<exists>before now after. evs = before @ SvPoll now # after \<and> SvReturn \<in> set before \<and> 3 * sint (cc_ShardNums pcc) \<le> snd (quiet before))
    else filter is_stop outs = []"
proof -
  have inv: "sv_inv pcc ips evs outs d" by (rule sv_run_inv[OF NewSupervisor_inv[OF assms(1)] assms(2)])
  have ret: "SvReturn \<in> set before" if "\<not> fst (quiet before)" for before
    using that
  proof (induction before rule: rev_induct)
    case (snoc ev before)
    then show ?case by (cases ev; cases "quiet before") (auto simp: quiet_snoc)
  qed (simp add: quiet_def)
  show ?thesis
  proof (cases "sv_phase d = SvClosed")
    case True
    with inv have "closed_after (3 * sint (cc_ShardNums pcc)) evs" by (simp add: sv_inv_def)
    then have "\<exists>before now after. evs = before @ SvPoll now # after \<and> SvReturn \<in> set before \<and> 3 * sint (cc_ShardNums pcc) \<le> snd (quiet before)"
      using ret by (auto simp: closed_after_def)
    with True inv show ?thesis by (simp add: sv_inv_def stop_messages_def)
  next
    case False
    with inv show ?thesis by (simp add: sv_inv_def)
  qed
qed

definition demo_pcc :: ChainConfig where
  "demo_pcc = \<lparr>cc_ChainID = 0, cc_NodeID = 0, cc_ShardID = 0, cc_Nodes_perShard = 1, cc_ShardNums = 1, cc_BlockSize = 0,
     cc_BlockInterval = 0, cc_InjectSpeed = 0, cc_MaxRelayBlockSize = 0\<rparr>"

definition empty_report :: BlockInfoMsg where
  "empty_report = \<lparr>bi_BlockBodyLength = 0, bi_InnerShardTxs = [], bi_Epoch = 0, bi_ProposeTime = 0, bi_CommitTime = 0,
     bi_SenderShardID = 0, bi_Relay1Txs = [], bi_Relay2Txs = [], bi_Broker1Txs = [], bi_Broker2Txs = []\<rparr>"

definition demo_stop_events :: "sv_event list" where
  "demo_stop_events = SvReturn # replicate 3 (SvMessage 0 (CBlockInfo empty_report)) @ [SvPoll 0]"

definition demo_sup :: Supervisor where
  "demo_sup = the (NewSupervisor demo_params [] (\<lambda>_. None) (\<lambda>_ _. ''node'') demo_pcc ''Overhead'' [''Tx_Details''])"

lemma demo_sup_new: "NewSupervisor demo_params [] (\<lambda>_. None) (\<lambda>_ _. ''node'') demo_pcc ''Overhead'' [''Tx_Details''] = Some demo_sup"
  by (simp add: demo_sup_def NewSupervisor_def new_committee_def Let_def)

lemma demo_sup_fields:
  "sv_comMod demo_sup = OverheadCom (NewOverheadCommittee (\<lambda>_ _. ''node''))" "sv_testMeasureMods demo_sup = [Tx_Details NewTestTxDetail]"
  "sv_Ss demo_sup = \<lparr>ss_stopGap = 0, ss_stopThreshold = 3\<rparr>" "sv_phase demo_sup = SvSending" "sv_ChainConfig demo_sup = demo_pcc"
  by (simp_all add: demo_sup_def NewSupervisor_def new_committee_def Let_def new_measure_def demo_pcc_def NewStopSignal_def List.map_filter_def)

text \<open>One shard with one node: three empty reports after the end of the data stop it.\<close>

theorem supervisor_stops_when_idle_witness:
  "\<exists>outs d. sv_run demo_env (\<lambda>_. []) demo_sup demo_stop_events = Some (outs, d) \<and> sv_phase d = SvClosed
     \<and> filter is_stop outs = [Dial ''node'' CStop]"
proof -
  obtain outs d where run: "sv_run demo_env (\<lambda>_. []) demo_sup demo_stop_events = Some (outs, d)" "sv_phase d = SvClosed"
    by (simp add: sv_run_def demo_stop_events_def numeral_eq_Suc sv_handleMessage_def handleBlockInfos_def demo_sup_fields gap_update_def
        empty_report_def oc_HandleBlockInfo_def update_measures_def UpdateMeasureRecord_def TxDetail_Update_def StopGap_Inc_def
        SupervisorTxHandling_poll_def GapEnough_def CloseSupervisor_def OutputRecord_def)
  from supervisor_stops_when_idle[OF demo_sup_new run(1)] run(2) have "filter is_stop outs = [Dial ''node'' CStop]"
    by (simp add: demo_pcc_def u64_range_def)
  with run show ?thesis by blast
qed

lemma empty_report_step:
  assumes "bi_BlockBodyLength b = 0"
  shows "\<exists>com. sv_exec E jr d (SvMessage now (CBlockInfo b)) = Some ([], d\<lparr>sv_Ss := StopGap_Inc (sv_Ss d), sv_comMod := com\<rparr>)"
proof -
  have "\<exists>com'. committee_HandleBlockInfo E jr now b com = Some ([], com')" for com
    using assms by (cases com) (simp_all add: CB_HandleBlockInfo_def clpa_HandleBlockInfo_def broker_HandleBlockInfo_def contrib_HandleBlockInfo_def Let_def)
  then obtain com where c: "committee_HandleBlockInfo E jr now b (share_signal (gap_update b (sv_Ss d)) (sv_comMod d)) = Some ([], com)" by blast
  have "UpdateMeasureRecord b mm = Some mm" for mm
    using assms by (cases mm) (simp_all add: UpdateMeasureRecord_def avgTPS_Update_def TCL_Update_def CrossTxRate_Update_def TxNumCount_Relay_Update_def
        TxNumCount_Broker_Update_def TxDetail_Update_def avgTPS_Broker_Update_def TCL_Broker_Update_def CrossTxRate_Broker_Update_def)
  then have "update_measures b mods = Some mods" for mods by (induction mods) (simp_all add: update_measures_def)
  with c assms show ?thesis by (auto simp: sv_handleMessage_def handleBlockInfos_def gap_update_def intro!: exI[of _ com])
qed

lemma empty_reports_run:
  assumes "\<forall>b \<in> set bs. bi_BlockBodyLength b = 0"
  shows "\<exists>com ss. foldlM (\<lambda>(outs, d) ev. map_option (\<lambda>(new, d). (outs @ new, d)) (sv_exec E jr d ev)) (outs, d) (map (\<lambda>b. SvMessage now (CBlockInfo b)) bs)
      = Some (outs, d\<lparr>sv_Ss := ss, sv_comMod := com\<rparr>)
    \<and> ss_stopGap ss = ss_stopGap (sv_Ss d) + int (length bs) \<and> ss_stopThreshold ss = ss_stopThreshold (sv_Ss d)"
  using assms
proof (induction bs arbitrary: d)
  case Nil
  then show ?case by (auto intro!: exI[of _ "sv_comMod d"] exI[of _ "sv_Ss d"])
next
  case (Cons b bs)
  from Cons.prems empty_report_step[of b E jr d now] obtain com where
    e: "sv_exec E jr d (SvMessage now (CBlockInfo b)) = Some ([], d\<lparr>sv_Ss := StopGap_Inc (sv_Ss d), sv_comMod := com\<rparr>)" by auto
  from Cons.IH[of "d\<lparr>sv_Ss := StopGap_Inc (sv_Ss d), sv_comMod := com\<rparr>"] Cons.prems obtain com' ss where
    r: "foldlM (\<lambda>(outs, d) ev. map_option (\<lambda>(new, d). (outs @ new, d)) (sv_exec E jr d ev))
      (outs, d\<lparr>sv_Ss := StopGap_Inc (sv_Ss d), sv_comMod := com\<rparr>) (map (\<lambda>b. SvMessage now (CBlockInfo b)) bs)
      = Some (outs, d\<lparr>sv_Ss := ss, sv_comMod := com'\<rparr>)"
    "ss_stopGap ss = ss_stopGap (sv_Ss d) + 1 + int (length bs)" "ss_stopThreshold ss = ss_stopThreshold (sv_Ss d)"
    by (auto simp: StopGap_Inc_def)
  show ?case using r e by (intro exI[of _ com'] exI[of _ ss]) simp
qed

text \<open>
  C24. The supervisor does stop. Once the committee has sent everything, three times as many empty reports
  as there are shards, whatever happened before, make the next poll send the stop messages and close
  the supervisor: no handler and no measure module fails on the way.
\<close>

theorem supervisor_stops:
  assumes "NewSupervisor pr lines firstIp ips pcc com names = Some d0" and "sv_run E jr d0 evs = Some (outs, d)" and "sv_phase d = SvWaiting"
    and "\<forall>b \<in> set bs. bi_BlockBodyLength b = 0" and "3 * sint (cc_ShardNums pcc) \<le> int (length bs)"
  shows "\<exists>d'. sv_run E jr d0 (evs @ map (\<lambda>b. SvMessage now (CBlockInfo b)) bs @ [SvPoll now]) = Some (outs @ stop_messages d, d')
    \<and> sv_phase d' = SvClosed \<and> sv_listenStop d'"
proof -
  have inv: "sv_inv pcc ips evs outs d" by (rule sv_run_inv[OF NewSupervisor_inv[OF assms(1)] assms(2)])
  have nonneg: "0 \<le> snd (quiet evs)"
  proof (induction evs rule: rev_induct)
    case (snoc ev evs)
    then show ?case by (cases ev; cases "quiet evs") (auto simp: quiet_snoc split: net_msg.split)
  qed (simp add: quiet_def)
  from empty_reports_run[OF assms(4), of E jr outs d now] obtain com ss where
    r: "foldlM (\<lambda>(outs, d) ev. map_option (\<lambda>(new, d). (outs @ new, d)) (sv_exec E jr d ev)) (outs, d) (map (\<lambda>b. SvMessage now (CBlockInfo b)) bs)
      = Some (outs, d\<lparr>sv_Ss := ss, sv_comMod := com\<rparr>)" "ss_stopGap ss = ss_stopGap (sv_Ss d) + int (length bs)" "ss_stopThreshold ss = ss_stopThreshold (sv_Ss d)"
    by blast
  let ?d = "d\<lparr>sv_Ss := ss, sv_comMod := com\<rparr>"
  have gap: "GapEnough ss" using r(2,3) inv nonneg assms(5) by (simp add: GapEnough_def sv_inv_def)
  have "records_ok d" by (rule sv_run_records[OF NewSupervisor_records[OF assms(1)] assms(2)])
  then have "records_ok ?d" by (simp add: records_ok_def)
  then obtain rec where "CloseSupervisor now ?d = Some rec" using CloseSupervisor_total by blast
  moreover have "stop_messages ?d = stop_messages d" by (rule stop_messages_cong) simp_all
  ultimately have "sv_exec E jr ?d (SvPoll now) = Some (stop_messages d, ?d\<lparr>sv_listenStop := True, sv_phase := SvClosed\<rparr>)"
    using assms(3) gap by (simp add: SupervisorTxHandling_poll_def)
  with assms(2) r(1) show ?thesis by (simp add: sv_run_def foldlM_append)
qed

text \<open>The demo supervisor waits after the end of the data.\<close>

theorem supervisor_stops_witness:
  "\<exists>d'. sv_run demo_env (\<lambda>_. []) demo_sup ([SvReturn] @ map (\<lambda>b. SvMessage 7 (CBlockInfo b)) [empty_report, empty_report, empty_report] @ [SvPoll 7])
     = Some ([Dial ''node'' CStop], d') \<and> sv_phase d' = SvClosed"
proof -
  have run: "sv_run demo_env (\<lambda>_. []) demo_sup [SvReturn] = Some ([], demo_sup\<lparr>sv_phase := SvWaiting\<rparr>)"
    by (simp add: sv_run_def demo_sup_fields)
  have ips: "sv_Ip_nodeTable demo_sup = (\<lambda>_ _. ''node'')"
    by (simp add: demo_sup_def NewSupervisor_def new_committee_def Let_def)
  have e: "\<forall>b \<in> set [empty_report, empty_report, empty_report]. bi_BlockBodyLength b = 0"
    "3 * sint (cc_ShardNums demo_pcc) \<le> int (length [empty_report, empty_report, empty_report])" by (simp_all add: empty_report_def demo_pcc_def)
  have "stop_messages (demo_sup\<lparr>sv_phase := SvWaiting\<rparr>) = [Dial ''node'' CStop]"
    by (simp add: stop_messages_def demo_sup_fields ips demo_pcc_def u64_range_def)
  with supervisor_stops[OF demo_sup_new run _ e, of 7] show ?thesis by auto
qed

end
