(* ===== verification/Ex_Filter.thy ===== *)
theory Ex_Filter
  imports Blb_Prelude Go_Slice "HOL-Library.Word"
begin

text \<open>
  The counting Bloom filter of the ExClique consensus (\<^verbatim>\<open>consensus_shard/exclique/cbf.go\<close>): counters of eight bits
  that saturate, and hash functions that are the 64-bit FNV-1a hash of the item followed by the
  number of the function. A filter of size 0 divides by zero. What the filter knows is compared with the list of
  items that were added.
\<close>

unbundle bit_operations_syntax

section \<open>The filter\<close>

record CountingBloomFilter =
  cbf_counters :: "8 word list"
  cbf_size :: u64
  cbf_hashNum :: u64

definition NewCountingBloomFilter :: "u64 \<Rightarrow> u64 \<Rightarrow> CountingBloomFilter" where
  "NewCountingBloomFilter sz hashNum = \<lparr>cbf_counters = replicate (unat sz) 0, cbf_size = sz, cbf_hashNum = hashNum\<rparr>"

text \<open>\<^verbatim>\<open>fnv.New64a\<close> from the standard library\<close>

definition fnv64a :: "bytes \<Rightarrow> u64" where
  "fnv64a s = foldl (\<lambda>h c. (h XOR of_char c) * 1099511628211) 14695981039346656037 s"

definition cbf_hash :: "CountingBloomFilter \<Rightarrow> bytes \<Rightarrow> nat \<Rightarrow> nat option" where
  "cbf_hash cbf item seed =
     (if cbf_size cbf = 0 then None else Some (unat (fnv64a (item @ [char_of seed]) mod cbf_size cbf)))"

definition counter_at :: "CountingBloomFilter \<Rightarrow> bytes \<Rightarrow> nat \<Rightarrow> 8 word option" where
  "counter_at cbf item i = do { pos \<leftarrow> cbf_hash cbf item i; slice_get (cbf_counters cbf) (int pos) }"

definition put_counter :: "CountingBloomFilter \<Rightarrow> bytes \<Rightarrow> nat \<Rightarrow> 8 word \<Rightarrow> CountingBloomFilter option" where
  "put_counter cbf item i x =
     do { pos \<leftarrow> cbf_hash cbf item i; map_option (\<lambda>cs. cbf\<lparr>cbf_counters := cs\<rparr>) (slice_set (cbf_counters cbf) (int pos) x) }"

definition CBF_Add :: "bytes \<Rightarrow> CountingBloomFilter \<Rightarrow> CountingBloomFilter option" where
  "CBF_Add item cbf =
     foldlM (\<lambda>cbf i. do { c \<leftarrow> counter_at cbf item i; if c < 255 then put_counter cbf item i (c + 1) else Some cbf })
       cbf [0..<unat (cbf_hashNum cbf)]"

definition CBF_Remove :: "bytes \<Rightarrow> CountingBloomFilter \<Rightarrow> CountingBloomFilter option" where
  "CBF_Remove item cbf =
     foldlM (\<lambda>cbf i. do { c \<leftarrow> counter_at cbf item i; if c > 0 then put_counter cbf item i (c - 1) else Some cbf })
       cbf [0..<unat (cbf_hashNum cbf)]"

fun contains_from :: "CountingBloomFilter \<Rightarrow> bytes \<Rightarrow> nat list \<Rightarrow> bool option" where
  "contains_from cbf item [] = Some True"
| "contains_from cbf item (i # is) = do { c \<leftarrow> counter_at cbf item i; if c = 0 then Some False else contains_from cbf item is }"

definition CBF_Contains :: "CountingBloomFilter \<Rightarrow> bytes \<Rightarrow> bool option" where
  "CBF_Contains cbf item = contains_from cbf item [0..<unat (cbf_hashNum cbf)]"

definition CBF_GetCount :: "CountingBloomFilter \<Rightarrow> bytes \<Rightarrow> 8 word option" where
  "CBF_GetCount cbf item =
     foldlM (\<lambda>minCount i. map_option (\<lambda>c. if c < minCount then c else minCount) (counter_at cbf item i)) 255 [0..<unat (cbf_hashNum cbf)]"

definition CBF_Clear :: "CountingBloomFilter \<Rightarrow> CountingBloomFilter" where
  "CBF_Clear cbf = cbf\<lparr>cbf_counters := map (\<lambda>_. 0) (cbf_counters cbf)\<rparr>"

definition CBF_Size :: "CountingBloomFilter \<Rightarrow> u64" where
  "CBF_Size cbf = cbf_size cbf"

definition CBF_Encode :: "CountingBloomFilter \<Rightarrow> 8 word list" where
  "CBF_Encode cbf = cbf_counters cbf"

definition CBF_Decode :: "8 word list \<Rightarrow> CountingBloomFilter \<Rightarrow> CountingBloomFilter" where
  "CBF_Decode data cbf = (if length data = length (cbf_counters cbf) then cbf\<lparr>cbf_counters := data\<rparr> else cbf)"

section \<open>What the counters hold\<close>

text \<open>The positions of an item, and how often the items of a list hit a position.\<close>

definition positions :: "u64 \<Rightarrow> u64 \<Rightarrow> bytes \<Rightarrow> nat list" where
  "positions sz hashNum item = map (\<lambda>i. unat (fnv64a (item @ [char_of i]) mod sz)) [0..<unat hashNum]"

definition load :: "u64 \<Rightarrow> u64 \<Rightarrow> bytes list \<Rightarrow> nat \<Rightarrow> nat" where
  "load sz hashNum items p = sum_list (map (\<lambda>item. count_list (positions sz hashNum item) p) items)"

lemma load_snoc [simp]: "load sz k (items @ [x]) p = load sz k items p + count_list (positions sz k x) p"
  by (simp add: load_def)

lemma positions_less: "sz \<noteq> 0 \<Longrightarrow> p \<in> set (positions sz k item) \<Longrightarrow> p < unat sz"
  by (auto simp: positions_def unat_mod_distrib unat_gt_0)

definition filter_ok :: "CountingBloomFilter \<Rightarrow> bool" where
  "filter_ok cbf \<longleftrightarrow> cbf_size cbf \<noteq> 0 \<and> length (cbf_counters cbf) = unat (cbf_size cbf)"

abbreviation item_positions :: "CountingBloomFilter \<Rightarrow> bytes \<Rightarrow> nat list" where
  "item_positions cbf item \<equiv> positions (cbf_size cbf) (cbf_hashNum cbf) item"

text \<open>The operations as loops over the positions.\<close>

definition bump_counter :: "(8 word \<Rightarrow> 8 word) \<Rightarrow> 8 word list \<Rightarrow> nat \<Rightarrow> 8 word list" where
  "bump_counter f cs p = cs[p := f (cs ! p)]"

definition inc8 :: "8 word \<Rightarrow> 8 word" where
  "inc8 c = (if c < 255 then c + 1 else c)"

definition dec8 :: "8 word \<Rightarrow> 8 word" where
  "dec8 c = (if c > 0 then c - 1 else c)"

lemma position_less: "filter_ok cbf \<Longrightarrow> unat (x mod cbf_size cbf) < length (cbf_counters cbf)"
  by (simp add: filter_ok_def unat_mod_distrib unat_gt_0)

lemma fold_counters:
  assumes "filter_ok cbf" and "\<And>c. P c \<Longrightarrow> h c = g c" "\<And>c. \<not> P c \<Longrightarrow> h c = c"
  shows "foldlM (\<lambda>cbf i. do { c \<leftarrow> counter_at cbf item i; if P c then put_counter cbf item i (g c) else Some cbf }) cbf xs
    = Some (cbf\<lparr>cbf_counters := foldl (bump_counter h) (cbf_counters cbf) (map (\<lambda>i. unat (fnv64a (item @ [char_of i]) mod cbf_size cbf)) xs)\<rparr>)"
  using assms(1)
proof (induction xs arbitrary: cbf)
  case (Cons i xs)
  let ?p = "unat (fnv64a (item @ [char_of i]) mod cbf_size cbf)" and ?c = "cbf_counters cbf ! unat (fnv64a (item @ [char_of i]) mod cbf_size cbf)"
  note p = position_less[OF Cons.prems, of "fnv64a (item @ [char_of i])"]
  have h: "cbf_hash cbf item i = Some ?p" using Cons.prems by (simp add: cbf_hash_def filter_ok_def)
  then have c: "counter_at cbf item i = Some ?c" and put: "put_counter cbf item i x = Some (cbf\<lparr>cbf_counters := (cbf_counters cbf)[?p := x]\<rparr>)" for x
    using p by (simp_all add: counter_at_def put_counter_def slice_set_def)
  have "(do { c \<leftarrow> counter_at cbf item i; if P c then put_counter cbf item i (g c) else Some cbf })
      = Some (cbf\<lparr>cbf_counters := bump_counter h (cbf_counters cbf) ?p\<rparr>)"
    by (cases "P ?c") (simp_all add: c put assms(2,3) bump_counter_def)
  moreover have "filter_ok (cbf\<lparr>cbf_counters := bump_counter h (cbf_counters cbf) ?p\<rparr>)" using Cons.prems by (simp add: filter_ok_def bump_counter_def)
  ultimately show ?case using Cons.IH by simp
qed simp

lemma Add_positions:
  "filter_ok cbf \<Longrightarrow> CBF_Add item cbf = Some (cbf\<lparr>cbf_counters := foldl (bump_counter inc8) (cbf_counters cbf) (item_positions cbf item)\<rparr>)"
  unfolding CBF_Add_def positions_def by (rule fold_counters) (simp_all add: inc8_def)

lemma Remove_positions:
  "filter_ok cbf \<Longrightarrow> CBF_Remove item cbf = Some (cbf\<lparr>cbf_counters := foldl (bump_counter dec8) (cbf_counters cbf) (item_positions cbf item)\<rparr>)"
  unfolding CBF_Remove_def positions_def by (rule fold_counters) (simp_all add: dec8_def)

lemma bump_counters_length [simp]: "length (foldl (bump_counter h) cs ps) = length cs"
  by (induction ps arbitrary: cs) (simp_all add: bump_counter_def)

lemma bump_counters_nth:
  "p < length cs \<Longrightarrow> foldl (bump_counter h) cs ps ! p = (h ^^ count_list ps p) (cs ! p)"
  by (induction ps arbitrary: cs) (simp_all add: bump_counter_def nth_list_update funpow_swap1 del: foldl_Cons, auto simp: bump_counter_def nth_list_update funpow_swap1)

lemma byte_less: "unat (c :: 8 word) < 256"
  using unsigned_less[of c, where 'a = nat] by simp

lemma inc8_unat: "unat ((inc8 ^^ n) c) = min 255 (unat c + n)"
proof (induction n)
  case 0
  then show ?case using byte_less[of c] by simp
next
  case (Suc n)
  have "unat (inc8 d) = min 255 (unat d + 1)" for d :: "8 word"
    using byte_less[of d] by (auto simp: inc8_def word_less_nat_alt unat_word_ariths)
  with Suc show ?case by simp
qed

lemma dec8_inc8: "unat c + n \<le> 255 \<Longrightarrow> (dec8 ^^ n) ((inc8 ^^ n) c) = c"
proof (induction n)
  case (Suc n)
  have "unat ((inc8 ^^ n) c) = unat c + n" using Suc.prems by (simp add: inc8_unat)
  with Suc.prems have "(inc8 ^^ n) c < 255" by (simp add: word_less_nat_alt)
  then have "dec8 (inc8 ((inc8 ^^ n) c)) = (inc8 ^^ n) c"
    by (auto simp: dec8_def inc8_def word_less_nat_alt unat_word_ariths word_gt_0 dest: arg_cong[of _ _ unat])
  then show ?case using Suc by (simp add: funpow_swap1)
qed simp

text \<open>Reading.\<close>

lemma counter_at_ok:
  "filter_ok cbf \<Longrightarrow> counter_at cbf item i = Some (cbf_counters cbf ! unat (fnv64a (item @ [char_of i]) mod cbf_size cbf))"
  using position_less[of cbf] by (simp add: counter_at_def cbf_hash_def filter_ok_def)

lemma Contains_positions:
  assumes "filter_ok cbf"
  shows "CBF_Contains cbf item = Some (\<forall>p \<in> set (item_positions cbf item). cbf_counters cbf ! p \<noteq> 0)"
proof -
  have "contains_from cbf item xs = Some (\<forall>i \<in> set xs. cbf_counters cbf ! unat (fnv64a (item @ [char_of i]) mod cbf_size cbf) \<noteq> 0)" for xs
    by (induction xs) (simp_all add: counter_at_ok[OF assms])
  then show ?thesis by (simp add: CBF_Contains_def positions_def)
qed

lemma GetCount_positions:
  assumes "filter_ok cbf"
  shows "CBF_GetCount cbf item = Some (foldl (\<lambda>m p. min m (cbf_counters cbf ! p)) 255 (item_positions cbf item))"
proof -
  have "foldlM (\<lambda>m i. map_option (\<lambda>c. if c < m then c else m) (counter_at cbf item i)) m xs
      = Some (foldl (\<lambda>m p. min m (cbf_counters cbf ! p)) m (map (\<lambda>i. unat (fnv64a (item @ [char_of i]) mod cbf_size cbf)) xs))" for m xs
    by (induction xs arbitrary: m) (simp_all add: counter_at_ok[OF assms] min_def not_less[symmetric])
  then show ?thesis by (simp add: CBF_GetCount_def positions_def)
qed

lemma min_counters_ge: "b \<le> m \<Longrightarrow> \<forall>p \<in> set ps. b \<le> cs ! p \<Longrightarrow> b \<le> foldl (\<lambda>m p. min m (cs ! p)) m (ps :: nat list)"
  for b :: "'a :: linorder"
  by (induction ps arbitrary: m) auto

text \<open>A filter that was filled by additions.\<close>

definition CBF_adds :: "bytes list \<Rightarrow> CountingBloomFilter \<Rightarrow> CountingBloomFilter option" where
  "CBF_adds items cbf = foldlM (\<lambda>cbf item. CBF_Add item cbf) cbf items"

definition holds :: "bytes list \<Rightarrow> CountingBloomFilter \<Rightarrow> bool" where
  "holds items cbf \<longleftrightarrow> filter_ok cbf
     \<and> (\<forall>p < length (cbf_counters cbf). unat (cbf_counters cbf ! p) = min 255 (load (cbf_size cbf) (cbf_hashNum cbf) items p))"

lemma holds_new: "sz \<noteq> 0 \<Longrightarrow> holds [] (NewCountingBloomFilter sz k)"
  by (simp add: holds_def filter_ok_def NewCountingBloomFilter_def load_def)

lemma holds_Add:
  assumes "holds items cbf"
  shows "\<exists>cbf'. CBF_Add x cbf = Some cbf' \<and> holds (items @ [x]) cbf' \<and> cbf_size cbf' = cbf_size cbf \<and> cbf_hashNum cbf' = cbf_hashNum cbf"
  using assms by (auto simp: holds_def Add_positions bump_counters_nth inc8_unat filter_ok_def)

lemma count_load: "count_list items x \<le> load sz k items p" if "p \<in> set (positions sz k x)"
proof (induction items rule: rev_induct)
  case (snoc y items)
  have "1 \<le> count_list (positions sz k x) p" using that by (meson count_list_0_iff less_one not_le)
  with snoc show ?case by auto
qed (simp add: load_def)

lemma holds_GetCount:
  assumes "holds items cbf"
  shows "\<exists>c. CBF_GetCount cbf x = Some c \<and> min 255 (count_list items x) \<le> unat c"
proof -
  let ?b = "of_nat (min 255 (count_list items x)) :: 8 word"
  have u: "unat ?b = min 255 (count_list items x)" by (simp add: unat_of_nat)
  have "?b \<le> cbf_counters cbf ! p" if "p \<in> set (item_positions cbf x)" for p
  proof -
    have "p < length (cbf_counters cbf)" using that assms positions_less by (auto simp: holds_def filter_ok_def)
    then show ?thesis using assms count_load[OF that, of items] by (simp add: word_le_nat_alt u holds_def)
  qed
  moreover have "?b \<le> 255" by (simp add: word_le_nat_alt u)
  ultimately have "?b \<le> foldl (\<lambda>m p. min m (cbf_counters cbf ! p)) 255 (item_positions cbf x)" by (intro min_counters_ge) auto
  then show ?thesis using assms GetCount_positions u by (auto simp: holds_def word_le_nat_alt)
qed

lemma holds_Contains:
  assumes "holds items cbf" and "x \<in> set items"
  shows "CBF_Contains cbf x = Some True"
proof -
  have "1 \<le> count_list items x" using assms(2) by (meson count_list_0_iff less_one not_le)
  then have "cbf_counters cbf ! p \<noteq> 0" if "p \<in> set (item_positions cbf x)" for p
    using that assms(1) count_load[OF that, of items] positions_less[of "cbf_size cbf" p] by (auto simp: holds_def filter_ok_def dest!: spec[of _ p])
  with assms(1) Contains_positions show ?thesis by (auto simp: holds_def)
qed

lemma Remove_undoes_Add:
  assumes "holds items cbf" and "\<forall>p < unat (cbf_size cbf). load (cbf_size cbf) (cbf_hashNum cbf) (items @ [x]) p \<le> 255"
  shows "do { cbf \<leftarrow> CBF_Add x cbf; CBF_Remove x cbf } = Some cbf"
proof -
  let ?ps = "item_positions cbf x"
  have "foldl (bump_counter dec8) (foldl (bump_counter inc8) (cbf_counters cbf) ?ps) ?ps = cbf_counters cbf"
  proof (rule nth_equalityI)
    fix p
    assume "p < length (foldl (bump_counter dec8) (foldl (bump_counter inc8) (cbf_counters cbf) ?ps) ?ps)"
    then have p: "p < length (cbf_counters cbf)" by simp
    with assms have "unat (cbf_counters cbf ! p) + count_list ?ps p \<le> 255" by (auto simp: holds_def filter_ok_def)
    with p show "foldl (bump_counter dec8) (foldl (bump_counter inc8) (cbf_counters cbf) ?ps) ?ps ! p = cbf_counters cbf ! p"
      by (simp add: bump_counters_nth dec8_inc8)
  qed simp
  with assms(1) show ?thesis by (simp add: holds_def Add_positions Remove_positions filter_ok_def)
qed

text \<open>
  C32. The counting Bloom filter against the list of the items added to a new filter: no addition fails, each
  counter is the number of hits of its position, cut off at 255, every item added is contained, and the count of
  any item is at least the number of its additions, cut off at 255. While no counter would exceed 255,
  removing an item undoes its addition exactly.
\<close>

theorem filter_counts_additions:
  assumes "sz \<noteq> 0"
  shows "\<exists>cbf. CBF_adds items (NewCountingBloomFilter sz k) = Some cbf
    \<and> (\<forall>p < unat sz. unat (cbf_counters cbf ! p) = min 255 (load sz k items p))
    \<and> (\<forall>x \<in> set items. CBF_Contains cbf x = Some True)
    \<and> (\<forall>x. \<exists>c. CBF_GetCount cbf x = Some c \<and> min 255 (count_list items x) \<le> unat c)
    \<and> (\<forall>x. (\<forall>p < unat sz. load sz k (items @ [x]) p \<le> 255) \<longrightarrow> do { cbf' \<leftarrow> CBF_Add x cbf; CBF_Remove x cbf' } = Some cbf)"
proof -
  have "\<exists>cbf. CBF_adds items (NewCountingBloomFilter sz k) = Some cbf \<and> holds items cbf \<and> cbf_size cbf = sz \<and> cbf_hashNum cbf = k"
  proof (induction items rule: rev_induct)
    case Nil
    then show ?case using holds_new[OF assms] by (simp add: CBF_adds_def) (simp add: NewCountingBloomFilter_def)
  next
    case (snoc x items)
    then obtain cbf where "CBF_adds items (NewCountingBloomFilter sz k) = Some cbf" "holds items cbf" "cbf_size cbf = sz" "cbf_hashNum cbf = k" by blast
    with holds_Add[of items cbf x] show ?case by (auto simp: CBF_adds_def foldlM_append)
  qed
  then obtain cbf where c: "CBF_adds items (NewCountingBloomFilter sz k) = Some cbf" "holds items cbf" "cbf_size cbf = sz" "cbf_hashNum cbf = k" by blast
  then have "\<forall>p < unat sz. unat (cbf_counters cbf ! p) = min 255 (load sz k items p)" by (simp add: holds_def filter_ok_def)
  with c(1) holds_Contains[OF c(2)] holds_GetCount[OF c(2)] Remove_undoes_Add[OF c(2)] c(3,4) show ?thesis by blast
qed

text \<open>The filter of a node, with one transaction hash added twice.\<close>

theorem filter_counts_additions_witness:
  "\<exists>cbf c. CBF_adds [''h'', ''h''] (NewCountingBloomFilter 100000 4) = Some cbf \<and> CBF_Contains cbf ''h'' = Some True
     \<and> CBF_GetCount cbf ''h'' = Some c \<and> 2 \<le> unat c"
proof -
  have "(100000 :: u64) \<noteq> 0" by simp
  from filter_counts_additions[OF this, of "[''h'', ''h'']" 4] obtain cbf where
    c: "CBF_adds [''h'', ''h''] (NewCountingBloomFilter 100000 4) = Some cbf" "CBF_Contains cbf ''h'' = Some True"
    "\<forall>x. \<exists>c. CBF_GetCount cbf x = Some c \<and> min 255 (count_list [''h'', ''h''] x) \<le> unat c" by auto
  from c(3)[THEN spec, of "''h''"] c(1,2) show ?thesis by auto
qed

end
