(* ===== verification/Ex_Delay.thy ===== *)
theory Ex_Delay
  imports Sup_Measure
begin

text \<open>
  The delays of the ExClique consensus (\<^verbatim>\<open>consensus_shard/exclique/delay.go\<close>): a node that is not in turn may propose in the
  window from \<open>\<beta>\<close> to \<open>w\<close> after the last block, where \<open>\<beta>\<close> is estimated from the last measurements. Durations are nanoseconds.
  The random numbers of \<^verbatim>\<open>math/rand\<close> are arguments: \<open>rnd\<close> for \<^verbatim>\<open>Int63n\<close>, \<open>r\<close> for \<^verbatim>\<open>Float64\<close>.
\<close>

section \<open>The delay manager\<close>

record DelayManager =
  dm_beta :: int
  dm_waitWindow :: int
  dm_broadcastHist :: "int list"
  dm_verifyHist :: "int list"
  dm_historySize :: int

definition NewDelayManager :: "int \<Rightarrow> int \<Rightarrow> DelayManager" where
  "NewDelayManager initialBeta waitWindow =
     \<lparr>dm_beta = initialBeta, dm_waitWindow = waitWindow, dm_broadcastHist = [], dm_verifyHist = [], dm_historySize = 10\<rparr>"

definition go_average :: "int list \<Rightarrow> int option" where
  "go_average ds = go_quot (foldl (+) 0 ds) (int (length ds))"

definition updateBeta :: "DelayManager \<Rightarrow> DelayManager option" where
  "updateBeta dm =
     (if dm_broadcastHist dm = [] \<or> dm_verifyHist dm = [] then Some dm
      else do { avgBroadcast \<leftarrow> go_average (dm_broadcastHist dm);
                avgVerify \<leftarrow> go_average (dm_verifyHist dm);
                beta \<leftarrow> go_quot ((avgBroadcast + avgVerify) * 12) 10;
                Some (dm\<lparr>dm_beta := beta\<rparr>) })"

definition push_hist :: "int \<Rightarrow> int \<Rightarrow> int list \<Rightarrow> int list" where
  "push_hist historySize d hist = (let hist = hist @ [d] in if int (length hist) > historySize then tl hist else hist)"

definition RecordBroadcastTime :: "int \<Rightarrow> DelayManager \<Rightarrow> DelayManager option" where
  "RecordBroadcastTime d dm = updateBeta (dm\<lparr>dm_broadcastHist := push_hist (dm_historySize dm) d (dm_broadcastHist dm)\<rparr>)"

definition RecordVerifyTime :: "int \<Rightarrow> DelayManager \<Rightarrow> DelayManager option" where
  "RecordVerifyTime d dm = updateBeta (dm\<lparr>dm_verifyHist := push_hist (dm_historySize dm) d (dm_verifyHist dm)\<rparr>)"

definition GetRandomDelay :: "(int \<Rightarrow> int) \<Rightarrow> DelayManager \<Rightarrow> int" where
  "GetRandomDelay rnd dm =
     (if dm_waitWindow dm \<le> dm_beta dm then dm_beta dm
      else dm_beta dm + rnd (dm_waitWindow dm - dm_beta dm))"

definition GetBeta :: "DelayManager \<Rightarrow> int" where
  "GetBeta dm = dm_beta dm"

definition GetWaitWindow :: "DelayManager \<Rightarrow> int" where
  "GetWaitWindow dm = dm_waitWindow dm"

definition SetWaitWindow :: "int \<Rightarrow> DelayManager \<Rightarrow> DelayManager" where
  "SetWaitWindow w dm = dm\<lparr>dm_waitWindow := w\<rparr>"

definition ShouldPropose :: "f64 \<Rightarrow> int \<Rightarrow> DelayManager \<Rightarrow> bool" where
  "ShouldPropose r timeSinceLastBlock dm =
     (if timeSinceLastBlock < dm_beta dm then False
      else if timeSinceLastBlock \<ge> dm_waitWindow dm then False
      else r < (float64 (timeSinceLastBlock - dm_beta dm) / float64 (dm_waitWindow dm - dm_beta dm)))"

text \<open>The values of \<^verbatim>\<open>GetStats\<close>, in the order of its keys; an empty history has the average 0.\<close>

record delay_stats =
  ds_beta :: int
  ds_waitWindow :: int
  ds_avgBroadcast :: int
  ds_avgVerify :: int
  ds_historySize :: int

definition GetStats :: "DelayManager \<Rightarrow> delay_stats option" where
  "GetStats dm =
     do { avgBroadcast \<leftarrow> (if dm_broadcastHist dm \<noteq> [] then go_average (dm_broadcastHist dm) else Some 0);
          avgVerify \<leftarrow> (if dm_verifyHist dm \<noteq> [] then go_average (dm_verifyHist dm) else Some 0);
          Some \<lparr>ds_beta = go_Milliseconds (dm_beta dm), ds_waitWindow = go_Milliseconds (dm_waitWindow dm),
                ds_avgBroadcast = go_Milliseconds avgBroadcast, ds_avgVerify = go_Milliseconds avgVerify,
                ds_historySize = int (length (dm_broadcastHist dm))\<rparr> }"

section \<open>The estimate\<close>

text \<open>The measurements of a run of the manager.\<close>

datatype delay_event = Broadcast int | Verify int

fun delay_exec :: "DelayManager \<Rightarrow> delay_event \<Rightarrow> DelayManager option" where
  "delay_exec dm (Broadcast d) = RecordBroadcastTime d dm"
| "delay_exec dm (Verify d) = RecordVerifyTime d dm"

fun measured :: "delay_event \<Rightarrow> int" where
  "measured (Broadcast d) = d"
| "measured (Verify d) = d"

text \<open>The last measurements of a kind, at most ten.\<close>

definition last_of :: "nat \<Rightarrow> 'a list \<Rightarrow> 'a list" where
  "last_of n xs = drop (length xs - n) xs"

definition broadcasts :: "delay_event list \<Rightarrow> int list" where
  "broadcasts evs = List.map_filter (\<lambda>ev. case ev of Broadcast d \<Rightarrow> Some d | Verify d \<Rightarrow> None) evs"

definition verifies :: "delay_event list \<Rightarrow> int list" where
  "verifies evs = List.map_filter (\<lambda>ev. case ev of Broadcast d \<Rightarrow> None | Verify d \<Rightarrow> Some d) evs"

definition estimate :: "int \<Rightarrow> delay_event list \<Rightarrow> int" where
  "estimate b0 evs =
     (let bs = last_of 10 (broadcasts evs); vs = last_of 10 (verifies evs)
      in if bs = [] \<or> vs = [] then b0 else (sum_list bs div int (length bs) + sum_list vs div int (length vs)) * 12 div 10)"

lemma last_of_snoc: "0 < n \<Longrightarrow> last_of n (xs @ [x]) = (let ys = last_of n xs @ [x] in if length ys > n then tl ys else ys)"
proof (cases "length xs < n")
  case False
  then have "length (last_of n xs) = n" "Suc (length xs) - n = Suc (length xs - n)" by (auto simp: last_of_def)
  moreover assume "0 < n"
  ultimately show ?thesis using False
    by (auto simp: last_of_def Let_def tl_append drop_Suc tl_drop[symmetric] split: list.splits)
qed (simp add: last_of_def Let_def)

lemma push_hist_last_of: "push_hist 10 d (last_of 10 xs) = last_of 10 (xs @ [d])"
  by (simp add: push_hist_def last_of_snoc Let_def)

lemma go_average_nonneg:
  assumes "\<forall>d \<in> set ds. 0 \<le> d" and "ds \<noteq> []"
  shows "go_average ds = Some (sum_list ds div int (length ds))" "0 \<le> sum_list ds div int (length ds)"
proof -
  have "0 \<le> sum_list ds" using assms(1) by (simp add: sum_list_nonneg)
  moreover have "foldl (+) 0 ds = sum_list ds" by (simp add: fold_plus_sum_list_rev foldl_conv_fold add.commute)
  ultimately show "go_average ds = Some (sum_list ds div int (length ds))" "0 \<le> sum_list ds div int (length ds)"
    using assms(2) by (simp_all add: go_average_def go_quot_nonneg pos_imp_zdiv_nonneg_iff)
qed

definition delay_ok :: "int \<Rightarrow> int \<Rightarrow> delay_event list \<Rightarrow> DelayManager \<Rightarrow> bool" where
  "delay_ok b0 w evs dm \<longleftrightarrow> dm = \<lparr>dm_beta = estimate b0 evs, dm_waitWindow = w, dm_broadcastHist = last_of 10 (broadcasts evs),
     dm_verifyHist = last_of 10 (verifies evs), dm_historySize = 10\<rparr>"

lemma set_last_of: "set (last_of n xs) \<subseteq> set xs"
  by (auto simp: last_of_def dest: in_set_dropD)

lemma estimate_ok:
  assumes "\<forall>ev \<in> set evs. 0 \<le> measured ev" and "0 \<le> b0"
  shows "0 \<le> estimate b0 evs"
    and "updateBeta \<lparr>dm_beta = estimate b0 evs', dm_waitWindow = w, dm_broadcastHist = last_of 10 (broadcasts evs),
      dm_verifyHist = last_of 10 (verifies evs), dm_historySize = 10\<rparr>
     = Some \<lparr>dm_beta = (if last_of 10 (broadcasts evs) = [] \<or> last_of 10 (verifies evs) = [] then estimate b0 evs' else estimate b0 evs),
      dm_waitWindow = w, dm_broadcastHist = last_of 10 (broadcasts evs), dm_verifyHist = last_of 10 (verifies evs), dm_historySize = 10\<rparr>"
proof -
  have "set (broadcasts evs) \<subseteq> measured ` set evs" "set (verifies evs) \<subseteq> measured ` set evs"
    by (force simp: broadcasts_def verifies_def List.map_filter_def split: delay_event.splits)+
  with assms(1) set_last_of[of 10 "broadcasts evs"] set_last_of[of 10 "verifies evs"]
  have nn: "\<forall>d \<in> set (last_of 10 (broadcasts evs)). 0 \<le> d" "\<forall>d \<in> set (last_of 10 (verifies evs)). 0 \<le> d" by blast+
  show "0 \<le> estimate b0 evs"
    using assms(2) go_average_nonneg(2)[OF nn(1)] go_average_nonneg(2)[OF nn(2)] by (auto simp: estimate_def Let_def)
  show "updateBeta \<lparr>dm_beta = estimate b0 evs', dm_waitWindow = w, dm_broadcastHist = last_of 10 (broadcasts evs),
      dm_verifyHist = last_of 10 (verifies evs), dm_historySize = 10\<rparr>
     = Some \<lparr>dm_beta = (if last_of 10 (broadcasts evs) = [] \<or> last_of 10 (verifies evs) = [] then estimate b0 evs' else estimate b0 evs),
      dm_waitWindow = w, dm_broadcastHist = last_of 10 (broadcasts evs), dm_verifyHist = last_of 10 (verifies evs), dm_historySize = 10\<rparr>"
    using go_average_nonneg[OF nn(1)] go_average_nonneg[OF nn(2)]
    by (auto simp: updateBeta_def estimate_def Let_def go_quot_nonneg)
qed

lemma last_of_empty: "0 < n \<Longrightarrow> last_of n xs = [] \<longleftrightarrow> xs = []"
  by (cases xs) (auto simp: last_of_def)

lemma delay_step:
  assumes "delay_ok b0 w evs dm" and "\<forall>ev \<in> set (evs @ [e]). 0 \<le> measured ev" and "0 \<le> b0"
  shows "\<exists>dm'. delay_exec dm e = Some dm' \<and> delay_ok b0 w (evs @ [e]) dm'"
proof -
  have split: "broadcasts (evs @ [Broadcast d]) = broadcasts evs @ [d]" "verifies (evs @ [Broadcast d]) = verifies evs"
    "broadcasts (evs @ [Verify d]) = broadcasts evs" "verifies (evs @ [Verify d]) = verifies evs @ [d]" for d
    by (simp_all add: broadcasts_def verifies_def List.map_filter_def)
  note up = estimate_ok(2)[OF assms(2,3), of evs w]
  show ?thesis
  proof (cases e)
    case (Broadcast d)
    have "estimate b0 evs = estimate b0 (evs @ [e])" if "last_of 10 (verifies evs) = []"
      using that by (simp add: estimate_def Broadcast split)
    with up assms(1) show ?thesis
      by (auto simp: delay_ok_def Broadcast split RecordBroadcastTime_def push_hist_last_of last_of_empty)
  next
    case (Verify d)
    have "estimate b0 evs = estimate b0 (evs @ [e])" if "last_of 10 (broadcasts evs) = []"
      using that by (simp add: estimate_def Verify split)
    with up assms(1) show ?thesis
      by (auto simp: delay_ok_def Verify split RecordVerifyTime_def push_hist_last_of last_of_empty)
  qed
qed

lemma less_zero_divide: "r < float64 0 / x \<Longrightarrow> r < f64_zero"
  by (cases r; cases x) (auto simp: float64_def round64_def f64_zero_def)



end
