(* ===== verification/Ex_Order.thy ===== *)
theory Ex_Order
  imports Model_Env Go_Slice Go_Float "HOL-Library.AList"
begin

text \<open>
  The order of the validators in the ExClique consensus (\<^verbatim>\<open>consensus_shard/exclique/order.go\<close>): within an epoch of as many
  heights as there are validators each is in turn once; the next epoch orders them by their fairness
  scores, and by a hash where the scores are equal. Two validators with the same hash in an epoch would be a collision of SHA-256; their order
  is then not determined by the code, and the model takes the one of its own sort.
\<close>

section \<open>The order manager\<close>

record OrderManager =
  om_validators :: "u64 list"
  om_baseOrder :: "u64 list"
  om_currentEpoch :: u64
  om_fairnessScore :: "(u64 \<times> int) list"

definition NewOrderManager :: "u64 list \<Rightarrow> OrderManager" where
  "NewOrderManager validators =
     \<lparr>om_validators = validators, om_baseOrder = validators, om_currentEpoch = 0,
      om_fairnessScore = foldl (\<lambda>m v. AList.update v 0 m) [] validators\<rparr>"

text \<open>\<^verbatim>\<open>binary.BigEndian.PutUint64\<close> and \<^verbatim>\<open>big.Int.SetBytes\<close>\<close>

definition put_uint64 :: "u64 \<Rightarrow> bytes" where
  "put_uint64 v = map (\<lambda>i. char_of (unat (drop_bit (8 * i) v))) [7, 6, 5, 4, 3, 2, 1, 0]"

definition set_bytes :: "bytes \<Rightarrow> nat" where
  "set_bytes bs = foldl (\<lambda>n c. 256 * n + of_char c) 0 bs"

definition hashValidator :: "('bs, 'e) core_env_scheme \<Rightarrow> u64 \<Rightarrow> u64 \<Rightarrow> nat" where
  "hashValidator E validatorID epoch = set_bytes (sha256_Sum256 E (put_uint64 validatorID @ put_uint64 epoch))"

text \<open>A missing key of a Go map reads as 0.\<close>

definition GetFairnessScore :: "OrderManager \<Rightarrow> u64 \<Rightarrow> int" where
  "GetFairnessScore om v = (case map_of (om_fairnessScore om) v of None \<Rightarrow> 0 | Some s \<Rightarrow> s)"

definition order_less :: "('bs, 'e) core_env_scheme \<Rightarrow> OrderManager \<Rightarrow> u64 \<Rightarrow> u64 \<Rightarrow> u64 \<Rightarrow> bool" where
  "order_less E om epoch a b =
     (if GetFairnessScore om a \<noteq> GetFairnessScore om b then GetFairnessScore om a < GetFairnessScore om b
      else hashValidator E a epoch < hashValidator E b epoch)"

definition updateOrderForEpoch :: "('bs, 'e) core_env_scheme \<Rightarrow> u64 \<Rightarrow> OrderManager \<Rightarrow> OrderManager" where
  "updateOrderForEpoch E epoch om = om\<lparr>om_baseOrder := sort_by (order_less E om epoch) (om_validators om)\<rparr>"

text \<open>Without validators the epoch is a division by zero.\<close>

definition GetOrderForHeight :: "('bs, 'e) core_env_scheme \<Rightarrow> u64 \<Rightarrow> OrderManager \<Rightarrow> (u64 list \<times> OrderManager) option" where
  "GetOrderForHeight E blockHeight om =
     (let n = of_nat (length (om_validators om)) :: u64
      in if n = 0 then None
         else let epoch = blockHeight div n;
                  om = (if epoch \<noteq> om_currentEpoch om then (updateOrderForEpoch E epoch om)\<lparr>om_currentEpoch := epoch\<rparr> else om)
              in Some (om_baseOrder om, om))"

definition GetInTurnValidator :: "('bs, 'e) core_env_scheme \<Rightarrow> u64 \<Rightarrow> OrderManager \<Rightarrow> (u64 \<times> OrderManager) option" where
  "GetInTurnValidator E blockHeight om =
     do { (order, om) \<leftarrow> GetOrderForHeight E blockHeight om;
          let n = (of_nat (length order) :: u64);
          if n = 0 then None
          else map_option (\<lambda>v. (v, om)) (slice_get order (uint (blockHeight mod n))) }"

definition RecordBlock :: "u64 \<Rightarrow> bool \<Rightarrow> OrderManager \<Rightarrow> OrderManager" where
  "RecordBlock v wasInTurn om =
     om\<lparr>om_fairnessScore := AList.update v (GetFairnessScore om v + (if wasInTurn then 1 else - 1)) (om_fairnessScore om)\<rparr>"

definition GetAllScores :: "OrderManager \<Rightarrow> (u64 \<times> int) list" where
  "GetAllScores om = om_fairnessScore om"

definition ResetScores :: "OrderManager \<Rightarrow> OrderManager" where
  "ResetScores om = om\<lparr>om_fairnessScore := map (\<lambda>(k, _). (k, 0)) (om_fairnessScore om)\<rparr>"

text \<open>The counts are the values of a map, in any order.\<close>

definition CalculateGiniCoefficient :: "int list \<Rightarrow> f64" where
  "CalculateGiniCoefficient blockCounts =
     (if blockCounts = [] then f64_zero
      else let counts = sort blockCounts; n = int (length counts); total = foldl (+) 0 counts;
               weightedSum = foldl (\<lambda>w (i, c). w + (int i + 1) * c) 0 (enumerate 0 counts)
           in if total = 0 then f64_zero
              else float64 (2 * weightedSum) / float64 (n * total) - float64 (n + 1) / float64 n)"

section \<open>Turns\<close>

text \<open>Calls of the manager: asking who is in turn, and recording a block.\<close>

datatype order_event = InTurn u64 | Recorded u64 bool

fun order_exec :: "('bs, 'e) core_env_scheme \<Rightarrow> u64 list \<times> OrderManager \<Rightarrow> order_event \<Rightarrow> (u64 list \<times> OrderManager) option" where
  "order_exec E (turns, om) (InTurn h) = map_option (\<lambda>(v, om). (turns @ [v], om)) (GetInTurnValidator E h om)"
| "order_exec E (turns, om) (Recorded v wasInTurn) = Some (turns, RecordBlock v wasInTurn om)"

definition heights :: "order_event list \<Rightarrow> u64 list" where
  "heights evs = List.map_filter (\<lambda>ev. case ev of InTurn h \<Rightarrow> Some h | Recorded v b \<Rightarrow> None) evs"

definition order_ok :: "u64 list \<Rightarrow> OrderManager \<Rightarrow> bool" where
  "order_ok vs om \<longleftrightarrow> om_validators om = vs \<and> mset (om_baseOrder om) = mset vs"

lemma order_ok_new: "order_ok vs (NewOrderManager vs)"
  by (simp add: order_ok_def NewOrderManager_def)

lemma order_ok_record: "order_ok vs om \<Longrightarrow> order_ok vs (RecordBlock v b om)"
  by (simp add: order_ok_def RecordBlock_def)

lemma small_u64: "x < 2 ^ 64 \<Longrightarrow> unat (of_nat x :: u64) = x"
  by (simp add: unat_of_nat)

text \<open>A query in epoch \<open>e\<close>.\<close>

lemma GetInTurnValidator_at:
  assumes ok: "order_ok vs om" and n: "length vs = n" "i < n" "(e + 1) * n < 2 ^ 64"
  shows "\<exists>om'. GetInTurnValidator E (of_nat (e * n + i)) om = Some (om_baseOrder om' ! i, om') \<and> order_ok vs om'
    \<and> om_currentEpoch om' = of_nat e \<and> (om_currentEpoch om = of_nat e \<longrightarrow> om' = om)"
proof -
  let ?h = "of_nat (e * n + i) :: u64" and ?n = "of_nat n :: u64"
  have "(e + 1) * 1 \<le> (e + 1) * n" using n(2) by (intro mult_le_mono2) simp
  then have "e * n + i < (e + 1) * n" "n \<le> (e + 1) * n" "e + 1 \<le> (e + 1) * n" using n(2) by simp_all
  with n(3) have u: "unat ?h = e * n + i" "unat ?n = n" "unat (of_nat e :: u64) = e" by (intro small_u64; linarith)+
  have n0: "?n \<noteq> 0" using u(2) n(2) by auto
  have d: "?h div ?n = of_nat e" using n(2) by (simp add: word_unat_eq_iff unat_div_distrib u del: of_nat_add of_nat_mult)
  have "unat (?h mod ?n) = i" using n(2) by (simp add: unat_mod_distrib u del: of_nat_add of_nat_mult)
  then have m: "uint (?h mod ?n) = int i" by (simp add: uint_nat del: of_nat_add of_nat_mult)
  define om' where "om' = (if of_nat e \<noteq> om_currentEpoch om then (updateOrderForEpoch E (of_nat e) om)\<lparr>om_currentEpoch := of_nat e\<rparr> else om)"
  have ok': "order_ok vs om'" using ok by (simp add: om'_def order_ok_def updateOrderForEpoch_def)
  then have len: "length (om_baseOrder om') = n" using n(1) by (metis order_ok_def size_mset)
  have "GetOrderForHeight E ?h om = Some (om_baseOrder om', om')"
    using ok n(1) n0 d by (simp add: GetOrderForHeight_def order_ok_def om'_def Let_def del: of_nat_add of_nat_mult)
  then have "GetInTurnValidator E ?h om = Some (om_baseOrder om' ! i, om')"
    using n0 m n(2) len by (simp add: GetInTurnValidator_def del: of_nat_add of_nat_mult)
  with ok' show ?thesis by (auto simp: om'_def)
qed

lemma order_exec_ok:
  assumes "order_exec E (ts, om) ev = Some (ts', om')" and "order_ok vs om"
  shows "order_ok vs om'"
proof (cases ev)
  case (InTurn h)
  with assms show ?thesis
    by (auto simp: GetInTurnValidator_def GetOrderForHeight_def Let_def order_ok_def updateOrderForEpoch_def bind_eq_Some_conv split: if_splits)
next
  case (Recorded v b)
  with assms order_ok_record show ?thesis by auto
qed

text \<open>From the \<open>k\<close>-th height of an epoch on, with the order already made for it.\<close>

lemma turns_from:
  assumes "order_ok vs om" and "length vs = n" "k \<le> n" "(e + 1) * n < 2 ^ 64"
    and "heights evs = map (\<lambda>i. of_nat (e * n + i)) [k..<n]" and "om_currentEpoch om = of_nat e"
  shows "\<exists>om'. foldlM (order_exec E) (ts, om) evs = Some (ts @ map ((!) (om_baseOrder om)) [k..<n], om')"
  using assms(1,3,5,6)
proof (induction evs arbitrary: ts om k)
  case Nil
  then show ?case by (simp add: heights_def List.map_filter_def)
next
  case (Cons ev evs)
  show ?case
  proof (cases ev)
    case (InTurn h)
    with Cons.prems(3) have kn: "k < n" "h = of_nat (e * n + k)" "heights evs = map (\<lambda>i. of_nat (e * n + i)) [Suc k..<n]"
      by (auto simp: heights_def List.map_filter_def upt_rec[of k n] split: if_splits)
    from GetInTurnValidator_at[OF Cons.prems(1) assms(2) kn(1) assms(4), of E] Cons.prems(4)
    have "order_exec E (ts, om) ev = Some (ts @ [om_baseOrder om ! k], om)" by (auto simp: InTurn kn(2) simp del: of_nat_add of_nat_mult)
    with Cons.IH[of om "Suc k" "ts @ [om_baseOrder om ! k]"] Cons.prems kn show ?thesis by (simp add: upt_rec[of k n])
  next
    case (Recorded v b)
    with Cons.prems(3) have "heights evs = map (\<lambda>i. of_nat (e * n + i)) [k..<n]" by (simp add: heights_def List.map_filter_def)
    with Cons.IH[OF order_ok_record[OF Cons.prems(1), of v b] Cons.prems(2)] Cons.prems(4) Recorded show ?thesis by (simp add: RecordBlock_def)
  qed
qed

lemma map_nth_mset: "length xs = n \<Longrightarrow> mset (map ((!) xs) [0..<n]) = mset xs"
  by (metis map_nth)

text \<open>
  C31. Within an epoch every validator is in turn exactly once. For a manager in any state that queries and
  records have led to, asking for the heights of an epoch one after another, with blocks recorded
  in between at will, answers with the validators in some order, each once.
\<close>

theorem in_turn_once_per_epoch:
  assumes "foldlM (order_exec E) ([], NewOrderManager vs) before = Some (ts, om)" and "vs \<noteq> []"
    and "(e + 1) * length vs < 2 ^ 64" and "heights evs = map (\<lambda>i. of_nat (e * length vs + i)) [0..<length vs]"
  shows "\<exists>turns om'. foldlM (order_exec E) (ts, om) evs = Some (ts @ turns, om') \<and> mset turns = mset vs"
proof -
  have "(\<lambda>(ts, om). order_ok vs om) (ts, om)"
    using assms(1) by (rule foldlM_invariant) (use order_ok_new order_exec_ok in \<open>auto split: prod.splits\<close>)
  then have ok: "order_ok vs om" by simp
  from assms(2,4) obtain pre h rest where evs: "evs = pre @ InTurn h # rest" "heights pre = []" "h = of_nat (e * length vs)"
    "heights rest = map (\<lambda>i. of_nat (e * length vs + i)) [Suc 0..<length vs]"
  proof (induction evs arbitrary: thesis)
    case Nil
    then show ?case by (simp add: heights_def List.map_filter_def)
  next
    case (Cons ev evs)
    show ?case
    proof (cases ev)
      case (InTurn h)
      with Cons.prems(2,3) show ?thesis
        by (intro Cons.prems(1)[of "[]" h evs]) (auto simp: heights_def List.map_filter_def upt_rec[of 0 "length vs"])
    next
      case (Recorded v b)
      then have "heights (ev # evs) = heights evs" by (simp add: heights_def List.map_filter_def)
      with Cons.IH Cons.prems(2,3) obtain pre h rest where "evs = pre @ InTurn h # rest" "heights pre = []" "h = of_nat (e * length vs)"
        "heights rest = map (\<lambda>i. of_nat (e * length vs + i)) [Suc 0..<length vs]" by auto
      with Recorded show ?thesis by (intro Cons.prems(1)[of "ev # pre" h rest]) (simp_all add: heights_def List.map_filter_def)
    qed
  qed
  have "\<exists>om1. foldlM (order_exec E) (ts, om) pre = Some (ts, om1) \<and> order_ok vs om1"
    using evs(2) ok
  proof (induction pre arbitrary: om)
    case (Cons ev pre)
    then show ?case by (cases ev) (auto simp: heights_def List.map_filter_def order_ok_record)
  qed simp
  then obtain om1 where om1: "foldlM (order_exec E) (ts, om) pre = Some (ts, om1)" "order_ok vs om1" by blast
  from GetInTurnValidator_at[OF om1(2) refl _ assms(3), of 0 E] assms(2) obtain om2 where
    om2: "GetInTurnValidator E (of_nat (e * length vs)) om1 = Some (om_baseOrder om2 ! 0, om2)" "order_ok vs om2" "om_currentEpoch om2 = of_nat e"
    by (auto simp del: of_nat_mult)
  have l: "length (om_baseOrder om2) = length vs" using om2(2) by (metis order_ok_def size_mset)
  from turns_from[OF om2(2) refl _ assms(3) evs(4) om2(3), of E "ts @ [om_baseOrder om2 ! 0]"] assms(2) obtain om3 where
    "foldlM (order_exec E) (ts @ [om_baseOrder om2 ! 0], om2) rest = Some (ts @ map ((!) (om_baseOrder om2)) [0..<length vs], om3)"
    by (auto simp: Suc_le_eq upt_rec[of 0 "length vs"])
  then have "foldlM (order_exec E) (ts, om) evs = Some (ts @ map ((!) (om_baseOrder om2)) [0..<length vs], om3)"
    by (simp add: evs(1,3) foldlM_append om1(1) om2(1) del: of_nat_mult)
  moreover have "mset (map ((!) (om_baseOrder om2)) [0..<length vs]) = mset vs"
    using map_nth_mset[OF l] om2(2) by (simp add: order_ok_def)
  ultimately show ?thesis by blast
qed

text \<open>Two validators, epoch 1, with a block recorded between the two heights.\<close>

theorem in_turn_once_per_epoch_witness:
  "\<exists>turns om. foldlM (order_exec demo_env) ([], NewOrderManager [0, 1]) [InTurn 2, Recorded 0 True, InTurn 3] = Some (turns, om)
     \<and> mset turns = {#0, 1#}"
proof -
  have h: "heights [InTurn 2, Recorded 0 True, InTurn 3] = map (\<lambda>i. of_nat (1 * length [0, 1 :: u64] + i)) [0..<length [0, 1 :: u64]]"
    by (simp add: heights_def List.map_filter_def)
  have "foldlM (order_exec demo_env) ([], NewOrderManager [0, 1]) [] = Some ([], NewOrderManager [0, 1])" "[0, 1 :: u64] \<noteq> []"
    "(1 + 1) * length [0, 1 :: u64] < 2 ^ 64" by simp_all
  from in_turn_once_per_epoch[OF this h] show ?thesis by auto
qed

text \<open>
  The nodes of a shard need not agree on who is in turn. The scores that decide the order of the next epoch count the blocks a node
  proposed itself, never the blocks it received. With two validators, after block 1 of validator 1 the two
  managers put, at height 2, each the other node in turn, whenever the hash puts validator 1 first in epoch 1: no
  node proposes as the validator in turn.
\<close>

theorem in_turn_disagreement:
  assumes "hashValidator E 1 1 < hashValidator E 0 1"
  shows "\<exists>om0 om1. foldlM (order_exec E) ([], NewOrderManager [0, 1]) [InTurn 1, InTurn 2] = Some ([1, 1], om0)
    \<and> foldlM (order_exec E) ([], NewOrderManager [0, 1]) [InTurn 1, Recorded 1 True, InTurn 2] = Some ([1, 0], om1)"
proof -
  let ?om = "NewOrderManager [0, 1]"
  have div: "(1 :: u64) div 2 = 0" "(1 :: u64) mod 2 = 1" "(2 :: u64) div 2 = 1" "(2 :: u64) mod 2 = 0" by simp_all
  have om: "om_validators ?om = [0, 1]" "om_baseOrder ?om = [0, 1]" "om_currentEpoch ?om = 0" "om_fairnessScore ?om = [(0, 0), (1, 0)]"
    by (simp_all add: NewOrderManager_def)
  have 1: "GetInTurnValidator E 1 ?om = Some (1, ?om)"
    by (simp add: GetInTurnValidator_def GetOrderForHeight_def om div)
  have 2: "\<exists>om0. GetInTurnValidator E 2 ?om = Some (1, om0)"
    using assms by (simp add: GetInTurnValidator_def GetOrderForHeight_def om div updateOrderForEpoch_def sort_by_def order_less_def GetFairnessScore_def)
  have 3: "\<exists>om1. GetInTurnValidator E 2 (RecordBlock 1 True ?om) = Some (0, om1)"
    by (simp add: GetInTurnValidator_def GetOrderForHeight_def om div updateOrderForEpoch_def sort_by_def order_less_def GetFairnessScore_def RecordBlock_def)
  from 1 2 3 show ?thesis by auto
qed

definition demo_hash_env where
  "demo_hash_env = demo_env\<lparr>sha256_Sum256 := (\<lambda>b. if b = put_uint64 1 @ put_uint64 1 then [CHR 0x00] else [CHR 0x01])\<rparr>"

theorem in_turn_disagreement_witness:
  "\<exists>om0 om1. foldlM (order_exec demo_hash_env) ([], NewOrderManager [0, 1]) [InTurn 1, InTurn 2] = Some ([1, 1], om0)
    \<and> foldlM (order_exec demo_hash_env) ([], NewOrderManager [0, 1]) [InTurn 1, Recorded 1 True, InTurn 2] = Some ([1, 0], om1)"
proof (rule in_turn_disagreement)
  show "hashValidator demo_hash_env 1 1 < hashValidator demo_hash_env 0 1"
    by (simp add: hashValidator_def demo_hash_env_def put_uint64_def set_bytes_def)
qed

end
