(* ===== verification/Ex_Node.thy ===== *)
theory Ex_Node
  imports Chain_Props Wire_Message Ex_Filter Ex_Delay Ex_Order
begin

text \<open>
  A node of the ExClique consensus (\<^verbatim>\<open>consensus_shard/exclique/exclique.go\<close>, \<^verbatim>\<open>pcb.go\<close>, \<^verbatim>\<open>message_handler.go\<close>). It proposes a block when it is in
  turn or, with a growing probability, in the window of the delay manager; blocks travel as compact blocks.
  \<^verbatim>\<open>broadcastBlockWithPCB\<close> starts a goroutine per peer, which reads the Bloom filter while the node goes on: the
  goroutines that have not sent are part of the state, and so are the versions of the filter; a goroutine
  may see, in each of its reads, any version since its start. Clock readings and random numbers are arguments. The unused \<^verbatim>\<open>inTurnIndex\<close>, \<^verbatim>\<open>rng\<close> and log output are left out.
\<close>

section \<open>Compact blocks\<close>

text \<open>The header is a pointer and may be nil.\<close>

record 'bs CompactBlock =
  cpb_Header :: "'bs BlockHeader option"
  cpb_TxHashes :: "bytes list"
  cpb_MissingTxs :: "Transaction list"
  cpb_CBF :: "8 word list"
  cpb_SenderNodeID :: u64
  cpb_ShardID :: u64

definition EncodeCompactBlock :: "('bs CompactBlock \<Rightarrow> bytes) \<Rightarrow> 'bs CompactBlock \<Rightarrow> bytes option" where
  "EncodeCompactBlock gob cb = (if cpb_Header cb = None then None else Some (gob cb))"

definition DecodeCompactBlock :: "(bytes \<Rightarrow> 'bs CompactBlock option) \<Rightarrow> bytes \<Rightarrow> 'bs CompactBlock option" where
  "DecodeCompactBlock ungob data =
     (if data = [] then None
      else do { cb \<leftarrow> ungob data; if cpb_Header cb = None then None else Some cb })"

section \<open>The node\<close>

text \<open>\<open>ex_closed\<close> says whether the channel \<^verbatim>\<open>pStop\<close> is closed, \<open>ex_running\<close> whether the consensus loop runs, \<open>ex_versions\<close> holds all versions of the filter so far, and \<open>ex_senders\<close> the pending goroutines with the number of versions before the one they started with.\<close>

record ('bs, 'bo, 'td) ExCliqueNode =
  ex_ShardID :: u64
  ex_NodeID :: u64
  ex_IPaddr :: bytes
  ex_CurChain :: "('bs, 'bo, 'td) BlockChain"
  ex_nodeNums :: u64
  ex_blockInterval :: int
  ex_lastBlockTime :: time
  ex_delayManager :: DelayManager
  ex_txPool :: "Transaction list"
  ex_cbf :: CountingBloomFilter
  ex_knownTxs :: "bytes list"
  ex_orderManager :: OrderManager
  ex_ip_nodeTable :: "u64 \<Rightarrow> u64 \<Rightarrow> bytes"
  ex_stopSignal :: bool
  ex_closed :: bool
  ex_broadcastTime :: int
  ex_verifyTime :: int
  ex_blockCount :: int
  ex_forkCount :: int
  ex_running :: bool
  ex_versions :: "CountingBloomFilter list"
  ex_senders :: "('bs Block \<times> bytes \<times> nat) list"

text \<open>\<open>db\<close> is the trie database on the LevelDB handle, if it can be opened, \<open>fp\<close> and \<open>opened\<close> the block database.\<close>

definition NewExCliqueNode ::
    "('bs, 'bo, 'tr, 'td, 'ns, 'e) chain_env_scheme \<Rightarrow> (u64 \<Rightarrow> u64 \<Rightarrow> bytes) \<Rightarrow> 'td option \<Rightarrow> bytes \<Rightarrow> 'bo option \<Rightarrow> time \<Rightarrow>
     u64 \<Rightarrow> u64 \<Rightarrow> ChainConfig \<Rightarrow> ('bs, 'bo, 'td) ExCliqueNode option" where
  "NewExCliqueNode E ips db fp opened now shardID nodeID pcc =
     do { td \<leftarrow> db;
          bc \<leftarrow> NewBlockChain E pcc fp td opened;
          let interval = sint (cc_BlockInterval pcc) * 1000000;
          Some \<lparr>ex_ShardID = shardID, ex_NodeID = nodeID, ex_IPaddr = ips shardID nodeID, ex_CurChain = bc,
                ex_nodeNums = cc_Nodes_perShard pcc, ex_blockInterval = interval, ex_lastBlockTime = now,
                ex_delayManager = NewDelayManager 50000000 interval, ex_txPool = [], ex_cbf = NewCountingBloomFilter 100000 4,
                ex_knownTxs = [], ex_orderManager = NewOrderManager (u64_range (cc_Nodes_perShard pcc)), ex_ip_nodeTable = ips,
                ex_stopSignal = False, ex_closed = False, ex_broadcastTime = 0, ex_verifyTime = 0, ex_blockCount = 0,
                ex_forkCount = 0, ex_running = True, ex_versions = [NewCountingBloomFilter 100000 4], ex_senders = []\<rparr> }"

section \<open>Blocks\<close>

text \<open>The header has no roots and the zero bit set.\<close>

definition ex_createBlock ::
    "('bs, 'bo, 'tr, 'td, 'ns, 'e) chain_env_scheme \<Rightarrow> time \<Rightarrow> Transaction list \<Rightarrow> ('bs, 'bo, 'td) ExCliqueNode \<Rightarrow> 'bs Block" where
  "ex_createBlock E now txs ec =
     (let prevBlock = bc_CurrentBlock (ex_CurChain ec);
          header = \<lparr>bh_ParentBlockHash = bk_Hash prevBlock, bh_StateRoot = [], bh_TxRoot = [], bh_Bloom = bs_New E 0,
                    bh_Number = bh_Number (bk_Header prevBlock) + 1, bh_Time = now, bh_Miner = to_int32 (uint (ex_NodeID ec))\<rparr>
      in (NewBlock header txs)\<lparr>bk_Hash := BH_Hash E header\<rparr>)"

definition ex_verifyBlock :: "'bs Block \<Rightarrow> ('bs, 'bo, 'td) ExCliqueNode \<Rightarrow> bool" where
  "ex_verifyBlock block ec =
     (let cur = bc_CurrentBlock (ex_CurChain ec)
      in if bh_Number (bk_Header block) \<noteq> bh_Number (bk_Header cur) + 1 then False
         else if bh_ParentBlockHash (bk_Header block) \<noteq> bk_Hash cur then False
         else True)"

definition learn_tx :: "Transaction \<Rightarrow> ('bs, 'bo, 'td) ExCliqueNode \<Rightarrow> ('bs, 'bo, 'td) ExCliqueNode option" where
  "learn_tx tx ec =
     map_option (\<lambda>cbf. ec\<lparr>ex_knownTxs := List.insert (tx_TxHash tx) (ex_knownTxs ec), ex_cbf := cbf, ex_versions := ex_versions ec @ [cbf]\<rparr>) (CBF_Add (tx_TxHash tx) (ex_cbf ec))"

text \<open>\<open>vd\<close> is the measured duration of the verification.\<close>

definition ex_addBlock ::
    "('bs, 'bo, 'tr, 'td, 'ns, 'e) chain_env_scheme \<Rightarrow> int \<Rightarrow> 'bs Block \<Rightarrow> ('bs, 'bo, 'td) ExCliqueNode \<Rightarrow> ('bs, 'bo, 'td) ExCliqueNode option" where
  "ex_addBlock E vd block ec =
     (if \<not> ex_verifyBlock block ec then Some (ec\<lparr>ex_forkCount := ex_forkCount ec + 1\<rparr>)
      else do { dm \<leftarrow> RecordVerifyTime vd (ex_delayManager ec);
                bc \<leftarrow> AddBlock E block (ex_CurChain ec);
                foldlM (\<lambda>ec tx. learn_tx tx ec) (ec\<lparr>ex_verifyTime := go_Milliseconds vd, ex_delayManager := dm, ex_CurChain := bc\<rparr>) (bk_Body block) })"

section \<open>Sending and receiving\<close>

definition broadcastBlockWithPCB :: "'bs Block \<Rightarrow> ('bs, 'bo, 'td) ExCliqueNode \<Rightarrow> ('bs, 'bo, 'td) ExCliqueNode" where
  "broadcastBlockWithPCB block ec =
     ec\<lparr>ex_senders := ex_senders ec @ map (\<lambda>nid. (block, ex_ip_nodeTable ec (ex_ShardID ec) nid, length (ex_versions ec) - 1))
          (filter (\<lambda>nid. nid \<noteq> ex_NodeID ec) (u64_range (ex_nodeNums ec)))\<rparr>"

text \<open>A transaction the filter counted more than once is sent as its hash. \<open>look k\<close> is the version of the filter that the \<open>k\<close>-th read sees.\<close>

definition peer_has :: "CountingBloomFilter \<Rightarrow> CountingBloomFilter \<Rightarrow> Transaction \<Rightarrow> bool option" where
  "peer_has cbf cbf' tx =
     do { c \<leftarrow> CBF_Contains cbf (tx_TxHash tx);
          if c then map_option (\<lambda>n. n > 1) (CBF_GetCount cbf' (tx_TxHash tx)) else Some False }"

definition classify :: "(nat \<Rightarrow> CountingBloomFilter) \<Rightarrow> 'bs CompactBlock \<Rightarrow> nat \<times> Transaction \<Rightarrow> 'bs CompactBlock option" where
  "classify look cb = (\<lambda>(i, tx).
     map_option (\<lambda>has. if has then cb\<lparr>cpb_TxHashes := cpb_TxHashes cb @ [tx_TxHash tx]\<rparr> else cb\<lparr>cpb_MissingTxs := cpb_MissingTxs cb @ [tx]\<rparr>)
       (peer_has (look (2 * i + 1)) (look (2 * i + 2)) tx))"

definition compactBlock :: "(nat \<Rightarrow> CountingBloomFilter) \<Rightarrow> 'bs Block \<Rightarrow> ('bs, 'bo, 'td) ExCliqueNode \<Rightarrow> 'bs CompactBlock option" where
  "compactBlock look block ec =
     foldlM (classify look)
       \<lparr>cpb_Header = Some (bk_Header block), cpb_TxHashes = [], cpb_MissingTxs = [], cpb_CBF = CBF_Encode (look 0),
        cpb_SenderNodeID = ex_NodeID ec, cpb_ShardID = ex_ShardID ec\<rparr> (enumerate 0 (bk_Body block))"

text \<open>The messages sent: the address and the bytes, before the final newline of the network layer.\<close>

definition sendCompactBlockToPeer ::
    "('bs CompactBlock \<Rightarrow> bytes) \<Rightarrow> (nat \<Rightarrow> CountingBloomFilter) \<Rightarrow> 'bs Block \<Rightarrow> bytes \<Rightarrow> ('bs, 'bo, 'td) ExCliqueNode \<Rightarrow> (bytes \<times> bytes) list option" where
  "sendCompactBlockToPeer gob look block peerAddr ec =
     do { cb \<leftarrow> compactBlock look block ec;
          (case EncodeCompactBlock gob cb of
             None \<Rightarrow> Some []
           | Some cbData \<Rightarrow> map_option (\<lambda>msg. [(peerAddr, msg)]) (MergeMessage ''ExCliqueBlock'' cbData)) }"

definition handleCompactBlock ::
    "('bs, 'bo, 'tr, 'td, 'ns, 'e) chain_env_scheme \<Rightarrow> int \<Rightarrow> 'bs CompactBlock \<Rightarrow> ('bs, 'bo, 'td) ExCliqueNode \<Rightarrow> ('bs, 'bo, 'td) ExCliqueNode option" where
  "handleCompactBlock E vd cb ec =
     (case cpb_Header cb of
        None \<Rightarrow> Some ec
      | Some header \<Rightarrow> ex_addBlock E vd ((NewBlock header (cpb_MissingTxs cb))\<lparr>bk_Hash := BH_Hash E header\<rparr>) ec)"

section \<open>Proposing\<close>

text \<open>What a tick measures: the time now, the random number, the durations of the broadcast and of the verification, and the time after both.\<close>

record tick =
  tk_now :: time
  tk_random :: f64
  tk_broadcast :: int
  tk_verify :: int
  tk_later :: time

definition block_txs :: "Params \<Rightarrow> Transaction list \<Rightarrow> Transaction list option" where
  "block_txs pr txPool =
     (let maxSize = pm_MaxBlockSize_global pr
      in if int (length txPool) > maxSize then if maxSize < 0 then None else Some (take (nat maxSize) txPool) else Some txPool)"

definition ex_proposeBlock ::
    "('bs, 'bo, 'tr, 'td, 'ns, 'e) chain_env_scheme \<Rightarrow> tick \<Rightarrow> bool \<Rightarrow> ('bs, 'bo, 'td) ExCliqueNode \<Rightarrow> ('bs, 'bo, 'td) ExCliqueNode option" where
  "ex_proposeBlock E tk isInTurn ec =
     (if ex_txPool ec = [] then Some ec
      else do { blockTxs \<leftarrow> block_txs (prm E) (ex_txPool ec);
                let block = ex_createBlock E (tk_now tk) blockTxs ec;
                let ec = broadcastBlockWithPCB block (ec\<lparr>ex_txPool := drop (length blockTxs) (ex_txPool ec)\<rparr>);
                dm \<leftarrow> RecordBroadcastTime (tk_broadcast tk) (ex_delayManager ec);
                ec \<leftarrow> ex_addBlock E (tk_verify tk) block (ec\<lparr>ex_broadcastTime := go_Milliseconds (tk_broadcast tk), ex_delayManager := dm\<rparr>);
                Some (ec\<lparr>ex_lastBlockTime := tk_later tk, ex_orderManager := RecordBlock (ex_NodeID ec) isInTurn (ex_orderManager ec),
                         ex_blockCount := ex_blockCount ec + 1\<rparr>) })"

definition tryProposeBlock ::
    "('bs, 'bo, 'tr, 'td, 'ns, 'e) chain_env_scheme \<Rightarrow> tick \<Rightarrow> ('bs, 'bo, 'td) ExCliqueNode \<Rightarrow> ('bs, 'bo, 'td) ExCliqueNode option" where
  "tryProposeBlock E tk ec =
     do { (inTurnValidator, om) \<leftarrow> GetInTurnValidator E (bh_Number (bk_Header (bc_CurrentBlock (ex_CurChain ec))) + 1) (ex_orderManager ec);
          let ec = ec\<lparr>ex_orderManager := om\<rparr>;
          let since = time_Sub (tk_now tk) (ex_lastBlockTime ec);
          if ex_NodeID ec = inTurnValidator
          then if since \<ge> ex_blockInterval ec then ex_proposeBlock E tk True ec else Some ec
          else if ShouldPropose (tk_random tk) since (ex_delayManager ec) then ex_proposeBlock E tk False ec else Some ec }"

section \<open>Messages\<close>

definition ex_handleInjectTxs ::
    "(bytes \<Rightarrow> InjectTxs option) \<Rightarrow> bytes \<Rightarrow> ('bs, 'bo, 'td) ExCliqueNode \<Rightarrow> ('bs, 'bo, 'td) ExCliqueNode option" where
  "ex_handleInjectTxs unjson content ec =
     (case unjson content of
        None \<Rightarrow> Some ec
      | Some injectMsg \<Rightarrow> foldlM (\<lambda>ec tx. learn_tx tx (ec\<lparr>ex_txPool := ex_txPool ec @ [tx]\<rparr>)) ec (ij_Txs injectMsg))"

text \<open>Closing the channel a second time panics.\<close>

definition ex_Stop :: "('bs, 'bo, 'td) ExCliqueNode \<Rightarrow> ('bs, 'bo, 'td) ExCliqueNode option" where
  "ex_Stop ec = (if ex_closed ec then None else Some (ec\<lparr>ex_stopSignal := True, ex_closed := True\<rparr>))"

text \<open>A message too short for a type is dropped, and so is one that cannot be decoded.\<close>

definition ex_handleMessage ::
    "('bs, 'bo, 'tr, 'td, 'ns, 'e) chain_env_scheme \<Rightarrow> (bytes \<Rightarrow> 'bs CompactBlock option) \<Rightarrow> (bytes \<Rightarrow> InjectTxs option) \<Rightarrow> int \<Rightarrow> bytes \<Rightarrow>
     ('bs, 'bo, 'td) ExCliqueNode \<Rightarrow> ('bs, 'bo, 'td) ExCliqueNode option" where
  "ex_handleMessage E ungob unjson vd data ec =
     (if length data < 30 then Some ec
      else do { (msgType, content) \<leftarrow> SplitMessage data;
                if msgType = ''ExCliqueBlock''
                then (case DecodeCompactBlock ungob content of None \<Rightarrow> Some ec | Some cb \<Rightarrow> handleCompactBlock E vd cb ec)
                else if msgType = ''inject'' then ex_handleInjectTxs unjson content ec
                else if msgType = ''stop'' then ex_Stop ec
                else Some ec })"

text \<open>
  \<^verbatim>\<open>bufio.Reader.ReadSlice\<close> with a buffer of \<open>n\<close> bytes on what is left of the stream: a fragment that ends with the
  newline, a full buffer without one, or the end of the stream.
\<close>

datatype slice = Line bytes bytes | Full bytes bytes | Eof

definition ReadSlice :: "nat \<Rightarrow> bytes \<Rightarrow> slice" where
  "ReadSlice n s =
     (let frag = takeWhile (\<lambda>c. c \<noteq> CHR 0x0A) s
      in if length frag < n \<and> length frag < length s then Line (take (Suc (length frag)) s) (drop (Suc (length frag)) s)
         else if n \<le> length s then Full (take n s) (drop n s)
         else Eof)"

function read_message :: "nat \<Rightarrow> bytes \<Rightarrow> bytes \<Rightarrow> (bytes \<times> bytes) option" where
  "read_message n full s =
     (if n = 0 then None
      else case ReadSlice n s of
        Line frag rest \<Rightarrow> Some (full @ frag, rest)
      | Full frag rest \<Rightarrow> read_message n (full @ frag) rest
      | Eof \<Rightarrow> None)"
  by pat_completeness auto
termination
  by (relation "measure (\<lambda>(n, full, s). length s)") (auto simp: ReadSlice_def Let_def split: if_splits)

declare read_message.simps [simp del]

lemma read_message_shorter: "read_message n full s = Some (m, rest) \<Longrightarrow> length rest < length s"
proof (induction n full s rule: read_message.induct)
  case (1 n full s)
  have "read_message 0 full s = None" by (simp add: read_message.simps)
  with 1(2) have n: "n \<noteq> 0" by (cases n) auto
  show ?case
  proof (cases "ReadSlice n s")
    case (Full frag r)
    with 1(1)[OF n Full] 1(2) n have "length rest < length r" by (simp add: read_message.simps[of n full s])
    with Full show ?thesis by (auto simp: ReadSlice_def Let_def split: if_splits)
  qed (use 1(2) n in \<open>auto simp: read_message.simps[of n full s] ReadSlice_def Let_def split: if_splits\<close>)
qed

text \<open>The messages that a connection hands to \<^verbatim>\<open>handleMessage\<close>: the lines without their newlines, the empty ones left out.\<close>

function ex_handleConnection :: "nat \<Rightarrow> bytes \<Rightarrow> bytes list" where
  "ex_handleConnection n s =
     (case read_message n [] s of
        None \<Rightarrow> []
      | Some (b, rest) \<Rightarrow>
          if b = [] \<or> last b \<noteq> CHR 0x0A \<or> butlast b = [] then ex_handleConnection n rest
          else butlast b # ex_handleConnection n rest)"
  by pat_completeness auto
termination
  by (relation "measure (\<lambda>(n, s). length s)") (auto dest: read_message_shorter)

declare ex_handleConnection.simps [simp del]

section \<open>The run of a node\<close>

text \<open>\<open>ExTick\<close> is a turn of the consensus loop at the ticker, \<open>ExStopped\<close> one at the closed channel, \<open>ExData\<close> a message, \<open>ExGo\<close> the end of a pending goroutine, with the version that each of its reads saw.\<close>

datatype ex_event = ExTick tick | ExStopped | ExData int bytes | ExGo nat "nat \<Rightarrow> nat"

definition seen :: "('bs, 'bo, 'td) ExCliqueNode \<Rightarrow> nat \<Rightarrow> (nat \<Rightarrow> nat) \<Rightarrow> nat \<Rightarrow> CountingBloomFilter" where
  "seen ec start pick k = ex_versions ec ! min (start + pick k) (length (ex_versions ec) - 1)"

fun ex_exec ::
    "('bs, 'bo, 'tr, 'td, 'ns, 'e) chain_env_scheme \<Rightarrow> ('bs CompactBlock \<Rightarrow> bytes) \<Rightarrow> (bytes \<Rightarrow> 'bs CompactBlock option) \<Rightarrow> (bytes \<Rightarrow> InjectTxs option) \<Rightarrow>
     ('bs, 'bo, 'td) ExCliqueNode \<Rightarrow> ex_event \<Rightarrow> ((bytes \<times> bytes) list \<times> ('bs, 'bo, 'td) ExCliqueNode) option" where
  "ex_exec E gob ungob unjson ec (ExTick tk) =
     (if \<not> ex_running ec then Some ([], ec)
      else if ex_stopSignal ec then Some ([], ec\<lparr>ex_running := False\<rparr>)
      else map_option (Pair []) (tryProposeBlock E tk ec))"
| "ex_exec E gob ungob unjson ec ExStopped = Some ([], if ex_closed ec then ec\<lparr>ex_running := False\<rparr> else ec)"
| "ex_exec E gob ungob unjson ec (ExData vd data) = map_option (Pair []) (ex_handleMessage E ungob unjson vd data ec)"
| "ex_exec E gob ungob unjson ec (ExGo i pick) =
     (if i < length (ex_senders ec)
      then let (block, peerAddr, start) = ex_senders ec ! i
           in map_option (\<lambda>outs. (outs, ec\<lparr>ex_senders := take i (ex_senders ec) @ drop (Suc i) (ex_senders ec)\<rparr>))
                (sendCompactBlockToPeer gob (seen ec start pick) block peerAddr ec)
      else Some ([], ec))"

definition ex_run ::
    "('bs, 'bo, 'tr, 'td, 'ns, 'e) chain_env_scheme \<Rightarrow> ('bs CompactBlock \<Rightarrow> bytes) \<Rightarrow> (bytes \<Rightarrow> 'bs CompactBlock option) \<Rightarrow> (bytes \<Rightarrow> InjectTxs option) \<Rightarrow>
     ('bs, 'bo, 'td) ExCliqueNode \<Rightarrow> ex_event list \<Rightarrow> ((bytes \<times> bytes) list \<times> ('bs, 'bo, 'td) ExCliqueNode) option" where
  "ex_run E gob ungob unjson ec evs =
     foldlM (\<lambda>(outs, ec) ev. map_option (\<lambda>(new, ec). (outs @ new, ec)) (ex_exec E gob ungob unjson ec ev)) ([], ec) evs"

end
