(* ===== verification/Ex_Props.thy ===== *)
theory Ex_Props
  imports Ex_Node
begin

text \<open>
  Properties of an ExClique node: its chain grows only by linked blocks, whatever messages arrive; its
  transactions are never executed; and compact blocks lose the transactions their proposer knows. The
  framing of the messages on a connection is that of lines.
\<close>

section \<open>The chain\<close>

text \<open>Blocks that continue a block, oldest first, each with the hash of its header.\<close>

fun linked :: "('bs, 'e) core_env_scheme \<Rightarrow> 'bs Block \<Rightarrow> 'bs Block list \<Rightarrow> bool" where
  "linked E cur [] = True"
| "linked E cur (b # bs) =
     (bh_Number (bk_Header b) = bh_Number (bk_Header cur) + 1 \<and> bh_ParentBlockHash (bk_Header b) = bk_Hash cur
      \<and> bk_Hash b = BH_Hash E (bk_Header b) \<and> linked E b bs)"

lemma linked_snoc: "linked E cur (bs @ [b]) \<longleftrightarrow> linked E cur bs \<and> linked E (last (cur # bs)) [b]"
  by (induction bs arbitrary: cur) auto

abbreviation ex_cur :: "('bs, 'bo, 'td) ExCliqueNode \<Rightarrow> 'bs Block" where
  "ex_cur ec \<equiv> bc_CurrentBlock (ex_CurChain ec)"

lemma learn_txs_keep:
  assumes "foldlM (\<lambda>ec tx. learn_tx tx ec) ec txs = Some ec'"
  shows "ex_CurChain ec' = ex_CurChain ec \<and> ex_txPool ec' = ex_txPool ec \<and> ex_senders ec' = ex_senders ec \<and> ex_NodeID ec' = ex_NodeID ec"
  using assms
proof (induction txs arbitrary: ec)
  case (Cons tx txs)
  then obtain ec1 where "learn_tx tx ec = Some ec1" "foldlM (\<lambda>ec tx. learn_tx tx ec) ec1 txs = Some ec'" by (auto simp: bind_eq_Some_conv)
  with Cons.IH[OF this(2)] show ?case by (auto simp: learn_tx_def)
qed simp

lemma inject_txs_keep:
  assumes "foldlM (\<lambda>ec tx. learn_tx tx (ec\<lparr>ex_txPool := ex_txPool ec @ [tx]\<rparr>)) ec txs = Some ec'"
  shows "ex_CurChain ec' = ex_CurChain ec \<and> ex_senders ec' = ex_senders ec \<and> ex_txPool ec' = ex_txPool ec @ txs"
  using assms
proof (induction txs arbitrary: ec)
  case (Cons tx txs)
  then obtain ec1 where "learn_tx tx (ec\<lparr>ex_txPool := ex_txPool ec @ [tx]\<rparr>) = Some ec1"
    "foldlM (\<lambda>ec tx. learn_tx tx (ec\<lparr>ex_txPool := ex_txPool ec @ [tx]\<rparr>)) ec1 txs = Some ec'" by (auto simp: bind_eq_Some_conv)
  with Cons.IH[OF this(2)] show ?case by (auto simp: learn_tx_def)
qed simp

text \<open>Adding a block: it is refused, or it becomes the current block.\<close>

lemma ex_addBlock_refuses: "\<not> ex_verifyBlock block ec \<Longrightarrow> ex_addBlock E vd block ec = Some (ec\<lparr>ex_forkCount := ex_forkCount ec + 1\<rparr>)"
  by (simp add: ex_addBlock_def)

lemma ex_addBlock_accepts:
  assumes "ex_addBlock E vd block ec = Some ec'" and "ex_verifyBlock block ec"
  shows "AddBlock E block (ex_CurChain ec) = Some (ex_CurChain ec')" "ex_cur ec' = block"
    "ex_txPool ec' = ex_txPool ec" "ex_senders ec' = ex_senders ec"
    "\<exists>ec0. ex_cbf ec0 = ex_cbf ec \<and> ex_versions ec0 = ex_versions ec \<and> foldlM (\<lambda>ec tx. learn_tx tx ec) ec0 (bk_Body block) = Some ec'"
proof -
  from assms obtain dm bc where a: "AddBlock E block (ex_CurChain ec) = Some bc"
    "foldlM (\<lambda>ec tx. learn_tx tx ec) (ec\<lparr>ex_verifyTime := go_Milliseconds vd, ex_delayManager := dm, ex_CurChain := bc\<rparr>) (bk_Body block) = Some ec'"
    by (auto simp: ex_addBlock_def bind_eq_Some_conv)
  from assms(2) a(1) have "bc_CurrentBlock bc = block"
    by (auto simp: ex_verifyBlock_def Let_def AddBlock_def bind_eq_Some_conv split: if_splits)
  with a(1) learn_txs_keep[OF a(2)] show "AddBlock E block (ex_CurChain ec) = Some (ex_CurChain ec')" "ex_cur ec' = block"
    "ex_txPool ec' = ex_txPool ec" "ex_senders ec' = ex_senders ec" by simp_all
  from a(2) show "\<exists>ec0. ex_cbf ec0 = ex_cbf ec \<and> ex_versions ec0 = ex_versions ec \<and> foldlM (\<lambda>ec tx. learn_tx tx ec) ec0 (bk_Body block) = Some ec'"
    by (intro exI[of _ "ec\<lparr>ex_verifyTime := go_Milliseconds vd, ex_delayManager := dm, ex_CurChain := bc\<rparr>"]) simp
qed

lemma createBlock_fields:
  "bk_Body (ex_createBlock E now txs ec) = txs" "bk_Hash (ex_createBlock E now txs ec) = BH_Hash E (bk_Header (ex_createBlock E now txs ec))"
  "bh_StateRoot (bk_Header (ex_createBlock E now txs ec)) = []"
  by (simp_all add: ex_createBlock_def Let_def NewBlock_def)

lemma createBlock_verifies: "ex_cur ec' = ex_cur ec \<Longrightarrow> ex_verifyBlock (ex_createBlock E now txs ec) ec'"
  by (simp add: ex_createBlock_def ex_verifyBlock_def Let_def NewBlock_def)

text \<open>What proposing does.\<close>

lemma broadcast_fields [simp]:
  "ex_CurChain (broadcastBlockWithPCB b ec) = ex_CurChain ec" "ex_txPool (broadcastBlockWithPCB b ec) = ex_txPool ec"
  "ex_cbf (broadcastBlockWithPCB b ec) = ex_cbf ec" "ex_versions (broadcastBlockWithPCB b ec) = ex_versions ec"
  "ex_delayManager (broadcastBlockWithPCB b ec) = ex_delayManager ec"
  by (simp_all add: broadcastBlockWithPCB_def)

lemma proposeBlock_cases:
  assumes "ex_proposeBlock E tk turn ec = Some ec'" and "ex_txPool ec \<noteq> []"
  obtains txs block ec0 ec1 where "block_txs (prm E) (ex_txPool ec) = Some txs" "block = ex_createBlock E (tk_now tk) txs ec"
    "ex_addBlock E (tk_verify tk) block ec0 = Some ec1" "ex_CurChain ec0 = ex_CurChain ec" "ex_cbf ec0 = ex_cbf ec" "ex_versions ec0 = ex_versions ec"
    "ex_txPool ec0 = drop (length txs) (ex_txPool ec)" "ex_senders ec0 = ex_senders (broadcastBlockWithPCB block ec)"
    "ex_CurChain ec' = ex_CurChain ec1" "ex_cbf ec' = ex_cbf ec1" "ex_versions ec' = ex_versions ec1" "ex_txPool ec' = ex_txPool ec1" "ex_senders ec' = ex_senders ec1"
proof -
  from assms obtain txs dm ec1 where "block_txs (prm E) (ex_txPool ec) = Some txs"
    "ex_addBlock E (tk_verify tk) (ex_createBlock E (tk_now tk) txs ec) (broadcastBlockWithPCB (ex_createBlock E (tk_now tk) txs ec) (ec\<lparr>ex_txPool := drop (length txs) (ex_txPool ec)\<rparr>)
         \<lparr>ex_broadcastTime := go_Milliseconds (tk_broadcast tk), ex_delayManager := dm\<rparr>) = Some ec1"
    "ec' = ec1\<lparr>ex_lastBlockTime := tk_later tk, ex_orderManager := RecordBlock (ex_NodeID ec1) turn (ex_orderManager ec1), ex_blockCount := ex_blockCount ec1 + 1\<rparr>"
    by (auto simp: ex_proposeBlock_def Let_def bind_eq_Some_conv)
  then show thesis by (intro that[OF _ refl]) (assumption, assumption, simp_all add: broadcastBlockWithPCB_def)
qed

lemma tryProposeBlock_cases:
  assumes "tryProposeBlock E tk ec = Some ec'"
  shows "\<exists>om. ec' = ec\<lparr>ex_orderManager := om\<rparr> \<or> (\<exists>turn. ex_proposeBlock E tk turn (ec\<lparr>ex_orderManager := om\<rparr>) = Some ec')"
  using assms by (auto simp: tryProposeBlock_def Let_def bind_eq_Some_conv split: if_splits)

text \<open>What an event does to the chain. The last disjunct of the origin of a block is a compact block from the network.\<close>

definition block_from :: "('bs, 'e) core_env_scheme \<Rightarrow> (bytes \<Rightarrow> 'bs CompactBlock option) \<Rightarrow> ex_event \<Rightarrow> 'bs Block \<Rightarrow> bool" where
  "block_from E ungob ev block \<longleftrightarrow> bk_Hash block = BH_Hash E (bk_Header block)
     \<and> (bh_StateRoot (bk_Header block) = []
        \<or> (\<exists>vd data t c cb. ev = ExData vd data \<and> SplitMessage data = Some (t, c) \<and> DecodeCompactBlock ungob c = Some cb
             \<and> cpb_Header cb = Some (bk_Header block) \<and> bk_Body block = cpb_MissingTxs cb))"

lemma tryProposeBlock_chain:
  assumes "tryProposeBlock E tk ec = Some ec'"
  shows "ex_CurChain ec' = ex_CurChain ec
    \<or> (\<exists>block. bk_Hash block = BH_Hash E (bk_Header block) \<and> bh_StateRoot (bk_Header block) = [] \<and> ex_verifyBlock block ec
        \<and> AddBlock E block (ex_CurChain ec) = Some (ex_CurChain ec') \<and> ex_cur ec' = block)"
proof -
  from tryProposeBlock_cases[OF assms] obtain om turn where
    "ec' = ec\<lparr>ex_orderManager := om\<rparr> \<or> ex_proposeBlock E tk turn (ec\<lparr>ex_orderManager := om\<rparr>) = Some ec'" by blast
  then show ?thesis
  proof
    assume p: "ex_proposeBlock E tk turn (ec\<lparr>ex_orderManager := om\<rparr>) = Some ec'"
    show ?thesis
    proof (cases "ex_txPool ec = []")
      case True
      with p show ?thesis by (auto simp: ex_proposeBlock_def)
    next
      case False
      then have "ex_txPool (ec\<lparr>ex_orderManager := om\<rparr>) \<noteq> []" by simp
      then obtain txs block ec0 ec1 where b: "block = ex_createBlock E (tk_now tk) txs (ec\<lparr>ex_orderManager := om\<rparr>)"
        "ex_addBlock E (tk_verify tk) block ec0 = Some ec1" "ex_CurChain ec0 = ex_CurChain (ec\<lparr>ex_orderManager := om\<rparr>)" "ex_CurChain ec' = ex_CurChain ec1"
        by (rule proposeBlock_cases[OF p])
      have v: "ex_verifyBlock block ec0" "ex_verifyBlock block ec" unfolding b(1) by (rule createBlock_verifies; simp add: b(3))+
      have "AddBlock E block (ex_CurChain ec) = Some (ex_CurChain ec')" "ex_cur ec' = block"
        using ex_addBlock_accepts(1,2)[OF b(2) v(1)] b(3,4) by simp_all
      with v(2) createBlock_fields(2,3)[of E "tk_now tk" txs "ec\<lparr>ex_orderManager := om\<rparr>"] show ?thesis unfolding b(1)[symmetric] by blast
    qed
  qed simp
qed

lemma bind_pairE:
  assumes "do { (a, b) \<leftarrow> x; f a b } = Some y"
  obtains a b where "x = Some (a, b)" "f a b = Some y"
  using assms by (auto simp: bind_eq_Some_conv)

lemma if4:
  assumes "(if P then a else if Q then b else if R then c else d) = x"
  obtains "a = x" | "b = x" | "c = x" | "d = x"
  using assms by (auto split: if_splits)

lemma handleMessage_cases [consumes 1, case_names Ignore Inject Stop Compact]:
  assumes "ex_handleMessage E ungob unjson vd data ec = Some ec'"
  obtains "ec' = ec" | content where "ex_handleInjectTxs unjson content ec = Some ec'" | "ex_Stop ec = Some ec'"
    | t c cb where "SplitMessage data = Some (t, c)" "DecodeCompactBlock ungob c = Some cb" "handleCompactBlock E vd cb ec = Some ec'"
proof (cases "length data < 30")
  case True
  with assms that(1) show ?thesis by (simp add: ex_handleMessage_def)
next
  case False
  with assms have "do { (msgType, content) \<leftarrow> SplitMessage data;
      if msgType = ''ExCliqueBlock'' then (case DecodeCompactBlock ungob content of None \<Rightarrow> Some ec | Some cb \<Rightarrow> handleCompactBlock E vd cb ec)
      else if msgType = ''inject'' then ex_handleInjectTxs unjson content ec else if msgType = ''stop'' then ex_Stop ec else Some ec } = Some ec'"
    unfolding ex_handleMessage_def by (simp only: if_False)
  then obtain t c where sp: "SplitMessage data = Some (t, c)"
    and m: "(if t = ''ExCliqueBlock'' then (case DecodeCompactBlock ungob c of None \<Rightarrow> Some ec | Some cb \<Rightarrow> handleCompactBlock E vd cb ec)
      else if t = ''inject'' then ex_handleInjectTxs unjson c ec else if t = ''stop'' then ex_Stop ec else Some ec) = Some ec'"
    by (rule bind_pairE)
  show ?thesis
  proof (rule if4[OF m])
    assume d: "(case DecodeCompactBlock ungob c of None \<Rightarrow> Some ec | Some cb \<Rightarrow> handleCompactBlock E vd cb ec) = Some ec'"
    show ?thesis
    proof (cases "DecodeCompactBlock ungob c")
      case None
      with d that(1) show ?thesis by simp
    next
      case (Some cb)
      with d that(4)[OF sp Some] show ?thesis by simp
    qed
  next
    assume "Some ec = Some ec'"
    with that(1) show ?thesis by simp
  qed (rule that(2,3), assumption)+
qed

lemma handleMessage_chain:
  assumes "ex_handleMessage E ungob unjson vd data ec = Some ec'"
  shows "ex_CurChain ec' = ex_CurChain ec
    \<or> (\<exists>block. block_from E ungob (ExData vd data) block \<and> ex_verifyBlock block ec
        \<and> AddBlock E block (ex_CurChain ec) = Some (ex_CurChain ec') \<and> ex_cur ec' = block)"
  using assms
proof (cases rule: handleMessage_cases)
  case (Inject content)
  then show ?thesis using inject_txs_keep by (auto simp: ex_handleInjectTxs_def split: option.splits)
next
  case Stop
  then show ?thesis by (auto simp: ex_Stop_def split: if_splits)
next
  case (Compact t c cb)
  from Compact(2) obtain h where h: "cpb_Header cb = Some h" by (auto simp: DecodeCompactBlock_def bind_eq_Some_conv split: if_splits)
  let ?b = "(NewBlock h (cpb_MissingTxs cb))\<lparr>bk_Hash := BH_Hash E h\<rparr>"
  from Compact(3) h have "ex_addBlock E vd ?b ec = Some ec'" by (simp add: handleCompactBlock_def)
  moreover have "block_from E ungob (ExData vd data) ?b" using Compact(1,2) h by (auto simp: block_from_def NewBlock_def)
  ultimately show ?thesis using ex_addBlock_refuses[of ?b ec E vd] ex_addBlock_accepts(1,2)[of E vd ?b ec ec']
    by (cases "ex_verifyBlock ?b ec") auto
qed simp

lemma ex_exec_chain:
  assumes "ex_exec E gob ungob unjson ec ev = Some (outs, ec')"
  shows "ex_CurChain ec' = ex_CurChain ec
    \<or> (\<exists>block. block_from E ungob ev block \<and> ex_verifyBlock block ec
        \<and> AddBlock E block (ex_CurChain ec) = Some (ex_CurChain ec') \<and> ex_cur ec' = block)"
proof (cases ev)
  case (ExTick tk)
  with assms tryProposeBlock_chain[of E tk ec ec'] show ?thesis by (auto simp: block_from_def split: if_splits)
next
  case (ExData vd data)
  with assms handleMessage_chain[of E ungob unjson vd data ec ec'] show ?thesis by auto
qed (use assms in \<open>auto simp: Let_def split: if_splits prod.splits\<close>)


text \<open>
  C34. The transactions of an ExClique chain are never executed. \<^verbatim>\<open>createBlock\<close> leaves the state root of the header empty, and \<^verbatim>\<open>AddBlock\<close>
  takes the empty root for a state that it already has. While the nodes of the shard propose their blocks so,
  the trie database of a node is, after any run, the one it had before: no balance ever changes.
\<close>

theorem exclique_never_executes:
  assumes "trie_laws E" and "ex_run E gob ungob unjson ec evs = Some (outs, ec')"
    and "\<forall>ev \<in> set evs. \<forall>block. block_from E ungob ev block \<longrightarrow> bh_StateRoot (bk_Header block) = []"
  shows "bc_triedb (ex_CurChain ec') = bc_triedb (ex_CurChain ec)"
proof -
  have "(\<lambda>(outs, ec'). bc_triedb (ex_CurChain ec') = bc_triedb (ex_CurChain ec)) (outs, ec')"
    using assms(2) unfolding ex_run_def
  proof (rule foldlM_invariant)
    fix s ev s'
    assume ev: "ev \<in> set evs" and IH: "case s of (outs, ec') \<Rightarrow> bc_triedb (ex_CurChain ec') = bc_triedb (ex_CurChain ec)"
      and step: "(case s of (outs, ec) \<Rightarrow> \<lambda>ev. map_option (\<lambda>(new, ec). (outs @ new, ec)) (ex_exec E gob ungob unjson ec ev)) ev = Some s'"
    obtain o1 e1 where s: "s = (o1, e1)" by force
    with step obtain new e2 where e: "ex_exec E gob ungob unjson e1 ev = Some (new, e2)" "s' = (o1 @ new, e2)" by auto
    have "bc_triedb (ex_CurChain e2) = bc_triedb (ex_CurChain e1)"
      using ex_exec_chain[OF e(1)]
    proof (elim disjE exE conjE)
      fix block
      assume b: "block_from E ungob ev block" "AddBlock E block (ex_CurChain e1) = Some (ex_CurChain e2)"
      from b(1) ev assms(3) have "tr_New E (bc_triedb (ex_CurChain e1)) (BytesToHash (bh_StateRoot (bk_Header block))) \<noteq> None"
        using trie_lawsD(6)[OF assms(1)] by simp
      with b(2) show ?thesis by (auto simp: AddBlock_def bind_eq_Some_conv split: if_splits dest: arg_cong[of _ _ bc_triedb])
    qed simp
    with IH s e(2) show "case s' of (outs, ec') \<Rightarrow> bc_triedb (ex_CurChain ec') = bc_triedb (ex_CurChain ec)" by simp
  qed simp
  then show ?thesis by simp
qed

section \<open>A demo node\<close>

text \<open>Node 1 of a shard of two, in turn at height 1, with one transaction in its pool.\<close>

definition demo_ex :: "(nat list, bytes list \<times> ((bytes \<times> bytes) \<times> bytes) list, (bytes \<times> alist_trie) list) ExCliqueNode" where
  "demo_ex = \<lparr>ex_ShardID = 0, ex_NodeID = 1, ex_IPaddr = ''n1'', ex_CurChain = demo_chain 0 [], ex_nodeNums = 2, ex_blockInterval = 0,
     ex_lastBlockTime = 0, ex_delayManager = NewDelayManager 50 0, ex_txPool = [demo_tx ''c0''],
     ex_cbf = the (CBF_adds [tx_TxHash (demo_tx ''c0'')] (NewCountingBloomFilter 100000 4)), ex_knownTxs = [tx_TxHash (demo_tx ''c0'')],
     ex_orderManager = NewOrderManager [0, 1], ex_ip_nodeTable = (\<lambda>_ _. ''n0''), ex_stopSignal = False, ex_closed = False,
     ex_broadcastTime = 0, ex_verifyTime = 0, ex_blockCount = 0, ex_forkCount = 0, ex_running = True,
     ex_versions = [the (CBF_adds [tx_TxHash (demo_tx ''c0'')] (NewCountingBloomFilter 100000 4))], ex_senders = []\<rparr>"

definition demo_tick :: tick where
  "demo_tick = \<lparr>tk_now = 9, tk_random = f64_zero, tk_broadcast = 3, tk_verify = 2, tk_later = 10\<rparr>"

definition demo_ex_block :: "nat list Block" where
  "demo_ex_block = ex_createBlock demo_env 9 [demo_tx ''c0''] demo_ex"

lemma CBF_adds_holds:
  assumes "holds items cbf"
  shows "\<exists>cbf'. CBF_adds xs cbf = Some cbf' \<and> holds (items @ xs) cbf'"
  using assms
proof (induction xs arbitrary: items cbf)
  case (Cons x xs)
  from holds_Add[OF Cons.prems, of x] obtain cbf1 where "CBF_Add x cbf = Some cbf1" "holds (items @ [x]) cbf1" by blast
  with Cons.IH[of "items @ [x]" cbf1] show ?case by (simp add: CBF_adds_def)
qed (simp add: CBF_adds_def)

lemma demo_ex_holds: "holds [tx_TxHash (demo_tx ''c0'')] (ex_cbf demo_ex)"
proof -
  from CBF_adds_holds[OF holds_new[of 100000 4], of "[tx_TxHash (demo_tx ''c0'')]"] show ?thesis by (auto simp: demo_ex_def)
qed

lemma learn_txs_total:
  assumes "holds items (ex_cbf ec)"
  shows "\<exists>ec'. foldlM (\<lambda>ec tx. learn_tx tx ec) ec txs = Some ec' \<and> holds (items @ map tx_TxHash txs) (ex_cbf ec')"
  using assms
proof (induction txs arbitrary: items ec)
  case (Cons tx txs)
  from holds_Add[OF Cons.prems, of "tx_TxHash tx"] obtain cbf where c: "CBF_Add (tx_TxHash tx) (ex_cbf ec) = Some cbf" "holds (items @ [tx_TxHash tx]) cbf" by blast
  define ec1 where "ec1 = ec\<lparr>ex_knownTxs := List.insert (tx_TxHash tx) (ex_knownTxs ec), ex_cbf := cbf, ex_versions := ex_versions ec @ [cbf]\<rparr>"
  have "learn_tx tx ec = Some ec1" "holds (items @ [tx_TxHash tx]) (ex_cbf ec1)" using c by (simp_all add: learn_tx_def ec1_def)
  with Cons.IH[of "items @ [tx_TxHash tx]" ec1] show ?case by simp
qed simp

lemma demo_ex_run:
  "\<exists>ec'. ex_run demo_env gob ungob unjson demo_ex [ExTick demo_tick] = Some ([], ec') \<and> ex_cur ec' = demo_ex_block \<and> ex_senders ec' = [(demo_ex_block, ''n0'', 0)]"
proof -
  let ?b = demo_ex_block
  have f: "ex_running demo_ex" "\<not> ex_stopSignal demo_ex" "ex_NodeID demo_ex = 1" "ex_blockInterval demo_ex = 0" "ex_lastBlockTime demo_ex = 0"
    "ex_txPool demo_ex = [demo_tx ''c0'']" "ex_orderManager demo_ex = NewOrderManager [0, 1]" "bh_Number (bk_Header (ex_cur demo_ex)) = 0"
    "ex_delayManager demo_ex = NewDelayManager 50 0" "demo_ex\<lparr>ex_orderManager := NewOrderManager [0, 1]\<rparr> = demo_ex"
    by (simp_all add: demo_ex_def)
  define ec0 where "ec0 = broadcastBlockWithPCB ?b (demo_ex\<lparr>ex_txPool := []\<rparr>)\<lparr>ex_broadcastTime := 0, ex_delayManager := (NewDelayManager 50 0)\<lparr>dm_broadcastHist := [3]\<rparr>\<rparr>"
  have cur: "ex_CurChain ec0 = demo_chain 0 []" by (simp add: ec0_def demo_ex_def)
  have turn: "GetInTurnValidator demo_env 1 (NewOrderManager [0, 1]) = Some (1, NewOrderManager [0, 1])"
    by (simp add: GetInTurnValidator_def GetOrderForHeight_def NewOrderManager_def)
  have v: "ex_verifyBlock ?b ec0" unfolding demo_ex_block_def by (rule createBlock_verifies) (simp add: cur demo_ex_def)
  have hash: "bk_Hash ?b \<noteq> []" by (simp add: demo_ex_block_def ex_createBlock_def Let_def NewBlock_def BH_Hash_def demo_env_def)
  from demo_chain_inv have "storage_wf demo_env (bc_Storage (demo_chain 0 []))" by (simp add: chain_inv_def)
  from Storage_AddBlock_total[OF demo_store_laws this hash] obtain s where s: "Storage_AddBlock demo_env ?b (bc_Storage (demo_chain 0 [])) = Some s" by blast
  have root: "tr_New demo_env (bc_triedb (demo_chain 0 [])) (BytesToHash (bh_StateRoot (bk_Header ?b))) = Some []"
    using trie_lawsD(6)[OF demo_trie_laws] createBlock_fields(3)[of demo_env 9 "[demo_tx ''c0'']" demo_ex] by (simp add: demo_ex_block_def demo_env_def)
  with s v cur obtain bc where bc: "AddBlock demo_env ?b (ex_CurChain ec0) = Some bc"
    by (auto simp: AddBlock_def ex_verifyBlock_def Let_def split: if_splits)
  obtain dm where dm: "RecordVerifyTime 2 (ex_delayManager ec0) = Some dm"
    by (simp add: ec0_def RecordVerifyTime_def updateBeta_def go_average_def go_quot_def NewDelayManager_def push_hist_def)
  have "holds [tx_TxHash (demo_tx ''c0'')] (ex_cbf (ec0\<lparr>ex_verifyTime := 0, ex_delayManager := dm, ex_CurChain := bc\<rparr>))" using demo_ex_holds by (simp add: ec0_def)
  from learn_txs_total[OF this, of "bk_Body ?b"] dm bc v obtain ec1 where "ex_addBlock demo_env 2 ?b ec0 = Some ec1"
    by (auto simp: ex_addBlock_def go_Milliseconds_def)
  note acc = ex_addBlock_accepts(2,4)[OF this v] and add = this
  have senders: "ex_senders ec0 = [(?b, ''n0'', 0)]"
    by (simp add: ec0_def broadcastBlockWithPCB_def demo_ex_def u64_range_def upt_conv_Cons)
  note add
  moreover have "block_txs (prm demo_env) [demo_tx ''c0''] = Some [demo_tx ''c0'']" by (simp add: block_txs_def demo_env_def demo_params_def)
  moreover have "RecordBroadcastTime 3 (NewDelayManager 50 0) = Some ((NewDelayManager 50 0)\<lparr>dm_broadcastHist := [3]\<rparr>)"
    by (simp add: RecordBroadcastTime_def updateBeta_def NewDelayManager_def push_hist_def)
  ultimately have "ex_proposeBlock demo_env demo_tick True demo_ex = Some (ec1\<lparr>ex_lastBlockTime := 10,
      ex_orderManager := RecordBlock (ex_NodeID ec1) True (ex_orderManager ec1), ex_blockCount := ex_blockCount ec1 + 1\<rparr>)"
    by (simp add: ex_proposeBlock_def f demo_tick_def Let_def ec0_def go_Milliseconds_def flip: demo_ex_block_def)
  moreover have "tryProposeBlock demo_env demo_tick demo_ex = ex_proposeBlock demo_env demo_tick True demo_ex"
    using turn by (simp add: tryProposeBlock_def f demo_tick_def time_Sub_def)
  ultimately show ?thesis using acc senders by (simp add: ex_run_def f)
qed


theorem exclique_never_executes_witness:
  "\<exists>ec'. ex_run demo_env (\<lambda>_. []) (\<lambda>_. None) (\<lambda>_. None) demo_ex [ExTick demo_tick] = Some ([], ec')
     \<and> ex_cur ec' = demo_ex_block \<and> bc_triedb (ex_CurChain ec') = bc_triedb (ex_CurChain demo_ex)"
proof -
  obtain ec' where r: "ex_run demo_env (\<lambda>_. []) (\<lambda>_. None) (\<lambda>_. None) demo_ex [ExTick demo_tick] = Some ([], ec')" "ex_cur ec' = demo_ex_block"
    using demo_ex_run[of "\<lambda>_. []" "\<lambda>_. None" "\<lambda>_. None"] by (elim exE conjE) (rule that)
  have "\<forall>ev \<in> set [ExTick demo_tick]. \<forall>block. block_from demo_env (\<lambda>_. None) ev block \<longrightarrow> bh_StateRoot (bk_Header block) = []"
    by (auto simp: block_from_def)
  from exclique_never_executes[OF demo_trie_laws r(1) this] r show ?thesis by (intro exI[of _ ec'] conjI)
qed

section \<open>Compact blocks\<close>

text \<open>What is known of the filter: it counted the transactions of the pool, and those of the pending blocks twice.\<close>

definition filter_state :: "bytes list \<Rightarrow> ('bs, 'bo, 'td) ExCliqueNode \<Rightarrow> bool" where
  "filter_state items ec \<longleftrightarrow> holds items (ex_cbf ec) \<and> ex_versions ec \<noteq> [] \<and> last (ex_versions ec) = ex_cbf ec"

definition counted_ok :: "('bs, 'bo, 'td) ExCliqueNode \<Rightarrow> bool" where
  "counted_ok ec \<longleftrightarrow> (\<exists>items. filter_state items ec
     \<and> (\<forall>tx \<in> set (ex_txPool ec). 1 \<le> count_list items (tx_TxHash tx))
     \<and> (\<forall>s \<in> set (ex_senders ec). \<forall>tx \<in> set (bk_Body (fst s)). 2 \<le> count_list items (tx_TxHash tx)))"

lemma counted_okI:
  assumes "filter_state items ec" and "\<And>tx. tx \<in> set (ex_txPool ec) \<Longrightarrow> 1 \<le> count_list items (tx_TxHash tx)"
    and "\<And>s tx. s \<in> set (ex_senders ec) \<Longrightarrow> tx \<in> set (bk_Body (fst s)) \<Longrightarrow> 2 \<le> count_list items (tx_TxHash tx)"
  shows "counted_ok ec"
  unfolding counted_ok_def using assms by (intro exI[of _ items]) auto

lemma count_list_append [simp]: "count_list (xs @ ys) x = count_list xs x + count_list ys x"
  by (induction xs) auto

lemma filter_state_learn:
  assumes "learn_tx tx ec = Some ec'" and "filter_state items ec"
  shows "filter_state (items @ [tx_TxHash tx]) ec'"
  using assms holds_Add[of items "ex_cbf ec" "tx_TxHash tx"] by (auto simp: learn_tx_def filter_state_def)

lemma filter_state_learns:
  "foldlM (\<lambda>ec tx. learn_tx tx ec) ec txs = Some ec' \<Longrightarrow> filter_state items ec \<Longrightarrow> filter_state (items @ map tx_TxHash txs) ec'"
proof (induction txs arbitrary: items ec)
  case (Cons tx txs)
  from Cons.prems(1) obtain ec1 where l: "learn_tx tx ec = Some ec1" "foldlM (\<lambda>ec tx. learn_tx tx ec) ec1 txs = Some ec'" by (auto simp: bind_eq_Some_conv)
  from Cons.IH[OF l(2) filter_state_learn[OF l(1) Cons.prems(2)]] show ?case by simp
qed simp

lemma filter_state_injects:
  "foldlM (\<lambda>ec tx. learn_tx tx (ec\<lparr>ex_txPool := ex_txPool ec @ [tx]\<rparr>)) ec txs = Some ec' \<Longrightarrow> filter_state items ec \<Longrightarrow> filter_state (items @ map tx_TxHash txs) ec'"
proof (induction txs arbitrary: items ec)
  case (Cons tx txs)
  from Cons.prems(1) obtain ec1 where l: "learn_tx tx (ec\<lparr>ex_txPool := ex_txPool ec @ [tx]\<rparr>) = Some ec1"
    "foldlM (\<lambda>ec tx. learn_tx tx (ec\<lparr>ex_txPool := ex_txPool ec @ [tx]\<rparr>)) ec1 txs = Some ec'" by (auto simp: bind_eq_Some_conv)
  have "filter_state items (ec\<lparr>ex_txPool := ex_txPool ec @ [tx]\<rparr>)" using Cons.prems(2) by (simp add: filter_state_def)
  from Cons.IH[OF l(2) filter_state_learn[OF l(1) this]] show ?case by simp
qed simp

lemma filter_state_cong: "ex_cbf ec' = ex_cbf ec \<Longrightarrow> ex_versions ec' = ex_versions ec \<Longrightarrow> filter_state items ec' = filter_state items ec"
  by (simp add: filter_state_def)

lemma filter_state_addBlock:
  assumes "ex_addBlock E vd block ec = Some ec'" and "filter_state items ec"
  shows "filter_state (items @ (if ex_verifyBlock block ec then map tx_TxHash (bk_Body block) else [])) ec'"
    and "ex_txPool ec' = ex_txPool ec" "ex_senders ec' = ex_senders ec"
proof -
  have "filter_state (items @ (if ex_verifyBlock block ec then map tx_TxHash (bk_Body block) else [])) ec' \<and> ex_txPool ec' = ex_txPool ec \<and> ex_senders ec' = ex_senders ec"
  proof (cases "ex_verifyBlock block ec")
    case True
    from ex_addBlock_accepts(5)[OF assms(1) True] obtain ec0 where "ex_cbf ec0 = ex_cbf ec" "ex_versions ec0 = ex_versions ec"
      "foldlM (\<lambda>ec tx. learn_tx tx ec) ec0 (bk_Body block) = Some ec'" by blast
    with filter_state_learns[of ec0 "bk_Body block" ec' items] filter_state_cong[of ec0 ec items] assms(2) True ex_addBlock_accepts(3,4)[OF assms(1) True]
    show ?thesis by simp
  next
    case False
    with assms ex_addBlock_refuses[OF False, of E vd] filter_state_cong[of ec' ec items] show ?thesis by auto
  qed
  then show "filter_state (items @ (if ex_verifyBlock block ec then map tx_TxHash (bk_Body block) else [])) ec'"
    "ex_txPool ec' = ex_txPool ec" "ex_senders ec' = ex_senders ec" by blast+
qed

lemma counted_addBlock:
  assumes "ex_addBlock E vd block ec = Some ec'" and "counted_ok ec"
  shows "counted_ok ec'"
proof -
  from assms(2) obtain items where i0: "filter_state items ec" "\<forall>tx \<in> set (ex_txPool ec). 1 \<le> count_list items (tx_TxHash tx)"
    "\<forall>s \<in> set (ex_senders ec). \<forall>tx \<in> set (bk_Body (fst s)). 2 \<le> count_list items (tx_TxHash tx)" unfolding counted_ok_def by (elim exE conjE)
  note i = i0(1) bspec[OF i0(2)] bspec[OF bspec[OF i0(3)]]
  note a = filter_state_addBlock[OF assms(1) i(1)]
  show ?thesis
    by (rule counted_okI[OF a(1)]) (use a(2,3) i(2,3) in \<open>auto intro: le_add1 order_trans trans_le_add1\<close>)
qed

lemma count_hash: "tx \<in> set txs \<Longrightarrow> 1 \<le> count_list (map tx_TxHash txs) (tx_TxHash tx)"
  by (induction txs) auto

lemma block_txs_split: "block_txs pr pool = Some txs \<Longrightarrow> pool = txs @ drop (length txs) pool"
  by (auto simp: block_txs_def Let_def split: if_splits)

lemma counted_propose:
  assumes "ex_proposeBlock E tk turn ec = Some ec'" and "counted_ok ec"
  shows "counted_ok ec'"
proof (cases "ex_txPool ec = []")
  case True
  with assms show ?thesis by (simp add: ex_proposeBlock_def)
next
  case False
  from assms(2) obtain items where i0: "filter_state items ec" "\<forall>tx \<in> set (ex_txPool ec). 1 \<le> count_list items (tx_TxHash tx)"
    "\<forall>s \<in> set (ex_senders ec). \<forall>tx \<in> set (bk_Body (fst s)). 2 \<le> count_list items (tx_TxHash tx)" unfolding counted_ok_def by (elim exE conjE)
  note i = i0(1) bspec[OF i0(2)] bspec[OF bspec[OF i0(3)]]
  from proposeBlock_cases[OF assms(1) False] obtain txs block ec0 ec1 where b: "block_txs (prm E) (ex_txPool ec) = Some txs" "block = ex_createBlock E (tk_now tk) txs ec"
    "ex_addBlock E (tk_verify tk) block ec0 = Some ec1" "ex_CurChain ec0 = ex_CurChain ec" "ex_cbf ec0 = ex_cbf ec" "ex_versions ec0 = ex_versions ec"
    "ex_txPool ec0 = drop (length txs) (ex_txPool ec)" "ex_senders ec0 = ex_senders (broadcastBlockWithPCB block ec)"
    "ex_cbf ec' = ex_cbf ec1" "ex_versions ec' = ex_versions ec1" "ex_txPool ec' = ex_txPool ec1" "ex_senders ec' = ex_senders ec1" .
  have pool: "ex_txPool ec = txs @ drop (length txs) (ex_txPool ec)" by (rule block_txs_split[OF b(1)])
  have v: "ex_verifyBlock block ec0" unfolding b(2) by (rule createBlock_verifies) (simp add: b(4))
  have body: "bk_Body block = txs" by (simp add: b(2) createBlock_fields)
  have "filter_state items ec0" using i(1) filter_state_cong[OF b(5,6)] by simp
  from filter_state_addBlock[OF b(3) this] v body have a: "filter_state (items @ map tx_TxHash txs) ec'" "ex_txPool ec' = drop (length txs) (ex_txPool ec)"
    "ex_senders ec' = ex_senders (broadcastBlockWithPCB block ec)"
    using filter_state_cong[OF b(9,10)] b(7,8,11,12) by simp_all
  show ?thesis
  proof (rule counted_okI[OF a(1)])
    fix tx
    assume "tx \<in> set (ex_txPool ec')"
    then have "tx \<in> set (ex_txPool ec)" using a(2) by (auto dest: in_set_dropD)
    with i(2) show "1 \<le> count_list (items @ map tx_TxHash txs) (tx_TxHash tx)" by (simp add: trans_le_add1)
  next
    fix s tx
    assume s: "s \<in> set (ex_senders ec')" and tx: "tx \<in> set (bk_Body (fst s))"
    from s a(3) consider "s \<in> set (ex_senders ec)" | "fst s = block" by (auto simp: broadcastBlockWithPCB_def)
    then show "2 \<le> count_list (items @ map tx_TxHash txs) (tx_TxHash tx)"
    proof cases
      case 1
      from i(3)[OF this tx] show ?thesis by simp
    next
      case 2
      with tx body have t: "tx \<in> set txs" by simp
      then have "tx \<in> set (ex_txPool ec)" using pool by (metis Un_iff set_append)
      from i(2)[OF this] count_hash[OF t] show ?thesis by simp
    qed
  qed
qed

lemma counted_inject:
  assumes "foldlM (\<lambda>ec tx. learn_tx tx (ec\<lparr>ex_txPool := ex_txPool ec @ [tx]\<rparr>)) ec txs = Some ec'" and "counted_ok ec"
  shows "counted_ok ec'"
proof -
  from assms(2) obtain items where i0: "filter_state items ec" "\<forall>tx \<in> set (ex_txPool ec). 1 \<le> count_list items (tx_TxHash tx)"
    "\<forall>s \<in> set (ex_senders ec). \<forall>tx \<in> set (bk_Body (fst s)). 2 \<le> count_list items (tx_TxHash tx)" unfolding counted_ok_def by (elim exE conjE)
  note i = i0(1) bspec[OF i0(2)] bspec[OF bspec[OF i0(3)]]
  note k = inject_txs_keep[OF assms(1)]
  show ?thesis
  proof (rule counted_okI[OF filter_state_injects[OF assms(1) i(1)]])
    fix tx
    assume "tx \<in> set (ex_txPool ec')"
    with k consider "tx \<in> set (ex_txPool ec)" | "tx \<in> set txs" by auto
    then show "1 \<le> count_list (items @ map tx_TxHash txs) (tx_TxHash tx)"
      using i(2)[of tx] count_hash[of tx txs] by cases simp_all
  next
    fix s tx
    assume "s \<in> set (ex_senders ec')" "tx \<in> set (bk_Body (fst s))"
    with k i(3)[of s tx] show "2 \<le> count_list (items @ map tx_TxHash txs) (tx_TxHash tx)" by simp
  qed
qed

lemma counted_same:
  assumes "ex_cbf ec' = ex_cbf ec" "ex_versions ec' = ex_versions ec" "ex_txPool ec' = ex_txPool ec"
    "set (ex_senders ec') \<subseteq> set (ex_senders ec)" "counted_ok ec"
  shows "counted_ok ec'"
proof -
  from assms(5) obtain items where i: "filter_state items ec" "\<forall>tx \<in> set (ex_txPool ec). 1 \<le> count_list items (tx_TxHash tx)"
    "\<forall>s \<in> set (ex_senders ec). \<forall>tx \<in> set (bk_Body (fst s)). 2 \<le> count_list items (tx_TxHash tx)" unfolding counted_ok_def by (elim exE conjE)
  show ?thesis
    by (rule counted_okI[of items]) (use assms(3,4) i filter_state_cong[OF assms(1,2)] in \<open>auto dest: subsetD\<close>)
qed

lemma counted_exec:
  assumes "ex_exec E gob ungob unjson ec ev = Some (outs, ec')" and "counted_ok ec"
  shows "counted_ok ec'"
proof -
  note same = counted_same
  show ?thesis
  proof (cases ev)
    case (ExTick tk)
    show ?thesis
    proof (cases "ex_running ec \<and> \<not> ex_stopSignal ec")
      case True
      with assms(1) ExTick have "tryProposeBlock E tk ec = Some ec'" by auto
      from tryProposeBlock_cases[OF this] obtain om turn where
        "ec' = ec\<lparr>ex_orderManager := om\<rparr> \<or> ex_proposeBlock E tk turn (ec\<lparr>ex_orderManager := om\<rparr>) = Some ec'" by blast
      moreover have "counted_ok (ec\<lparr>ex_orderManager := om\<rparr>)" by (rule same[OF _ _ _ _ assms(2)]) simp_all
      ultimately show ?thesis using counted_propose by blast
    next
      case False
      with assms(1) ExTick have "ec' = ec \<or> ec' = ec\<lparr>ex_running := False\<rparr>" by (auto split: if_splits)
      moreover have "counted_ok (ec\<lparr>ex_running := False\<rparr>)" by (rule same[OF _ _ _ _ assms(2)]) simp_all
      ultimately show ?thesis using assms(2) by blast
    qed
  next
    case ExStopped
    have "counted_ok (ec\<lparr>ex_running := False\<rparr>)" by (rule same[OF _ _ _ _ assms(2)]) simp_all
    with ExStopped assms show ?thesis by (auto split: if_splits)
  next
    case (ExData vd data)
    with assms(1) have "ex_handleMessage E ungob unjson vd data ec = Some ec'" by auto
    then show ?thesis
    proof (cases rule: handleMessage_cases)
      case (Inject content)
      with counted_inject[OF _ assms(2)] assms(2) show ?thesis by (auto simp: ex_handleInjectTxs_def split: option.splits)
    next
      case Stop
      then have "ec' = ec\<lparr>ex_stopSignal := True, ex_closed := True\<rparr>" by (auto simp: ex_Stop_def split: if_splits)
      then show ?thesis by (intro same[OF _ _ _ _ assms(2)]) simp_all
    next
      case (Compact t c cb)
      with counted_addBlock[OF _ assms(2)] assms(2) show ?thesis by (auto simp: handleCompactBlock_def split: option.splits)
    qed (use assms(2) in simp)
  next
    case (ExGo i pick)
    have "counted_ok (ec\<lparr>ex_senders := take i (ex_senders ec) @ drop (Suc i) (ex_senders ec)\<rparr>)"
      by (rule same[OF _ _ _ _ assms(2)]) (auto dest: in_set_takeD in_set_dropD)
    with ExGo assms show ?thesis by (auto simp: Let_def split: if_splits prod.splits)
  qed
qed

lemma counted_ok_new:
  assumes "NewExCliqueNode E ips db fp opened now shardID nodeID pcc = Some ec"
  shows "counted_ok ec"
proof (rule counted_okI)
  show "filter_state [] ec" using assms holds_new[of 100000 4] by (auto simp: NewExCliqueNode_def bind_eq_Some_conv Let_def filter_state_def)
qed (use assms in \<open>auto simp: NewExCliqueNode_def bind_eq_Some_conv Let_def\<close>)

lemma counted_run:
  assumes "ex_run E gob ungob unjson ec evs = Some (outs, ec')" and "counted_ok ec"
  shows "counted_ok ec'"
proof -
  have "(\<lambda>(outs, ec). counted_ok ec) (outs, ec')"
    using assms(1) unfolding ex_run_def by (rule foldlM_invariant) (use assms(2) counted_exec in \<open>auto split: prod.splits\<close>)
  then show ?thesis by simp
qed

text \<open>A goroutine that reads the filter as it is now sends no transaction of its block.\<close>

lemma classify_known:
  assumes "holds items cbf" and "\<forall>(i, tx) \<in> set xs. 2 \<le> count_list items (tx_TxHash tx) \<and> look (2 * i + 1) = cbf \<and> look (2 * i + 2) = cbf"
  shows "foldlM (classify look) cb xs = Some (cb\<lparr>cpb_TxHashes := cpb_TxHashes cb @ map (tx_TxHash \<circ> snd) xs\<rparr>)"
  using assms(2)
proof (induction xs arbitrary: cb)
  case (Cons x xs)
  obtain i tx where x: "x = (i, tx)" by force
  from Cons.prems x have two: "2 \<le> count_list items (tx_TxHash tx)" and look: "look (2 * i + 1) = cbf" "look (2 * i + 2) = cbf" by auto
  then have "tx_TxHash tx \<in> set items" by (metis count_notin not_numeral_le_zero)
  from holds_Contains[OF assms(1) this] have "CBF_Contains cbf (tx_TxHash tx) = Some True" .
  moreover from holds_GetCount[OF assms(1), of "tx_TxHash tx"] obtain c where c: "CBF_GetCount cbf (tx_TxHash tx) = Some c"
    "min 255 (count_list items (tx_TxHash tx)) \<le> unat c" by blast
  from c(2) two have "1 < c" by (simp add: word_less_nat_alt)
  ultimately have "peer_has (look (2 * i + 1)) (look (2 * i + 2)) tx = Some True" using c(1) unfolding peer_has_def look by simp
  then have "classify look cb x = Some (cb\<lparr>cpb_TxHashes := cpb_TxHashes cb @ [tx_TxHash tx]\<rparr>)" by (simp add: classify_def x)
  with Cons x show ?case by simp
qed simp

text \<open>
  Compact blocks lose transactions. Start from a node whose filter has counted the transactions of its pool, as a new node's has, and run it
  with any events. A goroutine that sends a block after the node has added it finds every transaction of the block
  counted twice, once when it was injected and once with the block, and sends all of them as hashes. A receiver does not look the
  hashes up: when the header fits its chain, it adds a block with this header and without any transaction.
\<close>

theorem compact_block_loses_txs:
  assumes "counted_ok ec0" and "ex_run E gob ungob unjson ec0 evs = Some (outs, ec)" and "(block, peerAddr, start) \<in> set (ex_senders ec)"
  shows "\<exists>cb. compactBlock (seen ec start (\<lambda>_. length (ex_versions ec))) block ec = Some cb
    \<and> cpb_Header cb = Some (bk_Header block) \<and> cpb_TxHashes cb = map tx_TxHash (bk_Body block) \<and> cpb_MissingTxs cb = []
    \<and> (\<forall>vd r r'. ex_verifyBlock block r \<longrightarrow> handleCompactBlock E vd cb r = Some r' \<longrightarrow> bk_Header (ex_cur r') = bk_Header block \<and> bk_Body (ex_cur r') = [])"
proof -
  from counted_run[OF assms(2,1)] obtain items where i: "filter_state items ec"
    "\<forall>s \<in> set (ex_senders ec). \<forall>tx \<in> set (bk_Body (fst s)). 2 \<le> count_list items (tx_TxHash tx)" unfolding counted_ok_def by (elim exE conjE)
  let ?look = "seen ec start (\<lambda>_. length (ex_versions ec))"
  have look: "?look k = ex_cbf ec" for k
    using i(1) last_conv_nth[of "ex_versions ec"] by (auto simp: seen_def filter_state_def)
  have two: "\<forall>tx \<in> set (bk_Body block). 2 \<le> count_list items (tx_TxHash tx)" using i(2) assms(3) by force
  define cb where "cb = \<lparr>cpb_Header = Some (bk_Header block), cpb_TxHashes = map (tx_TxHash \<circ> snd) (enumerate 0 (bk_Body block)), cpb_MissingTxs = [],
    cpb_CBF = CBF_Encode (ex_cbf ec), cpb_SenderNodeID = ex_NodeID ec, cpb_ShardID = ex_ShardID ec\<rparr>"
  have "compactBlock ?look block ec = Some cb"
    unfolding compactBlock_def look
    by (subst classify_known[of items "ex_cbf ec"]) (use i(1) two look in \<open>auto simp: filter_state_def cb_def in_set_enumerate_eq\<close>)
  moreover have "cpb_TxHashes cb = map tx_TxHash (bk_Body block)" by (simp add: cb_def map_map[symmetric] del: map_map)
  moreover have "bk_Header (ex_cur r') = bk_Header block \<and> bk_Body (ex_cur r') = []"
    if "ex_verifyBlock block r" "handleCompactBlock E vd cb r = Some r'" for vd r r'
  proof -
    let ?b = "(NewBlock (bk_Header block) [])\<lparr>bk_Hash := BH_Hash E (bk_Header block)\<rparr>"
    have "ex_addBlock E vd ?b r = Some r'" using that(2) by (simp add: handleCompactBlock_def cb_def)
    moreover have "ex_verifyBlock ?b r" using that(1) by (simp add: ex_verifyBlock_def NewBlock_def Let_def split: if_splits)
    ultimately have "ex_cur r' = ?b" by (rule ex_addBlock_accepts(2))
    then show ?thesis by (simp add: NewBlock_def)
  qed
  ultimately show ?thesis by (intro exI[of _ cb]) (simp add: cb_def)
qed

lemma demo_ex_counted: "counted_ok demo_ex"
proof (rule counted_okI)
  show "filter_state [tx_TxHash (demo_tx ''c0'')] demo_ex" using demo_ex_holds by (simp add: filter_state_def demo_ex_def)
qed (simp_all add: demo_ex_def)

text \<open>The demo node proposes its transaction; the goroutine for the other node then sends it no transaction.\<close>

theorem compact_block_loses_txs_witness:
  "\<exists>ec cb. ex_run demo_env (\<lambda>_. []) (\<lambda>_. None) (\<lambda>_. None) demo_ex [ExTick demo_tick] = Some ([], ec)
     \<and> compactBlock (seen ec 0 (\<lambda>_. length (ex_versions ec))) demo_ex_block ec = Some cb
     \<and> bk_Body demo_ex_block = [demo_tx ''c0''] \<and> cpb_MissingTxs cb = []"
proof -
  obtain ec where r: "ex_run demo_env (\<lambda>_. []) (\<lambda>_. None) (\<lambda>_. None) demo_ex [ExTick demo_tick] = Some ([], ec)"
    "ex_senders ec = [(demo_ex_block, ''n0'', 0)]"
    using demo_ex_run[of "\<lambda>_. []" "\<lambda>_. None" "\<lambda>_. None"] by (elim exE conjE) (rule that)
  have "(demo_ex_block, ''n0'', 0) \<in> set (ex_senders ec)" by (simp add: r(2))
  from compact_block_loses_txs[OF demo_ex_counted r(1) this] obtain cb where
    "compactBlock (seen ec 0 (\<lambda>_. length (ex_versions ec))) demo_ex_block ec = Some cb" "cpb_MissingTxs cb = []" by (elim exE conjE) (rule that)
  with r(1) show ?thesis by (intro exI[of _ ec] exI[of _ cb]) (simp add: demo_ex_block_def createBlock_fields)
qed

section \<open>Framing\<close>

text \<open>The lines of a stream, without the newlines and without what follows the last of them.\<close>

fun stream_lines :: "bytes \<Rightarrow> bytes \<Rightarrow> bytes list" where
  "stream_lines cur [] = []"
| "stream_lines cur (c # cs) = (if c = CHR 0x0A then cur # stream_lines [] cs else stream_lines (cur @ [c]) cs)"

lemma stream_lines_split:
  "CHR 0x0A \<notin> set xs \<Longrightarrow> stream_lines cur (xs @ CHR 0x0A # ys) = (cur @ xs) # stream_lines [] ys"
  "CHR 0x0A \<notin> set xs \<Longrightarrow> stream_lines cur xs = []"
  by (induction xs arbitrary: cur) auto

text \<open>Where the first newline of a stream is does not depend on the size of the buffer.\<close>

lemma read_message_newline:
  assumes "0 < n" and "CHR 0x0A \<notin> set xs"
  shows "read_message n full (xs @ CHR 0x0A # ys) = Some (full @ xs @ [CHR 0x0A], ys)"
  using assms(2)
proof (induction "length xs" arbitrary: xs full rule: less_induct)
  case less
  let ?s = "xs @ CHR 0x0A # ys"
  have tw: "takeWhile (\<lambda>c. c \<noteq> CHR 0x0A) ?s = xs"
    using less.prems by (subst takeWhile_append2) auto
  show ?case
  proof (cases "length xs < n")
    case True
    then have "ReadSlice n ?s = Line (xs @ [CHR 0x0A]) ys" using tw by (simp add: ReadSlice_def Let_def)
    with assms(1) show ?thesis by (simp add: read_message.simps[of n full ?s])
  next
    case False
    then have rs: "ReadSlice n ?s = Full (take n xs) (drop n xs @ CHR 0x0A # ys)" using tw by (simp add: ReadSlice_def Let_def)
    have "read_message n (full @ take n xs) (drop n xs @ CHR 0x0A # ys) = Some ((full @ take n xs) @ drop n xs @ [CHR 0x0A], ys)"
      using False assms(1) less.prems by (intro less.hyps) (auto dest: in_set_dropD)
    with rs assms(1) show ?thesis by (simp add: read_message.simps[of n full ?s])
  qed
qed

lemma read_message_end:
  assumes "CHR 0x0A \<notin> set xs"
  shows "read_message n full xs = None"
  using assms
proof (induction "length xs" arbitrary: xs full rule: less_induct)
  case less
  have tw: "takeWhile (\<lambda>c. c \<noteq> CHR 0x0A) xs = xs" using less.prems by (auto simp: takeWhile_eq_all_conv)
  show ?case
  proof (cases "n = 0 \<or> length xs < n")
    case True
    have "ReadSlice n xs = Eof" if "n \<noteq> 0" using True that by (simp add: ReadSlice_def Let_def tw)
    then show ?thesis by (subst read_message.simps) simp
  next
    case False
    then have "ReadSlice n xs = Full (take n xs) (drop n xs)" by (simp add: ReadSlice_def Let_def tw)
    moreover have "read_message n (full @ take n xs) (drop n xs) = None"
      using False less.prems by (intro less.hyps) (auto dest: in_set_dropD)
    ultimately show ?thesis using False by (simp add: read_message.simps[of n full xs])
  qed
qed

text \<open>
  The messages that a connection delivers are the non-empty lines of the stream, whatever the size of the read buffer and
  however long the lines; what follows the last newline is dropped. In particular, messages without newlines that were
  sent one after another arrive unchanged and in order.
\<close>

theorem handleConnection_lines:
  assumes "0 < n"
  shows "ex_handleConnection n s = filter (\<lambda>l. l \<noteq> []) (stream_lines [] s)
    \<and> ((\<forall>m \<in> set ms. m \<noteq> [] \<and> CHR 0x0A \<notin> set m) \<longrightarrow> ex_handleConnection n (concat (map (\<lambda>m. m @ [CHR 0x0A]) ms)) = ms)"
proof -
  have lines: "ex_handleConnection n s = filter (\<lambda>l. l \<noteq> []) (stream_lines [] s)" for s
  proof (induction "length s" arbitrary: s rule: less_induct)
    case less
    show ?case
    proof (cases "CHR 0x0A \<in> set s")
      case True
      from split_list_first[OF this] obtain xs ys where s: "s = xs @ CHR 0x0A # ys" "CHR 0x0A \<notin> set xs" by (elim exE conjE) (rule that)
      have "ex_handleConnection n ys = filter (\<lambda>l. l \<noteq> []) (stream_lines [] ys)" by (rule less.hyps) (simp add: s)
      with s assms show ?thesis
        by (subst ex_handleConnection.simps) (simp add: read_message_newline stream_lines_split)
    next
      case False
      then show ?thesis by (subst ex_handleConnection.simps) (simp add: read_message_end stream_lines_split)
    qed
  qed
  have "ex_handleConnection n (concat (map (\<lambda>m. m @ [CHR 0x0A]) ms)) = ms" if "\<forall>m \<in> set ms. m \<noteq> [] \<and> CHR 0x0A \<notin> set m"
    using that unfolding lines by (induction ms) (simp_all add: stream_lines_split)
  with lines show ?thesis by blast
qed

theorem handleConnection_lines_witness:
  "ex_handleConnection 2 (''abcd'' @ [CHR 0x0A, CHR 0x0A] @ ''ef'' @ [CHR 0x0A] @ ''g'') = [''abcd'', ''ef'']"
proof -
  have "(0 :: nat) < 2" by simp
  from handleConnection_lines[OF this] have
    "ex_handleConnection 2 (''abcd'' @ [CHR 0x0A, CHR 0x0A] @ ''ef'' @ [CHR 0x0A] @ ''g'')
      = filter (\<lambda>l. l \<noteq> []) (stream_lines [] (''abcd'' @ [CHR 0x0A, CHR 0x0A] @ ''ef'' @ [CHR 0x0A] @ ''g''))" by blast
  then show ?thesis by simp
qed

end
