(* ===== verification/Net_Layer.thy ===== *)
theory Net_Layer
  imports Wire_Message Params_Config
begin

text \<open>
  The network layer (\<^verbatim>\<open>networks/\<close>): one pooled connection per address, messages framed by a newline, writes cut
  into chunks for a rate limiter. Connections and the limiter are parameters over the state \<open>'w\<close> of the world: \<open>nt_dial\<close> opens a
  connection, \<open>nt_write\<close> writes some bytes and returns how many and whether it failed, \<open>nt_close\<close> closes. \<open>nt_sent w c\<close> is
  what has been written on \<open>c\<close> so far. Writing obeys the contract of \<^verbatim>\<open>io.Writer\<close>: a prefix of the bytes is
  written, and nothing on other connections. Delays and deadlines are left out.
\<close>

section \<open>Writing\<close>

datatype net_error = EmptyAddr | DialError | WriteError | LimitError | ErrNoProgress

record ('w, 'c) net_env =
  nt_dial :: "'w \<Rightarrow> bytes \<Rightarrow> 'c option \<times> 'w"
  nt_write :: "'w \<Rightarrow> 'c \<Rightarrow> bytes \<Rightarrow> nat \<times> bool \<times> 'w"
  nt_close :: "'w \<Rightarrow> 'c \<Rightarrow> 'w"
  nt_sent :: "'w \<Rightarrow> 'c \<Rightarrow> bytes"
  nt_burst :: int
  nt_WaitN :: "int \<Rightarrow> bool"

text \<open>The inner loop of \<^verbatim>\<open>Write\<close>: what is left of a chunk, and the bytes written in total.\<close>

function write_chunk :: "('w, 'c) net_env \<Rightarrow> 'c \<Rightarrow> 'w \<Rightarrow> bytes \<Rightarrow> nat \<Rightarrow> nat \<times> net_error option \<times> 'w" where
  "write_chunk N c w rest tot =
     (if rest = [] then (tot, None, w)
      else let (n, err, w') = nt_write N w c rest
           in if err then (tot + n, Some WriteError, w')
              else if n = 0 then (tot, Some ErrNoProgress, w')
              else write_chunk N c w' (drop n rest) (tot + n))"
  by pat_completeness auto
termination by (relation "measure (\<lambda>(N, c, w, rest, tot). length rest)") auto

declare write_chunk.simps [simp del]

definition chunk_size :: "('w, 'c) net_env \<Rightarrow> bytes \<Rightarrow> nat" where
  "chunk_size N p = min (nat (if nt_burst N \<le> 0 then 1 else nt_burst N)) (length p)"

function limited_Write :: "('w, 'c) net_env \<Rightarrow> 'c \<Rightarrow> 'w \<Rightarrow> bytes \<Rightarrow> nat \<Rightarrow> nat \<times> net_error option \<times> 'w" where
  "limited_Write N c w p tot =
     (if p = [] then (tot, None, w)
      else let chunk = chunk_size N p
           in if \<not> nt_WaitN N (int chunk) then (tot, Some LimitError, w)
              else let (tot, err, w) = write_chunk N c w (take chunk p) tot
                   in if err \<noteq> None then (tot, err, w) else limited_Write N c w (drop chunk p) tot)"
  by pat_completeness auto
termination by (relation "measure (\<lambda>(N, c, w, p, tot). length p)") (auto simp: chunk_size_def)

declare limited_Write.simps [simp del]

definition writeToConn :: "('w, 'c) net_env \<Rightarrow> bytes \<Rightarrow> 'c \<Rightarrow> 'w \<Rightarrow> net_error option \<times> 'w" where
  "writeToConn N connMsg c w = (let (_, err, w) = limited_Write N c w connMsg 0 in (err, w))"

section \<open>Dialing\<close>

text \<open>The delay before a message, in milliseconds; \<open>rnd\<close> is \<^verbatim>\<open>Intn\<close>, which panics unless its argument is positive.\<close>

definition init_params :: "Params \<Rightarrow> Params" where
  "init_params pr =
     pr\<lparr>pm_Delay := (if pm_Delay pr < 0 then 0 else pm_Delay pr), pm_JitterRange := (if pm_JitterRange pr < 0 then 0 else pm_JitterRange pr),
        pm_Bandwidth := (if pm_Bandwidth pr < 0 then 0x7fffffff else pm_Bandwidth pr)\<rparr>"

definition tcp_delay :: "Params \<Rightarrow> (int \<Rightarrow> int) \<Rightarrow> int option" where
  "tcp_delay pr rnd =
     (if pm_JitterRange pr = 0 then Some (pm_Delay pr)
      else if pm_JitterRange pr < 0 then None
      else map_option (\<lambda>h. rnd (pm_JitterRange pr) - h + pm_Delay pr) (go_quot (pm_JitterRange pr) 2))"

record ('w, 'c) net =
  nw_world :: 'w
  nw_pool :: "bytes \<rightharpoonup> 'c"

text \<open>One attempt, under the lock: \<open>None\<close> is success.\<close>

definition dial_attempt :: "('w, 'c) net_env \<Rightarrow> bytes \<Rightarrow> bytes \<Rightarrow> ('w, 'c) net \<Rightarrow> net_error option \<times> ('w, 'c) net" where
  "dial_attempt N context addr s =
     (let (conn, s) = (case nw_pool s addr of
                         Some c \<Rightarrow> (Some c, s)
                       | None \<Rightarrow> let (r, w) = nt_dial N (nw_world s) addr
                                 in (r, s\<lparr>nw_world := w, nw_pool := (nw_pool s)(addr := r)\<rparr>))
      in case conn of
           None \<Rightarrow> (Some DialError, s)
         | Some c \<Rightarrow>
             let (n, err, w) = limited_Write N c (nw_world s) (context @ [CHR 0x0A]) 0
             in if err \<noteq> None then (err, s\<lparr>nw_world := nt_close N w c, nw_pool := (nw_pool s)(addr := None)\<rparr>)
                else (None, s\<lparr>nw_world := w\<rparr>))"

text \<open>The attempts that are left; \<open>other k\<close> is what the other goroutines do while the call sleeps before attempt \<open>k\<close>.\<close>

fun dial_attempts ::
    "('w, 'c) net_env \<Rightarrow> (nat \<Rightarrow> ('w, 'c) net \<Rightarrow> ('w, 'c) net) \<Rightarrow> bytes \<Rightarrow> bytes \<Rightarrow> net_error option \<Rightarrow> nat \<Rightarrow> ('w, 'c) net \<Rightarrow> net_error option \<times> ('w, 'c) net" where
  "dial_attempts N other context addr lastErr 0 s = (lastErr, s)"
| "dial_attempts N other context addr lastErr (Suc k) s =
     (let (err, s) = dial_attempt N context addr s
      in if err = None then (None, s) else dial_attempts N other context addr err k (other k s))"

definition TcpDial ::
    "('w, 'c) net_env \<Rightarrow> (nat \<Rightarrow> ('w, 'c) net \<Rightarrow> ('w, 'c) net) \<Rightarrow> bytes \<Rightarrow> bytes \<Rightarrow> ('w, 'c) net \<Rightarrow> net_error option \<times> ('w, 'c) net" where
  "TcpDial N other context addr s =
     (if addr = [] then (Some EmptyAddr, s) else dial_attempts N other context addr None 5 s)"

text \<open>The goroutines of a broadcast, in the order in which they dial.\<close>

definition net_Broadcast ::
    "('w, 'c) net_env \<Rightarrow> (nat \<Rightarrow> ('w, 'c) net \<Rightarrow> ('w, 'c) net) \<Rightarrow> (bytes list \<Rightarrow> bytes list) \<Rightarrow> bytes \<Rightarrow> bytes list \<Rightarrow> bytes \<Rightarrow> ('w, 'c) net \<Rightarrow> int \<times> int \<times> ('w, 'c) net" where
  "net_Broadcast N other ord sender receivers msg s =
     foldl (\<lambda>(okCnt, failCnt, s) ip. let (err, s) = TcpDial N other msg ip s in if err \<noteq> None then (okCnt, failCnt + 1, s) else (okCnt + 1, failCnt, s))
       (0, 0, s) (ord (filter (\<lambda>ip. ip \<noteq> sender) receivers))"

text \<open>\<open>addrs\<close> lists the pool in the order in which it is ranged over.\<close>

definition CloseAllConnInPool :: "('w, 'c) net_env \<Rightarrow> bytes list \<Rightarrow> ('w, 'c) net \<Rightarrow> ('w, 'c) net" where
  "CloseAllConnInPool N addrs s =
     \<lparr>nw_world = foldl (\<lambda>w a. case nw_pool s a of None \<Rightarrow> w | Some c \<Rightarrow> nt_close N w c) (nw_world s) addrs, nw_pool = Map.empty\<rparr>"

section \<open>Reading\<close>

text \<open>\<^verbatim>\<open>ReadBytes\<close> up to the newline, or all that is left with \<^verbatim>\<open>io.EOF\<close>, which \<^verbatim>\<open>readMessage\<close> takes for success: it never returns an error.\<close>

definition readMessage :: "bytes \<Rightarrow> bytes \<times> bytes" where
  "readMessage buffer =
     (let l = takeWhile (\<lambda>c. c \<noteq> CHR 0x0A) buffer in (take (Suc (length l)) buffer, drop (Suc (length l)) buffer))"

text \<open>The inner loop of \<^verbatim>\<open>ReadFromConn\<close>, which only an error of \<^verbatim>\<open>readMessage\<close> leaves; it returns the messages it logged.\<close>

partial_function (option) read_loop :: "bytes \<Rightarrow> bytes list \<Rightarrow> bytes list option" where
  "read_loop buffer logged = (let (message, rest) = readMessage buffer in read_loop rest (logged @ [message]))"

text \<open>\<open>reads\<close> are the results of the reads from the connection; \<^verbatim>\<open>Read\<close> fails at its end.\<close>

fun read_conn :: "bytes list \<Rightarrow> bytes \<Rightarrow> bytes list \<Rightarrow> bytes list option" where
  "read_conn [] buffer logged = Some logged"
| "read_conn (b # bs) buffer logged = do { logged \<leftarrow> read_loop (buffer @ b) logged; read_conn bs [] logged }"

text \<open>\<open>reads c\<close> are the bytes that successive reads from the connection \<open>c\<close> return, before one fails.\<close>

definition ReadFromConn :: "('c \<Rightarrow> bytes list) \<Rightarrow> bytes \<Rightarrow> ('w, 'c) net \<Rightarrow> bytes list option" where
  "ReadFromConn reads addr s = (case nw_pool s addr of None \<Rightarrow> Some [] | Some c \<Rightarrow> read_conn (reads c) [] [])"

text \<open>\<^verbatim>\<open>rateLimitedReader.Read\<close> before the read itself: it waits for all that is left, and counts a burst. \<open>True\<close> when it goes on to read.\<close>

partial_function (option) limited_Read_wait :: "int \<Rightarrow> (int \<Rightarrow> bool) \<Rightarrow> int \<Rightarrow> bool option" where
  "limited_Read_wait burst waitN n =
     (if n \<le> 0 then Some True
      else if \<not> waitN n then Some False
      else limited_Read_wait burst waitN (n - (if burst > n then n else burst)))"

section \<open>Traffic\<close>

text \<open>\<open>pp\<close> decodes the type of the request of a pre-prepare message, if it has one, and \<open>vote\<close> the digest of a vote; \<open>digests\<close> are those marked as migrations.\<close>

definition trafficCategory :: "(bytes \<Rightarrow> bytes option) \<Rightarrow> (bytes \<Rightarrow> bytes option) \<Rightarrow> bytes list \<Rightarrow> bytes \<Rightarrow> bytes option" where
  "trafficCategory pp vote digests data =
     (if length data < 30 then Some ''other''
      else do { (t, b) \<leftarrow> SplitMessage data;
                Some (if t = ''OHStream'' then ''stream''
                      else if t \<in> {''OHMissing'', ''OHBodies'', ''requestOldrequest'', ''sendOldrequest''} then ''recovery''
                      else if t = ''OHCompact'' then ''consensus''
                      else if t = ''inject'' then ''injection''
                      else if t \<in> {''relay'', ''CRelay&Proof''} then ''cross_shard''
                      else if t \<in> {''PartitionModifiedMap'', ''AccountState&txs'', ''ready for partition'', ''OHMigrationDone''} then ''migration''
                      else if t = ''preprepare'' then (if pp b = Some PartitionReq then ''migration'' else ''consensus'')
                      else if t \<in> {''prepare'', ''commit''}
                      then (case vote b of Some d \<Rightarrow> if d \<in> set digests then ''migration'' else ''consensus'' | None \<Rightarrow> ''consensus'')
                      else if t \<in> {''ViewChangePropose'', ''NewChange''} then ''consensus''
                      else if t \<in> {''BlockInfo'', ''stop''} then ''control''
                      else ''other'') })"

text \<open>\<^verbatim>\<open>MarkMigrationDigest\<close>\<close>

definition MarkMigrationDigest :: "bytes \<Rightarrow> bytes list \<Rightarrow> bytes list" where
  "MarkMigrationDigest digest digests = List.insert digest digests"

section \<open>Facts\<close>

definition write_laws :: "('w, 'c) net_env \<Rightarrow> bool" where
  "write_laws N \<longleftrightarrow> (\<forall>w c p n err w'. nt_write N w c p = (n, err, w') \<longrightarrow> n \<le> length p
     \<and> nt_sent N w' c = nt_sent N w c @ take n p \<and> (\<forall>c'. c' \<noteq> c \<longrightarrow> nt_sent N w' c' = nt_sent N w c'))"

lemma write_lawsD:
  assumes "write_laws N" "nt_write N w c p = (n, err, w')"
  shows "n \<le> length p" "nt_sent N w' c = nt_sent N w c @ take n p"
  using assms unfolding write_laws_def by blast+

lemma write_chunk_sent:
  assumes "write_laws N" and "write_chunk N c w rest tot = (tot', err, w')"
  shows "tot \<le> tot' \<and> tot' - tot \<le> length rest \<and> nt_sent N w' c = nt_sent N w c @ take (tot' - tot) rest
    \<and> (err = None \<longrightarrow> tot' = tot + length rest)"
  using assms(2)
proof (induction "length rest" arbitrary: w rest tot rule: less_induct)
  case less
  show ?case
  proof (cases "rest = []")
    case True
    with less.prems show ?thesis by (simp add: write_chunk.simps)
  next
    case False
    obtain n e w1 where wr: "nt_write N w c rest = (n, e, w1)" by (cases "nt_write N w c rest") auto
    note l = write_lawsD[OF assms(1) wr]
    show ?thesis
    proof (cases "e \<or> n = 0")
      case True
      with less.prems False wr l show ?thesis by (subst (asm) write_chunk.simps) (auto split: if_splits)
    next
      case n: False
      with less.prems False wr have "write_chunk N c w1 (drop n rest) (tot + n) = (tot', err, w')" by (subst (asm) write_chunk.simps) simp
      moreover have "length (drop n rest) < length rest" using False n by simp
      ultimately have IH: "tot + n \<le> tot'" "tot' - (tot + n) \<le> length rest - n" "nt_sent N w' c = nt_sent N w1 c @ take (tot' - (tot + n)) (drop n rest)"
        "err = None \<longrightarrow> tot' = tot + n + length (drop n rest)" using less.hyps[of "drop n rest" w1 "tot + n"] by simp_all
      have "take n rest @ take (tot' - (tot + n)) (drop n rest) = take (tot' - tot) rest"
        using IH(1) by (simp add: take_add[symmetric])
      with IH l show ?thesis by auto
    qed
  qed
qed

lemma limited_Write_sent:
  assumes "write_laws N" and "limited_Write N c w p tot = (tot', err, w')"
  shows "tot \<le> tot' \<and> tot' - tot \<le> length p \<and> nt_sent N w' c = nt_sent N w c @ take (tot' - tot) p \<and> (err = None \<longrightarrow> tot' = tot + length p)"
  using assms(2)
proof (induction "length p" arbitrary: w p tot rule: less_induct)
  case less
  show ?case
  proof (cases "p = [] \<or> \<not> nt_WaitN N (int (chunk_size N p))")
    case True
    with less.prems show ?thesis by (subst (asm) limited_Write.simps) (auto split: if_splits)
  next
    case False
    define k where "k = chunk_size N p"
    have k: "0 < k" "k \<le> length p" using False by (auto simp: k_def chunk_size_def)
    obtain t1 e1 w1 where wc: "write_chunk N c w (take k p) tot = (t1, e1, w1)" by (cases "write_chunk N c w (take k p) tot") auto
    note ch = write_chunk_sent[OF assms(1) wc]
    show ?thesis
    proof (cases "e1 = None")
      case False': False
      with less.prems False wc have "(tot', err, w') = (t1, e1, w1)" by (subst (asm) limited_Write.simps) (simp add: Let_def flip: k_def)
      with ch False' k show ?thesis by (auto simp: min_absorb1 min_absorb2)
    next
      case True
      with less.prems False wc have "limited_Write N c w1 (drop k p) t1 = (tot', err, w')"
        by (subst (asm) limited_Write.simps) (simp add: Let_def flip: k_def)
      moreover have "length (drop k p) < length p" using False k by simp
      ultimately have IH: "t1 \<le> tot'" "tot' - t1 \<le> length p - k" "nt_sent N w' c = nt_sent N w1 c @ take (tot' - t1) (drop k p)"
        "err = None \<longrightarrow> tot' = t1 + length (drop k p)" using less.hyps[of "drop k p" w1 t1] by simp_all
      have t1: "t1 = tot + k" using ch True k by simp
      have "take k p @ take (tot' - t1) (drop k p) = take (tot' - tot) p"
        using IH(1) t1 by (simp add: take_add[symmetric])
      with IH ch t1 k show ?thesis by (auto simp: min_def)
    qed
  qed
qed

section \<open>A call of the dialer\<close>

text \<open>The state before the \<open>j\<close>-th of the \<open>m\<close> attempts that are left, from 0, when the attempts before it fail.\<close>

fun before_attempt :: "('w, 'c) net_env \<Rightarrow> (nat \<Rightarrow> ('w, 'c) net \<Rightarrow> ('w, 'c) net) \<Rightarrow> bytes \<Rightarrow> bytes \<Rightarrow> nat \<Rightarrow> ('w, 'c) net \<Rightarrow> nat \<Rightarrow> ('w, 'c) net" where
  "before_attempt N other context addr m s 0 = s"
| "before_attempt N other context addr m s (Suc j) = before_attempt N other context addr (m - 1) (other (m - 1) (snd (dial_attempt N context addr s))) j"

text \<open>The whole frame was written, in one piece, on the pooled connection or on a new one.\<close>

definition delivered :: "('w, 'c) net_env \<Rightarrow> bytes \<Rightarrow> bytes \<Rightarrow> ('w, 'c) net \<Rightarrow> ('w, 'c) net \<Rightarrow> bool" where
  "delivered N context addr s s' \<longleftrightarrow>
     (\<exists>c w. nw_pool s' addr = Some c
        \<and> (nw_pool s addr = Some c \<and> w = nw_world s \<or> nw_pool s addr = None \<and> nt_dial N (nw_world s) addr = (Some c, w))
        \<and> nt_sent N (nw_world s') c = nt_sent N w c @ context @ [CHR 0x0A])"

lemma dial_attempt_ok:
  assumes "write_laws N" and "dial_attempt N context addr s = (None, s')"
  shows "delivered N context addr s s'"
proof -
  from assms(2) obtain c w0 n where c: "nw_pool s' addr = Some c" "limited_Write N c w0 (context @ [CHR 0x0A]) 0 = (n, None, nw_world s')"
    "nw_pool s addr = Some c \<and> w0 = nw_world s \<or> nw_pool s addr = None \<and> nt_dial N (nw_world s) addr = (Some c, w0)"
    by (auto simp: dial_attempt_def Let_def split: option.splits prod.splits if_splits)
  from limited_Write_sent[OF assms(1) c(2)] have "nt_sent N (nw_world s') c = nt_sent N w0 c @ context @ [CHR 0x0A]" by simp
  with c show ?thesis unfolding delivered_def by (intro exI[of _ c] exI[of _ w0]) simp
qed

lemma dial_attempt_failed: "dial_attempt N context addr s = (Some e, s') \<Longrightarrow> nw_pool s' addr = None"
  by (auto simp: dial_attempt_def Let_def split: option.splits prod.splits if_splits)

lemma dial_attempts_cases:
  assumes "dial_attempts N other context addr e m s = (err, s')" and "0 < m"
  shows "case err of
      None \<Rightarrow> \<exists>k < m. (\<forall>i < k. fst (dial_attempt N context addr (before_attempt N other context addr m s i)) \<noteq> None)
                \<and> dial_attempt N context addr (before_attempt N other context addr m s k) = (None, s')
    | Some _ \<Rightarrow> \<forall>i < m. fst (dial_attempt N context addr (before_attempt N other context addr m s i)) \<noteq> None"
  using assms
proof (induction m arbitrary: e s)
  case (Suc m)
  let ?ba = "before_attempt N other context addr"
  obtain e1 s1 where a: "dial_attempt N context addr s = (e1, s1)" by force
  show ?case
  proof (cases e1)
    case None
    with Suc.prems(1) a have "err = None" "s' = s1" by auto
    with None a show ?thesis by (auto intro!: exI[of _ 0])
  next
    case (Some x)
    with Suc.prems(1) a have r: "dial_attempts N other context addr e1 m (other m s1) = (err, s')" by auto
    have step: "?ba (Suc m) s (Suc i) = ?ba m (other m s1) i" for i by (simp add: a)
    have first: "fst (dial_attempt N context addr (?ba (Suc m) s 0)) \<noteq> None" using a Some by simp
    show ?thesis
    proof (cases "m = 0")
      case True
      with r Some have "err = Some x" by simp
      with first True show ?thesis by (simp add: less_Suc_eq)
    next
      case False
      with Suc.IH[OF r] have IH: "case err of
          None \<Rightarrow> \<exists>k < m. (\<forall>i < k. fst (dial_attempt N context addr (?ba m (other m s1) i)) \<noteq> None) \<and> dial_attempt N context addr (?ba m (other m s1) k) = (None, s')
        | Some _ \<Rightarrow> \<forall>i < m. fst (dial_attempt N context addr (?ba m (other m s1) i)) \<noteq> None" by simp
      show ?thesis
      proof (cases err)
        case None
        with IH obtain k where k: "k < m" "\<forall>i < k. fst (dial_attempt N context addr (?ba m (other m s1) i)) \<noteq> None"
          "dial_attempt N context addr (?ba m (other m s1) k) = (None, s')" by auto
        then have "\<forall>i < Suc k. fst (dial_attempt N context addr (?ba (Suc m) s i)) \<noteq> None"
          using first step by (metis less_Suc_eq_0_disj)
        with None k step show ?thesis by (auto intro!: exI[of _ "Suc k"] simp del: before_attempt.simps)
      next
        case (Some y)
        with IH have "\<forall>i < m. fst (dial_attempt N context addr (?ba m (other m s1) i)) \<noteq> None" by simp
        then have "\<forall>i < Suc m. fst (dial_attempt N context addr (?ba (Suc m) s i)) \<noteq> None"
          using first step by (metis less_Suc_eq_0_disj)
        with Some show ?thesis by simp
      qed
    qed
  qed
qed simp

text \<open>
  A call of \<^verbatim>\<open>TcpDial\<close>, whatever other goroutines do between its attempts. An empty address is an error and nothing else happens.
  When the call succeeds, one of at most five attempts wrote the whole message and its newline in one piece, on the pooled
  connection or on one it opened, which is then pooled; each attempt before it failed and left no connection in the pool. When it returns an error,
  all five attempts have failed.
\<close>

theorem TcpDial_frames:
  assumes "write_laws N" and "TcpDial N other context addr s = (err, s')"
  shows "if addr = [] then err = Some EmptyAddr \<and> s' = s
    else case err of
      None \<Rightarrow> \<exists>k < 5. delivered N context addr (before_attempt N other context addr 5 s k) s'
        \<and> (\<forall>i < k. \<exists>e s1. dial_attempt N context addr (before_attempt N other context addr 5 s i) = (Some e, s1) \<and> nw_pool s1 addr = None)
    | Some _ \<Rightarrow> \<forall>i < 5. \<exists>e s1. dial_attempt N context addr (before_attempt N other context addr 5 s i) = (Some e, s1) \<and> nw_pool s1 addr = None"
proof (cases "addr = []")
  case True
  with assms(2) show ?thesis by (simp add: TcpDial_def)
next
  case False
  let ?ba = "before_attempt N other context addr 5 s"
  have fail: "\<exists>e s1. dial_attempt N context addr s0 = (Some e, s1) \<and> nw_pool s1 addr = None" if "fst (dial_attempt N context addr s0) \<noteq> None" for s0
    using that dial_attempt_failed by (cases "dial_attempt N context addr s0") auto
  from False assms(2) have "dial_attempts N other context addr None 5 s = (err, s')" by (simp add: TcpDial_def)
  from dial_attempts_cases[OF this] have c: "case err of
      None \<Rightarrow> \<exists>k < 5. (\<forall>i < k. fst (dial_attempt N context addr (?ba i)) \<noteq> None) \<and> dial_attempt N context addr (?ba k) = (None, s')
    | Some _ \<Rightarrow> \<forall>i < 5. fst (dial_attempt N context addr (?ba i)) \<noteq> None" by simp
  show ?thesis
  proof (cases err)
    case None
    with c obtain k where k: "k < 5" "\<forall>i < k. fst (dial_attempt N context addr (?ba i)) \<noteq> None" "dial_attempt N context addr (?ba k) = (None, s')" by auto
    have "\<forall>i < k. \<exists>e s1. dial_attempt N context addr (?ba i) = (Some e, s1) \<and> nw_pool s1 addr = None" using k(2) fail by blast
    with None False k(1) dial_attempt_ok[OF assms(1) k(3)] show ?thesis by auto
  next
    case (Some e)
    with c have "\<forall>i < 5. fst (dial_attempt N context addr (?ba i)) \<noteq> None" by simp
    with fail have "\<forall>i < 5. \<exists>e s1. dial_attempt N context addr (?ba i) = (Some e, s1) \<and> nw_pool s1 addr = None" by blast
    with Some False show ?thesis by simp
  qed
qed

text \<open>Connections are numbers, the world is what was written on each; a write takes at most three bytes, a burst is four.\<close>

definition demo_net :: "(nat \<Rightarrow> bytes, nat) net_env" where
  "demo_net = \<lparr>nt_dial = (\<lambda>w addr. (Some (length addr), w)), nt_write = (\<lambda>w c p. (length (take 3 p), False, w(c := w c @ take 3 p))),
     nt_close = (\<lambda>w c. w), nt_sent = (\<lambda>w c. w c), nt_burst = 4, nt_WaitN = (\<lambda>n. n \<le> 4)\<rparr>"

definition demo_net_start :: "(nat \<Rightarrow> bytes, nat) net" where
  "demo_net_start = \<lparr>nw_world = (\<lambda>_. []), nw_pool = Map.empty\<rparr>"

theorem TcpDial_frames_witness:
  "\<exists>s' k. TcpDial demo_net (\<lambda>_ s. s) ''hello'' ''n0'' demo_net_start = (None, s')
     \<and> delivered demo_net ''hello'' ''n0'' (before_attempt demo_net (\<lambda>_ s. s) ''hello'' ''n0'' 5 demo_net_start k) s'
     \<and> nw_world s' 2 = ''hello'' @ [CHR 0x0A]"
proof -
  have "take 3 p = take (min (length p) 3) p" for p :: bytes by (metis min.commute take_all_iff take_take length_take order_refl)
  then have laws: "write_laws demo_net" by (auto simp: write_laws_def demo_net_def)
  have "fst (TcpDial demo_net (\<lambda>_ s. s) ''hello'' ''n0'' demo_net_start) = None"
    "nw_world (snd (TcpDial demo_net (\<lambda>_ s. s) ''hello'' ''n0'' demo_net_start)) 2 = ''hello'' @ [CHR 0x0A]"
    by code_simp+
  then obtain s' where t: "TcpDial demo_net (\<lambda>_ s. s) ''hello'' ''n0'' demo_net_start = (None, s')" "nw_world s' 2 = ''hello'' @ [CHR 0x0A]"
    by (cases "TcpDial demo_net (\<lambda>_ s. s) ''hello'' ''n0'' demo_net_start") auto
  from TcpDial_frames[OF laws t(1)] t show ?thesis by auto
qed

lemma read_loop_None: "read_loop buffer logged = None"
proof -
  have "False" if "read_loop buffer logged = Some r" for r
    by (rule read_loop.raw_induct[of "\<lambda>_ _ _. False", OF _ that]) (auto simp: Let_def split: prod.splits)
  then show ?thesis by (cases "read_loop buffer logged") auto
qed

text \<open>The limiter grants no more than a burst at once, so a read into a buffer larger than a burst fails.\<close>

lemma limited_Read_wait_large: "(\<And>m. m > burst \<Longrightarrow> \<not> waitN m) \<Longrightarrow> 0 < n \<Longrightarrow> burst < n \<Longrightarrow> limited_Read_wait burst waitN n = Some False"
  by (simp add: limited_Read_wait.simps)

text \<open>
  \<^verbatim>\<open>ReadFromConn\<close> returns exactly when there is no connection to the address or its first read fails: once
  anything has been read it does not return, since \<^verbatim>\<open>readMessage\<close> takes the end of its buffer for an empty message and never
  reports an error, so that the inner loop has no end. It logs nothing when it returns.
\<close>

theorem ReadFromConn_never_returns:
  "ReadFromConn reads addr s =
     (case nw_pool s addr of None \<Rightarrow> Some [] | Some c \<Rightarrow> if reads c = [] then Some [] else None)"
proof (cases "nw_pool s addr")
  case (Some c)
  then show ?thesis by (cases "reads c") (simp_all add: ReadFromConn_def read_loop_None)
qed (simp add: ReadFromConn_def)

end
