(* ===== verification/Net_Delivery.thy ===== *)
theory Net_Delivery
  imports Net_Layer Ex_Props
begin

text \<open>
  The receiving end of connections (\<^verbatim>\<open>handleClientRequest\<close> of \<^verbatim>\<open>pbft_all/pbft.go\<close> and \<^verbatim>\<open>supervisor/supervisor.go\<close>; that of ExClique is in
  \<^theory_text>\<open>Ex_Node\<close>), and the way of a message from \<^verbatim>\<open>TcpDial\<close> to the handler of its receiver. A connection is the bytes that were written on it; it
  ends with \<^verbatim>\<open>io.EOF\<close>. The locale \<open>line_reader\<close> is what the three reading loops have in common.
\<close>

section \<open>Reading requests\<close>

text \<open>\<^verbatim>\<open>ReadBytes\<close> on a stream that ends: the line with its newline and the rest, or \<^const>\<open>None\<close> when no newline is left.\<close>

definition ReadBytes :: "bytes \<Rightarrow> (bytes \<times> bytes) option" where
  "ReadBytes s =
     (let l = takeWhile (\<lambda>c. c \<noteq> CHR 0x0A) s
      in if length l < length s then Some (l @ [CHR 0x0A], drop (Suc (length l)) s) else None)"

lemma ReadBytes_shorter: "ReadBytes s = Some (l, rest) \<Longrightarrow> length rest < length s"
  by (auto simp: ReadBytes_def Let_def split: if_splits)

text \<open>The requests handed to \<^verbatim>\<open>handleMessage\<close>. A PBFT node looks at its stop signal after each read; \<open>stop k\<close> is what it sees after the \<open>k\<close>-th.\<close>

function pbft_handleClientRequest :: "(nat \<Rightarrow> bool) \<Rightarrow> bytes \<Rightarrow> bytes list" where
  "pbft_handleClientRequest stop s =
     (if stop 0 then []
      else case ReadBytes s of
        None \<Rightarrow> []
      | Some (clientRequest, rest) \<Rightarrow> clientRequest # pbft_handleClientRequest (\<lambda>k. stop (Suc k)) rest)"
  by pat_completeness auto
termination by (relation "measure (\<lambda>(stop, s). length s)") (auto dest: ReadBytes_shorter)

declare pbft_handleClientRequest.simps [simp del]

function sv_handleClientRequest :: "bytes \<Rightarrow> bytes list" where
  "sv_handleClientRequest s =
     (case ReadBytes s of
        None \<Rightarrow> []
      | Some (clientRequest, rest) \<Rightarrow> clientRequest # sv_handleClientRequest rest)"
  by pat_completeness auto
termination by (relation "measure length") (auto dest: ReadBytes_shorter)

declare sv_handleClientRequest.simps [simp del]

definition framed :: "bytes \<Rightarrow> bytes" where
  "framed m = m @ [CHR 0x0A]"

lemma ReadBytes_frame: "CHR 0x0A \<notin> set m \<Longrightarrow> ReadBytes (framed m @ s) = Some (framed m, s)"
proof -
  assume "CHR 0x0A \<notin> set m"
  then have "takeWhile (\<lambda>c. c \<noteq> CHR 0x0A) (m @ CHR 0x0A # s) = m" by (subst takeWhile_append2) auto
  then show ?thesis by (simp add: ReadBytes_def Let_def framed_def)
qed

lemma ReadBytes_end: "CHR 0x0A \<notin> set s \<Longrightarrow> ReadBytes s = None"
proof -
  assume "CHR 0x0A \<notin> set s"
  then have "takeWhile (\<lambda>c. c \<noteq> CHR 0x0A) s = s" by (auto simp: takeWhile_eq_all_conv)
  then show ?thesis by (simp add: ReadBytes_def del: takeWhile_eq_all_conv)
qed

text \<open>A reading loop hands over \<open>item m\<close> for a frame of \<open>m\<close>, and nothing for what follows the last newline.\<close>

locale line_reader =
  fixes read_all :: "bytes \<Rightarrow> bytes list" and item :: "bytes \<Rightarrow> bytes list"
  assumes read_frame: "CHR 0x0A \<notin> set m \<Longrightarrow> read_all (framed m @ s) = item m @ read_all s"
    and read_end: "CHR 0x0A \<notin> set s \<Longrightarrow> read_all s = []"
    and item_short: "length (item m) \<le> 1"
begin

lemma read_frames:
  "\<forall>m \<in> set ms. CHR 0x0A \<notin> set m \<Longrightarrow> read_all (concat (map framed ms) @ rest) = concat (map item ms) @ read_all rest"
  by (induction ms) (simp_all add: read_frame)

text \<open>The beginning of a frame counts when it is the whole frame.\<close>

lemma read_tail:
  assumes "CHR 0x0A \<notin> set m" and "framed m = tail @ rest"
  shows "read_all tail = (if rest = [] then item m else [])"
proof (cases "rest = []")
  case True
  with assms read_frame[of m "[]"] read_end[of "[]"] show ?thesis by simp
next
  case False
  then have "set tail \<subseteq> set m" using assms(2) by (cases rest rule: rev_cases) (auto simp: framed_def)
  with assms(1) have "read_all tail = []" by (intro read_end) blast
  with False show ?thesis by simp
qed

end

interpretation sv: line_reader sv_handleClientRequest "\<lambda>m. [framed m]"
proof
  show "sv_handleClientRequest (framed m @ s) = [framed m] @ sv_handleClientRequest s" if "CHR 0x0A \<notin> set m" for m s
    using that by (subst sv_handleClientRequest.simps) (simp add: ReadBytes_frame)
  show "sv_handleClientRequest s = []" if "CHR 0x0A \<notin> set s" for s
    using that by (subst sv_handleClientRequest.simps) (simp add: ReadBytes_end)
qed simp

interpretation pbft: line_reader "pbft_handleClientRequest (\<lambda>_. False)" "\<lambda>m. [framed m]"
proof
  show "pbft_handleClientRequest (\<lambda>_. False) (framed m @ s) = [framed m] @ pbft_handleClientRequest (\<lambda>_. False) s" if "CHR 0x0A \<notin> set m" for m s
    using that by (subst pbft_handleClientRequest.simps) (simp add: ReadBytes_frame)
  show "pbft_handleClientRequest (\<lambda>_. False) s = []" if "CHR 0x0A \<notin> set s" for s
    using that by (subst pbft_handleClientRequest.simps) (simp add: ReadBytes_end)
qed simp

interpretation ex: line_reader "ex_handleConnection (Suc n)" "\<lambda>m. if m = [] then [] else [m]" for n
proof
  show "ex_handleConnection (Suc n) (framed m @ s) = (if m = [] then [] else [m]) @ ex_handleConnection (Suc n) s" if "CHR 0x0A \<notin> set m" for m s
    using that by (subst ex_handleConnection.simps) (simp add: read_message_newline framed_def)
  show "ex_handleConnection (Suc n) s = []" if "CHR 0x0A \<notin> set s" for s
    using that by (subst ex_handleConnection.simps) (simp add: read_message_end)
qed simp

text \<open>A node that is stopped handles a prefix of what it would handle otherwise.\<close>

lemma pbft_handleClientRequest_stop:
  "stop n \<Longrightarrow> (\<And>k. k < n \<Longrightarrow> \<not> stop k) \<Longrightarrow> pbft_handleClientRequest stop s = take n (pbft_handleClientRequest (\<lambda>_. False) s)"
proof (induction n arbitrary: stop s)
  case 0
  then show ?case by (subst pbft_handleClientRequest.simps) simp
next
  case (Suc n)
  show ?case
  proof (cases "ReadBytes s")
    case None
    then show ?thesis by (simp add: pbft_handleClientRequest.simps[of _ s])
  next
    case (Some p)
    obtain l rest where p: "p = (l, rest)" by (cases p)
    have "pbft_handleClientRequest (\<lambda>k. stop (Suc k)) rest = take n (pbft_handleClientRequest (\<lambda>_. False) rest)"
      by (rule Suc.IH) (use Suc.prems in auto)
    with Some p Suc.prems(2)[of 0] show ?thesis by (simp add: pbft_handleClientRequest.simps[of _ s])
  qed
qed

section \<open>Sending\<close>

text \<open>What the network layer relies on: \<open>used w\<close> are the connections opened so far; a new one is not among them and nothing has been
  written on it, and nothing but writing changes what was written.\<close>

definition conn_laws :: "('w, 'c) net_env \<Rightarrow> ('w \<Rightarrow> 'c set) \<Rightarrow> bool" where
  "conn_laws N used \<longleftrightarrow>
     (\<forall>w a r w'. nt_dial N w a = (r, w') \<longrightarrow> (\<forall>c \<in> used w. nt_sent N w' c = nt_sent N w c)
        \<and> (case r of None \<Rightarrow> used w' = used w | Some c \<Rightarrow> c \<notin> used w \<and> used w' = insert c (used w) \<and> nt_sent N w' c = []))
     \<and> (\<forall>w c p n err w'. nt_write N w c p = (n, err, w') \<longrightarrow> used w' = used w)
     \<and> (\<forall>w c. used (nt_close N w c) = used w \<and> nt_sent N (nt_close N w c) = nt_sent N w)"

lemma conn_lawsD:
  assumes "conn_laws N used"
  shows "nt_write N w c p = (n, err, w') \<Longrightarrow> used w' = used w"
    "used (nt_close N w c) = used w" "nt_sent N (nt_close N w c) = nt_sent N w"
    "nt_dial N w a = (r, w') \<Longrightarrow> c' \<in> used w \<Longrightarrow> nt_sent N w' c' = nt_sent N w c'"
    "nt_dial N w a = (None, w') \<Longrightarrow> used w' = used w"
    "nt_dial N w a = (Some c, w') \<Longrightarrow> c \<notin> used w \<and> used w' = insert c (used w) \<and> nt_sent N w' c = []"
  using assms unfolding conn_laws_def by (blast, blast, blast, blast, fastforce, fastforce)

lemma write_chunk_frame:
  assumes "write_laws N" "conn_laws N used" and "write_chunk N c w rest tot = (tot', err, w')"
  shows "used w' = used w \<and> (\<forall>c'. c' \<noteq> c \<longrightarrow> nt_sent N w' c' = nt_sent N w c')"
  using assms(3)
proof (induction "length rest" arbitrary: w rest tot rule: less_induct)
  case less
  obtain n e w1 where wr: "nt_write N w c rest = (n, e, w1)" by (cases "nt_write N w c rest") auto
  have f: "used w1 = used w" "\<forall>c'. c' \<noteq> c \<longrightarrow> nt_sent N w1 c' = nt_sent N w c'"
    using wr assms(1) conn_lawsD(1)[OF assms(2) wr] by (simp, unfold write_laws_def, blast)
  show ?case
  proof (cases "rest = [] \<or> e \<or> n = 0")
    case True
    then show ?thesis using less.prems wr f by (subst (asm) write_chunk.simps) (auto split: if_splits)
  next
    case False
    then have "write_chunk N c w1 (drop n rest) (tot + n) = (tot', err, w')" using less.prems wr by (subst (asm) write_chunk.simps) simp
    from less.hyps[OF _ this] False f show ?thesis by simp
  qed
qed

lemma limited_Write_frame:
  assumes "write_laws N" "conn_laws N used" and "limited_Write N c w p tot = (tot', err, w')"
  shows "used w' = used w \<and> (\<forall>c'. c' \<noteq> c \<longrightarrow> nt_sent N w' c' = nt_sent N w c')"
  using assms(3)
proof (induction "length p" arbitrary: w p tot rule: less_induct)
  case less
  define k where "k = chunk_size N p"
  obtain t1 e1 w1 where wc: "write_chunk N c w (take k p) tot = (t1, e1, w1)" by (cases "write_chunk N c w (take k p) tot") auto
  note f = write_chunk_frame[OF assms(1,2) wc]
  show ?case
  proof (cases "p = [] \<or> \<not> nt_WaitN N (int k) \<or> e1 \<noteq> None")
    case True
    then show ?thesis using less.prems wc f by (subst (asm) limited_Write.simps) (auto simp: Let_def simp flip: k_def split: if_splits)
  next
    case False
    then have "limited_Write N c w1 (drop k p) t1 = (tot', err, w')"
      using less.prems wc by (subst (asm) limited_Write.simps) (simp add: Let_def flip: k_def)
    moreover have "length (drop k p) < length p" using False by (auto simp: k_def chunk_size_def)
    ultimately show ?thesis using less.hyps f by metis
  qed
qed

text \<open>
  A process makes attempts, each under the lock of the pool: those of all its calls of \<^verbatim>\<open>TcpDial\<close>, in the order in which they get the
  lock. \<open>hist\<close> has the connection and the message of the attempts that succeeded.
\<close>

definition attempt_step :: "('w, 'c) net_env \<Rightarrow> ('c \<times> bytes) list \<times> ('w, 'c) net \<Rightarrow> bytes \<times> bytes \<Rightarrow> ('c \<times> bytes) list \<times> ('w, 'c) net" where
  "attempt_step N st send =
     (case (st, send) of ((hist, s), (m, addr)) \<Rightarrow>
        case dial_attempt N m addr s of
          (None, s') \<Rightarrow> (hist @ [(the (nw_pool s' addr), m)], s')
        | (Some _, s') \<Rightarrow> (hist, s'))"

definition sent_on :: "'c \<Rightarrow> ('c \<times> bytes) list \<Rightarrow> bytes list" where
  "sent_on c hist = map snd (filter (\<lambda>e. fst e = c) hist)"

text \<open>Pooled connections hold whole frames; a connection that was given up may hold the beginning of one more.\<close>

definition conns_ok :: "('w, 'c) net_env \<Rightarrow> ('w \<Rightarrow> 'c set) \<Rightarrow> 'c set \<Rightarrow> (bytes \<Rightarrow> bool) \<Rightarrow> ('c \<times> bytes) list \<Rightarrow> ('w, 'c) net \<Rightarrow> bool" where
  "conns_ok N used old ok hist s \<longleftrightarrow>
     (\<forall>a b c. nw_pool s a = Some c \<and> nw_pool s b = Some c \<longrightarrow> a = b)
   \<and> (\<forall>a c. nw_pool s a = Some c \<longrightarrow> c \<in> used (nw_world s) - old \<and> nt_sent N (nw_world s) c = concat (map framed (sent_on c hist)))
   \<and> (\<forall>e \<in> set hist. fst e \<in> used (nw_world s) - old \<and> ok (snd e)) \<and> old \<subseteq> used (nw_world s)
   \<and> (\<forall>c \<in> used (nw_world s) - old. \<exists>m tail rest. ok m \<and> framed m = tail @ rest
        \<and> nt_sent N (nw_world s) c = concat (map framed (sent_on c hist)) @ tail)"

lemma conns_okI:
  assumes "\<And>a b c. nw_pool s a = Some c \<Longrightarrow> nw_pool s b = Some c \<Longrightarrow> a = b"
    and "\<And>a c. nw_pool s a = Some c \<Longrightarrow> c \<in> used (nw_world s) - old \<and> nt_sent N (nw_world s) c = concat (map framed (sent_on c hist))"
    and "\<And>e. e \<in> set hist \<Longrightarrow> fst e \<in> used (nw_world s) - old \<and> ok (snd e)" and "old \<subseteq> used (nw_world s)"
    and "\<And>c. c \<in> used (nw_world s) - old \<Longrightarrow> \<exists>m tail rest. ok m \<and> framed m = tail @ rest
           \<and> nt_sent N (nw_world s) c = concat (map framed (sent_on c hist)) @ tail"
  shows "conns_ok N used old ok hist s"
  using assms unfolding conns_ok_def by simp

lemma conns_okD:
  assumes "conns_ok N used old ok hist s"
  shows "nw_pool s a = Some c \<Longrightarrow> nw_pool s b = Some c \<Longrightarrow> a = b"
    "nw_pool s a = Some c \<Longrightarrow> c \<in> used (nw_world s) - old \<and> nt_sent N (nw_world s) c = concat (map framed (sent_on c hist))"
    "e \<in> set hist \<Longrightarrow> fst e \<in> used (nw_world s) - old \<and> ok (snd e)" "old \<subseteq> used (nw_world s)"
    "c \<in> used (nw_world s) - old \<Longrightarrow> \<exists>m tail rest. ok m \<and> framed m = tail @ rest \<and> nt_sent N (nw_world s) c = concat (map framed (sent_on c hist)) @ tail"
  using assms unfolding conns_ok_def by simp_all

lemma sent_on_snoc: "sent_on c (hist @ [(c', m)]) = sent_on c hist @ (if c' = c then [m] else [])"
  by (simp add: sent_on_def)

lemma sent_on_new: "(\<And>e. e \<in> set hist \<Longrightarrow> fst e \<noteq> c) \<Longrightarrow> sent_on c hist = []"
  by (auto simp: sent_on_def filter_empty_conv)

text \<open>Dialing keeps the invariant, whether it succeeds or not.\<close>

lemma conns_ok_dial:
  assumes "conn_laws N used" "conns_ok N used old ok hist s" "ok m0" and "nw_pool s a = None" "nt_dial N (nw_world s) a = (r, w)"
  shows "conns_ok N used old ok hist (s\<lparr>nw_world := w, nw_pool := (nw_pool s)(a := r)\<rparr>)"
proof -
  note D = conn_lawsD(4-6)[OF assms(1)] and i = conns_okD[OF assms(2)]
  have same: "nt_sent N w c' = nt_sent N (nw_world s) c'" if "c' \<in> used (nw_world s)" for c' by (rule D(1)[OF assms(5) that])
  show ?thesis
  proof (cases r)
    case None
    with D(2)[of "nw_world s" a w] assms(5) have "used w = used (nw_world s)" by simp
    with assms(2,4) None same show ?thesis by (simp add: conns_ok_def fun_upd_idem)
  next
    case (Some c)
    have c: "c \<notin> used (nw_world s)" "used w = insert c (used (nw_world s))" "nt_sent N w c = []"
      using D(3)[of "nw_world s" a c w] assms(5) Some by simp_all
    have new: "sent_on c hist = []" "c \<notin> old" using i(3,4) c(1) by (blast intro: sent_on_new)+
    show ?thesis
    proof (rule conns_okI; simp)
      show "b = b'" if "(if b = a then r else nw_pool s b) = Some c'" "(if b' = a then r else nw_pool s b') = Some c'" for b b' c'
        using that i(1,2) c(1) Some by (auto split: if_splits)
      show "c' \<in> used w \<and> c' \<notin> old \<and> nt_sent N w c' = concat (map framed (sent_on c' hist))" if "(if b = a then r else nw_pool s b) = Some c'" for b c'
        using that i(2)[of b c'] same[of c'] c new Some by (auto split: if_splits)
      show "fst e \<in> used w \<and> fst e \<notin> old \<and> ok (snd e)" if "e \<in> set hist" for e using i(3)[OF that] c(2) by blast
      show "old \<subseteq> used w" using i(4) c(2) by blast
      show "\<exists>m. ok m \<and> (\<exists>tail. (\<exists>rest. framed m = tail @ rest) \<and> nt_sent N w c' = concat (map framed (sent_on c' hist)) @ tail)" if "c' \<in> used w \<and> c' \<notin> old" for c'
      proof (cases "c' = c")
        case True
        with c(3) new assms(3) show ?thesis by (intro exI[of _ m0] conjI exI[of _ "[]"] exI[of _ "framed m0"]) simp_all
      next
        case False
        with that c(2) have "c' \<in> used (nw_world s) - old" by blast
        with i(5)[OF this] same[of c'] show ?thesis by fastforce
      qed
    qed
  qed
qed

text \<open>Writing a frame: it is whole on success, and its beginning on a connection given up otherwise.\<close>

lemma conns_ok_write:
  assumes "write_laws N" "conn_laws N used" "conns_ok N used old ok hist s" "ok m" "nw_pool s a = Some c"
    and "limited_Write N c (nw_world s) (framed m) 0 = (n, err, w)"
  shows "if err = None then conns_ok N used old ok (hist @ [(c, m)]) (s\<lparr>nw_world := w\<rparr>)
    else conns_ok N used old ok hist (s\<lparr>nw_world := nt_close N w c, nw_pool := (nw_pool s)(a := None)\<rparr>)"
proof -
  note i = conns_okD[OF assms(3)]
  have f: "used w = used (nw_world s)" "\<And>c'. c' \<noteq> c \<Longrightarrow> nt_sent N w c' = nt_sent N (nw_world s) c'"
    using limited_Write_frame[OF assms(1,2,6)] by blast+
  have s0: "c \<in> used (nw_world s)" "c \<notin> old" "nt_sent N (nw_world s) c = concat (map framed (sent_on c hist))" using i(2)[OF assms(5)] by blast+
  have wr: "nt_sent N w c = concat (map framed (sent_on c hist)) @ take n (framed m)" "err = None \<longrightarrow> n = length (framed m)"
    using limited_Write_sent[OF assms(1,6)] s0(3) by simp_all
  have begun: "\<exists>m. ok m \<and> (\<exists>tail. (\<exists>rest. framed m = tail @ rest) \<and> nt_sent N w c' = concat (map framed (sent_on c' hist)) @ tail)"
    if "c' \<in> used w \<and> c' \<notin> old" for c'
  proof (cases "c' = c")
    case True
    with wr assms(4) show ?thesis by (intro exI[of _ m] conjI exI[of _ "take n (framed m)"] exI[of _ "drop n (framed m)"]) simp_all
  next
    case False
    from that f(1) have "c' \<in> used (nw_world s) - old" by simp
    from i(5)[OF this] f(2)[OF False] show ?thesis by fastforce
  qed
  show ?thesis
  proof (cases "err = None")
    case True
    have n: "nt_sent N w c = concat (map framed (sent_on c (hist @ [(c, m)])))" using wr True by (simp add: sent_on_snoc)
    have "conns_ok N used old ok (hist @ [(c, m)]) (s\<lparr>nw_world := w\<rparr>)"
    proof (rule conns_okI; simp)
      show "b = b'" if "nw_pool s b = Some c'" "nw_pool s b' = Some c'" for b b' c' using i(1) that by blast
      show "c' \<in> used w \<and> c' \<notin> old \<and> nt_sent N w c' = concat (map framed (sent_on c' (hist @ [(c, m)])))" if "nw_pool s b = Some c'" for b c'
        using i(2)[OF that] f n by (cases "c' = c") (auto simp: sent_on_snoc)
      show "fst e \<in> used w \<and> fst e \<notin> old \<and> ok (snd e)" if "e = (c, m) \<or> e \<in> set hist" for e
        using that i(3)[of e] s0(1,2) assms(4) unfolding f(1) by (elim disjE) simp_all
      show "old \<subseteq> used w" using i(4) f(1) by simp
      show "\<exists>m'. ok m' \<and> (\<exists>tail. (\<exists>rest. framed m' = tail @ rest) \<and> nt_sent N w c' = concat (map framed (sent_on c' (hist @ [(c, m)]))) @ tail)"
        if "c' \<in> used w \<and> c' \<notin> old" for c'
      proof (cases "c' = c")
        case True
        with n assms(4) show ?thesis by (intro exI[of _ m] conjI exI[of _ "[]"] exI[of _ "framed m"]) simp_all
      next
        case False
        with begun[OF that] show ?thesis by (simp add: sent_on_snoc)
      qed
    qed
    with True show ?thesis by simp
  next
    case False
    have "conns_ok N used old ok hist (s\<lparr>nw_world := nt_close N w c, nw_pool := (nw_pool s)(a := None)\<rparr>)"
    proof (rule conns_okI; simp add: conn_lawsD(2,3)[OF assms(2)])
      show "b = b'" if "(if b = a then None else nw_pool s b) = Some c'" "(if b' = a then None else nw_pool s b') = Some c'" for b b' c'
        using i(1) that by (simp split: if_splits)
      show "c' \<in> used w \<and> c' \<notin> old \<and> nt_sent N w c' = concat (map framed (sent_on c' hist))" if "(if b = a then None else nw_pool s b) = Some c'" for b c'
        using i(2)[of b c'] i(1)[OF assms(5), of b] that f by (cases "c' = c") (auto split: if_splits)
      show "fst e \<in> used w \<and> fst e \<notin> old \<and> ok (snd e)" if "e \<in> set hist" for e using i(3)[OF that] f(1) by simp
      show "old \<subseteq> used w" using i(4) f(1) by simp
    qed (rule begun)
    with False show ?thesis by auto
  qed
qed

lemma conns_ok_attempt:
  assumes "write_laws N" "conn_laws N used" "conns_ok N used old ok hist s" "ok m" and "attempt_step N (hist, s) (m, a) = (hist', s')"
  shows "conns_ok N used old ok hist' s'"
proof -
  define s1 where "s1 = (case nw_pool s a of Some c \<Rightarrow> s | None \<Rightarrow> s\<lparr>nw_world := snd (nt_dial N (nw_world s) a), nw_pool := (nw_pool s)(a := fst (nt_dial N (nw_world s) a))\<rparr>)"
  have i1: "conns_ok N used old ok hist s1"
    using assms(3) conns_ok_dial[OF assms(2,3,4), of a "fst (nt_dial N (nw_world s) a)" "snd (nt_dial N (nw_world s) a)"]
    by (cases "nw_pool s a") (simp_all add: s1_def)
  show ?thesis
  proof (cases "nw_pool s1 a")
    case None
    then have "(hist', s') = (hist, s1)" using assms(5)
      by (cases "nw_pool s a") (auto simp: attempt_step_def dial_attempt_def s1_def Let_def split_beta)
    with i1 show ?thesis by simp
  next
    case (Some c)
    obtain n err w where wr: "limited_Write N c (nw_world s1) (framed m) 0 = (n, err, w)" by (cases "limited_Write N c (nw_world s1) (framed m) 0") auto
    have "(hist', s') = (if err = None then (hist @ [(c, m)], s1\<lparr>nw_world := w\<rparr>)
        else (hist, s1\<lparr>nw_world := nt_close N w c, nw_pool := (nw_pool s1)(a := None)\<rparr>))"
      using assms(5) Some wr
      by (cases "nw_pool s a"; cases err) (auto simp: attempt_step_def dial_attempt_def s1_def framed_def Let_def split_beta)
    with conns_ok_write[OF assms(1,2) i1 assms(4) Some wr] show ?thesis by (simp split: if_splits)
  qed
qed

lemma conns_ok_run:
  assumes "write_laws N" "conn_laws N used" "conns_ok N used old ok hist s" "\<forall>p \<in> set sends. ok (fst p)" "foldl (attempt_step N) (hist, s) sends = (hist', s')"
  shows "conns_ok N used old ok hist' s'"
  using assms(3-5)
proof (induction sends arbitrary: hist s)
  case (Cons p sends)
  obtain m a where p: "p = (m, a)" by (cases p)
  obtain hist1 s1 where st: "attempt_step N (hist, s) (m, a) = (hist1, s1)" by (cases "attempt_step N (hist, s) (m, a)")
  have "conns_ok N used old ok hist1 s1" by (rule conns_ok_attempt[OF assms(1,2) Cons.prems(1) _ st]) (use Cons.prems(2) p in simp)
  with Cons.IH[of hist1 s1] Cons.prems p st show ?case by simp
qed simp

lemma attempts_log: "foldl (attempt_step N) (hist, s) sends = (hist', s') \<Longrightarrow> \<exists>more. hist' = hist @ more"
proof (induction sends arbitrary: hist s)
  case (Cons p sends)
  obtain m a where p: "p = (m, a)" by (cases p)
  obtain hist1 s1 where st: "attempt_step N (hist, s) (m, a) = (hist1, s1)" by (cases "attempt_step N (hist, s) (m, a)")
  have "\<exists>more. hist1 = hist @ more" using st by (auto simp: attempt_step_def split: prod.splits option.splits)
  with Cons.IH[of hist1 s1] Cons.prems p st show ?case by auto
qed simp

lemma attempt_step_state: "snd (attempt_step N (hist, s) (m, a)) = snd (dial_attempt N m a s)"
  by (simp add: attempt_step_def split: prod.splits option.splits)

lemma attempts_state: "snd (foldl (attempt_step N) (hist, s) sends) = snd (foldl (attempt_step N) (hist', s) sends)"
proof (induction sends arbitrary: hist hist' s)
  case (Cons p sends)
  obtain m a where p: "p = (m, a)" by (cases p)
  obtain l1 s1 where 1: "attempt_step N (hist, s) (m, a) = (l1, s1)" by (cases "attempt_step N (hist, s) (m, a)")
  obtain l2 s2 where 2: "attempt_step N (hist', s) (m, a) = (l2, s2)" by (cases "attempt_step N (hist', s) (m, a)")
  have "s1 = s2" using attempt_step_state[of N hist s m a] attempt_step_state[of N hist' s m a] 1 2 by simp
  with Cons[of l1 s1 l2] p 1 2 show ?case by simp
qed simp

text \<open>A call of the dialer is a run of attempts: its own, and between them those of the other goroutines.\<close>

lemma dial_attempts_run:
  assumes "\<And>k s. other k s = snd (foldl (attempt_step N) ([], s) (others k))" and "dial_attempts N other m a e k s = (None, s')" and "0 < k"
  shows "\<exists>sends hist'. foldl (attempt_step N) (hist, s) sends = (hist @ hist' @ [(the (nw_pool s' a), m)], s')
    \<and> set sends \<subseteq> insert (m, a) (\<Union>k. set (others k))"
  using assms(2,3)
proof (induction k arbitrary: e s hist)
  case (Suc k)
  obtain e1 s1 where d: "dial_attempt N m a s = (e1, s1)" by force
  show ?case
  proof (cases e1)
    case None
    with Suc.prems(1) d have "s' = s1" by simp
    with d None show ?thesis by (intro exI[of _ "[(m, a)]"] exI[of _ "[]"]) (simp add: attempt_step_def)
  next
    case (Some x)
    have r: "dial_attempts N other m a e1 k (other k s1) = (None, s')" using Suc.prems(1) d Some by auto
    with Some have "0 < k" by (cases k) auto
    have st: "attempt_step N (hist, s) (m, a) = (hist, s1)" using d Some by (simp add: attempt_step_def)
    obtain hist2 where o: "foldl (attempt_step N) (hist, s1) (others k) = (hist2, other k s1)"
      using assms(1)[of k s1] attempts_state[of N hist s1 "others k" "[]"] by (metis prod.collapse)
    from Suc.IH[OF r \<open>0 < k\<close>, of hist2] obtain sends hist' where
      f: "foldl (attempt_step N) (hist2, other k s1) sends = (hist2 @ hist' @ [(the (nw_pool s' a), m)], s')" "set sends \<subseteq> insert (m, a) (\<Union>k. set (others k))" by blast
    obtain hist1 where "hist2 = hist @ hist1" using attempts_log[OF o] by blast
    with st o f show ?thesis by (intro exI[of _ "(m, a) # others k @ sends"] exI[of _ "hist1 @ hist'"]) auto
  qed
qed simp

lemma TcpDial_run:
  assumes "\<And>k s. other k s = snd (foldl (attempt_step N) ([], s) (others k))" and "TcpDial N other m a s = (None, s')"
  shows "\<exists>sends hist'. foldl (attempt_step N) (hist, s) sends = (hist @ hist' @ [(the (nw_pool s' a), m)], s') \<and> set sends \<subseteq> insert (m, a) (\<Union>k. set (others k))"
  using dial_attempts_run[OF assms(1), where k = 5 and e = None and m = m and a = a and s = s and s' = s' and hist = hist] assms(2) by (simp add: TcpDial_def split: if_splits)

lemma TcpDial_pools: "TcpDial N other m a s = (None, s') \<Longrightarrow> \<exists>c. nw_pool s' a = Some c"
proof -
  have att: "dial_attempt N m a s = (None, s') \<Longrightarrow> \<exists>c. nw_pool s' a = Some c" for s
    by (auto simp: dial_attempt_def Let_def split: option.splits prod.splits if_splits)
  have "dial_attempts N other m a e k s = (None, s') \<Longrightarrow> 0 < k \<Longrightarrow> \<exists>c. nw_pool s' a = Some c" for e k
    using dial_attempts_cases[of N other m a e k s None s'] att by auto
  from this[of None 5] show "TcpDial N other m a s = (None, s') \<Longrightarrow> \<exists>c. nw_pool s' a = Some c" by (simp add: TcpDial_def split: if_splits)
qed

section \<open>Delivery\<close>

lemma message_types_no_newline: "t \<in> set message_types \<Longrightarrow> CHR 0x0A \<notin> set t"
  unfolding message_types_def by (simp, elim disjE) simp_all

lemma MergeMessage_line:
  assumes "t \<in> set message_types" "CHR 0x0A \<notin> set content"
  shows "\<exists>m. MergeMessage t content = Some m \<and> CHR 0x0A \<notin> set m \<and> SplitMessage (framed m) = Some (t, framed content)"
proof -
  have t: "length t \<le> prefixMSGtypeLen" "CHR 0x00 \<notin> set t" using message_types_fit[OF assms(1)] by simp_all
  then show ?thesis using assms(2) message_types_no_newline[OF assms(1)]
    by (auto simp: MergeMessage_eq SplitMessage_def framed_def filter_nonzero_id)
qed

text \<open>What a receiver handles of a connection: the messages sent on it, and at most one more when it was given up.\<close>

context line_reader
begin

lemma reads_pooled:
  assumes "conns_ok N used old (\<lambda>m. CHR 0x0A \<notin> set m) hist s" "nw_pool s a = Some c"
  shows "read_all (nt_sent N (nw_world s) c) = concat (map item (sent_on c hist))"
proof -
  have "\<forall>m \<in> set (sent_on c hist). CHR 0x0A \<notin> set m" using conns_okD(3)[OF assms(1)] by (auto simp: sent_on_def)
  from read_frames[OF this, of "[]"] conns_okD(2)[OF assms] read_end[of "[]"] show ?thesis by simp
qed

lemma reads_used:
  assumes "conns_ok N used old (\<lambda>m. CHR 0x0A \<notin> set m) hist s" "c \<in> used (nw_world s) - old"
  shows "\<exists>extra. length extra \<le> 1 \<and> read_all (nt_sent N (nw_world s) c) = concat (map item (sent_on c hist)) @ extra"
proof -
  obtain m tail rest where t: "CHR 0x0A \<notin> set m" "framed m = tail @ rest" "nt_sent N (nw_world s) c = concat (map framed (sent_on c hist)) @ tail"
    using conns_okD(5)[OF assms] by blast
  have "\<forall>m \<in> set (sent_on c hist). CHR 0x0A \<notin> set m" using conns_okD(3)[OF assms(1)] by (auto simp: sent_on_def)
  from read_frames[OF this, of tail] read_tail[OF t(1,2)] item_short[of m] t(3) show ?thesis by simp
qed

end


text \<open>Connections are the places of a list of streams; a write takes at most three bytes.\<close>

definition wire_net :: "(bytes list, nat) net_env" where
  "wire_net = \<lparr>nt_dial = (\<lambda>w addr. (Some (length w), w @ [[]])),
     nt_write = (\<lambda>w c p. if c < length w then (length (take 3 p), False, w[c := w ! c @ take 3 p]) else (0, True, w)),
     nt_close = (\<lambda>w c. w), nt_sent = (\<lambda>w c. if c < length w then w ! c else []), nt_burst = 4, nt_WaitN = (\<lambda>n. n \<le> 4)\<rparr>"

definition wire_sends :: "(bytes \<times> bytes) list" where
  "wire_sends = [(''first'', ''n0''), (''other'', ''n1'')]"

lemma wire_laws: "write_laws wire_net" "conn_laws wire_net (\<lambda>w. {..<length w})"
proof -
  have "take 3 p = take (min (length p) 3) p" for p :: bytes by (metis min.commute take_all_iff take_take length_take order_refl)
  then show "write_laws wire_net" by (auto simp: write_laws_def wire_net_def split: if_splits)
  show "conn_laws wire_net (\<lambda>w. {..<length w})"
    by (auto simp: conn_laws_def wire_net_def nth_append lessThan_Suc split: if_splits)
qed


end
