(* ===== verification/Part_PLouvain.thy ===== *)
theory Part_PLouvain
  imports Clpa_Tally Go_Float
begin

text \<open>
  The partition algorithm of \<^verbatim>\<open>partition/partition_PLouvain.go\<close>: communities by label propagation, an
  assignment of whole communities to shards, and rounds that move single accounts to the shard of most of their
  neighbours. The repository's committee has an algorithm of its own; this one is a library function. The order in
  which Go ranges over a map is arbitrary at every range: the record \<open>lv_orders\<close> holds these orders. A sort
  of equal elements that is not stable gives what a stable one gives on another order of the range. Log output is left out.
\<close>

section \<open>State\<close>

record PLouvainState =
  ps_NetGraph :: Graph
  ps_PartitionMap :: "(Vertex \<times> int) list"
  ps_ShardNum :: int
  ps_ShardPerformances :: "f64 list"
  ps_ShardWorkloads :: "f64 list"
  ps_R_max :: f64

record Community =
  cm_ID :: int
  cm_Vertices :: "Vertex list"
  cm_Workload :: f64
  cm_InternalEdges :: int
  cm_ExternalEdges :: int

text \<open>
  The first argument of an order is the phase (0 the communities, 1 their construction, 2 the moves, 3 the loads of moved accounts), the
  second the pass: \<open>lo_vertices\<close> for the accounts, \<open>lo_weights\<close> for the neighbours of an account, \<open>lo_groups\<close> for the
  communities or shards of its neighbours; \<open>lo_nodes\<close> and \<open>lo_built\<close> for the two maps of communities.
\<close>

record lv_orders =
  lo_vertices :: "nat \<Rightarrow> nat \<Rightarrow> Vertex list \<Rightarrow> Vertex list"
  lo_weights :: "nat \<Rightarrow> nat \<Rightarrow> Vertex \<Rightarrow> (Vertex \<times> int) list \<Rightarrow> (Vertex \<times> int) list"
  lo_groups :: "nat \<Rightarrow> nat \<Rightarrow> Vertex \<Rightarrow> (int \<times> f64) list \<Rightarrow> (int \<times> f64) list"
  lo_nodes :: "(Vertex \<times> int) list \<Rightarrow> (Vertex \<times> int) list"
  lo_built :: "Community list \<Rightarrow> Community list"

definition NewPLouvainState :: "Graph \<Rightarrow> int \<Rightarrow> PLouvainState option" where
  "NewPLouvainState graph shardNum =
     do { perfs \<leftarrow> make_slice shardNum f64_one;
          wl \<leftarrow> make_slice shardNum f64_zero;
          Some \<lparr>ps_NetGraph = graph, ps_PartitionMap = [], ps_ShardNum = shardNum, ps_ShardPerformances = perfs,
                ps_ShardWorkloads = wl, ps_R_max = round64 (1 / 1000)\<rparr> }"

definition SetShardPerformance :: "int \<Rightarrow> f64 \<Rightarrow> PLouvainState \<Rightarrow> PLouvainState option" where
  "SetShardPerformance shardID perf pl =
     (if shardID < ps_ShardNum pl
      then map_option (\<lambda>ps. pl\<lparr>ps_ShardPerformances := ps\<rparr>) (slice_set (ps_ShardPerformances pl) shardID perf)
      else Some pl)"

definition GetProcessingTime :: "int \<Rightarrow> PLouvainState \<Rightarrow> f64 option" where
  "GetProcessingTime shardID pl =
     do { perf \<leftarrow> slice_get (ps_ShardPerformances pl) shardID;
          if eq64 perf f64_zero then Some (Inf False)
          else map_option (\<lambda>w. w / perf) (slice_get (ps_ShardWorkloads pl) shardID) }"

section \<open>Weights\<close>

text \<open>\<^verbatim>\<open>m[k] = f(m[k])\<close> on a map that reads \<open>z\<close> where it has no entry.\<close>

definition map_bump :: "'k \<Rightarrow> 'v \<Rightarrow> ('v \<Rightarrow> 'v) \<Rightarrow> ('k \<times> 'v) list \<Rightarrow> ('k \<times> 'v) list" where
  "map_bump k z f m = AList.update k (f (case map_of m k of None \<Rightarrow> z | Some x \<Rightarrow> x)) m"

definition getNeighborWeights :: "PLouvainState \<Rightarrow> Vertex \<Rightarrow> (Vertex \<times> int) list" where
  "getNeighborWeights pl v = foldl (\<lambda>m nb. map_bump nb 0 (\<lambda>n. n + 1) m) [] (edges_of (ps_NetGraph pl) v)"

definition calculateNodeDegree :: "PLouvainState \<Rightarrow> Vertex \<Rightarrow> int" where
  "calculateNodeDegree pl v = int (length (edges_of (ps_NetGraph pl) v))"

definition by_degree :: "PLouvainState \<Rightarrow> Vertex list \<Rightarrow> Vertex list" where
  "by_degree pl vs = sort_by (\<lambda>u v. calculateNodeDegree pl u > calculateNodeDegree pl v) vs"

text \<open>\<open>place\<close> maps accounts to communities or shards: \<open>place_of\<close> reads it, \<open>neighbor_groups\<close> adds up the weights of the neighbours in each.\<close>

definition place_of :: "(Vertex \<times> int) list \<Rightarrow> Vertex \<Rightarrow> int" where
  "place_of place v = (case map_of place v of None \<Rightarrow> 0 | Some c \<Rightarrow> c)"

definition neighbor_groups :: "(Vertex \<times> int) list \<Rightarrow> (Vertex \<times> int) list \<Rightarrow> (int \<times> f64) list" where
  "neighbor_groups place ws =
     foldl (\<lambda>m (nb, w). case map_of place nb of Some c \<Rightarrow> map_bump c f64_zero (\<lambda>x. x + float64 w) m | None \<Rightarrow> m) [] ws"

definition group_weight :: "(int \<times> f64) list \<Rightarrow> int \<Rightarrow> f64" where
  "group_weight m c = (case map_of m c of None \<Rightarrow> f64_zero | Some x \<Rightarrow> x)"

definition node_load :: "(Vertex \<times> int) list \<Rightarrow> f64" where
  "node_load ws = foldl (\<lambda>l (_, w). l + float64 w * round64 (1 / 10)) f64_one ws"

section \<open>Phase 0: communities\<close>

definition best_comm :: "int \<Rightarrow> f64 \<Rightarrow> (int \<times> f64) list \<Rightarrow> int \<times> f64" where
  "best_comm currentComm currentCommWeight groups =
     foldl (\<lambda>(bestComm, bestGain) (targetComm, targetWeight).
        if targetComm = currentComm then (bestComm, bestGain)
        else let gain = (targetWeight - currentCommWeight) * Fin 2
             in if gain > bestGain then (targetComm, gain) else (bestComm, bestGain))
       (currentComm, f64_zero) groups"

definition louvain_visit :: "PLouvainState \<Rightarrow> lv_orders \<Rightarrow> nat \<Rightarrow> (Vertex \<times> int) list \<times> bool \<Rightarrow> Vertex \<Rightarrow> (Vertex \<times> int) list \<times> bool" where
  "louvain_visit pl ord it = (\<lambda>(nodeToComm, improved) v.
     let currentComm = place_of nodeToComm v;
         groups = neighbor_groups nodeToComm (lo_weights ord 0 it v (getNeighborWeights pl v));
         (bestComm, bestGain) = best_comm currentComm (group_weight groups currentComm) (lo_groups ord 0 it v groups)
     in if bestComm \<noteq> currentComm \<and> bestGain > round64 (1 / 10) then (AList.update v bestComm nodeToComm, True)
        else (nodeToComm, improved))"

text \<open>At most as many passes as are left, until one changes nothing.\<close>

fun louvain_passes :: "PLouvainState \<Rightarrow> lv_orders \<Rightarrow> nat \<Rightarrow> nat \<Rightarrow> (Vertex \<times> int) list \<Rightarrow> (Vertex \<times> int) list" where
  "louvain_passes pl ord 0 it nodeToComm = nodeToComm"
| "louvain_passes pl ord (Suc left) it nodeToComm =
     (let (nodeToComm, improved) = foldl (louvain_visit pl ord it) (nodeToComm, False)
            (by_degree pl (lo_vertices ord 0 (Suc it) (gr_VertexSet (ps_NetGraph pl))))
      in if improved then louvain_passes pl ord left (Suc it) nodeToComm else nodeToComm)"

definition add_member ::
    "PLouvainState \<Rightarrow> lv_orders \<Rightarrow> (Vertex \<times> int) list \<Rightarrow> (int \<times> Community) list \<Rightarrow> Vertex \<times> int \<Rightarrow> (int \<times> Community) list" where
  "add_member pl ord nodeToComm = (\<lambda>commMap (v, cid).
     let c = (case map_of commMap cid of
                Some c \<Rightarrow> c
              | None \<Rightarrow> \<lparr>cm_ID = cid, cm_Vertices = [], cm_Workload = f64_zero, cm_InternalEdges = 0, cm_ExternalEdges = 0\<rparr>);
         ws = lo_weights ord 1 0 v (getNeighborWeights pl v);
         inner = int (length (filter (\<lambda>(nb, _). place_of nodeToComm nb = cid) ws))
     in AList.update cid (c\<lparr>cm_Vertices := cm_Vertices c @ [v], cm_Workload := cm_Workload c + node_load ws,
          cm_InternalEdges := cm_InternalEdges c + inner, cm_ExternalEdges := cm_ExternalEdges c + (int (length ws) - inner)\<rparr>) commMap)"

definition inner_ratio :: "Community \<Rightarrow> f64" where
  "inner_ratio c = float64 (cm_InternalEdges c) / float64 (cm_InternalEdges c + cm_ExternalEdges c + 1)"

definition phase0_AggressiveLouvain :: "lv_orders \<Rightarrow> PLouvainState \<Rightarrow> Community list" where
  "phase0_AggressiveLouvain ord pl =
     (let nodeToComm = map (\<lambda>(i, v). (v, int i)) (enumerate 0 (lo_vertices ord 0 0 (gr_VertexSet (ps_NetGraph pl))));
          nodeToComm = louvain_passes pl ord 30 0 nodeToComm;
          commMap = foldl (add_member pl ord nodeToComm) [] (lo_nodes ord nodeToComm)
      in sort_by (\<lambda>c d. inner_ratio c > inner_ratio d)
           (lo_built ord (filter (\<lambda>c. cm_Vertices c \<noteq> []) (map snd commMap))))"

section \<open>Phase 1: communities to shards\<close>

definition best_shard :: "Community \<Rightarrow> PLouvainState \<Rightarrow> int option" where
  "best_shard comm pl =
     do { (bestShard, _) \<leftarrow> foldlM (\<lambda>(bestShard, minTime) s.
            do { wl \<leftarrow> slice_get (ps_ShardWorkloads pl) s;
                 perf \<leftarrow> slice_get (ps_ShardPerformances pl) s;
                 let estTime = (wl + cm_Workload comm) / perf;
                 Some (if estTime < minTime then (s, estTime) else (bestShard, minTime)) }) (- 1, MaxFloat64) [0..ps_ShardNum pl - 1];
          Some (if bestShard = - 1 then 0 else bestShard) }"

definition assign_community :: "PLouvainState \<Rightarrow> Community \<Rightarrow> PLouvainState option" where
  "assign_community pl comm =
     do { s \<leftarrow> best_shard comm pl;
          let part = foldl (\<lambda>m v. AList.update v s m) (ps_PartitionMap pl) (cm_Vertices comm);
          wl \<leftarrow> bump (ps_ShardWorkloads pl) s (\<lambda>w. w + cm_Workload comm);
          Some (pl\<lparr>ps_PartitionMap := part, ps_ShardWorkloads := wl\<rparr>) }"

definition phase1_CommunityMovement :: "Community list \<Rightarrow> PLouvainState \<Rightarrow> PLouvainState option" where
  "phase1_CommunityMovement communities pl =
     do { z \<leftarrow> make_slice (ps_ShardNum pl) f64_zero;
          foldlM assign_community (pl\<lparr>ps_ShardWorkloads := z\<rparr>) communities }"

section \<open>Phase 2: accounts\<close>

definition best_neighbor :: "int \<Rightarrow> (int \<times> f64) list \<Rightarrow> int \<times> f64" where
  "best_neighbor currentShard groups =
     foldl (\<lambda>(bestShard, most) (s, w). if w > most then (s, w) else (bestShard, most)) (currentShard, f64_zero) groups"

definition move_account :: "Vertex \<Rightarrow> int \<Rightarrow> int \<Rightarrow> f64 \<Rightarrow> PLouvainState \<Rightarrow> PLouvainState option" where
  "move_account v currentShard bestShard nodeLoad pl =
     do { wl \<leftarrow> bump (ps_ShardWorkloads pl) currentShard (\<lambda>w. if w - nodeLoad < f64_zero then f64_zero else w - nodeLoad);
          wl \<leftarrow> bump wl bestShard (\<lambda>w. w + nodeLoad);
          Some (pl\<lparr>ps_PartitionMap := AList.update v bestShard (ps_PartitionMap pl), ps_ShardWorkloads := wl\<rparr>) }"

definition account_visit :: "lv_orders \<Rightarrow> nat \<Rightarrow> PLouvainState \<times> int \<Rightarrow> Vertex \<Rightarrow> (PLouvainState \<times> int) option" where
  "account_visit ord rnd = (\<lambda>(pl, movedCount) v.
     let part = ps_PartitionMap pl; currentShard = place_of part v; ws = getNeighborWeights pl v;
         groups = neighbor_groups part (lo_weights ord 2 rnd v ws)
     in if \<not> list_ex (\<lambda>(nb, _). case map_of part nb of Some s \<Rightarrow> s \<noteq> currentShard | None \<Rightarrow> False) ws then Some (pl, movedCount)
        else let (bestShard, most) = best_neighbor currentShard (lo_groups ord 2 rnd v groups)
             in if bestShard \<noteq> currentShard \<and> most > group_weight groups currentShard * Fin (3 / 2)
                then map_option (\<lambda>pl. (pl, movedCount + 1))
                       (move_account v currentShard bestShard (node_load (lo_weights ord 3 rnd v ws)) pl)
                else Some (pl, movedCount))"

definition phase2_AccountMovement :: "lv_orders \<Rightarrow> nat \<Rightarrow> PLouvainState \<Rightarrow> (PLouvainState \<times> int) option" where
  "phase2_AccountMovement ord rnd pl =
     foldlM (account_visit ord rnd) (pl, 0) (by_degree pl (lo_vertices ord 2 rnd (map fst (ps_PartitionMap pl))))"

section \<open>The run\<close>

text \<open>The numbers that are printed: accounts and times of the shards, cross-shard and all edge entries.\<close>

definition printStats :: "PLouvainState \<Rightarrow> (int list \<times> f64 list \<times> int \<times> int) option" where
  "printStats pl =
     do { z \<leftarrow> make_slice (ps_ShardNum pl) 0;
          counts \<leftarrow> foldlM (\<lambda>ns (_, s). bump ns s (\<lambda>n. n + 1)) z (ps_PartitionMap pl);
          times \<leftarrow> those (map (\<lambda>i. do { _ \<leftarrow> slice_get (ps_ShardWorkloads pl) i; GetProcessingTime i pl }) [0..ps_ShardNum pl - 1]);
          let ends = concat (map (\<lambda>(v, s). map (Pair s) (edges_of (ps_NetGraph pl) v)) (ps_PartitionMap pl));
          Some (counts, times,
            int (length (filter (\<lambda>(s, nb). case map_of (ps_PartitionMap pl) nb of Some t \<Rightarrow> t \<noteq> s | None \<Rightarrow> False) ends)),
            int (length ends)) }"

fun account_rounds :: "lv_orders \<Rightarrow> nat \<Rightarrow> nat \<Rightarrow> int \<Rightarrow> PLouvainState \<Rightarrow> (PLouvainState \<times> int) option" where
  "account_rounds ord 0 rnd totalMoved pl = Some (pl, totalMoved)"
| "account_rounds ord (Suc left) rnd totalMoved pl =
     do { (pl, moved) \<leftarrow> phase2_AccountMovement ord rnd pl;
          if moved = 0 then Some (pl, totalMoved + moved) else account_rounds ord left (Suc rnd) (totalMoved + moved) pl }"

text \<open>The state at the end, with what is printed: the number of communities, of moved accounts, and the statistics.\<close>

definition lv_RunPLouvain :: "lv_orders \<Rightarrow> PLouvainState \<Rightarrow> ((nat \<times> int \<times> int list \<times> f64 list \<times> int \<times> int) \<times> PLouvainState) option" where
  "lv_RunPLouvain ord pl =
     (let communities = phase0_AggressiveLouvain ord pl
      in do { pl \<leftarrow> phase1_CommunityMovement communities pl;
              (pl, totalMoved) \<leftarrow> account_rounds ord 5 0 0 pl;
              stats \<leftarrow> printStats pl;
              Some ((length communities, totalMoved, stats), pl) })"

end
