(* ===== verification/Part_PLouvain_Props.thy ===== *)
theory Part_PLouvain_Props
  imports Part_PLouvain
begin

text \<open>
  A run of the P-Louvain algorithm: communities partition the accounts, whole communities are assigned to
  shards, and every account that moves afterwards lowers the number of cross-shard edges.
\<close>

section \<open>Maps\<close>

lemma map_of_map_bump: "map_of (map_bump k z f m) j = (if j = k then Some (f (case map_of m k of None \<Rightarrow> z | Some x \<Rightarrow> x)) else map_of m j)"
  by (simp add: map_bump_def update_conv')

lemma keys_map_bump: "set (map fst (map_bump k z f m)) = insert k (set (map fst m))" "distinct (map fst m) \<Longrightarrow> distinct (map fst (map_bump k z f m))"
  by (auto simp: map_bump_def update_keys distinct_update)

lemma sum_update:
  fixes h :: "'k \<Rightarrow> 'v \<Rightarrow> int"
  shows "sum_list (map (\<lambda>(j, x). h j x) (AList.update k y m))
    = sum_list (map (\<lambda>(j, x). h j x) m) + h k y - (case map_of m k of None \<Rightarrow> 0 | Some x \<Rightarrow> h k x)"
  by (induction m) auto

section \<open>Weights of neighbours\<close>

lemma neighbor_weights:
  "(\<Sum>(nb, w) \<leftarrow> getNeighborWeights pl v. if P nb then w else 0) = int (size {#u \<in># mset (edges_of (ps_NetGraph pl) v). P u#})
   \<and> (\<forall>(nb, w) \<in> set (getNeighborWeights pl v). 0 \<le> w) \<and> distinct (map fst (getNeighborWeights pl v))
   \<and> set (map fst (getNeighborWeights pl v)) = set (edges_of (ps_NetGraph pl) v)"
proof -
  define es where "es = edges_of (ps_NetGraph pl) v"
  define m where "m es = foldl (\<lambda>m nb. map_bump nb 0 (\<lambda>n. n + 1) m) ([] :: (Vertex \<times> int) list) es" for es
  have "(\<Sum>(nb, w) \<leftarrow> m es. if P nb then w else 0) = int (size {#u \<in># mset es. P u#}) \<and> (\<forall>nb w. map_of (m es) nb = Some w \<longrightarrow> 0 \<le> w)
    \<and> distinct (map fst (m es)) \<and> set (map fst (m es)) = set es"
  proof (induction es rule: rev_induct)
    case (snoc nb es)
    have m: "m (es @ [nb]) = map_bump nb 0 (\<lambda>n. n + 1) (m es)" by (simp add: m_def)
    have "(\<Sum>(j, x) \<leftarrow> m (es @ [nb]). if P j then x else 0) = (\<Sum>(j, x) \<leftarrow> m es. if P j then x else 0) + (if P nb then 1 else 0)"
      unfolding m map_bump_def sum_update[of "\<lambda>j x. if P j then x else 0"] by (auto split: option.split)
    moreover have "0 \<le> w" if "map_of (m (es @ [nb])) j = Some w" for j w
      using that snoc by (auto simp: m map_of_map_bump split: if_splits option.splits)
    ultimately show ?case
      using snoc by (simp add: m keys_map_bump del: set_map)
  qed (simp add: m_def)
  then show ?thesis
    unfolding getNeighborWeights_def es_def[symmetric] m_def[symmetric] by (auto simp del: set_map simp: map_of_is_SomeI)
qed

text \<open>The weight of the neighbours that \<open>place\<close> puts at \<open>c\<close>.\<close>

definition weight_at :: "(Vertex \<times> int) list \<Rightarrow> (Vertex \<times> int) list \<Rightarrow> int \<Rightarrow> int" where
  "weight_at place ws c = (\<Sum>(nb, w) \<leftarrow> ws. if map_of place nb = Some c then w else 0)"

lemma weight_at_bounds:
  assumes "\<forall>(nb, w) \<in> set ws. 0 \<le> w"
  shows "0 \<le> weight_at place ws c \<and> weight_at place ws c \<le> (\<Sum>(nb, w) \<leftarrow> ws. w)"
  using assms by (induction ws) (auto simp: weight_at_def)

lemma neighbor_groups_exact:
  assumes "\<forall>(nb, w) \<in> set ws. 0 \<le> w" and "(\<Sum>(nb, w) \<leftarrow> ws. w) < 2 ^ 52"
  shows "group_weight (neighbor_groups place ws) c = half64 (2 * weight_at place ws c)
    \<and> distinct (map fst (neighbor_groups place ws)) \<and> set (map fst (neighbor_groups place ws)) \<subseteq> snd ` set place"
  using assms
proof (induction ws arbitrary: c rule: rev_induct)
  case Nil
  then show ?case by (simp add: neighbor_groups_def group_weight_def weight_at_def half64_0)
next
  case (snoc e ws)
  obtain nb w where e: "e = (nb, w)" by (cases e)
  have w: "0 \<le> w" "(\<Sum>(nb, w) \<leftarrow> ws. w) + w < 2 ^ 52" and nn: "\<forall>(nb, w) \<in> set ws. 0 \<le> w" using snoc.prems by (auto simp: e)
  note B = weight_at_bounds[OF nn, of place]
  have IH: "group_weight (neighbor_groups place ws) c = half64 (2 * weight_at place ws c)" for c
    using snoc.IH[OF nn] w by simp
  have IH2: "distinct (map fst (neighbor_groups place ws))" "set (map fst (neighbor_groups place ws)) \<subseteq> snd ` set place"
    using snoc.IH[OF nn] w by simp_all
  show ?case
  proof (cases "map_of place nb")
    case None
    then have "neighbor_groups place (ws @ [e]) = neighbor_groups place ws" "weight_at place (ws @ [e]) c = weight_at place ws c"
      by (simp_all add: neighbor_groups_def e weight_at_def)
    with IH IH2 show ?thesis by simp
  next
    case (Some d)
    then have g: "neighbor_groups place (ws @ [e]) = map_bump d f64_zero (\<lambda>x. x + float64 w) (neighbor_groups place ws)"
      and wt: "weight_at place (ws @ [e]) c = weight_at place ws c + (if c = d then w else 0)"
      by (auto simp: neighbor_groups_def e weight_at_def)
    have "half64 (2 * weight_at place ws d) + float64 w = half64 (2 * (weight_at place ws d + w))"
      using float64_half[of w] half64_add[of "2 * weight_at place ws d" "2 * w"] w B[of d] by (simp add: algebra_simps)
    then have "group_weight (neighbor_groups place (ws @ [e])) c = half64 (2 * weight_at place (ws @ [e]) c)"
      using IH[of d] IH[of c] unfolding g wt group_weight_def map_of_map_bump by (auto split: option.splits)
    moreover have "d \<in> snd ` set place" using map_of_SomeD[OF Some] by force
    ultimately show ?thesis using IH2 by (simp add: g keys_map_bump del: set_map)
  qed
qed

lemma best_neighbor_in:
  "best_neighbor cur gs = (b, most) \<Longrightarrow> b \<noteq> cur \<Longrightarrow> (b, most) \<in> set gs"
proof -
  have "foldl (\<lambda>(bestShard, most) (s, w). if w > most then (s, w) else (bestShard, most)) a gs \<in> insert a (set gs)" for a :: "int \<times> f64"
  proof (induction gs arbitrary: a)
    case (Cons g gs)
    show ?case using Cons[of "if snd g > snd a then g else a"] by (cases g; cases a) (auto split: if_splits)
  qed simp
  from this[of "(cur, f64_zero)"] show "best_neighbor cur gs = (b, most) \<Longrightarrow> b \<noteq> cur \<Longrightarrow> (b, most) \<in> set gs"
    by (auto simp: best_neighbor_def)
qed

section \<open>Moving one account\<close>

lemma cut_pairs_add [simp]: "cut_pairs p (M + N) = cut_pairs p M + cut_pairs p N"
  by (simp add: cut_pairs_def)

lemma cut_move:
  assumes "graph_wf g" and "p v \<noteq> b"
  shows "cut_pairs (p(v := b)) (mset (adj_pairs g)) + 2 * int (size {#u \<in># mset (edges_of g v). p u = b#})
    \<le> cut_pairs p (mset (adj_pairs g)) + 2 * int (size {#u \<in># mset (edges_of g v). p u = p v#})"
proof -
  define A where "A = {#u \<in># mset (edges_of g v). u \<noteq> v#}"
  obtain R where R: "mset (adj_pairs g) = image_mset (Pair v) A + image_mset (\<lambda>u. (u, v)) A + R" "\<forall>(a, b) \<in># R. a = v \<longleftrightarrow> b = v"
    unfolding A_def by (rule adj_pairs_split[OF assms(1)])
  have same: "cut_pairs (p(v := b)) R = cut_pairs p R"
    using R(2) unfolding cut_pairs_def by (intro arg_cong[where f = "\<lambda>M. int (size M)"] filter_mset_cong) auto
  have old: "cut_pairs p (image_mset (Pair v) A) = int (size {#u \<in># A. p u \<noteq> p v#})" "cut_pairs p (image_mset (\<lambda>u. (u, v)) A) = int (size {#u \<in># A. p u \<noteq> p v#})"
    by (simp_all add: cut_pairs_def filter_mset_image_mset eq_commute[of "p v"])
  have "{#u \<in># A. u \<noteq> v \<and> p u \<noteq> b#} = {#u \<in># A. p u \<noteq> b#}" unfolding A_def by (intro filter_mset_cong) auto
  then have new: "cut_pairs (p(v := b)) (image_mset (Pair v) A) = int (size {#u \<in># A. p u \<noteq> b#})"
      "cut_pairs (p(v := b)) (image_mset (\<lambda>u. (u, v)) A) = int (size {#u \<in># A. p u \<noteq> b#})"
    by (simp_all add: cut_pairs_def filter_mset_image_mset eq_commute[of b] cong: conj_cong)
  have split: "size {#u \<in># A. p u \<noteq> c#} + size {#u \<in># A. p u = c#} = size A" for c
    using arg_cong[OF multiset_partition[of A "\<lambda>u. p u = c"], of size] unfolding size_union by linarith
  have "size {#u \<in># A. p u = b#} = size {#u \<in># mset (edges_of g v). p u = b#}"
    using assms(2) unfolding A_def filter_filter_mset by (intro arg_cong[of _ _ size] filter_mset_cong) auto
  moreover have "size {#u \<in># A. p u = p v#} \<le> size {#u \<in># mset (edges_of g v). p u = p v#}"
    using size_filter_mset_lesseq[of "\<lambda>u. u \<noteq> v" "{#u \<in># mset (edges_of g v). p u = p v#}"]
    unfolding A_def filter_filter_mset by (simp add: conj_commute)
  ultimately show ?thesis
    using split[of b] split[of "p v"] unfolding R(1) cut_pairs_add same old new by linarith
qed

section \<open>Orders and states\<close>

definition lv_orders_ok :: "lv_orders \<Rightarrow> bool" where
  "lv_orders_ok ord \<longleftrightarrow>
     (\<forall>ph i vs. mset (lo_vertices ord ph i vs) = mset vs) \<and> (\<forall>ph i v ws. mset (lo_weights ord ph i v ws) = mset ws)
     \<and> (\<forall>ph i v gs. mset (lo_groups ord ph i v gs) = mset gs) \<and> (\<forall>ns. mset (lo_nodes ord ns) = mset ns) \<and> (\<forall>cs. mset (lo_built ord cs) = mset cs)"

lemma lv_orders_set:
  assumes "lv_orders_ok ord"
  shows "set (lo_vertices ord ph i vs) = set vs" "set (lo_weights ord ph i v ws) = set ws" "set (lo_groups ord ph i v gs) = set gs"
  using assms by (metis lv_orders_ok_def set_mset_mset)+

lemma by_degree_set [simp]: "set (by_degree pl vs) = set vs"
  unfolding by_degree_def by (metis mset_sort_by set_mset_mset)

definition lv_ok :: "PLouvainState \<Rightarrow> bool" where
  "lv_ok pl \<longleftrightarrow>
     graph_wf (ps_NetGraph pl) \<and> 0 < ps_ShardNum pl
     \<and> length (ps_ShardPerformances pl) = nat (ps_ShardNum pl) \<and> length (ps_ShardWorkloads pl) = nat (ps_ShardNum pl)
     \<and> distinct (map fst (ps_PartitionMap pl)) \<and> set (map fst (ps_PartitionMap pl)) \<subseteq> set (gr_VertexSet (ps_NetGraph pl))
     \<and> (\<forall>s \<in> snd ` set (ps_PartitionMap pl). 0 \<le> s \<and> s < ps_ShardNum pl)"

lemma NewPLouvainState_ok: "graph_wf g \<Longrightarrow> 0 < n \<Longrightarrow> \<exists>pl. NewPLouvainState g n = Some pl \<and> lv_ok pl \<and> ps_NetGraph pl = g \<and> ps_ShardNum pl = n"
  by (simp add: NewPLouvainState_def lv_ok_def)

lemma SetShardPerformance_ok: "lv_ok pl \<Longrightarrow> 0 \<le> i \<Longrightarrow> \<exists>pl'. SetShardPerformance i x pl = Some pl' \<and> lv_ok pl'"
  by (auto simp: SetShardPerformance_def slice_set_def lv_ok_def)

section \<open>Phase 0\<close>

lemma louvain_visit_keys:
  assumes "v \<in> set (map fst n2c)"
  shows "map fst (fst (louvain_visit pl ord it (n2c, b) v)) = map fst n2c"
  using assms by (simp add: louvain_visit_def Let_def update_keys split: prod.split del: set_map)

lemma louvain_pass_keys:
  assumes "set vs \<subseteq> set (map fst (fst a))"
  shows "map fst (fst (foldl (louvain_visit pl ord it) a vs)) = map fst (fst a)"
  using assms
proof (induction vs arbitrary: a)
  case (Cons v vs)
  have "map fst (fst (louvain_visit pl ord it a v)) = map fst (fst a)"
    using Cons.prems louvain_visit_keys[of v "fst a" pl ord it "snd a"] by simp
  with Cons.prems Cons.IH[of "louvain_visit pl ord it a v"] show ?case by (simp del: set_map)
qed simp

lemma louvain_passes_keys:
  assumes "lv_orders_ok ord" and "set (map fst n2c) = set (gr_VertexSet (ps_NetGraph pl))"
  shows "map fst (louvain_passes pl ord k it n2c) = map fst n2c"
  using assms(2)
proof (induction k arbitrary: it n2c)
  case (Suc k)
  define r where "r = foldl (louvain_visit pl ord it) (n2c, False) (by_degree pl (lo_vertices ord 0 (Suc it) (gr_VertexSet (ps_NetGraph pl))))"
  have r: "map fst (fst r) = map fst n2c"
    unfolding r_def using Suc.prems lv_orders_set(1)[OF assms(1)] by (subst louvain_pass_keys) (simp_all del: set_map)
  have "louvain_passes pl ord (Suc k) it n2c = (if snd r then louvain_passes pl ord k (Suc it) (fst r) else fst r)"
    by (simp add: r_def split_def)
  with Suc r show ?case by (simp del: set_map louvain_passes.simps)
qed simp

definition members :: "(int \<times> Community) list \<Rightarrow> Vertex multiset" where
  "members cm = mset (concat (map (cm_Vertices \<circ> snd) cm))"

lemma members_update:
  "cm_Vertices c = (case map_of cm k of None \<Rightarrow> [] | Some d \<Rightarrow> cm_Vertices d) @ [v] \<Longrightarrow> members (AList.update k c cm) = add_mset v (members cm)"
  by (induction cm) (auto simp: members_def)

lemma add_member_members: "members (add_member pl ord n2c cm e) = add_mset (fst e) (members cm)"
  by (cases e) (auto simp: add_member_def Let_def intro!: members_update split: option.split)

lemma add_members: "members (foldl (add_member pl ord n2c) cm es) = members cm + mset (map fst es)"
  by (induction es arbitrary: cm) (simp_all add: add_member_members)

lemma concat_nonempty: "concat (map f (filter (\<lambda>c. f c \<noteq> []) cs)) = concat (map f cs)"
  by (induction cs) auto

lemma mset_concat_map: "mset (concat (map f cs)) = (\<Sum>c \<in># mset cs. mset (f c))"
  by (induction cs) simp_all

lemma mset_concat_cong: "mset cs = mset ds \<Longrightarrow> mset (concat (map f cs)) = mset (concat (map f ds))"
  unfolding mset_concat_map by (rule arg_cong)

lemma phase0_partition:
  assumes "lv_orders_ok ord" and "graph_wf (ps_NetGraph pl)"
  shows "mset (concat (map cm_Vertices (phase0_AggressiveLouvain ord pl))) = mset (gr_VertexSet (ps_NetGraph pl))"
proof -
  let ?V = "gr_VertexSet (ps_NetGraph pl)"
  define n0 where "n0 = map (\<lambda>(i, v). (v, int i)) (enumerate 0 (lo_vertices ord 0 0 ?V))"
  define n where "n = louvain_passes pl ord 30 0 n0"
  define cm where "cm = foldl (add_member pl ord n) [] (lo_nodes ord n)"
  have keys: "map fst n0 = lo_vertices ord 0 0 ?V" by (simp add: n0_def comp_def split_def)
  have "map fst n = map fst n0"
    unfolding n_def by (rule louvain_passes_keys[OF assms(1)]) (simp add: keys lv_orders_set(1)[OF assms(1)] del: set_map)
  then have "mset (map fst n) = mset ?V" using assms(1) by (simp only: keys lv_orders_ok_def)
  moreover have "mset (map fst (lo_nodes ord n)) = mset (map fst n)"
    using assms(1) by (simp add: lv_orders_ok_def)
  ultimately have "members cm = mset ?V" by (simp add: cm_def add_members) (simp add: members_def)
  moreover have "phase0_AggressiveLouvain ord pl = sort_by (\<lambda>c d. inner_ratio c > inner_ratio d) (lo_built ord (filter (\<lambda>c. cm_Vertices c \<noteq> []) (map snd cm)))"
    by (simp add: phase0_AggressiveLouvain_def Let_def n0_def n_def cm_def)
  moreover have "mset (lo_built ord cs) = mset cs" for cs using assms(1) by (simp add: lv_orders_ok_def)
  then have "mset (concat (map cm_Vertices (sort_by lt (lo_built ord (filter (\<lambda>c. cm_Vertices c \<noteq> []) cs))))) = mset (concat (map cm_Vertices cs))" for lt cs
    using mset_concat_cong[of "sort_by lt (lo_built ord (filter (\<lambda>c. cm_Vertices c \<noteq> []) cs))" "filter (\<lambda>c. cm_Vertices c \<noteq> []) cs" cm_Vertices] by (simp add: concat_nonempty)
  ultimately show ?thesis by (simp add: members_def comp_def)
qed

section \<open>Phase 1\<close>

lemma best_shard_range:
  assumes "lv_ok pl"
  shows "\<exists>s. best_shard c pl = Some s \<and> 0 \<le> s \<and> s < ps_ShardNum pl"
proof -
  let ?f = "\<lambda>(bestShard, minTime) s. do { wl \<leftarrow> slice_get (ps_ShardWorkloads pl) s; perf \<leftarrow> slice_get (ps_ShardPerformances pl) s;
      let estTime = (wl + cm_Workload c) / perf; Some (if estTime < minTime then (s, estTime) else (bestShard, minTime)) }"
  have "\<exists>r. foldlM ?f (- 1, MaxFloat64) [0..ps_ShardNum pl - 1] = Some r \<and> - 1 \<le> fst r \<and> fst r < ps_ShardNum pl"
    using assms by (intro foldlM_total[where P = "\<lambda>r. - 1 \<le> fst r \<and> fst r < ps_ShardNum pl"]) (auto simp: lv_ok_def Let_def)
  then obtain b t where "foldlM ?f (- 1, MaxFloat64) [0..ps_ShardNum pl - 1] = Some (b, t)" "- 1 \<le> b" "b < ps_ShardNum pl" by auto
  then show ?thesis using assms by (auto simp: best_shard_def lv_ok_def)
qed

lemma update_all:
  "map_of (foldl (\<lambda>m v. AList.update v s m) m vs) u = (if u \<in> set vs then Some s else map_of m u)"
  "set (map fst (foldl (\<lambda>m v. AList.update v s m) m vs)) = set (map fst m) \<union> set vs"
  "distinct (map fst m) \<Longrightarrow> distinct (map fst (foldl (\<lambda>m v. AList.update v s m) m vs))"
  by (induction vs arbitrary: m) (auto simp: update_conv' dom_update distinct_update)

lemma values_update_all:
  assumes "distinct (map fst m)"
  shows "snd ` set (foldl (\<lambda>m v. AList.update v s m) m vs) \<subseteq> insert s (snd ` set m)"
proof
  fix x assume "x \<in> snd ` set (foldl (\<lambda>m v. AList.update v s m) m vs)"
  then obtain u where "(u, x) \<in> set (foldl (\<lambda>m v. AList.update v s m) m vs)" by force
  then have "map_of (foldl (\<lambda>m v. AList.update v s m) m vs) u = Some x" using update_all(3)[OF assms, of s vs] by simp
  then show "x \<in> insert s (snd ` set m)" by (force simp: update_all(1) split: if_splits dest: map_of_SomeD)
qed

lemma assign_community_ok:
  assumes "lv_ok pl" and "set (cm_Vertices c) \<subseteq> set (gr_VertexSet (ps_NetGraph pl))"
  obtains s wl where "assign_community pl c = Some (pl\<lparr>ps_PartitionMap := foldl (\<lambda>m v. AList.update v s m) (ps_PartitionMap pl) (cm_Vertices c), ps_ShardWorkloads := wl\<rparr>)"
    and "lv_ok (pl\<lparr>ps_PartitionMap := foldl (\<lambda>m v. AList.update v s m) (ps_PartitionMap pl) (cm_Vertices c), ps_ShardWorkloads := wl\<rparr>)"
proof -
  obtain s where s: "best_shard c pl = Some s" "0 \<le> s" "s < ps_ShardNum pl" using best_shard_range[OF assms(1)] by blast
  define part where "part = foldl (\<lambda>m v. AList.update v s m) (ps_PartitionMap pl) (cm_Vertices c)"
  let ?wl = "(ps_ShardWorkloads pl)[nat s := ps_ShardWorkloads pl ! nat s + cm_Workload c]"
  have r: "assign_community pl c = Some (pl\<lparr>ps_PartitionMap := part, ps_ShardWorkloads := ?wl\<rparr>)"
    using s assms(1) by (simp add: assign_community_def lv_ok_def part_def)
  have "distinct (map fst part)" "set (map fst part) \<subseteq> set (gr_VertexSet (ps_NetGraph pl))"
    using assms by (auto simp: lv_ok_def part_def update_all(2,3) simp del: set_map)
  moreover have "snd ` set part \<subseteq> insert s (snd ` set (ps_PartitionMap pl))"
    unfolding part_def using assms(1) by (intro values_update_all) (simp add: lv_ok_def)
  then have "\<forall>x \<in> snd ` set part. 0 \<le> x \<and> x < ps_ShardNum pl" using s assms(1) unfolding lv_ok_def by blast
  ultimately have "lv_ok (pl\<lparr>ps_PartitionMap := part, ps_ShardWorkloads := ?wl\<rparr>)" using assms(1) by (simp add: lv_ok_def)
  with r show thesis using that unfolding part_def by blast
qed

lemma assign_communities:
  assumes "lv_ok pl" and "distinct (concat (map cm_Vertices cs))" and "set (concat (map cm_Vertices cs)) \<subseteq> set (gr_VertexSet (ps_NetGraph pl))"
  shows "\<exists>pl'. foldlM assign_community pl cs = Some pl' \<and> lv_ok pl' \<and> ps_NetGraph pl' = ps_NetGraph pl
    \<and> set (map fst (ps_PartitionMap pl')) = set (map fst (ps_PartitionMap pl)) \<union> set (concat (map cm_Vertices cs))
    \<and> (\<forall>c \<in> set cs. \<exists>s. \<forall>v \<in> set (cm_Vertices c). map_of (ps_PartitionMap pl') v = Some s)"
  using assms(2,3)
proof (induction cs rule: rev_induct)
  case Nil
  then show ?case using assms(1) by simp
next
  case (snoc c cs)
  obtain p1 where p1: "foldlM assign_community pl cs = Some p1" "lv_ok p1" "ps_NetGraph p1 = ps_NetGraph pl"
      "set (map fst (ps_PartitionMap p1)) = set (map fst (ps_PartitionMap pl)) \<union> set (concat (map cm_Vertices cs))"
      "\<forall>c \<in> set cs. \<exists>s. \<forall>v \<in> set (cm_Vertices c). map_of (ps_PartitionMap p1) v = Some s"
    using snoc by auto
  have "set (cm_Vertices c) \<subseteq> set (gr_VertexSet (ps_NetGraph p1))" using snoc.prems p1(3) by simp
  from assign_community_ok[OF p1(2) this] obtain s wl where
    r: "assign_community p1 c = Some (p1\<lparr>ps_PartitionMap := foldl (\<lambda>m v. AList.update v s m) (ps_PartitionMap p1) (cm_Vertices c), ps_ShardWorkloads := wl\<rparr>)"
      "lv_ok (p1\<lparr>ps_PartitionMap := foldl (\<lambda>m v. AList.update v s m) (ps_PartitionMap p1) (cm_Vertices c), ps_ShardWorkloads := wl\<rparr>)" .
  have "\<exists>s'. \<forall>v \<in> set (cm_Vertices d). map_of (foldl (\<lambda>m v. AList.update v s m) (ps_PartitionMap p1) (cm_Vertices c)) v = Some s'"
    if "d \<in> set (cs @ [c])" for d
  proof (cases "d \<in> set cs")
    case True
    then have "v \<notin> set (cm_Vertices c)" if "v \<in> set (cm_Vertices d)" for v using snoc.prems(1) that by auto
    with True p1(5) show ?thesis by (auto simp: update_all(1))
  qed (use that in \<open>auto simp: update_all(1)\<close>)
  with p1 r show ?case by (simp add: foldlM_append update_all(2) Un_assoc del: set_map)
qed

lemma phase1_ok:
  assumes "lv_ok pl" and "mset (concat (map cm_Vertices cs)) = mset (gr_VertexSet (ps_NetGraph pl))"
  shows "\<exists>pl'. phase1_CommunityMovement cs pl = Some pl' \<and> lv_ok pl' \<and> ps_NetGraph pl' = ps_NetGraph pl
    \<and> set (map fst (ps_PartitionMap pl')) = set (gr_VertexSet (ps_NetGraph pl))
    \<and> (\<forall>c \<in> set cs. \<exists>s. \<forall>v \<in> set (cm_Vertices c). map_of (ps_PartitionMap pl') v = Some s)"
proof -
  define p0 where "p0 = pl\<lparr>ps_ShardWorkloads := replicate (nat (ps_ShardNum pl)) f64_zero\<rparr>"
  have p0: "lv_ok p0" using assms(1) by (simp add: p0_def lv_ok_def)
  have "phase1_CommunityMovement cs pl = foldlM assign_community p0 cs"
    using assms(1) by (simp add: phase1_CommunityMovement_def lv_ok_def p0_def)
  moreover have "set (concat (map cm_Vertices cs)) = set (gr_VertexSet (ps_NetGraph pl))" using assms(2) by (metis set_mset_mset)
  moreover have "distinct (concat (map cm_Vertices cs))"
    using assms mset_eq_imp_distinct_iff[OF assms(2)] by (simp add: lv_ok_def graph_wf_def)
  moreover have "ps_NetGraph p0 = ps_NetGraph pl" "ps_PartitionMap p0 = ps_PartitionMap pl" by (simp_all add: p0_def)
  moreover have "set (map fst (ps_PartitionMap pl)) \<subseteq> set (gr_VertexSet (ps_NetGraph pl))" using assms(1) by (simp add: lv_ok_def)
  ultimately show ?thesis using assign_communities[OF p0, of cs] by (simp add: Un_absorb1 del: set_map set_concat)
qed

section \<open>Phase 2\<close>

text \<open>The edge entries between different shards.\<close>

definition lv_cut :: "PLouvainState \<Rightarrow> int" where
  "lv_cut pl = cut_pairs (place_of (ps_PartitionMap pl)) (mset (adj_pairs (ps_NetGraph pl)))"

lemma place_of_update: "place_of (AList.update v b part) = (place_of part)(v := b)"
  by (simp add: place_of_def update_conv' fun_eq_iff)

lemma place_of_key: "v \<in> set (map fst part) \<Longrightarrow> map_of part v = Some (place_of part v)"
  by (auto simp: place_of_def weak_map_of_SomeI split: option.split)

text \<open>The weights of an account's neighbours, in any order of the two ranges, count the edges into each shard.\<close>

lemma account_groups:
  assumes "lv_orders_ok ord" and "graph_wf (ps_NetGraph pl)" and "set (map fst part) = set (gr_VertexSet (ps_NetGraph pl))"
    and "length (edges_of (ps_NetGraph pl) v) < 2 ^ 51"
  shows "group_weight (neighbor_groups part (lo_weights ord ph i v (getNeighborWeights pl v))) c
      = half64 (2 * int (size {#u \<in># mset (edges_of (ps_NetGraph pl) v). place_of part u = c#}))
    \<and> distinct (map fst (neighbor_groups part (lo_weights ord ph i v (getNeighborWeights pl v))))
    \<and> set (map fst (neighbor_groups part (lo_weights ord ph i v (getNeighborWeights pl v)))) \<subseteq> snd ` set part"
proof -
  let ?es = "edges_of (ps_NetGraph pl) v" and ?ws = "getNeighborWeights pl v"
  define ws where "ws = lo_weights ord ph i v ?ws"
  have perm: "mset ws = mset ?ws" using assms(1) by (simp add: ws_def lv_orders_ok_def)
  have sum: "(\<Sum>(nb, w) \<leftarrow> ws. if P nb then w else 0) = int (size {#u \<in># mset ?es. P u#})" for P
    using neighbor_weights[where P = P and pl = pl and v = v] arg_cong[OF perm, of "\<lambda>M. \<Sum>(nb, w) \<in># M. if P nb then w else 0"]
    by (simp flip: sum_mset_sum_list mset_map)
  have nn: "\<forall>(nb, w) \<in> set ws. 0 \<le> w"
    using neighbor_weights[where pl = pl and v = v] lv_orders_set(2)[OF assms(1)] by (simp add: ws_def)
  have small: "(\<Sum>(nb, w) \<leftarrow> ws. w) < 2 ^ 52" using sum[of "\<lambda>_. True"] assms(4) by simp
  have key: "map_of part u = Some (place_of part u)" if "u \<in> set ?es" for u
    using place_of_key[of u part] edges_of_vertices[OF assms(2) that] assms(3) by simp
  have "{#u \<in># mset ?es. map_of part u = Some c#} = {#u \<in># mset ?es. place_of part u = c#}"
    by (intro filter_mset_cong) (auto simp: key)
  then have "weight_at part ws c = int (size {#u \<in># mset ?es. place_of part u = c#})"
    using sum[of "\<lambda>nb. map_of part nb = Some c"] by (simp add: weight_at_def)
  with neighbor_groups_exact[OF nn small, of part c] show ?thesis by (simp add: ws_def del: set_map)
qed

text \<open>An account moves only where more of its neighbours are.\<close>

lemma account_move_better:
  assumes "lv_orders_ok ord" and "graph_wf (ps_NetGraph pl)" and "set (map fst part) = set (gr_VertexSet (ps_NetGraph pl))"
    and "length (edges_of (ps_NetGraph pl) v) < 2 ^ 51"
    and groups: "groups = neighbor_groups part (lo_weights ord 2 i v (getNeighborWeights pl v))"
    and b: "best_neighbor cur (lo_groups ord 2 i v groups) = (b, most)" "b \<noteq> cur" "most > group_weight groups cur * Fin (3 / 2)"
  shows "b \<in> snd ` set part \<and> size {#u \<in># mset (edges_of (ps_NetGraph pl) v). place_of part u = cur#}
    < size {#u \<in># mset (edges_of (ps_NetGraph pl) v). place_of part u = b#}"
proof -
  let ?n = "\<lambda>c. size {#u \<in># mset (edges_of (ps_NetGraph pl) v). place_of part u = c#}"
  note G = account_groups[OF assms(1-4), of 2 i, folded groups]
  have "(b, most) \<in> set groups" using best_neighbor_in[OF b(1,2)] lv_orders_set(3)[OF assms(1)] by simp
  then have "group_weight groups b = most" and mem: "b \<in> set (map fst groups)" using G by (force simp: group_weight_def)+
  then have most: "most = half64 (2 * int (?n b))" using G by metis
  have "?n cur \<le> length (edges_of (ps_NetGraph pl) v)" by (metis size_filter_mset_lesseq size_mset)
  then have "group_weight groups cur * Fin (3 / 2) = half64 (3 * int (?n cur))"
    using G[of cur] half64_times[of "int (?n cur)"] assms(4) by simp
  with b(3) most have "3 * int (?n cur) < 2 * int (?n b)" by simp
  then show ?thesis using mem G by auto
qed

lemma move_account_ok:
  assumes "lv_ok pl" and "v \<in> set (map fst (ps_PartitionMap pl))" and "b \<in> snd ` set (ps_PartitionMap pl)"
  obtains pl' where "move_account v (place_of (ps_PartitionMap pl) v) b x pl = Some pl'" and "lv_ok pl'" and "ps_NetGraph pl' = ps_NetGraph pl"
    and "ps_PartitionMap pl' = AList.update v b (ps_PartitionMap pl)" and "map fst (ps_PartitionMap pl') = map fst (ps_PartitionMap pl)"
proof -
  let ?part = "ps_PartitionMap pl" and ?c = "place_of (ps_PartitionMap pl) v"
  have rng: "\<forall>s \<in> snd ` set ?part. 0 \<le> s \<and> s < ps_ShardNum pl" "length (ps_ShardWorkloads pl) = nat (ps_ShardNum pl)"
    using assms(1) by (simp_all add: lv_ok_def)
  have "?c \<in> snd ` set ?part" using map_of_SomeD[OF place_of_key[OF assms(2)]] by force
  with rng assms(3) have c: "0 \<le> ?c" "?c < ps_ShardNum pl" and b: "0 \<le> b" "b < ps_ShardNum pl" by blast+
  have keys: "map fst (AList.update v b ?part) = map fst ?part" using assms(2) by (simp only: update_keys if_True)
  have "snd ` set (AList.update v b ?part) \<subseteq> insert b (snd ` set ?part)"
    using values_update_all[of ?part b "[v]"] assms(1) by (simp add: lv_ok_def)
  with rng b have "\<forall>s \<in> snd ` set (AList.update v b ?part). 0 \<le> s \<and> s < ps_ShardNum pl" by blast
  then have "lv_ok (pl\<lparr>ps_PartitionMap := AList.update v b ?part, ps_ShardWorkloads := wl\<rparr>)" if "length wl = nat (ps_ShardNum pl)" for wl
    using assms(1) that keys by (simp add: lv_ok_def del: set_map)
  moreover have "\<exists>wl. length wl = nat (ps_ShardNum pl) \<and>
      move_account v ?c b x pl = Some (pl\<lparr>ps_PartitionMap := AList.update v b ?part, ps_ShardWorkloads := wl\<rparr>)"
  proof -
    obtain wl1 where wl1: "bump (ps_ShardWorkloads pl) ?c (\<lambda>w. if w - x < f64_zero then f64_zero else w - x) = Some wl1" "length wl1 = nat (ps_ShardNum pl)"
      using bump_total[of ?c "ps_ShardWorkloads pl"] rng(2) c by force
    then obtain wl2 where "bump wl1 b (\<lambda>w. w + x) = Some wl2" "length wl2 = nat (ps_ShardNum pl)"
      using bump_total[of b wl1] b by force
    with wl1(1) show ?thesis by (auto simp: move_account_def)
  qed
  ultimately show thesis using that keys by force
qed

definition lv_full :: "PLouvainState \<Rightarrow> bool" where
  "lv_full pl \<longleftrightarrow> lv_ok pl \<and> set (map fst (ps_PartitionMap pl)) = set (gr_VertexSet (ps_NetGraph pl))
     \<and> (\<forall>v \<in> set (gr_VertexSet (ps_NetGraph pl)). length (edges_of (ps_NetGraph pl) v) < 2 ^ 51)"

text \<open>What visits, rounds and the whole phase keep: each move takes at least two entries, one edge, out of the cut.\<close>

definition lv_progress :: "PLouvainState \<Rightarrow> int \<Rightarrow> PLouvainState \<Rightarrow> bool" where
  "lv_progress pl moved pl' \<longleftrightarrow> lv_full pl' \<and> ps_NetGraph pl' = ps_NetGraph pl \<and> 0 \<le> moved \<and> lv_cut pl' + 2 * moved \<le> lv_cut pl"

lemma lv_progress_refl: "lv_full pl \<Longrightarrow> lv_progress pl 0 pl"
  by (simp add: lv_progress_def)

lemma lv_progress_trans: "lv_progress a m b \<Longrightarrow> lv_progress b n c \<Longrightarrow> lv_progress a (m + n) c"
  by (simp add: lv_progress_def)

lemma account_visit_ok:
  assumes "lv_orders_ok ord" and "lv_full pl" and "v \<in> set (gr_VertexSet (ps_NetGraph pl))"
  shows "\<exists>pl' n. account_visit ord r (pl, moved) v = Some (pl', moved + n) \<and> lv_progress pl n pl'"
proof -
  let ?part = "ps_PartitionMap pl"
  define groups where "groups = neighbor_groups ?part (lo_weights ord 2 r v (getNeighborWeights pl v))"
  obtain b most where bn: "best_neighbor (place_of ?part v) (lo_groups ord 2 r v groups) = (b, most)" by fastforce
  have F: "lv_ok pl" "set (map fst ?part) = set (gr_VertexSet (ps_NetGraph pl))" "length (edges_of (ps_NetGraph pl) v) < 2 ^ 51" "graph_wf (ps_NetGraph pl)"
    using assms by (auto simp: lv_full_def lv_ok_def)
  show ?thesis
  proof (cases "list_ex (\<lambda>(nb, _). case map_of ?part nb of Some s \<Rightarrow> s \<noteq> place_of ?part v | None \<Rightarrow> False) (getNeighborWeights pl v)
      \<and> b \<noteq> place_of ?part v \<and> most > group_weight groups (place_of ?part v) * Fin (3 / 2)")
    case False
    then have "account_visit ord r (pl, moved) v = Some (pl, moved + 0)"
      unfolding account_visit_def by (auto simp: Let_def bn simp flip: groups_def)
    then show ?thesis using lv_progress_refl[OF assms(2)] by blast
  next
    case True
    note B = account_move_better[OF assms(1) F(4,2,3) groups_def bn] 
    from True B have B: "b \<in> snd ` set ?part" "size {#u \<in># mset (edges_of (ps_NetGraph pl) v). place_of ?part u = place_of ?part v#}
        < size {#u \<in># mset (edges_of (ps_NetGraph pl) v). place_of ?part u = b#}" by blast+
    have "v \<in> set (map fst ?part)" using F(2) assms(3) by simp
    from move_account_ok[OF F(1) this B(1)] obtain pl' where
      m: "move_account v (place_of ?part v) b (node_load (lo_weights ord 3 r v (getNeighborWeights pl v))) pl = Some pl'" "lv_ok pl'"
        "ps_NetGraph pl' = ps_NetGraph pl" "ps_PartitionMap pl' = AList.update v b ?part" "map fst (ps_PartitionMap pl') = map fst ?part" .
    have "account_visit ord r (pl, moved) v = Some (pl', moved + 1)"
      using True m(1) unfolding account_visit_def by (auto simp: Let_def bn simp flip: groups_def)
    moreover have "lv_cut pl' + 2 \<le> lv_cut pl"
      using cut_move[OF F(4), of "place_of ?part" v b] True B(2) by (simp add: lv_cut_def m(3,4) place_of_update)
    moreover have "lv_full pl'" using assms(2) m(2,3,5) by (simp add: lv_full_def del: set_map)
    ultimately show ?thesis using m(3) unfolding lv_progress_def by force
  qed
qed

lemma phase2_ok:
  assumes "lv_orders_ok ord" and "lv_full pl"
  shows "\<exists>pl' n. phase2_AccountMovement ord r pl = Some (pl', n) \<and> lv_progress pl n pl'"
proof -
  have "\<exists>s. foldlM (account_visit ord r) (pl, 0) (by_degree pl (lo_vertices ord 2 r (map fst (ps_PartitionMap pl)))) = Some s
      \<and> lv_progress pl (snd s) (fst s)"
  proof (rule foldlM_total[where P = "\<lambda>s. lv_progress pl (snd s) (fst s)"])
    show "lv_progress pl (snd (pl, 0)) (fst (pl, 0))" using lv_progress_refl[OF assms(2)] by simp
  next
    fix s v assume v: "v \<in> set (by_degree pl (lo_vertices ord 2 r (map fst (ps_PartitionMap pl))))" and s: "lv_progress pl (snd s) (fst s)"
    have "v \<in> set (gr_VertexSet (ps_NetGraph (fst s)))"
      using v s assms(2) by (simp add: lv_orders_set(1)[OF assms(1)] lv_progress_def lv_full_def del: set_map)
    moreover have "lv_full (fst s)" using s by (simp add: lv_progress_def)
    ultimately obtain q n where "account_visit ord r (fst s, snd s) v = Some (q, snd s + n)" "lv_progress (fst s) n q"
      using account_visit_ok[OF assms(1)] by blast
    with lv_progress_trans[OF s] show "\<exists>s'. account_visit ord r s v = Some s' \<and> lv_progress pl (snd s') (fst s')" by auto
  qed
  then show ?thesis by (auto simp: phase2_AccountMovement_def)
qed

lemma account_rounds_ok:
  assumes "lv_orders_ok ord" and "lv_full pl"
  shows "\<exists>pl' n. account_rounds ord k r tot pl = Some (pl', tot + n) \<and> lv_progress pl n pl'"
  using assms(2)
proof (induction k arbitrary: r tot pl)
  case 0
  then show ?case using lv_progress_refl[of pl] by (intro exI[of _ pl] exI[of _ 0]) simp
next
  case (Suc k)
  obtain q n where q: "phase2_AccountMovement ord r pl = Some (q, n)" "lv_progress pl n q" using phase2_ok[OF assms(1) Suc.prems] by blast
  have "lv_full q" using q(2) by (simp add: lv_progress_def)
  from Suc.IH[OF this, of "Suc r" "tot + n"] obtain q' n' where q': "account_rounds ord k (Suc r) (tot + n) q = Some (q', tot + n + n')" "lv_progress q n' q'" by blast
  show ?case
  proof (cases "n = 0")
    case True
    with q show ?thesis by (intro exI[of _ q] exI[of _ n]) simp
  next
    case False
    with q q' lv_progress_trans[OF q(2) q'(2)] show ?thesis by (intro exI[of _ q'] exI[of _ "n + n'"]) (simp add: add.assoc)
  qed
qed

section \<open>What is printed\<close>

lemma node_counts:
  assumes "\<forall>s \<in> snd ` set part. 0 \<le> s \<and> s < n"
  shows "foldlM (\<lambda>ns (_, s). bump ns s (\<lambda>n. n + 1)) (replicate (nat n) 0) part
    = Some (map (\<lambda>k. int (length (filter (\<lambda>(v, s). s = int k) part))) [0..<nat n])"
  using assms
proof (induction part rule: rev_induct)
  case Nil
  show ?case by (auto intro!: nth_equalityI)
next
  case (snoc e part)
  obtain v s where e: "e = (v, s)" by (cases e)
  have s: "0 \<le> s" "nat s < nat n" using snoc.prems by (auto simp: e)
  then show ?case using snoc
    by (simp add: foldlM_append e list_update_add del: upt_Suc) (auto intro!: nth_equalityI)
qed

lemma edges_of_outside: "graph_wf g \<Longrightarrow> v \<notin> set (gr_VertexSet g) \<Longrightarrow> edges_of g v = []"
  by (auto simp: graph_wf_def edges_of_def assoc_get_def split: option.splits dest!: map_of_SomeD)

lemma vertex_pairs:
  assumes "graph_wf g" and "distinct (map fst part)" and "set (map fst part) = set (gr_VertexSet g)"
  shows "mset (concat (map (\<lambda>(v, s). map (Pair v) (edges_of g v)) part)) = mset (adj_pairs g)"
proof (rule multiset_eqI)
  fix e :: "Vertex \<times> Vertex"
  obtain a b where e: "e = (a, b)" by (cases e)
  let ?es = "map (\<lambda>(v, s). (v, edges_of g v)) part"
  have "map fst ?es = map fst part" by (simp add: split_def)
  then have d: "distinct (map fst ?es)" using assms(2) by (simp only:)
  have "assoc_get ?es a = edges_of g a"
  proof (cases "a \<in> set (gr_VertexSet g)")
    case True
    then have "(a, edges_of g a) \<in> set ?es" using assms(3) by force
    then show ?thesis using map_of_is_SomeI[OF d] by (simp add: assoc_get_def)
  next
    case False
    then have "map_of ?es a = None" using assms(3) \<open>map fst ?es = map fst part\<close> by (simp only: map_of_eq_None_iff) (metis set_map)
    then show ?thesis using edges_of_outside[OF assms(1) False] by (simp add: assoc_get_def)
  qed
  moreover have "concat (map (\<lambda>(v, s). map (Pair v) (edges_of g v)) part) = concat (map (\<lambda>(v, l). map (Pair v) l) ?es)"
    by (simp add: comp_def split_def)
  ultimately show "count (mset (concat (map (\<lambda>(v, s). map (Pair v) (edges_of g v)) part))) e = count (mset (adj_pairs g)) e"
    unfolding e count_adj_pairs[OF assms(1)] using count_pairs_list[OF d] by simp
qed

lemma cross_entries:
  assumes "lv_full pl"
  shows "int (length (filter (\<lambda>(s, nb). case map_of (ps_PartitionMap pl) nb of Some t \<Rightarrow> t \<noteq> s | None \<Rightarrow> False)
      (concat (map (\<lambda>(v, s). map (Pair s) (edges_of (ps_NetGraph pl) v)) (ps_PartitionMap pl))))) = lv_cut pl"
proof -
  let ?g = "ps_NetGraph pl" and ?part = "ps_PartitionMap pl"
  have F: "graph_wf ?g" "distinct (map fst ?part)" "set (map fst ?part) = set (gr_VertexSet ?g)"
    using assms by (simp_all add: lv_full_def lv_ok_def)
  define prs where "prs = concat (map (\<lambda>(v, s). map (Pair v) (edges_of ?g v)) ?part)"
  have ends: "concat (map (\<lambda>(v, s). map (Pair s) (edges_of ?g v)) ?part) = map (\<lambda>(v, nb). (place_of ?part v, nb)) prs"
    using F(2) by (auto simp: prs_def map_concat comp_def place_of_def intro!: arg_cong[of _ _ concat] map_cong)
  have M: "mset prs = mset (adj_pairs ?g)" using vertex_pairs[OF F] by (simp add: prs_def)
  have key: "map_of ?part (snd e) = Some (place_of ?part (snd e))" if "e \<in> set prs" for e
  proof -
    have "e \<in> set (adj_pairs ?g)" using that arg_cong[OF M, of set_mset] by simp
    then show ?thesis using adj_pairs_vertices[OF F(1), of "fst e" "snd e"] place_of_key[of "snd e" ?part] F(3) by simp
  qed
  have "filter (\<lambda>(s, nb). case map_of ?part nb of Some t \<Rightarrow> t \<noteq> s | None \<Rightarrow> False) (map (\<lambda>(v, nb). (place_of ?part v, nb)) prs)
      = map (\<lambda>(v, nb). (place_of ?part v, nb)) (filter (\<lambda>e. place_of ?part (fst e) \<noteq> place_of ?part (snd e)) prs)"
    using key by (auto simp: filter_map comp_def split_def intro!: arg_cong[of _ _ "map _"] filter_cong)
  then show ?thesis unfolding ends lv_cut_def cut_pairs_def M[symmetric] by (simp flip: mset_filter)
qed

lemma printStats_ok:
  assumes "lv_full pl"
  shows "\<exists>times. printStats pl = Some (map (\<lambda>k. int (length (filter (\<lambda>(v, s). s = int k) (ps_PartitionMap pl)))) [0..<nat (ps_ShardNum pl)],
    times, lv_cut pl, int (length (adj_pairs (ps_NetGraph pl))))"
proof -
  let ?g = "ps_NetGraph pl" and ?part = "ps_PartitionMap pl"
  have F: "graph_wf ?g" "distinct (map fst ?part)" "set (map fst ?part) = set (gr_VertexSet ?g)" "0 < ps_ShardNum pl"
      "length (ps_ShardPerformances pl) = nat (ps_ShardNum pl)" "length (ps_ShardWorkloads pl) = nat (ps_ShardNum pl)"
      "\<forall>s \<in> snd ` set ?part. 0 \<le> s \<and> s < ps_ShardNum pl"
    using assms by (simp_all add: lv_full_def lv_ok_def)
  have "those (map (\<lambda>i. do { _ \<leftarrow> slice_get (ps_ShardWorkloads pl) i; GetProcessingTime i pl }) [0..ps_ShardNum pl - 1])
      = Some (map (\<lambda>i. the (GetProcessingTime i pl)) [0..ps_ShardNum pl - 1])"
    using F(5,6) by (intro those_map) (auto simp: GetProcessingTime_def)
  moreover have "length (concat (map (\<lambda>(v, s). map (Pair s) (edges_of ?g v)) ?part)) = length (adj_pairs ?g)"
    using arg_cong[OF vertex_pairs[OF F(1-3)], of size] by (simp add: length_concat comp_def split_def)
  ultimately show ?thesis
    using node_counts[OF F(7)] F(4) by (simp add: printStats_def cross_entries[OF assms] Let_def)
qed

text \<open>A path of three accounts on two shards, and the orders that leave every range as it is.\<close>

definition lv_demo :: PLouvainState where
  "lv_demo = the (NewPLouvainState (Graph_AddEdge ''b'' ''c'' (Graph_AddEdge ''a'' ''b'' \<lparr>gr_VertexSet = [], gr_EdgeSet = None\<rparr>)) 2)"

definition lv_demo_orders :: lv_orders where
  "lv_demo_orders = \<lparr>lo_vertices = \<lambda>_ _ vs. vs, lo_weights = \<lambda>_ _ _ ws. ws, lo_groups = \<lambda>_ _ _ gs. gs, lo_nodes = \<lambda>ns. ns, lo_built = \<lambda>cs. cs\<rparr>"

text \<open>
  C17. A run of the P-Louvain algorithm on a well-formed graph and with any orders of its ranges. It does not
  panic and ends with every account, and nothing else, in an existing shard. The communities it finds partition the accounts, and
  the first assignment keeps each of them in one shard. The moves after it only improve: each takes at least one edge out of the cut, so
  the number of moves is at most the number of edges it removed. The numbers printed are the accounts of the shards and the
  edge entries between different shards.
\<close>

theorem louvain_run_correct:
  assumes "lv_ok pl" and "lv_orders_ok ord" and "\<forall>v \<in> set (gr_VertexSet (ps_NetGraph pl)). length (edges_of (ps_NetGraph pl) v) < 2 ^ 51"
  shows "\<exists>comms pl1 pl' moved counts times.
    phase0_AggressiveLouvain ord pl = comms \<and> mset (concat (map cm_Vertices comms)) = mset (gr_VertexSet (ps_NetGraph pl))
    \<and> phase1_CommunityMovement comms pl = Some pl1
    \<and> (\<forall>c \<in> set comms. \<exists>s. \<forall>v \<in> set (cm_Vertices c). map_of (ps_PartitionMap pl1) v = Some s)
    \<and> lv_RunPLouvain ord pl = Some ((length comms, moved, counts, times, lv_cut pl', int (length (adj_pairs (ps_NetGraph pl)))), pl')
    \<and> lv_ok pl' \<and> ps_NetGraph pl' = ps_NetGraph pl \<and> set (map fst (ps_PartitionMap pl')) = set (gr_VertexSet (ps_NetGraph pl))
    \<and> 0 \<le> moved \<and> lv_cut pl' + 2 * moved \<le> lv_cut pl1
    \<and> counts = map (\<lambda>k. int (length (filter (\<lambda>(v, s). s = int k) (ps_PartitionMap pl')))) [0..<nat (ps_ShardNum pl')]"
proof -
  define comms where "comms = phase0_AggressiveLouvain ord pl"
  have part: "mset (concat (map cm_Vertices comms)) = mset (gr_VertexSet (ps_NetGraph pl))"
    using phase0_partition[OF assms(2)] assms(1) by (simp add: comms_def lv_ok_def)
  obtain pl1 where p1: "phase1_CommunityMovement comms pl = Some pl1" "lv_ok pl1" "ps_NetGraph pl1 = ps_NetGraph pl"
      "set (map fst (ps_PartitionMap pl1)) = set (gr_VertexSet (ps_NetGraph pl))"
      "\<forall>c \<in> set comms. \<exists>s. \<forall>v \<in> set (cm_Vertices c). map_of (ps_PartitionMap pl1) v = Some s"
    using phase1_ok[OF assms(1) part] by blast
  have "lv_full pl1" using p1(2-4) assms(3) by (simp add: lv_full_def)
  from account_rounds_ok[OF assms(2) this, of 5 0 0] obtain pl' n where p': "account_rounds ord 5 0 0 pl1 = Some (pl', n)" "lv_progress pl1 n pl'" by auto
  then have f: "lv_full pl'" "ps_NetGraph pl' = ps_NetGraph pl" "0 \<le> n" "lv_cut pl' + 2 * n \<le> lv_cut pl1"
    using p1(3) by (simp_all add: lv_progress_def)
  obtain times where st: "printStats pl' = Some (map (\<lambda>k. int (length (filter (\<lambda>(v, s). s = int k) (ps_PartitionMap pl')))) [0..<nat (ps_ShardNum pl')],
      times, lv_cut pl', int (length (adj_pairs (ps_NetGraph pl))))"
    using printStats_ok[OF f(1)] f(2) by auto
  have "lv_RunPLouvain ord pl = Some ((length comms, n, map (\<lambda>k. int (length (filter (\<lambda>(v, s). s = int k) (ps_PartitionMap pl')))) [0..<nat (ps_ShardNum pl')],
      times, lv_cut pl', int (length (adj_pairs (ps_NetGraph pl)))), pl')"
    using p1(1) p'(1) st by (simp add: lv_RunPLouvain_def Let_def comms_def[symmetric] del: upt_Suc)
  moreover have "lv_ok pl'" "set (map fst (ps_PartitionMap pl')) = set (gr_VertexSet (ps_NetGraph pl))"
    using f(1,2) by (simp_all add: lv_full_def)
  ultimately show ?thesis using comms_def part p1(1,5) f(2-4) by blast
qed

theorem louvain_run_correct_witness:
  "lv_ok lv_demo \<and> lv_orders_ok lv_demo_orders
   \<and> (\<exists>pl1 pl' moved counts times. phase1_CommunityMovement (phase0_AggressiveLouvain lv_demo_orders lv_demo) lv_demo = Some pl1
       \<and> lv_RunPLouvain lv_demo_orders lv_demo = Some ((length (phase0_AggressiveLouvain lv_demo_orders lv_demo), moved, counts, times, lv_cut pl', 4), pl')
       \<and> set (map fst (ps_PartitionMap pl')) = {''a'', ''b'', ''c''} \<and> lv_cut pl' + 2 * moved \<le> lv_cut pl1)"
proof -
  let ?g = "Graph_AddEdge ''b'' ''c'' (Graph_AddEdge ''a'' ''b'' \<lparr>gr_VertexSet = [], gr_EdgeSet = None\<rparr>)"
  have wf: "graph_wf ?g" by (intro Graph_AddEdge_wf graph_wf_empty)
  have ok: "lv_ok lv_demo" "ps_NetGraph lv_demo = ?g"
    using NewPLouvainState_ok[OF wf, of 2] by (auto simp: lv_demo_def)
  have ord: "lv_orders_ok lv_demo_orders" by (simp add: lv_orders_ok_def lv_demo_orders_def)
  have deg: "\<forall>v \<in> set (gr_VertexSet (ps_NetGraph lv_demo)). length (edges_of (ps_NetGraph lv_demo) v) < 2 ^ 51"
    by (simp add: ok(2) Graph_AddEdge_vertices Graph_AddEdge_edges)
  have V: "set (gr_VertexSet ?g) = {''a'', ''b'', ''c''}" by (auto simp: Graph_AddEdge_vertices)
  have four: "int (length (adj_pairs ?g)) = 4" by code_simp
  obtain comms pl1 pl' moved counts times where r: "phase0_AggressiveLouvain lv_demo_orders lv_demo = comms" "phase1_CommunityMovement comms lv_demo = Some pl1"
      "lv_RunPLouvain lv_demo_orders lv_demo = Some ((length comms, moved, counts, times, lv_cut pl', int (length (adj_pairs (ps_NetGraph lv_demo)))), pl')"
      "set (map fst (ps_PartitionMap pl')) = set (gr_VertexSet (ps_NetGraph lv_demo))" "lv_cut pl' + 2 * moved \<le> lv_cut pl1"
    using louvain_run_correct[OF ok(1) ord deg] by (elim exE conjE) (rule that)
  show ?thesis
    by (intro conjI exI) (rule ok(1), rule ord, unfold r(1), rule r(2), rule r(3)[unfolded ok(2) four], rule r(4)[unfolded ok(2) V], rule r(5))
qed

end
