(* ===== verification/Sup_Tables.thy ===== *)
theory Sup_Tables
  imports Sup_Measure_Props
begin

text \<open>
  The tables that the measure modules write at the end of a run (the \<^verbatim>\<open>writeToCSV\<close> methods and \<^verbatim>\<open>measureTool.go\<close> of
  \<^verbatim>\<open>supervisor/measure/\<close>). A file is the list of its rows, a row the list of its fields: quoting is the business of the CSV
  writer. Failures of the file system, which panic, are left out.
\<close>

section \<open>Numbers as text\<close>

text \<open>\<^verbatim>\<open>strconv.FormatFloat\<close> in the format \<^verbatim>\<open>f\<close> with a precision: the exact value rounded to so many decimals, ties to even.\<close>

definition pad_digits :: "nat \<Rightarrow> bytes \<Rightarrow> bytes" where
  "pad_digits k s = replicate (k - length s) (CHR ''0'') @ s"

definition fixed_digits :: "nat \<Rightarrow> rat \<Rightarrow> bytes" where
  "fixed_digits prec q =
     (let n = nat (round_even (q * 10 ^ prec))
      in dec_digits (n div 10 ^ prec) @ (if prec = 0 then [] else CHR ''.'' # pad_digits prec (dec_digits (n mod 10 ^ prec))))"

fun FormatFloat :: "nat \<Rightarrow> f64 \<Rightarrow> bytes" where
  "FormatFloat prec NaN = ''NaN''"
| "FormatFloat prec (Inf s) = (if s then ''-Inf'' else ''+Inf'')"
| "FormatFloat prec (Zero s) = (if s then ''-'' else []) @ fixed_digits prec 0"
| "FormatFloat prec (Fin q) = (if q < 0 then ''-'' else []) @ fixed_digits prec \<bar>q\<bar>"

text \<open>The modules pass the character 8 for the precision, which is 56.\<close>

definition float_cell :: "f64 \<Rightarrow> bytes" where
  "float_cell x = FormatFloat 56 x"

section \<open>Rows\<close>

fun leg_name :: "scheme \<Rightarrow> bytes" where
  "leg_name RelayScheme = ''Relay''"
| "leg_name BrokerScheme = ''Broker''"

definition leg_columns :: "scheme \<Rightarrow> bytes list" where
  "leg_columns sch = [''Normal tx # in this epoch'', leg_name sch @ ''1 tx # in this epoch'', leg_name sch @ ''2 tx # in this epoch'']"

definition leg_cells :: "'m epoch_counts_scheme \<Rightarrow> nat \<Rightarrow> bytes list option" where
  "leg_cells m eid =
     do { n \<leftarrow> slice_get (ec_normalTxNum m) (int eid); a \<leftarrow> slice_get (ec_leg1TxNum m) (int eid); b \<leftarrow> slice_get (ec_leg2TxNum m) (int eid);
          Some [Itoa n, Itoa a, Itoa b] }"

text \<open>The header and the rows; \<open>row\<close> makes the row of an epoch from its number and its number of transactions.\<close>

definition csv_table :: "bytes list \<Rightarrow> (nat \<Rightarrow> f64 \<Rightarrow> bytes list option) \<Rightarrow> 'm epoch_counts_scheme \<Rightarrow> (bytes list \<times> bytes list list) option" where
  "csv_table header row m = map_option (Pair header) (those (map (\<lambda>(eid, t). row eid t) (enumerate 0 (ec_txNum m))))"

definition TxNumCount_writeToCSV :: "scheme \<Rightarrow> epoch_counts \<Rightarrow> (bytes list \<times> bytes list list) option" where
  "TxNumCount_writeToCSV sch m =
     csv_table ([''EpochID'', ''Total tx # in this epoch''] @ leg_columns sch)
       (\<lambda>eid t. map_option (\<lambda>legs. [Itoa (int eid), float_cell t] @ legs) (leg_cells m eid)) m"

definition TxNumCount_Broker_writeToCSV :: "epoch_counts \<Rightarrow> (bytes list \<times> bytes list list) option" where
  "TxNumCount_Broker_writeToCSV m = TxNumCount_writeToCSV BrokerScheme m"

definition CrossTxRate_writeToCSV :: "scheme \<Rightarrow> CrossTxRate \<Rightarrow> (bytes list \<times> bytes list list) option" where
  "CrossTxRate_writeToCSV sch m =
     csv_table ([''EpochID'', ''Total tx # in this epoch'', ''CTX # in this epoch''] @ leg_columns sch @ [''CTX ratio of this epoch''])
       (\<lambda>eid t. do { c \<leftarrow> slice_get (ct_totCrossTxNum m) (int eid);
                     legs \<leftarrow> leg_cells m eid;
                     Some ([Itoa (int eid), float_cell t, float_cell c] @ legs @ [float_cell (c / t)]) }) m"

definition CrossTxRate_Broker_writeToCSV :: "CrossTxRate \<Rightarrow> (bytes list \<times> bytes list list) option" where
  "CrossTxRate_Broker_writeToCSV m = CrossTxRate_writeToCSV BrokerScheme m"

definition avgTPS_writeToCSV :: "scheme \<Rightarrow> avgTPS \<Rightarrow> (bytes list \<times> bytes list list) option" where
  "avgTPS_writeToCSV sch m =
     csv_table ([''EpochID'', ''Total tx # in this epoch''] @ leg_columns sch @ [''Epoch start time'', ''Epoch end time'', ''Avg. TPS of this epoch''])
       (\<lambda>eid t. do { st \<leftarrow> slice_get (tp_startTime m) (int eid);
                     et \<leftarrow> slice_get (tp_endTime m) (int eid);
                     legs \<leftarrow> leg_cells m eid;
                     Some ([Itoa (int eid), float_cell t] @ legs @ [Itoa (UnixMilli st), Itoa (UnixMilli et), float_cell (t / go_Seconds (time_Sub et st))]) }) m"

definition avgTPS_Broker_writeToCSV :: "avgTPS \<Rightarrow> (bytes list \<times> bytes list list) option" where
  "avgTPS_Broker_writeToCSV m = avgTPS_writeToCSV BrokerScheme m"

definition TCL_columns :: "scheme \<Rightarrow> bytes list" where
  "TCL_columns sch =
     (let l = leg_name sch
      in [''Sum of '' @ l @ ''1 TCL (ms) (Duration: '' @ l @ ''1 Tx Propose -> '' @ l @ ''1 Tx Commit)'',
          ''Sum of '' @ l @ ''2 TCL (ms) (Duration: '' @ l @ ''2 Tx Propose -> '' @ l @ ''2 Tx Commit)'',
          ''Sum of innerShardTx TCL (ms)'',
          ''Sum of CTX TCL (ms) (Duration: '' @ l @ ''1 Tx Propose -> '' @ l @ ''2 Tx Commit)'',
          ''Sum of All Tx TCL (sec.)''])"

definition TCL_writeToCSV :: "scheme \<Rightarrow> TCL \<Rightarrow> (bytes list \<times> bytes list list) option" where
  "TCL_writeToCSV sch m =
     csv_table ([''EpochID'', ''Total tx # in this epoch''] @ leg_columns sch @ TCL_columns sch)
       (\<lambda>eid t. do { legs \<leftarrow> leg_cells m eid;
                     a \<leftarrow> slice_get (tl_leg1CommitLatency m) (int eid);
                     b \<leftarrow> slice_get (tl_leg2CommitLatency m) (int eid);
                     n \<leftarrow> slice_get (tl_normalTxCommitLatency m) (int eid);
                     c \<leftarrow> slice_get (tl_ctxCommitLatency m) (int eid);
                     s \<leftarrow> slice_get (tl_totTxLatencyEpoch m) (int eid);
                     Some ([Itoa (int eid), float_cell t] @ legs @ [Itoa a, Itoa b, Itoa n, Itoa c, float_cell s]) }) m"

definition TCL_Broker_writeToCSV :: "TCL \<Rightarrow> (bytes list \<times> bytes list list) option" where
  "TCL_Broker_writeToCSV m = TCL_writeToCSV BrokerScheme m"

section \<open>Single transactions\<close>

text \<open>Zero times give empty fields. \<open>keys\<close> are the hashes in the order of the range.\<close>

definition timestampToString :: "time \<Rightarrow> bytes" where
  "timestampToString thisTime = (if thisTime = 0 then [] else Itoa (UnixMilli thisTime))"

definition TxDetail_writeToCSV :: "bytes list \<Rightarrow> TestTxDetail \<Rightarrow> bytes list \<times> bytes list list" where
  "TxDetail_writeToCSV keys m =
     ([''TxHash (Byte -> Big Int)'', ''Tx propose timestamp'', ''Block propose timestamp'', ''Tx finally commit timestamp'',
       ''Relay1 Tx commit timestamp (not a relay tx -> nil)'', ''Relay2 Tx commit timestamp (not a relay tx -> nil)'',
       ''Broker1 Tx commit timestamp (not a broker tx -> nil)'', ''Broker2 Tx commit timestamp (not a broker tx -> nil)'',
       ''Confirmed latency of this tx (ms)''],
      List.map_filter (\<lambda>key. map_option (\<lambda>val.
        [dec_digits (big_endian key),
         timestampToString (td_TxProposeTimestamp val), timestampToString (td_BlockProposeTimestamp val), timestampToString (td_TxCommitTimestamp val),
         timestampToString (td_Relay1CommitTimestamp val), timestampToString (td_Relay2CommitTimestamp val),
         timestampToString (td_Broker1CommitTimestamp val), timestampToString (td_Broker2CommitTimestamp val),
         Itoa (go_Milliseconds (time_Sub (td_TxCommitTimestamp val) (td_TxProposeTimestamp val)))]) (m key)) keys)"

section \<open>Files\<close>

text \<open>Rows are appended; the header only goes to an empty file.\<close>

definition WriteMetricsToCSV :: "Params \<Rightarrow> bytes \<Rightarrow> bytes list \<Rightarrow> bytes list list \<Rightarrow> (bytes \<Rightarrow> bytes list list) \<Rightarrow> (bytes \<Rightarrow> bytes list list)" where
  "WriteMetricsToCSV pr fileName colName colVals fs =
     (let targetPath = pm_DataWrite_path pr @ ''supervisor_measureOutput/'' @ fileName @ ''.csv''
      in fs(targetPath := (if fs targetPath = [] then [colName] else fs targetPath) @ colVals))"

definition measure_table :: "bytes list \<Rightarrow> measure_module \<Rightarrow> (bytes list \<times> bytes list list) option" where
  "measure_table keys mm =
     (case mm of
        TPS_Relay m \<Rightarrow> avgTPS_writeToCSV RelayScheme m
      | TPS_Broker m \<Rightarrow> avgTPS_Broker_writeToCSV m
      | TCL_Relay m \<Rightarrow> TCL_writeToCSV RelayScheme m
      | TCL_Broker m \<Rightarrow> TCL_Broker_writeToCSV m
      | CrossTxRate_Relay m \<Rightarrow> CrossTxRate_writeToCSV RelayScheme m
      | CrossTxRate_Broker m \<Rightarrow> CrossTxRate_Broker_writeToCSV m
      | TxNumberCount_Relay m \<Rightarrow> TxNumCount_writeToCSV RelayScheme m
      | TxNumberCount_Broker m \<Rightarrow> TxNumCount_Broker_writeToCSV m
      | Tx_Details m \<Rightarrow> Some (TxDetail_writeToCSV keys m))"

definition writeToCSV :: "Params \<Rightarrow> bytes list \<Rightarrow> measure_module \<Rightarrow> (bytes \<Rightarrow> bytes list list) \<Rightarrow> (bytes \<Rightarrow> bytes list list) option" where
  "writeToCSV pr keys mm fs =
     map_option (\<lambda>(header, rows). WriteMetricsToCSV pr (OutputMetricName mm) header rows fs) (measure_table keys mm)"

section \<open>The text of halves\<close>

definition halves_text :: "int \<Rightarrow> bytes" where
  "halves_text k = dec_digits (nat (k div 2)) @ ''.'' @ (if even k then CHR ''0'' else CHR ''5'') # replicate 55 (CHR ''0'')"

lemma digit_chars: "char_of (48 :: nat) = CHR ''0''" "char_of (53 :: nat) = CHR ''5''"
  by code_simp+

lemma dec_digits_0: "dec_digits 0 = ''0''"
  by (simp add: dec_digits.simps digit_chars)

lemma dec_digits_scaled: "dec_digits (5 * 10 ^ j) = CHR ''5'' # replicate j (CHR ''0'')"
proof (induction j)
  case 0
  then show ?case by (simp add: dec_digits.simps digit_chars)
next
  case (Suc j)
  have "dec_digits (5 * 10 ^ Suc j) = dec_digits (5 * 10 ^ Suc j div 10) @ [char_of (48 + 5 * 10 ^ Suc j mod 10 :: nat)]"
    by (subst dec_digits.simps) simp
  then show ?case using Suc by (simp add: replicate_append_same digit_chars)
qed

lemma half_scaled:
  fixes n :: nat
  shows "5 * n * 10 ^ 55 div 10 ^ 56 = n div 2 \<and> 5 * n * 10 ^ 55 mod 10 ^ 56 = (if even n then 0 else 5 * 10 ^ 55)"
proof (cases "even n")
  case True
  then obtain j where "n = 2 * j" by (auto elim: evenE)
  then show ?thesis by simp
next
  case False
  then obtain j where n: "n = 2 * j + 1" by (auto elim: oddE)
  have "5 * n * 10 ^ 55 = j * 10 ^ 56 + 5 * 10 ^ 55" by (simp add: n algebra_simps)
  then show ?thesis using False n by simp
qed

lemma float_cell_half:
  assumes "0 \<le> k"
  shows "float_cell (half64 k) = halves_text k"
proof (cases "k = 0")
  case True
  have r: "round_even 0 = 0" using round_even_of_int[of 0] by simp
  have z: "replicate 55 c @ [c] = c # replicate 55 c" for c :: char by (simp add: replicate_append_same)
  show ?thesis unfolding True float_cell_def half64_def f64_zero_def halves_text_def
    by (simp add: fixed_digits_def r pad_digits_def dec_digits_0 z del: replicate.simps)
next
  case False
  define n where "n = nat k"
  have k: "k = int n" "n \<noteq> 0" using assms False by (simp_all add: n_def)
  have "(of_int k / 2 * 10 ^ 56 :: rat) = of_int (int (5 * n * 10 ^ 55))" by (simp add: k)
  then have r: "nat (round_even (of_int k / 2 * 10 ^ 56)) = 5 * n * 10 ^ 55" by (simp only: round_even_of_int nat_int)
  have "float_cell (half64 k) = fixed_digits 56 (of_int k / 2)" using k by (simp add: float_cell_def half64_def)
  also have "\<dots> = dec_digits (n div 2) @ CHR ''.'' # pad_digits 56 (dec_digits (if even n then 0 else 5 * 10 ^ 55))"
    unfolding fixed_digits_def Let_def r using half_scaled[of n] by simp
  also have "pad_digits 56 (dec_digits (if even n then 0 else 5 * 10 ^ 55)) = (if even n then CHR ''0'' else CHR ''5'') # replicate 55 (CHR ''0'')"
    by (cases "even n") (simp_all only: if_True if_False dec_digits_scaled[of 55] dec_digits_0 pad_digits_def, simp_all add: replicate_append_same del: replicate.simps)
  finally show ?thesis by (simp add: halves_text_def k nat_div_distrib)
qed

section \<open>What the tables say\<close>

definition count_row :: "scheme \<Rightarrow> BlockInfoMsg list \<Rightarrow> nat \<Rightarrow> bytes list" where
  "count_row sch bs e =
     (let n = reported_in (int e) bi_InnerShardTxs bs; a = reported_in (int e) (legs1 sch) bs; b = reported_in (int e) (legs2 sch) bs
      in [Itoa (int e), halves_text (2 * n + a + b), Itoa n, Itoa a, Itoa b])"

lemma csv_table_rows:
  assumes "slices_ok m" and "\<And>e. e < nat (ec_epochID m + 1) \<Longrightarrow> row e (ec_txNum m ! e) = Some (f e)"
  shows "csv_table header row m = Some (header, map f [0..<nat (ec_epochID m + 1)])"
proof -
  have "those (map (\<lambda>(eid, t). row eid t) (enumerate 0 (ec_txNum m))) = Some (map (f \<circ> fst) (enumerate 0 (ec_txNum m)))"
    using assms by (intro those_map) (auto simp: enumerate_eq_zip in_set_zip slices_ok_def)
  moreover have "map (f \<circ> fst) (enumerate 0 xs) = map f [0..<length xs]" for xs :: "f64 list"
    by (simp flip: map_map)
  ultimately show ?thesis using assms(1) by (simp add: csv_table_def slices_ok_def)
qed

lemma counted_cells:
  assumes "counted sch bs m" and "e < nat (ec_epochID m + 1)"
  shows "[Itoa (int e), float_cell (ec_txNum m ! e)] @ the (leg_cells m e) = count_row sch bs e \<and> leg_cells m e \<noteq> None
    \<and> length (the (leg_cells m e)) = 3"
proof -
  have e: "0 \<le> int e" "int e \<le> ec_epochID m" using assms(2) by auto
  have L: "leg_cells m e = Some [Itoa (reported_in (int e) bi_InnerShardTxs bs), Itoa (reported_in (int e) (legs1 sch) bs), Itoa (reported_in (int e) (legs2 sch) bs)]"
    using assms e unfolding counted_def leg_cells_def by (metis (no_types, lifting) bind.bind_lunit nat_int slice_get_in)
  have "ec_txNum m ! e = half64 (2 * reported_in (int e) bi_InnerShardTxs bs + reported_in (int e) (legs1 sch) bs + reported_in (int e) (legs2 sch) bs)"
    using counted_txNum[OF assms(1) e] by simp
  then show ?thesis using L reported_nonneg by (simp add: count_row_def Let_def float_cell_half)
qed

lemma table_shape:
  assumes "t = Some (header, map f [0..<n])" and "\<And>e. e < n \<Longrightarrow> length (f e) = length header \<and> g (f e) = r e"
  shows "\<exists>header rows. t = Some (header, rows) \<and> length rows = n \<and> (\<forall>e < length rows. length (rows ! e) = length header \<and> g (rows ! e) = r e)"
  using assms by simp

text \<open>The tables of modules that have counted the reports \<open>bs\<close>.\<close>

lemma TxNumCount_table:
  assumes "counted sch bs m"
  shows "TxNumCount_writeToCSV sch m = Some ([''EpochID'', ''Total tx # in this epoch''] @ leg_columns sch, map (count_row sch bs) [0..<nat (ec_epochID m + 1)])"
  unfolding TxNumCount_writeToCSV_def
  by (rule csv_table_rows[OF counted_slices[OF assms]]) (use counted_cells[OF assms] in force)

lemma CrossTxRate_table:
  assumes "counted sch bs m" and "cross_aux m"
  shows "\<exists>header rows. CrossTxRate_writeToCSV sch m = Some (header, rows) \<and> length rows = nat (ec_epochID m + 1)
    \<and> (\<forall>e < length rows. length (rows ! e) = length header \<and> take 2 (rows ! e) @ take 3 (drop 3 (rows ! e)) = count_row sch bs e)"
proof -
  let ?n = "nat (ec_epochID m + 1)" and ?c = "\<lambda>e. ct_totCrossTxNum m ! e"
  let ?f = "\<lambda>e. [Itoa (int e), float_cell (ec_txNum m ! e), float_cell (?c e)] @ the (leg_cells m e) @ [float_cell (?c e / ec_txNum m ! e)]"
  have "CrossTxRate_writeToCSV sch m = Some ([''EpochID'', ''Total tx # in this epoch'', ''CTX # in this epoch''] @ leg_columns sch @ [''CTX ratio of this epoch''], map ?f [0..<?n])"
    unfolding CrossTxRate_writeToCSV_def
  proof (rule csv_table_rows[OF counted_slices[OF assms(1)]])
    fix e assume "e < ?n"
    then show "do { c \<leftarrow> slice_get (ct_totCrossTxNum m) (int e); legs \<leftarrow> leg_cells m e;
        Some ([Itoa (int e), float_cell (ec_txNum m ! e), float_cell c] @ legs @ [float_cell (c / ec_txNum m ! e)]) } = Some (?f e)"
      using counted_cells[OF assms(1)] assms(2) by (force simp: cross_aux_def)
  qed
  from table_shape[OF this, of "\<lambda>r. take 2 r @ take 3 (drop 3 r)" "count_row sch bs"] show ?thesis
    using counted_cells[OF assms(1)] by (simp add: leg_columns_def)
qed

lemma avgTPS_table:
  assumes "counted sch bs m" and "tps_aux m"
  shows "\<exists>header rows. avgTPS_writeToCSV sch m = Some (header, rows) \<and> length rows = nat (ec_epochID m + 1)
    \<and> (\<forall>e < length rows. length (rows ! e) = length header \<and> take 5 (rows ! e) = count_row sch bs e)"
proof -
  let ?n = "nat (ec_epochID m + 1)" and ?s = "\<lambda>e. tp_startTime m ! e" and ?e = "\<lambda>e. tp_endTime m ! e"
  let ?f = "\<lambda>e. [Itoa (int e), float_cell (ec_txNum m ! e)] @ the (leg_cells m e)
      @ [Itoa (UnixMilli (?s e)), Itoa (UnixMilli (?e e)), float_cell (ec_txNum m ! e / go_Seconds (time_Sub (?e e) (?s e)))]"
  have "avgTPS_writeToCSV sch m = Some ([''EpochID'', ''Total tx # in this epoch''] @ leg_columns sch @ [''Epoch start time'', ''Epoch end time'', ''Avg. TPS of this epoch''], map ?f [0..<?n])"
    unfolding avgTPS_writeToCSV_def
  proof (rule csv_table_rows[OF counted_slices[OF assms(1)]])
    fix e assume "e < ?n"
    then show "do { st \<leftarrow> slice_get (tp_startTime m) (int e); et \<leftarrow> slice_get (tp_endTime m) (int e); legs \<leftarrow> leg_cells m e;
        Some ([Itoa (int e), float_cell (ec_txNum m ! e)] @ legs @ [Itoa (UnixMilli st), Itoa (UnixMilli et), float_cell (ec_txNum m ! e / go_Seconds (time_Sub et st))]) } = Some (?f e)"
      using counted_cells[OF assms(1)] assms(2) by (force simp: tps_aux_def)
  qed
  from table_shape[OF this, of "\<lambda>r. take 5 r" "count_row sch bs"] show ?thesis
    using counted_cells[OF assms(1)] by (simp add: leg_columns_def)
qed

lemma TCL_table:
  assumes "counted sch bs m" and "tcl_lens (ec_epochID m) m"
  shows "\<exists>header rows. TCL_writeToCSV sch m = Some (header, rows) \<and> length rows = nat (ec_epochID m + 1)
    \<and> (\<forall>e < length rows. length (rows ! e) = length header \<and> take 5 (rows ! e) = count_row sch bs e)"
proof -
  let ?n = "nat (ec_epochID m + 1)"
  let ?f = "\<lambda>e. [Itoa (int e), float_cell (ec_txNum m ! e)] @ the (leg_cells m e)
      @ [Itoa (tl_leg1CommitLatency m ! e), Itoa (tl_leg2CommitLatency m ! e), Itoa (tl_normalTxCommitLatency m ! e), Itoa (tl_ctxCommitLatency m ! e), float_cell (tl_totTxLatencyEpoch m ! e)]"
  have "TCL_writeToCSV sch m = Some ([''EpochID'', ''Total tx # in this epoch''] @ leg_columns sch @ TCL_columns sch, map ?f [0..<?n])"
    unfolding TCL_writeToCSV_def
  proof (rule csv_table_rows[OF counted_slices[OF assms(1)]])
    fix e assume e: "e < ?n"
    then obtain legs where "leg_cells m e = Some legs" using counted_cells[OF assms(1)] by blast
    with e assms(2) show "do { legs \<leftarrow> leg_cells m e; a \<leftarrow> slice_get (tl_leg1CommitLatency m) (int e); b \<leftarrow> slice_get (tl_leg2CommitLatency m) (int e);
        n \<leftarrow> slice_get (tl_normalTxCommitLatency m) (int e); c \<leftarrow> slice_get (tl_ctxCommitLatency m) (int e); s \<leftarrow> slice_get (tl_totTxLatencyEpoch m) (int e);
        Some ([Itoa (int e), float_cell (ec_txNum m ! e)] @ legs @ [Itoa a, Itoa b, Itoa n, Itoa c, float_cell s]) } = Some (?f e)"
      by (simp add: tcl_lens_def)
  qed
  from table_shape[OF this, of "\<lambda>r. take 5 r" "count_row sch bs"] show ?thesis
    using counted_cells[OF assms(1)] by (simp add: leg_columns_def TCL_columns_def Let_def)
qed



end
