(* ===== verification/Build_Main.thy ===== *)
theory Build_Main
  imports Sup_Supervisor Pbft_Handlers Ex_Node Net_Layer
begin

text \<open>
  Starting the program (\<^verbatim>\<open>main.go\<close>, \<^verbatim>\<open>build/\<close>): the configuration of a process, the choice between the supervisor, a PBFT
  node and an ExClique node, and the script files that start all processes. The IP table is the decoded JSON file, in its
  iteration order; flags are parsed by a package outside the repository and come in the record \<open>flags\<close>. \<^const>\<open>None\<close> is a panic.
\<close>

section \<open>Configuration\<close>

type_synonym ip_map = "(u64 \<times> (u64 \<times> bytes) list) list"

text \<open>\<open>unjson\<close> gives the map that \<^verbatim>\<open>json.Unmarshal\<close> leaves, the empty one for no data; errors are only printed.\<close>

definition readIpTable :: "(bytes \<Rightarrow> ip_map) \<Rightarrow> bytes option \<Rightarrow> ip_map" where
  "readIpTable unjson file = unjson (case file of None \<Rightarrow> [] | Some b \<Rightarrow> b)"

definition ip_of :: "ip_map \<Rightarrow> u64 \<Rightarrow> u64 \<Rightarrow> bytes" where
  "ip_of ipMap sid nid = (case map_of (assoc_get ipMap sid) nid of None \<Rightarrow> [] | Some ip \<Rightarrow> ip)"

text \<open>The parameters afterwards, the address of the supervisor, and the configuration of the chain.\<close>

definition initConfig :: "Params \<Rightarrow> ip_map \<Rightarrow> u64 \<Rightarrow> u64 \<Rightarrow> u64 \<Rightarrow> u64 \<Rightarrow> (Params \<times> bytes \<times> ChainConfig) option" where
  "initConfig pr ipMap nid nnm sid snm =
     (let shards = int (length ipMap) - 1
      in if shards < sint snm then None
         else if list_ex (\<lambda>shardID. int (length (assoc_get ipMap (of_int shardID))) < sint nnm) [0..shards - 1] then None
         else let pr = init_params (pr\<lparr>pm_NodesInShard := sint nnm, pm_ShardNum := sint snm\<rparr>)
              in Some (pr, ip_of ipMap SupervisorShard 0,
                   \<lparr>cc_ChainID = sid, cc_NodeID = nid, cc_ShardID = sid, cc_Nodes_perShard = of_int (pm_NodesInShard pr), cc_ShardNums = snm,
                    cc_BlockSize = of_int (pm_MaxBlockSize_global pr), cc_BlockInterval = of_int (pm_Block_Interval pr),
                    cc_InjectSpeed = of_int (pm_InjectSpeed pr), cc_MaxRelayBlockSize = 0\<rparr>))"

definition MeasureBrokerMod :: "bytes list" where
  "MeasureBrokerMod = [''TPS_Broker'', ''TCL_Broker'', ''CrossTxRate_Broker'', ''TxNumberCount_Broker'']"

definition MeasureRelayMod :: "bytes list" where
  "MeasureRelayMod = [''TPS_Relay'', ''TCL_Relay'', ''CrossTxRate_Relay'', ''TxNumberCount_Relay'']"

definition measure_mods :: "Params \<Rightarrow> bytes list" where
  "measure_mods pr =
     (let methodID = pm_ConsensusMethod pr
      in (if methodID = 0 \<or> methodID = 2 then MeasureBrokerMod
          else if methodID = 4 then [''BlockInfo'', ''TPS'', ''Latency'']
          else MeasureRelayMod) @ [''Tx_Details''])"

text \<open>The supervisor, ready to send; \<open>lines\<close> and \<open>firstIp\<close> as for \<^const>\<open>NewSupervisor\<close>.\<close>

definition BuildSupervisor :: "Params \<Rightarrow> ip_map \<Rightarrow> address list \<Rightarrow> (u64 \<Rightarrow> bytes option) \<Rightarrow> u64 \<Rightarrow> u64 \<Rightarrow> (Params \<times> Supervisor) option" where
  "BuildSupervisor pr ipMap lines firstIp nnm snm =
     do { let measureMod = measure_mods pr;
          (pr, addr, pcc) \<leftarrow> initConfig pr ipMap 123 nnm 123 snm;
          let (method, measureMod) = (if oh_Enabled (pm_Overhead pr) then (''Overhead'', []) else (''PLouvain'', measureMod));
          map_option (Pair pr) (NewSupervisor pr lines firstIp (ip_of ipMap) pcc method measureMod) }"

text \<open>The name by which the node selects its exchangeable parts, and the node on its opened databases.\<close>

definition BuildNewPbftNode ::
    "('bs, 'bo, 'tr, 'td, 'ns, 'e) chain_env_scheme \<Rightarrow> ip_map \<Rightarrow> 'td option \<Rightarrow> bytes \<Rightarrow> 'bo option \<Rightarrow> time \<Rightarrow> u64 \<Rightarrow> u64 \<Rightarrow> u64 \<Rightarrow> u64 \<Rightarrow>
     (bytes \<times> ('bs, 'bo, 'td) node) option" where
  "BuildNewPbftNode E ipMap db fp opened now nid nnm sid snm =
     do { (pr, addr, pcc) \<leftarrow> initConfig (prm E) ipMap nid nnm sid snm;
          td \<leftarrow> db;
          let E = E\<lparr>prm := pr\<rparr>;
          bc \<leftarrow> NewBlockChain E pcc fp td opened;
          Some (if oh_Enabled (pm_Overhead pr) then ''CLPA'' else ''PLouvain'', NewPbftNode E (ip_of ipMap) now sid nid pcc bc) }"

definition BuildNewExCliqueNode ::
    "('bs, 'bo, 'tr, 'td, 'ns, 'e) chain_env_scheme \<Rightarrow> ip_map \<Rightarrow> 'td option \<Rightarrow> bytes \<Rightarrow> 'bo option \<Rightarrow> time \<Rightarrow> u64 \<Rightarrow> u64 \<Rightarrow> u64 \<Rightarrow> u64 \<Rightarrow>
     ('bs, 'bo, 'td) ExCliqueNode option" where
  "BuildNewExCliqueNode E ipMap db fp opened now nid nnm sid snm =
     do { (pr, addr, pcc) \<leftarrow> initConfig (prm E) ipMap nid nnm sid snm;
          NewExCliqueNode (E\<lparr>prm := pr\<rparr>) (ip_of ipMap) db fp opened now sid nid pcc }"

section \<open>Script files\<close>

text \<open>The files and the set \<^verbatim>\<open>fileUpToDataSet\<close> of those written by this process: any other file is removed before it is written to.
  A removal that fails, which panics, is left out; \<open>can_write\<close> says which files can be opened.\<close>

record scripts =
  sf_files :: "bytes \<Rightarrow> bytes"
  sf_UpToDate :: "bytes list"

datatype gen_error = NoShard int | NoNode int int | NoSupervisor | FileError

definition attachLineToFile :: "(bytes \<Rightarrow> bool) \<Rightarrow> bytes \<Rightarrow> bytes \<Rightarrow> scripts \<Rightarrow> bool \<times> scripts" where
  "attachLineToFile can_write filePath line s =
     (let s = (if filePath \<in> set (sf_UpToDate s) then s
               else s\<lparr>sf_files := (sf_files s)(filePath := []), sf_UpToDate := sf_UpToDate s @ [filePath]\<rparr>)
      in if \<not> can_write filePath then (False, s)
         else (True, s\<lparr>sf_files := (sf_files s)(filePath := sf_files s filePath @ line @ [CHR 0x0A])\<rparr>))"

text \<open>\<open>exe\<close> tells the two generators apart; \<open>os\<close> is \<^verbatim>\<open>runtime.GOOS\<close>.\<close>

definition script_path :: "bool \<Rightarrow> bytes \<Rightarrow> bytes \<Rightarrow> bytes" where
  "script_path exe os nodeIp =
     (if exe then os @ ''_exe_run_IpAddr='' else ''complie_run_IpAddr='')
     @ map (\<lambda>c. if c = CHR ''.'' then CHR ''_'' else c) (takeWhile (\<lambda>c. c \<noteq> CHR '':'') nodeIp)
     @ (if os = ''windows'' then ''.bat'' else ''.sh'')"

definition run_command :: "bool \<Rightarrow> bytes \<Rightarrow> bytes" where
  "run_command exe os =
     (if exe then if os = ''windows'' then ''start cmd /k blockEmulator_Windows_Precompile.exe'' else ''./blockEmulator_'' @ os @ ''_Precompile''
      else if os = ''windows'' then ''start cmd /k go run main.go'' else ''go run main.go'')"

definition node_command :: "bool \<Rightarrow> bytes \<Rightarrow> int \<Rightarrow> int \<Rightarrow> int \<Rightarrow> int \<Rightarrow> bytes" where
  "node_command exe os nodenum shardnum i j =
     run_command exe os @ '' -n '' @ Itoa j @ '' -N '' @ Itoa nodenum @ '' -s '' @ Itoa i @ '' -S '' @ Itoa shardnum @ '' & '' @ [CHR 0x0A]"

definition supervisor_command :: "bool \<Rightarrow> bytes \<Rightarrow> int \<Rightarrow> int \<Rightarrow> bytes" where
  "supervisor_command exe os nodenum shardnum =
     run_command exe os @ '' -c -N '' @ Itoa nodenum @ '' -S '' @ Itoa shardnum @ '' & '' @ [CHR 0x0A]"

text \<open>The loops return at the first error.\<close>

fun gen_nodes :: "(bytes \<Rightarrow> bool) \<Rightarrow> bool \<Rightarrow> bytes \<Rightarrow> ip_map \<Rightarrow> int \<Rightarrow> int \<Rightarrow> int \<Rightarrow> int list \<Rightarrow> scripts \<Rightarrow> gen_error option \<times> scripts" where
  "gen_nodes can_write exe os ipMap nodenum shardnum i [] s = (None, s)"
| "gen_nodes can_write exe os ipMap nodenum shardnum i (j # js) s =
     (case map_of (assoc_get ipMap (of_int i)) (of_int j) of
        None \<Rightarrow> (Some (NoNode i j), s)
      | Some nodeIp \<Rightarrow>
          let (ok, s) = attachLineToFile can_write (script_path exe os nodeIp) (node_command exe os nodenum shardnum i j) s
          in if \<not> ok then (Some FileError, s) else gen_nodes can_write exe os ipMap nodenum shardnum i js s)"

fun gen_shards :: "(bytes \<Rightarrow> bool) \<Rightarrow> bool \<Rightarrow> bytes \<Rightarrow> ip_map \<Rightarrow> int \<Rightarrow> int \<Rightarrow> int list \<Rightarrow> scripts \<Rightarrow> gen_error option \<times> scripts" where
  "gen_shards can_write exe os ipMap nodenum shardnum [] s = (None, s)"
| "gen_shards can_write exe os ipMap nodenum shardnum (i # is) s =
     (if map_of ipMap (of_int i) = None then (Some (NoShard i), s)
      else let (err, s) = gen_nodes can_write exe os ipMap nodenum shardnum i [0..nodenum - 1] s
           in if err \<noteq> None then (err, s) else gen_shards can_write exe os ipMap nodenum shardnum is s)"

definition GenerateBatch :: "(bytes \<Rightarrow> bool) \<Rightarrow> bool \<Rightarrow> bytes \<Rightarrow> ip_map \<Rightarrow> int \<Rightarrow> int \<Rightarrow> scripts \<Rightarrow> gen_error option \<times> scripts" where
  "GenerateBatch can_write exe os ipMap nodenum shardnum s =
     (let (err, s) = gen_shards can_write exe os ipMap nodenum shardnum [0..shardnum - 1] s
      in if err \<noteq> None then (err, s)
         else case map_of (assoc_get ipMap SupervisorShard) 0 of
                None \<Rightarrow> (Some NoSupervisor, s)
              | Some nodeIp \<Rightarrow>
                  let (ok, s) = attachLineToFile can_write (script_path exe os nodeIp) (supervisor_command exe os nodenum shardnum) s
                  in (if ok then None else Some FileError, s))"

definition GenerateBatchByIpTable :: "(bytes \<Rightarrow> bool) \<Rightarrow> bytes \<Rightarrow> ip_map \<Rightarrow> int \<Rightarrow> int \<Rightarrow> scripts \<Rightarrow> gen_error option \<times> scripts" where
  "GenerateBatchByIpTable can_write os ipMap nodenum shardnum s = GenerateBatch can_write False os ipMap nodenum shardnum s"

definition GenerateExeBatchByIpTable :: "(bytes \<Rightarrow> bool) \<Rightarrow> bytes \<Rightarrow> ip_map \<Rightarrow> int \<Rightarrow> int \<Rightarrow> scripts \<Rightarrow> gen_error option \<times> scripts" where
  "GenerateExeBatchByIpTable can_write os ipMap nodenum shardnum s = GenerateBatch can_write True os ipMap nodenum shardnum s"

section \<open>The program\<close>

record flags =
  fl_isGen :: bool
  fl_isGenerateForExeFile :: bool
  fl_shardNum :: int
  fl_nodeNum :: int
  fl_shardID :: int
  fl_nodeID :: int
  fl_isSupervisor :: bool
  fl_useExClique :: bool

datatype ('bs, 'bo, 'td) process =
    Scripts "gen_error option" scripts
  | SupervisorProcess Supervisor
  | PbftProcess bytes "('bs, 'bo, 'td) node"
  | ExCliqueProcess "('bs, 'bo, 'td) ExCliqueNode"

text \<open>What the machine of the process gives it: its system, its files, its databases and its clock.\<close>

record ('bo, 'td) machine =
  mc_os :: bytes
  mc_can_write :: "bytes \<Rightarrow> bool"
  mc_scripts :: scripts
  mc_ipMap :: ip_map
  mc_brokers :: "address list"
  mc_firstIp :: "u64 \<Rightarrow> bytes option"
  mc_db :: "'td option"
  mc_fp :: bytes
  mc_opened :: "'bo option"
  mc_now :: time

definition go_main ::
    "('bs, 'bo, 'tr, 'td, 'ns, 'e) chain_env_scheme \<Rightarrow> ('bo, 'td) machine \<Rightarrow> globalConfig option \<Rightarrow> flags \<Rightarrow> ('bs, 'bo, 'td) process option" where
  "go_main E mc config fl =
     do { pr \<leftarrow> ReadConfigFile config (prm E);
          let pr = pr\<lparr>pm_ShardNum := fl_shardNum fl, pm_NodesInShard := fl_nodeNum fl\<rparr>;
          let E = E\<lparr>prm := pr\<rparr>;
          let nnm = of_int (fl_nodeNum fl); let snm = of_int (fl_shardNum fl);
          let nid = of_int (fl_nodeID fl); let sid = of_int (fl_shardID fl);
          if fl_isGen fl then
            Some (case (if fl_isGenerateForExeFile fl then GenerateExeBatchByIpTable else GenerateBatchByIpTable)
                    (mc_can_write mc) (mc_os mc) (mc_ipMap mc) (fl_nodeNum fl) (fl_shardNum fl) (mc_scripts mc) of (err, s) \<Rightarrow> Scripts err s)
          else if fl_isSupervisor fl then
            map_option (\<lambda>(_, d). SupervisorProcess d) (BuildSupervisor pr (mc_ipMap mc) (mc_brokers mc) (mc_firstIp mc) nnm snm)
          else if fl_shardID fl \<ge> fl_shardNum fl \<or> fl_shardID fl < 0 then None
          else if fl_nodeID fl \<ge> fl_nodeNum fl \<or> fl_nodeID fl < 0 then None
          else if fl_useExClique fl then
            map_option ExCliqueProcess (BuildNewExCliqueNode E (mc_ipMap mc) (mc_db mc) (mc_fp mc) (mc_opened mc) (mc_now mc) nid nnm sid snm)
          else map_option (\<lambda>(method, p). PbftProcess method p)
                 (BuildNewPbftNode E (mc_ipMap mc) (mc_db mc) (mc_fp mc) (mc_opened mc) (mc_now mc) nid nnm sid snm) }"

end
