(* ===== verification/Build_Props.thy ===== *)
theory Build_Props
  imports Build_Main Sup_Supervisor_Props
begin

text \<open>
  What the start of the processes guarantees: the scripts contain every command once, and the processes that are
  started from them fit together.
\<close>

section \<open>Scripts\<close>

text \<open>Writing a list of lines to files, in order.\<close>

definition attach_all :: "(bytes \<times> bytes) list \<Rightarrow> scripts \<Rightarrow> scripts" where
  "attach_all entries s = foldl (\<lambda>s (path, line). snd (attachLineToFile (\<lambda>_. True) path line s)) s entries"

definition lines_for :: "bytes \<Rightarrow> (bytes \<times> bytes) list \<Rightarrow> bytes" where
  "lines_for path entries = concat (map (\<lambda>(_, line). line @ [CHR 0x0A]) (filter (\<lambda>(p, _). p = path) entries))"

lemma attach_one:
  "sf_files (snd (attachLineToFile (\<lambda>_. True) q l s)) path =
     (if path = q then (if q \<in> set (sf_UpToDate s) then sf_files s q else []) @ l @ [CHR 0x0A] else sf_files s path)"
  "set (sf_UpToDate (snd (attachLineToFile (\<lambda>_. True) q l s))) = insert q (set (sf_UpToDate s))"
  by (auto simp: attachLineToFile_def Let_def)

lemma lines_for_simps:
  "lines_for path [] = []" "lines_for path (entries @ [(q, l)]) = lines_for path entries @ (if path = q then l @ [CHR 0x0A] else [])"
  "path \<notin> fst ` set entries \<Longrightarrow> lines_for path entries = []"
  by (force simp: lines_for_def filter_empty_conv)+

lemma attach_all_files:
  "sf_files (attach_all entries s) path =
     (if path \<in> fst ` set entries then (if path \<in> set (sf_UpToDate s) then sf_files s path else []) @ lines_for path entries else sf_files s path)
   \<and> set (sf_UpToDate (attach_all entries s)) = set (sf_UpToDate s) \<union> fst ` set entries"
proof (induction entries rule: rev_induct)
  case (snoc e entries)
  obtain q l where e: "e = (q, l)" by (cases e)
  have "attach_all (entries @ [e]) s = snd (attachLineToFile (\<lambda>_. True) q l (attach_all entries s))" by (simp add: attach_all_def e)
  then show ?case using snoc by (cases "path = q") (auto simp: e attach_one lines_for_simps)
qed (simp add: attach_all_def)

lemma attach_all_append: "attach_all (xs @ ys) s = attach_all ys (attach_all xs s)"
  by (simp add: attach_all_def)

definition node_entries :: "bool \<Rightarrow> bytes \<Rightarrow> ip_map \<Rightarrow> int \<Rightarrow> int \<Rightarrow> int \<Rightarrow> int list \<Rightarrow> (bytes \<times> bytes) list" where
  "node_entries exe os ipMap nodenum shardnum i js =
     map (\<lambda>j. (script_path exe os (ip_of ipMap (of_int i) (of_int j)), node_command exe os nodenum shardnum i j)) js"

lemma gen_nodes_complete:
  assumes "\<forall>j \<in> set js. map_of (assoc_get ipMap (of_int i)) (of_int j) \<noteq> None"
  shows "gen_nodes (\<lambda>_. True) exe os ipMap nodenum shardnum i js s = (None, attach_all (node_entries exe os ipMap nodenum shardnum i js) s)"
  using assms
proof (induction js arbitrary: s)
  case (Cons j js)
  obtain ip where ip: "map_of (assoc_get ipMap (of_int i)) (of_int j) = Some ip" using Cons.prems by auto
  then have "ip_of ipMap (of_int i) (of_int j) = ip" by (simp add: ip_of_def)
  with Cons ip show ?case by (simp add: node_entries_def attach_all_def attachLineToFile_def Let_def)
qed (simp add: node_entries_def attach_all_def)

lemma gen_shards_complete:
  assumes "\<forall>i \<in> set is. map_of ipMap (of_int i) \<noteq> None \<and> (\<forall>j \<in> {0..<nodenum}. map_of (assoc_get ipMap (of_int i)) (of_int j) \<noteq> None)"
  shows "gen_shards (\<lambda>_. True) exe os ipMap nodenum shardnum is s
    = (None, attach_all (concat (map (\<lambda>i. node_entries exe os ipMap nodenum shardnum i [0..nodenum - 1]) is)) s)"
  using assms
proof (induction "is" arbitrary: s)
  case (Cons i "is")
  have "gen_nodes (\<lambda>_. True) exe os ipMap nodenum shardnum i [0..nodenum - 1] s = (None, attach_all (node_entries exe os ipMap nodenum shardnum i [0..nodenum - 1]) s)"
    using Cons.prems by (intro gen_nodes_complete) auto
  with Cons show ?case by (simp add: attach_all_append)
qed (simp add: attach_all_def)

text \<open>A missing shard or node stops the generators with an error.\<close>

lemma gen_nodes_error:
  "fst (gen_nodes (\<lambda>_. True) exe os ipMap nodenum shardnum i js s) = None \<Longrightarrow> \<forall>j \<in> set js. map_of (assoc_get ipMap (of_int i)) (of_int j) \<noteq> None"
  by (induction js arbitrary: s) (auto simp: Let_def split: option.splits prod.splits if_splits)

lemma gen_shards_error:
  "fst (gen_shards (\<lambda>_. True) exe os ipMap nodenum shardnum is s) = None \<Longrightarrow>
     \<forall>i \<in> set is. map_of ipMap (of_int i) \<noteq> None \<and> (\<forall>j \<in> {0..<nodenum}. map_of (assoc_get ipMap (of_int i)) (of_int j) \<noteq> None)"
proof (induction "is" arbitrary: s)
  case (Cons i "is")
  obtain err s1 where g: "gen_nodes (\<lambda>_. True) exe os ipMap nodenum shardnum i [0..nodenum - 1] s = (err, s1)" by fastforce
  have c: "map_of ipMap (of_int i) \<noteq> None" "err = None" "fst (gen_shards (\<lambda>_. True) exe os ipMap nodenum shardnum is s1) = None"
    using Cons.prems g by (auto split: if_splits)
  have "\<forall>j \<in> {0..<nodenum}. map_of (assoc_get ipMap (of_int i)) (of_int j) \<noteq> None"
    using gen_nodes_error[of exe os ipMap nodenum shardnum i "[0..nodenum - 1]" s] g c(2) by auto
  with c Cons.IH[OF c(3)] show ?case by simp
qed simp

definition all_entries :: "bool \<Rightarrow> bytes \<Rightarrow> ip_map \<Rightarrow> int \<Rightarrow> int \<Rightarrow> (bytes \<times> bytes) list" where
  "all_entries exe os ipMap nodenum shardnum =
     concat (map (\<lambda>i. node_entries exe os ipMap nodenum shardnum i [0..nodenum - 1]) [0..shardnum - 1])
     @ [(script_path exe os (ip_of ipMap SupervisorShard 0), supervisor_command exe os nodenum shardnum)]"

text \<open>
  The script files of a new process that can write its files. The generators succeed exactly when the IP table has all nodes of all
  shards and the supervisor. Then each file named after an address holds the commands of the nodes at that address, in the order of
  shards and nodes, each once, and at the end the command of the supervisor if it lives there; other files are unchanged.
\<close>

theorem scripts_complete:
  assumes "sf_UpToDate s = []"
  shows "case GenerateBatch (\<lambda>_. True) exe os ipMap nodenum shardnum s of (err, s') \<Rightarrow>
    (err = None \<longleftrightarrow> (\<forall>i \<in> {0..<shardnum}. map_of ipMap (of_int i) \<noteq> None \<and> (\<forall>j \<in> {0..<nodenum}. map_of (assoc_get ipMap (of_int i)) (of_int j) \<noteq> None))
       \<and> map_of (assoc_get ipMap SupervisorShard) 0 \<noteq> None)
    \<and> (err = None \<longrightarrow> (\<forall>path. sf_files s' path =
         (if path \<in> fst ` set (all_entries exe os ipMap nodenum shardnum) then lines_for path (all_entries exe os ipMap nodenum shardnum) else sf_files s path)))"
proof -
  let ?ok = "\<forall>i \<in> {0..<shardnum}. map_of ipMap (of_int i) \<noteq> None \<and> (\<forall>j \<in> {0..<nodenum}. map_of (assoc_get ipMap (of_int i)) (of_int j) \<noteq> None)"
  let ?nodes = "concat (map (\<lambda>i. node_entries exe os ipMap nodenum shardnum i [0..nodenum - 1]) [0..shardnum - 1])"
  show ?thesis
  proof (cases "?ok \<and> map_of (assoc_get ipMap SupervisorShard) 0 \<noteq> None")
    case True
    then obtain ip where ip: "map_of (assoc_get ipMap SupervisorShard) 0 = Some ip" by auto
    then have sup: "ip_of ipMap SupervisorShard 0 = ip" by (simp add: ip_of_def)
    have "gen_shards (\<lambda>_. True) exe os ipMap nodenum shardnum [0..shardnum - 1] s = (None, attach_all ?nodes s)"
      using True by (intro gen_shards_complete) auto
    then have "GenerateBatch (\<lambda>_. True) exe os ipMap nodenum shardnum s = (None, attach_all (all_entries exe os ipMap nodenum shardnum) s)"
      unfolding GenerateBatch_def all_entries_def attach_all_append using ip sup
      by (simp add: attach_all_def[of "[_]"] attachLineToFile_def Let_def)
    then show ?thesis using True assms attach_all_files[of "all_entries exe os ipMap nodenum shardnum" s] by simp
  next
    case False
    have "fst (GenerateBatch (\<lambda>_. True) exe os ipMap nodenum shardnum s) \<noteq> None"
    proof
      assume "fst (GenerateBatch (\<lambda>_. True) exe os ipMap nodenum shardnum s) = None"
      then have "fst (gen_shards (\<lambda>_. True) exe os ipMap nodenum shardnum [0..shardnum - 1] s) = None \<and> map_of (assoc_get ipMap SupervisorShard) 0 \<noteq> None"
        by (auto simp: GenerateBatch_def Let_def split: prod.splits option.splits if_splits)
      with gen_shards_error[of exe os ipMap nodenum shardnum "[0..shardnum - 1]" s] False show False by auto
    qed
    then show ?thesis using False by (simp only: split_beta simp_thms)
  qed
qed

section \<open>Processes\<close>

text \<open>The address at which a node process listens.\<close>

fun node_addr :: "('bs, 'bo, 'td) process \<Rightarrow> bytes option" where
  "node_addr (PbftProcess _ p) = Some (nd_IPaddr (pn_RunningNode p))"
| "node_addr (ExCliqueProcess ec) = Some (ex_IPaddr ec)"
| "node_addr _ = None"

lemma node_process_addr:
  assumes "go_main E mc config fl = Some proc" and "node_addr proc = Some addr"
  shows "addr = ip_of (mc_ipMap mc) (of_int (fl_shardID fl)) (of_int (fl_nodeID fl))
    \<and> 0 \<le> fl_shardID fl \<and> fl_shardID fl < fl_shardNum fl \<and> 0 \<le> fl_nodeID fl \<and> fl_nodeID fl < fl_nodeNum fl"
  using assms
  by (auto simp: go_main_def Let_def bind_eq_Some_conv BuildNewPbftNode_def BuildNewExCliqueNode_def NewExCliqueNode_def NewPbftNode_def
      split: if_splits prod.splits)

lemma supervisor_process:
  assumes "go_main E mc config fl = Some (SupervisorProcess d)"
  shows "\<exists>pr pcc com names. NewSupervisor pr (mc_brokers mc) (mc_firstIp mc) (ip_of (mc_ipMap mc)) pcc com names = Some d
    \<and> cc_ShardNums pcc = of_int (fl_shardNum fl) \<and> cc_Nodes_perShard pcc = of_int (fl_nodeNum fl)"
proof -
  obtain pr pr2 where "BuildSupervisor pr (mc_ipMap mc) (mc_brokers mc) (mc_firstIp mc) (of_int (fl_nodeNum fl)) (of_int (fl_shardNum fl)) = Some (pr2, d)"
    using assms by (auto simp: go_main_def Let_def bind_eq_Some_conv split: if_splits prod.splits)
  then obtain pr3 addr pcc com names where
    c: "initConfig pr (mc_ipMap mc) 123 (of_int (fl_nodeNum fl)) 123 (of_int (fl_shardNum fl)) = Some (pr3, addr, pcc)"
    and d: "NewSupervisor pr3 (mc_brokers mc) (mc_firstIp mc) (ip_of (mc_ipMap mc)) pcc com names = Some d"
    by (auto simp: BuildSupervisor_def Let_def bind_eq_Some_conv split: if_splits)
  have "cc_ShardNums pcc = of_int (fl_shardNum fl)" "cc_Nodes_perShard pcc = of_int (fl_nodeNum fl)"
    using c by (auto simp: initConfig_def Let_def init_params_def split: if_splits)
  with d show ?thesis by blast
qed

text \<open>
  C25. The processes of an experiment fit together. When node processes of either consensus and a supervisor are started with the same IP table
  and the same numbers of shards and nodes, a supervisor that has closed its run, whatever happened in it, has sent a stop
  message to the address at which each of the nodes listens.
\<close>

theorem stop_reaches_every_node:
  assumes "go_main E mc config fl = Some proc" and "node_addr proc = Some addr"
    and "go_main E' mc' config' fl' = Some (SupervisorProcess d0)"
    and "mc_ipMap mc' = mc_ipMap mc" and "fl_shardNum fl' = fl_shardNum fl" and "fl_nodeNum fl' = fl_nodeNum fl"
    and "fl_shardNum fl < 2 ^ 63" and "fl_nodeNum fl < 2 ^ 63"
    and "sv_run E'' jr d0 evs = Some (outs, d)" and "sv_phase d = SvClosed"
  shows "Dial addr CStop \<in> set outs"
proof -
  note n = node_process_addr[OF assms(1,2)]
  obtain pr pcc com names where s: "NewSupervisor pr (mc_brokers mc') (mc_firstIp mc') (ip_of (mc_ipMap mc)) pcc com names = Some d0"
      "cc_ShardNums pcc = of_int (fl_shardNum fl)" "cc_Nodes_perShard pcc = of_int (fl_nodeNum fl)"
    using supervisor_process[OF assms(3)] assms(4-6) by auto
  have i: "sv_inv pcc (ip_of (mc_ipMap mc)) evs outs d" by (rule sv_run_inv[OF NewSupervisor_inv[OF s(1)] assms(9)])
  have lt: "(of_int a :: u64) < of_int b" if "0 \<le> a" "a < b" "b < 2 ^ 63" for a b :: int
    using that by (simp add: word_less_def uint_word_of_int take_bit_int_eq_self)
  have "Dial addr CStop \<in> set (stop_messages d)"
    using n i s(2,3) lt assms(7,8) by (auto simp: stop_messages_def sv_inv_def)
  moreover have "filter is_stop outs = stop_messages d" using i assms(10) by (simp add: sv_inv_def)
  ultimately have "Dial addr CStop \<in> set (filter is_stop outs)" by simp
  then show ?thesis by simp
qed

text \<open>The parameters play no role when a chain is opened.\<close>

lemma NewBlockChain_prm: "NewBlockChain (E\<lparr>prm := p\<rparr>) cc fp td opened = NewBlockChain E cc fp td opened"
proof -
  have st: "NewStorage (E\<lparr>prm := p\<rparr>) = NewStorage E" "GetNewestBlockHash (E\<lparr>prm := p\<rparr>) = GetNewestBlockHash E"
    "GetBlock (E\<lparr>prm := p\<rparr>) = GetBlock E" "Storage_AddBlock (E\<lparr>prm := p\<rparr>) = Storage_AddBlock E"
    by (simp_all add: fun_eq_iff NewStorage_def GetNewestBlockHash_def GetBlock_def DecodeB_def Storage_AddBlock_def AddBlockHeader_def
        UpdateNewestBlock_def B_Encode_def BH_Encode_def cong: option.case_cong)
  have "AddGenisisBlock (E\<lparr>prm := p\<rparr>) = AddGenisisBlock E" unfolding AddGenisisBlock_def fun_eq_iff st by simp
  moreover have "NewGenisisBlock (E\<lparr>prm := p\<rparr>) = NewGenisisBlock E"
    by (simp add: NewGenisisBlock_def GetBloomFilter_def GetTxTreeRoot_def GetTxTree_def BH_Hash_def BH_Encode_def)
  moreover have "tr_New (E\<lparr>prm := p\<rparr>) = tr_New E" by simp
  ultimately show ?thesis unfolding NewBlockChain_def st by (simp only:)
qed

definition demo_config :: globalConfig where
  "demo_config = \<lparr>gc_Overhead = \<lparr>oh_Enabled = True, oh_Lightweight = False, oh_Migration = False, oh_MigrationAfterSeconds = 0,
       oh_MigrationAccounts = 0, oh_TimeoutSeconds = 60, oh_StreamSkipNode = 0\<rparr>,
     gc_ConsensusMethod = 3, gc_PbftViewChangeTimeOut = 3000, gc_ExpDataRootDir = ''expTest'', gc_BlockInterval = 5000,
     gc_BlocksizeInBytes = 20000, gc_MaxBlockSizeGlobal = 2000, gc_UseBlocksizeInBytes = 0, gc_InjectSpeed = 2000,
     gc_TotalDataSize = 160000, gc_TxBatchSize = 16000, gc_BrokerNum = 10, gc_RelayWithMerkleProof = 0,
     gc_DatasetFile = ''selectedTxs_300K.csv'', gc_ReconfigTimeGap = 50, gc_Delay = -1, gc_JitterRange = -1, gc_Bandwidth = 1000\<rparr>"

text \<open>One shard with one node, and the supervisor.\<close>

definition demo_machine :: "(bytes list \<times> ((bytes \<times> bytes) \<times> bytes) list, (bytes \<times> alist_trie) list) machine" where
  "demo_machine = \<lparr>mc_os = ''linux'', mc_can_write = (\<lambda>_. True), mc_scripts = \<lparr>sf_files = (\<lambda>_. []), sf_UpToDate = []\<rparr>,
     mc_ipMap = [(0, [(0, ''node'')]), (SupervisorShard, [(0, ''sup'')])], mc_brokers = [], mc_firstIp = (\<lambda>_. None),
     mc_db = Some (bc_triedb (demo_chain 0 [])), mc_fp = ''chainDB'', mc_opened = Some (st_DataBase (bc_Storage (demo_chain 0 []))), mc_now = 0\<rparr>"

definition demo_flags :: "bool \<Rightarrow> flags" where
  "demo_flags isSup = \<lparr>fl_isGen = False, fl_isGenerateForExeFile = False, fl_shardNum = 1, fl_nodeNum = 1, fl_shardID = 0, fl_nodeID = 0,
     fl_isSupervisor = isSup, fl_useExClique = False\<rparr>"

lemmas demo_start_defs = demo_config_def demo_machine_def demo_flags_def

lemma demo_node_process: "\<exists>p. go_main demo_env demo_machine (Some demo_config) (demo_flags False) = Some (PbftProcess ''CLPA'' p)
    \<and> node_addr (PbftProcess ''CLPA'' p) = Some ''node''"
proof -
  have "NewBlockChain demo_env cc ''chainDB'' (bc_triedb (demo_chain 0 [])) (Some (st_DataBase (bc_Storage (demo_chain 0 []))))
      = Some (the (NewBlockChain demo_env cc ''chainDB'' (bc_triedb (demo_chain 0 [])) (Some (st_DataBase (bc_Storage (demo_chain 0 []))))))" for cc
    using reopened_chain[OF demo_core_laws demo_store_laws demo_chain_inv[of 0 "[]"] demo_chain_state(3)[of 0 "[]"], of cc "''chainDB''"] by force
  then obtain open_chain where
    "NewBlockChain demo_env cc ''chainDB'' (bc_triedb (demo_chain 0 [])) (Some (st_DataBase (bc_Storage (demo_chain 0 [])))) = Some (open_chain cc)" for cc
    by fast
  then show ?thesis
    by (simp add: go_main_def BuildNewPbftNode_def initConfig_def demo_start_defs ReadConfigFile_def init_params_def Let_def NewBlockChain_prm
        SupervisorShard_def assoc_get_def ip_of_def NewPbftNode_def ex_in_conv)
qed

lemma demo_sup_process: "\<exists>d. go_main demo_env demo_machine (Some demo_config) (demo_flags True) = Some (SupervisorProcess d)
    \<and> (\<exists>outs d'. sv_run demo_env (\<lambda>_. []) d demo_stop_events = Some (outs, d') \<and> sv_phase d' = SvClosed)"
    by (simp add: go_main_def BuildSupervisor_def NewSupervisor_def new_committee_def initConfig_def demo_start_defs ReadConfigFile_def init_params_def Let_def
        SupervisorShard_def assoc_get_def ip_of_def NewStopSignal_def List.map_filter_def sv_run_def demo_stop_events_def numeral_eq_Suc
        sv_handleMessage_def handleBlockInfos_def gap_update_def empty_report_def oc_HandleBlockInfo_def update_measures_def StopGap_Inc_def
        SupervisorTxHandling_poll_def GapEnough_def CloseSupervisor_def OutputRecord_def)

theorem stop_reaches_every_node_witness:
  "\<exists>d outs d'. go_main demo_env demo_machine (Some demo_config) (demo_flags True) = Some (SupervisorProcess d)
     \<and> sv_run demo_env (\<lambda>_. []) d demo_stop_events = Some (outs, d') \<and> Dial ''node'' CStop \<in> set outs"
proof -
  obtain p where p: "go_main demo_env demo_machine (Some demo_config) (demo_flags False) = Some (PbftProcess ''CLPA'' p)"
      "node_addr (PbftProcess ''CLPA'' p) = Some ''node''" using demo_node_process by blast
  obtain d outs d' where d: "go_main demo_env demo_machine (Some demo_config) (demo_flags True) = Some (SupervisorProcess d)"
      "sv_run demo_env (\<lambda>_. []) d demo_stop_events = Some (outs, d')" "sv_phase d' = SvClosed" using demo_sup_process by blast
  have "Dial ''node'' CStop \<in> set outs"
    by (rule stop_reaches_every_node[OF p d(1) _ _ _ _ _ d(2,3)]) (simp_all add: demo_flags_def)
  with d show ?thesis by blast
qed

end
