(* ===== verification/Pbft_Audit.thy ===== *)
theory Pbft_Audit
  imports Chain_Props Pbft_Node "HOL-Library.Char_ord" "HOL-Library.List_Lexorder"
begin

text \<open>
  The audit at the end of an overhead experiment (\<^verbatim>\<open>auditOverheadState\<close> of \<^verbatim>\<open>pbft_all/overhead.go\<close>): a node reports the balances of the
  accounts of the data set that belong to its shard. Rows are what the CSV reader returns one after another (\<^const>\<open>None\<close> is a read
  error); \<^const>\<open>None\<close> as a result is a panic. Strings are sorted by their bytes.
\<close>

record account_audit =
  au_account :: address
  au_balance :: int
  au_initial_balance :: int
  au_shard :: u64
  au_node :: u64

text \<open>The loop over the rows; \<open>n\<close> are left to read, and \<open>route\<close> is \<^verbatim>\<open>Get_PartitionMap\<close>. A row with fewer than four fields panics.\<close>

fun audit_rows :: "(address \<Rightarrow> u64 option) \<Rightarrow> u64 \<Rightarrow> nat \<Rightarrow> bytes list option list \<Rightarrow> address list \<Rightarrow> address list option" where
  "audit_rows route sid 0 rows found = Some found"
| "audit_rows route sid (Suc n) [] found = Some found"
| "audit_rows route sid (Suc n) (r # rest) found =
     do { row \<leftarrow> r;
          if length row < 4 then None
          else do { found \<leftarrow> foldlM (\<lambda>found a. do { s \<leftarrow> route a; Some (if s = sid then List.insert a found else found) }) found [row ! 2, row ! 3];
                    audit_rows route sid n rest found } }"

definition audit_record :: "('bs, 'bo, 'td) node \<Rightarrow> address \<Rightarrow> int \<Rightarrow> account_audit" where
  "audit_record p a balance =
     \<lparr>au_account = a, au_balance = balance, au_initial_balance = Init_Balance, au_shard = pn_ShardID p, au_node = pn_NodeID p\<rparr>"

definition auditOverheadState ::
    "('bs, 'bo, 'tr, 'td, 'ns, 'e) chain_env_scheme \<Rightarrow> bytes list option list option \<Rightarrow> ('bs, 'bo, 'td) node \<Rightarrow> account_audit list option" where
  "auditOverheadState E file p =
     (if \<not> oh_Enabled (pm_Overhead (prm E)) then Some []
      else do { f \<leftarrow> file;
                rows \<leftarrow> (case f of Some _ # rows \<Rightarrow> Some rows | _ \<Rightarrow> None);
                found \<leftarrow> audit_rows (Get_PartitionMap E (pn_CurChain p)) (pn_ShardID p) (nat (pm_TotalDataSize (prm E))) rows [];
                let addresses = sort found;
                states \<leftarrow> FetchAccounts E addresses (pn_CurChain p);
                Some (map (\<lambda>(a, s). audit_record p a (as_Balance s)) (zip addresses states)) })"

text \<open>The addresses of the rows.\<close>

definition row_ends :: "bytes list option list \<Rightarrow> address set" where
  "row_ends rows = {a. \<exists>row. Some row \<in> set rows \<and> (a = row ! 2 \<or> a = row ! 3)}"

definition readable :: "bytes list option list \<Rightarrow> bool" where
  "readable rows \<longleftrightarrow> (\<forall>r \<in> set rows. \<exists>row. r = Some row \<and> 4 \<le> length row)"

lemma row_ends_Cons: "row_ends (Some row # rows) = insert (row ! 2) (insert (row ! 3) (row_ends rows))"
  by (auto simp: row_ends_def)

lemma audit_rows_exact:
  assumes "readable (take n rows)" and "\<forall>a \<in> row_ends (take n rows). route a \<noteq> None" and "distinct found"
  shows "\<exists>res. audit_rows route sid n rows found = Some res \<and> distinct res
    \<and> set res = set found \<union> {a \<in> row_ends (take n rows). route a = Some sid}"
  using assms
proof (induction route sid n rows found rule: audit_rows.induct)
  case (3 route sid n r rest found)
  then obtain row where row: "r = Some row" "4 \<le> length row" by (auto simp: readable_def)
  obtain s2 s3 where s: "route (row ! 2) = Some s2" "route (row ! 3) = Some s3" using "3.prems"(2) row by (auto simp: row_ends_Cons)
  define f2 where "f2 = (if s2 = sid then List.insert (row ! 2) found else found)"
  define f3 where "f3 = (if s3 = sid then List.insert (row ! 3) f2 else f2)"
  have f: "foldlM (\<lambda>found a. do { s \<leftarrow> route a; Some (if s = sid then List.insert a found else found) }) found [row ! 2, row ! 3] = Some f3"
    using s by (simp add: f2_def f3_def)
  have f3: "distinct f3" "set f3 = set found \<union> {a \<in> {row ! 2, row ! 3}. route a = Some sid}"
    using "3.prems"(3) s by (auto simp: f2_def f3_def)
  have "\<exists>res. audit_rows route sid n rest f3 = Some res \<and> distinct res \<and> set res = set f3 \<union> {a \<in> row_ends (take n rest). route a = Some sid}"
    by (rule "3.IH"[OF row(1) _ f]) (use "3.prems" row f3(1) in \<open>auto simp: readable_def row_ends_Cons\<close>)
  with f f3(2) row show ?case by (auto simp: row_ends_Cons)
qed (auto simp: row_ends_def)

text \<open>
  C29. The audit is exact. On a node whose state can be read, for a data file that can be read and whose addresses have shards, the audit
  does not panic and reports, once each and in the order of their bytes, exactly the accounts of the first \<^verbatim>\<open>TotalDataSize\<close> rows that belong to the
  shard of the node, each with its balance in the ledger under the current state root. So the nodes of a shard that hold the
  same ledger and the same map report the same balances, whatever their history.
\<close>

theorem audit_exact:
  assumes "oh_Enabled (pm_Overhead (prm E))" and "state_ok E (pn_CurChain p)"
    and "ledger_at E (bc_triedb (pn_CurChain p)) (state_root (pn_CurChain p)) = Some bal"
    and "readable (take (nat (pm_TotalDataSize (prm E))) rows)"
    and "\<forall>a \<in> row_ends (take (nat (pm_TotalDataSize (prm E))) rows). Get_PartitionMap E (pn_CurChain p) a \<noteq> None"
  shows "auditOverheadState E (Some (Some header # rows)) p
    = Some (map (\<lambda>a. audit_record p a (bal a))
        (sorted_list_of_set {a \<in> row_ends (take (nat (pm_TotalDataSize (prm E))) rows). Get_PartitionMap E (pn_CurChain p) a = Some (pn_ShardID p)}))"
proof -
  let ?n = "nat (pm_TotalDataSize (prm E))" and ?bc = "pn_CurChain p"
  obtain found where f: "audit_rows (Get_PartitionMap E ?bc) (pn_ShardID p) ?n rows [] = Some found" "distinct found"
      "set found = {a \<in> row_ends (take ?n rows). Get_PartitionMap E ?bc a = Some (pn_ShardID p)}"
    using audit_rows_exact[OF assms(4,5), of "[]" "pn_ShardID p"] by auto
  have srt: "sort found = sorted_list_of_set (set found)" using f(2) by (simp add: sorted_list_of_set_sort_remdups distinct_remdups_id)
  obtain t where t: "tr_New E (bc_triedb ?bc) (state_root ?bc) = Some t" "accounts_ok E t" "balance_at E t = bal"
    using assms(2,3) by (auto simp: state_ok_def ledger_at_def)
  obtain as where as: "FetchAccounts E (sort found) ?bc = Some as" "map as_Balance as = map bal (sort found)"
    using FetchAccounts_balances[OF t(1,2)] t(3) by blast
  have "map (\<lambda>(a, s). audit_record p a (as_Balance s)) (zip xs as) = map (case_prod (audit_record p)) (zip xs (map as_Balance as))" for xs
    by (simp add: zip_map2 split_beta comp_def)
  then have "map (\<lambda>(a, s). audit_record p a (as_Balance s)) (zip (sort found) as) = map (\<lambda>a. audit_record p a (bal a)) (sort found)"
    by (simp add: as(2) map2_map_map[of _ "\<lambda>a. a", simplified])
  then show ?thesis using assms(1) f(1,3) srt as(1) by (simp add: auditOverheadState_def Let_def)
qed

text \<open>A node of shard 0, for one transfer from shard 0 to shard 1.\<close>

definition audit_env :: "(nat list, bytes list \<times> ((bytes \<times> bytes) \<times> bytes) list, alist_trie, (bytes \<times> alist_trie) list, bytes \<times> alist_trie) chain_env" where
  "audit_env = demo_env\<lparr>prm := demo_params\<lparr>pm_Overhead := (pm_Overhead demo_params)\<lparr>oh_Enabled := True\<rparr>\<rparr>\<rparr>"

definition audit_node :: "(nat list, bytes list \<times> ((bytes \<times> bytes) \<times> bytes) list, (bytes \<times> alist_trie) list) node" where
  "audit_node = NewPbftNode audit_env (\<lambda>_ _. []) 0 0 2 (demo_cc 0) (demo_chain 0 [])"

theorem audit_exact_witness:
  "auditOverheadState audit_env (Some [Some [''n'', ''time'', ''from'', ''to'', ''amount''], Some [''0'', ''9'', ''a0'', ''b1'', ''5'']]) audit_node
     = Some [\<lparr>au_account = ''a0'', au_balance = Init_Balance, au_initial_balance = Init_Balance, au_shard = 0, au_node = 2\<rparr>]"
proof -
  let ?rows = "[Some [''0'', ''9'', ''a0'', ''b1'', ''5'']]"
  have en: "oh_Enabled (pm_Overhead (prm audit_env))" "nat (pm_TotalDataSize (prm audit_env)) = 160000" by (simp_all add: audit_env_def demo_params_def)
  have n: "pn_CurChain audit_node = demo_chain 0 []" "pn_ShardID audit_node = 0" "pn_NodeID audit_node = 2" by (simp_all add: audit_node_def NewPbftNode_def)
  have st: "tr_New audit_env (bc_triedb (demo_chain 0 [])) (state_root (demo_chain 0 [])) = Some []" "accounts_ok audit_env []"
    using demo_chain_state(1,2) by (simp_all add: audit_env_def accounts_ok_def)
  have bal: "balance_at audit_env [] a = Init_Balance" for a by (simp add: balance_at_def audit_env_def)
  have ends: "row_ends (take (nat (pm_TotalDataSize (prm audit_env))) ?rows) = {''a0'', ''b1''}" by (auto simp: en(2) row_ends_def)
  have rt: "Get_PartitionMap audit_env (demo_chain 0 []) ''a0'' = Some 0" "Get_PartitionMap audit_env (demo_chain 0 []) ''b1'' = Some 1"
    by (simp_all add: Get_PartitionMap_def demo_chain_def)
  have own: "{a \<in> {''a0'', ''b1''}. Get_PartitionMap audit_env (demo_chain 0 []) a = Some 0} = {''a0''}" using rt by auto
  have "state_ok audit_env (pn_CurChain audit_node)" using st n(1) by (auto simp: state_ok_def)
  moreover have "ledger_at audit_env (bc_triedb (pn_CurChain audit_node)) (state_root (pn_CurChain audit_node)) = Some (balance_at audit_env [])"
    using st n(1) by (simp add: ledger_at_def)
  moreover have "readable (take (nat (pm_TotalDataSize (prm audit_env))) ?rows)" by (simp add: readable_def en(2))
  moreover have "\<forall>a \<in> row_ends (take (nat (pm_TotalDataSize (prm audit_env))) ?rows). Get_PartitionMap audit_env (pn_CurChain audit_node) a \<noteq> None"
    unfolding ends n(1) using rt by simp
  ultimately show ?thesis using audit_exact[OF en(1), of audit_node "balance_at audit_env []" ?rows "[''n'', ''time'', ''from'', ''to'', ''amount'']"]
    unfolding ends n own by (simp add: audit_record_def n bal)
qed

end
