(* ===== verification/Pbft_Metrics.thy ===== *)
theory Pbft_Metrics
  imports Pbft_Modules
begin

text \<open>
  The file in which the leaders of a shard record their blocks (\<^verbatim>\<open>writeCSVline\<close> of \<^verbatim>\<open>pbft_all/toolFuncs.go\<close> and its calls in the
  \<^verbatim>\<open>HandleinCommit\<close> of the variants). A file is the list of its rows, a row the list of its fields. Failures of the file system, which
  panic, are left out. The numbers of a row are those of \<^const>\<open>metric_line\<close>.
\<close>

section \<open>Rows\<close>

definition block_columns :: "bytes list" where
  "block_columns = [''Block Height'', ''EpochID of this block'', ''TxPool Size'', ''# of all Txs in this block'']"

definition relay_metricName :: "bytes list" where
  "relay_metricName = block_columns
     @ [''# of Relay1 Txs in this block'', ''# of Relay2 Txs in this block'',
        ''TimeStamp - Propose (unixMill)'', ''TimeStamp - Commit (unixMill)'', ''SUM of confirm latency (ms, All Txs)'',
        ''SUM of confirm latency (ms, Relay1 Txs) (Duration: Relay1 proposed -> Relay1 Commit)'',
        ''SUM of confirm latency (ms, Relay2 Txs) (Duration: Relay1 proposed -> Relay2 Commit)'']"

definition broker_metricName :: "bytes list" where
  "broker_metricName = block_columns
     @ [''# of Broker1 Txs in this block'', ''# of Broker2 Txs in this block'',
        ''TimeStamp - Propose (unixMill)'', ''TimeStamp - Commit (unixMill)'', ''SUM of confirm latency (ms, All Txs)'',
        ''SUM of confirm latency (ms, Broker1 Txs) (Duration: Broker1 proposed -> Broker1 Commit)'',
        ''SUM of confirm latency (ms, Broker2 Txs) (Duration: Broker2 proposed -> Broker2 Commit)'']"

definition contrib_metricName :: "bytes list" where
  "contrib_metricName =
     [''Block Height'', ''EpochID'', ''TxPool Size'', ''# of all Txs'', ''# of Relay1 Txs'', ''# of Relay2 Txs'',
      ''TimeStamp - Propose (unixMill)'', ''TimeStamp - Commit (unixMill)'', ''SUM of confirm latency (ms, All Txs)'',
      ''SUM of confirm latency (ms, Relay1 Txs)'', ''SUM of confirm latency (ms, Relay2 Txs)'']"

definition metric_path :: "Params \<Rightarrow> ('bs, 'bo, 'td) node \<Rightarrow> bytes" where
  "metric_path pr p =
     pm_DataWrite_path pr @ ''pbft_shardNum='' @ Itoa (sint (cc_ShardNums (pn_pbftChainConfig p)))
     @ ''/Shard'' @ Itoa (uint (pn_ShardID p)) @ Itoa (uint (cc_ShardNums (pn_pbftChainConfig p))) @ ''.csv''"

text \<open>The header only goes to an empty file.\<close>

definition writeCSVline ::
    "Params \<Rightarrow> ('bs, 'bo, 'td) node \<Rightarrow> bytes list \<Rightarrow> bytes list \<Rightarrow> (bytes \<Rightarrow> bytes list list) \<Rightarrow> (bytes \<Rightarrow> bytes list list)" where
  "writeCSVline pr p metricName metricVal fs =
     (let targetPath = metric_path pr p
      in fs(targetPath := (if fs targetPath = [] then [metricName] else fs targetPath) @ [metricVal]))"

section \<open>The file of a shard\<close>

text \<open>What a node has recorded after producing \<open>outs\<close>.\<close>

fun record_out :: "Params \<Rightarrow> ('bs, 'bo, 'td) node \<Rightarrow> bytes list \<Rightarrow> net_out \<Rightarrow> (bytes \<Rightarrow> bytes list list) \<Rightarrow> (bytes \<Rightarrow> bytes list list)" where
  "record_out pr p metricName (CsvLine vals) fs = writeCSVline pr p metricName (map Itoa vals) fs"
| "record_out pr p metricName _ fs = fs"

fun csv_rows :: "net_out \<Rightarrow> bytes list list" where
  "csv_rows (CsvLine vals) = [map Itoa vals]"
| "csv_rows _ = []"

lemma metric_names_length [simp]: "length relay_metricName = 11" "length broker_metricName = 11" "length contrib_metricName = 11"
  by (simp_all add: relay_metricName_def broker_metricName_def contrib_metricName_def block_columns_def)

lemma metric_line_length: "length (concat (csv_rows (metric_line block epoch p t1 t2 body one two))) = 11"
  by (simp add: metric_line_def)

text \<open>
  A file that did not exist holds, after any outputs, the header once and a row for each block recorded, in order; other files are unchanged.
\<close>

theorem metrics_file:
  assumes "fs (metric_path pr p) = []"
  shows "fold (record_out pr p metricName) outs fs =
    fs(metric_path pr p := (if concat (map csv_rows outs) = [] then [] else metricName # concat (map csv_rows outs)))"
proof (induction outs rule: rev_induct)
  case Nil
  with assms show ?case by auto
next
  case (snoc out outs)
  then show ?case by (cases out) (auto simp: writeCSVline_def Let_def)
qed

end
