(* ===== verification/Spec2Isabelle.thy ===== *)
theory Spec2Isabelle
  imports Pbft_Props Pbft_Migration Clpa_Props Sup_Clpa_Props Sup_Contrib Sup_PLouvain_Props
    Sup_Supervisor_Props Ex_Props Net_Delivery Part_PLouvain_Props Sup_Tables Build_Props Pbft_Audit Pbft_Metrics
begin

text \<open>
  \<^bold>\<open>BLBChain, a sharded block chain emulator.\<close>

  A supervisor process reads a data set of transactions and injects them into shards; the nodes of a
  shard agree on blocks by PBFT, or by the clique-style consensus ExClique; transactions that cross shards are
  relayed by the leaders or split by brokers; partition algorithms move accounts between shards; and
  measure modules of the supervisor count what the shards report. This development models these
  parts as executable functions and proves their properties. Paths below are relative to \<^verbatim>\<open>src/\<close>.

  \<^bold>\<open>Conventions.\<close> \<^theory_text>\<open>Blb_Prelude\<close> says how Go values are represented: strings and byte slices are character lists,
  \<^verbatim>\<open>uint64\<close> is a 64-bit word, \<^verbatim>\<open>big.Int\<close> and the counters of type \<^verbatim>\<open>int\<close> are integers, a time is a number of nanoseconds with 0 as
  the zero time. A panic is \<^const>\<open>None\<close>; errors the code handles are values. A Go map that is ranged over is an
  association list, and where the code may see a different order at every range the orders are arguments. Code
  outside the repository (gob, SHA-256, the bit set, the bolt database, the trie, sockets, the rate limiter) is a field
  of an environment record or an argument, its documented behaviour is a named predicate (\<open>core_laws\<close>, \<open>store_laws\<close>,
  \<open>trie_laws\<close>, \<open>proof_laws\<close>, \<open>write_laws\<close>), and \<^theory_text>\<open>Model_Env\<close> and \<^theory_text>\<open>Model_Node\<close> give an executable instance
  that satisfies them, on which the witnesses run. JSON is the transport: handlers take the decoded values.
  \<^verbatim>\<open>float64\<close> is the rounding arithmetic of \<^theory_text>\<open>Go_Float\<close>, slices with their index panics are in \<^theory_text>\<open>Go_Slice\<close>, number parsing in
  \<^theory_text>\<open>Go_Parse\<close>.

  \<^bold>\<open>Data and chain.\<close>
  \<^item> \<^theory_text>\<open>Params_Config\<close>: \<^verbatim>\<open>params/\<close>. \<^theory_text>\<open>Core_Data\<close>: \<^verbatim>\<open>core/account.go\<close>, \<^verbatim>\<open>transaction.go\<close>, \<^verbatim>\<open>block.go\<close>, \<^verbatim>\<open>utils/\<close>, with round trips of the encodings.
  \<^item> \<^theory_text>\<open>Tx_Pool\<close>: \<^verbatim>\<open>core/txpool.go\<close>; the locale \<open>fifo_pool\<close> shows that the queue is first in, first out over any sequence of operations.
  \<^item> \<^theory_text>\<open>Wire_Message\<close>: \<^verbatim>\<open>message/\<close> and the 30-byte envelope. \<^theory_text>\<open>Block_Storage\<close>: \<^verbatim>\<open>storage/storage.go\<close>.
  \<^item> \<^theory_text>\<open>Block_Chain\<close>, \<^theory_text>\<open>Chain_Ledger\<close>, \<^theory_text>\<open>Chain_Props\<close>: \<^verbatim>\<open>chain/blockchain.go\<close>. Executing a block refines an abstract ledger, conserves
    money up to the flows that enter and leave the shard, and keeps balances non-negative; proposer and replicas agree; a chain
    reopens where it was; the stored history is a linked chain.
  \<^item> \<^theory_text>\<open>Merkle_Proof\<close>: \<^verbatim>\<open>chain/merkleproof.go\<close>; proofs of stored transactions exist and verify, and what an accepted proof says.

  \<^bold>\<open>PBFT\<close> (\<^verbatim>\<open>consensus_shard/pbft_all/\<close>).
  \<^item> \<^theory_text>\<open>Pbft_Node\<close>: the node and \<^verbatim>\<open>toolFuncs.go\<close>; the locale \<open>vote_table\<close> is the contract of the vote tables, for prepare and commit votes and
    for new views. \<^theory_text>\<open>Pbft_Overhead\<close>: compact proposals.
  \<^item> \<^theory_text>\<open>Pbft_Modules\<close>, \<^theory_text>\<open>Pbft_Outside\<close>: the exchangeable parts in their five variants. \<^theory_text>\<open>Pbft_Handlers\<close>: the consensus handlers, view change and
    dispatch. \<^theory_text>\<open>Pbft_Frames\<close>: the locale \<open>node_modules\<close>, what the exchangeable parts may touch, interpreted on each variant.
  \<^item> \<^theory_text>\<open>Pbft_System\<close>: a running node as the step relation \<open>pbft_step\<close> over messages, goroutines and locks; \<^theory_text>\<open>Pbft_Safety\<close>, \<^theory_text>\<open>Pbft_Props\<close>:
    quorums behind every execution, commit and view, execution at most once and in order, overlap of quorums of two nodes.
    \<^theory_text>\<open>Pbft_Run\<close> runs the relation by a schedule for the witnesses. \<^theory_text>\<open>Pbft_Migration\<close>: classification of transactions for the relay, and
    that handing accounts over loses nothing.
  \<^item> \<^theory_text>\<open>Pbft_Audit\<close>: the audit of the overhead experiment reports exactly the accounts of the shard with their balances. \<^theory_text>\<open>Pbft_Metrics\<close>: the file of
    a shard's blocks.

  \<^bold>\<open>Partitioning\<close> (\<^verbatim>\<open>partition/\<close>).
  \<^item> \<^theory_text>\<open>Part_Graph\<close>, \<^theory_text>\<open>Clpa_State\<close>, \<^theory_text>\<open>Clpa_Partition\<close>, \<^theory_text>\<open>Contrib_State\<close>: graph, CLPA, ContribChain and contribution scores.
  \<^item> \<^theory_text>\<open>Clpa_Tally\<close>: the incremental edge tallies equal those computed from the graph. \<^theory_text>\<open>Clpa_Correct\<close>: the locale \<open>label_propagation\<close>,
    proved once for both algorithms. \<^theory_text>\<open>Clpa_Props\<close>: no panic, no emptied shard, exact results, termination.
  \<^item> \<^theory_text>\<open>Part_PLouvain\<close>, \<^theory_text>\<open>Part_PLouvain_Props\<close>: the P-Louvain state and its phases; communities partition the accounts, and moves only
    reduce the cut.

  \<^bold>\<open>Supervisor\<close> (\<^verbatim>\<open>supervisor/\<close>, \<^verbatim>\<open>broker/\<close>).
  \<^item> \<^theory_text>\<open>Sup_Sending\<close>: batches, the relay committee and the stop signal. \<^theory_text>\<open>Sup_Clpa\<close>, \<^theory_text>\<open>Sup_Broker\<close>, \<^theory_text>\<open>Sup_ClpaBroker\<close>, \<^theory_text>\<open>Sup_Contrib\<close>,
    \<^theory_text>\<open>Sup_PLouvain\<close>, \<^theory_text>\<open>Sup_Overhead\<close>: the other committees. The concurrent committees are runs over events, each a turn of the sending
    loop, a poll or a report. Their \<open>_Props\<close> theories show that they do not panic, that accounts are routed to existing shards,
    that brokers pay only after a report, and that everything is sent once and in order.
  \<^item> \<^theory_text>\<open>Sup_Measure\<close>, \<^theory_text>\<open>Sup_Measure_Props\<close>: the measure modules; the locale \<open>epoch_measure\<close> shows for all of them that they count the
    reports exactly. \<^theory_text>\<open>Sup_Tables\<close>: the tables they write, with the decimal text of the numbers.
  \<^item> \<^theory_text>\<open>Sup_Supervisor\<close>, \<^theory_text>\<open>Sup_Supervisor_Props\<close>: \<^verbatim>\<open>supervisor.go\<close>, over every committee; it stops all nodes when, and only when, all is done.

  \<^bold>\<open>ExClique\<close> (\<^verbatim>\<open>consensus_shard/exclique/\<close>). \<^theory_text>\<open>Ex_Filter\<close>, \<^theory_text>\<open>Ex_Delay\<close>, \<^theory_text>\<open>Ex_Order\<close> model the Bloom filter, the delay and the order
  manager, each with its exact specification; \<^theory_text>\<open>Ex_Node\<close> the node with its goroutines, \<^theory_text>\<open>Ex_Props\<close> its runs: linked chains, lines on
  connections, and two defects of the code stated as theorems.

  \<^bold>\<open>Networks\<close> (\<^verbatim>\<open>networks/\<close>). \<^theory_text>\<open>Net_Layer\<close>: pooled connections, retries, chunked writes, reading and traffic classes.
  \<^theory_text>\<open>Net_Delivery\<close>: the reading loops of nodes and supervisor, and the way of a message from a successful dial, through failures and
  interleavings of the sender's goroutines, to the handler of its receiver.

  \<^bold>\<open>Start\<close> (\<^verbatim>\<open>main.go\<close>, \<^verbatim>\<open>build/\<close>). \<^theory_text>\<open>Build_Main\<close>: configuration of a process, choice between supervisor and nodes, script files;
  \<^theory_text>\<open>Build_Props\<close>: the scripts hold every command once, and the supervisor's stop messages go to the addresses of the nodes.

  \<^bold>\<open>Bounds and fuel.\<close> No definition uses fuel. Loops are structural or have a termination proof. Loops that may not end
  are \<^theory_text>\<open>partial_function\<close>s (two loops of \<^theory_text>\<open>Net_Layer\<close>) or steps of an event sequence, where waiting is an event that may come
  again. Counters of Go type \<^verbatim>\<open>int\<close> that count things held in memory are unbounded; words are kept at their width
  elsewhere, and theorems that need absence of overflow say so (for example the \<open>2\<^sup>5\<^sup>2\<close> halves of the measures).

  \<^bold>\<open>Not modelled.\<close> Listening sockets, log output and the traces of \<^verbatim>\<open>experiment/\<close> (I/O), and functions that only print. Failures of the
  file system, which panic, are left out where files are written.
\<close>

end
